(* ===== verification/Emssh_Prelude.thy ===== *)
theory Emssh_Prelude
  imports Main "HOL-Library.Word"
begin

text \<open>
  Shared vocabulary of the development: the machine integers of the C sources, the error codes of
  \<^verbatim>\<open>include/emssh/ssh_error.h\<close>, the status-or-value actions that the C functions are translated to,
  and the generic lemmas on lists and big-endian words the components share.

  A C function that returns \<^verbatim>\<open>int\<close> status and works on an object \<open>s\<close> becomes an action
  \<open>s \<Rightarrow> (ssh_err + 'a) \<times> s\<close>: \<open>Inr\<close> is \<^verbatim>\<open>SSH_OK\<close> with the value left in the out parameter,
  \<open>Inl\<close> is an error code, and the second component is the object after the call, also after a
  failing one. The chain \<^verbatim>\<open>if (status == SSH_OK) status = f(...)\<close> of the sources is \<open>bindA\<close> / \<open>seqA\<close>.
\<close>

unbundle bit_operations_syntax

type_synonym u8 = "8 word"
type_synonym u32 = "32 word"
type_synonym u64 = "64 word"

text \<open>A \<^verbatim>\<open>ssh_string_view_t\<close>: \<open>None\<close> is the zeroed view (data NULL, len 0), \<open>Some bs\<close> a view of
  the bytes \<open>bs\<close>. A \<^verbatim>\<open>const char *\<close> is \<open>None\<close> for NULL or the bytes before the terminating NUL.\<close>

type_synonym view = "u8 list option"
type_synonym cstr = "u8 list option"

section \<open>Error codes and actions\<close>

datatype ssh_err =
    SSH_ERR_INVALID_ARGUMENT
  | SSH_ERR_BUFFER_TOO_SMALL
  | SSH_ERR_BUFFER_OVERFLOW
  | SSH_ERR_BUFFER_UNDERFLOW
  | SSH_ERR_MALFORMED_PACKET
  | SSH_ERR_UNSUPPORTED
  | SSH_ERR_PLATFORM
  | SSH_ERR_SECURITY
  | SSH_ERR_CLOSED
  | SSH_ERR_NOT_FOUND
  | SSH_ERR_ALREADY_EXISTS
  | SSH_ERR_DIR_NOT_EMPTY
  | SSH_ERR_READ_ONLY

type_synonym ('s, 'a) act = "'s \<Rightarrow> (ssh_err + 'a) \<times> 's"

definition retA :: "'a \<Rightarrow> ('s, 'a) act" where
  "retA x s = (Inr x, s)"

definition failA :: "ssh_err \<Rightarrow> ('s, 'a) act" where
  "failA e s = (Inl e, s)"

definition bindA :: "('s, 'a) act \<Rightarrow> ('a \<Rightarrow> ('s, 'b) act) \<Rightarrow> ('s, 'b) act" where
  "bindA m f s = (case m s of (r, s') \<Rightarrow> (case r of Inl e \<Rightarrow> (Inl e, s') | Inr x \<Rightarrow> f x s'))"

definition ensureA :: "bool \<Rightarrow> ssh_err \<Rightarrow> ('s, unit) act" where
  "ensureA c e = (if c then retA () else failA e)"

definition thenA :: "('s, unit) act \<Rightarrow> ('s, 'a) act \<Rightarrow> ('s, 'a) act" where
  "thenA m n = bindA m (\<lambda>_. n)"

fun seqA :: "('s, unit) act list \<Rightarrow> ('s, unit) act" where
  "seqA [] = retA ()"
| "seqA (m # ms) = thenA m (seqA ms)"

text \<open>One call per element of a list, in order, stopping at the first error.\<close>

fun mapA :: "('x \<Rightarrow> ('s, 'a) act) \<Rightarrow> 'x list \<Rightarrow> ('s, 'a list) act" where
  "mapA f [] = retA []"
| "mapA f (x # xs) = bindA (f x) (\<lambda>y. bindA (mapA f xs) (\<lambda>ys. retA (y # ys)))"

text \<open>\<open>orelseA m e\<close> replaces the error of a failing \<open>m\<close> by \<open>e\<close>
  (\<^verbatim>\<open>if (status != SSH_OK) return e;\<close>).\<close>

definition orelseA :: "('s, 'a) act \<Rightarrow> ssh_err \<Rightarrow> ('s, 'a) act" where
  "orelseA m e s = (case m s of (r, s') \<Rightarrow> (case r of Inl _ \<Rightarrow> (Inl e, s') | Inr x \<Rightarrow> (Inr x, s')))"

text \<open>The same chain for a function without an object to thread.\<close>

definition bindS :: "ssh_err + 'a \<Rightarrow> ('a \<Rightarrow> ssh_err + 'b) \<Rightarrow> ssh_err + 'b" where
  "bindS r f = (case r of Inl e \<Rightarrow> Inl e | Inr x \<Rightarrow> f x)"

lemma bindS_simps [simp]: "bindS (Inl e) f = Inl e" "bindS (Inr x) f = f x"
  by (simp_all add: bindS_def)

lemma bindS_eq_Inr: "bindS r f = Inr y \<longleftrightarrow> (\<exists>x. r = Inr x \<and> f x = Inr y)"
  by (cases r) simp_all

named_theorems act_simps \<open>unfolding the action combinators\<close>

lemma retA_apply [act_simps, simp]: "retA x s = (Inr x, s)"
  by (simp add: retA_def)

lemma failA_apply [act_simps, simp]: "failA e s = (Inl e, s)"
  by (simp add: failA_def)

lemma bindA_apply [act_simps]:
  "bindA m f s = (case m s of (Inl e, s') \<Rightarrow> (Inl e, s') | (Inr x, s') \<Rightarrow> f x s')"
  by (simp add: bindA_def split: prod.splits sum.splits)

lemma bindA_Inr [simp]: "m s = (Inr x, s') \<Longrightarrow> bindA m f s = f x s'"
  by (simp add: bindA_def)

lemma bindA_Inl [simp]: "m s = (Inl e, s') \<Longrightarrow> bindA m f s = (Inl e, s')"
  by (simp add: bindA_def)

lemma ensureA_apply [act_simps, simp]: "ensureA c e s = (if c then Inr () else Inl e, s)"
  by (simp add: ensureA_def)

lemma bindA_ensureA [simp]:
  "bindA (ensureA c e) f s = (if c then f () s else (Inl e, s))"
  by (simp add: bindA_def)

lemma thenA_ensureA [simp]:
  "thenA (ensureA c e) n s = (if c then n s else (Inl e, s))"
  by (simp add: thenA_def)

lemma thenA_ensureA_True [simp]: "thenA (ensureA True e) n = n"
  by (rule ext) simp

lemma thenA_Inr [simp]: "m s = (Inr (), s') \<Longrightarrow> thenA m n s = n s'"
  by (simp add: thenA_def)

lemma thenA_Inl [simp]: "m s = (Inl e, s') \<Longrightarrow> thenA m n s = (Inl e, s')"
  by (simp add: thenA_def)

lemma orelseA_Inr [simp]: "m s = (Inr x, s') \<Longrightarrow> orelseA m e s = (Inr x, s')"
  by (simp add: orelseA_def)

lemma orelseA_Inl [simp]: "m s = (Inl d, s') \<Longrightarrow> orelseA m e s = (Inl e, s')"
  by (simp add: orelseA_def)

lemma bindA_eq_Inr:
  "bindA m f s = (Inr y, t) \<longleftrightarrow> (\<exists>x s'. m s = (Inr x, s') \<and> f x s' = (Inr y, t))"
  by (auto simp: bindA_def split: prod.splits sum.splits)

lemma thenA_eq_Inr:
  "thenA m n s = (Inr y, t) \<longleftrightarrow> (\<exists>s'. m s = (Inr (), s') \<and> n s' = (Inr y, t))"
  by (auto simp: thenA_def bindA_eq_Inr)

lemma orelseA_eq_Inr [simp]: "orelseA m e s = (Inr x, t) \<longleftrightarrow> m s = (Inr x, t)"
  by (auto simp: orelseA_def split: prod.splits sum.splits)

lemma ensureA_eq_Inr [simp]: "ensureA c e s = (Inr y, t) \<longleftrightarrow> c \<and> t = s"
  by auto

lemma thenA_assoc [simp]: "thenA (thenA a b) c = thenA a (thenA b c)"
  by (rule ext) (simp add: thenA_def bindA_def split: prod.splits sum.splits)

lemma thenA_ret_left [simp]: "thenA (retA ()) m = m"
  by (rule ext) simp

lemma seqA_append: "seqA (ms @ ns) = thenA (seqA ms) (seqA ns)"
  by (induction ms) simp_all

lemmas act_InrE = bindA_eq_Inr thenA_eq_Inr

section \<open>Byte strings\<close>

text \<open>The bytes of a C string literal.\<close>

definition lit :: "string \<Rightarrow> u8 list" where
  "lit s = map of_char s"

lemma lit_simps [simp]:
  "lit [] = []"
  "lit (c # cs) = of_char c # lit cs"
  by (simp_all add: lit_def)

lemma length_lit [simp]: "length (lit s) = length s"
  by (simp add: lit_def)

lemma length_dropWhile_hd: "p \<noteq> [] \<Longrightarrow> P (hd p) \<Longrightarrow> length (dropWhile P p) < length p"
  by (cases p) (auto simp: le_imp_less_Suc length_dropWhile_le)

definition view_len :: "view \<Rightarrow> nat" where
  "view_len v = (case v of None \<Rightarrow> 0 | Some bs \<Rightarrow> length bs)"

definition view_data :: "view \<Rightarrow> u8 list" where
  "view_data v = (case v of None \<Rightarrow> [] | Some bs \<Rightarrow> bs)"

lemma view_data_simps [simp]: "view_data None = []" "view_data (Some bs) = bs"
  by (simp_all add: view_data_def)

lemma length_view_data [simp]: "length (view_data v) = view_len v"
  by (simp add: view_data_def view_len_def split: option.splits)

lemma view_len_simps [simp]: "view_len None = 0" "view_len (Some bs) = length bs"
  by (simp_all add: view_len_def)

section \<open>Splicing a byte string into a storage array\<close>

text \<open>\<^verbatim>\<open>memcpy(xs + n, ys, len)\<close>.\<close>

definition overwrite :: "'a list \<Rightarrow> nat \<Rightarrow> 'a list \<Rightarrow> 'a list" where
  "overwrite xs n ys = take n xs @ ys @ drop (n + length ys) xs"

lemma length_overwrite [simp]: "n + length ys \<le> length xs \<Longrightarrow> length (overwrite xs n ys) = length xs"
  by (simp add: overwrite_def)

lemma take_overwrite [simp]:
  "n \<le> length xs \<Longrightarrow> take (n + length ys) (overwrite xs n ys) = take n xs @ ys"
  by (simp add: overwrite_def)

lemma take_overwrite_le: "m \<le> n \<Longrightarrow> n \<le> length xs \<Longrightarrow> take m (overwrite xs n ys) = take m xs"
  by (simp add: overwrite_def min_def)

lemma overwrite_Nil [simp]: "overwrite xs n [] = xs"
  by (simp add: overwrite_def)

lemma overwrite_overwrite:
  "n + length ys \<le> length xs \<Longrightarrow>
   overwrite (overwrite xs n ys) (n + length ys) zs = overwrite xs n (ys @ zs)"
  by (simp add: overwrite_def ac_simps)

lemma overwrite_single: "n < length xs \<Longrightarrow> overwrite xs n [y] = xs[n := y]"
  by (simp add: overwrite_def upd_conv_take_nth_drop)

section \<open>Big-endian words\<close>

text \<open>The four bytes \<^verbatim>\<open>(uint8_t)((value >> 24) & 0xffu)\<close>, ... that the sources store and the word
  \<^verbatim>\<open>((uint32_t)p[0] << 24) | ...\<close> they read back, and the same for 64 bits.\<close>

definition be32 :: "u32 \<Rightarrow> u8 list" where
  "be32 v = [ucast (drop_bit 24 v AND 255), ucast (drop_bit 16 v AND 255),
             ucast (drop_bit 8 v AND 255), ucast (v AND 255)]"

definition be64 :: "u64 \<Rightarrow> u8 list" where
  "be64 v = [ucast (drop_bit 56 v AND 255), ucast (drop_bit 48 v AND 255),
             ucast (drop_bit 40 v AND 255), ucast (drop_bit 32 v AND 255),
             ucast (drop_bit 24 v AND 255), ucast (drop_bit 16 v AND 255),
             ucast (drop_bit 8 v AND 255), ucast (v AND 255)]"

definition of_be32 :: "u8 list \<Rightarrow> u32" where
  "of_be32 p = push_bit 24 (ucast (p ! 0)) OR push_bit 16 (ucast (p ! 1)) OR
               push_bit 8 (ucast (p ! 2)) OR ucast (p ! 3)"

definition of_be64 :: "u8 list \<Rightarrow> u64" where
  "of_be64 p = push_bit 56 (ucast (p ! 0)) OR push_bit 48 (ucast (p ! 1)) OR
               push_bit 40 (ucast (p ! 2)) OR push_bit 32 (ucast (p ! 3)) OR
               push_bit 24 (ucast (p ! 4)) OR push_bit 16 (ucast (p ! 5)) OR
               push_bit 8 (ucast (p ! 6)) OR ucast (p ! 7)"

lemma length_be [simp]: "length (be32 v) = 4" "length (be64 w) = 8"
  by (simp_all add: be32_def be64_def)

lemma ucast_and_255 [simp]: "(ucast (x AND 255 :: 'a::len word) :: u8) = ucast x"
proof -
  have "(255 :: 'a word) = mask 8"
    by (simp add: mask_eq_exp_minus_1)
  then show ?thesis
    by (auto simp add: bit_eq_iff bit_simps dest: bit_imp_le_length)
qed

lemma of_be32_be32_append [simp]: "of_be32 (be32 v @ rest) = v"
proof (rule bit_word_eqI)
  fix n :: nat
  assume n: "n < LENGTH(32)"
  then consider "n < 8" | "8 \<le> n" "n < 16" | "16 \<le> n" "n < 24" | "24 \<le> n" "n < 32"
    by fastforce
  then show "bit (of_be32 (be32 v @ rest)) n = bit v n"
    by cases (auto simp add: of_be32_def be32_def bit_simps less_diff_conv2)
qed

lemma of_be64_be64_append [simp]: "of_be64 (be64 v @ rest) = v"
proof (rule bit_word_eqI)
  fix n :: nat
  assume n: "n < LENGTH(64)"
  then consider "n < 8" | "8 \<le> n" "n < 16" | "16 \<le> n" "n < 24" | "24 \<le> n" "n < 32"
    | "32 \<le> n" "n < 40" | "40 \<le> n" "n < 48" | "48 \<le> n" "n < 56" | "56 \<le> n" "n < 64"
    by fastforce
  then show "bit (of_be64 (be64 v @ rest)) n = bit v n"
    by cases (auto simp add: of_be64_def be64_def bit_simps less_diff_conv2)
qed

lemma of_be_be [simp]: "of_be32 (be32 v) = v" "of_be64 (be64 w) = w"
  using of_be32_be32_append [of v "[]"] of_be64_be64_append [of w "[]"] by simp_all

lemma be32_of_be32_Cons: "be32 (of_be32 (a # b # c # d # rest)) = [a, b, c, d]"
  by (auto simp add: of_be32_def be32_def bit_eq_iff bit_simps dest: bit_imp_le_length)

lemma be64_of_be64_Cons:
  "be64 (of_be64 (a # b # c # d # e # f # g # h # rest)) = [a, b, c, d, e, f, g, h]"
  by (auto simp add: of_be64_def be64_def bit_eq_iff bit_simps dest: bit_imp_le_length)

lemma be32_of_be32: "4 \<le> length p \<Longrightarrow> be32 (of_be32 p) = take 4 p"
  by (auto simp: numeral_eq_Suc Suc_le_length_iff be32_of_be32_Cons)

lemma be64_of_be64: "8 \<le> length p \<Longrightarrow> be64 (of_be64 p) = take 8 p"
  by (auto simp: numeral_eq_Suc Suc_le_length_iff be64_of_be64_Cons)

lemma be32_eq_iff [simp]: "be32 v = be32 w \<longleftrightarrow> v = w"
  by (metis of_be_be(1))

lemma be64_eq_iff [simp]: "be64 v = be64 w \<longleftrightarrow> v = w"
  by (metis of_be_be(2))

lemma of_nat_u32_unat [simp]: "n < 2 ^ 32 \<Longrightarrow> unat (of_nat n :: u32) = n"
  by (simp add: unsigned_of_nat take_bit_nat_eq_self)

lemma unat_u32_less [simp]: "unat (v :: u32) < 4294967296"
  using unsigned_less [of v, where ?'a = nat] by simp

lemma unat_u8_less [simp]: "unat (v :: u8) < 256"
  using unsigned_less [of v, where ?'a = nat] by simp

end
