(* ===== verification/Ssh_Buffer.thy ===== *)
theory Ssh_Buffer
  imports Emssh_Prelude
begin

text \<open>
  \<^verbatim>\<open>src/core/ssh_buffer.c\<close>: the bounded buffer every message is written to and read from, and its
  SSH data types (RFC 4251: byte, boolean, uint32, uint64, string, mpint).

  The first part translates the C functions. The second part abstracts a buffer to the bytes
  written (\<open>buf_content\<close>) and the bytes not yet read (\<open>buf_unread\<close>) and states what a writer and a
  reader of a message promise: the locales \<open>buffer_writer\<close>, \<open>buffer_reader\<close> and \<open>wire_format\<close>,
  interpreted here for the elementary types and in the other theories for the messages.

  A pointer argument that designates an object (\<^verbatim>\<open>buf\<close>, an out parameter) is modelled by the object,
  so the guards against a NULL \<^verbatim>\<open>buf\<close> have no counterpart; \<^verbatim>\<open>buf->data\<close>, which may be NULL in a live
  object, is an option. An input pair \<^verbatim>\<open>(const uint8_t *data, size_t len)\<close> is the list of its bytes.
\<close>

section \<open>The buffer\<close>

record ssh_buffer =
  buf_data :: "u8 list option"
  buf_capacity :: nat
  buf_len :: nat
  buf_pos :: nat

definition ssh_buffer_init :: "u8 list option \<Rightarrow> nat \<Rightarrow> ssh_buffer" where
  "ssh_buffer_init storage cap =
     \<lparr>buf_data = storage, buf_capacity = cap, buf_len = 0, buf_pos = 0\<rparr>"

definition ssh_buffer_wrap :: "u8 list option \<Rightarrow> nat \<Rightarrow> ssh_buffer" where
  "ssh_buffer_wrap storage n =
     \<lparr>buf_data = storage, buf_capacity = n, buf_len = n, buf_pos = 0\<rparr>"

definition ssh_buffer_reset :: "ssh_buffer \<Rightarrow> ssh_buffer" where
  "ssh_buffer_reset b = b\<lparr>buf_len := 0, buf_pos := 0\<rparr>"

definition ssh_buffer_len :: "ssh_buffer \<Rightarrow> nat" where
  "ssh_buffer_len b = buf_len b"

definition ssh_buffer_capacity :: "ssh_buffer \<Rightarrow> nat" where
  "ssh_buffer_capacity b = buf_capacity b"

definition ssh_buffer_data :: "ssh_buffer \<Rightarrow> u8 list option" where
  "ssh_buffer_data b = buf_data b"

definition ssh_buffer_const_data :: "ssh_buffer \<Rightarrow> u8 list option" where
  "ssh_buffer_const_data b = buf_data b"

definition ssh_buffer_remaining_read :: "ssh_buffer \<Rightarrow> nat" where
  "ssh_buffer_remaining_read b = (if buf_pos b > buf_len b then 0 else buf_len b - buf_pos b)"

definition ssh_buffer_remaining_write :: "ssh_buffer \<Rightarrow> nat" where
  "ssh_buffer_remaining_write b =
     (if buf_len b > buf_capacity b then 0 else buf_capacity b - buf_len b)"

text \<open>The stores of a put operation: \<open>bs\<close> at \<^verbatim>\<open>buf->data + buf->len\<close>, then \<^verbatim>\<open>buf->len += len\<close>.\<close>

definition buf_append :: "ssh_buffer \<Rightarrow> u8 list \<Rightarrow> ssh_buffer" where
  "buf_append b bs =
     b\<lparr>buf_data := map_option (\<lambda>d. overwrite d (buf_len b) bs) (buf_data b),
       buf_len := buf_len b + length bs\<rparr>"

definition buf_advance :: "ssh_buffer \<Rightarrow> nat \<Rightarrow> ssh_buffer" where
  "buf_advance b n = b\<lparr>buf_pos := buf_pos b + n\<rparr>"

subsection \<open>Writing\<close>

definition ssh_buffer_put_u8 :: "u8 \<Rightarrow> (ssh_buffer, unit) act" where
  "ssh_buffer_put_u8 v b =
     (if buf_data b = None then (Inl SSH_ERR_INVALID_ARGUMENT, b)
      else if ssh_buffer_remaining_write b < 1 then (Inl SSH_ERR_BUFFER_OVERFLOW, b)
      else (Inr (), buf_append b [v]))"

definition ssh_buffer_put_bool :: "bool \<Rightarrow> (ssh_buffer, unit) act" where
  "ssh_buffer_put_bool v = ssh_buffer_put_u8 (if v then 1 else 0)"

definition ssh_buffer_put_u32 :: "u32 \<Rightarrow> (ssh_buffer, unit) act" where
  "ssh_buffer_put_u32 v b =
     (if buf_data b = None then (Inl SSH_ERR_INVALID_ARGUMENT, b)
      else if ssh_buffer_remaining_write b < 4 then (Inl SSH_ERR_BUFFER_OVERFLOW, b)
      else (Inr (), buf_append b (be32 v)))"

definition ssh_buffer_put_u64 :: "u64 \<Rightarrow> (ssh_buffer, unit) act" where
  "ssh_buffer_put_u64 v b =
     (if buf_data b = None then (Inl SSH_ERR_INVALID_ARGUMENT, b)
      else if ssh_buffer_remaining_write b < 8 then (Inl SSH_ERR_BUFFER_OVERFLOW, b)
      else (Inr (), buf_append b (be64 v)))"

definition ssh_buffer_put_bytes :: "u8 list \<Rightarrow> (ssh_buffer, unit) act" where
  "ssh_buffer_put_bytes bs b =
     (if buf_data b = None then (Inl SSH_ERR_INVALID_ARGUMENT, b)
      else if ssh_buffer_remaining_write b < length bs then (Inl SSH_ERR_BUFFER_OVERFLOW, b)
      else (Inr (), if length bs \<noteq> 0 then buf_append b bs else b))"

definition UINT32_MAX :: nat where
  "UINT32_MAX = 4294967295"

definition ssh_buffer_put_string :: "u8 list \<Rightarrow> (ssh_buffer, unit) act" where
  "ssh_buffer_put_string bs =
     (if length bs > UINT32_MAX then failA SSH_ERR_INVALID_ARGUMENT
      else thenA (ssh_buffer_put_u32 (of_nat (length bs))) (ssh_buffer_put_bytes bs))"

definition ssh_buffer_put_cstring :: "cstr \<Rightarrow> (ssh_buffer, unit) act" where
  "ssh_buffer_put_cstring v =
     (case v of None \<Rightarrow> failA SSH_ERR_INVALID_ARGUMENT | Some s \<Rightarrow> ssh_buffer_put_string s)"

text \<open>\<^verbatim>\<open>while (start < len && data[start] == 0u) ++start;\<close> leaves the bytes from the first nonzero one.\<close>

definition ssh_buffer_put_mpint_positive :: "u8 list \<Rightarrow> (ssh_buffer, unit) act" where
  "ssh_buffer_put_mpint_positive bs b =
     (if buf_data b = None \<or> length bs > UINT32_MAX then (Inl SSH_ERR_INVALID_ARGUMENT, b)
      else case dropWhile (\<lambda>x. x = 0) bs of
        [] \<Rightarrow> ssh_buffer_put_u32 0 b
      | m # ms \<Rightarrow>
          if m AND 0x80 \<noteq> 0 then
            if length (m # ms) \<ge> UINT32_MAX then (Inl SSH_ERR_INVALID_ARGUMENT, b)
            else seqA [ssh_buffer_put_u32 (of_nat (length (m # ms) + 1)),
                       ssh_buffer_put_u8 0, ssh_buffer_put_bytes (m # ms)] b
          else ssh_buffer_put_string (m # ms) b)"

subsection \<open>Reading\<close>

text \<open>\<open>buf_at b n\<close>: the \<open>n\<close> bytes from \<^verbatim>\<open>buf->data + buf->pos\<close>.\<close>

definition buf_at :: "ssh_buffer \<Rightarrow> nat \<Rightarrow> u8 list" where
  "buf_at b n = (case buf_data b of None \<Rightarrow> [] | Some d \<Rightarrow> take n (drop (buf_pos b) d))"

definition ssh_buffer_get_u8 :: "(ssh_buffer, u8) act" where
  "ssh_buffer_get_u8 b =
     (if buf_data b = None then (Inl SSH_ERR_INVALID_ARGUMENT, b)
      else if ssh_buffer_remaining_read b < 1 then (Inl SSH_ERR_BUFFER_UNDERFLOW, b)
      else (Inr (buf_at b 1 ! 0), buf_advance b 1))"

definition ssh_buffer_get_bool :: "(ssh_buffer, bool) act" where
  "ssh_buffer_get_bool =
     bindA ssh_buffer_get_u8 (\<lambda>raw.
     thenA (ensureA (raw = 0 \<or> raw = 1) SSH_ERR_MALFORMED_PACKET)
     (retA (raw \<noteq> 0)))"

definition ssh_buffer_get_u32 :: "(ssh_buffer, u32) act" where
  "ssh_buffer_get_u32 b =
     (if buf_data b = None then (Inl SSH_ERR_INVALID_ARGUMENT, b)
      else if ssh_buffer_remaining_read b < 4 then (Inl SSH_ERR_BUFFER_UNDERFLOW, b)
      else (Inr (of_be32 (buf_at b 4)), buf_advance b 4))"

definition ssh_buffer_get_u64 :: "(ssh_buffer, u64) act" where
  "ssh_buffer_get_u64 b =
     (if buf_data b = None then (Inl SSH_ERR_INVALID_ARGUMENT, b)
      else if ssh_buffer_remaining_read b < 8 then (Inl SSH_ERR_BUFFER_UNDERFLOW, b)
      else (Inr (of_be64 (buf_at b 8)), buf_advance b 8))"

definition ssh_buffer_get_bytes :: "nat \<Rightarrow> (ssh_buffer, u8 list) act" where
  "ssh_buffer_get_bytes n b =
     (if buf_data b = None then (Inl SSH_ERR_INVALID_ARGUMENT, b)
      else if ssh_buffer_remaining_read b < n then (Inl SSH_ERR_BUFFER_UNDERFLOW, b)
      else if n \<noteq> 0 then (Inr (buf_at b n), buf_advance b n)
      else (Inr [], b))"

definition ssh_buffer_get_string_view :: "(ssh_buffer, view) act" where
  "ssh_buffer_get_string_view =
     bindA ssh_buffer_get_u32 (\<lambda>n b.
       if ssh_buffer_remaining_read b < unat n then (Inl SSH_ERR_BUFFER_UNDERFLOW, b)
       else (Inr (Some (buf_at b (unat n))), buf_advance b (unat n)))"

text \<open>\<^verbatim>\<open>ssh_buffer_remaining_read(payload) == 0u ? SSH_OK : e\<close>, the end of every decoder.\<close>

definition at_endA :: "ssh_err \<Rightarrow> (ssh_buffer, unit) act" where
  "at_endA e b = (if ssh_buffer_remaining_read b = 0 then Inr () else Inl e, b)"

section \<open>Invariant and abstraction\<close>

definition buf_wf :: "ssh_buffer \<Rightarrow> bool" where
  "buf_wf b \<longleftrightarrow> (case buf_data b of None \<Rightarrow> False
     | Some d \<Rightarrow> buf_pos b \<le> buf_len b \<and> buf_len b \<le> buf_capacity b \<and> buf_capacity b \<le> length d)"

definition buf_content :: "ssh_buffer \<Rightarrow> u8 list" where
  "buf_content b = (case buf_data b of None \<Rightarrow> [] | Some d \<Rightarrow> take (buf_len b) d)"

definition buf_unread :: "ssh_buffer \<Rightarrow> u8 list" where
  "buf_unread b = drop (buf_pos b) (buf_content b)"

definition buf_room :: "ssh_buffer \<Rightarrow> nat" where
  "buf_room b = buf_capacity b - buf_len b"

lemmas buf_defs = buf_wf_def buf_content_def buf_unread_def buf_room_def buf_append_def
  buf_advance_def ssh_buffer_remaining_read_def ssh_buffer_remaining_write_def buf_at_def

lemma buf_wfE:
  assumes "buf_wf b"
  obtains d where "buf_data b = Some d" "buf_pos b \<le> buf_len b" "buf_len b \<le> buf_capacity b"
    "buf_capacity b \<le> length d"
  using assms by (auto simp: buf_wf_def split: option.splits)

lemma buf_wf_init [simp]: "cap \<le> length d \<Longrightarrow> buf_wf (ssh_buffer_init (Some d) cap)"
  by (simp add: buf_wf_def ssh_buffer_init_def)

lemma buf_init_simps [simp]:
  "buf_content (ssh_buffer_init s cap) = []" "buf_room (ssh_buffer_init s cap) = cap"
  "buf_len (ssh_buffer_init s cap) = 0" "buf_pos (ssh_buffer_init s cap) = 0"
  "buf_data (ssh_buffer_init s cap) = s" "buf_capacity (ssh_buffer_init s cap) = cap"
  by (simp_all add: buf_defs ssh_buffer_init_def split: option.splits)

lemma buf_wf_wrap [simp]: "n \<le> length d \<Longrightarrow> buf_wf (ssh_buffer_wrap (Some d) n)"
  by (simp add: buf_wf_def ssh_buffer_wrap_def)

lemma buf_unread_wrap [simp]: "buf_unread (ssh_buffer_wrap (Some d) n) = take n d"
  by (simp add: buf_defs ssh_buffer_wrap_def)

lemma buf_wf_reset [simp]: "buf_wf b \<Longrightarrow> buf_wf (ssh_buffer_reset b)"
  by (auto simp: buf_wf_def ssh_buffer_reset_def split: option.splits)

lemma length_buf_content [simp]: "buf_wf b \<Longrightarrow> length (buf_content b) = buf_len b"
  by (elim buf_wfE) (simp add: buf_content_def)

lemma remaining_write_room [simp]:
  "buf_wf b \<Longrightarrow> ssh_buffer_remaining_write b = buf_room b"
  by (elim buf_wfE) (simp add: buf_defs)

lemma remaining_read_unread [simp]:
  "buf_wf b \<Longrightarrow> ssh_buffer_remaining_read b = length (buf_unread b)"
  by (elim buf_wfE) (auto simp add: buf_defs min_def)

lemma buf_at_unread [simp]:
  "buf_wf b \<Longrightarrow> n \<le> length (buf_unread b) \<Longrightarrow> buf_at b n = take n (buf_unread b)"
  by (elim buf_wfE) (auto simp add: buf_defs drop_take min_def split: if_splits)

lemma buf_data_wf [simp]: "buf_wf b \<Longrightarrow> buf_data b \<noteq> None"
  by (auto simp: buf_wf_def split: option.splits)

subsection \<open>Appending and advancing\<close>

lemma buf_wf_append [simp]: "buf_wf b \<Longrightarrow> length bs \<le> buf_room b \<Longrightarrow> buf_wf (buf_append b bs)"
  by (elim buf_wfE) (simp add: buf_defs)

lemma buf_content_append [simp]:
  "buf_wf b \<Longrightarrow> length bs \<le> buf_room b \<Longrightarrow> buf_content (buf_append b bs) = buf_content b @ bs"
  by (elim buf_wfE) (simp add: buf_defs)

lemma buf_append_fields [simp]:
  "buf_len (buf_append b bs) = buf_len b + length bs" "buf_pos (buf_append b bs) = buf_pos b"
  "buf_capacity (buf_append b bs) = buf_capacity b"
  "buf_room (buf_append b bs) = buf_room b - length bs"
  by (simp_all add: buf_defs)

lemma buf_append_Nil [simp]: "buf_append b [] = b"
  by (simp add: buf_append_def option.map_ident)

lemma buf_append_append:
  "buf_wf b \<Longrightarrow> length xs \<le> buf_room b \<Longrightarrow> buf_append (buf_append b xs) ys = buf_append b (xs @ ys)"
  by (elim buf_wfE) (simp add: buf_defs overwrite_overwrite)

lemma buf_wf_advance [simp]: "buf_wf b \<Longrightarrow> n \<le> length (buf_unread b) \<Longrightarrow> buf_wf (buf_advance b n)"
  by (elim buf_wfE) (simp add: buf_defs)

lemma buf_unread_advance [simp]: "buf_unread (buf_advance b n) = drop n (buf_unread b)"
  by (simp add: buf_defs add.commute split: option.splits)

lemma buf_advance_advance [simp]: "buf_advance (buf_advance b m) n = buf_advance b (m + n)"
  by (simp add: buf_advance_def)

lemma buf_advance_0 [simp]: "buf_advance b 0 = b"
  by (simp add: buf_advance_def)

lemma buf_advance_fields [simp]:
  "buf_data (buf_advance b n) = buf_data b" "buf_len (buf_advance b n) = buf_len b"
  "buf_capacity (buf_advance b n) = buf_capacity b" "buf_content (buf_advance b n) = buf_content b"
  by (simp_all add: buf_defs split: option.splits)

section \<open>What a writer and a reader promise\<close>

text \<open>A failed write leaves the buffer well formed, extended by a part of the message.\<close>

definition buf_extends :: "ssh_buffer \<Rightarrow> ssh_buffer \<Rightarrow> bool" where
  "buf_extends b b' \<longleftrightarrow> (\<exists>p. length p \<le> buf_room b \<and> b' = buf_append b p)"

lemma buf_extends_refl [simp]: "buf_extends b b"
  unfolding buf_extends_def by (rule exI [where x = "[]"]) simp

lemma buf_extends_wf: "buf_extends b b' \<Longrightarrow> buf_wf b \<Longrightarrow> buf_wf b' \<and> buf_capacity b' = buf_capacity b"
  by (auto simp: buf_extends_def)

lemma buf_extends_append:
  assumes "buf_wf b" and "length xs \<le> buf_room b" and "buf_extends (buf_append b xs) b'"
  shows "buf_extends b b'"
proof -
  from assms(3) obtain p where "length p \<le> buf_room b - length xs" "b' = buf_append (buf_append b xs) p"
    by (auto simp: buf_extends_def)
  with assms have "length (xs @ p) \<le> buf_room b" "b' = buf_append b (xs @ p)"
    by (simp_all add: buf_append_append)
  then show ?thesis
    unfolding buf_extends_def by blast
qed

text \<open>A writer of \<open>bytes\<close> appends exactly these bytes when they fit and otherwise reports
  \<^verbatim>\<open>SSH_ERR_BUFFER_OVERFLOW\<close> without touching anything outside the buffer's free space.\<close>

locale buffer_writer =
  fixes put :: "(ssh_buffer, unit) act" and bytes :: "u8 list"
  assumes put_fits: "buf_wf b \<Longrightarrow> length bytes \<le> buf_room b \<Longrightarrow> put b = (Inr (), buf_append b bytes)"
    and put_overflows: "buf_wf b \<Longrightarrow> buf_room b < length bytes \<Longrightarrow>
      \<exists>b'. put b = (Inl SSH_ERR_BUFFER_OVERFLOW, b') \<and> buf_extends b b'"
begin

lemma put_cases:
  assumes "buf_wf b"
  obtains "length bytes \<le> buf_room b" "put b = (Inr (), buf_append b bytes)"
  | b' where "buf_room b < length bytes" "put b = (Inl SSH_ERR_BUFFER_OVERFLOW, b')" "buf_extends b b'"
  using put_fits [OF assms] put_overflows [OF assms] by (meson leI)

lemma put_ok_iff: "buf_wf b \<Longrightarrow> fst (put b) = Inr () \<longleftrightarrow> length bytes \<le> buf_room b"
  by (erule put_cases) auto

lemma put_wf: "buf_wf b \<Longrightarrow> buf_wf (snd (put b)) \<and> buf_capacity (snd (put b)) = buf_capacity b"
  by (rule put_cases [of b]) (auto dest: buf_extends_wf)

lemma put_content:
  "buf_wf b \<Longrightarrow> put b = (Inr (), b') \<Longrightarrow> buf_content b' = buf_content b @ bytes"
  by (rule put_cases [of b]) auto

end

named_theorems writer_intros \<open>introduction rules for buffer writers\<close>

lemma buffer_writer_put_u8 [writer_intros]: "buffer_writer (ssh_buffer_put_u8 v) [v]"
  by unfold_locales (auto simp: ssh_buffer_put_u8_def)

lemma buffer_writer_put_bool [writer_intros]:
  "buffer_writer (ssh_buffer_put_bool v) [if v then 1 else 0]"
  unfolding ssh_buffer_put_bool_def by (rule buffer_writer_put_u8)

lemma buffer_writer_put_u32 [writer_intros]: "buffer_writer (ssh_buffer_put_u32 v) (be32 v)"
  by unfold_locales (auto simp: ssh_buffer_put_u32_def)

lemma buffer_writer_put_u64 [writer_intros]: "buffer_writer (ssh_buffer_put_u64 v) (be64 v)"
  by unfold_locales (auto simp: ssh_buffer_put_u64_def)

lemma buffer_writer_put_bytes [writer_intros]: "buffer_writer (ssh_buffer_put_bytes bs) bs"
  by unfold_locales (auto simp: ssh_buffer_put_bytes_def)

lemma buffer_writer_retA [writer_intros]: "buffer_writer (retA ()) []"
  by unfold_locales auto

text \<open>The contract composes along the \<^verbatim>\<open>if (status == SSH_OK)\<close> chains.\<close>

lemma buffer_writer_thenA [writer_intros]:
  assumes p: "buffer_writer p xs" and q: "buffer_writer q ys"
  shows "buffer_writer (thenA p q) (xs @ ys)"
proof
  fix b
  assume wf: "buf_wf b"
  note pf = buffer_writer.put_fits [OF p wf] and po = buffer_writer.put_overflows [OF p wf]
  show "thenA p q b = (Inr (), buf_append b (xs @ ys))" if "length (xs @ ys) \<le> buf_room b"
    using that wf pf buffer_writer.put_fits [OF q] by (simp add: buf_append_append)
  show "\<exists>b'. thenA p q b = (Inl SSH_ERR_BUFFER_OVERFLOW, b') \<and> buf_extends b b'"
    if "buf_room b < length (xs @ ys)"
  proof (cases "length xs \<le> buf_room b")
    case True
    then have "buf_wf (buf_append b xs)" "buf_room (buf_append b xs) < length ys"
      using that wf by simp_all
    then obtain b' where "q (buf_append b xs) = (Inl SSH_ERR_BUFFER_OVERFLOW, b')"
      "buf_extends (buf_append b xs) b'"
      using buffer_writer.put_overflows [OF q] by blast
    then show ?thesis
      using True wf pf buf_extends_append by (intro exI [of _ b']) simp
  next
    case False
    with po show ?thesis by auto
  qed
qed

definition string_bytes :: "u8 list \<Rightarrow> u8 list" where
  "string_bytes bs = be32 (of_nat (length bs)) @ bs"

lemma length_string_bytes [simp]: "length (string_bytes bs) = 4 + length bs"
  by (simp add: string_bytes_def)

lemma buffer_writer_put_string [writer_intros]:
  "length bs \<le> UINT32_MAX \<Longrightarrow> buffer_writer (ssh_buffer_put_string bs) (string_bytes bs)"
  by (simp add: ssh_buffer_put_string_def string_bytes_def writer_intros)

lemma buffer_writer_put_cstring [writer_intros]:
  "length bs \<le> UINT32_MAX \<Longrightarrow> buffer_writer (ssh_buffer_put_cstring (Some bs)) (string_bytes bs)"
  by (simp add: ssh_buffer_put_cstring_def buffer_writer_put_string)

lemma buffer_writer_seqA:
  "list_all2 buffer_writer ps bss \<Longrightarrow> buffer_writer (seqA ps) (concat bss)"
  by (induction rule: list_all2_induct) (simp_all add: writer_intros del: retA_apply)

subsection \<open>Readers\<close>

text \<open>\<open>buf_consumes b bs b'\<close>: the unread part of \<open>b\<close> starts with \<open>bs\<close>, and \<open>b'\<close> is \<open>b\<close> after them.\<close>

definition buf_consumes :: "ssh_buffer \<Rightarrow> u8 list \<Rightarrow> ssh_buffer \<Rightarrow> bool" where
  "buf_consumes b bs b' \<longleftrightarrow>
     length bs \<le> length (buf_unread b) \<and> take (length bs) (buf_unread b) = bs \<and>
     b' = buf_advance b (length bs)"

lemma buf_consumes_wf: "buf_consumes b bs b' \<Longrightarrow> buf_wf b \<Longrightarrow> buf_wf b'"
  by (simp add: buf_consumes_def)

lemma buf_consumes_unread: "buf_consumes b bs b' \<Longrightarrow> buf_unread b = bs @ buf_unread b'"
  unfolding buf_consumes_def by (metis append_take_drop_id buf_unread_advance)

lemma buf_consumesI: "buf_unread b = bs @ r \<Longrightarrow> buf_consumes b bs (buf_advance b (length bs))"
  by (simp add: buf_consumes_def)

lemma buf_consumes_iff:
  "buf_consumes b bs b' \<longleftrightarrow> (\<exists>r. buf_unread b = bs @ r) \<and> b' = buf_advance b (length bs)"
  by (metis buf_consumesI buf_consumes_def buf_consumes_unread)

lemma buf_consumes_Nil [simp]: "buf_consumes b [] b' \<longleftrightarrow> b' = b"
  by (simp add: buf_consumes_def)

lemma buf_consumes_append:
  "buf_consumes b (xs @ ys) b' \<longleftrightarrow> (\<exists>m. buf_consumes b xs m \<and> buf_consumes m ys b')"
proof
  assume "buf_consumes b (xs @ ys) b'"
  then obtain r where r: "buf_unread b = xs @ (ys @ r)" "b' = buf_advance b (length xs + length ys)"
    by (auto simp: buf_consumes_iff)
  then show "\<exists>m. buf_consumes b xs m \<and> buf_consumes m ys b'"
    by (intro exI [of _ "buf_advance b (length xs)"]) (simp add: buf_consumes_iff)
next
  assume "\<exists>m. buf_consumes b xs m \<and> buf_consumes m ys b'"
  then show "buf_consumes b (xs @ ys) b'"
    by (auto simp: buf_consumes_iff)
qed

lemma buf_consumes_Cons:
  "NO_MATCH [] xs \<Longrightarrow>
   buf_consumes b (x # xs) b' \<longleftrightarrow> (\<exists>m. buf_consumes b [x] m \<and> buf_consumes m xs b')"
  using buf_consumes_append [of b "[x]" xs b'] by simp

text \<open>A reader of values with the encoding \<open>bytes\<close> succeeds exactly on the encodings of the valid
  values and consumes exactly them.\<close>

locale buffer_reader =
  fixes get :: "(ssh_buffer, 'a) act" and bytes :: "'a \<Rightarrow> u8 list" and valid :: "'a \<Rightarrow> bool"
  assumes get_iff: "buf_wf b \<Longrightarrow> get b = (Inr x, b') \<longleftrightarrow> valid x \<and> buf_consumes b (bytes x) b'"
begin

lemma get_wf: "buf_wf b \<Longrightarrow> get b = (Inr x, b') \<Longrightarrow> buf_wf b'"
  by (auto simp: get_iff dest: buf_consumes_wf)

lemma bind_get:
  "buf_wf b \<Longrightarrow> bindA get f b = (Inr y, t) \<longleftrightarrow>
     (\<exists>x s. valid x \<and> buf_wf s \<and> buf_consumes b (bytes x) s \<and> f x s = (Inr y, t))"
  by (auto simp: bindA_eq_Inr get_iff dest: buf_consumes_wf)

lemma get_encoding:
  "buf_wf b \<Longrightarrow> valid x \<Longrightarrow> buf_unread b = bytes x @ r \<Longrightarrow>
   get b = (Inr x, buf_advance b (length (bytes x)))"
  by (simp add: get_iff buf_consumes_iff)

lemma bind_encoding:
  "buf_wf b \<Longrightarrow> valid x \<Longrightarrow> buf_unread b = bytes x @ r \<Longrightarrow>
   bindA get f b = f x (buf_advance b (length (bytes x)))"
  by (rule bindA_Inr) (rule get_encoding)

lemma bytes_unique_parse:
  assumes "valid x" "valid y" "bytes x @ r = bytes y @ s"
  shows "x = y \<and> r = s"
proof -
  let ?b = "ssh_buffer_wrap (Some (bytes x @ r)) (length (bytes x @ r))"
  have u: "buf_wf ?b" "buf_unread ?b = bytes x @ r" "buf_unread ?b = bytes y @ s"
    using assms(3) by simp_all
  have "get ?b = (Inr x, buf_advance ?b (length (bytes x)))"
    using u assms(1) by (intro get_encoding)
  moreover have "get ?b = (Inr y, buf_advance ?b (length (bytes y)))"
    using u assms(2) by (intro get_encoding)
  ultimately show ?thesis
    using assms(3) by simp
qed

lemma bytes_inj: "valid x \<Longrightarrow> valid y \<Longrightarrow> bytes x = bytes y \<Longrightarrow> x = y"
  using bytes_unique_parse [of x y "[]" "[]"] by simp

end

text \<open>A wire format pairs a reader with a writer of the same encoding.\<close>

locale wire_format = buffer_reader get bytes valid
  for get :: "(ssh_buffer, 'a) act" and bytes :: "'a \<Rightarrow> u8 list" and valid :: "'a \<Rightarrow> bool" +
  fixes put :: "'a \<Rightarrow> (ssh_buffer, unit) act"
  assumes put_writes: "valid x \<Longrightarrow> buffer_writer (put x) (bytes x)"
begin

lemma put_then_get:
  assumes "valid x" "buf_wf b" "buf_unread b = []" "length (bytes x) \<le> buf_room b"
  shows "\<exists>b'. put x b = (Inr (), b') \<and> get b' = (Inr x, buf_advance b' (length (bytes x)))"
proof -
  have put: "put x b = (Inr (), buf_append b (bytes x))"
    using assms put_writes buffer_writer.put_fits by blast
  have "buf_pos b = buf_len b"
    using assms(2,3) by (elim buf_wfE) (simp add: buf_defs)
  then have "buf_unread (buf_append b (bytes x)) = bytes x"
    using assms by (simp add: buf_unread_def)
  then have "get (buf_append b (bytes x)) = (Inr x, buf_advance (buf_append b (bytes x)) (length (bytes x)))"
    using assms by (intro get_encoding [where r = "[]"]) simp_all
  with put show ?thesis by blast
qed

end

text \<open>A message decoder also insists on the end of the input: it accepts exactly the encodings of the
  valid messages.\<close>

locale message_decoder =
  fixes decode :: "(ssh_buffer, 'a) act" and bytes :: "'a \<Rightarrow> u8 list" and valid :: "'a \<Rightarrow> bool"
  assumes decode_iff: "buf_wf b \<Longrightarrow> decode b = (Inr x, b') \<longleftrightarrow>
      valid x \<and> buf_unread b = bytes x \<and> b' = buf_advance b (length (bytes x))"
begin

lemma decode_encoding:
  "buf_wf b \<Longrightarrow> valid x \<Longrightarrow> buf_unread b = bytes x \<Longrightarrow>
   decode b = (Inr x, buf_advance b (length (bytes x)))"
  by (simp add: decode_iff)

lemma decode_wrapped:
  "fst (decode (ssh_buffer_wrap (Some m) (length m))) = Inr x \<longleftrightarrow> valid x \<and> m = bytes x"
proof
  assume "fst (decode (ssh_buffer_wrap (Some m) (length m))) = Inr x"
  then obtain b' where "decode (ssh_buffer_wrap (Some m) (length m)) = (Inr x, b')"
    by (metis prod.collapse)
  then show "valid x \<and> m = bytes x"
    by (simp add: decode_iff)
next
  assume "valid x \<and> m = bytes x"
  then show "fst (decode (ssh_buffer_wrap (Some m) (length m))) = Inr x"
    using decode_encoding [of "ssh_buffer_wrap (Some m) (length m)" x] by simp
qed

lemma message_inj: "valid x \<Longrightarrow> valid y \<Longrightarrow> bytes x = bytes y \<Longrightarrow> x = y"
  by (metis decode_wrapped sum.inject(2))

end

locale wire_message = message_decoder decode bytes valid
  for decode :: "(ssh_buffer, 'a) act" and bytes :: "'a \<Rightarrow> u8 list" and valid :: "'a \<Rightarrow> bool" +
  fixes encode :: "'a \<Rightarrow> (ssh_buffer, unit) act"
  assumes encode_writes: "valid x \<Longrightarrow> buffer_writer (encode x) (bytes x)"
begin

text \<open>What a sender writes into a fresh array of \<open>cap\<close> bytes, a receiver that wraps those bytes decodes.\<close>

lemma encode_decode:
  assumes "valid x" "length storage = cap" "length (bytes x) \<le> cap"
  shows "\<exists>b'. encode x (ssh_buffer_init (Some storage) cap) = (Inr (), b') \<and> buf_content b' = bytes x \<and>
    fst (decode (ssh_buffer_wrap (Some (buf_content b')) (length (buf_content b')))) = Inr x"
proof -
  let ?b = "ssh_buffer_init (Some storage) cap"
  have "encode x ?b = (Inr (), buf_append ?b (bytes x))"
    using assms buffer_writer.put_fits [OF encode_writes [OF assms(1)], of ?b] by simp
  then show ?thesis
    using assms by (simp add: decode_wrapped)
qed

end

lemma wire_messageI:
  assumes "\<And>b x b'. buf_wf b \<Longrightarrow> decode b = (Inr x, b') \<longleftrightarrow>
      valid x \<and> buf_unread b = bytes x \<and> b' = buf_advance b (length (bytes x))"
    and "\<And>x. valid x \<Longrightarrow> buffer_writer (encode x) (bytes x)"
  shows "wire_message decode bytes valid encode"
  using assms by (simp add: wire_message_def wire_message_axioms_def message_decoder_def)

lemma buf_consumes_all:
  "buf_unread b = bs \<and> b' = buf_advance b (length bs) \<longleftrightarrow> buf_consumes b bs b' \<and> buf_unread b' = []"
  by (auto simp: buf_consumes_iff)

lemma wire_formatI:
  assumes "\<And>b x b'. buf_wf b \<Longrightarrow> get b = (Inr x, b') \<longleftrightarrow> valid x \<and> buf_consumes b (bytes x) b'"
    and "\<And>x. valid x \<Longrightarrow> buffer_writer (put x) (bytes x)"
  shows "wire_format get bytes valid put"
  using assms by (simp add: wire_format_def wire_format_axioms_def buffer_reader_def)

subsection \<open>The elementary types\<close>

lemma get_u8_unread:
  "buf_wf b \<Longrightarrow> ssh_buffer_get_u8 b =
     (case buf_unread b of [] \<Rightarrow> (Inl SSH_ERR_BUFFER_UNDERFLOW, b) | x # _ \<Rightarrow> (Inr x, buf_advance b 1))"
  by (auto simp: ssh_buffer_get_u8_def split: list.splits)

lemma get_u32_unread:
  "buf_wf b \<Longrightarrow> ssh_buffer_get_u32 b =
     (if length (buf_unread b) < 4 then (Inl SSH_ERR_BUFFER_UNDERFLOW, b)
      else (Inr (of_be32 (take 4 (buf_unread b))), buf_advance b 4))"
  by (auto simp: ssh_buffer_get_u32_def)

lemma get_u64_unread:
  "buf_wf b \<Longrightarrow> ssh_buffer_get_u64 b =
     (if length (buf_unread b) < 8 then (Inl SSH_ERR_BUFFER_UNDERFLOW, b)
      else (Inr (of_be64 (take 8 (buf_unread b))), buf_advance b 8))"
  by (auto simp: ssh_buffer_get_u64_def)

lemma get_bytes_unread:
  "buf_wf b \<Longrightarrow> ssh_buffer_get_bytes n b =
     (if length (buf_unread b) < n then (Inl SSH_ERR_BUFFER_UNDERFLOW, b)
      else (Inr (take n (buf_unread b)), buf_advance b n))"
  by (auto simp: ssh_buffer_get_bytes_def)

interpretation u8: wire_format ssh_buffer_get_u8 "\<lambda>v. [v]" "\<lambda>_. True" ssh_buffer_put_u8
proof (rule wire_formatI)
  show "(ssh_buffer_get_u8 b = (Inr x, b')) = (True \<and> buf_consumes b [x] b')" if "buf_wf b" for b x b'
    using that by (auto simp: get_u8_unread buf_consumes_iff split: list.splits)
qed (rule buffer_writer_put_u8)

interpretation u32: wire_format ssh_buffer_get_u32 be32 "\<lambda>_. True" ssh_buffer_put_u32
proof (rule wire_formatI)
  show "(ssh_buffer_get_u32 b = (Inr x, b')) = (True \<and> buf_consumes b (be32 x) b')"
    if "buf_wf b" for b x b'
    using that by (auto simp: get_u32_unread buf_consumes_def be32_of_be32)
qed (rule buffer_writer_put_u32)

interpretation u64: wire_format ssh_buffer_get_u64 be64 "\<lambda>_. True" ssh_buffer_put_u64
proof (rule wire_formatI)
  show "(ssh_buffer_get_u64 b = (Inr x, b')) = (True \<and> buf_consumes b (be64 x) b')"
    if "buf_wf b" for b x b'
    using that by (auto simp: get_u64_unread buf_consumes_def be64_of_be64)
qed (rule buffer_writer_put_u64)

definition bool_byte :: "bool \<Rightarrow> u8" where
  "bool_byte v = (if v then 1 else 0)"

interpretation boolean: wire_format ssh_buffer_get_bool "\<lambda>v. [bool_byte v]" "\<lambda>_. True" ssh_buffer_put_bool
proof (rule wire_formatI)
  show "(ssh_buffer_get_bool b = (Inr x, b')) = (True \<and> buf_consumes b [bool_byte x] b')"
    if "buf_wf b" for b x b'
    using that by (auto simp: ssh_buffer_get_bool_def bindA_eq_Inr u8.get_iff bool_byte_def)
      (metis zero_neq_one)+
qed (simp add: buffer_writer_put_bool bool_byte_def)

interpretation fixed_bytes: wire_format "ssh_buffer_get_bytes n" "\<lambda>bs. bs" "\<lambda>bs. length bs = n"
  ssh_buffer_put_bytes for n
proof (rule wire_formatI)
  show "(ssh_buffer_get_bytes n b = (Inr x, b')) = (length x = n \<and> buf_consumes b x b')"
    if "buf_wf b" for b x b'
    using that by (auto simp: get_bytes_unread buf_consumes_def min_def)
qed (rule buffer_writer_put_bytes)

definition string_valid :: "view \<Rightarrow> bool" where
  "string_valid v \<longleftrightarrow> (case v of None \<Rightarrow> False | Some bs \<Rightarrow> length bs \<le> UINT32_MAX)"

definition view_bytes :: "view \<Rightarrow> u8 list" where
  "view_bytes v = string_bytes (view_data v)"

definition put_view :: "view \<Rightarrow> (ssh_buffer, unit) act" where
  "put_view v = ssh_buffer_put_string (view_data v)"

lemma string_valid_Some [simp]: "string_valid (Some bs) \<longleftrightarrow> length bs \<le> UINT32_MAX"
  by (simp add: string_valid_def)

lemma string_valid_None [simp]: "\<not> string_valid None"
  by (simp add: string_valid_def)

lemma view_bytes_Some [simp]: "view_bytes (Some bs) = string_bytes bs"
  by (simp add: view_bytes_def)

lemma get_string_view_iff:
  assumes wf: "buf_wf b"
  shows "ssh_buffer_get_string_view b = (Inr x, b') \<longleftrightarrow> string_valid x \<and> buf_consumes b (view_bytes x) b'"
proof
  assume "ssh_buffer_get_string_view b = (Inr x, b')"
  then obtain n s where s: "buf_wf s" "buf_consumes b (be32 n) s" "unat n \<le> length (buf_unread s)"
      "x = Some (take (unat n) (buf_unread s))" "b' = buf_advance s (unat n)"
    using wf by (auto simp: ssh_buffer_get_string_view_def u32.bind_get split: if_splits)
  then have "buf_consumes s (take (unat n) (buf_unread s)) b'" "unat n \<le> UINT32_MAX"
    using unat_u32_less [of n] by (simp_all add: buf_consumes_def UINT32_MAX_def del: unat_u32_less)
  with s show "string_valid x \<and> buf_consumes b (view_bytes x) b'"
    by (auto simp: string_bytes_def buf_consumes_append min_def)
next
  assume "string_valid x \<and> buf_consumes b (view_bytes x) b'"
  then obtain bs s where "x = Some bs" "length bs \<le> UINT32_MAX"
      "buf_consumes b (be32 (of_nat (length bs))) s" "buf_consumes s bs b'"
    by (auto simp: string_valid_def string_bytes_def buf_consumes_append split: option.splits)
  moreover from this have "buf_wf s" "unat (of_nat (length bs) :: u32) = length bs"
    using wf by (auto dest: buf_consumes_wf simp: UINT32_MAX_def)
  ultimately show "ssh_buffer_get_string_view b = (Inr x, b')"
    using wf by (auto simp: ssh_buffer_get_string_view_def u32.bind_get buf_consumes_def)
qed

interpretation strng: wire_format ssh_buffer_get_string_view view_bytes string_valid put_view
  by (rule wire_formatI)
    (auto simp: get_string_view_iff string_valid_def put_view_def writer_intros split: option.splits)

lemma at_endA_iff: "buf_wf b \<Longrightarrow> at_endA e b = (Inr u, b') \<longleftrightarrow> buf_unread b = [] \<and> b' = b"
  by (auto simp: at_endA_def)

subsection \<open>Composing decoders\<close>

text \<open>\<open>reads m R\<close>: on a well-formed buffer the decoder \<open>m\<close> succeeds with \<open>x\<close> exactly when the unread
  bytes are \<open>bs @ r\<close> with \<open>R x bs r\<close>, and consumes \<open>bs\<close>. \<open>reads_all m R\<close>: the same with nothing left
  over. The rules compute \<open>R\<close> along the chain of reads of a decoder, so that its buffer states disappear
  from the proofs.\<close>

definition reads :: "(ssh_buffer, 'a) act \<Rightarrow> ('a \<Rightarrow> u8 list \<Rightarrow> u8 list \<Rightarrow> bool) \<Rightarrow> bool" where
  "reads m R \<longleftrightarrow> (\<forall>b x b'. buf_wf b \<longrightarrow> (m b = (Inr x, b') \<longleftrightarrow>
     (\<exists>bs r. R x bs r \<and> buf_unread b = bs @ r \<and> b' = buf_advance b (length bs))))"

definition reads_all :: "(ssh_buffer, 'a) act \<Rightarrow> ('a \<Rightarrow> u8 list \<Rightarrow> bool) \<Rightarrow> bool" where
  "reads_all m R \<longleftrightarrow> reads m (\<lambda>x bs r. R x bs \<and> r = [])"

named_theorems reads_intros \<open>rules that compute what a decoder reads\<close>

lemma readsD: "reads m R \<Longrightarrow> buf_wf b \<Longrightarrow> m b = (Inr x, b') \<longleftrightarrow>
    (\<exists>bs r. R x bs r \<and> buf_unread b = bs @ r \<and> b' = buf_advance b (length bs))"
  by (simp add: reads_def)

lemma reads_allD: "reads_all m R \<Longrightarrow> buf_wf b \<Longrightarrow>
    m b = (Inr x, b') \<longleftrightarrow> R x (buf_unread b) \<and> b' = buf_advance b (length (buf_unread b))"
  by (auto simp: reads_all_def readsD)

lemma reads_fst:
  assumes "reads m R" "buf_wf b"
  shows "fst (m b) = Inr x \<longleftrightarrow> (\<exists>bs r. R x bs r \<and> buf_unread b = bs @ r)"
proof -
  have "fst (m b) = Inr x \<longleftrightarrow> (\<exists>b'. m b = (Inr x, b'))"
    by (cases "m b") auto
  then show ?thesis
    using assms by (auto simp: readsD)
qed

lemma reads_cong: "reads m R \<Longrightarrow> (\<And>x bs r. R x bs r \<longleftrightarrow> S x bs r) \<Longrightarrow> reads m S"
  by (simp add: reads_def)

lemma reads_all_cong: "reads m R \<Longrightarrow> (\<And>x bs r. R x bs r \<longleftrightarrow> S x bs \<and> r = []) \<Longrightarrow> reads_all m S"
  by (simp add: reads_all_def reads_def)

lemma reads_retA [reads_intros]: "reads (retA v) (\<lambda>x bs r. x = v \<and> bs = [])"
  by (auto simp: reads_def)

lemma reads_failA [reads_intros]: "reads (failA e) (\<lambda>x bs r. False)"
  by (auto simp: reads_def)

lemma reads_bindA [reads_intros]:
  assumes "reads m R" "\<And>x. reads (f x) (S x)"
  shows "reads (bindA m f) (\<lambda>y bs r. \<exists>x xs ys. R x xs (ys @ r) \<and> S x y ys r \<and> bs = xs @ ys)"
  unfolding reads_def
proof (intro allI impI iffI)
  fix b y b' assume wf: "buf_wf b" and "bindA m f b = (Inr y, b')"
  then obtain x s where "m b = (Inr x, s)" "f x s = (Inr y, b')"
    by (auto simp: bindA_eq_Inr)
  with wf obtain xs q where *: "R x xs q" "buf_unread b = xs @ q" "s = buf_advance b (length xs)"
    by (auto simp: readsD [OF assms(1)])
  then have "buf_wf s" "buf_unread s = q"
    using wf by simp_all
  with \<open>f x s = (Inr y, b')\<close> obtain ys r where "S x y ys r" "q = ys @ r" "b' = buf_advance s (length ys)"
    by (auto simp: readsD [OF assms(2)])
  with * show "\<exists>bs r. (\<exists>x xs ys. R x xs (ys @ r) \<and> S x y ys r \<and> bs = xs @ ys) \<and> buf_unread b = bs @ r \<and>
      b' = buf_advance b (length bs)"
    by (intro exI [of _ "xs @ ys"] exI [of _ r] conjI exI [of _ x] exI [of _ xs] exI [of _ ys]) simp_all
next
  fix b y b' assume wf: "buf_wf b" and "\<exists>bs r. (\<exists>x xs ys. R x xs (ys @ r) \<and> S x y ys r \<and> bs = xs @ ys) \<and>
      buf_unread b = bs @ r \<and> b' = buf_advance b (length bs)"
  then obtain x xs ys r where *: "R x xs (ys @ r)" "S x y ys r" "buf_unread b = xs @ ys @ r"
      "b' = buf_advance b (length xs + length ys)"
    by auto
  then have "m b = (Inr x, buf_advance b (length xs))"
    using wf by (auto simp: readsD [OF assms(1)])
  moreover have "f x (buf_advance b (length xs)) = (Inr y, b')"
    using * wf readsD [OF assms(2), of "buf_advance b (length xs)" x y b'] by auto
  ultimately show "bindA m f b = (Inr y, b')"
    by simp
qed

lemma reads_check [reads_intros]: "reads m R \<Longrightarrow> reads (thenA (ensureA c e) m) (\<lambda>x bs r. c \<and> R x bs r)"
  by (auto simp: reads_def thenA_eq_Inr)

lemma reads_end [reads_intros]: "reads m R \<Longrightarrow> reads (thenA (at_endA e) m) (\<lambda>x bs r. bs = [] \<and> r = [] \<and> R x [] [])"
  by (auto simp: reads_def thenA_eq_Inr at_endA_iff)

lemma reads_if [reads_intros]:
  "reads m R \<Longrightarrow> reads n S \<Longrightarrow> reads (if c then m else n) (\<lambda>x bs r. if c then R x bs r else S x bs r)"
  by simp

lemma reads_u8 [reads_intros]: "reads ssh_buffer_get_u8 (\<lambda>x bs r. bs = [x])"
  by (auto simp: reads_def u8.get_iff buf_consumes_iff)

lemma reads_bool [reads_intros]: "reads ssh_buffer_get_bool (\<lambda>x bs r. bs = [bool_byte x])"
  by (auto simp: reads_def boolean.get_iff buf_consumes_iff)

lemma reads_u32 [reads_intros]: "reads ssh_buffer_get_u32 (\<lambda>x bs r. bs = be32 x)"
  by (auto simp: reads_def u32.get_iff buf_consumes_iff)

lemma reads_u64 [reads_intros]: "reads ssh_buffer_get_u64 (\<lambda>x bs r. bs = be64 x)"
  by (auto simp: reads_def u64.get_iff buf_consumes_iff)

lemma reads_bytes [reads_intros]: "reads (ssh_buffer_get_bytes n) (\<lambda>x bs r. length x = n \<and> bs = x)"
  by (auto simp: reads_def fixed_bytes.get_iff buf_consumes_iff)

lemma reads_string [reads_intros]:
  "reads ssh_buffer_get_string_view (\<lambda>x bs r. string_valid x \<and> bs = view_bytes x)"
  by (auto simp: reads_def strng.get_iff buf_consumes_iff)

lemma wire_message_readsI:
  assumes "reads_all decode (\<lambda>x bs. valid x \<and> bs = bytes x)"
    and "\<And>x. valid x \<Longrightarrow> buffer_writer (encode x) (bytes x)"
  shows "wire_message decode bytes valid encode"
  using assms(2) by (intro wire_messageI) (auto simp: reads_allD [OF assms(1)])

lemma message_decoder_readsI:
  "reads_all decode (\<lambda>x bs. valid x \<and> bs = bytes x) \<Longrightarrow> message_decoder decode bytes valid"
  by unfold_locales (auto simp: reads_allD)

text \<open>The rules for encoders: an argument check before the writes, and views and C strings as fields.\<close>

lemma put_view_Some: "string_valid v \<Longrightarrow> buffer_writer (ssh_buffer_put_string (view_data v)) (view_bytes v)"
  using strng.put_writes [of v] by (simp add: put_view_def)

lemma buffer_writer_check:
  "c \<Longrightarrow> buffer_writer m bs \<Longrightarrow> buffer_writer (thenA (ensureA c e) m) bs"
  by (simp add: thenA_def bindA_def ensureA_def buffer_writer_def)

lemma put_cstring_view: "string_valid v \<Longrightarrow> buffer_writer (ssh_buffer_put_cstring v) (view_bytes v)"
  by (cases v) (simp_all add: writer_intros)

lemmas encoder_intros = buffer_writer_check put_view_Some put_cstring_view writer_intros

subsection \<open>Decoding into a structure\<close>

text \<open>Some decoders fill the caller's structure field by field, and the caller looks at the fields also
  after an error. Their state is the buffer and the structure: \<open>readF get upd\<close> is
  \<^verbatim>\<open>ssh_buffer_get_x(payload, &out->field)\<close>, which writes the field only when it succeeds.\<close>

definition liftB :: "(ssh_buffer, 'a) act \<Rightarrow> (ssh_buffer \<times> 'm, 'a) act" where
  "liftB m bq = (case bq of (b, q) \<Rightarrow> (case m b of (r, b') \<Rightarrow> (r, (b', q))))"

definition readF :: "(ssh_buffer, 'a) act \<Rightarrow> ('a \<Rightarrow> 'm \<Rightarrow> 'm) \<Rightarrow> (ssh_buffer \<times> 'm, unit) act" where
  "readF get upd bq = (case bq of (b, q) \<Rightarrow> (case get b of
     (Inl e, b') \<Rightarrow> (Inl e, (b', q)) | (Inr x, b') \<Rightarrow> (Inr (), (b', upd x q))))"

definition ifF :: "('m \<Rightarrow> bool) \<Rightarrow> (ssh_buffer \<times> 'm, 'a) act \<Rightarrow> (ssh_buffer \<times> 'm, 'a) act \<Rightarrow> (ssh_buffer \<times> 'm, 'a) act" where
  "ifF c m n bq = (if c (snd bq) then m bq else n bq)"

definition setF :: "('m \<Rightarrow> 'm) \<Rightarrow> (ssh_buffer \<times> 'm, unit) act" where
  "setF f bq = (Inr (), (fst bq, f (snd bq)))"

lemma liftB_apply [simp]: "m b = (r, b') \<Longrightarrow> liftB m (b, q) = (r, (b', q))"
  by (simp add: liftB_def)

lemma readF_Inr [simp]: "get b = (Inr x, b') \<Longrightarrow> readF get upd (b, q) = (Inr (), (b', upd x q))"
  by (simp add: readF_def)

lemma readF_Inl [simp]: "get b = (Inl e, b') \<Longrightarrow> readF get upd (b, q) = (Inl e, (b', q))"
  by (simp add: readF_def)

lemma setF_apply [simp]: "setF f (b, q) = (Inr (), (b, f q))"
  by (simp add: setF_def)

definition readsF :: "(ssh_buffer \<times> 'm, unit) act \<Rightarrow> ('m \<Rightarrow> 'm \<Rightarrow> u8 list \<Rightarrow> u8 list \<Rightarrow> bool) \<Rightarrow> bool" where
  "readsF m R \<longleftrightarrow> (\<forall>b q b' q'. buf_wf b \<longrightarrow> (m (b, q) = (Inr (), (b', q')) \<longleftrightarrow>
     (\<exists>bs r. R q q' bs r \<and> buf_unread b = bs @ r \<and> b' = buf_advance b (length bs))))"

named_theorems readsF_intros \<open>rules that compute what a decoder into a structure reads\<close>

lemma readsFD: "readsF m R \<Longrightarrow> buf_wf b \<Longrightarrow> m (b, q) = (Inr u, (b', q')) \<longleftrightarrow>
    (\<exists>bs r. R q q' bs r \<and> buf_unread b = bs @ r \<and> b' = buf_advance b (length bs))"
  by (simp add: readsF_def)

lemma readsF_cong: "readsF m R \<Longrightarrow> (\<And>q q' bs r. R q q' bs r \<longleftrightarrow> S q q' bs r) \<Longrightarrow> readsF m S"
  by (simp add: readsF_def)

lemma readsF_retA [readsF_intros]: "readsF (retA ()) (\<lambda>q q' bs r. q' = q \<and> bs = [])"
  by (auto simp: readsF_def)

lemma readsF_failA [readsF_intros]: "readsF (failA e) (\<lambda>q q' bs r. False)"
  by (auto simp: readsF_def)

lemma readsF_setF [readsF_intros]: "readsF (setF f) (\<lambda>q q' bs r. q' = f q \<and> bs = [])"
  by (auto simp: readsF_def setF_def)

lemma readF_iff:
  "readF get upd (b, q) = (Inr u, (b', q')) \<longleftrightarrow> (\<exists>x. get b = (Inr x, b') \<and> q' = upd x q)"
  by (auto simp: readF_def split: prod.splits sum.splits)

lemma readsF_readF [readsF_intros]:
  "reads get R \<Longrightarrow> readsF (readF get upd) (\<lambda>q q' bs r. \<exists>x. R x bs r \<and> q' = upd x q)"
  by (auto simp: readsF_def readF_iff readsD)

definition consumed :: "ssh_buffer \<Rightarrow> u8 list \<Rightarrow> u8 list \<Rightarrow> ssh_buffer \<Rightarrow> bool" where
  "consumed b bs r b' \<longleftrightarrow> buf_unread b = bs @ r \<and> b' = buf_advance b (length bs)"

lemma consumed_compose:
  assumes "buf_wf b"
  shows "(\<exists>s. (\<exists>xs p. P xs p \<and> consumed b xs p s) \<and> buf_wf s \<and> (\<exists>ys r. Q ys r \<and> consumed s ys r b')) \<longleftrightarrow>
    (\<exists>bs r. (\<exists>xs ys. P xs (ys @ r) \<and> Q ys r \<and> bs = xs @ ys) \<and> consumed b bs r b')" (is "?L \<longleftrightarrow> ?R")
proof
  assume ?L
  then obtain s xs p ys r where *: "P xs p" "consumed b xs p s" "Q ys r" "consumed s ys r b'"
    by blast
  then have "p = ys @ r" "consumed b (xs @ ys) r b'"
    by (auto simp: consumed_def)
  with * show ?R by blast
next
  assume ?R
  then obtain xs ys r where *: "P xs (ys @ r)" "Q ys r" "consumed b (xs @ ys) r b'"
    by blast
  then have "consumed b xs (ys @ r) (buf_advance b (length xs))" "buf_wf (buf_advance b (length xs))"
    "consumed (buf_advance b (length xs)) ys r b'"
    using assms by (auto simp: consumed_def)
  with * show ?L by blast
qed

lemma reads_step:
  assumes "reads m R" "buf_wf b"
  shows "m b = (Inr x, s) \<longleftrightarrow> (\<exists>xs p. R x xs p \<and> consumed b xs p s) \<and> buf_wf s"
  using assms by (auto simp: readsD consumed_def)

lemma readsF_step:
  assumes "readsF m R" "buf_wf b"
  shows "m (b, q) = (Inr u, (s, p)) \<longleftrightarrow> (\<exists>xs z. R q p xs z \<and> consumed b xs z s) \<and> buf_wf s"
  using assms by (auto simp: readsFD consumed_def)

lemma readsF_stepI:
  assumes "\<And>b q b' q'. buf_wf b \<Longrightarrow> m (b, q) = (Inr (), (b', q')) \<longleftrightarrow> (\<exists>bs r. R q q' bs r \<and> consumed b bs r b')"
  shows "readsF m R"
  using assms by (simp add: readsF_def consumed_def)

lemma readsF_bind [readsF_intros]:
  assumes "reads get R" "\<And>x. readsF (f x) (S x)"
  shows "readsF (bindA (liftB get) f) (\<lambda>q q' bs r. \<exists>x xs ys. R x xs (ys @ r) \<and> S x q q' ys r \<and> bs = xs @ ys)"
proof (rule readsF_stepI)
  fix b q b' q' assume wf: "buf_wf b"
  have "bindA (liftB get) f (b, q) = (Inr (), (b', q')) \<longleftrightarrow>
      (\<exists>x s. get b = (Inr x, s) \<and> f x (s, q) = (Inr (), (b', q')))"
    by (auto simp: bindA_eq_Inr liftB_def split: prod.splits)
  also have "\<dots> \<longleftrightarrow> (\<exists>x s. (\<exists>xs p. R x xs p \<and> consumed b xs p s) \<and> buf_wf s \<and>
      (\<exists>ys r. S x q q' ys r \<and> consumed s ys r b'))"
    unfolding reads_step [OF assms(1) wf] using readsFD [OF assms(2)] by (simp add: consumed_def cong: conj_cong)
  also have "\<dots> \<longleftrightarrow> (\<exists>bs r. (\<exists>x xs ys. R x xs (ys @ r) \<and> S x q q' ys r \<and> bs = xs @ ys) \<and> consumed b bs r b')"
    unfolding consumed_compose [OF wf] by blast
  finally show "bindA (liftB get) f (b, q) = (Inr (), (b', q')) \<longleftrightarrow>
      (\<exists>bs r. (\<exists>x xs ys. R x xs (ys @ r) \<and> S x q q' ys r \<and> bs = xs @ ys) \<and> consumed b bs r b')" .
qed

lemma readsF_thenA [readsF_intros]:
  assumes "readsF m R" "readsF n S"
  shows "readsF (thenA m n) (\<lambda>q q' bs r. \<exists>p xs ys. R q p xs (ys @ r) \<and> S p q' ys r \<and> bs = xs @ ys)"
proof (rule readsF_stepI)
  fix b q b' q' assume wf: "buf_wf b"
  have "thenA m n (b, q) = (Inr (), (b', q')) \<longleftrightarrow> (\<exists>p s. m (b, q) = (Inr (), (s, p)) \<and> n (s, p) = (Inr (), (b', q')))"
    by (auto simp: thenA_eq_Inr)
  also have "\<dots> \<longleftrightarrow> (\<exists>p s. (\<exists>xs z. R q p xs z \<and> consumed b xs z s) \<and> buf_wf s \<and>
      (\<exists>ys r. S p q' ys r \<and> consumed s ys r b'))"
    unfolding readsF_step [OF assms(1) wf] using readsFD [OF assms(2)] by (simp add: consumed_def cong: conj_cong)
  also have "\<dots> \<longleftrightarrow> (\<exists>bs r. (\<exists>p xs ys. R q p xs (ys @ r) \<and> S p q' ys r \<and> bs = xs @ ys) \<and> consumed b bs r b')"
    unfolding consumed_compose [OF wf] by blast
  finally show "thenA m n (b, q) = (Inr (), (b', q')) \<longleftrightarrow>
      (\<exists>bs r. (\<exists>p xs ys. R q p xs (ys @ r) \<and> S p q' ys r \<and> bs = xs @ ys) \<and> consumed b bs r b')" .
qed

lemma readsF_check [readsF_intros]: "readsF m R \<Longrightarrow> readsF (thenA (ensureA c e) m) (\<lambda>q q' bs r. c \<and> R q q' bs r)"
  by (auto simp: readsF_def)

lemma readsF_end [readsF_intros]: "readsF (liftB (at_endA e)) (\<lambda>q q' bs r. bs = [] \<and> r = [] \<and> q' = q)"
  by (auto simp: readsF_def liftB_def at_endA_def)

lemma readsF_orelse [readsF_intros]: "readsF m R \<Longrightarrow> readsF (orelseA m e) R"
  by (auto simp: readsF_def orelseA_eq_Inr)

lemma readsF_ifF [readsF_intros]:
  "readsF m R \<Longrightarrow> readsF n S \<Longrightarrow> readsF (ifF c m n) (\<lambda>q q' bs r. if c q then R q q' bs r else S q q' bs r)"
  by (auto simp: readsF_def ifF_def)

lemma readsF_if [readsF_intros]:
  "readsF m R \<Longrightarrow> readsF n S \<Longrightarrow> readsF (if c then m else n) (\<lambda>q q' bs r. if c then R q q' bs r else S q q' bs r)"
  by simp

section \<open>Multiple precision integers\<close>

text \<open>The value of a byte string read as an unsigned big-endian number, and the value of an mpint
  body, which is two's complement (RFC 4251, section 5).\<close>

definition be_value :: "u8 list \<Rightarrow> nat" where
  "be_value bs = foldl (\<lambda>a x. 256 * a + unat x) 0 bs"

definition mpint_value :: "u8 list \<Rightarrow> int" where
  "mpint_value m =
     (if m \<noteq> [] \<and> hd m AND 0x80 \<noteq> 0 then int (be_value m) - 256 ^ length m else int (be_value m))"

definition mpint_body :: "u8 list \<Rightarrow> u8 list" where
  "mpint_body bs = (case dropWhile (\<lambda>x. x = 0) bs of [] \<Rightarrow> []
     | m # ms \<Rightarrow> if m AND 0x80 \<noteq> 0 then 0 # m # ms else m # ms)"

definition mpint_minimal :: "u8 list \<Rightarrow> bool" where
  "mpint_minimal m \<longleftrightarrow> (case m of [] \<Rightarrow> True | [x] \<Rightarrow> x \<noteq> 0
     | x # y # _ \<Rightarrow> x = 0 \<longrightarrow> y AND 0x80 \<noteq> 0)"

lemma be_value_Nil [simp]: "be_value [] = 0"
  by (simp add: be_value_def)

lemma be_value_zero_Cons [simp]: "be_value (0 # bs) = be_value bs"
  by (simp add: be_value_def)

lemma be_value_dropWhile: "be_value (dropWhile (\<lambda>x. x = 0) bs) = be_value bs"
  by (induction bs) auto

lemma mpint_value_body: "mpint_value (mpint_body bs) = int (be_value bs)"
proof (cases "dropWhile (\<lambda>x. x = 0) bs")
  case Nil
  then show ?thesis
    using be_value_dropWhile [of bs] by (simp add: mpint_body_def mpint_value_def del: dropWhile_eq_Nil_conv)
next
  case (Cons m ms)
  then show ?thesis
    using be_value_dropWhile [of bs] by (simp add: mpint_body_def mpint_value_def)
qed

lemma mpint_minimal_body: "mpint_minimal (mpint_body bs)"
proof (cases "dropWhile (\<lambda>x. x = 0) bs")
  case Nil
  then show ?thesis by (simp add: mpint_body_def mpint_minimal_def del: dropWhile_eq_Nil_conv)
next
  case (Cons m ms)
  then have "m \<noteq> 0"
    by (metis (mono_tags, lifting) dropWhile_eq_Cons_conv)
  with Cons show ?thesis
    by (auto simp: mpint_body_def mpint_minimal_def split: list.splits)
qed

lemma length_mpint_body: "length (mpint_body bs) \<le> length bs + 1"
  using length_dropWhile_le [of "\<lambda>x. x = 0" bs] by (auto simp: mpint_body_def split: list.splits)

lemma buffer_writer_cong:
  "(\<And>b. buf_wf b \<Longrightarrow> p b = q b) \<Longrightarrow> buffer_writer q bs \<Longrightarrow> buffer_writer p bs"
  by (simp add: buffer_writer_def)

lemma buffer_writer_put_mpint [writer_intros]:
  assumes "length bs < UINT32_MAX"
  shows "buffer_writer (ssh_buffer_put_mpint_positive bs) (string_bytes (mpint_body bs))"
proof (cases "dropWhile (\<lambda>x. x = 0) bs")
  case Nil
  have "buffer_writer (ssh_buffer_put_u32 0) (be32 0)"
    by (rule writer_intros)
  with Nil assms show ?thesis
    by (auto simp: ssh_buffer_put_mpint_positive_def mpint_body_def string_bytes_def
        intro: buffer_writer_cong simp del: dropWhile_eq_Nil_conv)
next
  case (Cons m ms)
  then have len: "length (m # ms) < UINT32_MAX"
    using assms length_dropWhile_le [of "\<lambda>x. x = 0" bs] by simp
  show ?thesis
  proof (cases "m AND 0x80 = 0")
    case True
    have "buffer_writer (ssh_buffer_put_string (m # ms)) (string_bytes (m # ms))"
      using len by (intro writer_intros) simp
    with True Cons assms show ?thesis
      by (auto simp: ssh_buffer_put_mpint_positive_def mpint_body_def intro: buffer_writer_cong)
  next
    case False
    have "buffer_writer (seqA [ssh_buffer_put_u32 (of_nat (length (m # ms) + 1)),
             ssh_buffer_put_u8 0, ssh_buffer_put_bytes (m # ms)])
       (concat [be32 (of_nat (length (m # ms) + 1)), [0], m # ms])"
      by (intro buffer_writer_seqA) (simp add: writer_intros)
    then show ?thesis
      using False Cons assms len
      by (auto simp: ssh_buffer_put_mpint_positive_def mpint_body_def string_bytes_def
          intro: buffer_writer_cong)
  qed
qed

end
