(* ===== verification/Ssh_Name_List.thy ===== *)
theory Ssh_Name_List
  imports Ssh_Buffer
begin

text \<open>
  Name-lists (RFC 4251: comma separated algorithm names), the last part of \<^verbatim>\<open>src/core/ssh_buffer.c\<close>:
  the validity check and the token search, which scan the list by index. Both are related to the
  list of items \<open>name_items\<close>; the token search is also the inner loop of the algorithm selection in
  \<^verbatim>\<open>ssh_kex.c\<close>.
\<close>

definition comma :: u8 where
  "comma = 44"

definition ssh_name_char_is_valid :: "u8 \<Rightarrow> bool" where
  "ssh_name_char_is_valid c \<longleftrightarrow> 0x21 \<le> c \<and> c \<le> 0x7e \<and> c \<noteq> comma"

text \<open>The scan of \<^verbatim>\<open>ssh_name_list_is_valid\<close> from index \<open>i\<close>, over the bytes from there on, with the
  variable \<^verbatim>\<open>previous_was_comma\<close>.\<close>

fun name_list_scan :: "bool \<Rightarrow> u8 list \<Rightarrow> bool" where
  "name_list_scan previous_was_comma [] = True"
| "name_list_scan previous_was_comma (c # cs) =
     (if c = comma then (if previous_was_comma then False else name_list_scan True cs)
      else if \<not> ssh_name_char_is_valid c then False
      else name_list_scan False cs)"

definition ssh_name_list_is_valid :: "view \<Rightarrow> bool" where
  "ssh_name_list_is_valid v =
     (if view_len v = 0 then True
      else case v of None \<Rightarrow> False
      | Some bs \<Rightarrow> if bs ! 0 = comma \<or> bs ! (length bs - 1) = comma then False
                 else name_list_scan False bs)"

text \<open>The loop of \<^verbatim>\<open>ssh_name_list_contains_token\<close> with its variables \<^verbatim>\<open>start\<close> and \<^verbatim>\<open>i\<close>.\<close>

function name_list_find :: "u8 list \<Rightarrow> u8 list \<Rightarrow> nat \<Rightarrow> nat \<Rightarrow> bool" where
  "name_list_find bs token start i =
     (if i > length bs then False
      else if i = length bs \<or> bs ! i = comma then
        if i - start = length token \<and> take (i - start) (drop start bs) = token then True
        else name_list_find bs token (i + 1) (i + 1)
      else name_list_find bs token start (i + 1))"
  by pat_completeness auto
termination
  by (relation "measure (\<lambda>(bs, _, _, i). Suc (length bs) - i)") auto

declare name_list_find.simps [simp del]

definition ssh_name_list_contains_token :: "view \<Rightarrow> cstr \<Rightarrow> bool" where
  "ssh_name_list_contains_token v token =
     (case (token, v) of (Some t, Some bs) \<Rightarrow>
        if length t = 0 \<or> length bs = 0 then False else name_list_find bs t 0 0
      | _ \<Rightarrow> False)"

section \<open>The items of a name-list\<close>

fun name_items :: "u8 list \<Rightarrow> u8 list list" where
  "name_items [] = [[]]"
| "name_items (c # cs) =
     (if c = comma then [] # name_items cs
      else (case name_items cs of [] \<Rightarrow> [[c]] | x # xs \<Rightarrow> (c # x) # xs))"

lemma name_items_not_Nil [simp]: "name_items bs \<noteq> []"
  by (cases bs) (auto split: list.splits)

lemma name_items_no_comma: "comma \<notin> set xs \<Longrightarrow> name_items xs = [xs]"
  by (induction xs) auto

lemma name_items_split:
  "comma \<notin> set xs \<Longrightarrow> name_items (xs @ comma # ys) = xs # name_items ys"
  by (induction xs) auto

lemma name_items_no_comma_in: "x \<in> set (name_items bs) \<Longrightarrow> comma \<notin> set x"
proof (induction bs arbitrary: x)
  case Nil
  then show ?case by simp
next
  case (Cons c cs)
  then show ?case
    by (cases "name_items cs") (auto split: if_splits)
qed

text \<open>The invariant of the index loops: no separator lies between \<^verbatim>\<open>start\<close> and \<^verbatim>\<open>i\<close>.\<close>

definition item_scan :: "u8 list \<Rightarrow> nat \<Rightarrow> nat \<Rightarrow> bool" where
  "item_scan bs start i \<longleftrightarrow> start \<le> i \<and> i \<le> length bs \<and> comma \<notin> set (take (i - start) (drop start bs))"

lemma item_scan_refl: "i \<le> length bs \<Longrightarrow> item_scan bs i i"
  by (simp add: item_scan_def)

lemma item_scan_step:
  assumes "item_scan bs start i" "i < length bs" "bs ! i \<noteq> comma"
  shows "item_scan bs start (i + 1)"
proof -
  have "take (Suc i - start) (drop start bs) = take (i - start) (drop start bs) @ [bs ! i]"
    using assms take_Suc_conv_app_nth [of "i - start" "drop start bs"]
    by (simp add: item_scan_def Suc_diff_le diff_less_mono)
  with assms show ?thesis
    by (auto simp: item_scan_def)
qed

lemma item_scan_last:
  assumes "item_scan bs start (length bs)"
  shows "name_items (drop start bs) = [take (length bs - start) (drop start bs)]"
  using assms by (simp add: item_scan_def name_items_no_comma)

lemma item_scan_comma:
  assumes "item_scan bs start i" "i < length bs" "bs ! i = comma"
  shows "name_items (drop start bs) = take (i - start) (drop start bs) # name_items (drop (i + 1) bs)"
proof -
  have "drop start bs = take (i - start) (drop start bs) @ drop (i - start) (drop start bs)"
    by (rule append_take_drop_id [symmetric])
  also have "drop (i - start) (drop start bs) = comma # drop (i + 1) bs"
    using assms Cons_nth_drop_Suc [of i bs] by (simp add: item_scan_def)
  finally show ?thesis
    using assms name_items_split [of "take (i - start) (drop start bs)" "drop (i + 1) bs"]
    by (simp add: item_scan_def)
qed

lemma name_list_find_items:
  "item_scan bs start i \<Longrightarrow>
   name_list_find bs token start i \<longleftrightarrow> token \<in> set (name_items (drop start bs))"
proof (induction bs token start i rule: name_list_find.induct)
  case (1 bs token start i)
  let ?item = "take (i - start) (drop start bs)"
  have len: "length ?item = i - start" "i \<le> length bs"
    using "1.prems" by (auto simp: item_scan_def)
  consider (last) "i = length bs" | (sep) "i < length bs" "bs ! i = comma"
    | (other) "i < length bs" "bs ! i \<noteq> comma"
    using len by linarith
  then show ?case
  proof cases
    case last
    have "\<not> name_list_find bs token (i + 1) (i + 1)"
      using last by (subst name_list_find.simps) simp
    with last have "name_list_find bs token start i \<longleftrightarrow> ?item = token"
      using len by (subst name_list_find.simps) auto
    with last "1.prems" show ?thesis
      by (auto simp: item_scan_last)
  next
    case sep
    have "name_list_find bs token start i \<longleftrightarrow>
        ?item = token \<or> name_list_find bs token (i + 1) (i + 1)"
      using sep len by (auto simp: name_list_find.simps [of bs token start i])
    moreover have "name_list_find bs token (i + 1) (i + 1) \<longleftrightarrow>
        token \<in> set (name_items (drop (i + 1) bs))" if "?item \<noteq> token"
      using "1.IH"(1) sep len that item_scan_refl [of "i + 1" bs] by auto
    ultimately show ?thesis
      using item_scan_comma [OF "1.prems" sep] by auto
  next
    case other
    then have "name_list_find bs token start i \<longleftrightarrow> name_list_find bs token start (i + 1)"
      by (simp add: name_list_find.simps [of bs token start i])
    with other show ?thesis
      using "1.IH"(2) item_scan_step [OF "1.prems"] len by auto
  qed
qed

lemma name_list_find_0: "name_list_find bs token 0 0 \<longleftrightarrow> token \<in> set (name_items bs)"
  using name_list_find_items [of bs 0 0 token] by (simp add: item_scan_refl)

text \<open>The search finds exactly the items.\<close>

lemma contains_token_iff:
  "ssh_name_list_contains_token (Some bs) (Some t) \<longleftrightarrow> t \<noteq> [] \<and> bs \<noteq> [] \<and> t \<in> set (name_items bs)"
  by (simp add: ssh_name_list_contains_token_def name_list_find_0)

section \<open>Validity\<close>

definition name_valid :: "u8 list \<Rightarrow> bool" where
  "name_valid x \<longleftrightarrow> x \<noteq> [] \<and> list_all ssh_name_char_is_valid x"

lemma name_valid_simps [simp]:
  "\<not> name_valid []"
  "name_valid (c # cs) \<longleftrightarrow> ssh_name_char_is_valid c \<and> (cs = [] \<or> name_valid cs)"
  by (auto simp: name_valid_def)

lemma name_list_scan_items:
  "bs \<noteq> [] \<Longrightarrow> last bs \<noteq> comma \<Longrightarrow>
   name_list_scan p bs \<longleftrightarrow>
     (p \<longrightarrow> hd bs \<noteq> comma) \<and> list_all name_valid (if hd bs = comma then tl (name_items bs) else name_items bs)"
proof (induction bs arbitrary: p)
  case Nil
  then show ?case by simp
next
  case (Cons c cs)
  show ?case
  proof (cases "cs = []")
    case True
    with Cons.prems show ?thesis by (auto simp: name_valid_def)
  next
    case False
    then have IH: "name_list_scan q cs \<longleftrightarrow> (q \<longrightarrow> hd cs \<noteq> comma) \<and>
        list_all name_valid (if hd cs = comma then tl (name_items cs) else name_items cs)" for q
      using Cons by simp
    obtain x xs where x: "name_items cs = x # xs" by (cases "name_items cs") auto
    have "hd cs = comma \<longleftrightarrow> x = []"
      using x False by (cases cs) (auto split: list.splits if_splits)
    with x show ?thesis
      by (auto simp: IH)
  qed
qed

text \<open>A nonempty list is accepted exactly if every item is a nonempty string of printable
  characters.\<close>

lemma name_list_is_valid_iff:
  assumes "bs \<noteq> []"
  shows "ssh_name_list_is_valid (Some bs) \<longleftrightarrow> list_all name_valid (name_items bs)"
proof -
  have first: "hd bs = comma \<Longrightarrow> \<not> list_all name_valid (name_items bs)"
    using assms by (cases bs) (auto simp: name_valid_def)
  have last: "\<not> list_all name_valid (name_items bs)" if "last bs = comma"
  proof -
    have "name_items (xs @ [comma]) = name_items xs @ [[]]" for xs
      by (induction xs) (auto split: list.splits)
    from this [of "butlast bs"] that assms have "name_items bs = name_items (butlast bs) @ [[]]"
      by (metis append_butlast_last_id)
    then show ?thesis
      by (simp add: name_valid_def)
  qed
  show ?thesis
    using assms first last
    by (auto simp: ssh_name_list_is_valid_def name_list_scan_items last_conv_nth hd_conv_nth)
qed

lemma name_list_is_valid_Nil [simp]: "ssh_name_list_is_valid None" "ssh_name_list_is_valid (Some [])"
  by (simp_all add: ssh_name_list_is_valid_def)

end
