(* ===== verification/Ssh_Kex.thy ===== *)
theory Ssh_Kex
  imports Ssh_Name_List
begin

text \<open>
  Key exchange messages and algorithm negotiation: \<^verbatim>\<open>src/core/ssh_kex.c\<close> and its header
  \<^verbatim>\<open>include/emssh/ssh_kex.h\<close>. The four messages (KEXINIT, ECDH_INIT, ECDH_REPLY, NEWKEYS) are wire
  messages in the sense of \<open>Ssh_Buffer\<close>: the encoder writes the encoding of a message, and the decoder
  accepts exactly the encodings of the valid messages. The selection loop is equal to its
  specification: the first item of the server's list that the client also names.
\<close>

definition SSH_KEX_COOKIE_LEN :: nat where "SSH_KEX_COOKIE_LEN = 16"
definition SSH_KEXINIT_NAMELIST_COUNT :: nat where "SSH_KEXINIT_NAMELIST_COUNT = 10"
definition SSH_MSG_KEXINIT :: u8 where "SSH_MSG_KEXINIT = 20"
definition SSH_MSG_NEWKEYS :: u8 where "SSH_MSG_NEWKEYS = 21"
definition SSH_MSG_KEX_ECDH_INIT :: u8 where "SSH_MSG_KEX_ECDH_INIT = 30"
definition SSH_MSG_KEX_ECDH_REPLY :: u8 where "SSH_MSG_KEX_ECDH_REPLY = 31"

text \<open>The limits of \<^verbatim>\<open>include/emssh/ssh_crypto.h\<close> that the messages are checked against, and the sizes of the key arrays.\<close>

definition EMSSH_MAX_KEX_PUBLIC_KEY :: nat where "EMSSH_MAX_KEX_PUBLIC_KEY = 256"
definition EMSSH_MAX_HOST_KEY_BLOB :: nat where "EMSSH_MAX_HOST_KEY_BLOB = 512"
definition EMSSH_MAX_SIGNATURE :: nat where "EMSSH_MAX_SIGNATURE = 512"
definition EMSSH_MAX_KEX_PRIVATE_KEY :: nat where "EMSSH_MAX_KEX_PRIVATE_KEY = 256"
definition EMSSH_MAX_KEX_SHARED_SECRET :: nat where "EMSSH_MAX_KEX_SHARED_SECRET = 512"

lemmas kex_limits = SSH_KEX_COOKIE_LEN_def SSH_KEXINIT_NAMELIST_COUNT_def EMSSH_MAX_KEX_PUBLIC_KEY_def
  EMSSH_MAX_HOST_KEY_BLOB_def EMSSH_MAX_SIGNATURE_def UINT32_MAX_def

datatype ssh_kexinit_name_list_index =
    SSH_KEX_ALGORITHMS
  | SSH_SERVER_HOST_KEY_ALGORITHMS
  | SSH_ENCRYPTION_ALGORITHMS_CLIENT_TO_SERVER
  | SSH_ENCRYPTION_ALGORITHMS_SERVER_TO_CLIENT
  | SSH_MAC_ALGORITHMS_CLIENT_TO_SERVER
  | SSH_MAC_ALGORITHMS_SERVER_TO_CLIENT
  | SSH_COMPRESSION_ALGORITHMS_CLIENT_TO_SERVER
  | SSH_COMPRESSION_ALGORITHMS_SERVER_TO_CLIENT
  | SSH_LANGUAGES_CLIENT_TO_SERVER
  | SSH_LANGUAGES_SERVER_TO_CLIENT

primrec index_nat :: "ssh_kexinit_name_list_index \<Rightarrow> nat" where
  "index_nat SSH_KEX_ALGORITHMS = 0"
| "index_nat SSH_SERVER_HOST_KEY_ALGORITHMS = 1"
| "index_nat SSH_ENCRYPTION_ALGORITHMS_CLIENT_TO_SERVER = 2"
| "index_nat SSH_ENCRYPTION_ALGORITHMS_SERVER_TO_CLIENT = 3"
| "index_nat SSH_MAC_ALGORITHMS_CLIENT_TO_SERVER = 4"
| "index_nat SSH_MAC_ALGORITHMS_SERVER_TO_CLIENT = 5"
| "index_nat SSH_COMPRESSION_ALGORITHMS_CLIENT_TO_SERVER = 6"
| "index_nat SSH_COMPRESSION_ALGORITHMS_SERVER_TO_CLIENT = 7"
| "index_nat SSH_LANGUAGES_CLIENT_TO_SERVER = 8"
| "index_nat SSH_LANGUAGES_SERVER_TO_CLIENT = 9"

record ssh_kexinit =
  kx_cookie :: "u8 list"
  kx_name_lists :: "view list"
  kx_first_kex_packet_follows :: bool
  kx_reserved :: u32

record ssh_kexinit_algorithm_set =
  kex_algorithms :: cstr
  server_host_key_algorithms :: cstr
  encryption_algorithms_client_to_server :: cstr
  encryption_algorithms_server_to_client :: cstr
  mac_algorithms_client_to_server :: cstr
  mac_algorithms_server_to_client :: cstr
  compression_algorithms_client_to_server :: cstr
  compression_algorithms_server_to_client :: cstr
  languages_client_to_server :: cstr
  languages_server_to_client :: cstr

record ssh_kex_negotiation =
  neg_kex_algorithm :: view
  neg_server_host_key_algorithm :: view
  neg_encryption_algorithm_client_to_server :: view
  neg_encryption_algorithm_server_to_client :: view
  neg_mac_algorithm_client_to_server :: view
  neg_mac_algorithm_server_to_client :: view
  neg_compression_algorithm_client_to_server :: view
  neg_compression_algorithm_server_to_client :: view
  neg_language_client_to_server :: view
  neg_language_server_to_client :: view

record ssh_kex_ecdh_reply =
  reply_server_host_key :: view
  reply_server_public_key :: view
  reply_signature :: view

section \<open>Algorithm sets and negotiation\<close>

definition default_name_lists :: "cstr list" where
  "default_name_lists = map (Some \<circ> lit)
     [''curve25519-sha256,ecdh-sha2-nistp256'',
      ''ssh-ed25519,ecdsa-sha2-nistp256,rsa-sha2-256'',
      ''aes128-ctr'', ''aes128-ctr'', ''hmac-sha2-256'', ''hmac-sha2-256'',
      ''none'', ''none'', '''', '''']"

definition algorithm_set_to_array :: "ssh_kexinit_algorithm_set option \<Rightarrow> cstr list" where
  "algorithm_set_to_array algorithms = (case algorithms of
     None \<Rightarrow> default_name_lists
   | Some a \<Rightarrow>
      [kex_algorithms a, server_host_key_algorithms a,
       encryption_algorithms_client_to_server a, encryption_algorithms_server_to_client a,
       mac_algorithms_client_to_server a, mac_algorithms_server_to_client a,
       compression_algorithms_client_to_server a, compression_algorithms_server_to_client a,
       languages_client_to_server a, languages_server_to_client a])"

definition ssh_kexinit_algorithm_set_defaults :: ssh_kexinit_algorithm_set where
  "ssh_kexinit_algorithm_set_defaults = \<lparr>
     kex_algorithms = default_name_lists ! index_nat SSH_KEX_ALGORITHMS,
     server_host_key_algorithms = default_name_lists ! index_nat SSH_SERVER_HOST_KEY_ALGORITHMS,
     encryption_algorithms_client_to_server =
       default_name_lists ! index_nat SSH_ENCRYPTION_ALGORITHMS_CLIENT_TO_SERVER,
     encryption_algorithms_server_to_client =
       default_name_lists ! index_nat SSH_ENCRYPTION_ALGORITHMS_SERVER_TO_CLIENT,
     mac_algorithms_client_to_server = default_name_lists ! index_nat SSH_MAC_ALGORITHMS_CLIENT_TO_SERVER,
     mac_algorithms_server_to_client = default_name_lists ! index_nat SSH_MAC_ALGORITHMS_SERVER_TO_CLIENT,
     compression_algorithms_client_to_server =
       default_name_lists ! index_nat SSH_COMPRESSION_ALGORITHMS_CLIENT_TO_SERVER,
     compression_algorithms_server_to_client =
       default_name_lists ! index_nat SSH_COMPRESSION_ALGORITHMS_SERVER_TO_CLIENT,
     languages_client_to_server = default_name_lists ! index_nat SSH_LANGUAGES_CLIENT_TO_SERVER,
     languages_server_to_client = default_name_lists ! index_nat SSH_LANGUAGES_SERVER_TO_CLIENT\<rparr>"

text \<open>\<^verbatim>\<open>value != NULL ? value : ""\<close>\<close>

definition cstr_or_empty :: "cstr \<Rightarrow> u8 list" where
  "cstr_or_empty value = (case value of None \<Rightarrow> [] | Some bs \<Rightarrow> bs)"

definition cstring_to_name_list_view :: "cstr \<Rightarrow> ssh_err + view" where
  "cstring_to_name_list_view value =
     (let v = Some (cstr_or_empty value)
      in if ssh_name_list_is_valid v then Inr v else Inl SSH_ERR_INVALID_ARGUMENT)"

text \<open>The two nested loops of \<^verbatim>\<open>select_first_match\<close>: the outer one over the server's list, with
  \<^verbatim>\<open>start\<close> and \<^verbatim>\<open>i\<close>; the inner one over the client's list compares the item as
  \<open>name_list_find\<close> does.\<close>

function select_loop :: "u8 list \<Rightarrow> u8 list \<Rightarrow> nat \<Rightarrow> nat \<Rightarrow> ssh_err + view" where
  "select_loop client server start i =
     (if i > length server then Inl SSH_ERR_UNSUPPORTED
      else if i = length server \<or> server ! i = comma then
        if name_list_find client (take (i - start) (drop start server)) 0 0
        then Inr (Some (take (i - start) (drop start server)))
        else select_loop client server (i + 1) (i + 1)
      else select_loop client server start (i + 1))"
  by pat_completeness auto
termination
  by (relation "measure (\<lambda>(_, server, _, i). Suc (length server) - i)") auto

declare select_loop.simps [simp del]

definition select_first_match :: "view \<Rightarrow> cstr \<Rightarrow> bool \<Rightarrow> ssh_err + view" where
  "select_first_match client server_list allow_empty =
     bindS (cstring_to_name_list_view server_list) (\<lambda>server.
       if \<not> ssh_name_list_is_valid client then Inl SSH_ERR_MALFORMED_PACKET
       else if view_len server = 0 \<or> view_len client = 0
       then if allow_empty then Inr None else Inl SSH_ERR_UNSUPPORTED
       else select_loop (view_data client) (view_data server) 0 0)"

definition negotiate_one :: "ssh_kexinit \<Rightarrow> ssh_kexinit_name_list_index \<Rightarrow> cstr \<Rightarrow> bool \<Rightarrow> ssh_err + view" where
  "negotiate_one client index server_list allow_empty =
     select_first_match (kx_name_lists client ! index_nat index) server_list allow_empty"

text \<open>The structure after \<^verbatim>\<open>memset\<close>; and a field that receives the result of one selection, which a failure leaves cleared.\<close>

definition empty_negotiation :: ssh_kex_negotiation where
  "empty_negotiation = \<lparr>neg_kex_algorithm = None, neg_server_host_key_algorithm = None,
     neg_encryption_algorithm_client_to_server = None, neg_encryption_algorithm_server_to_client = None,
     neg_mac_algorithm_client_to_server = None, neg_mac_algorithm_server_to_client = None,
     neg_compression_algorithm_client_to_server = None, neg_compression_algorithm_server_to_client = None,
     neg_language_client_to_server = None, neg_language_server_to_client = None\<rparr>"

definition select_into :: "((view \<Rightarrow> view) \<Rightarrow> ssh_kex_negotiation \<Rightarrow> ssh_kex_negotiation) \<Rightarrow> ssh_err + view
    \<Rightarrow> (ssh_kex_negotiation, unit) act" where
  "select_into field selected n = (case selected of Inl e \<Rightarrow> (Inl e, n) | Inr v \<Rightarrow> (Inr (), field (\<lambda>_. v) n))"

text \<open>\<^verbatim>\<open>*negotiation\<close> is cleared and then filled field by field, so after a failure it holds what was selected before it.\<close>

definition ssh_kex_negotiate ::
    "ssh_kexinit \<Rightarrow> ssh_kexinit_algorithm_set option \<Rightarrow> (ssh_kex_negotiation, unit) act" where
  "ssh_kex_negotiate client server_algorithms _ =
    (let server = (case server_algorithms of None \<Rightarrow> ssh_kexinit_algorithm_set_defaults | Some a \<Rightarrow> a) in
     seqA [
       select_into neg_kex_algorithm_update
         (negotiate_one client SSH_KEX_ALGORITHMS (kex_algorithms server) False),
       select_into neg_server_host_key_algorithm_update
         (negotiate_one client SSH_SERVER_HOST_KEY_ALGORITHMS (server_host_key_algorithms server) False),
       select_into neg_encryption_algorithm_client_to_server_update
         (negotiate_one client SSH_ENCRYPTION_ALGORITHMS_CLIENT_TO_SERVER (encryption_algorithms_client_to_server server) False),
       select_into neg_encryption_algorithm_server_to_client_update
         (negotiate_one client SSH_ENCRYPTION_ALGORITHMS_SERVER_TO_CLIENT (encryption_algorithms_server_to_client server) False),
       select_into neg_mac_algorithm_client_to_server_update
         (negotiate_one client SSH_MAC_ALGORITHMS_CLIENT_TO_SERVER (mac_algorithms_client_to_server server) False),
       select_into neg_mac_algorithm_server_to_client_update
         (negotiate_one client SSH_MAC_ALGORITHMS_SERVER_TO_CLIENT (mac_algorithms_server_to_client server) False),
       select_into neg_compression_algorithm_client_to_server_update
         (negotiate_one client SSH_COMPRESSION_ALGORITHMS_CLIENT_TO_SERVER (compression_algorithms_client_to_server server) False),
       select_into neg_compression_algorithm_server_to_client_update
         (negotiate_one client SSH_COMPRESSION_ALGORITHMS_SERVER_TO_CLIENT (compression_algorithms_server_to_client server) False),
       select_into neg_language_client_to_server_update
         (negotiate_one client SSH_LANGUAGES_CLIENT_TO_SERVER (languages_client_to_server server) True),
       select_into neg_language_server_to_client_update
         (negotiate_one client SSH_LANGUAGES_SERVER_TO_CLIENT (languages_server_to_client server) True)]
       empty_negotiation)"

section \<open>Messages\<close>

fun put_name_lists :: "cstr list \<Rightarrow> (ssh_buffer, unit) act" where
  "put_name_lists [] = retA ()"
| "put_name_lists (l # ls) =
     thenA (ensureA (ssh_name_list_is_valid (Some (cstr_or_empty l))) SSH_ERR_INVALID_ARGUMENT)
     (thenA (ssh_buffer_put_cstring (Some (cstr_or_empty l)))
     (put_name_lists ls))"

definition ssh_kexinit_encode ::
    "u8 list \<Rightarrow> ssh_kexinit_algorithm_set option \<Rightarrow> bool \<Rightarrow> (ssh_buffer, unit) act" where
  "ssh_kexinit_encode cookie algorithms first_kex_packet_follows =
     thenA (ssh_buffer_put_u8 SSH_MSG_KEXINIT)
     (thenA (ssh_buffer_put_bytes (take SSH_KEX_COOKIE_LEN cookie))
     (thenA (put_name_lists (algorithm_set_to_array algorithms))
     (thenA (ssh_buffer_put_bool first_kex_packet_follows)
     (ssh_buffer_put_u32 0))))"

fun get_name_lists :: "nat \<Rightarrow> (ssh_buffer, view list) act" where
  "get_name_lists 0 = retA []"
| "get_name_lists (Suc n) =
     bindA ssh_buffer_get_string_view (\<lambda>v.
     thenA (ensureA (ssh_name_list_is_valid v) SSH_ERR_MALFORMED_PACKET) (
     bindA (get_name_lists n) (\<lambda>vs. retA (v # vs))))"

definition ssh_kexinit_decode :: "(ssh_buffer, ssh_kexinit) act" where
  "ssh_kexinit_decode =
     bindA ssh_buffer_get_u8 (\<lambda>message_id.
     thenA (ensureA (message_id = SSH_MSG_KEXINIT) SSH_ERR_MALFORMED_PACKET) (
     bindA (ssh_buffer_get_bytes SSH_KEX_COOKIE_LEN) (\<lambda>cookie.
     bindA (get_name_lists SSH_KEXINIT_NAMELIST_COUNT) (\<lambda>name_lists.
     bindA ssh_buffer_get_bool (\<lambda>first_kex_packet_follows.
     bindA ssh_buffer_get_u32 (\<lambda>reserved.
     thenA (ensureA (reserved = 0) SSH_ERR_MALFORMED_PACKET) (
     thenA (at_endA SSH_ERR_MALFORMED_PACKET)
     (retA \<lparr>kx_cookie = cookie, kx_name_lists = name_lists,
            kx_first_kex_packet_follows = first_kex_packet_follows, kx_reserved = reserved\<rparr>))))))))"

definition ssh_kex_ecdh_init_encode :: "u8 list \<Rightarrow> (ssh_buffer, unit) act" where
  "ssh_kex_ecdh_init_encode client_public_key =
     thenA (ensureA (\<not> (length client_public_key = 0 \<or>
                       length client_public_key > EMSSH_MAX_KEX_PUBLIC_KEY)) SSH_ERR_INVALID_ARGUMENT)
     (thenA (ssh_buffer_put_u8 SSH_MSG_KEX_ECDH_INIT)
     (ssh_buffer_put_string client_public_key))"

definition ssh_kex_ecdh_init_decode :: "(ssh_buffer, view) act" where
  "ssh_kex_ecdh_init_decode =
     bindA ssh_buffer_get_u8 (\<lambda>message_id.
     thenA (ensureA (message_id = SSH_MSG_KEX_ECDH_INIT) SSH_ERR_MALFORMED_PACKET) (
     bindA ssh_buffer_get_string_view (\<lambda>client_public_key.
     thenA (ensureA (\<not> (view_len client_public_key = 0 \<or>
                       view_len client_public_key > EMSSH_MAX_KEX_PUBLIC_KEY)) SSH_ERR_MALFORMED_PACKET) (
     thenA (at_endA SSH_ERR_MALFORMED_PACKET)
     (retA client_public_key)))))"

definition ssh_kex_ecdh_reply_encode :: "u8 list \<Rightarrow> u8 list \<Rightarrow> u8 list \<Rightarrow> (ssh_buffer, unit) act" where
  "ssh_kex_ecdh_reply_encode server_host_key server_public_key signature =
     thenA (ensureA (\<not> (length server_host_key = 0 \<or> length server_host_key > EMSSH_MAX_HOST_KEY_BLOB \<or>
                       length server_public_key = 0 \<or> length server_public_key > EMSSH_MAX_KEX_PUBLIC_KEY \<or>
                       length signature = 0 \<or> length signature > EMSSH_MAX_SIGNATURE))
              SSH_ERR_INVALID_ARGUMENT)
     (thenA (ssh_buffer_put_u8 SSH_MSG_KEX_ECDH_REPLY)
     (thenA (ssh_buffer_put_string server_host_key)
     (thenA (ssh_buffer_put_string server_public_key)
     (ssh_buffer_put_string signature))))"

definition ssh_kex_ecdh_reply_decode :: "(ssh_buffer, ssh_kex_ecdh_reply) act" where
  "ssh_kex_ecdh_reply_decode =
     bindA ssh_buffer_get_u8 (\<lambda>message_id.
     thenA (ensureA (message_id = SSH_MSG_KEX_ECDH_REPLY) SSH_ERR_MALFORMED_PACKET) (
     bindA ssh_buffer_get_string_view (\<lambda>server_host_key.
     bindA ssh_buffer_get_string_view (\<lambda>server_public_key.
     bindA ssh_buffer_get_string_view (\<lambda>signature.
     thenA (ensureA (\<not> (view_len server_host_key = 0 \<or> view_len server_host_key > EMSSH_MAX_HOST_KEY_BLOB \<or>
                       view_len server_public_key = 0 \<or> view_len server_public_key > EMSSH_MAX_KEX_PUBLIC_KEY \<or>
                       view_len signature = 0 \<or> view_len signature > EMSSH_MAX_SIGNATURE))
              SSH_ERR_MALFORMED_PACKET) (
     thenA (at_endA SSH_ERR_MALFORMED_PACKET)
     (retA \<lparr>reply_server_host_key = server_host_key, reply_server_public_key = server_public_key,
            reply_signature = signature\<rparr>)))))))"

definition ssh_kex_newkeys_encode :: "(ssh_buffer, unit) act" where
  "ssh_kex_newkeys_encode = ssh_buffer_put_u8 SSH_MSG_NEWKEYS"

definition ssh_kex_newkeys_decode :: "(ssh_buffer, unit) act" where
  "ssh_kex_newkeys_decode =
     bindA ssh_buffer_get_u8 (\<lambda>message_id.
     thenA (ensureA (message_id = SSH_MSG_NEWKEYS) SSH_ERR_MALFORMED_PACKET) (
     thenA (at_endA SSH_ERR_MALFORMED_PACKET) (retA ())))"

section \<open>Encodings\<close>

definition kexinit_bytes :: "ssh_kexinit \<Rightarrow> u8 list" where
  "kexinit_bytes k = [SSH_MSG_KEXINIT] @ kx_cookie k @ concat (map view_bytes (kx_name_lists k)) @
     [bool_byte (kx_first_kex_packet_follows k)] @ be32 (kx_reserved k)"

definition kexinit_valid :: "ssh_kexinit \<Rightarrow> bool" where
  "kexinit_valid k \<longleftrightarrow> length (kx_cookie k) = SSH_KEX_COOKIE_LEN \<and>
     length (kx_name_lists k) = SSH_KEXINIT_NAMELIST_COUNT \<and>
     (\<forall>v \<in> set (kx_name_lists k). string_valid v \<and> ssh_name_list_is_valid v) \<and> kx_reserved k = 0"

definition len_in :: "nat \<Rightarrow> view \<Rightarrow> bool" where
  "len_in n v \<longleftrightarrow> 0 < view_len v \<and> view_len v \<le> n"

definition ecdh_init_bytes :: "view \<Rightarrow> u8 list" where
  "ecdh_init_bytes key = [SSH_MSG_KEX_ECDH_INIT] @ view_bytes key"

definition ecdh_reply_bytes :: "ssh_kex_ecdh_reply \<Rightarrow> u8 list" where
  "ecdh_reply_bytes r = [SSH_MSG_KEX_ECDH_REPLY] @ view_bytes (reply_server_host_key r) @
     view_bytes (reply_server_public_key r) @ view_bytes (reply_signature r)"

definition ecdh_reply_valid :: "ssh_kex_ecdh_reply \<Rightarrow> bool" where
  "ecdh_reply_valid r \<longleftrightarrow> len_in EMSSH_MAX_HOST_KEY_BLOB (reply_server_host_key r) \<and>
     len_in EMSSH_MAX_KEX_PUBLIC_KEY (reply_server_public_key r) \<and>
     len_in EMSSH_MAX_SIGNATURE (reply_signature r)"

lemma string_valid_pos: "0 < view_len v \<Longrightarrow> view_len v \<le> UINT32_MAX \<Longrightarrow> string_valid v"
  by (cases v) auto

lemma len_in_string_valid: "len_in n v \<Longrightarrow> n \<le> UINT32_MAX \<Longrightarrow> string_valid v"
  by (cases v) (auto simp: len_in_def)

lemma len_in_iff: "len_in n v \<longleftrightarrow> \<not> (view_len v = 0 \<or> view_len v > n)"
  by (auto simp: len_in_def)

lemma reads_name_lists [reads_intros]:
  "reads (get_name_lists n) (\<lambda>vs bs r. length vs = n \<and>
     (\<forall>v \<in> set vs. string_valid v \<and> ssh_name_list_is_valid v) \<and> bs = concat (map view_bytes vs))"
proof (induction n)
  case 0
  show ?case
    unfolding get_name_lists.simps by (rule reads_cong, rule reads_intros) auto
next
  case (Suc n)
  show ?case
    unfolding get_name_lists.simps
    by (rule reads_cong, (rule reads_intros Suc)+) (auto simp: length_Suc_conv)
qed

lemma reads_all_kexinit: "reads_all ssh_kexinit_decode (\<lambda>k bs. kexinit_valid k \<and> bs = kexinit_bytes k)"
  unfolding ssh_kexinit_decode_def
  apply (rule reads_all_cong, (rule reads_intros)+)
  subgoal for k bs r by (cases k) (auto simp: kexinit_valid_def kexinit_bytes_def)
  done

interpretation kexinit: message_decoder ssh_kexinit_decode kexinit_bytes kexinit_valid
  by (rule message_decoder_readsI [OF reads_all_kexinit])

lemma reads_all_ecdh_init:
  "reads_all ssh_kex_ecdh_init_decode (\<lambda>k bs. len_in EMSSH_MAX_KEX_PUBLIC_KEY k \<and> bs = ecdh_init_bytes k)"
  unfolding ssh_kex_ecdh_init_decode_def
  by (rule reads_all_cong, (rule reads_intros)+)
    (auto simp: ecdh_init_bytes_def len_in_iff kex_limits intro: len_in_string_valid)

lemma reads_all_ecdh_reply:
  "reads_all ssh_kex_ecdh_reply_decode (\<lambda>r bs. ecdh_reply_valid r \<and> bs = ecdh_reply_bytes r)"
  unfolding ssh_kex_ecdh_reply_decode_def
  apply (rule reads_all_cong, (rule reads_intros)+)
  subgoal for r bs q by (cases r) (auto simp: ecdh_reply_bytes_def ecdh_reply_valid_def len_in_def kex_limits
        intro!: string_valid_pos)
  done

text \<open>The encoders write these encodings.\<close>

interpretation ecdh_init: wire_message ssh_kex_ecdh_init_decode ecdh_init_bytes
  "len_in EMSSH_MAX_KEX_PUBLIC_KEY" "\<lambda>key. ssh_kex_ecdh_init_encode (view_data key)"
proof (rule wire_message_readsI [OF reads_all_ecdh_init])
  fix key assume "len_in EMSSH_MAX_KEX_PUBLIC_KEY key"
  then show "buffer_writer (ssh_kex_ecdh_init_encode (view_data key)) (ecdh_init_bytes key)"
    unfolding ssh_kex_ecdh_init_encode_def ecdh_init_bytes_def
    by (intro encoder_intros)
      (auto simp: len_in_iff kex_limits intro: len_in_string_valid)
qed

interpretation ecdh_reply: wire_message ssh_kex_ecdh_reply_decode ecdh_reply_bytes ecdh_reply_valid
  "\<lambda>r. ssh_kex_ecdh_reply_encode (view_data (reply_server_host_key r))
     (view_data (reply_server_public_key r)) (view_data (reply_signature r))"
proof (rule wire_message_readsI [OF reads_all_ecdh_reply])
  fix r assume "ecdh_reply_valid r"
  then show "buffer_writer (ssh_kex_ecdh_reply_encode (view_data (reply_server_host_key r))
     (view_data (reply_server_public_key r)) (view_data (reply_signature r))) (ecdh_reply_bytes r)"
    unfolding ssh_kex_ecdh_reply_encode_def ecdh_reply_bytes_def
    by (intro encoder_intros)
      (auto simp: ecdh_reply_valid_def len_in_def kex_limits intro!: string_valid_pos)
qed

interpretation newkeys: wire_message ssh_kex_newkeys_decode "\<lambda>_. [SSH_MSG_NEWKEYS]" "\<lambda>_. True"
  "\<lambda>_. ssh_kex_newkeys_encode"
proof (rule wire_message_readsI)
  show "reads_all ssh_kex_newkeys_decode (\<lambda>_ bs. True \<and> bs = [SSH_MSG_NEWKEYS])"
    unfolding ssh_kex_newkeys_decode_def
    by (rule reads_all_cong, (rule reads_intros)+) auto
qed (simp add: ssh_kex_newkeys_encode_def writer_intros)

text \<open>The KEXINIT message that an algorithm set stands for.\<close>

definition kexinit_of :: "u8 list \<Rightarrow> ssh_kexinit_algorithm_set option \<Rightarrow> bool \<Rightarrow> ssh_kexinit" where
  "kexinit_of cookie algorithms follows = \<lparr>kx_cookie = cookie,
     kx_name_lists = map (Some \<circ> cstr_or_empty) (algorithm_set_to_array algorithms),
     kx_first_kex_packet_follows = follows, kx_reserved = 0\<rparr>"

lemma length_algorithm_set_to_array [simp]:
  "length (algorithm_set_to_array a) = SSH_KEXINIT_NAMELIST_COUNT"
  by (simp add: algorithm_set_to_array_def default_name_lists_def kex_limits split: option.splits)

lemma put_name_lists_writes:
  "\<forall>v \<in> set ls. string_valid (Some (cstr_or_empty v)) \<and> ssh_name_list_is_valid (Some (cstr_or_empty v)) \<Longrightarrow>
   buffer_writer (put_name_lists ls) (concat (map (view_bytes \<circ> Some \<circ> cstr_or_empty) ls))"
  by (induction ls) (auto intro!: encoder_intros simp del: retA_apply)

lemma kexinit_encode_writes:
  assumes "kexinit_valid (kexinit_of cookie algorithms follows)"
  shows "buffer_writer (ssh_kexinit_encode cookie algorithms follows)
     (kexinit_bytes (kexinit_of cookie algorithms follows))"
proof -
  have "take SSH_KEX_COOKIE_LEN cookie = cookie"
    "buffer_writer (put_name_lists (algorithm_set_to_array algorithms))
      (concat (map (view_bytes \<circ> Some \<circ> cstr_or_empty) (algorithm_set_to_array algorithms)))"
    using assms by (auto simp: kexinit_valid_def kexinit_of_def intro!: put_name_lists_writes)
  then show ?thesis
    unfolding ssh_kexinit_encode_def kexinit_bytes_def kexinit_of_def bool_byte_def
    by (simp only: ssh_kexinit.simps map_map comp_assoc) (intro writer_intros)
qed

text \<open>An encoder that returns OK has written a valid message: a list with a malformed name is refused.\<close>

lemma put_name_lists_valid:
  "put_name_lists ls b = (Inr (), b') \<Longrightarrow> \<forall>l \<in> set ls. ssh_name_list_is_valid (Some (cstr_or_empty l))"
  by (induction ls arbitrary: b) (auto simp: thenA_eq_Inr split: if_splits)

section \<open>Selection\<close>

text \<open>The specification: the first name of the server's list that the client's list contains.\<close>

definition select_spec :: "u8 list \<Rightarrow> u8 list \<Rightarrow> ssh_err + view" where
  "select_spec client server =
     (case find (\<lambda>x. x \<in> set (name_items client)) (name_items server) of
        None \<Rightarrow> Inl SSH_ERR_UNSUPPORTED | Some x \<Rightarrow> Inr (Some x))"

lemma select_loop_items:
  "item_scan server start i \<Longrightarrow> select_loop client server start i =
     (case find (\<lambda>x. x \<in> set (name_items client)) (name_items (drop start server)) of
        None \<Rightarrow> Inl SSH_ERR_UNSUPPORTED | Some x \<Rightarrow> Inr (Some x))"
proof (induction client server start i rule: select_loop.induct)
  case (1 client server start i)
  let ?item = "take (i - start) (drop start server)"
  consider (last) "i = length server" | (sep) "i < length server" "server ! i = comma"
    | (other) "i < length server" "server ! i \<noteq> comma"
    using "1.prems" by (force simp: item_scan_def)
  then show ?case
  proof cases
    case last
    have "select_loop client server (i + 1) (i + 1) = Inl SSH_ERR_UNSUPPORTED"
      using last by (subst select_loop.simps) simp
    with last "1.prems" show ?thesis
      by (subst select_loop.simps) (auto simp: item_scan_last name_list_find_0)
  next
    case sep
    show ?thesis
      using "1.IH"(1) sep item_scan_refl [of "i + 1" server] item_scan_comma [OF "1.prems" sep]
      by (subst select_loop.simps) (simp add: name_list_find_0)
  next
    case other
    then show ?thesis
      using "1.IH"(2) item_scan_step [OF "1.prems"]
      by (simp add: select_loop.simps [of client server start i])
  qed
qed

lemma select_loop_spec: "select_loop client server 0 0 = select_spec client server"
  by (simp add: select_loop_items item_scan_refl select_spec_def)

lemma select_spec_Inr:
  "select_spec client server = Inr v \<longleftrightarrow>
     (\<exists>i < length (name_items server). v = Some (name_items server ! i) \<and>
        name_items server ! i \<in> set (name_items client) \<and>
        (\<forall>j < i. name_items server ! j \<notin> set (name_items client)))"
proof -
  have "select_spec client server = Inr v \<longleftrightarrow>
      (\<exists>x. v = Some x \<and> find (\<lambda>x. x \<in> set (name_items client)) (name_items server) = Some x)"
    unfolding select_spec_def by (auto split: option.splits)
  then show ?thesis
    by (auto simp: find_Some_iff)
qed

lemma select_first_match_Inr:
  "select_first_match client server False = Inr v \<longleftrightarrow>
     ssh_name_list_is_valid client \<and> ssh_name_list_is_valid (Some (cstr_or_empty server)) \<and>
     view_len client \<noteq> 0 \<and> cstr_or_empty server \<noteq> [] \<and>
     select_spec (view_data client) (cstr_or_empty server) = Inr v"
  by (auto simp: select_first_match_def cstring_to_name_list_view_def Let_def select_loop_spec bindS_eq_Inr)

subsection \<open>The whole negotiation\<close>

definition negotiation_array :: "ssh_kex_negotiation \<Rightarrow> view list" where
  "negotiation_array n =
     [neg_kex_algorithm n, neg_server_host_key_algorithm n,
      neg_encryption_algorithm_client_to_server n, neg_encryption_algorithm_server_to_client n,
      neg_mac_algorithm_client_to_server n, neg_mac_algorithm_server_to_client n,
      neg_compression_algorithm_client_to_server n, neg_compression_algorithm_server_to_client n,
      neg_language_client_to_server n, neg_language_server_to_client n]"

definition first_common :: "view \<Rightarrow> cstr \<Rightarrow> view \<Rightarrow> bool" where
  "first_common client server v \<longleftrightarrow>
     (let ours = name_items (cstr_or_empty server); theirs = name_items (view_data client)
      in \<exists>i < length ours. v = Some (ours ! i) \<and> ours ! i \<in> set theirs \<and> (\<forall>j < i. ours ! j \<notin> set theirs))"

lemma less_10_iff: "(\<forall>k < 10. P (k :: nat)) \<longleftrightarrow>
    P 0 \<and> P 1 \<and> P 2 \<and> P 3 \<and> P 4 \<and> P 5 \<and> P 6 \<and> P 7 \<and> P 8 \<and> P 9"
  by (simp add: numeral_eq_Suc All_less_Suc conj_ac)

lemma algorithm_set_defaults_array:
  "algorithm_set_to_array (Some ssh_kexinit_algorithm_set_defaults) = algorithm_set_to_array None"
  by (simp add: algorithm_set_to_array_def ssh_kexinit_algorithm_set_defaults_def default_name_lists_def)

lemma select_into_Inr: "select_into field r n = (Inr u, n') \<longleftrightarrow> (\<exists>v. r = Inr v \<and> n' = field (\<lambda>_. v) n)"
  by (auto simp: select_into_def split: sum.splits)

lemma kex_negotiate_iff:
  "ssh_kex_negotiate client algs n0 = (Inr (), n) \<longleftrightarrow>
     (\<forall>k < 10. select_first_match (kx_name_lists client ! k) (algorithm_set_to_array algs ! k) (8 \<le> k)
        = Inr (negotiation_array n ! k))"
proof -
  have "ssh_kex_negotiate client (Some s) n0 = (Inr (), n) \<longleftrightarrow>
     (\<forall>k < 10. select_first_match (kx_name_lists client ! k) (algorithm_set_to_array (Some s) ! k) (8 \<le> k)
        = Inr (negotiation_array n ! k))" for s
    unfolding ssh_kex_negotiate_def less_10_iff
    by (cases n) (auto simp: thenA_eq_Inr select_into_Inr negotiate_one_def algorithm_set_to_array_def negotiation_array_def
        empty_negotiation_def)
  moreover have "ssh_kex_negotiate client None = ssh_kex_negotiate client (Some ssh_kexinit_algorithm_set_defaults)"
    by (simp add: ssh_kex_negotiate_def fun_eq_iff)
  ultimately show ?thesis
    by (cases algs) (auto simp: algorithm_set_defaults_array)
qed

lemma select_first_match_first_common:
  "select_first_match client server False = Inr v \<Longrightarrow> first_common client server v"
  by (simp add: select_first_match_Inr select_spec_Inr first_common_def Let_def)

lemma select_first_match_total:
  assumes "ssh_name_list_is_valid client" "ssh_name_list_is_valid (Some (cstr_or_empty server))"
    and "set (name_items (cstr_or_empty server)) \<inter> set (name_items (view_data client)) \<noteq> {}"
    and "view_len client \<noteq> 0" "cstr_or_empty server \<noteq> []"
  shows "\<exists>v. select_first_match client server e = Inr v"
proof -
  have "find (\<lambda>x. x \<in> set (name_items (view_data client))) (name_items (cstr_or_empty server)) \<noteq> None"
    using assms(3) by (auto simp: find_None_iff)
  with assms show ?thesis
    by (auto simp: select_first_match_def cstring_to_name_list_view_def Let_def select_loop_spec select_spec_def
        split: option.splits)
qed

section \<open>Properties\<close>

text \<open>C26. Whenever the negotiation succeeds, each of the eight mandatory algorithms it returns is the
  first name of the server's own list that the client's KEXINIT also offers; with no algorithm set
  given, the server's lists are the built-in defaults.\<close>

theorem negotiate_first_common:
  assumes "ssh_kex_negotiate client algs n0 = (Inr (), n)" and "k < 8"
  shows "first_common (kx_name_lists client ! k) (algorithm_set_to_array algs ! k) (negotiation_array n ! k)"
proof (rule select_first_match_first_common)
  show "select_first_match (kx_name_lists client ! k) (algorithm_set_to_array algs ! k) False =
      Inr (negotiation_array n ! k)"
    using assms(1) [unfolded kex_negotiate_iff, rule_format, of k] assms(2) by simp
qed

text \<open>A client and a server that share one name in the eight mandatory lists.\<close>

definition sample_client :: ssh_kexinit where
  "sample_client = \<lparr>kx_cookie = replicate 16 7,
     kx_name_lists = replicate 8 (Some (lit ''x,k'')) @ [Some [], Some (lit ''en'')],
     kx_first_kex_packet_follows = False, kx_reserved = 0\<rparr>"

definition sample_algs :: ssh_kexinit_algorithm_set where
  "sample_algs = \<lparr>kex_algorithms = Some (lit ''j,k''), server_host_key_algorithms = Some (lit ''k''),
     encryption_algorithms_client_to_server = Some (lit ''k''),
     encryption_algorithms_server_to_client = Some (lit ''k''),
     mac_algorithms_client_to_server = Some (lit ''k''), mac_algorithms_server_to_client = Some (lit ''k''),
     compression_algorithms_client_to_server = Some (lit ''k''),
     compression_algorithms_server_to_client = Some (lit ''k''),
     languages_client_to_server = None, languages_server_to_client = None\<rparr>"

definition sample_negotiation :: ssh_kex_negotiation where
  "sample_negotiation = \<lparr>
     neg_kex_algorithm = Some (lit ''k''), neg_server_host_key_algorithm = Some (lit ''k''),
     neg_encryption_algorithm_client_to_server = Some (lit ''k''),
     neg_encryption_algorithm_server_to_client = Some (lit ''k''),
     neg_mac_algorithm_client_to_server = Some (lit ''k''), neg_mac_algorithm_server_to_client = Some (lit ''k''),
     neg_compression_algorithm_client_to_server = Some (lit ''k''),
     neg_compression_algorithm_server_to_client = Some (lit ''k''),
     neg_language_client_to_server = None, neg_language_server_to_client = None\<rparr>"

lemma sample_negotiates: "ssh_kex_negotiate sample_client (Some sample_algs) empty_negotiation = (Inr (), sample_negotiation)"
  by code_simp

lemma sample_lists_valid:
  "\<forall>k < 10. ssh_name_list_is_valid (kx_name_lists sample_client ! k) \<and>
     ssh_name_list_is_valid (Some (cstr_or_empty (algorithm_set_to_array (Some sample_algs) ! k)))"
  by code_simp

lemma sample_lists_shared:
  "\<forall>k < 10. (8 \<le> k \<and> (view_len (kx_name_lists sample_client ! k) = 0 \<or>
        cstr_or_empty (algorithm_set_to_array (Some sample_algs) ! k) = [])) \<or>
      (view_len (kx_name_lists sample_client ! k) \<noteq> 0 \<and> cstr_or_empty (algorithm_set_to_array (Some sample_algs) ! k) \<noteq> [] \<and>
       set (name_items (cstr_or_empty (algorithm_set_to_array (Some sample_algs) ! k))) \<inter>
       set (name_items (view_data (kx_name_lists sample_client ! k))) \<noteq> {})"
  by code_simp

theorem negotiate_first_common_witness:
  "first_common (kx_name_lists sample_client ! 0) (algorithm_set_to_array (Some sample_algs) ! 0)
     (Some (lit ''k''))"
  using negotiate_first_common [OF sample_negotiates, of 0]
  by (simp add: negotiation_array_def sample_negotiation_def)

text \<open>The negotiation does not miss a common algorithm: if every list on both sides is well formed,
  and for each of the eight mandatory lists client and server share a name (a shared language is not
  needed where one side names none), it succeeds.\<close>

theorem negotiate_complete:
  assumes lists: "\<And>k. k < 10 \<Longrightarrow> ssh_name_list_is_valid (kx_name_lists client ! k) \<and>
      ssh_name_list_is_valid (Some (cstr_or_empty (algorithm_set_to_array algs ! k)))"
    and shared: "\<And>k. k < 10 \<Longrightarrow>
      (8 \<le> k \<and> (view_len (kx_name_lists client ! k) = 0 \<or> cstr_or_empty (algorithm_set_to_array algs ! k) = [])) \<or>
      (view_len (kx_name_lists client ! k) \<noteq> 0 \<and> cstr_or_empty (algorithm_set_to_array algs ! k) \<noteq> [] \<and>
       set (name_items (cstr_or_empty (algorithm_set_to_array algs ! k))) \<inter>
       set (name_items (view_data (kx_name_lists client ! k))) \<noteq> {})"
  shows "\<exists>n. ssh_kex_negotiate client algs n0 = (Inr (), n)"
proof -
  have "\<exists>v. select_first_match (kx_name_lists client ! k) (algorithm_set_to_array algs ! k) (8 \<le> k) = Inr v"
    if "k < 10" for k
    using shared [OF that]
  proof
    assume "8 \<le> k \<and> (view_len (kx_name_lists client ! k) = 0 \<or> cstr_or_empty (algorithm_set_to_array algs ! k) = [])"
    then show ?thesis
      using lists [OF that] by (auto simp: select_first_match_def cstring_to_name_list_view_def Let_def)
  qed (use lists [OF that] in \<open>blast intro: select_first_match_total\<close>)
  then obtain f where f: "\<forall>k < 10. select_first_match (kx_name_lists client ! k)
      (algorithm_set_to_array algs ! k) (8 \<le> k) = Inr (f k)"
    by metis
  define n where "n = \<lparr>neg_kex_algorithm = f 0, neg_server_host_key_algorithm = f 1,
     neg_encryption_algorithm_client_to_server = f 2, neg_encryption_algorithm_server_to_client = f 3,
     neg_mac_algorithm_client_to_server = f 4, neg_mac_algorithm_server_to_client = f 5,
     neg_compression_algorithm_client_to_server = f 6, neg_compression_algorithm_server_to_client = f 7,
     neg_language_client_to_server = f 8, neg_language_server_to_client = f 9\<rparr>"
  have "\<forall>k < 10. negotiation_array n ! k = f k"
    unfolding less_10_iff by (simp add: negotiation_array_def n_def)
  with f show ?thesis
    unfolding kex_negotiate_iff by (intro exI [of _ n]) simp
qed

theorem negotiate_complete_witness: "\<exists>n. ssh_kex_negotiate sample_client (Some sample_algs) empty_negotiation = (Inr (), n)"
proof (rule negotiate_complete)
  show "ssh_name_list_is_valid (kx_name_lists sample_client ! k) \<and>
      ssh_name_list_is_valid (Some (cstr_or_empty (algorithm_set_to_array (Some sample_algs) ! k)))" if "k < 10" for k
    using sample_lists_valid that less_10_iff by metis
  show "(8 \<le> k \<and> (view_len (kx_name_lists sample_client ! k) = 0 \<or>
        cstr_or_empty (algorithm_set_to_array (Some sample_algs) ! k) = [])) \<or>
      (view_len (kx_name_lists sample_client ! k) \<noteq> 0 \<and> cstr_or_empty (algorithm_set_to_array (Some sample_algs) ! k) \<noteq> [] \<and>
       set (name_items (cstr_or_empty (algorithm_set_to_array (Some sample_algs) ! k))) \<inter>
       set (name_items (view_data (kx_name_lists sample_client ! k))) \<noteq> {})" if "k < 10" for k
    using sample_lists_shared that less_10_iff by metis
qed

text \<open>What the server encodes as its KEXINIT, from any well-formed algorithm set and a 16 byte
  cookie, into an array that is large enough, decodes to the same cookie, the same ten lists and flag.\<close>

theorem kexinit_roundtrip:
  assumes "kexinit_valid (kexinit_of cookie algs follows)"
    and "length storage = cap" "length (kexinit_bytes (kexinit_of cookie algs follows)) \<le> cap"
  shows "\<exists>b. ssh_kexinit_encode cookie algs follows (ssh_buffer_init (Some storage) cap) = (Inr (), b) \<and>
    fst (ssh_kexinit_decode (ssh_buffer_wrap (Some (buf_content b)) (length (buf_content b)))) =
      Inr (kexinit_of cookie algs follows)"
  using assms buffer_writer.put_fits [OF kexinit_encode_writes [OF assms(1)], of "ssh_buffer_init (Some storage) cap"]
  by (simp add: kexinit.decode_wrapped)

theorem kexinit_roundtrip_witness:
  "\<exists>b. ssh_kexinit_encode (replicate 16 7) (Some sample_algs) False (ssh_buffer_init (Some (replicate 300 0)) 300) = (Inr (), b) \<and>
    fst (ssh_kexinit_decode (ssh_buffer_wrap (Some (buf_content b)) (length (buf_content b)))) =
      Inr (kexinit_of (replicate 16 7) (Some sample_algs) False)"
proof (rule kexinit_roundtrip)
  show "kexinit_valid (kexinit_of (replicate 16 7) (Some sample_algs) False)"
    using sample_lists_valid unfolding less_10_iff
    by (simp add: kexinit_valid_def kexinit_of_def algorithm_set_to_array_def sample_algs_def
        cstr_or_empty_def kex_limits)
qed (simp_all add: kexinit_bytes_def kexinit_of_def algorithm_set_to_array_def sample_algs_def
        cstr_or_empty_def)

text \<open>Key exchange messages carry arbitrary key material unharmed: an ECDH reply with a host key
  blob, a public key and a signature within the limits decodes to exactly these three strings.\<close>

theorem ecdh_reply_roundtrip:
  assumes "ecdh_reply_valid r" "length storage = cap" "length (ecdh_reply_bytes r) \<le> cap"
  shows "\<exists>b. ssh_kex_ecdh_reply_encode (view_data (reply_server_host_key r))
      (view_data (reply_server_public_key r)) (view_data (reply_signature r))
      (ssh_buffer_init (Some storage) cap) = (Inr (), b) \<and>
    fst (ssh_kex_ecdh_reply_decode (ssh_buffer_wrap (Some (buf_content b)) (length (buf_content b)))) = Inr r"
  using ecdh_reply.encode_decode [OF assms] by blast

theorem ecdh_reply_roundtrip_witness:
  "\<exists>b. ssh_kex_ecdh_reply_encode [1, 2] [3] [4, 5, 6] (ssh_buffer_init (Some (replicate 32 0)) 32) = (Inr (), b) \<and>
    fst (ssh_kex_ecdh_reply_decode (ssh_buffer_wrap (Some (buf_content b)) (length (buf_content b)))) =
      Inr \<lparr>reply_server_host_key = Some [1, 2], reply_server_public_key = Some [3], reply_signature = Some [4, 5, 6]\<rparr>"
  using ecdh_reply_roundtrip [of "\<lparr>reply_server_host_key = Some [1, 2], reply_server_public_key = Some [3],
      reply_signature = Some [4, 5, 6]\<rparr>" "replicate 32 0" 32]
  by (simp add: ecdh_reply_valid_def ecdh_reply_bytes_def len_in_def kex_limits)

end
