(* ===== verification/Ssh_Service.thy ===== *)
theory Ssh_Service
  imports Ssh_Kex
begin

text \<open>
  Service requests: \<^verbatim>\<open>src/core/ssh_service.c\<close>. Both messages are wire messages; the only service the
  server accepts before authentication is \<^verbatim>\<open>ssh-userauth\<close>. The static helper \<^verbatim>\<open>view_eq\<close>, which
  several source files repeat, is defined here once.
\<close>

definition SSH_MSG_SERVICE_REQUEST :: u8 where "SSH_MSG_SERVICE_REQUEST = 5"
definition SSH_MSG_SERVICE_ACCEPT :: u8 where "SSH_MSG_SERVICE_ACCEPT = 6"
definition SSH_SERVICE_USERAUTH :: "u8 list" where "SSH_SERVICE_USERAUTH = lit ''ssh-userauth''"
definition SSH_SERVICE_CONNECTION :: "u8 list" where "SSH_SERVICE_CONNECTION = lit ''ssh-connection''"

record ssh_service_request =
  srq_service_name :: view

definition view_eq :: "view \<Rightarrow> u8 list \<Rightarrow> bool" where
  "view_eq v value = (case v of None \<Rightarrow> False | Some bs \<Rightarrow> length bs = length value \<and> bs = value)"

lemma view_eq_iff [simp]: "view_eq v value \<longleftrightarrow> v = Some value"
  by (auto simp: view_eq_def split: option.splits)

definition ssh_service_request_encode :: "cstr \<Rightarrow> (ssh_buffer, unit) act" where
  "ssh_service_request_encode service_name =
     thenA (ensureA (service_name \<noteq> None) SSH_ERR_INVALID_ARGUMENT)
     (thenA (ssh_buffer_put_u8 SSH_MSG_SERVICE_REQUEST)
     (ssh_buffer_put_cstring service_name))"

definition ssh_service_request_decode :: "(ssh_buffer, ssh_service_request) act" where
  "ssh_service_request_decode =
     bindA ssh_buffer_get_u8 (\<lambda>message_id.
     thenA (ensureA (message_id = SSH_MSG_SERVICE_REQUEST) SSH_ERR_MALFORMED_PACKET) (
     bindA ssh_buffer_get_string_view (\<lambda>service_name.
     thenA (ensureA (\<not> view_len service_name = 0) SSH_ERR_MALFORMED_PACKET) (
     thenA (at_endA SSH_ERR_MALFORMED_PACKET)
     (retA \<lparr>srq_service_name = service_name\<rparr>)))))"

definition ssh_service_accept_encode :: "cstr \<Rightarrow> (ssh_buffer, unit) act" where
  "ssh_service_accept_encode service_name =
     thenA (ensureA (service_name \<noteq> None) SSH_ERR_INVALID_ARGUMENT)
     (thenA (ssh_buffer_put_u8 SSH_MSG_SERVICE_ACCEPT)
     (ssh_buffer_put_cstring service_name))"

definition ssh_service_accept_decode :: "(ssh_buffer, ssh_service_request) act" where
  "ssh_service_accept_decode =
     bindA ssh_buffer_get_u8 (\<lambda>message_id.
     thenA (ensureA (message_id = SSH_MSG_SERVICE_ACCEPT) SSH_ERR_MALFORMED_PACKET) (
     bindA ssh_buffer_get_string_view (\<lambda>service_name.
     thenA (ensureA (\<not> view_len service_name = 0) SSH_ERR_MALFORMED_PACKET) (
     thenA (at_endA SSH_ERR_MALFORMED_PACKET)
     (retA \<lparr>srq_service_name = service_name\<rparr>)))))"

definition ssh_service_name_is_supported :: "view \<Rightarrow> bool" where
  "ssh_service_name_is_supported service_name = view_eq service_name SSH_SERVICE_USERAUTH"

section \<open>Wire messages\<close>

definition service_bytes :: "u8 \<Rightarrow> ssh_service_request \<Rightarrow> u8 list" where
  "service_bytes msg r = [msg] @ view_bytes (srq_service_name r)"

definition service_valid :: "ssh_service_request \<Rightarrow> bool" where
  "service_valid r \<longleftrightarrow> len_in UINT32_MAX (srq_service_name r)"

interpretation service_request: wire_message ssh_service_request_decode
  "service_bytes SSH_MSG_SERVICE_REQUEST" service_valid "\<lambda>r. ssh_service_request_encode (srq_service_name r)"
proof (rule wire_message_readsI)
  show "reads_all ssh_service_request_decode (\<lambda>r bs. service_valid r \<and> bs = service_bytes SSH_MSG_SERVICE_REQUEST r)"
    unfolding ssh_service_request_decode_def
    apply (rule reads_all_cong, (rule reads_intros)+)
    subgoal for r bs q by (cases r) (auto simp: service_valid_def service_bytes_def len_in_def string_valid_def split: option.splits)
    done
  show "buffer_writer (ssh_service_request_encode (srq_service_name r)) (service_bytes SSH_MSG_SERVICE_REQUEST r)"
    if "service_valid r" for r
    unfolding ssh_service_request_encode_def service_bytes_def
    using that by (intro encoder_intros) (auto simp: service_valid_def len_in_def string_valid_def view_len_def split: option.splits)
qed

interpretation service_accept: wire_message ssh_service_accept_decode
  "service_bytes SSH_MSG_SERVICE_ACCEPT" service_valid "\<lambda>r. ssh_service_accept_encode (srq_service_name r)"
proof (rule wire_message_readsI)
  show "reads_all ssh_service_accept_decode (\<lambda>r bs. service_valid r \<and> bs = service_bytes SSH_MSG_SERVICE_ACCEPT r)"
    unfolding ssh_service_accept_decode_def
    apply (rule reads_all_cong, (rule reads_intros)+)
    subgoal for r bs q by (cases r) (auto simp: service_valid_def service_bytes_def len_in_def string_valid_def split: option.splits)
    done
  show "buffer_writer (ssh_service_accept_encode (srq_service_name r)) (service_bytes SSH_MSG_SERVICE_ACCEPT r)"
    if "service_valid r" for r
    unfolding ssh_service_accept_encode_def service_bytes_def
    using that by (intro encoder_intros) (auto simp: service_valid_def len_in_def string_valid_def view_len_def split: option.splits)
qed

end
