(* ===== verification/Ssh_Connection.thy ===== *)
theory Ssh_Connection
  imports Ssh_Service
begin

text \<open>
  The messages of the connection protocol: \<^verbatim>\<open>src/core/ssh_connection.c\<close>. Channel open, data, window,
  EOF and close messages, and channel requests with their type-specific fields. The request decoders fill
  the caller's structure field by field; the transport answers a request it does not know from the fields
  that were filled before the error, so these decoders work on the buffer and the structure.
\<close>

definition SSH_MSG_CHANNEL_OPEN :: u8 where "SSH_MSG_CHANNEL_OPEN = 90"
definition SSH_MSG_CHANNEL_OPEN_CONFIRMATION :: u8 where "SSH_MSG_CHANNEL_OPEN_CONFIRMATION = 91"
definition SSH_MSG_CHANNEL_OPEN_FAILURE :: u8 where "SSH_MSG_CHANNEL_OPEN_FAILURE = 92"
definition SSH_MSG_CHANNEL_WINDOW_ADJUST :: u8 where "SSH_MSG_CHANNEL_WINDOW_ADJUST = 93"
definition SSH_MSG_CHANNEL_DATA :: u8 where "SSH_MSG_CHANNEL_DATA = 94"
definition SSH_MSG_CHANNEL_EOF :: u8 where "SSH_MSG_CHANNEL_EOF = 96"
definition SSH_MSG_CHANNEL_CLOSE :: u8 where "SSH_MSG_CHANNEL_CLOSE = 97"
definition SSH_MSG_CHANNEL_REQUEST :: u8 where "SSH_MSG_CHANNEL_REQUEST = 98"
definition SSH_MSG_CHANNEL_SUCCESS :: u8 where "SSH_MSG_CHANNEL_SUCCESS = 99"
definition SSH_MSG_CHANNEL_FAILURE :: u8 where "SSH_MSG_CHANNEL_FAILURE = 100"
definition SSH_MSG_GLOBAL_REQUEST :: u8 where "SSH_MSG_GLOBAL_REQUEST = 80"
definition SSH_MSG_REQUEST_FAILURE :: u8 where "SSH_MSG_REQUEST_FAILURE = 82"

definition SSH_CHANNEL_TYPE_SESSION :: "u8 list" where "SSH_CHANNEL_TYPE_SESSION = lit ''session''"
definition SSH_CHANNEL_REQUEST_SUBSYSTEM :: "u8 list" where "SSH_CHANNEL_REQUEST_SUBSYSTEM = lit ''subsystem''"
definition SSH_CHANNEL_REQUEST_PTY_REQ :: "u8 list" where "SSH_CHANNEL_REQUEST_PTY_REQ = lit ''pty-req''"
definition SSH_CHANNEL_REQUEST_SHELL :: "u8 list" where "SSH_CHANNEL_REQUEST_SHELL = lit ''shell''"
definition SSH_CHANNEL_REQUEST_EXEC :: "u8 list" where "SSH_CHANNEL_REQUEST_EXEC = lit ''exec''"
definition SSH_CHANNEL_REQUEST_ENV :: "u8 list" where "SSH_CHANNEL_REQUEST_ENV = lit ''env''"
definition SSH_CHANNEL_REQUEST_WINDOW_CHANGE :: "u8 list" where "SSH_CHANNEL_REQUEST_WINDOW_CHANGE = lit ''window-change''"
definition SSH_CHANNEL_REQUEST_SIGNAL :: "u8 list" where "SSH_CHANNEL_REQUEST_SIGNAL = lit ''signal''"
definition SSH_SUBSYSTEM_SFTP :: "u8 list" where "SSH_SUBSYSTEM_SFTP = lit ''sftp''"

lemmas request_type_defs = SSH_CHANNEL_REQUEST_SUBSYSTEM_def SSH_CHANNEL_REQUEST_PTY_REQ_def
  SSH_CHANNEL_REQUEST_SHELL_def SSH_CHANNEL_REQUEST_EXEC_def SSH_CHANNEL_REQUEST_ENV_def
  SSH_CHANNEL_REQUEST_WINDOW_CHANGE_def SSH_CHANNEL_REQUEST_SIGNAL_def

record ssh_channel_open =
  co_channel_type :: view
  co_sender_channel :: u32
  co_initial_window_size :: u32
  co_maximum_packet_size :: u32

record ssh_channel_request =
  cr_recipient_channel :: u32
  cr_request_type :: view
  cr_want_reply :: bool
  cr_subsystem_name :: view
  cr_term_type :: view
  cr_command :: view
  cr_env_name :: view
  cr_env_value :: view
  cr_signal_name :: view
  cr_pty_modes :: view
  cr_cols :: u32
  cr_rows :: u32
  cr_width_px :: u32
  cr_height_px :: u32

record ssh_channel_data =
  cd_recipient_channel :: u32
  cd_data :: view

record ssh_global_request =
  gr_request_name :: view
  gr_want_reply :: bool

record ssh_channel_message =
  cm_message_id :: u8
  cm_recipient_channel :: u32
  cm_window_bytes :: u32
  cm_data :: view
  cm_channel_request :: ssh_channel_request

section \<open>Encoders\<close>

definition ssh_channel_open_session_encode :: "u32 \<Rightarrow> u32 \<Rightarrow> u32 \<Rightarrow> (ssh_buffer, unit) act" where
  "ssh_channel_open_session_encode sender_channel initial_window_size maximum_packet_size =
     thenA (ssh_buffer_put_u8 SSH_MSG_CHANNEL_OPEN)
     (thenA (ssh_buffer_put_cstring (Some SSH_CHANNEL_TYPE_SESSION))
     (thenA (ssh_buffer_put_u32 sender_channel)
     (thenA (ssh_buffer_put_u32 initial_window_size)
     (ssh_buffer_put_u32 maximum_packet_size))))"

definition ssh_global_request_failure_encode :: "(ssh_buffer, unit) act" where
  "ssh_global_request_failure_encode = ssh_buffer_put_u8 SSH_MSG_REQUEST_FAILURE"

definition ssh_channel_open_confirmation_encode :: "u32 \<Rightarrow> u32 \<Rightarrow> u32 \<Rightarrow> u32 \<Rightarrow> (ssh_buffer, unit) act" where
  "ssh_channel_open_confirmation_encode recipient_channel sender_channel initial_window_size maximum_packet_size =
     thenA (ssh_buffer_put_u8 SSH_MSG_CHANNEL_OPEN_CONFIRMATION)
     (thenA (ssh_buffer_put_u32 recipient_channel)
     (thenA (ssh_buffer_put_u32 sender_channel)
     (thenA (ssh_buffer_put_u32 initial_window_size)
     (ssh_buffer_put_u32 maximum_packet_size))))"

definition ssh_channel_open_failure_encode :: "u32 \<Rightarrow> u32 \<Rightarrow> cstr \<Rightarrow> cstr \<Rightarrow> (ssh_buffer, unit) act" where
  "ssh_channel_open_failure_encode recipient_channel reason_code description language_tag =
     thenA (ensureA (description \<noteq> None \<and> language_tag \<noteq> None) SSH_ERR_INVALID_ARGUMENT)
     (thenA (ssh_buffer_put_u8 SSH_MSG_CHANNEL_OPEN_FAILURE)
     (thenA (ssh_buffer_put_u32 recipient_channel)
     (thenA (ssh_buffer_put_u32 reason_code)
     (thenA (ssh_buffer_put_cstring description)
     (ssh_buffer_put_cstring language_tag)))))"

definition ssh_channel_request_subsystem_encode :: "u32 \<Rightarrow> bool \<Rightarrow> cstr \<Rightarrow> (ssh_buffer, unit) act" where
  "ssh_channel_request_subsystem_encode recipient_channel want_reply subsystem_name =
     thenA (ensureA (subsystem_name \<noteq> None) SSH_ERR_INVALID_ARGUMENT)
     (thenA (ssh_buffer_put_u8 SSH_MSG_CHANNEL_REQUEST)
     (thenA (ssh_buffer_put_u32 recipient_channel)
     (thenA (ssh_buffer_put_cstring (Some SSH_CHANNEL_REQUEST_SUBSYSTEM))
     (thenA (ssh_buffer_put_bool want_reply)
     (ssh_buffer_put_cstring subsystem_name)))))"

definition ssh_channel_request_exit_status_encode :: "u32 \<Rightarrow> bool \<Rightarrow> u32 \<Rightarrow> (ssh_buffer, unit) act" where
  "ssh_channel_request_exit_status_encode recipient_channel want_reply exit_status =
     thenA (ssh_buffer_put_u8 SSH_MSG_CHANNEL_REQUEST)
     (thenA (ssh_buffer_put_u32 recipient_channel)
     (thenA (ssh_buffer_put_cstring (Some (lit ''exit-status'')))
     (thenA (ssh_buffer_put_bool want_reply)
     (ssh_buffer_put_u32 exit_status))))"

definition ssh_channel_success_encode :: "u32 \<Rightarrow> (ssh_buffer, unit) act" where
  "ssh_channel_success_encode recipient_channel =
     thenA (ssh_buffer_put_u8 SSH_MSG_CHANNEL_SUCCESS) (ssh_buffer_put_u32 recipient_channel)"

definition ssh_channel_failure_encode :: "u32 \<Rightarrow> (ssh_buffer, unit) act" where
  "ssh_channel_failure_encode recipient_channel =
     thenA (ssh_buffer_put_u8 SSH_MSG_CHANNEL_FAILURE) (ssh_buffer_put_u32 recipient_channel)"

definition ssh_channel_window_adjust_encode :: "u32 \<Rightarrow> u32 \<Rightarrow> (ssh_buffer, unit) act" where
  "ssh_channel_window_adjust_encode recipient_channel bytes_to_add =
     thenA (ensureA (bytes_to_add \<noteq> 0) SSH_ERR_INVALID_ARGUMENT)
     (thenA (ssh_buffer_put_u8 SSH_MSG_CHANNEL_WINDOW_ADJUST)
     (thenA (ssh_buffer_put_u32 recipient_channel)
     (ssh_buffer_put_u32 bytes_to_add)))"

definition ssh_channel_simple_encode :: "u8 \<Rightarrow> u32 \<Rightarrow> (ssh_buffer, unit) act" where
  "ssh_channel_simple_encode message_id recipient_channel =
     thenA (ssh_buffer_put_u8 message_id) (ssh_buffer_put_u32 recipient_channel)"

definition ssh_channel_eof_encode :: "u32 \<Rightarrow> (ssh_buffer, unit) act" where
  "ssh_channel_eof_encode recipient_channel = ssh_channel_simple_encode SSH_MSG_CHANNEL_EOF recipient_channel"

definition ssh_channel_close_encode :: "u32 \<Rightarrow> (ssh_buffer, unit) act" where
  "ssh_channel_close_encode recipient_channel = ssh_channel_simple_encode SSH_MSG_CHANNEL_CLOSE recipient_channel"

definition ssh_channel_data_encode :: "u32 \<Rightarrow> u8 list \<Rightarrow> (ssh_buffer, unit) act" where
  "ssh_channel_data_encode recipient_channel data =
     thenA (ssh_buffer_put_u8 SSH_MSG_CHANNEL_DATA)
     (thenA (ssh_buffer_put_u32 recipient_channel)
     (ssh_buffer_put_string data))"

section \<open>Decoders\<close>

definition ssh_channel_open_decode :: "(ssh_buffer, ssh_channel_open) act" where
  "ssh_channel_open_decode =
     bindA ssh_buffer_get_u8 (\<lambda>message_id.
     thenA (ensureA (message_id = SSH_MSG_CHANNEL_OPEN) SSH_ERR_MALFORMED_PACKET) (
     bindA ssh_buffer_get_string_view (\<lambda>channel_type.
     bindA ssh_buffer_get_u32 (\<lambda>sender_channel.
     bindA ssh_buffer_get_u32 (\<lambda>initial_window_size.
     bindA ssh_buffer_get_u32 (\<lambda>maximum_packet_size.
     thenA (at_endA SSH_ERR_MALFORMED_PACKET)
     (retA \<lparr>co_channel_type = channel_type, co_sender_channel = sender_channel,
        co_initial_window_size = initial_window_size, co_maximum_packet_size = maximum_packet_size\<rparr>)))))))"

text \<open>The data of a global request stays unread.\<close>

definition ssh_global_request_decode :: "(ssh_buffer, ssh_global_request) act" where
  "ssh_global_request_decode =
     bindA ssh_buffer_get_u8 (\<lambda>message_id.
     thenA (ensureA (message_id = SSH_MSG_GLOBAL_REQUEST) SSH_ERR_MALFORMED_PACKET) (
     bindA ssh_buffer_get_string_view (\<lambda>request_name.
     bindA ssh_buffer_get_bool (\<lambda>want_reply.
     retA \<lparr>gr_request_name = request_name, gr_want_reply = want_reply\<rparr>))))"

definition empty_channel_request :: ssh_channel_request where
  "empty_channel_request = \<lparr>cr_recipient_channel = 0, cr_request_type = None, cr_want_reply = False,
     cr_subsystem_name = None, cr_term_type = None, cr_command = None, cr_env_name = None, cr_env_value = None,
     cr_signal_name = None, cr_pty_modes = None, cr_cols = 0, cr_rows = 0, cr_width_px = 0, cr_height_px = 0\<rparr>"

text \<open>The type-specific fields, which \<^verbatim>\<open>channel_request_decode_fields\<close> and \<^verbatim>\<open>ssh_channel_message_decode\<close>
  both read. Errors in the fields of the terminal requests are reported as \<^verbatim>\<open>SSH_ERR_UNSUPPORTED\<close>.\<close>

definition request_type_is :: "u8 list \<Rightarrow> ssh_channel_request \<Rightarrow> bool" where
  "request_type_is name request = view_eq (cr_request_type request) name"

definition decode_terminal_fields :: "(ssh_buffer \<times> ssh_channel_request, unit) act" where
  "decode_terminal_fields =
     ifF (request_type_is SSH_CHANNEL_REQUEST_PTY_REQ)
       (thenA (orelseA (
           thenA (readF ssh_buffer_get_string_view (\<lambda>v. cr_term_type_update (\<lambda>_. v)))
           (thenA (readF ssh_buffer_get_u32 (\<lambda>v. cr_cols_update (\<lambda>_. v)))
           (thenA (readF ssh_buffer_get_u32 (\<lambda>v. cr_rows_update (\<lambda>_. v)))
           (thenA (readF ssh_buffer_get_u32 (\<lambda>v. cr_width_px_update (\<lambda>_. v)))
           (thenA (readF ssh_buffer_get_u32 (\<lambda>v. cr_height_px_update (\<lambda>_. v)))
           (readF ssh_buffer_get_string_view (\<lambda>v. cr_pty_modes_update (\<lambda>_. v)))))))) SSH_ERR_UNSUPPORTED)
       (liftB (at_endA SSH_ERR_UNSUPPORTED)))
     (ifF (request_type_is SSH_CHANNEL_REQUEST_SHELL)
       (liftB (at_endA SSH_ERR_UNSUPPORTED))
     (ifF (request_type_is SSH_CHANNEL_REQUEST_EXEC)
       (thenA (orelseA (readF ssh_buffer_get_string_view (\<lambda>v. cr_command_update (\<lambda>_. v))) SSH_ERR_UNSUPPORTED)
       (liftB (at_endA SSH_ERR_UNSUPPORTED)))
     (ifF (request_type_is SSH_CHANNEL_REQUEST_ENV)
       (thenA (orelseA (
           thenA (readF ssh_buffer_get_string_view (\<lambda>v. cr_env_name_update (\<lambda>_. v)))
           (readF ssh_buffer_get_string_view (\<lambda>v. cr_env_value_update (\<lambda>_. v)))) SSH_ERR_UNSUPPORTED)
       (liftB (at_endA SSH_ERR_UNSUPPORTED)))
     (ifF (request_type_is SSH_CHANNEL_REQUEST_WINDOW_CHANGE)
       (thenA (orelseA (
           thenA (readF ssh_buffer_get_u32 (\<lambda>v. cr_cols_update (\<lambda>_. v)))
           (thenA (readF ssh_buffer_get_u32 (\<lambda>v. cr_rows_update (\<lambda>_. v)))
           (thenA (readF ssh_buffer_get_u32 (\<lambda>v. cr_width_px_update (\<lambda>_. v)))
           (readF ssh_buffer_get_u32 (\<lambda>v. cr_height_px_update (\<lambda>_. v)))))) SSH_ERR_UNSUPPORTED)
       (liftB (at_endA SSH_ERR_UNSUPPORTED)))
     (ifF (request_type_is SSH_CHANNEL_REQUEST_SIGNAL)
       (thenA (orelseA (readF ssh_buffer_get_string_view (\<lambda>v. cr_signal_name_update (\<lambda>_. v))) SSH_ERR_UNSUPPORTED)
       (liftB (at_endA SSH_ERR_UNSUPPORTED)))
     (failA SSH_ERR_UNSUPPORTED))))))"

definition decode_request_type_fields :: "(ssh_buffer \<times> ssh_channel_request, unit) act" where
  "decode_request_type_fields =
     ifF (request_type_is SSH_CHANNEL_REQUEST_SUBSYSTEM)
       (thenA (readF ssh_buffer_get_string_view (\<lambda>v. cr_subsystem_name_update (\<lambda>_. v)))
       (liftB (at_endA SSH_ERR_MALFORMED_PACKET)))
     decode_terminal_fields"

definition decode_request_after_channel :: "(ssh_buffer \<times> ssh_channel_request, unit) act" where
  "decode_request_after_channel =
     thenA (readF ssh_buffer_get_string_view (\<lambda>v. cr_request_type_update (\<lambda>_. v)))
     (thenA (readF ssh_buffer_get_bool (\<lambda>v. cr_want_reply_update (\<lambda>_. v)))
     decode_request_type_fields)"

definition channel_request_decode_fields :: "(ssh_buffer \<times> ssh_channel_request, unit) act" where
  "channel_request_decode_fields =
     thenA (readF ssh_buffer_get_u32 (\<lambda>v. cr_recipient_channel_update (\<lambda>_. v))) decode_request_after_channel"

text \<open>The result is the status, the buffer and the caller's structure, which is cleared first.\<close>

definition ssh_channel_request_decode :: "(ssh_buffer \<times> ssh_channel_request, unit) act" where
  "ssh_channel_request_decode =
     thenA (setF (\<lambda>_. empty_channel_request))
     (bindA (liftB ssh_buffer_get_u8) (\<lambda>message_id.
     thenA (ensureA (message_id = SSH_MSG_CHANNEL_REQUEST) SSH_ERR_MALFORMED_PACKET)
     channel_request_decode_fields))"

definition ssh_channel_data_decode :: "(ssh_buffer, ssh_channel_data) act" where
  "ssh_channel_data_decode =
     bindA ssh_buffer_get_u8 (\<lambda>message_id.
     thenA (ensureA (message_id = SSH_MSG_CHANNEL_DATA) SSH_ERR_MALFORMED_PACKET) (
     bindA ssh_buffer_get_u32 (\<lambda>recipient_channel.
     bindA ssh_buffer_get_string_view (\<lambda>data.
     thenA (at_endA SSH_ERR_MALFORMED_PACKET)
     (retA \<lparr>cd_recipient_channel = recipient_channel, cd_data = data\<rparr>)))))"

text \<open>\<open>onRequest\<close> runs a decoder on the member \<^verbatim>\<open>channel_request\<close> of the message.\<close>

definition onRequest :: "(ssh_buffer \<times> ssh_channel_request, 'a) act \<Rightarrow> (ssh_buffer \<times> ssh_channel_message, 'a) act" where
  "onRequest m bq = (case m (fst bq, cm_channel_request (snd bq)) of
     (r, (b', request)) \<Rightarrow> (r, (b', (snd bq)\<lparr>cm_channel_request := request\<rparr>)))"

definition empty_channel_message :: ssh_channel_message where
  "empty_channel_message = \<lparr>cm_message_id = 0, cm_recipient_channel = 0, cm_window_bytes = 0, cm_data = None,
     cm_channel_request = empty_channel_request\<rparr>"

definition checkF :: "('m \<Rightarrow> bool) \<Rightarrow> ssh_err \<Rightarrow> (ssh_buffer \<times> 'm, unit) act" where
  "checkF c e = ifF c (retA ()) (failA e)"

definition decode_message_body :: "u8 \<Rightarrow> (ssh_buffer \<times> ssh_channel_message, unit) act" where
  "decode_message_body message_id =
     thenA (setF (cm_message_id_update (\<lambda>_. message_id)))
     (thenA (readF ssh_buffer_get_u32 (\<lambda>v. cm_recipient_channel_update (\<lambda>_. v)))
     (if message_id = SSH_MSG_CHANNEL_WINDOW_ADJUST then
        thenA (readF ssh_buffer_get_u32 (\<lambda>v. cm_window_bytes_update (\<lambda>_. v)))
        (thenA (checkF (\<lambda>m. cm_window_bytes m \<noteq> 0) SSH_ERR_MALFORMED_PACKET)
        (liftB (at_endA SSH_ERR_MALFORMED_PACKET)))
      else if message_id = SSH_MSG_CHANNEL_REQUEST then
        thenA (setF (\<lambda>m. m\<lparr>cm_channel_request := (cm_channel_request m)\<lparr>cr_recipient_channel := cm_recipient_channel m\<rparr>\<rparr>))
        (onRequest decode_request_after_channel)
      else if message_id = SSH_MSG_CHANNEL_DATA then
        thenA (readF ssh_buffer_get_string_view (\<lambda>v. cm_data_update (\<lambda>_. v)))
        (liftB (at_endA SSH_ERR_MALFORMED_PACKET))
      else liftB (at_endA SSH_ERR_MALFORMED_PACKET)))"

definition ssh_channel_message_decode :: "(ssh_buffer \<times> ssh_channel_message, unit) act" where
  "ssh_channel_message_decode =
     thenA (setF (\<lambda>_. empty_channel_message))
     (bindA (liftB ssh_buffer_get_u8) (\<lambda>message_id.
     thenA (ensureA (\<not> (message_id \<noteq> SSH_MSG_CHANNEL_WINDOW_ADJUST \<and> message_id \<noteq> SSH_MSG_CHANNEL_DATA \<and>
                       message_id \<noteq> SSH_MSG_CHANNEL_REQUEST \<and> message_id \<noteq> SSH_MSG_CHANNEL_EOF \<and>
                       message_id \<noteq> SSH_MSG_CHANNEL_CLOSE)) SSH_ERR_UNSUPPORTED)
     (decode_message_body message_id)))"

definition ssh_channel_type_is_session :: "view \<Rightarrow> bool" where
  "ssh_channel_type_is_session channel_type = view_eq channel_type SSH_CHANNEL_TYPE_SESSION"

definition ssh_channel_request_is_sftp_subsystem :: "ssh_channel_request \<Rightarrow> bool" where
  "ssh_channel_request_is_sftp_subsystem request =
     (view_eq (cr_request_type request) SSH_CHANNEL_REQUEST_SUBSYSTEM \<and>
      view_eq (cr_subsystem_name request) SSH_SUBSYSTEM_SFTP)"

definition ssh_channel_request_is_terminal :: "ssh_channel_request \<Rightarrow> bool" where
  "ssh_channel_request_is_terminal request =
     (view_eq (cr_request_type request) SSH_CHANNEL_REQUEST_PTY_REQ \<or>
      view_eq (cr_request_type request) SSH_CHANNEL_REQUEST_SHELL \<or>
      view_eq (cr_request_type request) SSH_CHANNEL_REQUEST_EXEC \<or>
      view_eq (cr_request_type request) SSH_CHANNEL_REQUEST_ENV \<or>
      view_eq (cr_request_type request) SSH_CHANNEL_REQUEST_WINDOW_CHANGE \<or>
      view_eq (cr_request_type request) SSH_CHANNEL_REQUEST_SIGNAL)"

section \<open>Open and data messages\<close>

definition channel_open_bytes :: "ssh_channel_open \<Rightarrow> u8 list" where
  "channel_open_bytes m = [SSH_MSG_CHANNEL_OPEN] @ view_bytes (co_channel_type m) @ be32 (co_sender_channel m) @
     be32 (co_initial_window_size m) @ be32 (co_maximum_packet_size m)"

definition channel_data_bytes :: "ssh_channel_data \<Rightarrow> u8 list" where
  "channel_data_bytes m = [SSH_MSG_CHANNEL_DATA] @ be32 (cd_recipient_channel m) @ view_bytes (cd_data m)"

interpretation channel_open: message_decoder ssh_channel_open_decode channel_open_bytes
  "\<lambda>m. string_valid (co_channel_type m)"
proof (rule message_decoder_readsI)
  show "reads_all ssh_channel_open_decode (\<lambda>m bs. string_valid (co_channel_type m) \<and> bs = channel_open_bytes m)"
    unfolding ssh_channel_open_decode_def
    apply (rule reads_all_cong, (rule reads_intros)+)
    subgoal for m bs r by (cases m) (auto simp: channel_open_bytes_def)
    done
qed

interpretation channel_data: wire_message ssh_channel_data_decode channel_data_bytes
  "\<lambda>m. string_valid (cd_data m)" "\<lambda>m. ssh_channel_data_encode (cd_recipient_channel m) (view_data (cd_data m))"
proof (rule wire_message_readsI)
  show "reads_all ssh_channel_data_decode (\<lambda>m bs. string_valid (cd_data m) \<and> bs = channel_data_bytes m)"
    unfolding ssh_channel_data_decode_def
    apply (rule reads_all_cong, (rule reads_intros)+)
    subgoal for m bs r by (cases m) (auto simp: channel_data_bytes_def)
    done
  show "buffer_writer (ssh_channel_data_encode (cd_recipient_channel m) (view_data (cd_data m))) (channel_data_bytes m)"
    if "string_valid (cd_data m)" for m
    using that unfolding ssh_channel_data_encode_def channel_data_bytes_def by (intro encoder_intros)
qed

section \<open>Channel requests\<close>

text \<open>The requests the server knows, as abstract values: the fields each of them carries.\<close>

datatype request_kind =
    Subsystem view
  | Pty_req view u32 u32 u32 u32 view
  | Shell
  | Exec view
  | Env view view
  | Window_change u32 u32 u32 u32
  | Signal view

fun kind_name :: "request_kind \<Rightarrow> u8 list" where
  "kind_name (Subsystem _) = SSH_CHANNEL_REQUEST_SUBSYSTEM"
| "kind_name (Pty_req _ _ _ _ _ _) = SSH_CHANNEL_REQUEST_PTY_REQ"
| "kind_name Shell = SSH_CHANNEL_REQUEST_SHELL"
| "kind_name (Exec _) = SSH_CHANNEL_REQUEST_EXEC"
| "kind_name (Env _ _) = SSH_CHANNEL_REQUEST_ENV"
| "kind_name (Window_change _ _ _ _) = SSH_CHANNEL_REQUEST_WINDOW_CHANGE"
| "kind_name (Signal _) = SSH_CHANNEL_REQUEST_SIGNAL"

fun kind_bytes :: "request_kind \<Rightarrow> u8 list" where
  "kind_bytes (Subsystem name) = view_bytes name"
| "kind_bytes (Pty_req term cols rows width height modes) =
     view_bytes term @ be32 cols @ be32 rows @ be32 width @ be32 height @ view_bytes modes"
| "kind_bytes Shell = []"
| "kind_bytes (Exec command) = view_bytes command"
| "kind_bytes (Env name val) = view_bytes name @ view_bytes val"
| "kind_bytes (Window_change cols rows width height) = be32 cols @ be32 rows @ be32 width @ be32 height"
| "kind_bytes (Signal name) = view_bytes name"

fun kind_valid :: "request_kind \<Rightarrow> bool" where
  "kind_valid (Subsystem name) = string_valid name"
| "kind_valid (Pty_req term cols rows width height modes) = (string_valid term \<and> string_valid modes)"
| "kind_valid Shell = True"
| "kind_valid (Exec command) = string_valid command"
| "kind_valid (Env name val) = (string_valid name \<and> string_valid val)"
| "kind_valid (Window_change cols rows width height) = True"
| "kind_valid (Signal name) = string_valid name"

fun kind_fields :: "request_kind \<Rightarrow> ssh_channel_request \<Rightarrow> ssh_channel_request" where
  "kind_fields (Subsystem name) q = q\<lparr>cr_subsystem_name := name\<rparr>"
| "kind_fields (Pty_req term cols rows width height modes) q = q\<lparr>cr_term_type := term, cr_cols := cols,
     cr_rows := rows, cr_width_px := width, cr_height_px := height, cr_pty_modes := modes\<rparr>"
| "kind_fields Shell q = q"
| "kind_fields (Exec command) q = q\<lparr>cr_command := command\<rparr>"
| "kind_fields (Env name val) q = q\<lparr>cr_env_name := name, cr_env_value := val\<rparr>"
| "kind_fields (Window_change cols rows width height) q =
     q\<lparr>cr_cols := cols, cr_rows := rows, cr_width_px := width, cr_height_px := height\<rparr>"
| "kind_fields (Signal name) q = q\<lparr>cr_signal_name := name\<rparr>"

definition request_header :: "u32 \<Rightarrow> view \<Rightarrow> bool \<Rightarrow> ssh_channel_request" where
  "request_header channel name want_reply = empty_channel_request\<lparr>cr_recipient_channel := channel,
     cr_request_type := name, cr_want_reply := want_reply\<rparr>"

definition request_of :: "u32 \<Rightarrow> bool \<Rightarrow> request_kind \<Rightarrow> ssh_channel_request" where
  "request_of channel want_reply k = kind_fields k (request_header channel (Some (kind_name k)) want_reply)"

definition request_header_bytes :: "u32 \<Rightarrow> view \<Rightarrow> bool \<Rightarrow> u8 list" where
  "request_header_bytes channel name want_reply =
     [SSH_MSG_CHANNEL_REQUEST] @ be32 channel @ view_bytes name @ [bool_byte want_reply]"

definition request_bytes :: "u32 \<Rightarrow> bool \<Rightarrow> request_kind \<Rightarrow> u8 list" where
  "request_bytes channel want_reply k = request_header_bytes channel (Some (kind_name k)) want_reply @ kind_bytes k"

lemma ex_kind: "(\<exists>k. P k) \<longleftrightarrow> (\<exists>n. P (Subsystem n)) \<or> (\<exists>t c r w h m. P (Pty_req t c r w h m)) \<or> P Shell \<or>
    (\<exists>c. P (Exec c)) \<or> (\<exists>n v. P (Env n v)) \<or> (\<exists>c r w h. P (Window_change c r w h)) \<or> (\<exists>n. P (Signal n))"
  by (metis request_kind.exhaust)

lemma kind_name_valid: "string_valid (Some (kind_name k))"
  by (cases k) (simp_all add: request_type_defs UINT32_MAX_def)

definition kind_rel :: "ssh_channel_request \<Rightarrow> ssh_channel_request \<Rightarrow> u8 list \<Rightarrow> bool" where
  "kind_rel q q' bs \<longleftrightarrow> (\<exists>k. cr_request_type q = Some (kind_name k) \<and> kind_valid k \<and> bs = kind_bytes k \<and> q' = kind_fields k q)"

text \<open>The position of a request name in the order in which the decoder compares them.\<close>

definition request_names :: "u8 list list" where
  "request_names = [SSH_CHANNEL_REQUEST_SUBSYSTEM, SSH_CHANNEL_REQUEST_PTY_REQ, SSH_CHANNEL_REQUEST_SHELL,
     SSH_CHANNEL_REQUEST_EXEC, SSH_CHANNEL_REQUEST_ENV, SSH_CHANNEL_REQUEST_WINDOW_CHANGE, SSH_CHANNEL_REQUEST_SIGNAL]"

lemma request_names_distinct: "distinct request_names" "distinct (rev request_names)"
  by code_simp+

lemmas request_names_neq [simp] = request_names_distinct [unfolded request_names_def, simplified]


text \<open>A decoder that reads a sequence of fields: \<open>x\<close> is the tuple of their values.\<close>

definition fieldsF :: "(ssh_buffer \<times> 'm, unit) act \<Rightarrow> ('x \<Rightarrow> bool) \<Rightarrow> ('x \<Rightarrow> 'm \<Rightarrow> 'm) \<Rightarrow> ('x \<Rightarrow> u8 list) \<Rightarrow> bool" where
  "fieldsF m valid upd bytes \<longleftrightarrow> readsF m (\<lambda>q q' bs r. \<exists>x. valid x \<and> bs = bytes x \<and> q' = upd x q)"

named_theorems fieldsF_intros \<open>rules that compute the fields a decoder reads\<close>

lemma fieldsF_string [fieldsF_intros]: "fieldsF (readF ssh_buffer_get_string_view upd) string_valid upd view_bytes"
  unfolding fieldsF_def by (rule readsF_cong, rule readsF_readF, rule reads_string) blast

lemma fieldsF_u32 [fieldsF_intros]: "fieldsF (readF ssh_buffer_get_u32 upd) (\<lambda>_. True) upd be32"
  unfolding fieldsF_def by (rule readsF_cong, rule readsF_readF, rule reads_u32) blast

lemma fieldsF_bool [fieldsF_intros]: "fieldsF (readF ssh_buffer_get_bool upd) (\<lambda>_. True) upd (\<lambda>v. [bool_byte v])"
  unfolding fieldsF_def by (rule readsF_cong, rule readsF_readF, rule reads_bool) blast

lemma fieldsF_orelse [fieldsF_intros]: "fieldsF m V U B \<Longrightarrow> fieldsF (orelseA m e) V U B"
  unfolding fieldsF_def by (rule readsF_orelse)

lemma fieldsF_thenA [fieldsF_intros]:
  assumes "fieldsF m V U B" "fieldsF n V' U' B'"
  shows "fieldsF (thenA m n) (\<lambda>(x, y). V x \<and> V' y) (\<lambda>(x, y) q. U' y (U x q)) (\<lambda>(x, y). B x @ B' y)"
  unfolding fieldsF_def
  by (rule readsF_cong, rule readsF_thenA, rule assms [unfolded fieldsF_def], rule assms [unfolded fieldsF_def])
    (simp only: split_paired_Ex prod.case, blast)

lemma readsF_fields_end:
  "fieldsF m V U B \<Longrightarrow> readsF (thenA m (liftB (at_endA e))) (\<lambda>q q' bs r. (\<exists>x. V x \<and> bs = B x \<and> q' = U x q) \<and> r = [])"
  unfolding fieldsF_def by (rule readsF_cong, rule readsF_thenA, assumption, rule readsF_end) auto

lemma readsF_request_type_fields:
  "readsF decode_request_type_fields (\<lambda>q q' bs r. kind_rel q q' bs \<and> r = [])"
  unfolding decode_request_type_fields_def decode_terminal_fields_def
  apply (rule readsF_cong, (rule readsF_fields_end fieldsF_intros readsF_intros)+)
  subgoal for q q' bs r
    unfolding request_type_is_def view_eq_iff kind_rel_def ex_kind kind_name.simps kind_bytes.simps kind_valid.simps
      kind_fields.simps split_paired_Ex prod.case
    by (cases "cr_request_type q = Some SSH_CHANNEL_REQUEST_SUBSYSTEM"; (simp split del: if_split)?;
        cases "cr_request_type q = Some SSH_CHANNEL_REQUEST_PTY_REQ"; (simp split del: if_split)?;
        cases "cr_request_type q = Some SSH_CHANNEL_REQUEST_SHELL"; (simp split del: if_split, blast?)?;
        cases "cr_request_type q = Some SSH_CHANNEL_REQUEST_EXEC"; (simp split del: if_split)?;
        cases "cr_request_type q = Some SSH_CHANNEL_REQUEST_ENV"; (simp split del: if_split)?;
        cases "cr_request_type q = Some SSH_CHANNEL_REQUEST_WINDOW_CHANGE"; (simp split del: if_split)?;
        cases "cr_request_type q = Some SSH_CHANNEL_REQUEST_SIGNAL"; simp)
  done


lemma readsF_field:
  assumes "fieldsF m V U B" "readsF n S"
  shows "readsF (thenA m n) (\<lambda>q q' bs r. \<exists>x ys. V x \<and> S (U x q) q' ys r \<and> bs = B x @ ys)"
  by (rule readsF_cong, rule readsF_thenA, rule assms [unfolded fieldsF_def], rule assms) blast

lemma readsF_set: "readsF n S \<Longrightarrow> readsF (thenA (setF f) n) (\<lambda>q q' bs r. S (f q) q' bs r)"
  by (rule readsF_cong, rule readsF_thenA, rule readsF_setF, assumption) auto

lemma readsF_channel_request: "readsF ssh_channel_request_decode
    (\<lambda>q q' bs r. (\<exists>channel want_reply k. kind_valid k \<and> bs = request_bytes channel want_reply k \<and>
       q' = request_of channel want_reply k) \<and> r = [])"
  unfolding ssh_channel_request_decode_def channel_request_decode_fields_def decode_request_after_channel_def
  apply (rule readsF_cong, (rule readsF_set readsF_bind reads_u8 readsF_check readsF_field fieldsF_intros
      readsF_request_type_fields)+)
  subgoal for q q' bs r
    using kind_name_valid
    by (simp add: kind_rel_def request_of_def request_header_def request_bytes_def request_header_bytes_def
        del: view_bytes_Some string_valid_Some) blast
  done

subsection \<open>What a failed decoder leaves behind\<close>

text \<open>\<open>keepsF f m\<close>: whatever the outcome, the decoder does not write the part \<open>f\<close> of the structure.
  \<open>failsF e m\<close>: the only error it reports is \<open>e\<close>.\<close>

definition keepsF :: "('m \<Rightarrow> 'a) \<Rightarrow> (ssh_buffer \<times> 'm, 'b) act \<Rightarrow> bool" where
  "keepsF f m \<longleftrightarrow> (\<forall>s. f (snd (snd (m s))) = f (snd s))"

definition failsF :: "ssh_err \<Rightarrow> ('s, 'b) act \<Rightarrow> bool" where
  "failsF e m \<longleftrightarrow> (\<forall>s e'. fst (m s) = Inl e' \<longrightarrow> e' = e)"

named_theorems keepsF_intros \<open>rules for the fields a decoder keeps\<close>
named_theorems failsF_intros \<open>rules for the errors a decoder reports\<close>

lemma keepsFD: "keepsF f m \<Longrightarrow> m (b, q) = (r, (b', q')) \<Longrightarrow> f q' = f q"
  unfolding keepsF_def by (metis snd_conv)

lemma keepsF_readF [keepsF_intros]: "(\<And>x q. f (upd x q) = f q) \<Longrightarrow> keepsF f (readF get upd)"
  by (auto simp: keepsF_def readF_def split: prod.splits sum.splits)

lemma keepsF_liftB [keepsF_intros]: "keepsF f (liftB m)"
  by (auto simp: keepsF_def liftB_def split: prod.splits)

lemma keepsF_failA [keepsF_intros]: "keepsF f (failA e)"
  by (simp add: keepsF_def)

lemma keepsF_orelse [keepsF_intros]: "keepsF f m \<Longrightarrow> keepsF f (orelseA m e)"
  by (simp add: keepsF_def orelseA_def split: prod.splits sum.splits) (metis snd_conv)

lemma keepsF_ifF [keepsF_intros]: "keepsF f m \<Longrightarrow> keepsF f n \<Longrightarrow> keepsF f (ifF c m n)"
  by (simp add: keepsF_def ifF_def)

lemma keepsF_thenA [keepsF_intros]: "keepsF f m \<Longrightarrow> keepsF f n \<Longrightarrow> keepsF f (thenA m n)"
  by (simp add: keepsF_def thenA_def bindA_def split: prod.splits sum.splits) (metis snd_conv)

lemma failsF_failA [failsF_intros]: "failsF e (failA e)"
  by (simp add: failsF_def)

lemma failsF_orelse [failsF_intros]: "failsF e (orelseA m e)"
  by (auto simp: failsF_def orelseA_def split: prod.splits sum.splits)

lemma failsF_end [failsF_intros]: "failsF e (liftB (at_endA e))"
  by (auto simp: failsF_def liftB_def at_endA_def split: prod.splits if_splits)

lemma failsF_thenA [failsF_intros]: "failsF e m \<Longrightarrow> failsF e n \<Longrightarrow> failsF e (thenA m n)"
  by (simp add: failsF_def thenA_def bindA_def split: prod.splits sum.splits) (metis fst_conv)

lemma failsF_ifF [failsF_intros]: "failsF e m \<Longrightarrow> failsF e n \<Longrightarrow> failsF e (ifF c m n)"
  by (simp add: failsF_def ifF_def)

lemma request_fields_keep_header:
  "keepsF (\<lambda>q. (cr_recipient_channel q, cr_request_type q, cr_want_reply q)) decode_request_type_fields"
  unfolding decode_request_type_fields_def decode_terminal_fields_def by (intro keepsF_intros) simp_all

lemma reads_forward:
  "reads get R \<Longrightarrow> buf_wf b \<Longrightarrow> R x bs r \<Longrightarrow> buf_unread b = bs @ r \<Longrightarrow> get b = (Inr x, buf_advance b (length bs))"
  by (auto simp: readsD)

lemma request_header_decodes:
  assumes "buf_wf b" "string_valid name" "buf_unread b = request_header_bytes channel name want_reply @ rest"
  shows "\<exists>b'. ssh_channel_request_decode (b, q0) = decode_request_type_fields (b', request_header channel name want_reply)"
proof -
  have u: "buf_unread b = [SSH_MSG_CHANNEL_REQUEST] @ be32 channel @ view_bytes name @ [bool_byte want_reply] @ rest"
    using assms(3) by (simp add: request_header_bytes_def)
  define b1 where "b1 = buf_advance b 1"
  define b2 where "b2 = buf_advance b1 4"
  define b3 where "b3 = buf_advance b2 (length (view_bytes name))"
  have 1: "buf_wf b1" "buf_unread b1 = be32 channel @ view_bytes name @ [bool_byte want_reply] @ rest"
    using assms(1) u by (simp_all add: b1_def)
  then have 2: "buf_wf b2" "buf_unread b2 = view_bytes name @ [bool_byte want_reply] @ rest"
    by (simp_all add: b2_def)
  then have 3: "buf_wf b3" "buf_unread b3 = [bool_byte want_reply] @ rest"
    by (simp_all add: b3_def)
  have "ssh_buffer_get_u8 b = (Inr SSH_MSG_CHANNEL_REQUEST, b1)"
    using reads_forward [OF reads_u8 assms(1) _ u] by (simp add: b1_def)
  moreover have "ssh_buffer_get_u32 b1 = (Inr channel, b2)"
    using reads_forward [OF reads_u32 1(1) _ 1(2)] by (simp add: b2_def)
  moreover have "ssh_buffer_get_string_view b2 = (Inr name, b3)"
    using reads_forward [OF reads_string 2(1) _ 2(2)] assms(2) by (simp add: b3_def)
  moreover have "ssh_buffer_get_bool b3 = (Inr want_reply, buf_advance b3 1)"
    using reads_forward [OF reads_bool 3(1) _ 3(2)] by simp
  ultimately have "ssh_channel_request_decode (b, q0) =
      decode_request_type_fields (buf_advance b3 1, request_header channel name want_reply)"
    by (simp add: ssh_channel_request_decode_def channel_request_decode_fields_def decode_request_after_channel_def
        request_header_def)
  then show ?thesis ..
qed

lemma terminal_fields_fail:
  assumes "fst (decode_request_type_fields (b, q)) = Inl e" "cr_request_type q \<noteq> Some SSH_CHANNEL_REQUEST_SUBSYSTEM"
  shows "e = SSH_ERR_UNSUPPORTED"
proof -
  have "failsF SSH_ERR_UNSUPPORTED decode_terminal_fields"
    unfolding decode_terminal_fields_def by (intro failsF_intros)
  then show ?thesis
    using assms by (simp add: failsF_def decode_request_type_fields_def ifF_def request_type_is_def)
qed

lemma request_keeps_channel: "keepsF cr_recipient_channel decode_request_after_channel"
  unfolding decode_request_after_channel_def using request_fields_keep_header
  by (intro keepsF_intros) (simp_all add: keepsF_def)

section \<open>Channel messages\<close>

text \<open>The messages \<^verbatim>\<open>ssh_channel_message_decode\<close> understands, as abstract values.\<close>

datatype channel_event =
    Window_adjust u32 u32
  | Data u32 view
  | Eof u32
  | Close u32
  | Request u32 bool request_kind

fun event_valid :: "channel_event \<Rightarrow> bool" where
  "event_valid (Window_adjust channel bytes_to_add) = (bytes_to_add \<noteq> 0)"
| "event_valid (Data channel data) = string_valid data"
| "event_valid (Request channel want_reply k) = kind_valid k"
| "event_valid (Eof channel) = True"
| "event_valid (Close channel) = True"

fun event_id :: "channel_event \<Rightarrow> u8" where
  "event_id (Window_adjust channel bytes_to_add) = SSH_MSG_CHANNEL_WINDOW_ADJUST"
| "event_id (Data channel data) = SSH_MSG_CHANNEL_DATA"
| "event_id (Eof channel) = SSH_MSG_CHANNEL_EOF"
| "event_id (Close channel) = SSH_MSG_CHANNEL_CLOSE"
| "event_id (Request channel want_reply k) = SSH_MSG_CHANNEL_REQUEST"

fun event_channel :: "channel_event \<Rightarrow> u32" where
  "event_channel (Window_adjust channel bytes_to_add) = channel"
| "event_channel (Data channel data) = channel"
| "event_channel (Eof channel) = channel"
| "event_channel (Close channel) = channel"
| "event_channel (Request channel want_reply k) = channel"

fun event_body :: "channel_event \<Rightarrow> u8 list" where
  "event_body (Window_adjust channel bytes_to_add) = be32 bytes_to_add"
| "event_body (Data channel data) = view_bytes data"
| "event_body (Eof channel) = []"
| "event_body (Close channel) = []"
| "event_body (Request channel want_reply k) = view_bytes (Some (kind_name k)) @ [bool_byte want_reply] @ kind_bytes k"

definition event_bytes :: "channel_event \<Rightarrow> u8 list" where
  "event_bytes e = [event_id e] @ be32 (event_channel e) @ event_body e"

fun event_fields :: "channel_event \<Rightarrow> ssh_channel_message \<Rightarrow> ssh_channel_message" where
  "event_fields (Window_adjust channel bytes_to_add) m = m\<lparr>cm_window_bytes := bytes_to_add\<rparr>"
| "event_fields (Data channel data) m = m\<lparr>cm_data := data\<rparr>"
| "event_fields (Eof channel) m = m"
| "event_fields (Close channel) m = m"
| "event_fields (Request channel want_reply k) m = m\<lparr>cm_channel_request := kind_fields k
     ((cm_channel_request m)\<lparr>cr_recipient_channel := cm_recipient_channel m, cr_request_type := Some (kind_name k),
       cr_want_reply := want_reply\<rparr>)\<rparr>"

definition event_message :: "channel_event \<Rightarrow> ssh_channel_message" where
  "event_message e = event_fields e (empty_channel_message\<lparr>cm_message_id := event_id e, cm_recipient_channel := event_channel e\<rparr>)"

definition channel_message_ids :: "u8 list" where
  "channel_message_ids = [SSH_MSG_CHANNEL_WINDOW_ADJUST, SSH_MSG_CHANNEL_DATA, SSH_MSG_CHANNEL_REQUEST,
     SSH_MSG_CHANNEL_EOF, SSH_MSG_CHANNEL_CLOSE]"

lemma message_ids_distinct: "distinct channel_message_ids" "distinct (rev channel_message_ids)"
  by code_simp+

lemmas message_ids_neq [simp] = message_ids_distinct [unfolded channel_message_ids_def, simplified]

text \<open>The message decoder repeats the request decoder inline: on a request it does the same.\<close>

lemma request_of_channel [simp]: "cr_recipient_channel (request_of channel want_reply k) = channel"
  by (cases k) (simp_all add: request_of_def request_header_def)

lemma onRequest_readF:
  "onRequest m (b, q) = (r, (b', q')) \<longleftrightarrow>
     (\<exists>c. m (b, cm_channel_request q) = (r, (b', c)) \<and> q' = q\<lparr>cm_channel_request := c\<rparr>)"
  by (auto simp: onRequest_def split: prod.splits)

lemma message_decodes_request:
  assumes "ssh_buffer_get_u8 b = (Inr SSH_MSG_CHANNEL_REQUEST, b1)" "ssh_channel_request_decode (b, q0) = (st, (b', q))"
  shows "ssh_channel_message_decode (b, m0) = (st, (b', empty_channel_message\<lparr>cm_message_id := SSH_MSG_CHANNEL_REQUEST,
    cm_recipient_channel := cr_recipient_channel q, cm_channel_request := q\<rparr>))"
proof -
  obtain r2 b2 where g: "ssh_buffer_get_u32 b1 = (r2, b2)"
    by force
  show ?thesis
  proof (cases r2)
    case (Inl e)
    then have "st = Inl e" "b' = b2" "q = empty_channel_request"
      using assms g by (simp_all add: ssh_channel_request_decode_def channel_request_decode_fields_def)
    then show ?thesis
      using Inl assms(1) g by (simp add: ssh_channel_message_decode_def decode_message_body_def empty_channel_request_def empty_channel_message_def)
  next
    case (Inr channel)
    then have t: "decode_request_after_channel (b2, empty_channel_request\<lparr>cr_recipient_channel := channel\<rparr>) = (st, (b', q))"
      using assms g by (simp add: ssh_channel_request_decode_def channel_request_decode_fields_def)
    have "cr_recipient_channel q = channel"
      using keepsFD [OF request_keeps_channel t] by simp
    then show ?thesis
      using assms g t Inr
      by (simp add: ssh_channel_message_decode_def decode_message_body_def onRequest_def empty_channel_message_def)
  qed
qed


lemma readsF_onRequest: "readsF m R \<Longrightarrow>
    readsF (onRequest m) (\<lambda>q q' bs r. \<exists>c. R (cm_channel_request q) c bs r \<and> q' = q\<lparr>cm_channel_request := c\<rparr>)"
  by (auto simp: readsF_def onRequest_readF)

lemma readsF_check_assm:
  "(c \<Longrightarrow> readsF m R) \<Longrightarrow> readsF (thenA (ensureA c e) m) (\<lambda>q q' bs r. c \<and> R q q' bs r)"
  by (auto simp: readsF_def)

lemma readsF_checkF: "readsF n S \<Longrightarrow> readsF (thenA (checkF c e) n) (\<lambda>q q' bs r. c q \<and> S q q' bs r)"
  by (auto simp: readsF_def checkF_def ifF_def thenA_eq_Inr split: if_splits)

lemma readsF_after_channel: "readsF decode_request_after_channel
    (\<lambda>q q' bs r. (\<exists>want_reply k. kind_valid k \<and>
       bs = view_bytes (Some (kind_name k)) @ [bool_byte want_reply] @ kind_bytes k \<and>
       q' = kind_fields k (q\<lparr>cr_request_type := Some (kind_name k), cr_want_reply := want_reply\<rparr>)) \<and> r = [])"
  unfolding decode_request_after_channel_def
  apply (rule readsF_cong, (rule readsF_field fieldsF_intros readsF_request_type_fields)+)
  subgoal for q q' bs r
    using kind_name_valid by (simp add: kind_rel_def del: view_bytes_Some string_valid_Some) blast
  done

lemma event_id_in: "event_id e \<in> set channel_message_ids"
  by (cases e) (simp_all add: channel_message_ids_def)

lemma ex_event: "(\<exists>e. P e) \<longleftrightarrow> (\<exists>c n. P (Window_adjust c n)) \<or> (\<exists>c v. P (Data c v)) \<or> (\<exists>c w k. P (Request c w k)) \<or>
    (\<exists>c. P (Eof c)) \<or> (\<exists>c. P (Close c))"
  by (metis channel_event.exhaust)

lemmas message_rules = readsF_set readsF_checkF readsF_end readsF_fields_end readsF_field fieldsF_intros
  readsF_onRequest readsF_after_channel

lemma readsF_message_body:
  assumes "message_id \<in> set channel_message_ids"
  shows "readsF (decode_message_body message_id) (\<lambda>q q' bs r. (\<exists>e. event_valid e \<and> event_id e = message_id \<and>
    bs = be32 (event_channel e) @ event_body e \<and>
    q' = event_fields e (q\<lparr>cm_message_id := message_id, cm_recipient_channel := event_channel e\<rparr>)) \<and> r = [])"
  using assms unfolding channel_message_ids_def list.set insert_iff empty_iff
  apply (elim disjE; simp add: decode_message_body_def)
  apply ((rule readsF_cong, (rule message_rules)+, simp add: ex_event, blast?)+)
  done

lemma readsF_channel_message: "readsF ssh_channel_message_decode
    (\<lambda>q q' bs r. (\<exists>e. event_valid e \<and> bs = event_bytes e \<and> q' = event_message e) \<and> r = [])"
proof -
  have guard: "\<not> (i \<noteq> SSH_MSG_CHANNEL_WINDOW_ADJUST \<and> i \<noteq> SSH_MSG_CHANNEL_DATA \<and> i \<noteq> SSH_MSG_CHANNEL_REQUEST \<and>
      i \<noteq> SSH_MSG_CHANNEL_EOF \<and> i \<noteq> SSH_MSG_CHANNEL_CLOSE) \<longleftrightarrow> i \<in> set channel_message_ids" for i
    by (auto simp: channel_message_ids_def)
  show ?thesis
    unfolding ssh_channel_message_decode_def guard
    apply (rule readsF_cong, (rule readsF_set readsF_bind reads_u8 readsF_check_assm readsF_message_body | assumption)+)
    using event_id_in by (simp add: event_bytes_def event_message_def) blast
qed


section \<open>Properties\<close>

text \<open>The channel request decoder accepts exactly the encodings of the seven known requests whose fields fill
  the message, and it fills the structure with the fields of that request and nothing else.\<close>

theorem channel_request_decoder_exact:
  "(\<exists>b. ssh_channel_request_decode (ssh_buffer_wrap (Some m) (length m), q0) = (Inr (), (b, q))) \<longleftrightarrow>
     (\<exists>channel want_reply k. kind_valid k \<and> m = request_bytes channel want_reply k \<and>
        q = request_of channel want_reply k)"
  by (auto simp: readsFD [OF readsF_channel_request])

text \<open>A channel request whose common fields are present never ends the connection: for every type other
  than subsystem the decoder reports success or \<^verbatim>\<open>SSH_ERR_UNSUPPORTED\<close>, and in both cases the channel, the
  type and \<^verbatim>\<open>want_reply\<close>, from which the transport answers, are in the structure.\<close>

theorem channel_request_always_answerable:
  assumes "string_valid (Some type)" "type \<noteq> SSH_CHANNEL_REQUEST_SUBSYSTEM"
    and "m = request_header_bytes channel (Some type) want_reply @ rest"
  shows "\<exists>st b q. ssh_channel_request_decode (ssh_buffer_wrap (Some m) (length m), q0) = (st, (b, q)) \<and>
    (st = Inr () \<or> st = Inl SSH_ERR_UNSUPPORTED) \<and>
    cr_recipient_channel q = channel \<and> cr_request_type q = Some type \<and> cr_want_reply q = want_reply"
proof -
  let ?q = "request_header channel (Some type) want_reply"
  obtain b where b: "ssh_channel_request_decode (ssh_buffer_wrap (Some m) (length m), q0) = decode_request_type_fields (b, ?q)"
    using request_header_decodes [OF _ assms(1)] assms(3) by (metis buf_unread_wrap buf_wf_wrap order_refl take_all)
  obtain st b' q where d: "decode_request_type_fields (b, ?q) = (st, (b', q))"
    by (metis prod.collapse)
  have "st = Inr () \<or> st = Inl SSH_ERR_UNSUPPORTED"
    using terminal_fields_fail [of b ?q] d assms(2) by (cases st) (auto simp: request_header_def)
  moreover have "(cr_recipient_channel q, cr_request_type q, cr_want_reply q) = (channel, Some type, want_reply)"
    using keepsFD [OF request_fields_keep_header d] by (simp add: request_header_def)
  ultimately show ?thesis
    using b d by simp
qed

theorem channel_request_always_answerable_witness:
  "\<exists>st b q. ssh_channel_request_decode
      (ssh_buffer_wrap (Some (request_header_bytes 3 (Some (lit ''x11-req'')) True @ [7])) 18, empty_channel_request) = (st, (b, q)) \<and>
    (st = Inr () \<or> st = Inl SSH_ERR_UNSUPPORTED) \<and>
    cr_recipient_channel q = 3 \<and> cr_request_type q = Some (lit ''x11-req'') \<and> cr_want_reply q"
  using channel_request_always_answerable [of "lit ''x11-req''" "request_header_bytes 3 (Some (lit ''x11-req'')) True @ [7]" 3 True
      "[7]" empty_channel_request]
  by (simp add: request_type_defs UINT32_MAX_def request_header_bytes_def)

text \<open>\<^verbatim>\<open>ssh_channel_message_decode\<close> repeats the request decoder inline; on a channel request it consumes the
  same bytes, reports the same status and fills the request in the same way as \<^verbatim>\<open>ssh_channel_request_decode\<close>.\<close>

theorem message_decoder_agrees_on_requests:
  assumes "ssh_channel_request_decode (ssh_buffer_wrap (Some (SSH_MSG_CHANNEL_REQUEST # m)) (Suc (length m)), q0) = (st, (b, q))"
  shows "ssh_channel_message_decode (ssh_buffer_wrap (Some (SSH_MSG_CHANNEL_REQUEST # m)) (Suc (length m)), m0) =
    (st, (b, empty_channel_message\<lparr>cm_message_id := SSH_MSG_CHANNEL_REQUEST,
       cm_recipient_channel := cr_recipient_channel q, cm_channel_request := q\<rparr>))"
proof -
  have "ssh_buffer_get_u8 (ssh_buffer_wrap (Some (SSH_MSG_CHANNEL_REQUEST # m)) (Suc (length m))) =
      (Inr SSH_MSG_CHANNEL_REQUEST, buf_advance (ssh_buffer_wrap (Some (SSH_MSG_CHANNEL_REQUEST # m)) (Suc (length m))) 1)"
    using reads_forward [OF reads_u8, of _ "[SSH_MSG_CHANNEL_REQUEST]" SSH_MSG_CHANNEL_REQUEST m] by simp
  then show ?thesis
    using assms by (rule message_decodes_request)
qed

theorem message_decoder_agrees_on_requests_witness:
  "ssh_channel_message_decode (ssh_buffer_wrap (Some [SSH_MSG_CHANNEL_REQUEST]) 1, empty_channel_message) =
    (Inl SSH_ERR_BUFFER_UNDERFLOW, (ssh_buffer_wrap (Some [SSH_MSG_CHANNEL_REQUEST]) 1)\<lparr>buf_pos := 1\<rparr>,
      empty_channel_message\<lparr>cm_message_id := SSH_MSG_CHANNEL_REQUEST\<rparr>)"
proof -
  have "ssh_channel_request_decode (ssh_buffer_wrap (Some [SSH_MSG_CHANNEL_REQUEST]) (Suc (length [])), empty_channel_request) =
      (Inl SSH_ERR_BUFFER_UNDERFLOW, (ssh_buffer_wrap (Some [SSH_MSG_CHANNEL_REQUEST]) 1)\<lparr>buf_pos := 1\<rparr>, empty_channel_request)"
    by code_simp
  from message_decoder_agrees_on_requests [OF this, of empty_channel_message] show ?thesis
    by (simp add: empty_channel_request_def empty_channel_message_def)
qed

text \<open>C34. The channel message decoder accepts exactly the encodings of window adjustments (of a nonzero amount),
  data, end-of-file and close messages and of the known requests, and recovers the message.\<close>

theorem channel_message_decoder_exact:
  "(\<exists>b. ssh_channel_message_decode (ssh_buffer_wrap (Some m) (length m), m0) = (Inr (), (b, msg))) \<longleftrightarrow>
     (\<exists>e. event_valid e \<and> m = event_bytes e \<and> msg = event_message e)"
  by (auto simp: readsFD [OF readsF_channel_message])

text \<open>The encoders of the server's own channel messages.\<close>

fun event_encode :: "channel_event \<Rightarrow> (ssh_buffer, unit) act" where
  "event_encode (Window_adjust channel bytes_to_add) = ssh_channel_window_adjust_encode channel bytes_to_add"
| "event_encode (Data channel data) = ssh_channel_data_encode channel (view_data data)"
| "event_encode (Eof channel) = ssh_channel_eof_encode channel"
| "event_encode (Close channel) = ssh_channel_close_encode channel"
| "event_encode (Request channel want_reply k) = (case k of
     Subsystem name \<Rightarrow> ssh_channel_request_subsystem_encode channel want_reply name
   | _ \<Rightarrow> failA SSH_ERR_UNSUPPORTED)"

fun encodable :: "channel_event \<Rightarrow> bool" where
  "encodable (Request channel want_reply k) = (case k of Subsystem name \<Rightarrow> True | _ \<Rightarrow> False)"
| "encodable _ = True"

lemma event_encode_writes:
  assumes "event_valid e" "encodable e"
  shows "buffer_writer (event_encode e) (event_bytes e)"
proof (cases e)
  case (Window_adjust channel n)
  with assms show ?thesis
    by (simp add: ssh_channel_window_adjust_encode_def event_bytes_def)
      (use buffer_writer_thenA [OF buffer_writer_put_u8 buffer_writer_thenA [OF buffer_writer_put_u32 buffer_writer_put_u32]] in simp)
next
  case (Data channel data)
  with assms show ?thesis
    using channel_data.encode_writes [of "\<lparr>cd_recipient_channel = channel, cd_data = data\<rparr>"]
    by (simp add: event_bytes_def channel_data_bytes_def)
next
  case (Eof channel)
  then show ?thesis
    using buffer_writer_thenA [OF buffer_writer_put_u8 buffer_writer_put_u32]
    by (simp add: ssh_channel_eof_encode_def ssh_channel_simple_encode_def event_bytes_def)
next
  case (Close channel)
  then show ?thesis
    using buffer_writer_thenA [OF buffer_writer_put_u8 buffer_writer_put_u32]
    by (simp add: ssh_channel_close_encode_def ssh_channel_simple_encode_def event_bytes_def)
next
  case (Request channel want_reply k)
  with assms obtain name where k: "k = Subsystem name" "string_valid name"
    by (cases k) auto
  have "buffer_writer (ssh_channel_request_subsystem_encode channel want_reply name)
      ([SSH_MSG_CHANNEL_REQUEST] @ be32 channel @ view_bytes (Some SSH_CHANNEL_REQUEST_SUBSYSTEM) @
        [if want_reply then 1 else 0] @ view_bytes name)"
    unfolding ssh_channel_request_subsystem_encode_def
    by (intro encoder_intros) (use k in \<open>auto simp: request_type_defs UINT32_MAX_def string_valid_def split: option.splits\<close>)
  then show ?thesis
    using k Request by (simp add: event_bytes_def bool_byte_def)
qed

text \<open>Every message the encoders of window adjustments, data, end-of-file, close and subsystem requests write
  is decoded by \<^verbatim>\<open>ssh_channel_message_decode\<close> to the same message.\<close>

theorem channel_message_roundtrip:
  assumes "event_valid e" "encodable e" "length storage = cap" "length (event_bytes e) \<le> cap"
  shows "\<exists>b b'. event_encode e (ssh_buffer_init (Some storage) cap) = (Inr (), b) \<and>
    ssh_channel_message_decode (ssh_buffer_wrap (Some (buf_content b)) (length (buf_content b)), m0) =
      (Inr (), (b', event_message e))"
proof -
  have "event_encode e (ssh_buffer_init (Some storage) cap) = (Inr (), buf_append (ssh_buffer_init (Some storage) cap) (event_bytes e))"
    using buffer_writer.put_fits [OF event_encode_writes [OF assms(1,2)], of "ssh_buffer_init (Some storage) cap"] assms(3,4)
    by simp
  then show ?thesis
    using assms by (auto simp: readsFD [OF readsF_channel_message])
qed

theorem channel_message_roundtrip_witness:
  "\<exists>b b'. event_encode (Window_adjust 2 1000) (ssh_buffer_init (Some (replicate 16 0)) 16) = (Inr (), b) \<and>
    ssh_channel_message_decode (ssh_buffer_wrap (Some (buf_content b)) (length (buf_content b)), empty_channel_message) =
      (Inr (), (b', event_message (Window_adjust 2 1000)))"
  using channel_message_roundtrip [of "Window_adjust 2 1000" "replicate 16 0" 16 empty_channel_message]
  by (simp add: event_bytes_def)

end
