(* ===== verification/Sftp_Codec.thy ===== *)
theory Sftp_Codec
  imports Ssh_Connection
begin

text \<open>
  The SFTP wire format: \<^verbatim>\<open>src/sftp/sftp.c\<close>. A request is decoded from the bytes of a whole packet; a reply is
  encoded into an array of a given capacity. An encoder is modelled by its status and the bytes
  \<^verbatim>\<open>out[0 .. *out_len)\<close> it leaves; the array behind them, which no caller reads, has no counterpart.
\<close>

section \<open>Constants and records\<close>

definition SSH_FXP_INIT :: u8 where "SSH_FXP_INIT = 1"
definition SSH_FXP_VERSION :: u8 where "SSH_FXP_VERSION = 2"
definition SSH_FXP_OPEN :: u8 where "SSH_FXP_OPEN = 3"
definition SSH_FXP_CLOSE :: u8 where "SSH_FXP_CLOSE = 4"
definition SSH_FXP_READ :: u8 where "SSH_FXP_READ = 5"
definition SSH_FXP_WRITE :: u8 where "SSH_FXP_WRITE = 6"
definition SSH_FXP_LSTAT :: u8 where "SSH_FXP_LSTAT = 7"
definition SSH_FXP_FSTAT :: u8 where "SSH_FXP_FSTAT = 8"
definition SSH_FXP_SETSTAT :: u8 where "SSH_FXP_SETSTAT = 9"
definition SSH_FXP_FSETSTAT :: u8 where "SSH_FXP_FSETSTAT = 10"
definition SSH_FXP_OPENDIR :: u8 where "SSH_FXP_OPENDIR = 11"
definition SSH_FXP_READDIR :: u8 where "SSH_FXP_READDIR = 12"
definition SSH_FXP_REMOVE :: u8 where "SSH_FXP_REMOVE = 13"
definition SSH_FXP_MKDIR :: u8 where "SSH_FXP_MKDIR = 14"
definition SSH_FXP_RMDIR :: u8 where "SSH_FXP_RMDIR = 15"
definition SSH_FXP_REALPATH :: u8 where "SSH_FXP_REALPATH = 16"
definition SSH_FXP_STAT :: u8 where "SSH_FXP_STAT = 17"
definition SSH_FXP_RENAME :: u8 where "SSH_FXP_RENAME = 18"
definition SSH_FXP_STATUS :: u8 where "SSH_FXP_STATUS = 101"
definition SSH_FXP_HANDLE :: u8 where "SSH_FXP_HANDLE = 102"
definition SSH_FXP_DATA :: u8 where "SSH_FXP_DATA = 103"
definition SSH_FXP_NAME :: u8 where "SSH_FXP_NAME = 104"
definition SSH_FXP_ATTRS :: u8 where "SSH_FXP_ATTRS = 105"
definition SSH_FXP_EXTENDED :: u8 where "SSH_FXP_EXTENDED = 200"
definition SSH_FXP_EXTENDED_REPLY :: u8 where "SSH_FXP_EXTENDED_REPLY = 201"

lemmas fxp_defs = SSH_FXP_INIT_def SSH_FXP_VERSION_def SSH_FXP_OPEN_def SSH_FXP_CLOSE_def SSH_FXP_READ_def
  SSH_FXP_WRITE_def SSH_FXP_LSTAT_def SSH_FXP_FSTAT_def SSH_FXP_SETSTAT_def SSH_FXP_FSETSTAT_def
  SSH_FXP_OPENDIR_def SSH_FXP_READDIR_def SSH_FXP_REMOVE_def SSH_FXP_MKDIR_def SSH_FXP_RMDIR_def
  SSH_FXP_REALPATH_def SSH_FXP_STAT_def SSH_FXP_RENAME_def SSH_FXP_STATUS_def SSH_FXP_HANDLE_def
  SSH_FXP_DATA_def SSH_FXP_NAME_def SSH_FXP_ATTRS_def SSH_FXP_EXTENDED_def SSH_FXP_EXTENDED_REPLY_def

definition SFTP_VERSION_3 :: u32 where "SFTP_VERSION_3 = 3"

definition SSH_FXF_READ :: u32 where "SSH_FXF_READ = 0x00000001"
definition SSH_FXF_WRITE :: u32 where "SSH_FXF_WRITE = 0x00000002"
definition SSH_FXF_APPEND :: u32 where "SSH_FXF_APPEND = 0x00000004"
definition SSH_FXF_CREAT :: u32 where "SSH_FXF_CREAT = 0x00000008"
definition SSH_FXF_TRUNC :: u32 where "SSH_FXF_TRUNC = 0x00000010"
definition SSH_FXF_EXCL :: u32 where "SSH_FXF_EXCL = 0x00000020"

definition SSH_FILEXFER_ATTR_SIZE :: u32 where "SSH_FILEXFER_ATTR_SIZE = 0x00000001"
definition SSH_FILEXFER_ATTR_UIDGID :: u32 where "SSH_FILEXFER_ATTR_UIDGID = 0x00000002"
definition SSH_FILEXFER_ATTR_PERMISSIONS :: u32 where "SSH_FILEXFER_ATTR_PERMISSIONS = 0x00000004"
definition SSH_FILEXFER_ATTR_ACMODTIME :: u32 where "SSH_FILEXFER_ATTR_ACMODTIME = 0x00000008"
definition SSH_FILEXFER_ATTR_EXTENDED :: u32 where "SSH_FILEXFER_ATTR_EXTENDED = 0x80000000"

definition SFTP_SUPPORTED_ATTR_FLAGS :: u32 where
  "SFTP_SUPPORTED_ATTR_FLAGS = SSH_FILEXFER_ATTR_SIZE OR SSH_FILEXFER_ATTR_UIDGID OR
     SSH_FILEXFER_ATTR_PERMISSIONS OR SSH_FILEXFER_ATTR_ACMODTIME"

lemmas attr_flag_defs = SSH_FILEXFER_ATTR_SIZE_def SSH_FILEXFER_ATTR_UIDGID_def SSH_FILEXFER_ATTR_PERMISSIONS_def
  SSH_FILEXFER_ATTR_ACMODTIME_def SSH_FILEXFER_ATTR_EXTENDED_def SFTP_SUPPORTED_ATTR_FLAGS_def

text \<open>The codes of \<^verbatim>\<open>sftp_status_code_t\<close>.\<close>

definition SSH_FX_OK :: u32 where "SSH_FX_OK = 0"
definition SSH_FX_EOF :: u32 where "SSH_FX_EOF = 1"
definition SSH_FX_NO_SUCH_FILE :: u32 where "SSH_FX_NO_SUCH_FILE = 2"
definition SSH_FX_PERMISSION_DENIED :: u32 where "SSH_FX_PERMISSION_DENIED = 3"
definition SSH_FX_FAILURE :: u32 where "SSH_FX_FAILURE = 4"
definition SSH_FX_BAD_MESSAGE :: u32 where "SSH_FX_BAD_MESSAGE = 5"
definition SSH_FX_OP_UNSUPPORTED :: u32 where "SSH_FX_OP_UNSUPPORTED = 8"

record ssh_fs_attrs =
  attr_flags :: u32
  attr_size :: u64
  attr_uid :: u32
  attr_gid :: u32
  attr_permissions :: u32
  attr_atime :: u32
  attr_mtime :: u32

record ssh_fs_statvfs =
  vfs_bsize :: u64
  vfs_frsize :: u64
  vfs_blocks :: u64
  vfs_bfree :: u64
  vfs_bavail :: u64
  vfs_files :: u64
  vfs_ffree :: u64
  vfs_favail :: u64
  vfs_fsid :: u64
  vfs_flag :: u64
  vfs_namemax :: u64

record sftp_packet =
  pk_type :: u8
  pk_payload :: "u8 list"

record sftp_request =
  rq_type :: u8
  rq_id :: u32
  rq_payload :: "u8 list"

record sftp_init =
  init_version :: u32
  init_extension_data :: "u8 list"

record sftp_path_request =
  pr_id :: u32
  pr_path :: view

record sftp_open_request =
  or_id :: u32
  or_filename :: view
  or_pflags :: u32
  or_attrs :: view

record sftp_handle_request =
  hr_id :: u32
  hr_handle :: view

record sftp_read_request =
  rr_id :: u32
  rr_handle :: view
  rr_offset :: u64
  rr_len :: u32

record sftp_write_request =
  wr_id :: u32
  wr_handle :: view
  wr_offset :: u64
  wr_data :: view

record sftp_rename_request =
  rn_id :: u32
  rn_old_path :: view
  rn_new_path :: view

record sftp_mkdir_request =
  mk_id :: u32
  mk_path :: view
  mk_attrs :: view

record sftp_setstat_request =
  ss_id :: u32
  ss_path :: view
  ss_attrs :: ssh_fs_attrs

record sftp_fsetstat_request =
  fs_id :: u32
  fs_handle_view :: view
  fs_attrs :: ssh_fs_attrs

record sftp_extended_request =
  ex_id :: u32
  ex_name :: view
  ex_payload :: "u8 list"

section \<open>Decoders\<close>

definition read_u32_be :: "u8 list \<Rightarrow> u32" where
  "read_u32_be data = of_be32 (take 4 data)"

definition sftp_packet_wrap :: "u8 list \<Rightarrow> ssh_err + sftp_packet" where
  "sftp_packet_wrap packet =
     (if length packet < 5 then Inl SSH_ERR_MALFORMED_PACKET
      else let packet_length = read_u32_be packet in
        if packet_length = 0 \<or> unat packet_length + 4 \<noteq> length packet then Inl SSH_ERR_MALFORMED_PACKET
        else Inr \<lparr>pk_type = packet ! 4, pk_payload = take (unat packet_length - 1) (drop 5 packet)\<rparr>)"

definition sftp_request_decode :: "u8 list \<Rightarrow> ssh_err + sftp_request" where
  "sftp_request_decode packet =
     bindS (sftp_packet_wrap packet) (\<lambda>wrapped.
       if length (pk_payload wrapped) < 4 then Inl SSH_ERR_MALFORMED_PACKET
       else Inr \<lparr>rq_type = pk_type wrapped, rq_id = read_u32_be (pk_payload wrapped),
                 rq_payload = drop 4 (pk_payload wrapped)\<rparr>)"

text \<open>A decoder of the fields, run on the bytes of a payload.\<close>

definition on_payload :: "(ssh_buffer, 'a) act \<Rightarrow> u8 list \<Rightarrow> ssh_err + 'a" where
  "on_payload m bytes = fst (m (ssh_buffer_wrap (Some bytes) (length bytes)))"

text \<open>The steps every request decoder starts with: the header, the expected type, then the fields.\<close>

definition typed_request :: "u8 \<Rightarrow> (u32 \<Rightarrow> (ssh_buffer, 'a) act) \<Rightarrow> u8 list \<Rightarrow> ssh_err + 'a" where
  "typed_request expected_type m packet =
     bindS (sftp_request_decode packet) (\<lambda>generic.
       if rq_type generic \<noteq> expected_type then Inl SSH_ERR_MALFORMED_PACKET
       else on_payload (m (rq_id generic)) (rq_payload generic))"

definition get_if :: "bool \<Rightarrow> (ssh_buffer, 'a::zero) act \<Rightarrow> (ssh_buffer, 'a) act" where
  "get_if c get = (if c then get else retA 0)"

fun skip_extensions :: "nat \<Rightarrow> (ssh_buffer, unit) act" where
  "skip_extensions 0 = retA ()"
| "skip_extensions (Suc n) =
     bindA ssh_buffer_get_string_view (\<lambda>extension_name.
     bindA ssh_buffer_get_string_view (\<lambda>extension_data. skip_extensions n))"

definition get_extensions :: "bool \<Rightarrow> (ssh_buffer, unit) act" where
  "get_extensions extended =
     bindA (get_if extended ssh_buffer_get_u32) (\<lambda>extended_count. skip_extensions (unat extended_count))"

definition attrs_fields :: "(ssh_buffer, ssh_fs_attrs) act" where
  "attrs_fields =
     bindA ssh_buffer_get_u32 (\<lambda>wire_flags.
     thenA (ensureA (wire_flags AND NOT (SFTP_SUPPORTED_ATTR_FLAGS OR SSH_FILEXFER_ATTR_EXTENDED) = 0) SSH_ERR_UNSUPPORTED)
     (let flags = wire_flags AND SFTP_SUPPORTED_ATTR_FLAGS in
     bindA (get_if (flags AND SSH_FILEXFER_ATTR_SIZE \<noteq> 0) ssh_buffer_get_u64) (\<lambda>size.
     bindA (get_if (flags AND SSH_FILEXFER_ATTR_UIDGID \<noteq> 0) ssh_buffer_get_u32) (\<lambda>uid.
     bindA (get_if (flags AND SSH_FILEXFER_ATTR_UIDGID \<noteq> 0) ssh_buffer_get_u32) (\<lambda>gid.
     bindA (get_if (flags AND SSH_FILEXFER_ATTR_PERMISSIONS \<noteq> 0) ssh_buffer_get_u32) (\<lambda>permissions.
     bindA (get_if (flags AND SSH_FILEXFER_ATTR_ACMODTIME \<noteq> 0) ssh_buffer_get_u32) (\<lambda>atime.
     bindA (get_if (flags AND SSH_FILEXFER_ATTR_ACMODTIME \<noteq> 0) ssh_buffer_get_u32) (\<lambda>mtime.
     thenA (get_extensions (wire_flags AND SSH_FILEXFER_ATTR_EXTENDED \<noteq> 0))
     (thenA (at_endA SSH_ERR_MALFORMED_PACKET)
     (retA \<lparr>attr_flags = flags, attr_size = size, attr_uid = uid, attr_gid = gid, attr_permissions = permissions,
        attr_atime = atime, attr_mtime = mtime\<rparr>))))))))))"

definition sftp_attrs_decode :: "view \<Rightarrow> ssh_err + ssh_fs_attrs" where
  "sftp_attrs_decode encoded = (case encoded of
     None \<Rightarrow> Inl SSH_ERR_INVALID_ARGUMENT
   | Some bytes \<Rightarrow> on_payload attrs_fields bytes)"

definition sftp_init_decode :: "u8 list \<Rightarrow> ssh_err + sftp_init" where
  "sftp_init_decode packet =
     bindS (sftp_packet_wrap packet) (\<lambda>wrapped.
       if pk_type wrapped \<noteq> SSH_FXP_INIT \<or> length (pk_payload wrapped) < 4 then Inl SSH_ERR_MALFORMED_PACKET
       else Inr \<lparr>init_version = read_u32_be (pk_payload wrapped), init_extension_data = drop 4 (pk_payload wrapped)\<rparr>)"

definition decode_path_request :: "u8 \<Rightarrow> u8 list \<Rightarrow> ssh_err + sftp_path_request" where
  "decode_path_request expected_type = typed_request expected_type (\<lambda>id.
     bindA ssh_buffer_get_string_view (\<lambda>path.
     thenA (at_endA SSH_ERR_MALFORMED_PACKET) (retA \<lparr>pr_id = id, pr_path = path\<rparr>)))"

definition sftp_realpath_request_decode :: "u8 list \<Rightarrow> ssh_err + sftp_path_request" where
  "sftp_realpath_request_decode = decode_path_request SSH_FXP_REALPATH"

definition sftp_lstat_request_decode :: "u8 list \<Rightarrow> ssh_err + sftp_path_request" where
  "sftp_lstat_request_decode = decode_path_request SSH_FXP_LSTAT"

definition sftp_stat_request_decode :: "u8 list \<Rightarrow> ssh_err + sftp_path_request" where
  "sftp_stat_request_decode = decode_path_request SSH_FXP_STAT"

definition sftp_opendir_request_decode :: "u8 list \<Rightarrow> ssh_err + sftp_path_request" where
  "sftp_opendir_request_decode = decode_path_request SSH_FXP_OPENDIR"

definition sftp_remove_request_decode :: "u8 list \<Rightarrow> ssh_err + sftp_path_request" where
  "sftp_remove_request_decode = decode_path_request SSH_FXP_REMOVE"

definition sftp_rmdir_request_decode :: "u8 list \<Rightarrow> ssh_err + sftp_path_request" where
  "sftp_rmdir_request_decode = decode_path_request SSH_FXP_RMDIR"

text \<open>The rest of the payload: \<^verbatim>\<open>payload.data + payload.pos\<close> with \<^verbatim>\<open>ssh_buffer_remaining_read\<close> bytes.\<close>

definition rest_of_payload :: "(ssh_buffer, u8 list) act" where
  "rest_of_payload b = (let n = ssh_buffer_remaining_read b in (Inr (buf_at b n), buf_advance b n))"

definition attrs_view :: "(ssh_buffer, u8 list) act" where
  "attrs_view = bindA rest_of_payload (\<lambda>attrs. thenA (ensureA (4 \<le> length attrs) SSH_ERR_MALFORMED_PACKET) (retA attrs))"

definition sftp_open_request_decode :: "u8 list \<Rightarrow> ssh_err + sftp_open_request" where
  "sftp_open_request_decode = typed_request SSH_FXP_OPEN (\<lambda>id.
     bindA ssh_buffer_get_string_view (\<lambda>filename.
     bindA ssh_buffer_get_u32 (\<lambda>pflags.
     bindA attrs_view (\<lambda>attrs.
     retA \<lparr>or_id = id, or_filename = filename, or_pflags = pflags, or_attrs = Some attrs\<rparr>))))"

text \<open>The same body in \<^verbatim>\<open>sftp_close_request_decode\<close>, \<^verbatim>\<open>sftp_fstat_request_decode\<close> and
  \<^verbatim>\<open>sftp_readdir_request_decode\<close>.\<close>

definition decode_handle_request :: "u8 \<Rightarrow> u8 list \<Rightarrow> ssh_err + sftp_handle_request" where
  "decode_handle_request expected_type = typed_request expected_type (\<lambda>id.
     bindA ssh_buffer_get_string_view (\<lambda>handle.
     thenA (at_endA SSH_ERR_MALFORMED_PACKET) (retA \<lparr>hr_id = id, hr_handle = handle\<rparr>)))"

definition sftp_close_request_decode :: "u8 list \<Rightarrow> ssh_err + sftp_handle_request" where
  "sftp_close_request_decode = decode_handle_request SSH_FXP_CLOSE"

definition sftp_fstat_request_decode :: "u8 list \<Rightarrow> ssh_err + sftp_handle_request" where
  "sftp_fstat_request_decode = decode_handle_request SSH_FXP_FSTAT"

definition sftp_readdir_request_decode :: "u8 list \<Rightarrow> ssh_err + sftp_handle_request" where
  "sftp_readdir_request_decode = decode_handle_request SSH_FXP_READDIR"

definition sftp_read_request_decode :: "u8 list \<Rightarrow> ssh_err + sftp_read_request" where
  "sftp_read_request_decode = typed_request SSH_FXP_READ (\<lambda>id.
     bindA ssh_buffer_get_string_view (\<lambda>handle.
     bindA ssh_buffer_get_u64 (\<lambda>offset.
     bindA ssh_buffer_get_u32 (\<lambda>len.
     thenA (at_endA SSH_ERR_MALFORMED_PACKET)
     (retA \<lparr>rr_id = id, rr_handle = handle, rr_offset = offset, rr_len = len\<rparr>)))))"

definition sftp_write_request_decode :: "u8 list \<Rightarrow> ssh_err + sftp_write_request" where
  "sftp_write_request_decode = typed_request SSH_FXP_WRITE (\<lambda>id.
     bindA ssh_buffer_get_string_view (\<lambda>handle.
     bindA ssh_buffer_get_u64 (\<lambda>offset.
     bindA ssh_buffer_get_string_view (\<lambda>data.
     thenA (at_endA SSH_ERR_MALFORMED_PACKET)
     (retA \<lparr>wr_id = id, wr_handle = handle, wr_offset = offset, wr_data = data\<rparr>)))))"

definition sftp_mkdir_request_decode :: "u8 list \<Rightarrow> ssh_err + sftp_mkdir_request" where
  "sftp_mkdir_request_decode = typed_request SSH_FXP_MKDIR (\<lambda>id.
     bindA ssh_buffer_get_string_view (\<lambda>path.
     bindA attrs_view (\<lambda>attrs.
     retA \<lparr>mk_id = id, mk_path = path, mk_attrs = Some attrs\<rparr>)))"

definition sftp_rename_request_decode :: "u8 list \<Rightarrow> ssh_err + sftp_rename_request" where
  "sftp_rename_request_decode = typed_request SSH_FXP_RENAME (\<lambda>id.
     bindA ssh_buffer_get_string_view (\<lambda>old_path.
     bindA ssh_buffer_get_string_view (\<lambda>new_path.
     thenA (at_endA SSH_ERR_MALFORMED_PACKET)
     (retA \<lparr>rn_id = id, rn_old_path = old_path, rn_new_path = new_path\<rparr>))))"

text \<open>\<^verbatim>\<open>setstat\<close> and \<^verbatim>\<open>fsetstat\<close> store the request id before they read the fields, and the handlers use it
  also after an error: the second component is \<^verbatim>\<open>request->id\<close> after the call.\<close>

definition decode_setstat_fields :: "u8 \<Rightarrow> u8 list \<Rightarrow> (ssh_err + view \<times> ssh_fs_attrs) \<times> u32" where
  "decode_setstat_fields expected_type packet = (case sftp_request_decode packet of
     Inl e \<Rightarrow> (Inl e, 0)
   | Inr generic \<Rightarrow>
      if rq_type generic \<noteq> expected_type then (Inl SSH_ERR_MALFORMED_PACKET, 0)
      else (bindS (on_payload (bindA ssh_buffer_get_string_view (\<lambda>v. bindA rest_of_payload (\<lambda>attrs. retA (v, attrs))))
                     (rq_payload generic))
              (\<lambda>(v, attrs). bindS (sftp_attrs_decode (Some attrs)) (\<lambda>a. Inr (v, a))),
            rq_id generic))"

definition sftp_setstat_request_decode :: "u8 list \<Rightarrow> (ssh_err + sftp_setstat_request) \<times> u32" where
  "sftp_setstat_request_decode packet = (case decode_setstat_fields SSH_FXP_SETSTAT packet of
     (r, req_id) \<Rightarrow> (bindS r (\<lambda>(path, attrs). Inr \<lparr>ss_id = req_id, ss_path = path, ss_attrs = attrs\<rparr>), req_id))"

definition sftp_fsetstat_request_decode :: "u8 list \<Rightarrow> (ssh_err + sftp_fsetstat_request) \<times> u32" where
  "sftp_fsetstat_request_decode packet = (case decode_setstat_fields SSH_FXP_FSETSTAT packet of
     (r, req_id) \<Rightarrow> (bindS r (\<lambda>(handle, attrs). Inr \<lparr>fs_id = req_id, fs_handle_view = handle, fs_attrs = attrs\<rparr>), req_id))"

definition sftp_extended_request_decode :: "u8 list \<Rightarrow> ssh_err + sftp_extended_request" where
  "sftp_extended_request_decode = typed_request SSH_FXP_EXTENDED (\<lambda>id.
     bindA ssh_buffer_get_string_view (\<lambda>name.
     bindA rest_of_payload (\<lambda>payload.
     retA \<lparr>ex_id = id, ex_name = name, ex_payload = payload\<rparr>)))"

section \<open>Encoders\<close>

definition write_u32_be :: "u32 \<Rightarrow> u8 list" where
  "write_u32_be v = be32 v"

definition packet_payload_init :: "nat \<Rightarrow> ssh_err + ssh_buffer" where
  "packet_payload_init out_capacity =
     (if out_capacity < 4 then Inl SSH_ERR_BUFFER_TOO_SMALL
      else Inr (ssh_buffer_init (Some (replicate (out_capacity - 4) 0)) (out_capacity - 4)))"

definition packet_finish :: "ssh_buffer \<Rightarrow> ssh_err + u8 list" where
  "packet_finish payload =
     (let payload_len = ssh_buffer_len payload in
      if payload_len > UINT32_MAX then Inl SSH_ERR_BUFFER_OVERFLOW
      else Inr (write_u32_be (of_nat payload_len) @ buf_content payload))"

definition encode_packet :: "(ssh_buffer, unit) act \<Rightarrow> nat \<Rightarrow> ssh_err + u8 list" where
  "encode_packet put out_capacity =
     bindS (packet_payload_init out_capacity) (\<lambda>payload. case put payload of
       (Inl e, _) \<Rightarrow> Inl e
     | (Inr _, payload) \<Rightarrow> packet_finish payload)"

definition sftp_version_encode :: "nat \<Rightarrow> u32 \<Rightarrow> ssh_err + u8 list" where
  "sftp_version_encode out_capacity version =
     (if out_capacity < 9 then Inl SSH_ERR_BUFFER_TOO_SMALL
      else Inr (write_u32_be 5 @ [SSH_FXP_VERSION] @ write_u32_be version))"

definition sftp_status_encode :: "nat \<Rightarrow> u32 \<Rightarrow> u32 \<Rightarrow> cstr \<Rightarrow> cstr \<Rightarrow> ssh_err + u8 list" where
  "sftp_status_encode out_capacity request_id status_code message language =
     (if message = None \<or> language = None then Inl SSH_ERR_INVALID_ARGUMENT
      else encode_packet
        (thenA (ssh_buffer_put_u8 SSH_FXP_STATUS)
        (thenA (ssh_buffer_put_u32 request_id)
        (thenA (ssh_buffer_put_u32 status_code)
        (thenA (ssh_buffer_put_cstring message)
        (ssh_buffer_put_cstring language))))) out_capacity)"

definition sftp_handle_encode :: "nat \<Rightarrow> u32 \<Rightarrow> u8 list \<Rightarrow> ssh_err + u8 list" where
  "sftp_handle_encode out_capacity request_id handle = encode_packet
     (thenA (ssh_buffer_put_u8 SSH_FXP_HANDLE)
     (thenA (ssh_buffer_put_u32 request_id)
     (ssh_buffer_put_string handle))) out_capacity"

definition sftp_data_encode :: "nat \<Rightarrow> u32 \<Rightarrow> u8 list \<Rightarrow> ssh_err + u8 list" where
  "sftp_data_encode out_capacity request_id data = encode_packet
     (thenA (ssh_buffer_put_u8 SSH_FXP_DATA)
     (thenA (ssh_buffer_put_u32 request_id)
     (ssh_buffer_put_string data))) out_capacity"

definition put_if :: "bool \<Rightarrow> (ssh_buffer, unit) act \<Rightarrow> (ssh_buffer, unit) act" where
  "put_if c put = (if c then put else retA ())"

definition put_attrs :: "ssh_fs_attrs \<Rightarrow> (ssh_buffer, unit) act" where
  "put_attrs attrs = (let flags = attr_flags attrs AND SFTP_SUPPORTED_ATTR_FLAGS in
     thenA (ssh_buffer_put_u32 flags)
     (thenA (put_if (flags AND SSH_FILEXFER_ATTR_SIZE \<noteq> 0) (ssh_buffer_put_u64 (attr_size attrs)))
     (thenA (put_if (flags AND SSH_FILEXFER_ATTR_UIDGID \<noteq> 0) (ssh_buffer_put_u32 (attr_uid attrs)))
     (thenA (put_if (flags AND SSH_FILEXFER_ATTR_UIDGID \<noteq> 0) (ssh_buffer_put_u32 (attr_gid attrs)))
     (thenA (put_if (flags AND SSH_FILEXFER_ATTR_PERMISSIONS \<noteq> 0) (ssh_buffer_put_u32 (attr_permissions attrs)))
     (thenA (put_if (flags AND SSH_FILEXFER_ATTR_ACMODTIME \<noteq> 0) (ssh_buffer_put_u32 (attr_atime attrs)))
     (put_if (flags AND SSH_FILEXFER_ATTR_ACMODTIME \<noteq> 0) (ssh_buffer_put_u32 (attr_mtime attrs)))))))))"

definition sftp_attrs_encode :: "nat \<Rightarrow> u32 \<Rightarrow> ssh_fs_attrs \<Rightarrow> ssh_err + u8 list" where
  "sftp_attrs_encode out_capacity request_id attrs = encode_packet
     (thenA (ssh_buffer_put_u8 SSH_FXP_ATTRS)
     (thenA (ssh_buffer_put_u32 request_id)
     (put_attrs attrs))) out_capacity"

definition sftp_name_one_attrs_encode :: "nat \<Rightarrow> u32 \<Rightarrow> cstr \<Rightarrow> cstr \<Rightarrow> ssh_fs_attrs \<Rightarrow> ssh_err + u8 list" where
  "sftp_name_one_attrs_encode out_capacity request_id filename longname attrs =
     (if filename = None then Inl SSH_ERR_INVALID_ARGUMENT
      else let entry_longname = (if longname \<noteq> None then longname else filename) in encode_packet
        (thenA (ssh_buffer_put_u8 SSH_FXP_NAME)
        (thenA (ssh_buffer_put_u32 request_id)
        (thenA (ssh_buffer_put_u32 1)
        (thenA (ssh_buffer_put_cstring filename)
        (thenA (ssh_buffer_put_cstring entry_longname)
        (put_attrs attrs)))))) out_capacity)"

definition empty_attrs :: ssh_fs_attrs where
  "empty_attrs = \<lparr>attr_flags = 0, attr_size = 0, attr_uid = 0, attr_gid = 0, attr_permissions = 0,
     attr_atime = 0, attr_mtime = 0\<rparr>"

definition sftp_name_one_encode :: "nat \<Rightarrow> u32 \<Rightarrow> cstr \<Rightarrow> cstr \<Rightarrow> ssh_err + u8 list" where
  "sftp_name_one_encode out_capacity request_id filename longname =
     sftp_name_one_attrs_encode out_capacity request_id filename longname empty_attrs"

section \<open>Framing\<close>

text \<open>A packet: the length of type and payload, the type, the payload.\<close>

definition packet_bytes :: "u8 \<Rightarrow> u8 list \<Rightarrow> u8 list" where
  "packet_bytes t payload = be32 (of_nat (Suc (length payload))) @ [t] @ payload"

definition request_packet :: "u8 \<Rightarrow> u32 \<Rightarrow> u8 list \<Rightarrow> u8 list" where
  "request_packet t req_id body = packet_bytes t (be32 req_id @ body)"

lemma length_packet_bytes [simp]: "length (packet_bytes t payload) = 5 + length payload"
  by (simp add: packet_bytes_def)

lemma unat_of_nat_u32: "n \<le> UINT32_MAX \<Longrightarrow> unat (of_nat n :: u32) = n"
  by (simp add: UINT32_MAX_def unsigned_of_nat take_bit_nat_eq_self)

lemma packet_wrap_iff:
  "sftp_packet_wrap packet = Inr p \<longleftrightarrow>
     Suc (length (pk_payload p)) \<le> UINT32_MAX \<and> packet = packet_bytes (pk_type p) (pk_payload p)"
proof
  assume w: "sftp_packet_wrap packet = Inr p"
  then have len: "5 \<le> length packet" and n: "unat (read_u32_be packet) + 4 = length packet"
    by (auto simp: sftp_packet_wrap_def Let_def split: if_splits)
  from len obtain a b c d t body where p: "packet = a # b # c # d # t # body"
    by (auto simp: numeral_eq_Suc Suc_le_length_iff)
  have "be32 (read_u32_be packet) = [a, b, c, d]"
    by (simp add: p read_u32_be_def be32_of_be32)
  moreover have "p = \<lparr>pk_type = t, pk_payload = body\<rparr>"
    using w n p by (simp add: sftp_packet_wrap_def Let_def split: if_splits)
  moreover have "unat (read_u32_be packet) = Suc (length body)"
    using n p by simp
  moreover from this have "Suc (length body) \<le> UINT32_MAX"
    using unat_u32_less [of "read_u32_be packet"] by (simp add: UINT32_MAX_def)
  moreover from this calculation have "read_u32_be packet = of_nat (Suc (length body))"
    by (simp add: word_unat_eq_iff unat_of_nat_u32 del: of_nat_Suc)
  ultimately show "Suc (length (pk_payload p)) \<le> UINT32_MAX \<and> packet = packet_bytes (pk_type p) (pk_payload p)"
    using p by (simp add: packet_bytes_def)
next
  assume *: "Suc (length (pk_payload p)) \<le> UINT32_MAX \<and> packet = packet_bytes (pk_type p) (pk_payload p)"
  then have "read_u32_be packet = of_nat (Suc (length (pk_payload p)))"
    by (simp add: read_u32_be_def packet_bytes_def)
  moreover have "unat (of_nat (Suc (length (pk_payload p))) :: u32) = Suc (length (pk_payload p))"
    using * unat_of_nat_u32 by blast
  ultimately show "sftp_packet_wrap packet = Inr p"
    using * by (auto simp: sftp_packet_wrap_def packet_bytes_def Let_def nth_append unat_eq_0 simp del: of_nat_Suc)
qed

lemma request_decode_iff:
  "sftp_request_decode packet = Inr r \<longleftrightarrow>
     5 + length (rq_payload r) \<le> UINT32_MAX \<and> packet = request_packet (rq_type r) (rq_id r) (rq_payload r)"
proof
  assume "sftp_request_decode packet = Inr r"
  then obtain w where w: "sftp_packet_wrap packet = Inr w" "4 \<le> length (pk_payload w)"
      "r = \<lparr>rq_type = pk_type w, rq_id = read_u32_be (pk_payload w), rq_payload = drop 4 (pk_payload w)\<rparr>"
    by (auto simp: sftp_request_decode_def bindS_eq_Inr split: if_splits)
  then have "be32 (rq_id r) @ rq_payload r = pk_payload w"
    by (simp add: read_u32_be_def be32_of_be32)
  with w show "5 + length (rq_payload r) \<le> UINT32_MAX \<and> packet = request_packet (rq_type r) (rq_id r) (rq_payload r)"
    by (simp add: packet_wrap_iff request_packet_def)
next
  assume *: "5 + length (rq_payload r) \<le> UINT32_MAX \<and> packet = request_packet (rq_type r) (rq_id r) (rq_payload r)"
  then have "sftp_packet_wrap packet = Inr \<lparr>pk_type = rq_type r, pk_payload = be32 (rq_id r) @ rq_payload r\<rparr>"
    by (simp add: packet_wrap_iff request_packet_def)
  then show "sftp_request_decode packet = Inr r"
    by (simp add: sftp_request_decode_def read_u32_be_def bindS_def)
qed

section \<open>Requests\<close>

lemma on_payload_iff:
  assumes "reads m R"
  shows "on_payload m bytes = Inr x \<longleftrightarrow> (\<exists>bs r. R x bs r \<and> bytes = bs @ r)"
  using reads_fst [OF assms, of "ssh_buffer_wrap (Some bytes) (length bytes)" x] by (simp add: on_payload_def)

lemma typed_request_iff:
  assumes "\<And>req_id. reads (m req_id) (R req_id)"
  shows "typed_request t m packet = Inr x \<longleftrightarrow>
    (\<exists>req_id bs r. R req_id x bs r \<and> 5 + length (bs @ r) \<le> UINT32_MAX \<and> packet = request_packet t req_id (bs @ r))"
    (is "?L \<longleftrightarrow> ?R")
proof
  assume ?L
  then obtain g where g: "sftp_request_decode packet = Inr g" "rq_type g = t" "on_payload (m (rq_id g)) (rq_payload g) = Inr x"
    by (auto simp: typed_request_def bindS_eq_Inr split: if_splits)
  from g(3) obtain bs r where "R (rq_id g) x bs r" "rq_payload g = bs @ r"
    using on_payload_iff [OF assms] by blast
  with g(1,2) show ?R
    by (auto simp: request_decode_iff)
next
  assume ?R
  then obtain req_id bs r where *: "R req_id x bs r" "5 + length (bs @ r) \<le> UINT32_MAX" "packet = request_packet t req_id (bs @ r)"
    by blast
  then have "sftp_request_decode packet = Inr \<lparr>rq_type = t, rq_id = req_id, rq_payload = bs @ r\<rparr>"
    by (simp add: request_decode_iff)
  moreover have "on_payload (m req_id) (bs @ r) = Inr x"
    using * on_payload_iff [OF assms] by blast
  ultimately show ?L
    by (simp add: typed_request_def)
qed

text \<open>What a decoder of one request type promises: it accepts exactly the packets of its type whose fields are
  the encoding of a valid request.\<close>

locale request_decoder =
  fixes decode :: "u8 list \<Rightarrow> ssh_err + 'a" and t :: u8 and ident :: "'a \<Rightarrow> u32" and bytes :: "'a \<Rightarrow> u8 list"
    and valid :: "'a \<Rightarrow> bool"
  assumes decode_iff: "decode packet = Inr x \<longleftrightarrow>
    valid x \<and> 5 + length (bytes x) \<le> UINT32_MAX \<and> packet = request_packet t (ident x) (bytes x)"
begin

lemma decode_request:
  "valid x \<Longrightarrow> 5 + length (bytes x) \<le> UINT32_MAX \<Longrightarrow> decode (request_packet t (ident x) (bytes x)) = Inr x"
  by (simp add: decode_iff)

lemma decode_type: "decode packet = Inr x \<Longrightarrow> 4 < length packet \<and> packet ! 4 = t"
  by (auto simp: decode_iff request_packet_def packet_bytes_def nth_append)

lemma decode_same: "decode p = Inr x \<Longrightarrow> decode q = Inr x \<Longrightarrow> p = q"
  by (simp add: decode_iff)

end

lemma request_decoderI:
  assumes "\<And>req_id. reads_all (m req_id) (\<lambda>x bs. valid x \<and> ident x = req_id \<and> bs = bytes x)"
  shows "request_decoder (typed_request t m) t ident bytes valid"
  by unfold_locales (auto simp: typed_request_iff [OF assms [unfolded reads_all_def]])

lemma reads_rest [reads_intros]: "reads rest_of_payload (\<lambda>x bs r. bs = x \<and> r = [])"
  by (auto simp: reads_def rest_of_payload_def Let_def)

lemma reads_attrs_view [reads_intros]: "reads attrs_view (\<lambda>x bs r. bs = x \<and> r = [] \<and> 4 \<le> length x)"
  unfolding attrs_view_def by (rule reads_cong, (rule reads_intros)+) auto

definition attrs_given :: "view \<Rightarrow> bool" where
  "attrs_given v \<longleftrightarrow> v \<noteq> None \<and> 4 \<le> view_len v"

interpretation path_request: request_decoder "decode_path_request t" t pr_id "\<lambda>r. view_bytes (pr_path r)"
  "\<lambda>r. string_valid (pr_path r)" for t
  unfolding decode_path_request_def
  apply (rule request_decoderI, rule reads_all_cong, (rule reads_intros)+)
  subgoal for req_id x bs r by (cases x) auto
  done

interpretation handle_request: request_decoder "decode_handle_request t" t hr_id "\<lambda>r. view_bytes (hr_handle r)"
  "\<lambda>r. string_valid (hr_handle r)" for t
  unfolding decode_handle_request_def
  apply (rule request_decoderI, rule reads_all_cong, (rule reads_intros)+)
  subgoal for req_id x bs r by (cases x) auto
  done

interpretation open_request: request_decoder sftp_open_request_decode SSH_FXP_OPEN or_id
  "\<lambda>r. view_bytes (or_filename r) @ be32 (or_pflags r) @ view_data (or_attrs r)"
  "\<lambda>r. string_valid (or_filename r) \<and> attrs_given (or_attrs r)"
  unfolding sftp_open_request_decode_def
  apply (rule request_decoderI, rule reads_all_cong, (rule reads_intros)+)
  subgoal for req_id x bs r by (cases x) (auto simp: attrs_given_def)
  done

interpretation read_request: request_decoder sftp_read_request_decode SSH_FXP_READ rr_id
  "\<lambda>r. view_bytes (rr_handle r) @ be64 (rr_offset r) @ be32 (rr_len r)" "\<lambda>r. string_valid (rr_handle r)"
  unfolding sftp_read_request_decode_def
  apply (rule request_decoderI, rule reads_all_cong, (rule reads_intros)+)
  subgoal for req_id x bs r by (cases x) auto
  done

interpretation write_request: request_decoder sftp_write_request_decode SSH_FXP_WRITE wr_id
  "\<lambda>r. view_bytes (wr_handle r) @ be64 (wr_offset r) @ view_bytes (wr_data r)"
  "\<lambda>r. string_valid (wr_handle r) \<and> string_valid (wr_data r)"
  unfolding sftp_write_request_decode_def
  apply (rule request_decoderI, rule reads_all_cong, (rule reads_intros)+)
  subgoal for req_id x bs r by (cases x) auto
  done

interpretation mkdir_request: request_decoder sftp_mkdir_request_decode SSH_FXP_MKDIR mk_id
  "\<lambda>r. view_bytes (mk_path r) @ view_data (mk_attrs r)" "\<lambda>r. string_valid (mk_path r) \<and> attrs_given (mk_attrs r)"
  unfolding sftp_mkdir_request_decode_def
  apply (rule request_decoderI, rule reads_all_cong, (rule reads_intros)+)
  subgoal for req_id x bs r by (cases x) (auto simp: attrs_given_def)
  done

interpretation rename_request: request_decoder sftp_rename_request_decode SSH_FXP_RENAME rn_id
  "\<lambda>r. view_bytes (rn_old_path r) @ view_bytes (rn_new_path r)"
  "\<lambda>r. string_valid (rn_old_path r) \<and> string_valid (rn_new_path r)"
  unfolding sftp_rename_request_decode_def
  apply (rule request_decoderI, rule reads_all_cong, (rule reads_intros)+)
  subgoal for req_id x bs r by (cases x) auto
  done

interpretation extended_request: request_decoder sftp_extended_request_decode SSH_FXP_EXTENDED ex_id
  "\<lambda>r. view_bytes (ex_name r) @ ex_payload r" "\<lambda>r. string_valid (ex_name r)"
  unfolding sftp_extended_request_decode_def
  apply (rule request_decoderI, rule reads_all_cong, (rule reads_intros)+)
  subgoal for req_id x bs r by (cases x) auto
  done

section \<open>File attributes\<close>

text \<open>The fields that the flags announce, and what a structure looks like whose other fields are zero.\<close>

definition if_bytes :: "bool \<Rightarrow> u8 list \<Rightarrow> u8 list" where
  "if_bytes c bs = (if c then bs else [])"

definition has_flag :: "u32 \<Rightarrow> u32 \<Rightarrow> bool" where
  "has_flag flags f \<longleftrightarrow> flags AND f \<noteq> 0"

definition attrs_body :: "ssh_fs_attrs \<Rightarrow> u8 list" where
  "attrs_body a =
     if_bytes (has_flag (attr_flags a) SSH_FILEXFER_ATTR_SIZE) (be64 (attr_size a)) @
     if_bytes (has_flag (attr_flags a) SSH_FILEXFER_ATTR_UIDGID) (be32 (attr_uid a)) @
     if_bytes (has_flag (attr_flags a) SSH_FILEXFER_ATTR_UIDGID) (be32 (attr_gid a)) @
     if_bytes (has_flag (attr_flags a) SSH_FILEXFER_ATTR_PERMISSIONS) (be32 (attr_permissions a)) @
     if_bytes (has_flag (attr_flags a) SSH_FILEXFER_ATTR_ACMODTIME) (be32 (attr_atime a)) @
     if_bytes (has_flag (attr_flags a) SSH_FILEXFER_ATTR_ACMODTIME) (be32 (attr_mtime a))"

definition attrs_clean :: "ssh_fs_attrs \<Rightarrow> bool" where
  "attrs_clean a \<longleftrightarrow>
     (\<not> has_flag (attr_flags a) SSH_FILEXFER_ATTR_SIZE \<longrightarrow> attr_size a = 0) \<and>
     (\<not> has_flag (attr_flags a) SSH_FILEXFER_ATTR_UIDGID \<longrightarrow> attr_uid a = 0) \<and>
     (\<not> has_flag (attr_flags a) SSH_FILEXFER_ATTR_UIDGID \<longrightarrow> attr_gid a = 0) \<and>
     (\<not> has_flag (attr_flags a) SSH_FILEXFER_ATTR_PERMISSIONS \<longrightarrow> attr_permissions a = 0) \<and>
     (\<not> has_flag (attr_flags a) SSH_FILEXFER_ATTR_ACMODTIME \<longrightarrow> attr_atime a = 0) \<and>
     (\<not> has_flag (attr_flags a) SSH_FILEXFER_ATTR_ACMODTIME \<longrightarrow> attr_mtime a = 0)"

definition extension_bytes :: "(view \<times> view) list \<Rightarrow> u8 list" where
  "extension_bytes exts = concat (map (\<lambda>(name, data). view_bytes name @ view_bytes data) exts)"

definition extensions_valid :: "(view \<times> view) list \<Rightarrow> bool" where
  "extensions_valid exts \<longleftrightarrow> (\<forall>(name, data) \<in> set exts. string_valid name \<and> string_valid data)"

lemma reads_get_if [reads_intros]:
  "reads get (\<lambda>x bs r. bs = B x) \<Longrightarrow> reads (get_if c get) (\<lambda>x bs r. (\<not> c \<longrightarrow> x = 0) \<and> bs = if_bytes c (B x))"
  by (cases c) (auto simp: get_if_def if_bytes_def intro: reads_cong [OF reads_retA])

lemma extensions_Cons [simp]:
  "extension_bytes ((n, d) # es) = view_bytes n @ view_bytes d @ extension_bytes es"
  "extensions_valid ((n, d) # es) \<longleftrightarrow> string_valid n \<and> string_valid d \<and> extensions_valid es"
  by (simp_all add: extension_bytes_def extensions_valid_def)

lemma ex_extensions: "(\<exists>es. length es = Suc n \<and> Q es) \<longleftrightarrow> (\<exists>name data es. length es = n \<and> Q ((name, data) # es))"
  by (auto simp: length_Suc_conv)

lemma reads_skip_extensions: "reads (skip_extensions n)
    (\<lambda>x bs r. \<exists>exts. length exts = n \<and> extensions_valid exts \<and> bs = extension_bytes exts)"
proof (induction n)
  case 0
  show ?case
    unfolding skip_extensions.simps
    by (rule reads_cong, rule reads_retA) (auto simp: extensions_valid_def extension_bytes_def)
next
  case (Suc n)
  show ?case
    unfolding skip_extensions.simps
    apply (rule reads_cong, (rule reads_bindA reads_string Suc.IH)+)
    subgoal for x bs r
      unfolding ex_extensions extensions_Cons by blast
    done
qed

text \<open>\<open>attrs_wire w a exts bs\<close>: \<open>bs\<close> encodes the attributes \<open>a\<close> under the wire flags \<open>w\<close>, followed by extensions.\<close>

definition attrs_wire :: "u32 \<Rightarrow> ssh_fs_attrs \<Rightarrow> (view \<times> view) list \<Rightarrow> u8 list" where
  "attrs_wire w a exts = be32 w @ attrs_body a @
     if_bytes (has_flag w SSH_FILEXFER_ATTR_EXTENDED) (be32 (of_nat (length exts))) @ extension_bytes exts"

definition extensions_rel :: "bool \<Rightarrow> (view \<times> view) list \<Rightarrow> bool" where
  "extensions_rel extended exts \<longleftrightarrow> extensions_valid exts \<and> length exts \<le> UINT32_MAX \<and> (\<not> extended \<longrightarrow> exts = [])"

definition attrs_wire_valid :: "u32 \<Rightarrow> ssh_fs_attrs \<Rightarrow> (view \<times> view) list \<Rightarrow> bool" where
  "attrs_wire_valid w a exts \<longleftrightarrow> w AND NOT (SFTP_SUPPORTED_ATTR_FLAGS OR SSH_FILEXFER_ATTR_EXTENDED) = 0 \<and>
     attr_flags a = w AND SFTP_SUPPORTED_ATTR_FLAGS \<and> attrs_clean a \<and>
     extensions_rel (has_flag w SSH_FILEXFER_ATTR_EXTENDED) exts"

lemma reads_get_extensions: "reads (get_extensions extended) (\<lambda>x bs r. \<exists>exts. extensions_rel extended exts \<and>
    bs = if_bytes extended (be32 (of_nat (length exts))) @ extension_bytes exts)"
  unfolding get_extensions_def
proof (rule reads_cong, rule reads_bindA, rule reads_get_if, rule reads_u32, rule reads_skip_extensions)
  fix bs
  have "(\<exists>exts. extensions_rel extended exts \<and> bs = if_bytes extended (be32 (of_nat (length exts))) @ extension_bytes exts) \<longleftrightarrow>
      (\<exists>n :: u32. \<exists>exts. (\<not> extended \<longrightarrow> n = 0) \<and> length exts = unat n \<and> extensions_valid exts \<and>
         bs = if_bytes extended (be32 n) @ extension_bytes exts)" (is "?L \<longleftrightarrow> ?R")
  proof
    assume ?L
    then obtain exts where "extensions_rel extended exts" "bs = if_bytes extended (be32 (of_nat (length exts))) @ extension_bytes exts"
      by blast
    then show ?R
      by (intro exI [of _ "of_nat (length exts)"] exI [of _ exts]) (auto simp: extensions_rel_def unat_of_nat_u32)
  next
    assume ?R
    then obtain n :: u32 and exts where "\<not> extended \<longrightarrow> n = 0" "length exts = unat n" "extensions_valid exts"
        "bs = if_bytes extended (be32 n) @ extension_bytes exts"
      by blast
    then show ?L
      using unat_u32_less [of n] by (intro exI [of _ exts]) (auto simp: extensions_rel_def UINT32_MAX_def simp del: unat_u32_less)
  qed
  then show "(\<exists>x xs ys. ((\<not> extended \<longrightarrow> x = 0) \<and> xs = if_bytes extended (be32 x)) \<and>
      (\<exists>exts. length exts = unat x \<and> extensions_valid exts \<and> ys = extension_bytes exts) \<and> bs = xs @ ys) \<longleftrightarrow>
    (\<exists>exts. extensions_rel extended exts \<and> bs = if_bytes extended (be32 (of_nat (length exts))) @ extension_bytes exts)"
    by blast
qed

text \<open>\<open>reads_tuple\<close>: a decoder of a sequence of fields, whose values are collected in a tuple \<open>z\<close>. The value and
  the bytes are functions of the tuple, so the chain needs no case analysis.\<close>

definition reads_tuple ::
    "(ssh_buffer, 'y) act \<Rightarrow> ('z \<Rightarrow> bool) \<Rightarrow> ('z \<Rightarrow> 'y) \<Rightarrow> ('z \<Rightarrow> u8 list) \<Rightarrow> bool" where
  "reads_tuple m V Y B \<longleftrightarrow> reads_all m (\<lambda>y bs. \<exists>z. V z \<and> y = Y z \<and> bs = B z)"

lemma reads_tuple_end: "reads_tuple (thenA (at_endA e) (retA v)) (\<lambda>_ :: unit. True) (\<lambda>_. v) (\<lambda>_. [])"
  unfolding reads_tuple_def by (rule reads_all_cong, (rule reads_intros)+) auto

lemma reads_tuple_check: "reads_tuple m V Y B \<Longrightarrow> reads_tuple (thenA (ensureA c e) m) (\<lambda>z. c \<and> V z) Y B"
  unfolding reads_tuple_def reads_all_def by (rule reads_cong, rule reads_check, assumption) auto

lemma reads_tuple_bind:
  assumes "reads get (\<lambda>x bs r. bs = B x)" "\<And>x. reads_tuple (f x) (V' x) (Y' x) (B' x)"
  shows "reads_tuple (bindA get f) (\<lambda>(x, z). V' x z) (\<lambda>(x, z). Y' x z) (\<lambda>(x, z). B x @ B' x z)"
  unfolding reads_tuple_def reads_all_def
  by (rule reads_cong, rule reads_bindA, rule assms, rule assms [unfolded reads_tuple_def reads_all_def])
    (simp only: split_paired_Ex prod.case, blast)

lemma reads_tuple_bind_if:
  assumes "reads get (\<lambda>x bs r. bs = B x)" "\<And>x. reads_tuple (f x) (V' x) (Y' x) (B' x)"
  shows "reads_tuple (bindA (get_if c get) f) (\<lambda>(x, z). (\<not> c \<longrightarrow> x = 0) \<and> V' x z) (\<lambda>(x, z). Y' x z)
    (\<lambda>(x, z). if_bytes c (B x) @ B' x z)"
  unfolding reads_tuple_def reads_all_def
  by (rule reads_cong, rule reads_bindA, rule reads_get_if, rule assms, rule assms [unfolded reads_tuple_def reads_all_def])
    (simp only: split_paired_Ex prod.case, blast)

lemma reads_tuple_extensions:
  assumes "reads_tuple m V Y B"
  shows "reads_tuple (thenA (get_extensions extended) m) (\<lambda>(exts, z). extensions_rel extended exts \<and> V z) (\<lambda>(exts, z). Y z)
    (\<lambda>(exts, z). if_bytes extended (be32 (of_nat (length exts))) @ extension_bytes exts @ B z)"
  unfolding reads_tuple_def reads_all_def thenA_def
  by (rule reads_cong, rule reads_bindA, rule reads_get_extensions, rule assms [unfolded reads_tuple_def reads_all_def])
    (simp only: split_paired_Ex prod.case append_assoc [symmetric], blast)

lemma reads_tupleD:
  assumes "reads_tuple m V Y B" "\<And>y bs. (\<exists>z. V z \<and> y = Y z \<and> bs = B z) \<longleftrightarrow> S y bs"
  shows "reads_all m S"
  using assms by (simp add: reads_tuple_def)

lemmas reads_tuple_intros = reads_tuple_end reads_tuple_check reads_tuple_bind_if reads_tuple_extensions
  reads_tuple_bind reads_u32 reads_u64

lemma reads_attrs: "reads_all attrs_fields (\<lambda>a bs. \<exists>w exts. attrs_wire_valid w a exts \<and> bs = attrs_wire w a exts)"
  unfolding attrs_fields_def Let_def has_flag_def [symmetric]
  apply (rule reads_tupleD, (rule reads_tuple_intros)+)
  subgoal for a bs
    unfolding attrs_wire_valid_def attrs_wire_def attrs_clean_def attrs_body_def
    apply (rule iffI)
    subgoal by (elim exE conjE, simp only: split_paired_all prod.case, elim conjE) (intro exI conjI, assumption, auto)
    subgoal
      apply (elim exE conjE)
      subgoal for w exts
        by (rule exI [of _ "(w, attr_size a, attr_uid a, attr_gid a, attr_permissions a, attr_atime a, attr_mtime a, exts, ())"])
          simp
      done
    done
  done

lemma attrs_decode_iff:
  "sftp_attrs_decode (Some bytes) = Inr a \<longleftrightarrow> (\<exists>w exts. attrs_wire_valid w a exts \<and> bytes = attrs_wire w a exts)"
  using on_payload_iff [OF reads_attrs [unfolded reads_all_def]] by (simp add: sftp_attrs_decode_def)

text \<open>What \<open>put_attrs\<close> writes, and the structure that remains of the attributes: unsupported flags dropped, fields
  without their flag cleared.\<close>

definition attrs_known :: "ssh_fs_attrs \<Rightarrow> ssh_fs_attrs" where
  "attrs_known a = (let flags = attr_flags a AND SFTP_SUPPORTED_ATTR_FLAGS;
       keep = (\<lambda>f v. if has_flag flags f then v else 0) in
     \<lparr>attr_flags = flags, attr_size = (if has_flag flags SSH_FILEXFER_ATTR_SIZE then attr_size a else 0),
      attr_uid = keep SSH_FILEXFER_ATTR_UIDGID (attr_uid a), attr_gid = keep SSH_FILEXFER_ATTR_UIDGID (attr_gid a),
      attr_permissions = keep SSH_FILEXFER_ATTR_PERMISSIONS (attr_permissions a),
      attr_atime = keep SSH_FILEXFER_ATTR_ACMODTIME (attr_atime a), attr_mtime = keep SSH_FILEXFER_ATTR_ACMODTIME (attr_mtime a)\<rparr>)"

definition attrs_bytes :: "ssh_fs_attrs \<Rightarrow> u8 list" where
  "attrs_bytes a = be32 (attr_flags a AND SFTP_SUPPORTED_ATTR_FLAGS) @ attrs_body (attrs_known a)"

lemma buffer_writer_put_if [writer_intros]: "buffer_writer put bs \<Longrightarrow> buffer_writer (put_if c put) (if_bytes c bs)"
  by (simp add: put_if_def if_bytes_def writer_intros)

lemma put_attrs_writes [writer_intros]: "buffer_writer (put_attrs a) (attrs_bytes a)"
proof -
  let ?f = "attr_flags a AND SFTP_SUPPORTED_ATTR_FLAGS"
  have "buffer_writer (put_attrs a) (be32 ?f @
      if_bytes (?f AND SSH_FILEXFER_ATTR_SIZE \<noteq> 0) (be64 (attr_size a)) @
      if_bytes (?f AND SSH_FILEXFER_ATTR_UIDGID \<noteq> 0) (be32 (attr_uid a)) @
      if_bytes (?f AND SSH_FILEXFER_ATTR_UIDGID \<noteq> 0) (be32 (attr_gid a)) @
      if_bytes (?f AND SSH_FILEXFER_ATTR_PERMISSIONS \<noteq> 0) (be32 (attr_permissions a)) @
      if_bytes (?f AND SSH_FILEXFER_ATTR_ACMODTIME \<noteq> 0) (be32 (attr_atime a)) @
      if_bytes (?f AND SSH_FILEXFER_ATTR_ACMODTIME \<noteq> 0) (be32 (attr_mtime a)))"
    unfolding put_attrs_def Let_def by (intro writer_intros)
  then show ?thesis
    by (simp add: attrs_bytes_def attrs_body_def attrs_known_def Let_def has_flag_def if_bytes_def cong: if_cong)
qed

lemma attrs_known_wire: "attrs_wire_valid (attr_flags a AND SFTP_SUPPORTED_ATTR_FLAGS) (attrs_known a) []"
  "attrs_wire (attr_flags a AND SFTP_SUPPORTED_ATTR_FLAGS) (attrs_known a) [] = attrs_bytes a"
proof -
  have no: "attr_flags a AND SFTP_SUPPORTED_ATTR_FLAGS AND SSH_FILEXFER_ATTR_EXTENDED = 0"
    by (simp add: attr_flag_defs and.assoc)
  have "attr_flags a AND SFTP_SUPPORTED_ATTR_FLAGS AND NOT (SFTP_SUPPORTED_ATTR_FLAGS OR SSH_FILEXFER_ATTR_EXTENDED) = 0"
    by (simp add: attr_flag_defs and.assoc)
  then show "attrs_wire_valid (attr_flags a AND SFTP_SUPPORTED_ATTR_FLAGS) (attrs_known a) []"
    by (simp add: attrs_wire_valid_def attrs_clean_def attrs_known_def Let_def extensions_rel_def extensions_valid_def and.assoc)
  show "attrs_wire (attr_flags a AND SFTP_SUPPORTED_ATTR_FLAGS) (attrs_known a) [] = attrs_bytes a"
    using no by (simp add: attrs_wire_def attrs_bytes_def has_flag_def extension_bytes_def if_bytes_def and.assoc)
qed

section \<open>Replies\<close>

text \<open>What an encoder of a reply promises: it fails only for want of room, and otherwise leaves one framed packet.\<close>

locale reply_encoder =
  fixes encode :: "nat \<Rightarrow> ssh_err + u8 list" and t :: u8 and payload :: "u8 list"
  assumes encode_Inr: "encode cap = Inr reply \<longleftrightarrow>
      5 + length payload \<le> cap \<and> Suc (length payload) \<le> UINT32_MAX \<and> reply = packet_bytes t payload"
    and encode_Inl: "encode cap = Inl e \<Longrightarrow> e \<in> {SSH_ERR_BUFFER_TOO_SMALL, SSH_ERR_BUFFER_OVERFLOW}"
begin

lemma encode_fits: "5 + length payload \<le> cap \<Longrightarrow> Suc (length payload) \<le> UINT32_MAX \<Longrightarrow> encode cap = Inr (packet_bytes t payload)"
  by (simp add: encode_Inr)

lemma encode_framed:
  "encode cap = Inr reply \<Longrightarrow> length reply \<le> cap \<and> sftp_packet_wrap reply = Inr \<lparr>pk_type = t, pk_payload = payload\<rparr>"
  by (simp add: encode_Inr packet_wrap_iff)

end

lemma encode_packet_eq:
  assumes "buffer_writer put bs"
  shows "encode_packet put cap =
    (if cap < 4 then Inl SSH_ERR_BUFFER_TOO_SMALL
     else if cap < 4 + length bs \<or> length bs > UINT32_MAX then Inl SSH_ERR_BUFFER_OVERFLOW
     else Inr (be32 (of_nat (length bs)) @ bs))"
proof (cases "cap < 4")
  case True
  then show ?thesis
    by (simp add: encode_packet_def packet_payload_init_def)
next
  case False
  let ?b = "ssh_buffer_init (Some (replicate (cap - 4) 0)) (cap - 4)"
  have wf: "buf_wf ?b" and empty: "buf_room ?b = cap - 4" "buf_content ?b = []" "buf_len ?b = 0"
    by (simp_all add: buf_room_def ssh_buffer_init_def buf_wf_def buf_content_def)
  show ?thesis
  proof (cases "cap < 4 + length bs")
    case True
    with False empty have "buf_room ?b < length bs" by simp
    then obtain b' where "put ?b = (Inl SSH_ERR_BUFFER_OVERFLOW, b')"
      using buffer_writer.put_overflows [OF assms wf] by blast
    then show ?thesis
      using True False by (simp add: encode_packet_def packet_payload_init_def)
  next
    case fits: False
    with False empty have room: "length bs \<le> buf_room ?b" by simp
    then have "put ?b = (Inr (), buf_append ?b bs)"
      by (rule buffer_writer.put_fits [OF assms wf])
    moreover have "buf_content (buf_append ?b bs) = bs"
      using wf room empty by simp
    moreover have "buf_len (buf_append ?b bs) = length bs"
      using empty by (simp add: buf_append_def)
    ultimately show ?thesis
      using fits False by (simp add: encode_packet_def packet_payload_init_def packet_finish_def ssh_buffer_len_def write_u32_be_def)
  qed
qed

lemma reply_encoderI:
  assumes "buffer_writer put ([t] @ payload)"
  shows "reply_encoder (encode_packet put) t payload"
  by unfold_locales (auto simp: encode_packet_eq [OF assms] packet_bytes_def split: if_splits)

definition status_payload :: "u32 \<Rightarrow> u32 \<Rightarrow> u8 list \<Rightarrow> u8 list" where
  "status_payload req_id code message = be32 req_id @ be32 code @ string_bytes message @ string_bytes []"

definition name_payload :: "u32 \<Rightarrow> u8 list \<Rightarrow> u8 list \<Rightarrow> ssh_fs_attrs \<Rightarrow> u8 list" where
  "name_payload req_id filename longname attrs =
     be32 req_id @ be32 1 @ string_bytes filename @ string_bytes longname @ attrs_bytes attrs"

lemma status_encoder:
  assumes "length message \<le> UINT32_MAX"
  shows "reply_encoder (\<lambda>cap. sftp_status_encode cap req_id code (Some message) (Some [])) SSH_FXP_STATUS (status_payload req_id code message)"
  unfolding sftp_status_encode_def status_payload_def
  by (simp, rule reply_encoderI, intro encoder_intros) (use assms in simp_all)

lemma handle_encoder:
  "length handle \<le> UINT32_MAX \<Longrightarrow>
   reply_encoder (\<lambda>cap. sftp_handle_encode cap req_id handle) SSH_FXP_HANDLE (be32 req_id @ string_bytes handle)"
  unfolding sftp_handle_encode_def by (rule reply_encoderI, intro encoder_intros)

lemma data_encoder:
  "length data \<le> UINT32_MAX \<Longrightarrow>
   reply_encoder (\<lambda>cap. sftp_data_encode cap req_id data) SSH_FXP_DATA (be32 req_id @ string_bytes data)"
  unfolding sftp_data_encode_def by (rule reply_encoderI, intro encoder_intros)

lemma attrs_encoder:
  "reply_encoder (\<lambda>cap. sftp_attrs_encode cap req_id attrs) SSH_FXP_ATTRS (be32 req_id @ attrs_bytes attrs)"
  unfolding sftp_attrs_encode_def by (rule reply_encoderI, intro put_attrs_writes encoder_intros)

interpretation attrs_reply: reply_encoder "\<lambda>cap. sftp_attrs_encode cap req_id attrs" SSH_FXP_ATTRS
  "be32 req_id @ attrs_bytes attrs" for req_id attrs
  by (rule attrs_encoder)

lemma name_encoder:
  "length filename \<le> UINT32_MAX \<Longrightarrow> length longname \<le> UINT32_MAX \<Longrightarrow>
   reply_encoder (\<lambda>cap. sftp_name_one_attrs_encode cap req_id (Some filename) (Some longname) attrs) SSH_FXP_NAME
     (name_payload req_id filename longname attrs)"
  unfolding sftp_name_one_attrs_encode_def name_payload_def Let_def
  by (simp, rule reply_encoderI, intro put_attrs_writes encoder_intros) simp_all

section \<open>Properties\<close>

text \<open>The attribute decoder accepts exactly the encodings of attributes, with or without extensions, whose flags
  are known: the fields announced by the flags are read, the others are zero, and nothing is left over.\<close>

theorem attrs_decoder_exact:
  "sftp_attrs_decode (Some bytes) = Inr a \<longleftrightarrow>
     (\<exists>w exts. attrs_wire_valid w a exts \<and> bytes = attrs_wire w a exts)"
  by (rule attrs_decode_iff)

text \<open>Attributes written by \<^verbatim>\<open>put_attrs\<close> are read back by \<^verbatim>\<open>sftp_attrs_decode\<close>: the supported flags and the fields
  they announce survive.\<close>

theorem attrs_roundtrip:
  assumes "length storage = cap" "length (attrs_bytes a) \<le> cap"
  shows "\<exists>b. put_attrs a (ssh_buffer_init (Some storage) cap) = (Inr (), b) \<and>
    sftp_attrs_decode (Some (buf_content b)) = Inr (attrs_known a)"
proof -
  have "put_attrs a (ssh_buffer_init (Some storage) cap) = (Inr (), buf_append (ssh_buffer_init (Some storage) cap) (attrs_bytes a))"
    using buffer_writer.put_fits [OF put_attrs_writes, of "ssh_buffer_init (Some storage) cap" a] assms by simp
  moreover have "sftp_attrs_decode (Some (attrs_bytes a)) = Inr (attrs_known a)"
    using attrs_known_wire by (metis attrs_decode_iff)
  ultimately show ?thesis
    using assms by simp
qed

theorem attrs_roundtrip_witness:
  "\<exists>b. put_attrs (empty_attrs\<lparr>attr_flags := 5, attr_size := 7, attr_permissions := 420\<rparr>)
      (ssh_buffer_init (Some (replicate 20 0)) 20) = (Inr (), b) \<and>
    sftp_attrs_decode (Some (buf_content b)) =
      Inr (attrs_known (empty_attrs\<lparr>attr_flags := 5, attr_size := 7, attr_permissions := 420\<rparr>))"
proof -
  have "length (attrs_bytes (empty_attrs\<lparr>attr_flags := 5, attr_size := 7, attr_permissions := 420\<rparr>)) \<le> 20"
    by code_simp
  then show ?thesis
    using attrs_roundtrip [of "replicate 20 0" 20] by simp
qed

text \<open>The decoder of write requests accepts exactly the framed packets of type \<^verbatim>\<open>SSH_FXP_WRITE\<close> whose handle, offset
  and data fill the packet.\<close>

theorem write_request_decoder_exact:
  "sftp_write_request_decode packet = Inr x \<longleftrightarrow>
     string_valid (wr_handle x) \<and> string_valid (wr_data x) \<and>
     (let body = view_bytes (wr_handle x) @ be64 (wr_offset x) @ view_bytes (wr_data x)
      in 5 + length body \<le> UINT32_MAX \<and> packet = request_packet SSH_FXP_WRITE (wr_id x) body)"
  by (simp only: write_request.decode_iff Let_def conj_assoc)

end
