(* ===== verification/Sftp_Path.thy ===== *)
theory Sftp_Path
  imports Ssh_Buffer
begin

text \<open>
  Path normalization of the SFTP server: \<^verbatim>\<open>normalize_path_view\<close>, \<^verbatim>\<open>copy_path\<close> and \<^verbatim>\<open>make_realpath_reply_path\<close> of
  \<^verbatim>\<open>src/sftp/sftp_server.c\<close>. The output array is modelled by its used prefix \<^verbatim>\<open>out[0 .. out_pos)\<close>, the array
  \<^verbatim>\<open>segment_starts\<close> by the list of its used entries with the last one first. A specification resolves the
  list of segments of a path; the loop computes the rendering of that resolution.
\<close>

definition EMSSH_SFTP_MAX_PATH :: nat where "EMSSH_SFTP_MAX_PATH = 256"

definition slash :: u8 where "slash = 47"
definition dot :: u8 where "dot = 46"

text \<open>The characters that end the normalization with \<^verbatim>\<open>SSH_ERR_SECURITY\<close>: NUL, backslash and colon.\<close>

definition path_char_ok :: "u8 \<Rightarrow> bool" where
  "path_char_ok c \<longleftrightarrow> \<not> (c = 0 \<or> c = 92 \<or> c = 58)"

section \<open>The loop\<close>

lemma rest_shorter:
  assumes "dropWhile (\<lambda>c. c = slash) path \<noteq> []"
  shows "length (dropWhile (\<lambda>c. c \<noteq> slash) (dropWhile (\<lambda>c. c = slash) path)) < length path"
proof -
  obtain c cs where c: "dropWhile (\<lambda>c. c = slash) path = c # cs" "c \<noteq> slash"
    using assms hd_dropWhile [OF assms] by (cases "dropWhile (\<lambda>c. c = slash) path") auto
  then have "length (c # cs) \<le> length path"
    by (metis length_dropWhile_le)
  moreover have "length (dropWhile (\<lambda>c. c \<noteq> slash) cs) \<le> length cs"
    by (rule length_dropWhile_le)
  ultimately show ?thesis
    using c by simp
qed

text \<open>One round of the outer \<^verbatim>\<open>while\<close>, with the rest of the path from \<^verbatim>\<open>i\<close> on.\<close>

function normalize_loop :: "bool \<Rightarrow> u8 list \<Rightarrow> u8 list \<Rightarrow> nat list \<Rightarrow> bool \<Rightarrow> ssh_err + (u8 list \<times> bool)" where
  "normalize_loop absolute path out segment_starts has_segment =
    (let path = dropWhile (\<lambda>c. c = slash) path in
     if path = [] then Inr (out, has_segment)
     else
      let seg = takeWhile (\<lambda>c. c \<noteq> slash) path;
          path = dropWhile (\<lambda>c. c \<noteq> slash) path in
      if seg = [dot] then normalize_loop absolute path out segment_starts has_segment
      else if seg = [dot, dot] then
        (case segment_starts of
           start # starts \<Rightarrow> normalize_loop absolute path (take start out) starts (starts \<noteq> [])
         | [] \<Rightarrow> if absolute then normalize_loop absolute path out segment_starts has_segment
                else Inl SSH_ERR_SECURITY)
      else if \<not> list_all path_char_ok seg then Inl SSH_ERR_SECURITY
      else
        let segment_base = length out;
            separate = (has_segment \<or> absolute) \<and> out \<noteq> [] \<and> last out \<noteq> slash in
        if separate \<and> length out + 1 \<ge> EMSSH_SFTP_MAX_PATH then Inl SSH_ERR_BUFFER_TOO_SMALL
        else
          let out = (if separate then out @ [slash] else out) in
          if length out + length seg \<ge> EMSSH_SFTP_MAX_PATH then Inl SSH_ERR_BUFFER_TOO_SMALL
          else normalize_loop absolute path (out @ seg) (segment_base # segment_starts) True)"
  by pat_completeness auto
termination
  by (relation "measure (\<lambda>(_, path, _). length path)") (auto simp: rest_shorter)

definition normalize_path_view :: "view \<Rightarrow> ssh_err + u8 list" where
  "normalize_path_view path = (case path of
     None \<Rightarrow> Inl SSH_ERR_INVALID_ARGUMENT
   | Some [] \<Rightarrow> Inl SSH_ERR_INVALID_ARGUMENT
   | Some (c # cs) \<Rightarrow>
      let absolute = (c = slash) in
      if absolute \<and> 0 + 1 \<ge> EMSSH_SFTP_MAX_PATH then Inl SSH_ERR_BUFFER_TOO_SMALL
      else bindS (normalize_loop absolute (c # cs) (if absolute then [slash] else []) [] False) (\<lambda>(out, has_segment).
        Inr (if \<not> has_segment then (if absolute then [slash] else [dot]) else out)))"

definition copy_path :: "view \<Rightarrow> ssh_err + u8 list" where
  "copy_path path = normalize_path_view path"

definition make_realpath_reply_path :: "u8 list \<Rightarrow> ssh_err + u8 list" where
  "make_realpath_reply_path normalized_path =
    (if normalized_path \<noteq> [] \<and> hd normalized_path = slash then
       (if length normalized_path + 1 > EMSSH_SFTP_MAX_PATH then Inl SSH_ERR_BUFFER_TOO_SMALL
        else Inr normalized_path)
     else if normalized_path = [dot] then Inr [slash]
     else if length normalized_path + 2 > EMSSH_SFTP_MAX_PATH then Inl SSH_ERR_BUFFER_TOO_SMALL
     else Inr (slash # normalized_path))"

section \<open>Specification\<close>

text \<open>The segments of a path, and what they resolve to: a stack with the last segment on top.\<close>

function segments :: "u8 list \<Rightarrow> u8 list list" where
  "segments path = (let path = dropWhile (\<lambda>c. c = slash) path in
     if path = [] then []
     else takeWhile (\<lambda>c. c \<noteq> slash) path # segments (dropWhile (\<lambda>c. c \<noteq> slash) path))"
  by pat_completeness auto
termination
  by (relation "measure length") (auto simp: rest_shorter)

declare segments.simps [simp del] normalize_loop.simps [simp del]

text \<open>The path that a stack of segments stands for.\<close>

fun rendered :: "bool \<Rightarrow> u8 list list \<Rightarrow> u8 list" where
  "rendered absolute [] = (if absolute then [slash] else [])"
| "rendered absolute (s # st) = rendered absolute st @ (if st \<noteq> [] then [slash] else []) @ s"

fun resolve :: "bool \<Rightarrow> u8 list list \<Rightarrow> u8 list list \<Rightarrow> ssh_err + u8 list list" where
  "resolve absolute st [] = Inr st"
| "resolve absolute st (s # ss) =
    (if s = [dot] then resolve absolute st ss
     else if s = [dot, dot] then
       (case st of _ # st' \<Rightarrow> resolve absolute st' ss
        | [] \<Rightarrow> if absolute then resolve absolute [] ss else Inl SSH_ERR_SECURITY)
     else if \<not> list_all path_char_ok s then Inl SSH_ERR_SECURITY
     else if length (rendered absolute (s # st)) \<ge> EMSSH_SFTP_MAX_PATH then Inl SSH_ERR_BUFFER_TOO_SMALL
     else resolve absolute (s # st) ss)"

definition render :: "bool \<Rightarrow> u8 list list \<Rightarrow> u8 list" where
  "render absolute st = (if st = [] then (if absolute then [slash] else [dot]) else rendered absolute st)"

text \<open>A proper segment: not empty, no separator, not \<^verbatim>\<open>.\<close> or \<^verbatim>\<open>..\<close>, no forbidden character.\<close>

definition segment_ok :: "u8 list \<Rightarrow> bool" where
  "segment_ok s \<longleftrightarrow> s \<noteq> [] \<and> slash \<notin> set s \<and> s \<noteq> [dot] \<and> s \<noteq> [dot, dot] \<and> list_all path_char_ok s"

fun starts_of :: "bool \<Rightarrow> u8 list list \<Rightarrow> nat list" where
  "starts_of absolute [] = []"
| "starts_of absolute (s # st) = length (rendered absolute st) # starts_of absolute st"

section \<open>The loop computes the resolution\<close>

lemma segments_cases:
  assumes "dropWhile (\<lambda>c. c = slash) path = p"
  shows "segments path = (if p = [] then []
    else takeWhile (\<lambda>c. c \<noteq> slash) p # segments (dropWhile (\<lambda>c. c \<noteq> slash) p))"
  using assms by (subst segments.simps) (simp add: Let_def)

lemma starts_of_eq_Nil [simp]: "starts_of absolute st = [] \<longleftrightarrow> st = []"
  by (cases st) simp_all

lemma take_rendered: "take (length (rendered absolute st)) (rendered absolute (s # st)) = rendered absolute st"
  by simp

lemma rendered_ends: 
  assumes "\<forall>s \<in> set st. segment_ok s"
  shows "rendered absolute st \<noteq> [] \<and> last (rendered absolute st) \<noteq> slash \<longleftrightarrow> st \<noteq> []"
proof (cases st)
  case (Cons s st')
  with assms have "s \<noteq> []" "last s \<noteq> slash"
    using last_in_set by (fastforce simp: segment_ok_def)+
  then show ?thesis
    using Cons by auto
qed simp

lemma segment_of_path:
  assumes "dropWhile (\<lambda>c. c = slash) path = p" "p \<noteq> []"
  shows "takeWhile (\<lambda>c. c \<noteq> slash) p \<noteq> []" "slash \<notin> set (takeWhile (\<lambda>c. c \<noteq> slash) p)"
proof -
  have "hd p \<noteq> slash"
    using assms hd_dropWhile by blast
  then show "takeWhile (\<lambda>c. c \<noteq> slash) p \<noteq> []"
    using assms(2) by (cases p) auto
  show "slash \<notin> set (takeWhile (\<lambda>c. c \<noteq> slash) p)"
    using set_takeWhileD by fastforce
qed

lemma normalize_loop_resolve:
  assumes "\<forall>s \<in> set st. segment_ok s"
  shows "normalize_loop absolute path (rendered absolute st) (starts_of absolute st) (st \<noteq> []) =
    bindS (resolve absolute st (segments path)) (\<lambda>st. Inr (rendered absolute st, st \<noteq> []))"
  using assms
proof (induction "length path" arbitrary: path st rule: less_induct)
  case less
  define p where "p = dropWhile (\<lambda>c. c = slash) path"
  show ?case
  proof (cases "p = []")
    case True
    then show ?thesis
      by (subst normalize_loop.simps) (simp add: segments_cases [OF p_def [symmetric]] p_def [symmetric])
  next
    case False
    define seg where "seg = takeWhile (\<lambda>c. c \<noteq> slash) p"
    define rest where "rest = dropWhile (\<lambda>c. c \<noteq> slash) p"
    have rest: "length rest < length path"
      using rest_shorter False by (simp add: p_def rest_def)
    note IH = less.hyps [OF rest]
    have segs: "segments path = seg # segments rest"
      using False by (simp add: segments_cases [OF p_def [symmetric]] seg_def rest_def)
    have seg: "seg \<noteq> []" "slash \<notin> set seg"
      using segment_of_path [OF p_def [symmetric] False] by (simp_all add: seg_def)
    let ?out = "rendered absolute st"
    have sep: "(st \<noteq> [] \<or> absolute) \<and> ?out \<noteq> [] \<and> last ?out \<noteq> slash \<longleftrightarrow> st \<noteq> []"
      using rendered_ends [OF less.prems] by blast
    have step: "normalize_loop absolute path ?out (starts_of absolute st) (st \<noteq> []) =
      (if seg = [dot] then normalize_loop absolute rest ?out (starts_of absolute st) (st \<noteq> [])
       else if seg = [dot, dot] then
         (case starts_of absolute st of start # starts \<Rightarrow> normalize_loop absolute rest (take start ?out) starts (starts \<noteq> [])
          | [] \<Rightarrow> if absolute then normalize_loop absolute rest ?out (starts_of absolute st) (st \<noteq> []) else Inl SSH_ERR_SECURITY)
       else if \<not> list_all path_char_ok seg then Inl SSH_ERR_SECURITY
       else if length (rendered absolute (seg # st)) \<ge> EMSSH_SFTP_MAX_PATH then Inl SSH_ERR_BUFFER_TOO_SMALL
       else normalize_loop absolute rest (rendered absolute (seg # st)) (starts_of absolute (seg # st)) True)"
      apply (subst normalize_loop.simps)
      apply (simp only: Let_def p_def [symmetric] seg_def [symmetric] rest_def [symmetric] sep False if_False)
      apply (cases "st = []"; simp)
      done
    consider "seg = [dot]" | "seg = [dot, dot]" | "seg \<noteq> [dot]" "seg \<noteq> [dot, dot]"
      by blast
    then show ?thesis
    proof cases
      case 1
      then show ?thesis
        unfolding step using IH [OF less.prems] by (simp add: segs)
    next
      case 2
      then show ?thesis
        unfolding step using IH [of "[]"] IH [of "tl st"] less.prems
        by (cases st; cases absolute) (simp_all add: segs)
    next
      case 3
      then show ?thesis
        unfolding step using IH [of "seg # st"] less.prems seg by (simp add: segs segment_ok_def)
    qed
  qed
qed

text \<open>So the whole function is the rendering of the resolution, errors included.\<close>

lemma normalize_eq:
  "normalize_path_view (Some p) = (if p = [] then Inl SSH_ERR_INVALID_ARGUMENT
    else bindS (resolve (hd p = slash) [] (segments p)) (\<lambda>st. Inr (render (hd p = slash) st)))"
proof (cases p)
  case (Cons c cs)
  have "normalize_loop (c = slash) p (if c = slash then [slash] else []) [] False =
      bindS (resolve (c = slash) [] (segments p)) (\<lambda>st. Inr (rendered (c = slash) st, st \<noteq> []))"
    using normalize_loop_resolve [of "[]" "c = slash" p] by simp
  then show ?thesis
    using Cons by (cases "resolve (c = slash) [] (segments p)")
      (simp_all add: normalize_path_view_def Let_def render_def EMSSH_SFTP_MAX_PATH_def)
qed (simp add: normalize_path_view_def)

section \<open>Normal paths\<close>

definition path_normal :: "u8 list \<Rightarrow> bool" where
  "path_normal p \<longleftrightarrow> p \<noteq> [] \<and> length p < EMSSH_SFTP_MAX_PATH \<and>
     (p = [dot] \<or> list_all segment_ok (segments p) \<and> p = render (hd p = slash) (rev (segments p)))"

lemma segments_parts: "s \<in> set (segments p) \<Longrightarrow> s \<noteq> [] \<and> slash \<notin> set s"
proof (induction p rule: segments.induct)
  case (1 path)
  define p where "p = dropWhile (\<lambda>c. c = slash) path"
  show ?case
  proof (cases "p = []")
    case False
    then show ?thesis
      using 1 segment_of_path [OF p_def [symmetric] False]
      by (auto simp: segments_cases [OF p_def [symmetric]] p_def [symmetric])
  qed (use 1 in \<open>simp add: segments_cases [OF p_def [symmetric]]\<close>)
qed

text \<open>The resolution keeps a stack of proper segments whose path fits the array.\<close>

definition stack_ok :: "bool \<Rightarrow> u8 list list \<Rightarrow> bool" where
  "stack_ok absolute st \<longleftrightarrow> list_all segment_ok st \<and> length (rendered absolute st) < EMSSH_SFTP_MAX_PATH"

lemma stack_ok_Nil: "stack_ok absolute []"
  by (simp add: stack_ok_def EMSSH_SFTP_MAX_PATH_def)

lemma stack_ok_tl: "stack_ok absolute (s # st) \<Longrightarrow> stack_ok absolute st"
  by (simp add: stack_ok_def)

lemma stack_ok_push:
  assumes "stack_ok absolute st" "segment_ok s" "length (rendered absolute (s # st)) < EMSSH_SFTP_MAX_PATH"
  shows "stack_ok absolute (s # st)"
  using assms by (simp add: stack_ok_def)

lemma resolve_stack:
  assumes "resolve absolute st ss = Inr st'" "\<And>s. s \<in> set ss \<Longrightarrow> s \<noteq> [] \<and> slash \<notin> set s" "stack_ok absolute st"
  shows "stack_ok absolute st'"
  using assms
proof (induction ss arbitrary: st)
  case (Cons s ss)
  have IH: "stack_ok absolute st'" if "resolve absolute st ss = Inr st'" "stack_ok absolute st" for st
    using that Cons.prems(2) by (intro Cons.IH [of st]) simp_all
  have parts: "s \<noteq> []" "slash \<notin> set s"
    using Cons.prems(2) [of s] by simp_all
  consider "s = [dot]" | "s = [dot, dot]" | "s \<noteq> [dot]" "s \<noteq> [dot, dot]"
    by blast
  then show ?case
  proof cases
    case 1
    then show ?thesis
      using IH [of st] Cons.prems(1,3) by simp
  next
    case 2
    show ?thesis
    proof (cases st)
      case Nil
      with 2 have "resolve absolute [] ss = Inr st'"
        using Cons.prems(1) by (cases absolute) simp_all
      then show ?thesis
        by (rule IH [OF _ stack_ok_Nil])
    next
      case (Cons t st0)
      with 2 have "resolve absolute st0 ss = Inr st'"
        using Cons.prems(1) by simp
      then show ?thesis
        using IH [OF _ stack_ok_tl [of absolute t st0]] Cons.prems(3) Cons by simp
    qed
  next
    case 3
    then have "list_all path_char_ok s" "length (rendered absolute (s # st)) < EMSSH_SFTP_MAX_PATH"
      "resolve absolute (s # st) ss = Inr st'"
      using Cons.prems(1) by (simp_all del: rendered.simps split: if_splits)
    then show ?thesis
      using IH [of "s # st"] stack_ok_push [OF Cons.prems(3), of s] 3 parts by (simp add: segment_ok_def del: rendered.simps)
  qed
qed simp

lemma segments_append: "segments (p @ slash # q) = segments p @ segments q"
proof (induction p rule: segments.induct)
  case (1 path)
  define p where "p = dropWhile (\<lambda>c. c = slash) path"
  show ?case
  proof (cases "p = []")
    case True
    then have "dropWhile (\<lambda>c. c = slash) (path @ slash # q) = dropWhile (\<lambda>c. c = slash) q"
      by (simp add: p_def dropWhile_append)
    then show ?thesis
      using True by (subst (1 3) segments.simps) (simp add: segments_cases [OF p_def [symmetric]])
  next
    case False
    then have "dropWhile (\<lambda>c. c = slash) (path @ slash # q) = p @ slash # q"
      by (auto simp: p_def dropWhile_append)
    moreover have "takeWhile (\<lambda>c. c \<noteq> slash) (p @ slash # q) = takeWhile (\<lambda>c. c \<noteq> slash) p"
      "dropWhile (\<lambda>c. c \<noteq> slash) (p @ slash # q) = dropWhile (\<lambda>c. c \<noteq> slash) p @ slash # q"
      by (induction p) auto
    ultimately show ?thesis
      using 1 False by (simp add: segments_cases p_def [symmetric])
  qed
qed

lemma segments_Nil [simp]: "segments [] = []"
  by (subst segments.simps) simp

lemma segments_single:
  assumes "s \<noteq> []" "slash \<notin> set s"
  shows "segments s = [s]"
proof -
  have "dropWhile (\<lambda>c. c = slash) s = s" "takeWhile (\<lambda>c. c \<noteq> slash) s = s" "dropWhile (\<lambda>c. c \<noteq> slash) s = []"
    using assms by (cases s; auto simp: takeWhile_eq_all_conv)+
  then show ?thesis
    using assms segments_cases [of s s] by (simp del: dropWhile_eq_Nil_conv takeWhile_eq_all_conv)
qed

lemma segments_rendered:
  assumes "list_all segment_ok st"
  shows "segments (rendered absolute st) = rev st"
  using assms
proof (induction st)
  case Nil
  then show ?case
    using segments_append [of "[]" "[]"] by simp
next
  case (Cons s st)
  then have s: "segments s = [s]"
    by (simp add: segment_ok_def segments_single)
  show ?case
  proof (cases "st = []")
    case True
    then show ?thesis
      using s segments_append [of "[]" s] by simp
  next
    case False
    then show ?thesis
      using Cons s segments_append [of "rendered absolute st" s] by simp
  qed
qed

lemma hd_rendered:
  assumes "list_all segment_ok st" "st \<noteq> [] \<or> absolute"
  shows "rendered absolute st \<noteq> [] \<and> (hd (rendered absolute st) = slash \<longleftrightarrow> absolute)"
  using assms
proof (induction st)
  case (Cons s st)
  then have "s \<noteq> []" "hd s \<noteq> slash"
    using hd_in_set by (fastforce simp: segment_ok_def)+
  then show ?case
    using Cons by (cases "st = []") (auto simp: hd_append)
qed simp

lemma hd_render: "stack_ok absolute st \<Longrightarrow> render absolute st \<noteq> [] \<and> (hd (render absolute st) = slash \<longleftrightarrow> absolute)"
  using hd_rendered [of st absolute] by (auto simp: render_def stack_ok_def slash_def dot_def)

lemma segments_render:
  assumes "stack_ok absolute st" "st \<noteq> [] \<or> absolute"
  shows "segments (render absolute st) = rev st"
  using assms segments_rendered [of st absolute] segments_rendered [of "[]" True]
  by (auto simp: render_def stack_ok_def)

lemma path_normal_render:
  assumes "stack_ok absolute st"
  shows "path_normal (render absolute st)"
proof (cases "st \<noteq> [] \<or> absolute")
  case True
  then show ?thesis
    using assms hd_render [OF assms] segments_render [OF assms True]
    by (auto simp: path_normal_def stack_ok_def render_def list_all_iff EMSSH_SFTP_MAX_PATH_def)
next
  case False
  then show ?thesis
    by (simp add: path_normal_def render_def EMSSH_SFTP_MAX_PATH_def)
qed

text \<open>A normal path is the rendering of a stack, and resolving its segments gives the stack back.\<close>

lemma path_normalE:
  assumes "path_normal p"
  obtains "p = [dot]" | st where "stack_ok (hd p = slash) st" "p = render (hd p = slash) st" "segments p = rev st"
proof (cases "p = [dot]")
  case False
  then have p: "list_all segment_ok (segments p)" "p = render (hd p = slash) (rev (segments p))" "length p < EMSSH_SFTP_MAX_PATH"
    using assms by (simp_all add: path_normal_def)
  have "length (rendered (hd p = slash) (rev (segments p))) < EMSSH_SFTP_MAX_PATH"
    using p(2,3) by (cases "segments p = []") (auto simp: render_def EMSSH_SFTP_MAX_PATH_def)
  then have "stack_ok (hd p = slash) (rev (segments p))"
    using p(1) by (simp add: stack_ok_def list_all_iff)
  then show ?thesis
    using that(2) p(2) by simp
qed (use that in simp)

lemma stack_ok_suffix: "stack_ok absolute (st @ st') \<Longrightarrow> stack_ok absolute st'"
  by (induction st) (auto dest: stack_ok_tl)

lemma resolve_stack_ok:
  assumes "stack_ok absolute (rev ss @ st)"
  shows "resolve absolute st ss = Inr (rev ss @ st)"
  using assms
proof (induction ss arbitrary: st)
  case (Cons s ss)
  then have "stack_ok absolute (s # st)"
    using stack_ok_suffix [of absolute "rev ss" "s # st"] by simp
  then show ?case
    using Cons by (simp add: stack_ok_def segment_ok_def del: rendered.simps)
qed simp

lemma normalize_normal:
  assumes "path_normal p"
  shows "normalize_path_view (Some p) = Inr p"
  using assms
proof (cases rule: path_normalE)
  case 1
  then show ?thesis
    by (simp add: normalize_eq segments_single slash_def dot_def render_def)
next
  case (2 st)
  then have "resolve (hd p = slash) [] (segments p) = Inr st"
    using resolve_stack_ok [of "hd p = slash" "rev st" "[]"] by simp
  then show ?thesis
    using 2 assms by (simp add: normalize_eq path_normal_def)
qed

lemma normalize_sound:
  assumes "normalize_path_view (Some p) = Inr out"
  shows "path_normal out \<and> (hd out = slash \<longleftrightarrow> hd p = slash)"
proof -
  obtain st where st: "resolve (hd p = slash) [] (segments p) = Inr st" "out = render (hd p = slash) st"
    using assms by (cases "resolve (hd p = slash) [] (segments p)") (auto simp: normalize_eq split: if_splits)
  have "stack_ok (hd p = slash) st"
    using st(1) segments_parts stack_ok_Nil by (rule resolve_stack)
  then show ?thesis
    using st(2) path_normal_render hd_render by simp
qed

lemma copy_path_sound: "copy_path path = Inr out \<Longrightarrow> path_normal out"
  using normalize_sound by (cases path) (auto simp: copy_path_def normalize_path_view_def)

section \<open>Properties\<close>

text \<open>C25. The byte loop of normalize_path_view, with its table of segment starts, computes exactly the resolution of
  the path's segments: dots are dropped, a double dot pops the last name, at the root of an absolute path it stays
  there, in a relative path it is a security error, and the first segment with a forbidden character or one that
  no longer fits is the error returned.\<close>

theorem normalize_path_refines_resolution:
  "normalize_path_view (Some p) = (if p = [] then Inl SSH_ERR_INVALID_ARGUMENT
    else bindS (resolve (hd p = slash) [] (segments p)) (\<lambda>st. Inr (render (hd p = slash) st)))"
  by (rule normalize_eq)

text \<open>Every path the normalization returns is normal: it fits the array with its terminator, is made of
  nonempty names without separators, dots, NUL, backslash or colon, and is absolute exactly when the input was.
  Normalizing it again changes nothing.\<close>

theorem normalized_path_is_normal:
  assumes "normalize_path_view (Some p) = Inr out"
  shows "path_normal out \<and> (hd out = slash \<longleftrightarrow> hd p = slash) \<and> normalize_path_view (Some out) = Inr out"
  using normalize_sound [OF assms] normalize_normal by blast

theorem normalized_path_is_normal_witness:
  "normalize_path_view (Some [slash, 97, slash, slash, dot, slash, 98, slash, dot, dot, slash, 99]) = Inr [slash, 97, slash, 99] \<and>
   path_normal [slash, 97, slash, 99]"
proof -
  have *: "normalize_path_view (Some [slash, 97, slash, slash, dot, slash, 98, slash, dot, dot, slash, 99]) = Inr [slash, 97, slash, 99]"
    by code_simp
  show ?thesis
    using * normalized_path_is_normal [OF *] by simp
qed

lemma resolve_balance:
  assumes "resolve False st ss = Inr st'"
  shows "count_list (take n ss) [dot, dot] \<le> length st + length (filter (\<lambda>s. s \<noteq> [dot] \<and> s \<noteq> [dot, dot]) (take n ss))"
  using assms
proof (induction ss arbitrary: st n)
  case (Cons s ss)
  show ?case
  proof (cases n)
    case (Suc m)
    note IH = Cons.IH [of _ m]
    consider "s = [dot]" | "s = [dot, dot]" | "s \<noteq> [dot]" "s \<noteq> [dot, dot]"
      by blast
    then show ?thesis
    proof cases
      case 1
      then show ?thesis
        using Suc IH [of st] Cons.prems by simp
    next
      case 2
      then obtain t st0 where "st = t # st0" "resolve False st0 ss = Inr st'"
        using Cons.prems by (cases st) simp_all
      then show ?thesis
        using Suc 2 IH [of st0] by simp
    next
      case 3
      then have "resolve False (s # st) ss = Inr st'"
        using Cons.prems by (simp del: rendered.simps split: if_splits)
      then show ?thesis
        using Suc 3 IH [of "s # st"] by simp
    qed
  qed simp
qed simp

text \<open>A relative path that the server accepts never climbs above its base: in every prefix of its segments
  there are at most as many double dots as names before them.\<close>

theorem relative_path_never_escapes:
  assumes "normalize_path_view (Some p) = Inr out" "hd p \<noteq> slash"
  shows "count_list (take n (segments p)) [dot, dot] \<le>
    length (filter (\<lambda>s. s \<noteq> [dot] \<and> s \<noteq> [dot, dot]) (take n (segments p)))"
proof -
  obtain st where "resolve False [] (segments p) = Inr st"
    using assms by (cases "resolve False [] (segments p)") (auto simp: normalize_eq split: if_splits)
  from resolve_balance [OF this] show ?thesis
    by simp
qed

theorem relative_path_never_escapes_witness:
  "normalize_path_view (Some [97, slash, dot, dot, slash, 98]) = Inr [98] \<and>
   count_list (take 2 (segments [97, slash, dot, dot, slash, 98])) [dot, dot] \<le>
    length (filter (\<lambda>s. s \<noteq> [dot] \<and> s \<noteq> [dot, dot]) (take 2 (segments [97, slash, dot, dot, slash, 98])))"
proof -
  have *: "normalize_path_view (Some [97, slash, dot, dot, slash, 98]) = Inr [98]" "hd [97, slash, dot, dot, slash, 98] \<noteq> slash"
    by code_simp+
  show ?thesis
    using *(1) relative_path_never_escapes [OF *, of 2] by blast
qed

lemma rendered_absolute: "st \<noteq> [] \<Longrightarrow> rendered True st = slash # rendered False st"
proof (induction st)
  case (Cons s st)
  then show ?case by (cases "st = []") simp_all
qed simp

lemma realpath_reply_normal:
  assumes "path_normal p" "hd p \<noteq> slash" "length p \<noteq> 255"
  shows "path_normal (if p = [dot] then [slash] else slash # p)"
  using assms(1)
proof (cases rule: path_normalE)
  case 1
  then show ?thesis
    using path_normal_render [OF stack_ok_Nil [of True]] by (simp add: render_def)
next
  case (2 st)
  show ?thesis
  proof (cases "st = []")
    case True
    then show ?thesis
      using 2 assms(2) path_normal_render [OF stack_ok_Nil [of True]] by (simp add: render_def)
  next
    case False
    then have "stack_ok True st" and p: "render True st = slash # p"
      using 2 assms rendered_absolute [OF False] by (auto simp: stack_ok_def render_def EMSSH_SFTP_MAX_PATH_def)
    moreover have "p \<noteq> [dot]"
      using 2 False assms(2) segments_single [of "[dot]"] by (auto simp: stack_ok_def segment_ok_def slash_def dot_def)
    ultimately show ?thesis
      using path_normal_render [of True st] by simp
  qed
qed

text \<open>A realpath reply for a normalized path is that path made absolute and is normal again; the only path for
  which there is no room is a relative one of the full 255 bytes.\<close>

theorem realpath_reply_is_absolute:
  assumes "path_normal p"
  shows "make_realpath_reply_path p =
      (if hd p \<noteq> slash \<and> length p = 255 then Inl SSH_ERR_BUFFER_TOO_SMALL
       else Inr (if hd p = slash then p else if p = [dot] then [slash] else slash # p))
    \<and> (\<forall>r. make_realpath_reply_path p = Inr r \<longrightarrow> hd r = slash \<and> path_normal r)"
proof -
  have "p \<noteq> []" "length p < 256"
    using assms by (simp_all add: path_normal_def EMSSH_SFTP_MAX_PATH_def)
  then have eq: "make_realpath_reply_path p = (if hd p \<noteq> slash \<and> length p = 255 then Inl SSH_ERR_BUFFER_TOO_SMALL
       else Inr (if hd p = slash then p else if p = [dot] then [slash] else slash # p))"
    by (auto simp: make_realpath_reply_path_def EMSSH_SFTP_MAX_PATH_def)
  show ?thesis
    using assms realpath_reply_normal [OF assms] by (auto simp: eq split: if_splits)
qed

theorem realpath_reply_is_absolute_witness:
  "path_normal [97, slash, 98] \<and> make_realpath_reply_path [97, slash, 98] = Inr [slash, 97, slash, 98]"
proof -
  have *: "path_normal [97, slash, 98]"
    by code_simp
  show ?thesis
    using * realpath_reply_is_absolute [OF *] by (simp add: slash_def dot_def)
qed

end
