(* ===== verification/Ssh_Packet.thy ===== *)
theory Ssh_Packet
  imports Ssh_Buffer "HOL-Library.While_Combinator"
begin

text \<open>
  The binary packet protocol: \<^verbatim>\<open>src/core/ssh_packet.c\<close>. Plain packets (length, padding length, payload,
  padding) and protected ones (MAC over the plain packet, then in-place encryption, with the
  counter block and the sequence number advanced per packet).

  The cipher, the MAC and the random generator are function pointers of the C interface structures
  \<^verbatim>\<open>ssh_crypto_api_t\<close> and \<^verbatim>\<open>ssh_rng_api_t\<close>; they are fields of records here, so every definition is
  parametric in them. A key, an IV and a MAC with its length field is the list of its bytes.
\<close>

definition SSH_PACKET_MIN_PADDING :: nat where "SSH_PACKET_MIN_PADDING = 4"
definition SSH_PACKET_MIN_BLOCK_SIZE :: nat where "SSH_PACKET_MIN_BLOCK_SIZE = 8"
definition EMSSH_MAX_PAYLOAD_SIZE :: nat where "EMSSH_MAX_PAYLOAD_SIZE = 32768"
definition EMSSH_MAX_PACKET_SIZE :: nat where "EMSSH_MAX_PACKET_SIZE = 35000"
definition EMSSH_MAX_CIPHER_KEY :: nat where "EMSSH_MAX_CIPHER_KEY = 64"
definition EMSSH_MAX_CIPHER_IV :: nat where "EMSSH_MAX_CIPHER_IV = 32"
definition EMSSH_MAX_MAC_KEY :: nat where "EMSSH_MAX_MAC_KEY = 64"
definition EMSSH_MAX_MAC :: nat where "EMSSH_MAX_MAC = 64"

lemmas packet_limits = SSH_PACKET_MIN_PADDING_def SSH_PACKET_MIN_BLOCK_SIZE_def EMSSH_MAX_PAYLOAD_SIZE_def
  EMSSH_MAX_PACKET_SIZE_def EMSSH_MAX_CIPHER_KEY_def EMSSH_MAX_CIPHER_IV_def EMSSH_MAX_MAC_KEY_def
  EMSSH_MAX_MAC_def

datatype ssh_cipher_direction = SSH_CIPHER_ENCRYPT | SSH_CIPHER_DECRYPT

text \<open>The callbacks of the crypto interface that packets and authentication use; \<open>None\<close> is a NULL
  function pointer. \<^verbatim>\<open>cipher_crypt\<close> returns its status and the data it worked on in place.\<close>

record ssh_crypto_api =
  cipher_crypt :: "(view \<Rightarrow> u8 list \<Rightarrow> u8 list \<Rightarrow> u32 \<Rightarrow> ssh_cipher_direction \<Rightarrow> u8 list \<Rightarrow>
    (ssh_err + unit) \<times> u8 list) option"
  mac_compute :: "(view \<Rightarrow> u8 list \<Rightarrow> u32 \<Rightarrow> u8 list \<Rightarrow> ssh_err + u8 list) option"
  publickey_verify :: "(view \<Rightarrow> u8 list \<Rightarrow> u8 list \<Rightarrow> u8 list \<Rightarrow> ssh_err + unit) option"

text \<open>\<^verbatim>\<open>rng->fill\<close> for one call: a status, and the bytes put in the area of the given size.\<close>

type_synonym rng_fill = "nat \<Rightarrow> ssh_err + u8 list"

record ssh_packet_protection =
  prot_crypto :: "ssh_crypto_api option"
  prot_cipher_algorithm :: view
  prot_mac_algorithm :: view
  prot_cipher_key :: "u8 list"
  prot_cipher_iv :: "u8 list"
  prot_mac_key :: "u8 list"
  prot_block_size :: nat
  prot_mac_len :: nat
  prot_sequence :: u32
  prot_active :: bool

section \<open>Plain packets\<close>

definition normalized_block_size :: "nat \<Rightarrow> nat" where
  "normalized_block_size block_size =
     (if block_size < SSH_PACKET_MIN_BLOCK_SIZE then SSH_PACKET_MIN_BLOCK_SIZE else block_size)"

definition ssh_packet_padding_len :: "nat \<Rightarrow> nat \<Rightarrow> nat" where
  "ssh_packet_padding_len payload_len block_size =
     (let block_size = normalized_block_size block_size;
          total_without_padding = 4 + 1 + payload_len;
          padding_len = block_size - total_without_padding mod block_size;
          padding_len = (if padding_len = block_size then 0 else padding_len)
      in while (\<lambda>padding_len. padding_len < SSH_PACKET_MIN_PADDING) (\<lambda>padding_len. padding_len + block_size) padding_len)"

definition ssh_packet_encoded_len :: "nat \<Rightarrow> nat \<Rightarrow> nat" where
  "ssh_packet_encoded_len payload_len block_size =
     4 + 1 + payload_len + ssh_packet_padding_len payload_len block_size"

text \<open>The result is the status with \<^verbatim>\<open>*out_len\<close>, and the array \<^verbatim>\<open>out\<close> after the call.\<close>

definition ssh_packet_encode_plain ::
    "u8 list \<Rightarrow> nat \<Rightarrow> u8 list \<Rightarrow> nat \<Rightarrow> rng_fill option \<Rightarrow> (ssh_err + nat) \<times> u8 list" where
  "ssh_packet_encode_plain out out_capacity payload block_size rng =
    (if length payload > EMSSH_MAX_PAYLOAD_SIZE then (Inl SSH_ERR_MALFORMED_PACKET, out)
     else let padding_len = ssh_packet_padding_len (length payload) block_size;
              encoded_len = 4 + 1 + length payload + padding_len
     in if encoded_len > out_capacity then (Inl SSH_ERR_BUFFER_TOO_SMALL, out)
     else case thenA (ssh_buffer_put_u32 (of_nat (1 + length payload + padding_len)))
              (thenA (ssh_buffer_put_u8 (of_nat padding_len))
              (ssh_buffer_put_bytes payload)) (ssh_buffer_init (Some out) out_capacity) of
       (Inl e, writer) \<Rightarrow> (Inl e, view_data (buf_data writer))
     | (Inr _, writer) \<Rightarrow>
        let out = view_data (buf_data writer) in
        if padding_len \<noteq> 0 then
          case rng of
            Some fill \<Rightarrow> (case fill padding_len of
                Inl _ \<Rightarrow> (Inl SSH_ERR_PLATFORM, out)
              | Inr padding \<Rightarrow> (Inr (buf_len writer + padding_len), overwrite out (buf_len writer) padding))
          | None \<Rightarrow> (Inr (buf_len writer + padding_len), overwrite out (buf_len writer) (replicate padding_len 0))
        else (Inr (buf_len writer), out))"

text \<open>The first \<^verbatim>\<open>packet_len\<close> bytes of the array \<^verbatim>\<open>packet\<close>; the view points into the array.\<close>

definition ssh_packet_decode_plain :: "u8 list \<Rightarrow> nat \<Rightarrow> ssh_err + u8 list" where
  "ssh_packet_decode_plain packet packet_len =
    (if packet_len < 4 + 1 + SSH_PACKET_MIN_PADDING then Inl SSH_ERR_MALFORMED_PACKET
     else if packet_len > EMSSH_MAX_PACKET_SIZE + 4 then Inl SSH_ERR_MALFORMED_PACKET
     else fst (bindA ssh_buffer_get_u32 (\<lambda>packet_length.
          thenA (ensureA (unat packet_length + 4 = packet_len) SSH_ERR_MALFORMED_PACKET) (
          bindA ssh_buffer_get_u8 (\<lambda>padding_len.
          thenA (ensureA (\<not> unat padding_len < SSH_PACKET_MIN_PADDING) SSH_ERR_MALFORMED_PACKET) (
          thenA (ensureA (\<not> unat padding_len + 1 > unat packet_length) SSH_ERR_MALFORMED_PACKET)
          (retA (take (unat packet_length - 1 - unat padding_len) (drop 5 packet)))))))
          (ssh_buffer_wrap (Some packet) packet_len)))"

section \<open>Protected packets\<close>

definition mac_matches :: "u8 list \<Rightarrow> u8 list \<Rightarrow> nat \<Rightarrow> bool" where
  "mac_matches a b len \<longleftrightarrow> fold (\<lambda>i diff. diff OR (a ! i XOR b ! i)) [0..<len] 0 = 0"

text \<open>The inner loop of \<^verbatim>\<open>advance_counter_be\<close>, from index \<open>i - 1\<close> downwards.\<close>

fun increment_be :: "u8 list \<Rightarrow> nat \<Rightarrow> u8 list" where
  "increment_be counter 0 = counter"
| "increment_be counter (Suc i) =
     (let counter = counter[i := counter ! i + 1]
      in if counter ! i \<noteq> 0 then counter else increment_be counter i)"

definition advance_counter_be :: "u8 list \<Rightarrow> nat \<Rightarrow> u8 list" where
  "advance_counter_be counter blocks =
     (if length counter = 0 then counter
      else ((\<lambda>counter. increment_be counter (length counter)) ^^ blocks) counter)"

definition advance_stream_position :: "ssh_packet_protection \<Rightarrow> nat \<Rightarrow> ssh_packet_protection" where
  "advance_stream_position p data_len =
     (if length (prot_cipher_iv p) = 0 \<or> data_len = 0 then p
      else let block_len = length (prot_cipher_iv p);
               blocks = (data_len + block_len - 1) div block_len
           in p\<lparr>prot_cipher_iv := advance_counter_be (prot_cipher_iv p) blocks\<rparr>)"

definition ssh_packet_protection_init :: ssh_packet_protection where
  "ssh_packet_protection_init = \<lparr>prot_crypto = None, prot_cipher_algorithm = None, prot_mac_algorithm = None,
     prot_cipher_key = [], prot_cipher_iv = [], prot_mac_key = [],
     prot_block_size = SSH_PACKET_MIN_BLOCK_SIZE, prot_mac_len = 0, prot_sequence = 0, prot_active = False\<rparr>"

definition ssh_packet_protection_set ::
    "ssh_crypto_api option \<Rightarrow> view \<Rightarrow> view \<Rightarrow> u8 list \<Rightarrow> u8 list \<Rightarrow> u8 list \<Rightarrow> nat \<Rightarrow> nat \<Rightarrow>
     (ssh_packet_protection, unit) act" where
  "ssh_packet_protection_set crypto cipher_algorithm mac_algorithm cipher_key cipher_iv mac_key block_size mac_len p =
    (if (case crypto of None \<Rightarrow> True | Some c \<Rightarrow> cipher_crypt c = None \<or> mac_compute c = None)
     then (Inl SSH_ERR_INVALID_ARGUMENT, p)
     else if length cipher_key = 0 \<or> length cipher_key > EMSSH_MAX_CIPHER_KEY \<or>
        length cipher_iv > EMSSH_MAX_CIPHER_IV \<or>
        length mac_key = 0 \<or> length mac_key > EMSSH_MAX_MAC_KEY \<or>
        mac_len = 0 \<or> mac_len > EMSSH_MAX_MAC
     then (Inl SSH_ERR_INVALID_ARGUMENT, p)
     else (Inr (), \<lparr>prot_crypto = crypto, prot_cipher_algorithm = cipher_algorithm,
        prot_mac_algorithm = mac_algorithm, prot_cipher_key = cipher_key, prot_cipher_iv = cipher_iv,
        prot_mac_key = mac_key, prot_block_size = normalized_block_size block_size,
        prot_mac_len = mac_len, prot_sequence = 0, prot_active = True\<rparr>))"

text \<open>The calls through the interface with the arguments the protection state holds.\<close>

definition protection_crypt ::
    "ssh_packet_protection \<Rightarrow> u8 list \<Rightarrow> ssh_cipher_direction \<Rightarrow> u8 list \<Rightarrow> (ssh_err + unit) \<times> u8 list" where
  "protection_crypt p iv direction data =
     the (cipher_crypt (the (prot_crypto p))) (prot_cipher_algorithm p) (prot_cipher_key p) iv
       (prot_sequence p) direction data"

definition protection_mac :: "ssh_packet_protection \<Rightarrow> u8 list \<Rightarrow> ssh_err + u8 list" where
  "protection_mac p data =
     the (mac_compute (the (prot_crypto p))) (prot_mac_algorithm p) (prot_mac_key p) (prot_sequence p) data"

definition ssh_packet_encode_protected ::
    "u8 list \<Rightarrow> nat \<Rightarrow> u8 list \<Rightarrow> rng_fill option \<Rightarrow> ssh_packet_protection \<Rightarrow>
     (ssh_err + nat) \<times> u8 list \<times> ssh_packet_protection" where
  "ssh_packet_encode_protected out out_capacity payload rng p =
    (if \<not> prot_active p then (Inl SSH_ERR_INVALID_ARGUMENT, out, p)
     else case ssh_packet_encode_plain out out_capacity payload (prot_block_size p) rng of
       (Inl e, out) \<Rightarrow> (Inl e, out, p)
     | (Inr packet_len, out) \<Rightarrow>
        if packet_len + prot_mac_len p > out_capacity then (Inl SSH_ERR_BUFFER_TOO_SMALL, out, p)
        else case protection_mac p (take packet_len out) of
          Inl _ \<Rightarrow> (Inl SSH_ERR_PLATFORM, out, p)
        | Inr mac \<Rightarrow>
           if length mac \<noteq> prot_mac_len p then (Inl SSH_ERR_PLATFORM, out, p)
           else case protection_crypt p (prot_cipher_iv p) SSH_CIPHER_ENCRYPT (take packet_len out) of
             (Inl _, data) \<Rightarrow> (Inl SSH_ERR_PLATFORM, overwrite out 0 data, p)
           | (Inr _, data) \<Rightarrow>
              let p = advance_stream_position p packet_len;
                  out = overwrite (overwrite out 0 data) packet_len mac
              in (Inr (packet_len + length mac), out, p\<lparr>prot_sequence := prot_sequence p + 1\<rparr>))"

text \<open>After a failure past the decryption the packet bytes are encrypted again with the original IV.\<close>

definition restore_packet :: "ssh_packet_protection \<Rightarrow> u8 list \<Rightarrow> nat \<Rightarrow> u8 list" where
  "restore_packet p packet encrypted_len =
     overwrite packet 0 (snd (protection_crypt p (prot_cipher_iv p) SSH_CIPHER_ENCRYPT (take encrypted_len packet)))"

definition ssh_packet_decode_protected ::
    "u8 list \<Rightarrow> nat \<Rightarrow> ssh_packet_protection \<Rightarrow> (ssh_err + u8 list) \<times> u8 list \<times> ssh_packet_protection" where
  "ssh_packet_decode_protected packet packet_len p =
    (if \<not> prot_active p then (Inl SSH_ERR_INVALID_ARGUMENT, packet, p)
     else if packet_len \<le> prot_mac_len p \<or> prot_mac_len p > EMSSH_MAX_MAC
     then (Inl SSH_ERR_MALFORMED_PACKET, packet, p)
     else let encrypted_len = packet_len - prot_mac_len p in
     if encrypted_len < prot_block_size p \<or> encrypted_len mod prot_block_size p \<noteq> 0
     then (Inl SSH_ERR_MALFORMED_PACKET, packet, p)
     else if encrypted_len > EMSSH_MAX_PACKET_SIZE + 4 then (Inl SSH_ERR_MALFORMED_PACKET, packet, p)
     else let next_iv = prot_cipher_iv p;
              received_mac = take (prot_mac_len p) (drop encrypted_len packet)
     in case protection_crypt p next_iv SSH_CIPHER_DECRYPT (take encrypted_len packet) of
       (Inl _, data) \<Rightarrow> (Inl SSH_ERR_PLATFORM, overwrite packet 0 data, p)
     | (Inr _, data) \<Rightarrow>
       let packet = overwrite packet 0 data;
           next_iv = (if length next_iv \<noteq> 0
             then advance_counter_be next_iv ((encrypted_len + length next_iv - 1) div length next_iv)
             else next_iv)
       in case protection_mac p (take encrypted_len packet) of
         Inl _ \<Rightarrow> (Inl SSH_ERR_PLATFORM, restore_packet p packet encrypted_len, p)
       | Inr expected_mac \<Rightarrow>
         if length expected_mac \<noteq> prot_mac_len p
         then (Inl SSH_ERR_PLATFORM, restore_packet p packet encrypted_len, p)
         else if \<not> mac_matches expected_mac received_mac (prot_mac_len p)
         then (Inl SSH_ERR_SECURITY, restore_packet p packet encrypted_len, p)
         else if unat (of_be32 (take 4 packet)) + 4 \<noteq> encrypted_len
         then (Inl SSH_ERR_MALFORMED_PACKET, restore_packet p packet encrypted_len, p)
         else case ssh_packet_decode_plain packet encrypted_len of
           Inl e \<Rightarrow> (Inl e, restore_packet p packet encrypted_len, p)
         | Inr payload \<Rightarrow>
            (Inr payload, packet, p\<lparr>prot_cipher_iv := next_iv, prot_sequence := prot_sequence p + 1\<rparr>))"

section \<open>Padding\<close>

lemma normalized_block_size_ge [simp]: "8 \<le> normalized_block_size b" "0 < normalized_block_size b"
  by (simp_all add: normalized_block_size_def packet_limits)

lemma padding_loop:
  "8 \<le> b \<Longrightarrow> while (\<lambda>p. p < SSH_PACKET_MIN_PADDING) (\<lambda>p. p + b) p = (if p < 4 then p + b else p)"
  by (simp add: while_unfold packet_limits)

lemma padding_len_eq:
  "ssh_packet_padding_len n b =
     (let r = (5 + n) mod normalized_block_size b; p = (if r = 0 then 0 else normalized_block_size b - r)
      in if p < 4 then p + normalized_block_size b else p)"
proof -
  have "(normalized_block_size b - (5 + n) mod normalized_block_size b = normalized_block_size b) \<longleftrightarrow>
      (5 + n) mod normalized_block_size b = 0"
    using mod_less_divisor [OF normalized_block_size_ge(2), of "5 + n" b] by linarith
  then show ?thesis
    by (simp add: ssh_packet_padding_len_def Let_def padding_loop)
qed

lemma padding_len_bounds:
  "4 \<le> ssh_packet_padding_len n b" "ssh_packet_padding_len n b \<le> normalized_block_size b + 3"
  using normalized_block_size_ge(1) [of b] by (auto simp: padding_len_eq Let_def simp del: normalized_block_size_ge)

lemma padding_len_aligned: "(5 + n + ssh_packet_padding_len n b) mod normalized_block_size b = 0"
proof -
  let ?B = "normalized_block_size b"
  have "(5 + n + (?B - (5 + n) mod ?B)) mod ?B = ((5 + n) mod ?B + (?B - (5 + n) mod ?B)) mod ?B"
    by (metis mod_add_left_eq)
  also have "\<dots> = 0"
    using mod_less_divisor [OF normalized_block_size_ge(2), of "5 + n" b] by simp
  finally have "(5 + n + (?B - (5 + n) mod ?B)) mod ?B = 0" .
  then show ?thesis
    by (auto simp: padding_len_eq Let_def add.assoc [symmetric])
qed

section \<open>Plain packets: what is written and what is accepted\<close>

definition plain_packet :: "u8 list \<Rightarrow> u8 list \<Rightarrow> u8 list" where
  "plain_packet payload padding =
     be32 (of_nat (1 + length payload + length padding)) @ [of_nat (length padding)] @ payload @ padding"

lemma length_plain_packet [simp]: "length (plain_packet pl pad) = 5 + length pl + length pad"
  by (simp add: plain_packet_def)

definition fill_ok :: "rng_fill option \<Rightarrow> bool" where
  "fill_ok rng \<longleftrightarrow> (case rng of None \<Rightarrow> True | Some fill \<Rightarrow> (\<forall>n bs. fill n = Inr bs \<longrightarrow> length bs = n))"

lemma encode_plain_writer:
  assumes "out_capacity \<le> length out" "5 + length payload \<le> out_capacity"
  shows "thenA (ssh_buffer_put_u32 l) (thenA (ssh_buffer_put_u8 p) (ssh_buffer_put_bytes payload))
      (ssh_buffer_init (Some out) out_capacity) =
    (Inr (), buf_append (ssh_buffer_init (Some out) out_capacity) (be32 l @ [p] @ payload))"
proof -
  have "buffer_writer (thenA (ssh_buffer_put_u32 l) (thenA (ssh_buffer_put_u8 p) (ssh_buffer_put_bytes payload)))
      (be32 l @ [p] @ payload)"
    by (intro writer_intros)
  from buffer_writer.put_fits [OF this, of "ssh_buffer_init (Some out) out_capacity"] assms show ?thesis
    by simp
qed

lemma encode_plain_ok:
  assumes "ssh_packet_encode_plain out out_capacity payload block_size rng = (Inr n, out')"
    and "out_capacity \<le> length out" "fill_ok rng"
  obtains padding where "length padding = ssh_packet_padding_len (length payload) block_size"
    "n = length (plain_packet payload padding)" "out' = overwrite out 0 (plain_packet payload padding)"
    "length payload \<le> EMSSH_MAX_PAYLOAD_SIZE" "n \<le> out_capacity"
proof -
  let ?p = "ssh_packet_padding_len (length payload) block_size"
  let ?l = "of_nat (1 + length payload + ?p) :: u32"
  let ?w = "buf_append (ssh_buffer_init (Some out) out_capacity) (be32 ?l @ [of_nat ?p] @ payload)"
  have le: "length payload \<le> EMSSH_MAX_PAYLOAD_SIZE" "5 + length payload + ?p \<le> out_capacity" "?p \<noteq> 0"
    using assms(1) padding_len_bounds(1) [of "length payload" block_size]
    by (auto simp: ssh_packet_encode_plain_def Let_def split: if_splits)
  have w: "buf_len ?w = 5 + length payload" "view_data (buf_data ?w) = overwrite out 0 (be32 ?l @ [of_nat ?p] @ payload)"
    by (simp_all add: buf_append_def)
  define padding where "padding = (case rng of None \<Rightarrow> replicate ?p 0 | Some fill \<Rightarrow> projr (fill ?p))"
  have *: "length padding = ?p" "n = 5 + length payload + ?p"
      "out' = overwrite (view_data (buf_data ?w)) (5 + length payload) padding"
    using assms(1,3) le encode_plain_writer [OF assms(2), of payload ?l "of_nat ?p"] w(1)
    by (auto simp: ssh_packet_encode_plain_def padding_def Let_def fill_ok_def split: option.splits sum.splits)
  with le w show ?thesis
    by (intro that [of padding]) (simp_all add: plain_packet_def overwrite_def add.commute add.left_commute)
qed

lemma ex_header:
  "(\<exists>bs r. (\<exists>l p. bs = be32 l @ [p] \<and> Q l p) \<and> u = bs @ r) \<longleftrightarrow> (\<exists>l p r. u = be32 l @ p # r \<and> Q l p)"
proof -
  have "be32 l @ p # r = (be32 l @ [p]) @ r" for l p r by simp
  then show ?thesis by metis
qed

lemma decode_plain_chain:
  assumes "n \<le> length packet"
  shows "ssh_packet_decode_plain packet n = Inr pl \<longleftrightarrow> 9 \<le> n \<and> n \<le> EMSSH_MAX_PACKET_SIZE + 4 \<and>
    (\<exists>l p r. take n packet = be32 l @ p # r \<and> unat l + 4 = n \<and> 4 \<le> unat p \<and> unat p + 1 \<le> unat l \<and>
       pl = take (unat l - 1 - unat p) (drop 5 packet))"
proof -
  let ?m = "bindA ssh_buffer_get_u32 (\<lambda>packet_length.
          thenA (ensureA (unat packet_length + 4 = n) SSH_ERR_MALFORMED_PACKET) (
          bindA ssh_buffer_get_u8 (\<lambda>padding_len.
          thenA (ensureA (\<not> unat padding_len < SSH_PACKET_MIN_PADDING) SSH_ERR_MALFORMED_PACKET) (
          thenA (ensureA (\<not> unat padding_len + 1 > unat packet_length) SSH_ERR_MALFORMED_PACKET)
          (retA (take (unat packet_length - 1 - unat padding_len) (drop 5 packet)))))))"
  have "reads ?m (\<lambda>x bs r. \<exists>l p. bs = be32 l @ [p] \<and> unat l + 4 = n \<and> 4 \<le> unat p \<and> unat p + 1 \<le> unat l \<and>
      x = take (unat l - 1 - unat p) (drop 5 packet))"
    by (rule reads_cong, (rule reads_intros)+) (simp add: packet_limits not_less, blast)
  from reads_fst [OF this, of "ssh_buffer_wrap (Some packet) n" pl] assms
  have "fst (?m (ssh_buffer_wrap (Some packet) n)) = Inr pl \<longleftrightarrow>
    (\<exists>l p r. take n packet = be32 l @ p # r \<and> unat l + 4 = n \<and> 4 \<le> unat p \<and> unat p + 1 \<le> unat l \<and>
       pl = take (unat l - 1 - unat p) (drop 5 packet))"
    by (simp only: buf_wf_wrap buf_unread_wrap ex_header)
  then show ?thesis
    unfolding ssh_packet_decode_plain_def by (simp add: packet_limits)
qed

lemma decode_plain_iff:
  assumes "n \<le> length packet"
  shows "ssh_packet_decode_plain packet n = Inr pl \<longleftrightarrow> n \<le> EMSSH_MAX_PACKET_SIZE + 4 \<and>
    (\<exists>padding. take n packet = plain_packet pl padding \<and> 4 \<le> length padding \<and> length padding \<le> 255)"
    (is "?L \<longleftrightarrow> ?R")
proof
  assume ?L
  then obtain l p r where *: "9 \<le> n" "n \<le> EMSSH_MAX_PACKET_SIZE + 4" "take n packet = be32 l @ p # r"
      "unat l + 4 = n" "4 \<le> unat p" "unat p + 1 \<le> unat l" "pl = take (unat l - 1 - unat p) (drop 5 packet)"
    unfolding decode_plain_chain [OF assms] by blast
  let ?k = "unat l - 1 - unat p"
  have "length (take n packet) = 5 + length r"
    by (simp only: *(3)) simp
  then have len: "length r = n - 5" "?k \<le> length r" "length r - ?k = unat p"
    using assms *(1,4,6) by simp_all
  have "r = drop 5 (take n packet)"
    by (simp add: *(3))
  then have "take ?k r = pl"
    using len *(7) by (simp add: drop_take min_def)
  then have "r = pl @ drop ?k r" "length pl = ?k"
    using len by (metis append_take_drop_id, auto)
  moreover have "l = of_nat (1 + length pl + length (drop ?k r))" "p = of_nat (length (drop ?k r))"
    using len *(4,6) \<open>length pl = ?k\<close> by (simp_all add: of_nat_diff)
  ultimately have "take n packet = plain_packet pl (drop ?k r)"
    unfolding plain_packet_def using *(3) by simp
  moreover have "unat p \<le> 255"
    using unat_u8_less [of p] by linarith
  ultimately show ?R
    using *(2,5) len by (intro conjI exI [of _ "drop ?k r"]) simp_all
next
  assume ?R
  then obtain padding where *: "n \<le> EMSSH_MAX_PACKET_SIZE + 4" "take n packet = plain_packet pl padding"
      "4 \<le> length padding" "length padding \<le> 255"
    by blast
  have n: "n = 5 + length pl + length padding"
    using arg_cong [OF *(2), of length] assms by simp
  have u: "unat (of_nat (1 + length pl + length padding) :: u32) = 1 + length pl + length padding"
      "unat (of_nat (length padding) :: u8) = length padding"
    using n *(1,4) by (simp_all add: unsigned_of_nat take_bit_nat_eq_self packet_limits del: of_nat_add of_nat_Suc)
  have "take (length pl) (drop 5 packet) = take (length pl) (drop 5 (take n packet))"
    using n by (simp add: drop_take min_def)
  also have "\<dots> = pl"
    by (simp add: *(2) plain_packet_def)
  finally have pl: "take (length pl) (drop 5 packet) = pl" .
  show ?L
    unfolding decode_plain_chain [OF assms]
  proof (intro conjI exI)
    show "take n packet = be32 (of_nat (1 + length pl + length padding)) @ of_nat (length padding) # (pl @ padding)"
      by (simp only: *(2) plain_packet_def) simp
    show "pl = take (unat (of_nat (1 + length pl + length padding) :: u32) - 1 - unat (of_nat (length padding) :: u8))
        (drop 5 packet)"
      by (simp only: u) (simp add: pl)
  qed (use *(1,3) n in \<open>simp_all only: u\<close>)
qed

section \<open>MAC comparison and counter\<close>

lemma mac_diff_zero:
  "fold (\<lambda>i diff. diff OR (a ! i XOR b ! i)) is d = (0 :: u8) \<longleftrightarrow> d = 0 \<and> (\<forall>i \<in> set is. a ! i = b ! i)"
proof (induction "is" arbitrary: d)
  case (Cons i "is")
  have "d OR (a ! i XOR b ! i) = 0 \<longleftrightarrow> d = 0 \<and> a ! i = b ! i"
    by (auto simp: bit_eq_iff bit_or_iff bit_xor_iff)
  with Cons show ?case by simp
qed simp

text \<open>The comparison that does not stop at the first difference decides equality.\<close>

lemma mac_matches_iff:
  assumes "n \<le> length a" "n \<le> length b"
  shows "mac_matches a b n \<longleftrightarrow> take n a = take n b"
  using list_eq_iff_nth_eq [of "take n a" "take n b"] assms
  by (simp add: mac_matches_def mac_diff_zero min_def Ball_def)

lemma length_increment_be [simp]: "length (increment_be c i) = length c"
  by (induction c i rule: increment_be.induct) (simp_all add: Let_def)

lemma length_advance_counter_be [simp]: "length (advance_counter_be c n) = length c"
proof -
  have "length (((\<lambda>counter. increment_be counter (length counter)) ^^ n) c) = length c"
    by (induction n) simp_all
  then show ?thesis by (simp add: advance_counter_be_def)
qed

lemma be_value_append: "be_value (xs @ ys) = be_value xs * 256 ^ length ys + be_value ys"
proof (induction ys rule: rev_induct)
  case (snoc y ys)
  then show ?case
    by (simp add: be_value_def)
qed simp

lemma be_value_less: "be_value bs < 256 ^ length bs"
proof (induction bs rule: rev_induct)
  case (snoc x xs)
  have lt: "256 * v + u < 256 * L" if "v < L" "u < 256" for v u L :: nat
    using that by linarith
  have "be_value (xs @ [x]) = 256 * be_value xs + unat x"
    by (simp add: be_value_def)
  then show ?case
    using lt [OF snoc unat_u8_less [of x]] by simp
qed simp

text \<open>The increment of a prefix leaves the rest of the array as it is.\<close>

lemma increment_be_append:
  "i = length xs \<Longrightarrow> increment_be (xs @ ys) i = increment_be xs (length xs) @ ys"
proof (induction xs arbitrary: i ys rule: rev_induct)
  case (snoc x xs)
  then show ?case
    by (simp add: Let_def nth_append list_update_append)
qed simp

lemma be_value_increment:
  "be_value (increment_be xs (length xs)) = (be_value xs + 1) mod 256 ^ length xs"
proof (induction xs rule: rev_induct)
  case Nil
  then show ?case by simp
next
  case (snoc x xs)
  have b: "be_value (xs @ [y]) = be_value xs * 256 + unat y" for xs and y :: u8
    by (simp add: be_value_append) (simp add: be_value_def)
  show ?case
  proof (cases "x + 1 = 0")
    case True
    then have "x = - 1"
      by (metis add.commute add_eq_0_iff)
    then have x: "unat x = 255"
      by (simp add: unsigned_minus_1_eq_mask mask_eq_exp_minus_1)
    have "increment_be (xs @ [x]) (length (xs @ [x])) = increment_be xs (length xs) @ [0]"
      using True by (simp add: Let_def nth_append list_update_append increment_be_append)
    then have "be_value (increment_be (xs @ [x]) (length (xs @ [x]))) = (be_value xs + 1) mod 256 ^ length xs * 256"
      by (simp only: b snoc) simp
    also have "\<dots> = ((be_value xs + 1) * 256) mod (256 ^ length xs * 256)"
      by (simp only: mod_mult_mult2)
    also have "(be_value xs + 1) * 256 = be_value (xs @ [x]) + 1"
      using x by (simp add: b)
    finally show ?thesis
      by (simp add: mult.commute)
  next
    case False
    then have u: "unat (x + 1) = unat x + 1"
      using unatSuc [of x] by (simp add: add.commute)
    have "increment_be (xs @ [x]) (length (xs @ [x])) = xs @ [x + 1]"
      using False by (simp add: Let_def nth_append list_update_append)
    then show ?thesis
      using be_value_less [of "xs @ [x + 1]"] u by (simp add: b)
  qed
qed

text \<open>The IV is a big-endian counter: it advances by the number of blocks, modulo its size.\<close>

lemma be_value_advance_counter:
  "be_value (advance_counter_be c n) = (be_value c + n) mod 256 ^ length c"
proof (cases "c = []")
  case True
  then show ?thesis by (simp add: advance_counter_be_def)
next
  case False
  let ?f = "\<lambda>counter. increment_be counter (length counter)"
  have "length ((?f ^^ n) c) = length c \<and> be_value ((?f ^^ n) c) = (be_value c + n) mod 256 ^ length c"
  proof (induction n)
    case (Suc n)
    then show ?case
      using be_value_increment [of "(?f ^^ n) c"] by (simp add: mod_Suc_eq)
  qed (simp add: be_value_less)
  with False show ?thesis
    by (simp add: advance_counter_be_def)
qed

section \<open>Protected packets\<close>

text \<open>What \<^verbatim>\<open>ssh_packet_protection_set\<close> establishes.\<close>

definition protection_wf :: "ssh_packet_protection \<Rightarrow> bool" where
  "protection_wf p \<longleftrightarrow> prot_active p \<longrightarrow>
     (\<exists>c. prot_crypto p = Some c \<and> cipher_crypt c \<noteq> None \<and> mac_compute c \<noteq> None) \<and>
     8 \<le> prot_block_size p \<and> 0 < prot_mac_len p \<and> prot_mac_len p \<le> EMSSH_MAX_MAC \<and>
     length (prot_cipher_iv p) \<le> EMSSH_MAX_CIPHER_IV \<and> length (prot_cipher_key p) \<le> EMSSH_MAX_CIPHER_KEY \<and>
     length (prot_mac_key p) \<le> EMSSH_MAX_MAC_KEY"

text \<open>What the packet code relies on of the callbacks, each only for the arguments it gives them: areas of one or more whole
  blocks that are no longer than a packet (the encrypted part of a packet, or its first block), with the key of the state and an IV
  of the state's length. A callback may refuse anything else, as the backends do with other key and IV sizes.

  \<^item> \<open>cipher_in_place\<close>: the cipher works on the bytes of the area it is given, whatever its status.
  \<^item> \<open>cipher_restores\<close>: encryption with the same key, IV and sequence number undoes a decryption that succeeded.
  \<^item> \<open>cipher_sound\<close>: encryption succeeds, and decryption with the same key, IV and sequence number undoes it.
  \<^item> \<open>mac_sound\<close>: the MAC of a plain packet is computed and has the negotiated length.\<close>

definition packet_sized :: "ssh_packet_protection \<Rightarrow> u8 list \<Rightarrow> bool" where
  "packet_sized p data \<longleftrightarrow> prot_block_size p \<le> length data \<and> length data mod prot_block_size p = 0 \<and>
     length data \<le> EMSSH_MAX_PACKET_SIZE + 4"

definition cipher_call ::
    "ssh_packet_protection \<Rightarrow> u8 list \<Rightarrow> u32 \<Rightarrow> ssh_cipher_direction \<Rightarrow> u8 list \<Rightarrow> (ssh_err + unit) \<times> u8 list" where
  "cipher_call p iv seq = the (cipher_crypt (the (prot_crypto p))) (prot_cipher_algorithm p) (prot_cipher_key p) iv seq"

definition cipher_in_place :: "ssh_packet_protection \<Rightarrow> bool" where
  "cipher_in_place p \<longleftrightarrow> (\<forall>iv seq dir data. length (snd (cipher_call p iv seq dir data)) = length data)"

definition cipher_restores :: "ssh_packet_protection \<Rightarrow> bool" where
  "cipher_restores p \<longleftrightarrow> (\<forall>iv seq data pt. length iv = length (prot_cipher_iv p) \<longrightarrow> packet_sized p data \<longrightarrow>
     cipher_call p iv seq SSH_CIPHER_DECRYPT data = (Inr (), pt) \<longrightarrow> cipher_call p iv seq SSH_CIPHER_ENCRYPT pt = (Inr (), data))"

definition cipher_sound :: "ssh_packet_protection \<Rightarrow> bool" where
  "cipher_sound p \<longleftrightarrow> (\<forall>iv seq data. length iv = length (prot_cipher_iv p) \<longrightarrow> packet_sized p data \<longrightarrow>
     (\<exists>ct. cipher_call p iv seq SSH_CIPHER_ENCRYPT data = (Inr (), ct) \<and> length ct = length data \<and>
        cipher_call p iv seq SSH_CIPHER_DECRYPT ct = (Inr (), data)))"

definition mac_sound :: "ssh_packet_protection \<Rightarrow> bool" where
  "mac_sound p \<longleftrightarrow> (\<forall>seq data. packet_sized p data \<longrightarrow> (\<exists>m.
     the (mac_compute (the (prot_crypto p))) (prot_mac_algorithm p) (prot_mac_key p) seq data = Inr m \<and>
     length m = prot_mac_len p))"

lemma protection_crypt_call: "protection_crypt p iv = cipher_call p iv (prot_sequence p)"
  by (intro ext) (simp add: protection_crypt_def cipher_call_def)

lemma encrypt_decrypt:
  assumes "cipher_sound p" "packet_sized p data"
  obtains ct where "protection_crypt p (prot_cipher_iv p) SSH_CIPHER_ENCRYPT data = (Inr (), ct)" "length ct = length data"
    "protection_crypt p (prot_cipher_iv p) SSH_CIPHER_DECRYPT ct = (Inr (), data)"
  using assms unfolding cipher_sound_def protection_crypt_call by blast

lemma decrypt_encrypt:
  assumes "cipher_restores p" "packet_sized p data"
    and "protection_crypt p (prot_cipher_iv p) SSH_CIPHER_DECRYPT data = (Inr (), pt)"
  shows "protection_crypt p (prot_cipher_iv p) SSH_CIPHER_ENCRYPT pt = (Inr (), data)"
  using assms unfolding cipher_restores_def protection_crypt_call by blast

lemma crypt_in_place:
  assumes "cipher_in_place p" "protection_crypt p iv dir data = (r, data')"
  shows "length data' = length data"
  using assms unfolding cipher_in_place_def protection_crypt_call by (metis snd_conv)

lemma mac_soundE:
  assumes "mac_sound p" "packet_sized p data"
  obtains m where "protection_mac p data = Inr m" "length m = prot_mac_len p"
  using assms unfolding mac_sound_def protection_mac_def by blast

text \<open>The packets that are sent have such a size.\<close>

lemma plain_packet_sized:
  assumes "protection_wf p" "prot_active p" "prot_block_size p \<le> 252"
    and "length padding = ssh_packet_padding_len (length payload) (prot_block_size p)"
    and "length payload \<le> EMSSH_MAX_PAYLOAD_SIZE"
  shows "packet_sized p (plain_packet payload padding)" "4 \<le> length padding" "length padding \<le> 255"
proof -
  let ?b = "prot_block_size p"
  have b: "normalized_block_size ?b = ?b" "0 < ?b"
    using assms(1,2) by (auto simp: protection_wf_def normalized_block_size_def packet_limits)
  show pad: "4 \<le> length padding" "length padding \<le> 255"
    using padding_len_bounds [of "length payload" ?b] b assms(3,4) by simp_all
  have "(5 + length payload + length padding) mod ?b = 0"
    using padding_len_aligned [of "length payload" ?b] b assms(4) by simp
  moreover from this have "?b \<le> 5 + length payload + length padding"
    by (metis add_eq_0_iff_both_eq_0 dvd_imp_le mod_0_imp_dvd neq0_conv zero_neq_numeral)
  ultimately show "packet_sized p (plain_packet payload padding)"
    using pad assms(5) by (simp add: packet_sized_def packet_limits)
qed

lemma overwrite_front [simp]:
  "take (length ys) (overwrite xs 0 ys) = ys" "length ys \<le> n \<Longrightarrow> drop n (overwrite xs 0 ys) = drop n xs"
  by (simp_all add: overwrite_def)

lemma overwrite_front_idem: "length ys = length zs \<Longrightarrow> overwrite (overwrite xs 0 ys) 0 zs = overwrite xs 0 zs"
  by (simp add: overwrite_def)

lemma overwrite_front_same: "overwrite xs 0 (take n xs) = xs"
  by (simp add: overwrite_def min_def)

lemma overwrite_at:
  assumes "n + length ys \<le> length xs"
  shows "take n (overwrite xs n ys) = take n xs" "take (length ys) (drop n (overwrite xs n ys)) = ys"
  using assms by (simp_all add: overwrite_def)

definition packet_state_after :: "ssh_packet_protection \<Rightarrow> nat \<Rightarrow> ssh_packet_protection" where
  "packet_state_after p n = (advance_stream_position p n)\<lparr>prot_sequence := prot_sequence p + 1\<rparr>"

lemma advance_stream_position_simps [simp]:
  "prot_crypto (advance_stream_position p n) = prot_crypto p"
  "prot_cipher_algorithm (advance_stream_position p n) = prot_cipher_algorithm p"
  "prot_mac_algorithm (advance_stream_position p n) = prot_mac_algorithm p"
  "prot_cipher_key (advance_stream_position p n) = prot_cipher_key p"
  "prot_mac_key (advance_stream_position p n) = prot_mac_key p"
  "prot_block_size (advance_stream_position p n) = prot_block_size p"
  "prot_mac_len (advance_stream_position p n) = prot_mac_len p"
  "prot_sequence (advance_stream_position p n) = prot_sequence p"
  "prot_active (advance_stream_position p n) = prot_active p"
  "length (prot_cipher_iv (advance_stream_position p n)) = length (prot_cipher_iv p)"
  by (simp_all add: advance_stream_position_def Let_def)

lemma packet_state_after_ok:
  "protection_wf p \<Longrightarrow> protection_wf (packet_state_after p n)"
  "cipher_sound p \<Longrightarrow> cipher_sound (packet_state_after p n)"
  "packet_sized (packet_state_after p n) = packet_sized p"
  "mac_sound p \<Longrightarrow> mac_sound (packet_state_after p n)"
  "prot_block_size (packet_state_after p n) = prot_block_size p"
  "prot_mac_len (packet_state_after p n) = prot_mac_len p"
  "prot_active (packet_state_after p n) = prot_active p"
  "prot_sequence (packet_state_after p n) = prot_sequence p + 1"
  by (simp_all add: packet_state_after_def protection_wf_def cipher_sound_def mac_sound_def cipher_call_def packet_sized_def fun_eq_iff)

text \<open>A successful encoding is the encryption of a plain packet followed by the MAC of that plain
  packet, and moves the state on by one packet.\<close>

lemma encode_protected_ok:
  assumes "ssh_packet_encode_protected out cap payload rng p = (Inr n, out', p')"
    and "cap \<le> length out" "fill_ok rng" "protection_wf p" "cipher_sound p" "prot_block_size p \<le> 252"
  obtains padding mac ct where
    "length padding = ssh_packet_padding_len (length payload) (prot_block_size p)"
    "length payload \<le> EMSSH_MAX_PAYLOAD_SIZE"
    "protection_mac p (plain_packet payload padding) = Inr mac" "length mac = prot_mac_len p"
    "protection_crypt p (prot_cipher_iv p) SSH_CIPHER_DECRYPT ct = (Inr (), plain_packet payload padding)"
    "length ct = length (plain_packet payload padding)"
    "n = length ct + length mac" "take n out' = ct @ mac" "length out' = length out" "n \<le> cap"
    "p' = packet_state_after p (length ct)" "prot_active p"
    "packet_sized p ct" "4 \<le> length padding" "length padding \<le> 255"
proof -
  obtain m out1 where enc: "ssh_packet_encode_plain out cap payload (prot_block_size p) rng = (Inr m, out1)"
      and act: "prot_active p" and fits: "m + prot_mac_len p \<le> cap"
    using assms(1) by (auto simp: ssh_packet_encode_protected_def split: if_splits sum.splits prod.splits)
  from encode_plain_ok [OF enc assms(2,3)] obtain padding where
      pad: "length padding = ssh_packet_padding_len (length payload) (prot_block_size p)"
        "m = length (plain_packet payload padding)" "out1 = overwrite out 0 (plain_packet payload padding)"
        "length payload \<le> EMSSH_MAX_PAYLOAD_SIZE" "m \<le> cap"
    by blast
  let ?pp = "plain_packet payload padding"
  note sized = plain_packet_sized [OF assms(4) act assms(6) pad(1,4)]
  from encrypt_decrypt [OF assms(5) sized(1)] obtain ct where
      ct: "protection_crypt p (prot_cipher_iv p) SSH_CIPHER_ENCRYPT ?pp = (Inr (), ct)" "length ct = length ?pp"
        "protection_crypt p (prot_cipher_iv p) SSH_CIPHER_DECRYPT ct = (Inr (), ?pp)"
    by blast
  have "take m out1 = ?pp"
    using pad(2,3) by (simp del: length_plain_packet)
  then obtain mac where mac: "protection_mac p ?pp = Inr mac" "length mac = prot_mac_len p"
      and res: "n = m + length mac" "out' = overwrite (overwrite out1 0 ct) m mac" "p' = packet_state_after p m"
    using assms(1) enc act ct
    by (auto simp: ssh_packet_encode_protected_def Let_def packet_state_after_def split: if_splits sum.splits)
  have len: "length (overwrite out1 0 ct) = length out"
    using pad assms(2) ct(2) by (simp del: length_plain_packet)
  have "take m (overwrite out1 0 ct) = ct"
    using pad(2) ct(2) by (metis overwrite_front(1))
  then have "take n out' = ct @ mac"
    using res fits len assms(2) by (simp add: take_overwrite)
  moreover have "length out' = length out"
    using res fits mac(2) len assms(2) by simp
  ultimately show ?thesis
    using pad ct mac res fits act sized
    by (intro that [of padding mac ct]) (simp_all add: packet_sized_def del: length_plain_packet)
qed

text \<open>The receiver on the encryption of a plain packet followed by a tag.\<close>

lemma decode_protected_on:
  assumes wf: "protection_wf p" "prot_active p"
    and pkt: "take n packet = ct @ mac" "n = length ct + prot_mac_len p" "n \<le> length packet"
    and dec: "protection_crypt p (prot_cipher_iv p) SSH_CIPHER_DECRYPT ct = (Inr (), pp)" "length pp = length ct"
    and mac: "protection_mac p pp = Inr mac" "length mac = prot_mac_len p"
    and len: "prot_block_size p \<le> length ct" "length ct mod prot_block_size p = 0"
      "length ct \<le> EMSSH_MAX_PACKET_SIZE + 4" "unat (of_be32 (take 4 pp)) + 4 = length ct" "4 \<le> length ct"
    and pl: "ssh_packet_decode_plain (overwrite packet 0 pp) (length ct) = Inr payload"
  shows "ssh_packet_decode_protected packet n p =
    (Inr payload, overwrite packet 0 pp, packet_state_after p (length ct))"
proof -
  let ?L = "length ct" and ?packet = "overwrite packet 0 pp"
  have ct: "take ?L packet = ct"
    using arg_cong [OF pkt(1), of "take ?L"] pkt(2) by simp
  have mac': "take (prot_mac_len p) (drop ?L packet) = mac"
    using arg_cong [OF pkt(1), of "drop ?L"] pkt(2) by (simp add: drop_take)
  have pp: "take ?L ?packet = pp"
    using dec(2) by (metis overwrite_front(1))
  have "take 4 ?packet = take 4 pp"
    using pp len(5) by (metis min.absorb1 take_take)
  moreover have "mac_matches mac mac (prot_mac_len p)"
    using mac(2) by (simp add: mac_matches_iff)
  moreover have "0 < ?L" "?L < n" "prot_mac_len p \<le> EMSSH_MAX_MAC"
    using wf len(5) pkt(2) by (auto simp: protection_wf_def)
  ultimately show ?thesis
    using wf(2) pkt(2) ct mac' pp dec mac len pl
    by (simp add: ssh_packet_decode_protected_def Let_def not_less packet_state_after_def
        advance_stream_position_def)
qed

text \<open>Any other tag of the same length is a security error.\<close>

lemma decode_protected_bad_mac:
  assumes wf: "protection_wf p" "prot_active p"
    and pkt: "take n packet = ct @ tag" "n = length ct + prot_mac_len p" "n \<le> length packet"
    and dec: "protection_crypt p (prot_cipher_iv p) SSH_CIPHER_DECRYPT ct = (Inr (), pp)" "length pp = length ct"
    and mac: "protection_mac p pp = Inr mac" "length mac = prot_mac_len p" "mac \<noteq> tag"
    and len: "prot_block_size p \<le> length ct" "length ct mod prot_block_size p = 0"
      "length ct \<le> EMSSH_MAX_PACKET_SIZE + 4"
  shows "fst (ssh_packet_decode_protected packet n p) = Inl SSH_ERR_SECURITY"
proof -
  let ?L = "length ct"
  have ct: "take ?L packet = ct"
    using arg_cong [OF pkt(1), of "take ?L"] pkt(2) by simp
  have tag: "take (prot_mac_len p) (drop ?L packet) = tag"
    using arg_cong [OF pkt(1), of "drop ?L"] pkt(2) by (simp add: drop_take)
  have pp: "take ?L (overwrite packet 0 pp) = pp"
    using dec(2) by (metis overwrite_front(1))
  have "length tag = prot_mac_len p"
    using arg_cong [OF pkt(1), of length] pkt(2,3) by simp
  then have "\<not> mac_matches mac tag (prot_mac_len p)"
    using mac(2,3) by (simp add: mac_matches_iff)
  moreover have "0 < ?L" "?L < n" "prot_mac_len p \<le> EMSSH_MAX_MAC"
    using wf len(1) pkt(2) by (auto simp: protection_wf_def)
  ultimately show ?thesis
    using wf(2) pkt(2) ct tag pp dec mac len by (simp add: ssh_packet_decode_protected_def Let_def not_less)
qed

lemma protected_roundtrip_lemma:
  assumes enc: "ssh_packet_encode_protected out cap payload rng p = (Inr n, out', p')"
    and ok: "protection_wf p" "cipher_sound p" "prot_block_size p \<le> 252"
    and "cap \<le> length out" "fill_ok rng"
    and packet: "take n packet = take n out'" "n \<le> length packet"
  shows "\<exists>packet'. ssh_packet_decode_protected packet n p = (Inr payload, packet', p')"
proof -
  from encode_protected_ok [OF enc \<open>cap \<le> length out\<close> \<open>fill_ok rng\<close> ok] obtain padding mac ct where *:
    "length payload \<le> EMSSH_MAX_PAYLOAD_SIZE"
    "protection_mac p (plain_packet payload padding) = Inr mac" "length mac = prot_mac_len p"
    "protection_crypt p (prot_cipher_iv p) SSH_CIPHER_DECRYPT ct = (Inr (), plain_packet payload padding)"
    "length ct = length (plain_packet payload padding)"
    "n = length ct + length mac" "take n out' = ct @ mac"
    "p' = packet_state_after p (length ct)" "prot_active p"
    and sized: "packet_sized p ct" and pad: "4 \<le> length padding" "length padding \<le> 255"
    by blast
  let ?pp = "plain_packet payload padding"
  have ct: "length ct = 5 + length payload + length padding"
    using *(5) by simp
  have small: "length ct \<le> EMSSH_MAX_PACKET_SIZE + 4"
    using sized by (simp add: packet_sized_def)
  have "of_be32 (take 4 ?pp) = of_nat (1 + length payload + length padding)"
    by (simp add: plain_packet_def of_be_be)
  moreover have "unat (of_nat (1 + length payload + length padding) :: u32) = 1 + length payload + length padding"
    using small ct by (simp add: unsigned_of_nat take_bit_nat_eq_self packet_limits del: of_nat_add of_nat_Suc)
  ultimately have l: "unat (of_be32 (take 4 ?pp)) + 4 = length ct"
    using ct by (simp only:)
  have "take (length ct) (overwrite packet 0 ?pp) = ?pp"
    by (simp only: *(5) overwrite_front)
  moreover have "length ct \<le> length (overwrite packet 0 ?pp)"
    by (simp only: overwrite_def length_append *(5))
  ultimately have "ssh_packet_decode_plain (overwrite packet 0 ?pp) (length ct) = Inr payload"
    using small pad by (subst decode_plain_iff) auto
  then have "ssh_packet_decode_protected packet n p = (Inr payload, overwrite packet 0 ?pp, packet_state_after p (length ct))"
    using * packet ok l ct sized by (intro decode_protected_on) (simp_all add: packet_sized_def)
  with *(8) show ?thesis by blast
qed

lemma restore_packet_inverse:
  assumes "protection_crypt p (prot_cipher_iv p) SSH_CIPHER_ENCRYPT pt = (Inr (), take n packet)"
    and "length pt = n" "n \<le> length packet"
  shows "restore_packet p (overwrite packet 0 pt) n = packet"
proof -
  have "take n (overwrite packet 0 pt) = pt"
    using assms(2) by (metis overwrite_front(1))
  with assms show ?thesis
    by (simp add: restore_packet_def overwrite_front_idem overwrite_front_same)
qed

text \<open>A rejected packet leaves the state as it was; and the bytes in the receive buffer too, unless the cipher callback
  itself failed, which may leave its area changed.\<close>

lemma decode_protected_rejects:
  assumes "cipher_in_place p" "cipher_restores p" "n \<le> length packet"
    and "ssh_packet_decode_protected packet n p = (Inl e, packet', p')"
  shows "p' = p \<and> (packet' = packet \<or> e = SSH_ERR_PLATFORM \<and>
    (\<exists>e' data. protection_crypt p (prot_cipher_iv p) SSH_CIPHER_DECRYPT (take (n - prot_mac_len p) packet) = (Inl e', data) \<and>
       packet' = data @ drop (n - prot_mac_len p) packet))"
proof -
  let ?L = "n - prot_mac_len p"
  obtain r pt where pt: "protection_crypt p (prot_cipher_iv p) SSH_CIPHER_DECRYPT (take ?L packet) = (r, pt)"
    by fastforce
  have len: "length pt = ?L"
    using crypt_in_place [OF assms(1) pt] assms(3) by simp
  then have failed: "overwrite packet 0 pt = pt @ drop ?L packet"
    by (simp add: overwrite_def)
  have restored: "restore_packet p (overwrite packet 0 pt) ?L = packet" if "r = Inr ()" "packet_sized p (take ?L packet)"
    using decrypt_encrypt [OF assms(2) that(2) pt [unfolded that(1)]] len assms(3) by (intro restore_packet_inverse) auto
  show ?thesis
    using assms(3,4) pt failed restored
    by (auto simp: ssh_packet_decode_protected_def Let_def packet_sized_def not_less split: if_splits sum.splits)
qed

text \<open>An accepted packet carries the MAC of the plain packet it decrypts to, under the receiver's key
  and sequence number.\<close>

lemma decode_protected_accepts:
  assumes "cipher_in_place p" "n \<le> length packet"
    and "ssh_packet_decode_protected packet n p = (Inr payload, packet', p')"
  shows "\<exists>padding. let L = n - prot_mac_len p; plain = plain_packet payload padding in
     protection_crypt p (prot_cipher_iv p) SSH_CIPHER_DECRYPT (take L packet) = (Inr (), plain) \<and>
     protection_mac p plain = Inr (take (prot_mac_len p) (drop L packet)) \<and>
     L + prot_mac_len p = n \<and> L mod prot_block_size p = 0 \<and>
     4 \<le> length padding \<and> length padding \<le> 255 \<and> p' = packet_state_after p L"
proof -
  let ?L = "n - prot_mac_len p"
  obtain pt where pt: "protection_crypt p (prot_cipher_iv p) SSH_CIPHER_DECRYPT (take ?L packet) = (Inr (), pt)"
    using assms(3) by (auto simp: ssh_packet_decode_protected_def Let_def split: if_splits sum.splits prod.splits)
  then have lpt: "length pt = ?L"
    using crypt_in_place [OF assms(1)] assms(2) by fastforce
  have tk: "take ?L (overwrite packet 0 pt) = pt"
    using lpt by (metis overwrite_front(1))
  obtain mac where mac: "prot_mac_len p < n" "?L mod prot_block_size p = 0"
      "protection_mac p pt = Inr mac" "length mac = prot_mac_len p"
      "mac_matches mac (take (prot_mac_len p) (drop ?L packet)) (prot_mac_len p)"
      "ssh_packet_decode_plain (overwrite packet 0 pt) ?L = Inr payload"
      "p' = packet_state_after p ?L"
    using assms(3) pt tk
    by (auto simp: ssh_packet_decode_protected_def Let_def packet_state_after_def advance_stream_position_def
        split: if_splits sum.splits)
  have "mac = take (prot_mac_len p) (drop ?L packet)"
    using mac(1,4,5) assms(2) by (simp add: mac_matches_iff)
  moreover have "?L \<le> length (overwrite packet 0 pt)"
    using lpt by (simp add: overwrite_def)
  then obtain padding where "pt = plain_packet payload padding" "4 \<le> length padding" "length padding \<le> 255"
    using mac(6) tk by (auto simp: decode_plain_iff)
  ultimately show ?thesis
    using mac pt by (intro exI [of _ padding]) (simp add: Let_def)
qed

text \<open>A sequence of packets sent from one state and received from the same state.\<close>

definition send_packet :: "nat \<Rightarrow> rng_fill option \<Rightarrow> u8 list \<Rightarrow> (ssh_packet_protection, u8 list) act" where
  "send_packet cap rng payload p =
     (case ssh_packet_encode_protected (replicate cap 0) cap payload rng p of
        (Inl e, _, p') \<Rightarrow> (Inl e, p') | (Inr n, out, p') \<Rightarrow> (Inr (take n out), p'))"

definition receive_packet :: "u8 list \<Rightarrow> (ssh_packet_protection, u8 list) act" where
  "receive_packet packet p =
     (case ssh_packet_decode_protected packet (length packet) p of (r, _, p') \<Rightarrow> (r, p'))"

lemma send_receive_packet:
  assumes "send_packet cap rng payload p = (Inr pkt, p')"
    and "protection_wf p" "cipher_sound p" "prot_block_size p \<le> 252" "fill_ok rng"
  shows "receive_packet pkt p = (Inr payload, p') \<and> (\<exists>n. p' = packet_state_after p n)"
proof -
  obtain n out where enc: "ssh_packet_encode_protected (replicate cap 0) cap payload rng p = (Inr n, out, p')"
      and pkt: "pkt = take n out"
    using assms(1) by (auto simp: send_packet_def split: prod.splits sum.splits)
  have cap: "cap \<le> length (replicate cap (0 :: u8))" by simp
  from encode_protected_ok [OF enc cap assms(5,2-4)] have n: "n \<le> length out" "\<exists>n. p' = packet_state_after p n"
    by (metis length_replicate)+
  then have "\<exists>packet'. ssh_packet_decode_protected pkt n p = (Inr payload, packet', p')"
    using pkt by (intro protected_roundtrip_lemma [OF enc assms(2-4) cap assms(5)]) simp_all
  with n pkt show ?thesis
    by (auto simp: receive_packet_def)
qed

lemma stream_lemma:
  assumes "mapA (send_packet cap rng) payloads p = (Inr pkts, p')"
    and "protection_wf p" "cipher_sound p" "prot_block_size p \<le> 252" "fill_ok rng"
  shows "mapA receive_packet pkts p = (Inr payloads, p')"
  using assms(1-4)
proof (induction payloads arbitrary: p pkts)
  case (Cons pl pls)
  then obtain q pkt rest where *: "send_packet cap rng pl p = (Inr pkt, q)"
      "mapA (send_packet cap rng) pls q = (Inr rest, p')" "pkts = pkt # rest"
    by (auto simp: bindA_eq_Inr)
  from send_receive_packet [OF *(1) Cons.prems(2-4) assms(5)] obtain n where
      "receive_packet pkt p = (Inr pl, q)" "q = packet_state_after p n"
    by blast
  moreover from this have "mapA receive_packet rest q = (Inr pls, p')"
    using Cons.prems by (intro Cons.IH [OF *(2)]) (simp_all add: packet_state_after_ok)
  ultimately show ?case
    using *(3) by simp
qed auto

definition fill_works :: "rng_fill option \<Rightarrow> bool" where
  "fill_works rng \<longleftrightarrow> (case rng of None \<Rightarrow> True | Some fill \<Rightarrow> (\<forall>n. \<exists>bs. fill n = Inr bs \<and> length bs = n))"

lemma fill_works_ok: "fill_works rng \<Longrightarrow> fill_ok rng"
  by (auto simp: fill_works_def fill_ok_def split: option.splits) (metis sum.inject(2))

lemma encode_plain_succeeds:
  assumes "length payload \<le> EMSSH_MAX_PAYLOAD_SIZE" "ssh_packet_encoded_len (length payload) b \<le> cap"
    and "cap \<le> length out" "fill_works rng"
  shows "\<exists>out'. ssh_packet_encode_plain out cap payload b rng =
    (Inr (ssh_packet_encoded_len (length payload) b), out')"
proof -
  let ?p = "ssh_packet_padding_len (length payload) b"
  let ?l = "of_nat (1 + length payload + ?p) :: u32"
  have "5 + length payload \<le> cap"
    using assms(2) by (simp add: ssh_packet_encoded_len_def)
  note w = encode_plain_writer [OF assms(3) this, of ?l "of_nat ?p"]
  obtain padding where "case rng of None \<Rightarrow> padding = replicate ?p 0 | Some fill \<Rightarrow> fill ?p = Inr padding"
    using assms(4) unfolding fill_works_def by (cases rng) auto
  then show ?thesis
    using w assms(1,2) padding_len_bounds(1) [of "length payload" b]
    by (cases rng) (auto simp: ssh_packet_encode_plain_def ssh_packet_encoded_len_def Let_def not_less)
qed

lemma send_packet_succeeds:
  assumes "protection_wf p" "prot_active p" "cipher_sound p" "mac_sound p" "fill_works rng" "prot_block_size p \<le> 252"
    and "length payload \<le> EMSSH_MAX_PAYLOAD_SIZE"
    and "ssh_packet_encoded_len (length payload) (prot_block_size p) + prot_mac_len p \<le> cap"
  shows "\<exists>pkt n. send_packet cap rng payload p = (Inr pkt, packet_state_after p n)"
proof -
  let ?n = "ssh_packet_encoded_len (length payload) (prot_block_size p)"
  have cap: "?n \<le> cap" "cap \<le> length (replicate cap (0 :: u8))"
    using assms(8) by simp_all
  then obtain out where out: "ssh_packet_encode_plain (replicate cap 0) cap payload (prot_block_size p) rng = (Inr ?n, out)"
    using encode_plain_succeeds assms(5,7) by blast
  from encode_plain_ok [OF out cap(2) fill_works_ok [OF assms(5)]] obtain padding where
      pad: "length padding = ssh_packet_padding_len (length payload) (prot_block_size p)"
        "?n = length (plain_packet payload padding)" "out = overwrite (replicate cap 0) 0 (plain_packet payload padding)"
    by blast
  have "take ?n out = plain_packet payload padding"
    unfolding pad(2,3) by (rule overwrite_front)
  then have sized: "packet_sized p (take ?n out)"
    using plain_packet_sized(1) [OF assms(1,2,6) pad(1) assms(7)] by simp
  obtain mac where "protection_mac p (take ?n out) = Inr mac" "length mac = prot_mac_len p"
    using mac_soundE [OF assms(4) sized] by blast
  moreover obtain ct where "protection_crypt p (prot_cipher_iv p) SSH_CIPHER_ENCRYPT (take ?n out) = (Inr (), ct)"
    using encrypt_decrypt [OF assms(3) sized] by blast
  ultimately show ?thesis
    using assms(2,8) out
    by (simp add: send_packet_def ssh_packet_encode_protected_def Let_def packet_state_after_def not_less) blast
qed

lemma send_all_succeeds:
  assumes "protection_wf p" "prot_active p" "cipher_sound p" "mac_sound p" "fill_works rng" "prot_block_size p \<le> 252"
    and "\<forall>pl \<in> set payloads. length pl \<le> EMSSH_MAX_PAYLOAD_SIZE \<and>
      ssh_packet_encoded_len (length pl) (prot_block_size p) + prot_mac_len p \<le> cap"
  shows "\<exists>pkts p'. mapA (send_packet cap rng) payloads p = (Inr pkts, p') \<and>
    prot_sequence p' = prot_sequence p + of_nat (length payloads)"
  using assms(1-4,6,7)
proof (induction payloads arbitrary: p)
  case (Cons pl pls)
  then obtain pkt n where 1: "send_packet cap rng pl p = (Inr pkt, packet_state_after p n)"
    using send_packet_succeeds [OF Cons.prems(1-4) assms(5) Cons.prems(5)] by fastforce
  have "\<exists>pkts p'. mapA (send_packet cap rng) pls (packet_state_after p n) = (Inr pkts, p') \<and>
      prot_sequence p' = prot_sequence (packet_state_after p n) + of_nat (length pls)"
    using Cons.prems by (intro Cons.IH) (simp_all add: packet_state_after_ok)
  with 1 show ?case
    by (auto simp: packet_state_after_ok algebra_simps)
qed simp

section \<open>Properties\<close>

text \<open>C9. Protected packets form a reliable channel. Assume that on areas of whole blocks up to the size of a packet, with this
  state's key and IVs of its length, the cipher callback encrypts without error and decryption undoes it, that the MAC callback
  computes tags of the negotiated length, that the random generator delivers, and that a block is at most 252 bytes. Then any
  sequence of payloads that fit is encoded without error; and a receiver that starts from the same protection state decodes the
  packets to exactly these payloads, ends in the same state as the sender, and both have counted every packet in the 32 bit
  sequence number.\<close>

theorem packet_stream_roundtrip:
  assumes "protection_wf p" "prot_active p" "cipher_sound p" "mac_sound p" "fill_works rng"
    and "prot_block_size p \<le> 252"
    and "\<forall>pl \<in> set payloads. length pl \<le> EMSSH_MAX_PAYLOAD_SIZE \<and>
      ssh_packet_encoded_len (length pl) (prot_block_size p) + prot_mac_len p \<le> cap"
  shows "\<exists>pkts p'. mapA (send_packet cap rng) payloads p = (Inr pkts, p') \<and>
    mapA receive_packet pkts p = (Inr payloads, p') \<and>
    prot_sequence p' = prot_sequence p + of_nat (length payloads)"
  using send_all_succeeds [OF assms(1-7)] stream_lemma [OF _ assms(1,3,6) fill_works_ok [OF assms(5)]]
  by blast

text \<open>A stream cipher and a checksum in the place of the callbacks.\<close>

definition xor_cipher :: "view \<Rightarrow> u8 list \<Rightarrow> u8 list \<Rightarrow> u32 \<Rightarrow> ssh_cipher_direction \<Rightarrow> u8 list \<Rightarrow>
    (ssh_err + unit) \<times> u8 list" where
  "xor_cipher alg key iv seq dir data =
     (Inr (), map (\<lambda>x. x XOR (hd (key @ [0]) + hd (iv @ [0]) + ucast seq)) data)"

definition sum_mac :: "view \<Rightarrow> u8 list \<Rightarrow> u32 \<Rightarrow> u8 list \<Rightarrow> ssh_err + u8 list" where
  "sum_mac alg key seq data = Inr [fold (+) data (hd (key @ [0]) + ucast seq)]"

definition sample_protection :: ssh_packet_protection where
  "sample_protection = snd (ssh_packet_protection_set
     (Some \<lparr>cipher_crypt = Some xor_cipher, mac_compute = Some sum_mac, publickey_verify = None\<rparr>)
     None None [2] [4] [9] 16 1 ssh_packet_protection_init)"

lemma sample_protection_eq: "sample_protection = \<lparr>
    prot_crypto = Some \<lparr>cipher_crypt = Some xor_cipher, mac_compute = Some sum_mac, publickey_verify = None\<rparr>,
    prot_cipher_algorithm = None, prot_mac_algorithm = None, prot_cipher_key = [2], prot_cipher_iv = [4],
    prot_mac_key = [9], prot_block_size = 16, prot_mac_len = 1, prot_sequence = 0, prot_active = True\<rparr>"
  by (simp add: sample_protection_def ssh_packet_protection_set_def packet_limits normalized_block_size_def)

lemma sample_protection_ok:
  "protection_wf sample_protection" "cipher_sound sample_protection" "mac_sound sample_protection"
  "cipher_in_place sample_protection" "cipher_restores sample_protection"
  "prot_active sample_protection" "prot_block_size sample_protection = 16" "prot_mac_len sample_protection = 1"
  by (auto simp: sample_protection_eq protection_wf_def cipher_sound_def mac_sound_def cipher_in_place_def cipher_restores_def
      cipher_call_def xor_cipher_def sum_mac_def packet_limits comp_def xor.assoc)

theorem packet_stream_roundtrip_witness:
  "\<exists>pkts p'. mapA (send_packet 64 (Some (\<lambda>n. Inr (replicate n 1)))) [lit ''hello'', []] sample_protection = (Inr pkts, p') \<and>
    mapA receive_packet pkts sample_protection = (Inr [lit ''hello'', []], p') \<and>
    prot_sequence p' = prot_sequence sample_protection + of_nat 2"
proof -
  have "ssh_packet_encoded_len n 16 + 1 \<le> 64" if "n \<le> 16" for n
    using that padding_len_bounds(2) [of n 16]
    by (simp add: ssh_packet_encoded_len_def normalized_block_size_def packet_limits)
  then show ?thesis
    using packet_stream_roundtrip [of sample_protection "Some (\<lambda>n. Inr (replicate n 1))" "[lit ''hello'', []]" 64]
    by (simp add: sample_protection_ok fill_works_def packet_limits)
qed

text \<open>C5. Nothing is accepted without its MAC: whatever the MAC callback, and for any cipher callback that works in place (on
  as many bytes as it is given; it may fail), when a protected packet is accepted, the part before the tag decrypts to a
  well-formed plain packet around the returned payload, the received tag is the MAC of that plain packet under the receiver's key
  and current sequence number, and the receiver has moved on by exactly this packet.\<close>

theorem accepted_packet_is_authentic:
  assumes "cipher_in_place p" "n \<le> length packet"
    and "ssh_packet_decode_protected packet n p = (Inr payload, packet', p')"
  shows "\<exists>padding. let L = n - prot_mac_len p; plain = plain_packet payload padding in
     protection_crypt p (prot_cipher_iv p) SSH_CIPHER_DECRYPT (take L packet) = (Inr (), plain) \<and>
     protection_mac p plain = Inr (take (prot_mac_len p) (drop L packet)) \<and>
     L + prot_mac_len p = n \<and> L mod prot_block_size p = 0 \<and>
     4 \<le> length padding \<and> length padding \<le> 255 \<and> p' = packet_state_after p L"
  by (rule decode_protected_accepts [OF assms])

definition sample_packet :: "u8 list" where
  "sample_packet = [6, 6, 6, 10, 12, 19, 6, 6, 6, 6, 6, 6, 6, 6, 6, 6, 52]"

lemma sample_plain_packet: "plain_packet [21] (replicate 10 0) = [0, 0, 0, 12, 10, 21, 0, 0, 0, 0, 0, 0, 0, 0, 0, 0]"
  by code_simp

lemma length_sample_packet [simp]: "length sample_packet = 17"
  by (simp add: sample_packet_def)

lemma sample_crypt: "protection_crypt sample_protection [4] dir data = (Inr (), map (\<lambda>x. x XOR 6) data)"
  by (simp add: protection_crypt_def sample_protection_eq xor_cipher_def)

lemma sample_mac: "protection_mac sample_protection data = Inr [fold (+) data 9]"
  by (simp add: protection_mac_def sample_protection_eq sum_mac_def)

lemma sample_packet_decodes: "fst (ssh_packet_decode_protected sample_packet 17 sample_protection) = Inr [21]"
proof -
  let ?pp = "plain_packet [21] (replicate 10 0)"
  have "of_be32 [0, 0, 0, 12] = 12"
    by code_simp
  moreover have "ssh_packet_decode_plain (overwrite sample_packet 0 ?pp) (length (take 16 sample_packet)) = Inr [21]"
    unfolding length_take length_sample_packet
    by (rule decode_plain_iff [THEN iffD2], simp add: sample_packet_def overwrite_def)
      (intro conjI exI [of _ "replicate 10 0"], simp_all add: sample_plain_packet packet_limits overwrite_def)
  ultimately have "ssh_packet_decode_protected sample_packet 17 sample_protection = (Inr [21],
      overwrite sample_packet 0 ?pp, packet_state_after sample_protection (length (take 16 sample_packet)))"
    by (intro decode_protected_on [where mac = "[52]"])
      (simp_all add: sample_protection_ok sample_crypt sample_mac sample_packet_def sample_plain_packet
        packet_limits sample_protection_eq [THEN arg_cong [of _ _ prot_cipher_iv]])
  then show ?thesis by simp
qed

theorem accepted_packet_is_authentic_witness:
  "\<exists>packet' p' padding. let L = 17 - prot_mac_len sample_protection; plain = plain_packet [21] padding in
     ssh_packet_decode_protected sample_packet 17 sample_protection = (Inr [21], packet', p') \<and>
     protection_crypt sample_protection (prot_cipher_iv sample_protection) SSH_CIPHER_DECRYPT
       (take L sample_packet) = (Inr (), plain) \<and>
     protection_mac sample_protection plain =
       Inr (take (prot_mac_len sample_protection) (drop L sample_packet)) \<and>
     p' = packet_state_after sample_protection L"
proof -
  obtain packet' p' where *: "ssh_packet_decode_protected sample_packet 17 sample_protection = (Inr [21], packet', p')"
    using sample_packet_decodes by (metis prod.collapse)
  have "17 \<le> length sample_packet" by simp
  from accepted_packet_is_authentic [OF sample_protection_ok(4) this *] * show ?thesis
    unfolding Let_def by blast
qed

text \<open>C30. A rejected packet has no effect, for a cipher callback that works in place and whose encryption undoes a decryption
  that succeeded. On every error of the receiver (bad length, bad MAC, malformed contents, failure of either callback) the
  protection state is unchanged, so a forged packet cannot desynchronise the counter; and the bytes of the receive buffer are the
  ones that were there before, except that when the decryption itself fails the encrypted part is what the callback left of it.\<close>

theorem rejected_packet_is_harmless:
  assumes "cipher_in_place p" "cipher_restores p" "n \<le> length packet"
    and "ssh_packet_decode_protected packet n p = (Inl e, packet', p')"
  shows "p' = p \<and> (packet' = packet \<or> e = SSH_ERR_PLATFORM \<and>
    (\<exists>e' data. protection_crypt p (prot_cipher_iv p) SSH_CIPHER_DECRYPT (take (n - prot_mac_len p) packet) = (Inl e', data) \<and>
       packet' = data @ drop (n - prot_mac_len p) packet))"
  by (rule decode_protected_rejects [OF assms])

lemma forged_packet_rejected:
  "fst (ssh_packet_decode_protected (sample_packet[7 := 0]) 17 sample_protection) = Inl SSH_ERR_SECURITY"
  by (rule decode_protected_bad_mac [where ct = "take 16 (sample_packet[7 := 0])" and tag = "[52]" and mac = "[58]"
        and pp = "map (\<lambda>x. x XOR 6) (take 16 (sample_packet[7 := 0]))"])
    (simp_all add: sample_protection_ok sample_crypt sample_mac sample_packet_def
      packet_limits sample_protection_eq [THEN arg_cong [of _ _ prot_cipher_iv]])

theorem rejected_packet_is_harmless_witness:
  "ssh_packet_decode_protected (sample_packet[7 := 0]) 17 sample_protection =
     (Inl SSH_ERR_SECURITY, sample_packet[7 := 0], sample_protection)"
proof -
  obtain packet' p' where *: "ssh_packet_decode_protected (sample_packet[7 := 0]) 17 sample_protection =
      (Inl SSH_ERR_SECURITY, packet', p')"
    using forged_packet_rejected by (metis prod.collapse)
  have "17 \<le> length (sample_packet[7 := 0])" by simp
  from rejected_packet_is_harmless [OF sample_protection_ok(4,5) this *] * show ?thesis
    by simp
qed

text \<open>The plain packet decoder accepts exactly the well-formed packets: at most 35004 bytes, a
  length field that covers the packet, at least 4 and at most 255 bytes of padding; and returns the
  payload between them.\<close>

theorem plain_packet_decoder_exact:
  assumes "n \<le> length packet"
  shows "ssh_packet_decode_plain packet n = Inr pl \<longleftrightarrow> n \<le> EMSSH_MAX_PACKET_SIZE + 4 \<and>
    (\<exists>padding. take n packet = plain_packet pl padding \<and> 4 \<le> length padding \<and> length padding \<le> 255)"
  by (rule decode_plain_iff [OF assms])

theorem plain_packet_decoder_exact_witness:
  "ssh_packet_decode_plain (plain_packet [20, 1] [0, 0, 0, 0, 0] @ [99]) 12 = Inr [20, 1]"
proof (rule plain_packet_decoder_exact [THEN iffD2])
  show "12 \<le> EMSSH_MAX_PACKET_SIZE + 4 \<and> (\<exists>padding. take 12 (plain_packet [20, 1] [0, 0, 0, 0, 0] @ [99]) =
      plain_packet [20, 1] padding \<and> 4 \<le> length padding \<and> length padding \<le> 255)"
    by (intro conjI exI [of _ "[0, 0, 0, 0, 0]"]) (simp_all add: packet_limits)
qed simp

text \<open>The padding length is the least number of at least 4 that makes the packet a multiple of the
  cipher's block size (of 8 for smaller blocks).\<close>

theorem padding_is_least:
  "ssh_packet_padding_len n b =
     (LEAST p. SSH_PACKET_MIN_PADDING \<le> p \<and> normalized_block_size b dvd 4 + 1 + n + p)"
proof (rule sym, rule Least_equality)
  let ?B = "normalized_block_size b" and ?p = "ssh_packet_padding_len n b"
  show "SSH_PACKET_MIN_PADDING \<le> ?p \<and> ?B dvd 4 + 1 + n + ?p"
    using padding_len_bounds(1) [of n b] padding_len_aligned [of n b]
    by (simp add: packet_limits mod_eq_0_iff_dvd)
  fix q assume q: "SSH_PACKET_MIN_PADDING \<le> q \<and> ?B dvd 4 + 1 + n + q"
  show "?p \<le> q"
  proof (rule ccontr)
    assume "\<not> ?p \<le> q"
    moreover have "?B dvd ?p - q"
    proof -
      have "?B dvd (5 + n + ?p) - (5 + n + q)"
        using q padding_len_aligned [of n b] by (intro dvd_diff_nat) (simp_all add: mod_eq_0_iff_dvd)
      then show ?thesis by simp
    qed
    ultimately have "?B \<le> ?p - q"
      by (intro dvd_imp_le) simp_all
    then show False
      using padding_len_bounds(2) [of n b] q [THEN conjunct1, unfolded packet_limits] normalized_block_size_ge(1) [of b]
      by linarith
  qed
qed

text \<open>The cipher's IV is a big-endian counter: after a packet it has advanced by the number of
  blocks of the packet, rounded up, modulo its own size.\<close>

theorem iv_counts_blocks:
  assumes "prot_cipher_iv p \<noteq> []" "0 < n"
  shows "be_value (prot_cipher_iv (advance_stream_position p n)) =
    (be_value (prot_cipher_iv p) + (n + length (prot_cipher_iv p) - 1) div length (prot_cipher_iv p))
      mod 256 ^ length (prot_cipher_iv p)"
  using assms by (simp add: advance_stream_position_def Let_def be_value_advance_counter)

theorem iv_counts_blocks_witness:
  "be_value (prot_cipher_iv (advance_stream_position sample_protection 5)) = 9"
  using iv_counts_blocks [of sample_protection 5]
  by (simp add: sample_protection_eq be_value_def)

end
