(* ===== verification/Sftp_Server.thy ===== *)
theory Sftp_Server
  imports Sftp_Codec Sftp_Path Ssh_Packet
begin

text \<open>
  The SFTP server of \<^verbatim>\<open>src/sftp/sftp_server.c\<close>: the session with its table of open handles, and one action per request
  handler. The file system (\<^verbatim>\<open>ssh_fs_api_t\<close>) and the policy hook are parameters: records of callbacks over a world \<open>'w\<close>
  that stands for their contexts. A handler is an action on the session and the world; its value is the reply packet.

  A callback returns \<open>Inr\<close> with what it stores in its out parameters, or \<open>Inl\<close> with its error code. \<^verbatim>\<open>stat\<close> is also
  called with its status ignored, so its out parameter is passed in and out. A \<^verbatim>\<open>void *\<close> file handle is a natural
  number with 0 for NULL; a path is the bytes before the terminating NUL.
\<close>

section \<open>Data\<close>

definition SFTP_DATA_RESPONSE_OVERHEAD :: nat where "SFTP_DATA_RESPONSE_OVERHEAD = 13"
definition EMSSH_SFTP_MAX_HANDLES :: nat where "EMSSH_SFTP_MAX_HANDLES = 16"
definition EMSSH_SFTP_MAX_IO :: nat where "EMSSH_SFTP_MAX_IO = EMSSH_MAX_PAYLOAD_SIZE"

text \<open>A status: \<open>None\<close> is \<^verbatim>\<open>SSH_OK\<close>.\<close>

type_synonym status = "ssh_err option"

record ssh_fs_dirent =
  de_filename :: cstr
  de_longname :: cstr
  de_attrs :: ssh_fs_attrs

record 'w ssh_fs_api =
  fs_open :: "(u8 list \<Rightarrow> u32 \<Rightarrow> ('w, nat) act) option"
  fs_close :: "(nat \<Rightarrow> ('w, unit) act) option"
  fs_read :: "(nat \<Rightarrow> nat \<Rightarrow> ('w, u8 list) act) option"
  fs_write :: "(nat \<Rightarrow> u8 list \<Rightarrow> ('w, nat) act) option"
  fs_read_at :: "(nat \<Rightarrow> u64 \<Rightarrow> nat \<Rightarrow> ('w, u8 list) act) option"
  fs_write_at :: "(nat \<Rightarrow> u64 \<Rightarrow> u8 list \<Rightarrow> ('w, nat) act) option"
  fs_stat :: "(u8 list \<Rightarrow> ssh_fs_attrs \<Rightarrow> 'w \<Rightarrow> (status \<times> ssh_fs_attrs) \<times> 'w) option"
  fs_lstat :: "(u8 list \<Rightarrow> ('w, ssh_fs_attrs) act) option"
  fs_setstat :: "(u8 list \<Rightarrow> ssh_fs_attrs \<Rightarrow> ('w, unit) act) option"
  fs_fsetstat :: "(nat \<Rightarrow> ssh_fs_attrs \<Rightarrow> ('w, unit) act) option"
  fs_opendir :: "(u8 list \<Rightarrow> ('w, nat) act) option"
  fs_readdir :: "(nat \<Rightarrow> ('w, ssh_fs_dirent \<times> bool) act) option"
  fs_closedir :: "(nat \<Rightarrow> ('w, unit) act) option"
  fs_mkdir :: "(u8 list \<Rightarrow> ssh_fs_attrs \<Rightarrow> ('w, unit) act) option"
  fs_rmdir :: "(u8 list \<Rightarrow> ('w, unit) act) option"
  fs_remove :: "(u8 list \<Rightarrow> ('w, unit) act) option"
  fs_rename :: "(u8 list \<Rightarrow> u8 list \<Rightarrow> ('w, unit) act) option"
  fs_posix_rename :: "(u8 list \<Rightarrow> u8 list \<Rightarrow> ('w, unit) act) option"
  fs_fsync :: "(nat \<Rightarrow> ('w, unit) act) option"
  fs_hardlink :: "(u8 list \<Rightarrow> u8 list \<Rightarrow> ('w, unit) act) option"
  fs_statvfs :: "(u8 list \<Rightarrow> ('w, ssh_fs_statvfs) act) option"
  fs_fstatvfs :: "(nat \<Rightarrow> ('w, ssh_fs_statvfs) act) option"

datatype sftp_policy_operation =
    SFTP_POLICY_REALPATH | SFTP_POLICY_STAT | SFTP_POLICY_OPEN | SFTP_POLICY_READ | SFTP_POLICY_WRITE
  | SFTP_POLICY_SETSTAT | SFTP_POLICY_OPENDIR | SFTP_POLICY_READDIR | SFTP_POLICY_REMOVE | SFTP_POLICY_MKDIR
  | SFTP_POLICY_RMDIR | SFTP_POLICY_RENAME | SFTP_POLICY_FSTAT | SFTP_POLICY_FSETSTAT | SFTP_POLICY_FSYNC
  | SFTP_POLICY_HARDLINK | SFTP_POLICY_STATVFS | SFTP_POLICY_FSTATVFS

record sftp_policy_request =
  po_operation :: sftp_policy_operation
  po_path :: cstr
  po_new_path :: cstr
  po_pflags :: u32
  po_offset :: u64
  po_length :: nat
  po_attrs :: "ssh_fs_attrs option"

datatype sftp_handle_kind = SFTP_HANDLE_KIND_FILE | SFTP_HANDLE_KIND_DIR

text \<open>A slot of the handle table. The kind of a zeroed slot is neither of the two. \<open>he_wire_handle\<close> is the used part
  of \<^verbatim>\<open>wire_handle\<close>, of length \<^verbatim>\<open>wire_handle_len\<close>.\<close>

record sftp_handle_entry =
  he_in_use :: bool
  he_kind :: "sftp_handle_kind option"
  he_wire_handle :: "u8 list"
  he_fs_handle :: nat
  he_pflags :: u32
  he_path :: "u8 list"
  he_attrs :: ssh_fs_attrs

text \<open>The policy callback is taken with its context, which is part of the world.\<close>

record 'w sftp_server_session =
  ses_fs :: "'w ssh_fs_api option"
  ses_policy :: "(sftp_policy_request \<Rightarrow> ('w, unit) act) option"
  ses_next_handle_id :: u32
  ses_handles :: "sftp_handle_entry list"

type_synonym 'w sftp_state = "'w sftp_server_session \<times> 'w"

section \<open>Status codes\<close>

definition status_from_error :: "status \<Rightarrow> u32" where
  "status_from_error st =
    (if st = None then SSH_FX_OK
     else if st = Some SSH_ERR_UNSUPPORTED then SSH_FX_OP_UNSUPPORTED
     else if st = Some SSH_ERR_SECURITY then SSH_FX_PERMISSION_DENIED
     else if st = Some SSH_ERR_READ_ONLY then SSH_FX_PERMISSION_DENIED
     else if st = Some SSH_ERR_NOT_FOUND then SSH_FX_NO_SUCH_FILE
     else if st = Some SSH_ERR_MALFORMED_PACKET \<or> st = Some SSH_ERR_INVALID_ARGUMENT then SSH_FX_BAD_MESSAGE
     else SSH_FX_FAILURE)"

fun status_message_from_error :: "status \<Rightarrow> string option \<Rightarrow> string" where
  "status_message_from_error None fallback = ''ok''"
| "status_message_from_error (Some SSH_ERR_UNSUPPORTED) fallback = ''unsupported''"
| "status_message_from_error (Some SSH_ERR_SECURITY) fallback = ''permission denied''"
| "status_message_from_error (Some SSH_ERR_READ_ONLY) fallback = ''read only''"
| "status_message_from_error (Some SSH_ERR_NOT_FOUND) fallback = ''not found''"
| "status_message_from_error (Some SSH_ERR_ALREADY_EXISTS) fallback = ''already exists''"
| "status_message_from_error (Some SSH_ERR_DIR_NOT_EMPTY) fallback = ''directory not empty''"
| "status_message_from_error (Some SSH_ERR_BUFFER_TOO_SMALL) fallback = ''buffer too small''"
| "status_message_from_error (Some SSH_ERR_BUFFER_OVERFLOW) fallback = ''buffer overflow''"
| "status_message_from_error (Some SSH_ERR_MALFORMED_PACKET) fallback = ''bad request''"
| "status_message_from_error (Some SSH_ERR_INVALID_ARGUMENT) fallback = ''bad request''"
| "status_message_from_error (Some SSH_ERR_PLATFORM) fallback = ''platform error''"
| "status_message_from_error (Some e) fallback = (case fallback of Some f \<Rightarrow> f | None \<Rightarrow> ''failure'')"

definition open_pflags_are_valid :: "u32 \<Rightarrow> bool" where
  "open_pflags_are_valid pflags =
    (let known_flags = SSH_FXF_READ OR SSH_FXF_WRITE OR SSH_FXF_APPEND OR SSH_FXF_CREAT OR SSH_FXF_TRUNC OR SSH_FXF_EXCL;
         write_only_flags = SSH_FXF_APPEND OR SSH_FXF_CREAT OR SSH_FXF_TRUNC OR SSH_FXF_EXCL in
     if pflags AND NOT known_flags \<noteq> 0 then False
     else if pflags AND (SSH_FXF_READ OR SSH_FXF_WRITE) = 0 then False
     else if pflags AND write_only_flags \<noteq> 0 \<and> pflags AND SSH_FXF_WRITE = 0 then False
     else if pflags AND SSH_FXF_EXCL \<noteq> 0 \<and> pflags AND SSH_FXF_CREAT = 0 then False
     else True)"

section \<open>The handle table\<close>

definition empty_entry :: sftp_handle_entry where
  "empty_entry = \<lparr>he_in_use = False, he_kind = None, he_wire_handle = [], he_fs_handle = 0, he_pflags = 0, he_path = [],
     he_attrs = empty_attrs\<rparr>"

definition handle_equals :: "sftp_handle_entry \<Rightarrow> view \<Rightarrow> bool" where
  "handle_equals entry handle \<longleftrightarrow> he_in_use entry \<and> length (he_wire_handle entry) = view_len handle \<and> handle \<noteq> None \<and>
     he_wire_handle entry = view_data handle"

text \<open>A pointer to a slot is its index.\<close>

definition find_handle :: "'w sftp_server_session \<Rightarrow> view \<Rightarrow> nat option" where
  "find_handle session handle = find (\<lambda>i. handle_equals (ses_handles session ! i) handle) [0..<EMSSH_SFTP_MAX_HANDLES]"

definition set_entry :: "'w sftp_server_session \<Rightarrow> nat \<Rightarrow> sftp_handle_entry \<Rightarrow> 'w sftp_server_session" where
  "set_entry session i entry = session\<lparr>ses_handles := (ses_handles session)[i := entry]\<rparr>"

definition alloc_handle :: "'w sftp_server_session \<Rightarrow> nat \<Rightarrow> sftp_handle_kind \<Rightarrow> u32 \<Rightarrow> cstr \<Rightarrow> ssh_fs_attrs option
    \<Rightarrow> nat option \<times> 'w sftp_server_session" where
  "alloc_handle session fs_handle kind pflags path attrs =
    (if fs_handle = 0 then (None, session)
     else if length (view_data path) \<ge> EMSSH_SFTP_MAX_PATH then (None, session)
     else case find (\<lambda>i. \<not> he_in_use (ses_handles session ! i)) [0..<EMSSH_SFTP_MAX_HANDLES] of
       None \<Rightarrow> (None, session)
     | Some i \<Rightarrow>
        let handle_id = ses_next_handle_id session;
            next_id = handle_id + 1;
            next_id = (if next_id = 0 then 1 else next_id);
            entry = \<lparr>he_in_use = True, he_kind = Some kind, he_wire_handle = write_u32_be handle_id, he_fs_handle = fs_handle,
              he_pflags = pflags, he_path = view_data path,
              he_attrs = (case attrs of Some a \<Rightarrow> a | None \<Rightarrow> empty_attrs)\<rparr>
        in (Some i, set_entry (session\<lparr>ses_next_handle_id := next_id\<rparr>) i entry))"

definition update_file_size_after_write :: "sftp_handle_entry \<Rightarrow> u64 \<Rightarrow> nat \<Rightarrow> sftp_handle_entry" where
  "update_file_size_after_write entry offset written_len =
    (if written_len = 0 \<or> written_len > 2 ^ 64 - 1 - unat offset then entry
     else let end_offset = offset + of_nat written_len; attrs = he_attrs entry in
       if attr_flags attrs AND SSH_FILEXFER_ATTR_SIZE = 0 \<or> end_offset > attr_size attrs
       then entry\<lparr>he_attrs := attrs\<lparr>attr_flags := attr_flags attrs OR SSH_FILEXFER_ATTR_SIZE, attr_size := end_offset\<rparr>\<rparr>
       else entry)"

definition merge_attrs :: "ssh_fs_attrs \<Rightarrow> ssh_fs_attrs \<Rightarrow> ssh_fs_attrs" where
  "merge_attrs dst src =
    (let flag = (\<lambda>f. attr_flags src AND f \<noteq> 0);
         dst = (if flag SSH_FILEXFER_ATTR_SIZE then dst\<lparr>attr_size := attr_size src\<rparr> else dst);
         dst = (if flag SSH_FILEXFER_ATTR_UIDGID then dst\<lparr>attr_uid := attr_uid src, attr_gid := attr_gid src\<rparr> else dst);
         dst = (if flag SSH_FILEXFER_ATTR_PERMISSIONS then dst\<lparr>attr_permissions := attr_permissions src\<rparr> else dst);
         dst = (if flag SSH_FILEXFER_ATTR_ACMODTIME then dst\<lparr>attr_atime := attr_atime src, attr_mtime := attr_mtime src\<rparr> else dst)
     in dst\<lparr>attr_flags := attr_flags dst OR attr_flags src\<rparr>)"

section \<open>Actions on the session\<close>

text \<open>\<open>tryA m h k\<close> goes on with \<open>h\<close> after an error of \<open>m\<close> and with \<open>k\<close> after success; \<open>valueA\<close> is a call without effect;
  \<open>sesA\<close> reads the session; \<open>fsA\<close> runs a callback on the world.\<close>

definition tryA :: "('s, 'a) act \<Rightarrow> (ssh_err \<Rightarrow> ('s, 'b) act) \<Rightarrow> ('a \<Rightarrow> ('s, 'b) act) \<Rightarrow> ('s, 'b) act" where
  "tryA m h k s = (case m s of (r, s') \<Rightarrow> (case r of Inl e \<Rightarrow> h e s' | Inr x \<Rightarrow> k x s'))"

definition valueA :: "ssh_err + 'a \<Rightarrow> ('s, 'a) act" where
  "valueA r s = (r, s)"

definition sesA :: "('w sftp_server_session \<Rightarrow> ('w sftp_state, 'a) act) \<Rightarrow> ('w sftp_state, 'a) act" where
  "sesA k \<sigma> = k (fst \<sigma>) \<sigma>"

definition putA :: "'w sftp_server_session \<Rightarrow> ('w sftp_state, unit) act" where
  "putA session \<sigma> = (Inr (), (session, snd \<sigma>))"

definition fsA :: "('w, 'a) act \<Rightarrow> ('w sftp_state, 'a) act" where
  "fsA f \<sigma> = (case f (snd \<sigma>) of (r, w) \<Rightarrow> (r, (fst \<sigma>, w)))"

definition statA :: "(u8 list \<Rightarrow> ssh_fs_attrs \<Rightarrow> 'w \<Rightarrow> (status \<times> ssh_fs_attrs) \<times> 'w) \<Rightarrow> u8 list \<Rightarrow> ssh_fs_attrs
    \<Rightarrow> ('w sftp_state, status \<times> ssh_fs_attrs) act" where
  "statA f path attrs \<sigma> = (case f path attrs (snd \<sigma>) of (r, w) \<Rightarrow> (Inr r, (fst \<sigma>, w)))"

definition fs_op :: "('w ssh_fs_api \<Rightarrow> 'f option) \<Rightarrow> 'w sftp_server_session \<Rightarrow> 'f option" where
  "fs_op op session = (case ses_fs session of None \<Rightarrow> None | Some fs \<Rightarrow> op fs)"

definition close_entry :: "nat \<Rightarrow> ('w sftp_state, unit) act" where
  "close_entry i = sesA (\<lambda>session. let entry = ses_handles session ! i in
     if \<not> he_in_use entry then failA SSH_ERR_INVALID_ARGUMENT
     else
       let clear = sesA (\<lambda>session. putA (set_entry session i empty_entry));
           call = (if he_kind entry = Some SFTP_HANDLE_KIND_DIR \<and> fs_op fs_closedir session \<noteq> None
                   then fsA (the (fs_op fs_closedir session) (he_fs_handle entry))
                   else if he_kind entry = Some SFTP_HANDLE_KIND_FILE \<and> fs_op fs_close session \<noteq> None
                   then fsA (the (fs_op fs_close session) (he_fs_handle entry))
                   else retA ())
       in tryA call (\<lambda>e. thenA clear (failA e)) (\<lambda>_. clear))"

definition policy_check :: "sftp_policy_operation \<Rightarrow> cstr \<Rightarrow> cstr \<Rightarrow> u32 \<Rightarrow> u64 \<Rightarrow> nat \<Rightarrow> ssh_fs_attrs option
    \<Rightarrow> ('w sftp_state, unit) act" where
  "policy_check operation path new_path pflags offset len attrs = sesA (\<lambda>session. case ses_policy session of
     None \<Rightarrow> retA ()
   | Some policy \<Rightarrow> fsA (policy \<lparr>po_operation = operation, po_path = path, po_new_path = new_path, po_pflags = pflags,
       po_offset = offset, po_length = len, po_attrs = attrs\<rparr>))"

section \<open>Replies\<close>

definition encode_status :: "nat \<Rightarrow> u32 \<Rightarrow> u32 \<Rightarrow> string \<Rightarrow> ssh_err + u8 list" where
  "encode_status response_capacity request_id status_code message =
     sftp_status_encode response_capacity request_id status_code (Some (lit message)) (Some [])"

text \<open>The data already lie in the response after the header; the header is written in front of them.\<close>

definition finish_data_response_in_place :: "nat \<Rightarrow> u32 \<Rightarrow> u8 list \<Rightarrow> ssh_err + u8 list" where
  "finish_data_response_in_place response_capacity request_id data =
    (if length data > UINT32_MAX - 9 \<or> response_capacity < SFTP_DATA_RESPONSE_OVERHEAD \<or>
        length data > response_capacity - SFTP_DATA_RESPONSE_OVERHEAD
     then Inl SSH_ERR_BUFFER_TOO_SMALL
     else Inr (write_u32_be (of_nat (length data) + 9) @ [SSH_FXP_DATA] @ write_u32_be request_id @
       write_u32_be (of_nat (length data)) @ data))"

definition view_equals_cstring :: "view \<Rightarrow> cstr \<Rightarrow> bool" where
  "view_equals_cstring v str \<longleftrightarrow> (if v = None \<or> str = None then False else view_len v = view_len str \<and> view_data v = view_data str)"

text \<open>\<^verbatim>\<open>encode_server_version\<close> and \<^verbatim>\<open>encode_statvfs_reply\<close> frame their payload themselves.\<close>

definition encode_framed :: "(ssh_buffer, unit) act \<Rightarrow> nat \<Rightarrow> ssh_err + u8 list" where
  "encode_framed put response_capacity =
    (if response_capacity < 4 then Inl SSH_ERR_BUFFER_TOO_SMALL
     else case put (ssh_buffer_init (Some (replicate (response_capacity - 4) 0)) (response_capacity - 4)) of
       (Inl e, _) \<Rightarrow> Inl e
     | (Inr _, payload) \<Rightarrow> Inr (write_u32_be (of_nat (ssh_buffer_len payload)) @ buf_content payload))"

definition put_extension :: "bool \<Rightarrow> string \<Rightarrow> string \<Rightarrow> (ssh_buffer, unit) act" where
  "put_extension advertise name version =
     thenA (put_if advertise (ssh_buffer_put_cstring (Some (lit name))))
       (put_if advertise (ssh_buffer_put_cstring (Some (lit version))))"

definition encode_server_version :: "nat \<Rightarrow> bool \<Rightarrow> bool \<Rightarrow> bool \<Rightarrow> bool \<Rightarrow> bool \<Rightarrow> ssh_err + u8 list" where
  "encode_server_version response_capacity advertise_posix_rename advertise_fsync advertise_hardlink advertise_statvfs
      advertise_fstatvfs = encode_framed
     (thenA (ssh_buffer_put_u8 SSH_FXP_VERSION)
     (thenA (ssh_buffer_put_u32 SFTP_VERSION_3)
     (thenA (put_extension advertise_posix_rename ''posix-rename@openssh.com'' ''1'')
     (thenA (put_extension advertise_fsync ''fsync@openssh.com'' ''1'')
     (thenA (put_extension advertise_hardlink ''hardlink@openssh.com'' ''1'')
     (thenA (put_extension advertise_statvfs ''statvfs@openssh.com'' ''2'')
     (put_extension advertise_fstatvfs ''fstatvfs@openssh.com'' ''2''))))))) response_capacity"

definition encode_statvfs_reply :: "nat \<Rightarrow> u32 \<Rightarrow> ssh_fs_statvfs \<Rightarrow> ssh_err + u8 list" where
  "encode_statvfs_reply response_capacity request_id stats = encode_framed
     (thenA (ssh_buffer_put_u8 SSH_FXP_EXTENDED_REPLY)
     (thenA (ssh_buffer_put_u32 request_id)
     (thenA (ssh_buffer_put_u64 (vfs_bsize stats))
     (thenA (ssh_buffer_put_u64 (vfs_frsize stats))
     (thenA (ssh_buffer_put_u64 (vfs_blocks stats))
     (thenA (ssh_buffer_put_u64 (vfs_bfree stats))
     (thenA (ssh_buffer_put_u64 (vfs_bavail stats))
     (thenA (ssh_buffer_put_u64 (vfs_files stats))
     (thenA (ssh_buffer_put_u64 (vfs_ffree stats))
     (thenA (ssh_buffer_put_u64 (vfs_favail stats))
     (thenA (ssh_buffer_put_u64 (vfs_fsid stats))
     (thenA (ssh_buffer_put_u64 (vfs_flag stats))
     (ssh_buffer_put_u64 (vfs_namemax stats)))))))))))))) response_capacity"

text \<open>The endings of the handlers: a status reply with a fixed message, one for an error, and one for the status of a
  chain of calls with \<^verbatim>\<open>status_message_from_error\<close>.\<close>

definition statusA :: "nat \<Rightarrow> u32 \<Rightarrow> u32 \<Rightarrow> string \<Rightarrow> ('s, u8 list) act" where
  "statusA response_capacity request_id code message = valueA (encode_status response_capacity request_id code message)"

definition resultA :: "nat \<Rightarrow> u32 \<Rightarrow> string \<Rightarrow> status \<Rightarrow> ('s, u8 list) act" where
  "resultA response_capacity request_id fallback st =
     statusA response_capacity request_id (status_from_error st) (status_message_from_error st (Some fallback))"

definition finishA :: "nat \<Rightarrow> u32 \<Rightarrow> string \<Rightarrow> ('s, unit) act \<Rightarrow> ('s, u8 list) act" where
  "finishA response_capacity request_id fallback m =
     tryA m (\<lambda>e. resultA response_capacity request_id fallback (Some e)) (\<lambda>_. resultA response_capacity request_id fallback None)"

section \<open>Handlers\<close>

definition handle_init :: "u8 list \<Rightarrow> nat \<Rightarrow> ('w sftp_state, u8 list) act" where
  "handle_init request response_capacity =
    tryA (valueA (sftp_init_decode request)) (\<lambda>_. statusA response_capacity 0 SSH_FX_BAD_MESSAGE ''bad init'') (\<lambda>_.
    sesA (\<lambda>session. valueA (encode_server_version response_capacity
      (fs_op fs_posix_rename session \<noteq> None) (fs_op fs_fsync session \<noteq> None) (fs_op fs_hardlink session \<noteq> None)
      (fs_op fs_statvfs session \<noteq> None) (fs_op fs_fstatvfs session \<noteq> None))))"

definition handle_realpath :: "u8 list \<Rightarrow> nat \<Rightarrow> ('w sftp_state, u8 list) act" where
  "handle_realpath request response_capacity =
    tryA (valueA (sftp_realpath_request_decode request))
      (\<lambda>_. statusA response_capacity 0 SSH_FX_BAD_MESSAGE ''bad realpath'') (\<lambda>realpath.
    tryA (valueA (copy_path (pr_path realpath)))
      (\<lambda>e. statusA response_capacity (pr_id realpath) (status_from_error (Some e)) ''bad path'') (\<lambda>path.
    tryA (policy_check SFTP_POLICY_REALPATH (Some path) None 0 0 0 None)
      (\<lambda>e. statusA response_capacity (pr_id realpath) (status_from_error (Some e)) ''realpath denied'') (\<lambda>_.
    tryA (valueA (make_realpath_reply_path path))
      (\<lambda>e. statusA response_capacity (pr_id realpath) (status_from_error (Some e)) ''realpath reply failed'') (\<lambda>reply_path.
    valueA (sftp_name_one_encode response_capacity (pr_id realpath) (Some reply_path) (Some reply_path))))))"

text \<open>\<^verbatim>\<open>stat\<close> with its status checked. The local \<^verbatim>\<open>attrs\<close> it fills is not initialised; here it starts zeroed.\<close>

definition checked_stat :: "(u8 list \<Rightarrow> ssh_fs_attrs \<Rightarrow> 'w \<Rightarrow> (status \<times> ssh_fs_attrs) \<times> 'w) \<Rightarrow> u8 list
    \<Rightarrow> ('w sftp_state, ssh_fs_attrs) act" where
  "checked_stat f path = bindA (statA f path empty_attrs) (\<lambda>(st, attrs). case st of None \<Rightarrow> retA attrs | Some e \<Rightarrow> failA e)"

definition handle_path_attrs :: "u8 list \<Rightarrow> u8 \<Rightarrow> nat \<Rightarrow> ('w sftp_state, u8 list) act" where
  "handle_path_attrs request packet_type response_capacity =
    tryA (valueA (if packet_type = SSH_FXP_LSTAT then sftp_lstat_request_decode request else sftp_stat_request_decode request))
      (\<lambda>_. statusA response_capacity 0 SSH_FX_BAD_MESSAGE ''bad stat'') (\<lambda>attrs_request.
    sesA (\<lambda>session.
      if ses_fs session = None \<or> (packet_type = SSH_FXP_LSTAT \<and> fs_op fs_lstat session = None) \<or>
         (packet_type = SSH_FXP_STAT \<and> fs_op fs_stat session = None)
      then statusA response_capacity (pr_id attrs_request) SSH_FX_OP_UNSUPPORTED ''stat unsupported''
      else
        tryA (bindA (valueA (copy_path (pr_path attrs_request))) (\<lambda>path.
              thenA (policy_check SFTP_POLICY_STAT (Some path) None 0 0 0 None)
              (if packet_type = SSH_FXP_LSTAT then fsA (the (fs_op fs_lstat session) path)
               else checked_stat (the (fs_op fs_stat session)) path)))
          (\<lambda>e. resultA response_capacity (pr_id attrs_request) ''stat failed'' (Some e)) (\<lambda>attrs.
        valueA (sftp_attrs_encode response_capacity (pr_id attrs_request) attrs))))"

text \<open>The \<^verbatim>\<open>(void)close(...)\<close> and \<^verbatim>\<open>(void)closedir(...)\<close> of a handle that is not kept, and the \<^verbatim>\<open>(void)stat(...)\<close> that
  refreshes the attributes where the file system has it.\<close>

definition dropA :: "(nat \<Rightarrow> ('w, unit) act) option \<Rightarrow> nat \<Rightarrow> ('w sftp_state, 'a) act \<Rightarrow> ('w sftp_state, 'a) act" where
  "dropA close h k = (case close of None \<Rightarrow> k | Some f \<Rightarrow> tryA (fsA (f h)) (\<lambda>_. k) (\<lambda>_. k))"

definition refresh_attrs :: "u8 list \<Rightarrow> ssh_fs_attrs \<Rightarrow> ('w sftp_state, ssh_fs_attrs) act" where
  "refresh_attrs path attrs = sesA (\<lambda>session. case fs_op fs_stat session of
     None \<Rightarrow> retA attrs
   | Some f \<Rightarrow> bindA (statA f path attrs) (\<lambda>(_, attrs). retA attrs))"

text \<open>The end of \<^verbatim>\<open>handle_open\<close> and \<^verbatim>\<open>handle_opendir\<close>: the handle enters the table and its wire form is the reply, or it is
  closed again.\<close>

definition register_handle :: "nat \<Rightarrow> u32 \<Rightarrow> ('w ssh_fs_api \<Rightarrow> (nat \<Rightarrow> ('w, unit) act) option) \<Rightarrow> nat \<Rightarrow> sftp_handle_kind \<Rightarrow> u32
    \<Rightarrow> u8 list \<Rightarrow> ssh_fs_attrs \<Rightarrow> ('w sftp_state, u8 list) act" where
  "register_handle response_capacity request_id close fs_handle kind pflags path attrs = sesA (\<lambda>session.
     case alloc_handle session fs_handle kind pflags (Some path) (Some attrs) of
       (None, _) \<Rightarrow> dropA (fs_op close session) fs_handle (statusA response_capacity request_id SSH_FX_FAILURE ''no handles'')
     | (Some i, session) \<Rightarrow> thenA (putA session)
         (valueA (sftp_handle_encode response_capacity request_id (he_wire_handle (ses_handles session ! i)))))"

text \<open>\<^verbatim>\<open>handle_open\<close> from the call of \<^verbatim>\<open>open\<close> on.\<close>

definition open_file :: "nat \<Rightarrow> u32 \<Rightarrow> (u8 list \<Rightarrow> u32 \<Rightarrow> ('w, nat) act) \<Rightarrow> u8 list \<Rightarrow> u32 \<Rightarrow> ssh_fs_attrs
    \<Rightarrow> ('w sftp_state, u8 list) act" where
  "open_file response_capacity request_id open path pflags open_attrs =
    tryA (fsA (open path pflags)) (\<lambda>e. resultA response_capacity request_id ''open failed'' (Some e)) (\<lambda>fs_handle.
    sesA (\<lambda>session.
    tryA (if attr_flags open_attrs \<noteq> 0 then fsA (the (fs_op fs_fsetstat session) fs_handle open_attrs) else retA ())
      (\<lambda>e. dropA (fs_op fs_close session) fs_handle (resultA response_capacity request_id ''open attrs failed'' (Some e))) (\<lambda>_.
    bindA (refresh_attrs path open_attrs) (\<lambda>attrs.
    register_handle response_capacity request_id fs_close fs_handle SFTP_HANDLE_KIND_FILE pflags path attrs))))"

definition handle_open :: "u8 list \<Rightarrow> nat \<Rightarrow> ('w sftp_state, u8 list) act" where
  "handle_open request response_capacity =
    tryA (valueA (sftp_open_request_decode request))
      (\<lambda>_. statusA response_capacity 0 SSH_FX_BAD_MESSAGE ''bad open'') (\<lambda>open_request.
    sesA (\<lambda>session. case fs_op fs_open session of
      None \<Rightarrow> statusA response_capacity (or_id open_request) SSH_FX_OP_UNSUPPORTED ''open unsupported''
    | Some open \<Rightarrow>
      tryA (valueA (copy_path (or_filename open_request)))
        (\<lambda>e. statusA response_capacity (or_id open_request) (status_from_error (Some e)) ''bad path'') (\<lambda>path.
      if \<not> open_pflags_are_valid (or_pflags open_request)
      then statusA response_capacity (or_id open_request) SSH_FX_BAD_MESSAGE ''bad open flags''
      else
      tryA (valueA (sftp_attrs_decode (or_attrs open_request)))
        (\<lambda>e. statusA response_capacity (or_id open_request) (status_from_error (Some e)) ''bad attrs'') (\<lambda>requested_attrs.
      if attr_flags requested_attrs \<noteq> 0 \<and> or_pflags open_request AND SSH_FXF_WRITE = 0
      then statusA response_capacity (or_id open_request) SSH_FX_PERMISSION_DENIED ''open attrs denied''
      else
      let open_attrs = requested_attrs\<lparr>attr_flags := attr_flags requested_attrs AND NOT SSH_FILEXFER_ATTR_SIZE\<rparr> in
      if attr_flags open_attrs \<noteq> 0 \<and> fs_op fs_fsetstat session = None
      then statusA response_capacity (or_id open_request) SSH_FX_OP_UNSUPPORTED ''open attrs unsupported''
      else
      tryA (policy_check SFTP_POLICY_OPEN (Some path) None (or_pflags open_request) 0 0 (Some requested_attrs))
        (\<lambda>e. statusA response_capacity (or_id open_request) (status_from_error (Some e)) ''open denied'') (\<lambda>_.
      open_file response_capacity (or_id open_request) open path (or_pflags open_request) open_attrs)))))"

definition handle_close :: "u8 list \<Rightarrow> nat \<Rightarrow> ('w sftp_state, u8 list) act" where
  "handle_close request response_capacity =
    tryA (valueA (sftp_close_request_decode request))
      (\<lambda>_. statusA response_capacity 0 SSH_FX_BAD_MESSAGE ''bad close'') (\<lambda>close_request.
    sesA (\<lambda>session. case find_handle session (hr_handle close_request) of
      None \<Rightarrow> statusA response_capacity (hr_id close_request) SSH_FX_FAILURE ''bad handle''
    | Some i \<Rightarrow> finishA response_capacity (hr_id close_request) ''close failed'' (close_entry i)))"

definition handle_fstat :: "u8 list \<Rightarrow> nat \<Rightarrow> ('w sftp_state, u8 list) act" where
  "handle_fstat request response_capacity =
    tryA (valueA (sftp_fstat_request_decode request))
      (\<lambda>_. statusA response_capacity 0 SSH_FX_BAD_MESSAGE ''bad fstat'') (\<lambda>fstat_request.
    sesA (\<lambda>session. case find_handle session (hr_handle fstat_request) of
      None \<Rightarrow> statusA response_capacity (hr_id fstat_request) SSH_FX_FAILURE ''bad handle''
    | Some i \<Rightarrow> let entry = ses_handles session ! i in
      tryA (policy_check SFTP_POLICY_FSTAT (Some (he_path entry)) None 0 0 0 None)
        (\<lambda>e. statusA response_capacity (hr_id fstat_request) (status_from_error (Some e)) ''fstat denied'') (\<lambda>_.
      bindA (if fs_op fs_stat session \<noteq> None \<and> he_path entry \<noteq> [] then
               tryA (checked_stat (the (fs_op fs_stat session)) (he_path entry)) (\<lambda>_. retA entry) (\<lambda>refreshed_attrs.
               let entry = entry\<lparr>he_attrs := refreshed_attrs\<rparr> in
               sesA (\<lambda>session. thenA (putA (set_entry session i entry)) (retA entry)))
             else retA entry) (\<lambda>entry.
      if attr_flags (he_attrs entry) = 0
      then statusA response_capacity (hr_id fstat_request) SSH_FX_OP_UNSUPPORTED ''fstat unsupported''
      else valueA (sftp_attrs_encode response_capacity (hr_id fstat_request) (he_attrs entry))))))"

definition handle_setstat :: "u8 list \<Rightarrow> nat \<Rightarrow> ('w sftp_state, u8 list) act" where
  "handle_setstat request response_capacity = (case sftp_setstat_request_decode request of (decoded, request_id) \<Rightarrow>
    tryA (valueA decoded)
      (\<lambda>e. statusA response_capacity request_id (status_from_error (Some e)) ''bad setstat'') (\<lambda>setstat_request.
    sesA (\<lambda>session. case fs_op fs_setstat session of
      None \<Rightarrow> statusA response_capacity request_id SSH_FX_OP_UNSUPPORTED ''setstat unsupported''
    | Some setstat \<Rightarrow> finishA response_capacity request_id ''setstat failed''
        (bindA (valueA (copy_path (ss_path setstat_request))) (\<lambda>path.
         thenA (policy_check SFTP_POLICY_SETSTAT (Some path) None 0 0 0 (Some (ss_attrs setstat_request)))
         (fsA (setstat path (ss_attrs setstat_request))))))))"

definition handle_fsetstat :: "u8 list \<Rightarrow> nat \<Rightarrow> ('w sftp_state, u8 list) act" where
  "handle_fsetstat request response_capacity = (case sftp_fsetstat_request_decode request of (decoded, request_id) \<Rightarrow>
    tryA (valueA decoded)
      (\<lambda>e. statusA response_capacity request_id (status_from_error (Some e)) ''bad fsetstat'') (\<lambda>fsetstat_request.
    sesA (\<lambda>session. case fs_op fs_fsetstat session of
      None \<Rightarrow> statusA response_capacity request_id SSH_FX_OP_UNSUPPORTED ''fsetstat unsupported''
    | Some fsetstat \<Rightarrow> (case find_handle session (fs_handle_view fsetstat_request) of
        None \<Rightarrow> statusA response_capacity request_id SSH_FX_FAILURE ''bad handle''
      | Some i \<Rightarrow> let entry = ses_handles session ! i; attrs = fs_attrs fsetstat_request in
        if he_kind entry \<noteq> Some SFTP_HANDLE_KIND_FILE
        then statusA response_capacity request_id SSH_FX_FAILURE ''bad handle''
        else if he_pflags entry AND SSH_FXF_WRITE = 0
        then statusA response_capacity request_id SSH_FX_PERMISSION_DENIED ''fsetstat denied''
        else
        tryA (policy_check SFTP_POLICY_FSETSTAT (Some (he_path entry)) None (he_pflags entry) 0 0 (Some attrs))
          (\<lambda>e. statusA response_capacity request_id (status_from_error (Some e)) ''fsetstat denied'') (\<lambda>_.
        finishA response_capacity request_id ''fsetstat failed''
          (thenA (fsA (fsetstat (he_fs_handle entry) attrs))
          (sesA (\<lambda>session. putA (set_entry session i (entry\<lparr>he_attrs := merge_attrs (he_attrs entry) attrs\<rparr>))))))))))"

text \<open>The call of \<^verbatim>\<open>read_at\<close> where there is one, of \<^verbatim>\<open>read\<close> otherwise; the same for writing.\<close>

definition call_read :: "'w sftp_server_session \<Rightarrow> nat \<Rightarrow> u64 \<Rightarrow> nat \<Rightarrow> ('w sftp_state, u8 list) act" where
  "call_read session fs_handle offset wanted = (case fs_op fs_read_at session of
     Some read_at \<Rightarrow> fsA (read_at fs_handle offset wanted)
   | None \<Rightarrow> fsA (the (fs_op fs_read session) fs_handle wanted))"

definition call_write :: "'w sftp_server_session \<Rightarrow> nat \<Rightarrow> u64 \<Rightarrow> u8 list \<Rightarrow> ('w sftp_state, nat) act" where
  "call_write session fs_handle offset data = (case fs_op fs_write_at session of
     Some write_at \<Rightarrow> fsA (write_at fs_handle offset data)
   | None \<Rightarrow> fsA (the (fs_op fs_write session) fs_handle data))"

definition handle_read :: "u8 list \<Rightarrow> nat \<Rightarrow> ('w sftp_state, u8 list) act" where
  "handle_read request response_capacity =
    tryA (valueA (sftp_read_request_decode request))
      (\<lambda>_. statusA response_capacity 0 SSH_FX_BAD_MESSAGE ''bad read'') (\<lambda>read_request.
    sesA (\<lambda>session.
      if fs_op fs_read session = None \<and> fs_op fs_read_at session = None
      then statusA response_capacity (rr_id read_request) SSH_FX_OP_UNSUPPORTED ''read unsupported''
      else case find_handle session (rr_handle read_request) of
        None \<Rightarrow> statusA response_capacity (rr_id read_request) SSH_FX_FAILURE ''bad handle''
      | Some i \<Rightarrow> let entry = ses_handles session ! i in
        if he_kind entry \<noteq> Some SFTP_HANDLE_KIND_FILE
        then statusA response_capacity (rr_id read_request) SSH_FX_FAILURE ''bad handle''
        else if he_pflags entry AND SSH_FXF_READ = 0
        then statusA response_capacity (rr_id read_request) SSH_FX_PERMISSION_DENIED ''read denied''
        else if response_capacity \<le> SFTP_DATA_RESPONSE_OVERHEAD then failA SSH_ERR_BUFFER_TOO_SMALL
        else
        let data_capacity = response_capacity - SFTP_DATA_RESPONSE_OVERHEAD;
            wanted = (if unat (rr_len read_request) < EMSSH_SFTP_MAX_IO then unat (rr_len read_request) else EMSSH_SFTP_MAX_IO);
            wanted = (if wanted > data_capacity then data_capacity else wanted) in
        tryA (policy_check SFTP_POLICY_READ (Some (he_path entry)) None (he_pflags entry) (rr_offset read_request) wanted None)
          (\<lambda>e. statusA response_capacity (rr_id read_request) (status_from_error (Some e)) ''read denied'') (\<lambda>_.
        tryA (call_read session (he_fs_handle entry) (rr_offset read_request) wanted)
          (\<lambda>e. resultA response_capacity (rr_id read_request) ''read failed'' (Some e)) (\<lambda>data.
        if length data > wanted
        then statusA response_capacity (rr_id read_request) SSH_FX_FAILURE ''invalid read length''
        else if length data = 0 then statusA response_capacity (rr_id read_request) SSH_FX_EOF ''eof''
        else valueA (finish_data_response_in_place response_capacity (rr_id read_request) data)))))"

definition handle_opendir :: "u8 list \<Rightarrow> nat \<Rightarrow> ('w sftp_state, u8 list) act" where
  "handle_opendir request response_capacity =
    tryA (valueA (sftp_opendir_request_decode request))
      (\<lambda>_. statusA response_capacity 0 SSH_FX_BAD_MESSAGE ''bad opendir'') (\<lambda>opendir_request.
    sesA (\<lambda>session. case fs_op fs_opendir session of
      None \<Rightarrow> statusA response_capacity (pr_id opendir_request) SSH_FX_OP_UNSUPPORTED ''opendir unsupported''
    | Some opendir \<Rightarrow>
      tryA (valueA (copy_path (pr_path opendir_request)))
        (\<lambda>e. statusA response_capacity (pr_id opendir_request) (status_from_error (Some e)) ''bad path'') (\<lambda>path.
      tryA (policy_check SFTP_POLICY_OPENDIR (Some path) None 0 0 0 None)
        (\<lambda>e. statusA response_capacity (pr_id opendir_request) (status_from_error (Some e)) ''opendir denied'') (\<lambda>_.
      tryA (fsA (opendir path)) (\<lambda>e. resultA response_capacity (pr_id opendir_request) ''opendir failed'' (Some e)) (\<lambda>fs_handle.
      bindA (refresh_attrs path empty_attrs) (\<lambda>attrs.
      register_handle response_capacity (pr_id opendir_request) fs_closedir fs_handle SFTP_HANDLE_KIND_DIR 0 path attrs))))))"

definition handle_readdir :: "u8 list \<Rightarrow> nat \<Rightarrow> ('w sftp_state, u8 list) act" where
  "handle_readdir request response_capacity =
    tryA (valueA (sftp_readdir_request_decode request))
      (\<lambda>_. statusA response_capacity 0 SSH_FX_BAD_MESSAGE ''bad readdir'') (\<lambda>readdir_request.
    sesA (\<lambda>session. case fs_op fs_readdir session of
      None \<Rightarrow> statusA response_capacity (hr_id readdir_request) SSH_FX_OP_UNSUPPORTED ''readdir unsupported''
    | Some readdir \<Rightarrow> (case find_handle session (hr_handle readdir_request) of
        None \<Rightarrow> statusA response_capacity (hr_id readdir_request) SSH_FX_FAILURE ''bad handle''
      | Some i \<Rightarrow> let entry = ses_handles session ! i in
        if he_kind entry \<noteq> Some SFTP_HANDLE_KIND_DIR
        then statusA response_capacity (hr_id readdir_request) SSH_FX_FAILURE ''bad handle''
        else
        tryA (policy_check SFTP_POLICY_READDIR (Some (he_path entry)) None 0 0 0 None)
          (\<lambda>e. statusA response_capacity (hr_id readdir_request) (status_from_error (Some e)) ''readdir denied'') (\<lambda>_.
        tryA (fsA (readdir (he_fs_handle entry)))
          (\<lambda>e. resultA response_capacity (hr_id readdir_request) ''readdir failed'' (Some e)) (\<lambda>(dirent, eof).
        if eof then statusA response_capacity (hr_id readdir_request) SSH_FX_EOF ''eof''
        else if de_filename dirent = None
        then statusA response_capacity (hr_id readdir_request) SSH_FX_FAILURE ''bad dirent''
        else valueA (sftp_name_one_attrs_encode response_capacity (hr_id readdir_request) (de_filename dirent)
          (de_longname dirent) (de_attrs dirent)))))))"

definition handle_write :: "u8 list \<Rightarrow> nat \<Rightarrow> ('w sftp_state, u8 list) act" where
  "handle_write request response_capacity =
    tryA (valueA (sftp_write_request_decode request))
      (\<lambda>_. statusA response_capacity 0 SSH_FX_BAD_MESSAGE ''bad write'') (\<lambda>write_request.
    sesA (\<lambda>session.
      if fs_op fs_write session = None \<and> fs_op fs_write_at session = None
      then statusA response_capacity (wr_id write_request) SSH_FX_OP_UNSUPPORTED ''write unsupported''
      else case find_handle session (wr_handle write_request) of
        None \<Rightarrow> statusA response_capacity (wr_id write_request) SSH_FX_FAILURE ''bad handle''
      | Some i \<Rightarrow> let entry = ses_handles session ! i; data = view_data (wr_data write_request) in
        if he_kind entry \<noteq> Some SFTP_HANDLE_KIND_FILE
        then statusA response_capacity (wr_id write_request) SSH_FX_FAILURE ''bad handle''
        else if he_pflags entry AND SSH_FXF_WRITE = 0
        then statusA response_capacity (wr_id write_request) SSH_FX_PERMISSION_DENIED ''write denied''
        else
        tryA (policy_check SFTP_POLICY_WRITE (Some (he_path entry)) None (he_pflags entry) (wr_offset write_request) (length data) None)
          (\<lambda>e. statusA response_capacity (wr_id write_request) (status_from_error (Some e)) ''write denied'') (\<lambda>_.
        tryA (call_write session (he_fs_handle entry) (wr_offset write_request) data)
          (\<lambda>e. resultA response_capacity (wr_id write_request) ''write failed'' (Some e)) (\<lambda>written_len.
        if written_len \<noteq> length data
        then statusA response_capacity (wr_id write_request) SSH_FX_FAILURE ''short write''
        else
        thenA (if fs_op fs_write_at session \<noteq> None
               then sesA (\<lambda>session. putA (set_entry session i (update_file_size_after_write entry (wr_offset write_request) written_len)))
               else retA ())
        (statusA response_capacity (wr_id write_request) SSH_FX_OK ''ok'')))))"

definition handle_remove :: "u8 list \<Rightarrow> nat \<Rightarrow> ('w sftp_state, u8 list) act" where
  "handle_remove request response_capacity =
    tryA (valueA (sftp_remove_request_decode request))
      (\<lambda>_. statusA response_capacity 0 SSH_FX_BAD_MESSAGE ''bad remove'') (\<lambda>remove_request.
    sesA (\<lambda>session. case fs_op fs_remove session of
      None \<Rightarrow> statusA response_capacity (pr_id remove_request) SSH_FX_OP_UNSUPPORTED ''remove unsupported''
    | Some remove \<Rightarrow> finishA response_capacity (pr_id remove_request) ''remove failed''
        (bindA (valueA (copy_path (pr_path remove_request))) (\<lambda>path.
         thenA (policy_check SFTP_POLICY_REMOVE (Some path) None 0 0 0 None) (fsA (remove path))))))"

definition handle_mkdir :: "u8 list \<Rightarrow> nat \<Rightarrow> ('w sftp_state, u8 list) act" where
  "handle_mkdir request response_capacity =
    tryA (valueA (sftp_mkdir_request_decode request))
      (\<lambda>_. statusA response_capacity 0 SSH_FX_BAD_MESSAGE ''bad mkdir'') (\<lambda>mkdir_request.
    sesA (\<lambda>session. case fs_op fs_mkdir session of
      None \<Rightarrow> statusA response_capacity (mk_id mkdir_request) SSH_FX_OP_UNSUPPORTED ''mkdir unsupported''
    | Some mkdir \<Rightarrow> finishA response_capacity (mk_id mkdir_request) ''mkdir failed''
        (bindA (valueA (copy_path (mk_path mkdir_request))) (\<lambda>path.
         bindA (valueA (sftp_attrs_decode (mk_attrs mkdir_request))) (\<lambda>attrs.
         thenA (policy_check SFTP_POLICY_MKDIR (Some path) None 0 0 0 (Some attrs)) (fsA (mkdir path attrs)))))))"

definition handle_rmdir :: "u8 list \<Rightarrow> nat \<Rightarrow> ('w sftp_state, u8 list) act" where
  "handle_rmdir request response_capacity =
    tryA (valueA (sftp_rmdir_request_decode request))
      (\<lambda>_. statusA response_capacity 0 SSH_FX_BAD_MESSAGE ''bad rmdir'') (\<lambda>rmdir_request.
    sesA (\<lambda>session. case fs_op fs_rmdir session of
      None \<Rightarrow> statusA response_capacity (pr_id rmdir_request) SSH_FX_OP_UNSUPPORTED ''rmdir unsupported''
    | Some rmdir \<Rightarrow> finishA response_capacity (pr_id rmdir_request) ''rmdir failed''
        (bindA (valueA (copy_path (pr_path rmdir_request))) (\<lambda>path.
         thenA (policy_check SFTP_POLICY_RMDIR (Some path) None 0 0 0 None) (fsA (rmdir path))))))"

text \<open>The \<^verbatim>\<open>rename\<close> call of \<^verbatim>\<open>handle_rename\<close>, with \<^verbatim>\<open>posix_rename\<close> tried where the target exists.\<close>

definition rename_or_replace :: "(u8 list \<Rightarrow> u8 list \<Rightarrow> ('w, unit) act) \<Rightarrow> (u8 list \<Rightarrow> u8 list \<Rightarrow> ('w, unit) act) option
    \<Rightarrow> u8 list \<Rightarrow> u8 list \<Rightarrow> ('w sftp_state, unit) act" where
  "rename_or_replace rename posix_rename old_path new_path =
    tryA (fsA (rename old_path new_path))
      (\<lambda>e. if e = SSH_ERR_ALREADY_EXISTS \<and> posix_rename \<noteq> None then fsA (the posix_rename old_path new_path) else failA e)
      retA"

definition handle_rename :: "u8 list \<Rightarrow> nat \<Rightarrow> ('w sftp_state, u8 list) act" where
  "handle_rename request response_capacity =
    tryA (valueA (sftp_rename_request_decode request))
      (\<lambda>_. statusA response_capacity 0 SSH_FX_BAD_MESSAGE ''bad rename'') (\<lambda>rename_request.
    sesA (\<lambda>session. case fs_op fs_rename session of
      None \<Rightarrow> statusA response_capacity (rn_id rename_request) SSH_FX_OP_UNSUPPORTED ''rename unsupported''
    | Some rename \<Rightarrow> finishA response_capacity (rn_id rename_request) ''rename failed''
        (bindA (valueA (copy_path (rn_old_path rename_request))) (\<lambda>old_path.
         bindA (valueA (copy_path (rn_new_path rename_request))) (\<lambda>new_path.
         thenA (policy_check SFTP_POLICY_RENAME (Some old_path) (Some new_path) 0 0 0 None)
         (rename_or_replace rename (fs_op fs_posix_rename session) old_path new_path))))))"

section \<open>Extended requests\<close>

definition one_string :: "u8 list \<Rightarrow> ssh_err + view" where
  "one_string payload = on_payload (bindA ssh_buffer_get_string_view (\<lambda>v.
     thenA (at_endA SSH_ERR_MALFORMED_PACKET) (retA v))) payload"

definition two_strings :: "u8 list \<Rightarrow> ssh_err + view \<times> view" where
  "two_strings payload = on_payload (bindA ssh_buffer_get_string_view (\<lambda>v. bindA ssh_buffer_get_string_view (\<lambda>v'.
     thenA (at_endA SSH_ERR_MALFORMED_PACKET) (retA (v, v'))))) payload"

text \<open>The handle argument of \<^verbatim>\<open>fsync\<close> and \<^verbatim>\<open>fstatvfs\<close>: it must name an open file.\<close>

definition file_entry :: "u8 list \<Rightarrow> ('w sftp_state, sftp_handle_entry) act" where
  "file_entry payload = bindA (valueA (one_string payload)) (\<lambda>handle_view. sesA (\<lambda>session.
     case find_handle session handle_view of
       None \<Rightarrow> failA SSH_ERR_INVALID_ARGUMENT
     | Some i \<Rightarrow> if he_kind (ses_handles session ! i) \<noteq> Some SFTP_HANDLE_KIND_FILE then failA SSH_ERR_INVALID_ARGUMENT
         else retA (ses_handles session ! i)))"

definition extended_fsync :: "sftp_extended_request \<Rightarrow> nat \<Rightarrow> ('w sftp_state, u8 list) act" where
  "extended_fsync extended_request response_capacity = sesA (\<lambda>session. case fs_op fs_fsync session of
      None \<Rightarrow> statusA response_capacity (ex_id extended_request) SSH_FX_OP_UNSUPPORTED ''fsync unsupported''
    | Some fsync \<Rightarrow> finishA response_capacity (ex_id extended_request) ''fsync failed''
        (bindA (file_entry (ex_payload extended_request)) (\<lambda>entry.
         thenA (policy_check SFTP_POLICY_FSYNC (Some (he_path entry)) None (he_pflags entry) 0 0 None)
         (fsA (fsync (he_fs_handle entry))))))"

definition extended_statvfs :: "sftp_extended_request \<Rightarrow> nat \<Rightarrow> ('w sftp_state, u8 list) act" where
  "extended_statvfs extended_request response_capacity = sesA (\<lambda>session. case fs_op fs_statvfs session of
      None \<Rightarrow> statusA response_capacity (ex_id extended_request) SSH_FX_OP_UNSUPPORTED ''statvfs unsupported''
    | Some statvfs \<Rightarrow>
        tryA (bindA (valueA (one_string (ex_payload extended_request))) (\<lambda>old_path_view.
              bindA (valueA (copy_path old_path_view)) (\<lambda>old_path.
              thenA (policy_check SFTP_POLICY_STATVFS (Some old_path) None 0 0 0 None) (fsA (statvfs old_path)))))
          (\<lambda>e. resultA response_capacity (ex_id extended_request) ''statvfs failed'' (Some e)) (\<lambda>vfs_stats.
        valueA (encode_statvfs_reply response_capacity (ex_id extended_request) vfs_stats)))"

definition extended_fstatvfs :: "sftp_extended_request \<Rightarrow> nat \<Rightarrow> ('w sftp_state, u8 list) act" where
  "extended_fstatvfs extended_request response_capacity = sesA (\<lambda>session. case fs_op fs_fstatvfs session of
      None \<Rightarrow> statusA response_capacity (ex_id extended_request) SSH_FX_OP_UNSUPPORTED ''fstatvfs unsupported''
    | Some fstatvfs \<Rightarrow>
        tryA (bindA (file_entry (ex_payload extended_request)) (\<lambda>entry.
              thenA (policy_check SFTP_POLICY_FSTATVFS (Some (he_path entry)) None (he_pflags entry) 0 0 None)
              (fsA (fstatvfs (he_fs_handle entry)))))
          (\<lambda>e. resultA response_capacity (ex_id extended_request) ''fstatvfs failed'' (Some e)) (\<lambda>vfs_stats.
        valueA (encode_statvfs_reply response_capacity (ex_id extended_request) vfs_stats)))"

text \<open>The two path arguments of \<^verbatim>\<open>hardlink\<close> and \<^verbatim>\<open>posix-rename\<close>, the policy and the call.\<close>

definition two_path_call :: "sftp_policy_operation \<Rightarrow> (u8 list \<Rightarrow> u8 list \<Rightarrow> ('w, unit) act) \<Rightarrow> u8 list \<Rightarrow> ('w sftp_state, unit) act" where
  "two_path_call operation f payload =
     bindA (valueA (two_strings payload)) (\<lambda>(old_path_view, new_path_view).
     bindA (valueA (copy_path old_path_view)) (\<lambda>old_path.
     bindA (valueA (copy_path new_path_view)) (\<lambda>new_path.
     thenA (policy_check operation (Some old_path) (Some new_path) 0 0 0 None) (fsA (f old_path new_path)))))"

definition extended_hardlink :: "sftp_extended_request \<Rightarrow> nat \<Rightarrow> ('w sftp_state, u8 list) act" where
  "extended_hardlink extended_request response_capacity = sesA (\<lambda>session. case fs_op fs_hardlink session of
      None \<Rightarrow> statusA response_capacity (ex_id extended_request) SSH_FX_OP_UNSUPPORTED ''hardlink unsupported''
    | Some hardlink \<Rightarrow> finishA response_capacity (ex_id extended_request) ''hardlink failed''
        (two_path_call SFTP_POLICY_HARDLINK hardlink (ex_payload extended_request)))"

definition extended_posix_rename :: "sftp_extended_request \<Rightarrow> nat \<Rightarrow> ('w sftp_state, u8 list) act" where
  "extended_posix_rename extended_request response_capacity = sesA (\<lambda>session. case fs_op fs_posix_rename session of
      None \<Rightarrow> statusA response_capacity (ex_id extended_request) SSH_FX_OP_UNSUPPORTED ''posix rename unsupported''
    | Some posix_rename \<Rightarrow> finishA response_capacity (ex_id extended_request) ''posix rename failed''
        (two_path_call SFTP_POLICY_RENAME posix_rename (ex_payload extended_request)))"

definition handle_extended :: "u8 list \<Rightarrow> nat \<Rightarrow> ('w sftp_state, u8 list) act" where
  "handle_extended request response_capacity =
    tryA (valueA (sftp_extended_request_decode request))
      (\<lambda>_. statusA response_capacity 0 SSH_FX_BAD_MESSAGE ''bad extended'') (\<lambda>extended_request.
    let named = (\<lambda>str. view_equals_cstring (ex_name extended_request) (Some (lit str))) in
    if named ''fsync@openssh.com'' then extended_fsync extended_request response_capacity
    else if named ''statvfs@openssh.com'' then extended_statvfs extended_request response_capacity
    else if named ''fstatvfs@openssh.com'' then extended_fstatvfs extended_request response_capacity
    else if named ''hardlink@openssh.com'' then extended_hardlink extended_request response_capacity
    else if \<not> named ''posix-rename@openssh.com''
    then statusA response_capacity (ex_id extended_request) SSH_FX_OP_UNSUPPORTED ''extension unsupported''
    else extended_posix_rename extended_request response_capacity)"

section \<open>The session\<close>

definition sftp_server_session_init :: "'w ssh_fs_api option \<Rightarrow> 'w sftp_server_session" where
  "sftp_server_session_init fs = \<lparr>ses_fs = fs, ses_policy = None, ses_next_handle_id = 1,
     ses_handles = replicate EMSSH_SFTP_MAX_HANDLES empty_entry\<rparr>"

definition sftp_server_session_set_policy :: "'w sftp_server_session \<Rightarrow> (sftp_policy_request \<Rightarrow> ('w, unit) act) option
    \<Rightarrow> 'w sftp_server_session" where
  "sftp_server_session_set_policy session policy = session\<lparr>ses_policy := policy\<rparr>"

fun close_entries :: "nat list \<Rightarrow> ('w sftp_state, unit) act" where
  "close_entries [] = retA ()"
| "close_entries (i # is) = sesA (\<lambda>session.
     if he_in_use (ses_handles session ! i) then tryA (close_entry i) (\<lambda>_. close_entries is) (\<lambda>_. close_entries is)
     else close_entries is)"

definition sftp_server_session_deinit :: "('w sftp_state, unit) act" where
  "sftp_server_session_deinit = thenA (close_entries [0..<EMSSH_SFTP_MAX_HANDLES])
     (putA \<lparr>ses_fs = None, ses_policy = None, ses_next_handle_id = 0, ses_handles = replicate EMSSH_SFTP_MAX_HANDLES empty_entry\<rparr>)"

definition sftp_server_handle_packet :: "u8 list \<Rightarrow> nat \<Rightarrow> ('w sftp_state, u8 list) act" where
  "sftp_server_handle_packet request response_capacity =
    tryA (valueA (sftp_packet_wrap request))
      (\<lambda>_. statusA response_capacity 0 SSH_FX_BAD_MESSAGE ''bad packet'') (\<lambda>packet.
    let type = pk_type packet in
    if type = SSH_FXP_INIT then handle_init request response_capacity
    else if type = SSH_FXP_REALPATH then handle_realpath request response_capacity
    else if type = SSH_FXP_LSTAT \<or> type = SSH_FXP_STAT then handle_path_attrs request type response_capacity
    else if type = SSH_FXP_OPEN then handle_open request response_capacity
    else if type = SSH_FXP_CLOSE then handle_close request response_capacity
    else if type = SSH_FXP_FSTAT then handle_fstat request response_capacity
    else if type = SSH_FXP_SETSTAT then handle_setstat request response_capacity
    else if type = SSH_FXP_FSETSTAT then handle_fsetstat request response_capacity
    else if type = SSH_FXP_OPENDIR then handle_opendir request response_capacity
    else if type = SSH_FXP_READDIR then handle_readdir request response_capacity
    else if type = SSH_FXP_READ then handle_read request response_capacity
    else if type = SSH_FXP_WRITE then handle_write request response_capacity
    else if type = SSH_FXP_REMOVE then handle_remove request response_capacity
    else if type = SSH_FXP_MKDIR then handle_mkdir request response_capacity
    else if type = SSH_FXP_RMDIR then handle_rmdir request response_capacity
    else if type = SSH_FXP_RENAME then handle_rename request response_capacity
    else if type = SSH_FXP_EXTENDED then handle_extended request response_capacity
    else tryA (valueA (sftp_request_decode request))
      (\<lambda>_. statusA response_capacity 0 SSH_FX_BAD_MESSAGE ''bad request'')
      (\<lambda>generic. statusA response_capacity (rq_id generic) SSH_FX_OP_UNSUPPORTED ''unsupported''))"

section \<open>Weakest preconditions of actions\<close>

text \<open>\<open>wpA m E Q s\<close>: run from \<open>s\<close>, the action ends in a state with \<open>E\<close> and its error or in one with \<open>Q\<close> and its value.\<close>

definition wpA :: "('s, 'a) act \<Rightarrow> (ssh_err \<Rightarrow> 's \<Rightarrow> bool) \<Rightarrow> ('a \<Rightarrow> 's \<Rightarrow> bool) \<Rightarrow> 's \<Rightarrow> bool" where
  "wpA m E Q s \<longleftrightarrow> (case m s of (Inl e, s') \<Rightarrow> E e s' | (Inr x, s') \<Rightarrow> Q x s')"

named_theorems wp_intros \<open>backward rules for the actions of the server\<close>

lemma wp_retA [wp_intros]: "Q x s \<Longrightarrow> wpA (retA x) E Q s"
  by (simp add: wpA_def)

lemma wp_failA [wp_intros]: "E e s \<Longrightarrow> wpA (failA e) E Q s"
  by (simp add: wpA_def)

lemma wp_valueA [wp_intros]:
  "(\<And>e. r = Inl e \<Longrightarrow> E e s) \<Longrightarrow> (\<And>x. r = Inr x \<Longrightarrow> Q x s) \<Longrightarrow> wpA (valueA r) E Q s"
  by (cases r) (simp_all add: wpA_def valueA_def)

lemma wp_bindA [wp_intros]: "wpA m E (\<lambda>x. wpA (f x) E Q) s \<Longrightarrow> wpA (bindA m f) E Q s"
  by (auto simp: wpA_def bindA_def split: prod.splits sum.splits)

lemma wp_thenA [wp_intros]: "wpA m E (\<lambda>_. wpA n E Q) s \<Longrightarrow> wpA (thenA m n) E Q s"
  unfolding thenA_def by (rule wp_bindA)

lemma wp_tryA [wp_intros]: "wpA m (\<lambda>e. wpA (h e) E Q) (\<lambda>x. wpA (k x) E Q) s \<Longrightarrow> wpA (tryA m h k) E Q s"
  by (auto simp: wpA_def tryA_def split: prod.splits sum.splits)

lemma wp_sesA [wp_intros]: "wpA (k (fst s)) E Q s \<Longrightarrow> wpA (sesA k) E Q s"
  by (simp add: wpA_def sesA_def)

lemma wp_if [wp_intros]: "(c \<Longrightarrow> wpA m E Q s) \<Longrightarrow> (\<not> c \<Longrightarrow> wpA n E Q s) \<Longrightarrow> wpA (if c then m else n) E Q s"
  by simp

lemma wp_option [wp_intros]:
  "(x = None \<Longrightarrow> wpA m E Q s) \<Longrightarrow> (\<And>y. x = Some y \<Longrightarrow> wpA (n y) E Q s) \<Longrightarrow>
   wpA (case x of None \<Rightarrow> m | Some y \<Rightarrow> n y) E Q s"
  by (cases x) simp_all

lemma wp_prod [wp_intros]: "(\<And>a b. x = (a, b) \<Longrightarrow> wpA (f a b) E Q s) \<Longrightarrow> wpA (case x of (a, b) \<Rightarrow> f a b) E Q s"
  by (cases x) simp

lemma wp_let [wp_intros]: "wpA (f x) E Q s \<Longrightarrow> wpA (let y = x in f y) E Q s"
  by simp

lemma wp_putA: "Q () (session, snd s) \<Longrightarrow> wpA (putA session) E Q s"
  by (simp add: wpA_def putA_def)

lemma wp_fsA: "(\<And>e w. E e (fst s, w)) \<Longrightarrow> (\<And>x w. Q x (fst s, w)) \<Longrightarrow> wpA (fsA f) E Q s"
  by (auto simp: wpA_def fsA_def split: prod.splits sum.splits)

lemma wp_statA: "(\<And>x w. Q x (fst s, w)) \<Longrightarrow> wpA (statA f path attrs) E Q s"
  by (auto simp: wpA_def statA_def split: prod.splits)

lemma wpD: "wpA m E Q s \<Longrightarrow> m s = (Inr x, s') \<Longrightarrow> Q x s'"
  by (simp add: wpA_def)

lemma wp_mono:
  "wpA m E Q s \<Longrightarrow> (\<And>e s. E e s \<Longrightarrow> E' e s) \<Longrightarrow> (\<And>x s. Q x s \<Longrightarrow> Q' x s) \<Longrightarrow> wpA m E' Q' s"
  by (auto simp: wpA_def split: prod.splits sum.splits)

lemmas wp_call_intros = wp_putA wp_fsA wp_statA

section \<open>Every reply is a framed packet\<close>

text \<open>A reply with an id: a framed packet of a reply type that fits the capacity it was given.\<close>

definition reply_types :: "u8 list" where
  "reply_types = [SSH_FXP_STATUS, SSH_FXP_HANDLE, SSH_FXP_DATA, SSH_FXP_NAME, SSH_FXP_ATTRS, SSH_FXP_EXTENDED_REPLY]"

definition answers :: "u32 \<Rightarrow> nat \<Rightarrow> u8 list \<Rightarrow> bool" where
  "answers req_id cap reply \<longleftrightarrow> (\<exists>t body. t \<in> set reply_types \<and> 5 + length body \<le> UINT32_MAX \<and>
     reply = request_packet t req_id body \<and> length reply \<le> cap)"

lemma reply_encoder_answers:
  assumes "reply_encoder encode t (be32 req_id @ body)" "encode cap = Inr reply" "t \<in> set reply_types"
  shows "answers req_id cap reply"
  using assms(2,3) reply_encoder.encode_Inr [OF assms(1)]
  by (auto simp: answers_def request_packet_def intro!: exI [of _ t] exI [of _ body])

lemma put_cstring_len: "ssh_buffer_put_cstring (Some s) b = (Inr (), b') \<Longrightarrow> length s \<le> UINT32_MAX"
  by (auto simp: ssh_buffer_put_cstring_def ssh_buffer_put_string_def split: if_splits)

lemma encode_packet_Inr:
  assumes "encode_packet put cap = Inr reply"
  obtains b b' where "put b = (Inr (), b')"
proof -
  obtain b where "packet_payload_init cap = Inr b" "(case put b of (Inl e, _) \<Rightarrow> Inl e | (Inr _, b') \<Rightarrow> packet_finish b') = Inr reply"
    using assms by (auto simp: encode_packet_def bindS_eq_Inr)
  then have "\<exists>b'. put b = (Inr (), b')"
    by (cases "put b"; cases "fst (put b)") auto
  then show thesis
    using that by blast
qed

lemma status_answers:
  assumes "encode_status cap req_id code message = Inr reply"
  shows "answers req_id cap reply"
proof -
  obtain b b' where "thenA (ssh_buffer_put_u8 SSH_FXP_STATUS) (thenA (ssh_buffer_put_u32 req_id) (thenA (ssh_buffer_put_u32 code)
      (thenA (ssh_buffer_put_cstring (Some (lit message))) (ssh_buffer_put_cstring (Some []))))) b = (Inr (), b')"
    using assms by (auto simp: encode_status_def sftp_status_encode_def elim: encode_packet_Inr)
  then have "length (lit message) \<le> UINT32_MAX"
    by (auto simp: thenA_eq_Inr simp del: length_lit dest: put_cstring_len)
  note enc = status_encoder [OF this, unfolded status_payload_def]
  show ?thesis
    using reply_encoder_answers [OF enc] assms by (simp add: encode_status_def reply_types_def)
qed

definition status_packet :: "u32 \<Rightarrow> u32 \<Rightarrow> string \<Rightarrow> u8 list" where
  "status_packet req_id code message =
     request_packet SSH_FXP_STATUS req_id (be32 code @ string_bytes (lit message) @ string_bytes [])"

lemma status_fits:
  assumes "21 + length message \<le> cap" "21 + length message \<le> UINT32_MAX"
  shows "encode_status cap req_id code message = Inr (status_packet req_id code message)"
  using assms reply_encoder.encode_fits [OF status_encoder [of "lit message"], of req_id code cap]
  by (simp add: encode_status_def status_packet_def status_payload_def request_packet_def string_bytes_def)

lemma handle_answers:
  assumes "sftp_handle_encode cap req_id handle = Inr reply"
  shows "answers req_id cap reply"
proof -
  obtain b b' where "thenA (ssh_buffer_put_u8 SSH_FXP_HANDLE) (thenA (ssh_buffer_put_u32 req_id)
      (ssh_buffer_put_string handle)) b = (Inr (), b')"
    using assms by (auto simp: sftp_handle_encode_def elim: encode_packet_Inr)
  then have "length handle \<le> UINT32_MAX"
    by (auto simp: thenA_eq_Inr ssh_buffer_put_string_def split: if_splits)
  then show ?thesis
    using reply_encoder_answers [OF handle_encoder] assms by (simp add: reply_types_def)
qed

lemma attrs_answers: "sftp_attrs_encode cap req_id attrs = Inr reply \<Longrightarrow> answers req_id cap reply"
  by (rule reply_encoder_answers [OF attrs_encoder]) (simp_all add: reply_types_def)

lemma name_answers:
  assumes "sftp_name_one_attrs_encode cap req_id filename longname attrs = Inr reply"
  shows "answers req_id cap reply"
proof -
  obtain f where f: "filename = Some f"
    using assms by (cases filename) (simp_all add: sftp_name_one_attrs_encode_def)
  define l where "l = (case longname of Some l \<Rightarrow> l | None \<Rightarrow> f)"
  have eq: "sftp_name_one_attrs_encode cap req_id filename longname attrs =
      sftp_name_one_attrs_encode cap req_id (Some f) (Some l) attrs"
    by (simp add: f l_def sftp_name_one_attrs_encode_def split: option.splits)
  then obtain b b' where "thenA (ssh_buffer_put_u8 SSH_FXP_NAME) (thenA (ssh_buffer_put_u32 req_id) (thenA (ssh_buffer_put_u32 1)
      (thenA (ssh_buffer_put_cstring (Some f)) (thenA (ssh_buffer_put_cstring (Some l)) (put_attrs attrs))))) b = (Inr (), b')"
    using assms by (auto simp: sftp_name_one_attrs_encode_def elim: encode_packet_Inr)
  then have "length f \<le> UINT32_MAX" "length l \<le> UINT32_MAX"
    by (auto simp: thenA_eq_Inr dest: put_cstring_len)
  note enc = name_encoder [OF this, unfolded name_payload_def]
  show ?thesis
    using reply_encoder_answers [OF enc] assms eq by (simp add: reply_types_def)
qed

lemma encode_framed_eq:
  assumes "buffer_writer put bs"
  shows "encode_framed put cap =
    (if cap < 4 then Inl SSH_ERR_BUFFER_TOO_SMALL
     else if cap < 4 + length bs then Inl SSH_ERR_BUFFER_OVERFLOW
     else Inr (be32 (of_nat (length bs)) @ bs))"
proof (cases "cap < 4")
  case False
  let ?b = "ssh_buffer_init (Some (replicate (cap - 4) 0)) (cap - 4)"
  have wf: "buf_wf ?b" and empty: "buf_room ?b = cap - 4" "buf_content ?b = []" "buf_len ?b = 0"
    by (simp_all add: buf_room_def ssh_buffer_init_def buf_wf_def buf_content_def)
  show ?thesis
  proof (cases "length bs \<le> buf_room ?b")
    case True
    then have "put ?b = (Inr (), buf_append ?b bs)"
      by (rule buffer_writer.put_fits [OF assms wf])
    moreover have "buf_content (buf_append ?b bs) = bs"
      using wf True empty by simp
    moreover have "buf_len (buf_append ?b bs) = length bs"
      using empty by (simp add: buf_append_def)
    ultimately show ?thesis
      using True False empty by (simp add: encode_framed_def ssh_buffer_len_def write_u32_be_def)
  next
    case full: False
    then obtain b' where "put ?b = (Inl SSH_ERR_BUFFER_OVERFLOW, b')"
      using buffer_writer.put_overflows [OF assms wf] by fastforce
    then show ?thesis
      using full False empty by (simp add: encode_framed_def)
  qed
qed (simp add: encode_framed_def)

lemma statvfs_answers:
  assumes "encode_statvfs_reply cap req_id stats = Inr reply"
  shows "answers req_id cap reply"
proof -
  define body where "body = be64 (vfs_bsize stats) @ be64 (vfs_frsize stats) @ be64 (vfs_blocks stats) @
    be64 (vfs_bfree stats) @ be64 (vfs_bavail stats) @ be64 (vfs_files stats) @ be64 (vfs_ffree stats) @
    be64 (vfs_favail stats) @ be64 (vfs_fsid stats) @ be64 (vfs_flag stats) @ be64 (vfs_namemax stats)"
  have "encode_statvfs_reply cap req_id stats =
    (if cap < 4 then Inl SSH_ERR_BUFFER_TOO_SMALL
     else if cap < 4 + length ([SSH_FXP_EXTENDED_REPLY] @ be32 req_id @ body) then Inl SSH_ERR_BUFFER_OVERFLOW
     else Inr (be32 (of_nat (length ([SSH_FXP_EXTENDED_REPLY] @ be32 req_id @ body))) @ [SSH_FXP_EXTENDED_REPLY] @ be32 req_id @ body))"
    unfolding encode_statvfs_reply_def body_def by (rule encode_framed_eq, intro writer_intros)
  then show ?thesis
    using assms by (auto simp: answers_def reply_types_def request_packet_def packet_bytes_def body_def UINT32_MAX_def
      intro!: exI [of _ SSH_FXP_EXTENDED_REPLY] exI [of _ body] split: if_splits)
qed

lemma data_in_place:
  assumes "length data \<le> UINT32_MAX - 9" "13 + length data \<le> cap"
  shows "finish_data_response_in_place cap req_id data = Inr (request_packet SSH_FXP_DATA req_id (string_bytes data))"
proof -
  have "(of_nat (length data) + 9 :: u32) = of_nat (Suc (8 + length data))"
    by simp
  then show ?thesis
    using assms by (simp add: finish_data_response_in_place_def request_packet_def packet_bytes_def string_bytes_def
      write_u32_be_def SFTP_DATA_RESPONSE_OVERHEAD_def del: of_nat_Suc of_nat_add)
qed

lemma data_answers:
  assumes "finish_data_response_in_place cap req_id data = Inr reply"
  shows "answers req_id cap reply"
proof -
  have *: "length data \<le> UINT32_MAX - 9" "13 + length data \<le> cap"
    using assms by (auto simp: finish_data_response_in_place_def SFTP_DATA_RESPONSE_OVERHEAD_def split: if_splits)
  with data_in_place [OF *] assms show ?thesis
    by (auto simp: answers_def reply_types_def request_packet_def string_bytes_def UINT32_MAX_def
      intro!: exI [of _ SSH_FXP_DATA] exI [of _ "string_bytes data"])
qed

lemmas reply_answers = status_answers handle_answers attrs_answers name_answers statvfs_answers data_answers

text \<open>The id a request carries after its length and type.\<close>

definition request_ident :: "u8 list \<Rightarrow> u32" where
  "request_ident request = of_be32 (drop 5 request)"

lemma request_ident_packet [simp]: "request_ident (request_packet t req_id body) = req_id"
  by (simp add: request_ident_def request_packet_def packet_bytes_def)

lemmas path_decoder_defs = sftp_realpath_request_decode_def sftp_lstat_request_decode_def sftp_stat_request_decode_def
  sftp_opendir_request_decode_def sftp_remove_request_decode_def sftp_rmdir_request_decode_def
lemmas handle_decoder_defs = sftp_close_request_decode_def sftp_fstat_request_decode_def sftp_readdir_request_decode_def

lemma path_request_ident: "decode_path_request t request = Inr x \<Longrightarrow> pr_id x = request_ident request"
  by (simp add: path_request.decode_iff)

lemma handle_request_ident: "decode_handle_request t request = Inr x \<Longrightarrow> hr_id x = request_ident request"
  by (simp add: handle_request.decode_iff)

lemma request_idents:
  "sftp_open_request_decode request = Inr x1 \<Longrightarrow> or_id x1 = request_ident request"
  "sftp_read_request_decode request = Inr x2 \<Longrightarrow> rr_id x2 = request_ident request"
  "sftp_write_request_decode request = Inr x3 \<Longrightarrow> wr_id x3 = request_ident request"
  "sftp_mkdir_request_decode request = Inr x4 \<Longrightarrow> mk_id x4 = request_ident request"
  "sftp_rename_request_decode request = Inr x5 \<Longrightarrow> rn_id x5 = request_ident request"
  "sftp_extended_request_decode request = Inr x6 \<Longrightarrow> ex_id x6 = request_ident request"
  "sftp_request_decode request = Inr x7 \<Longrightarrow> rq_id x7 = request_ident request"
  by (simp_all add: open_request.decode_iff read_request.decode_iff write_request.decode_iff mkdir_request.decode_iff
      rename_request.decode_iff extended_request.decode_iff request_decode_iff)

lemma request_decode_Inl: "sftp_request_decode request = Inl e \<Longrightarrow> e = SSH_ERR_MALFORMED_PACKET"
  by (auto simp: sftp_request_decode_def bindS_def sftp_packet_wrap_def Let_def split: if_splits sum.splits)

lemma setstat_ident:
  assumes "decode_setstat_fields t request = (r, req_id)"
  shows "req_id = request_ident request \<or> req_id = 0 \<and> r = Inl SSH_ERR_MALFORMED_PACKET"
  using assms by (auto simp: decode_setstat_fields_def request_idents(7) request_decode_Inl split: sum.splits if_splits)

text \<open>What the server may send back: an answer to the request, the refusal of a request that it cannot parse, or the
  version packet.\<close>

definition extension_pairs :: "bool \<Rightarrow> bool \<Rightarrow> bool \<Rightarrow> bool \<Rightarrow> bool \<Rightarrow> u8 list" where
  "extension_pairs a1 a2 a3 a4 a5 = concat (map (\<lambda>(supported, name, version).
     if supported then string_bytes (lit name) @ string_bytes (lit version) else [])
   [(a1, ''posix-rename@openssh.com'', ''1''), (a2, ''fsync@openssh.com'', ''1''), (a3, ''hardlink@openssh.com'', ''1''),
    (a4, ''statvfs@openssh.com'', ''2''), (a5, ''fstatvfs@openssh.com'', ''2'')])"

definition advertised :: "'w sftp_server_session \<Rightarrow> u8 list" where
  "advertised session = extension_pairs (fs_op fs_posix_rename session \<noteq> None) (fs_op fs_fsync session \<noteq> None)
     (fs_op fs_hardlink session \<noteq> None) (fs_op fs_statvfs session \<noteq> None) (fs_op fs_fstatvfs session \<noteq> None)"

text \<open>A request parses when it is a framed packet that the decoder for its type accepts.\<close>

definition request_parses :: "u8 list \<Rightarrow> bool" where
  "request_parses request \<longleftrightarrow> (case sftp_packet_wrap request of Inl _ \<Rightarrow> False | Inr packet \<Rightarrow> let type = pk_type packet in
     if type = SSH_FXP_INIT then \<not> isl (sftp_init_decode request)
     else if type = SSH_FXP_REALPATH then \<not> isl (sftp_realpath_request_decode request)
     else if type = SSH_FXP_LSTAT then \<not> isl (sftp_lstat_request_decode request)
     else if type = SSH_FXP_STAT then \<not> isl (sftp_stat_request_decode request)
     else if type = SSH_FXP_OPEN then \<not> isl (sftp_open_request_decode request)
     else if type = SSH_FXP_CLOSE then \<not> isl (sftp_close_request_decode request)
     else if type = SSH_FXP_FSTAT then \<not> isl (sftp_fstat_request_decode request)
     else if type = SSH_FXP_SETSTAT then \<not> isl (fst (sftp_setstat_request_decode request))
     else if type = SSH_FXP_FSETSTAT then \<not> isl (fst (sftp_fsetstat_request_decode request))
     else if type = SSH_FXP_OPENDIR then \<not> isl (sftp_opendir_request_decode request)
     else if type = SSH_FXP_READDIR then \<not> isl (sftp_readdir_request_decode request)
     else if type = SSH_FXP_READ then \<not> isl (sftp_read_request_decode request)
     else if type = SSH_FXP_WRITE then \<not> isl (sftp_write_request_decode request)
     else if type = SSH_FXP_REMOVE then \<not> isl (sftp_remove_request_decode request)
     else if type = SSH_FXP_MKDIR then \<not> isl (sftp_mkdir_request_decode request)
     else if type = SSH_FXP_RMDIR then \<not> isl (sftp_rmdir_request_decode request)
     else if type = SSH_FXP_RENAME then \<not> isl (sftp_rename_request_decode request)
     else if type = SSH_FXP_EXTENDED then \<not> isl (sftp_extended_request_decode request)
     else \<not> isl (sftp_request_decode request))"

text \<open>\<open>bad\<close> is the condition under which a bad-message status without an id is allowed.\<close>

definition reply_for :: "bool \<Rightarrow> u8 list \<Rightarrow> nat \<Rightarrow> 'w sftp_server_session \<Rightarrow> u8 list \<Rightarrow> bool" where
  "reply_for bad request cap session reply \<longleftrightarrow>
     answers (request_ident request) cap reply \<or>
     bad \<and> (\<exists>message. encode_status cap 0 SSH_FX_BAD_MESSAGE message = Inr reply) \<or>
     request ! 4 = SSH_FXP_INIT \<and> length reply \<le> cap \<and>
       reply = packet_bytes SSH_FXP_VERSION (be32 SFTP_VERSION_3 @ advertised session)"

lemma reply_forI: "answers (request_ident request) cap reply \<Longrightarrow> reply_for bad request cap session reply"
  by (simp add: reply_for_def)

lemma reply_for_bad:
  "encode_status cap 0 SSH_FX_BAD_MESSAGE message = Inr reply \<Longrightarrow> bad \<Longrightarrow> reply_for bad request cap session reply"
  by (auto simp: reply_for_def)

abbreviation replies :: "bool \<Rightarrow> u8 list \<Rightarrow> nat \<Rightarrow> ('w sftp_state, u8 list) act \<Rightarrow> 'w sftp_state \<Rightarrow> bool" where
  "replies bad request cap m s \<equiv> wpA m (\<lambda>_ _. True) (\<lambda>reply _. reply_for bad request cap (fst s) reply) s"

lemma replies_mono: "replies bad request cap m s \<Longrightarrow> (bad \<Longrightarrow> bad') \<Longrightarrow> replies bad' request cap m s"
  by (erule wp_mono) (auto simp: reply_for_def)

lemma wp_reply_status: "(\<And>r. encode_status cap req_id code message = Inr r \<Longrightarrow> Q r s) \<Longrightarrow> (\<And>e. E e s) \<Longrightarrow> wpA (statusA cap req_id code message) E Q s"
  unfolding statusA_def by (intro wp_intros)

lemmas handler_defs = handle_realpath_def handle_path_attrs_def handle_open_def handle_close_def handle_fstat_def
  handle_setstat_def handle_fsetstat_def handle_read_def handle_opendir_def handle_readdir_def handle_write_def
  handle_remove_def handle_mkdir_def handle_rmdir_def handle_rename_def handle_extended_def
lemmas step_defs = finishA_def resultA_def policy_check_def checked_stat_def dropA_def refresh_attrs_def register_handle_def
  open_file_def call_read_def call_write_def rename_or_replace_def file_entry_def close_entry_def two_path_call_def
  extended_fsync_def extended_statvfs_def extended_fstatvfs_def extended_hardlink_def extended_posix_rename_def

lemma handlers_reply:
  "replies (isl (sftp_realpath_request_decode request)) request cap (handle_realpath request cap) s"
  "replies (isl (if type = SSH_FXP_LSTAT then sftp_lstat_request_decode request else sftp_stat_request_decode request))
     request cap (handle_path_attrs request type cap) s"
  "replies (isl (sftp_open_request_decode request)) request cap (handle_open request cap) s"
  "replies (isl (sftp_close_request_decode request)) request cap (handle_close request cap) s"
  "replies (isl (sftp_fstat_request_decode request)) request cap (handle_fstat request cap) s"
  "replies (isl (sftp_read_request_decode request)) request cap (handle_read request cap) s"
  "replies (isl (sftp_opendir_request_decode request)) request cap (handle_opendir request cap) s"
  "replies (isl (sftp_readdir_request_decode request)) request cap (handle_readdir request cap) s"
  "replies (isl (sftp_write_request_decode request)) request cap (handle_write request cap) s"
  "replies (isl (sftp_remove_request_decode request)) request cap (handle_remove request cap) s"
  "replies (isl (sftp_mkdir_request_decode request)) request cap (handle_mkdir request cap) s"
  "replies (isl (sftp_rmdir_request_decode request)) request cap (handle_rmdir request cap) s"
  "replies (isl (sftp_rename_request_decode request)) request cap (handle_rename request cap) s"
  "replies (isl (sftp_extended_request_decode request)) request cap (handle_extended request cap) s"
  unfolding handler_defs step_defs path_decoder_defs handle_decoder_defs sftp_name_one_encode_def
  by (intro wp_intros wp_call_intros wp_reply_status TrueI;
      ((erule reply_for_bad, simp) | auto dest!: reply_answers path_request_ident handle_request_ident request_idents intro: reply_forI split: if_splits))+

lemma setstat_reply:
  assumes "decode_setstat_fields t request = (r, req_id)" "encode_status cap req_id code message = Inr reply"
    and "\<And>e. r = Inl e \<Longrightarrow> code = status_from_error (Some e) \<and> bad"
  shows "reply_for bad request cap session reply"
  using setstat_ident [OF assms(1)]
proof
  assume "req_id = request_ident request"
  then show ?thesis
    using assms(2) by (auto intro: reply_forI status_answers)
next
  assume "req_id = 0 \<and> r = Inl SSH_ERR_MALFORMED_PACKET"
  then show ?thesis
    using assms by (auto simp: status_from_error_def intro: reply_for_bad)
qed

lemma setstat_handlers_reply:
  "replies (isl (fst (sftp_setstat_request_decode request))) request cap (handle_setstat request cap) s"
  "replies (isl (fst (sftp_fsetstat_request_decode request))) request cap (handle_fsetstat request cap) s"
  unfolding handler_defs step_defs sftp_setstat_request_decode_def sftp_fsetstat_request_decode_def
  by (intro wp_intros wp_call_intros wp_reply_status TrueI;
      (auto simp: bindS_def elim!: setstat_reply split: prod.splits sum.splits))+

lemma put_extension_writes:
  "length name \<le> UINT32_MAX \<Longrightarrow> length version \<le> UINT32_MAX \<Longrightarrow> buffer_writer (put_extension advertise name version)
    (if advertise then string_bytes (lit name) @ string_bytes (lit version) else [])"
  unfolding put_extension_def put_if_def
  by (cases advertise) (auto intro!: writer_intros buffer_writer_thenA [of _ "[]" _ "[]", simplified])

lemma server_version_eq:
  "encode_server_version cap a1 a2 a3 a4 a5 =
    (if cap < 4 then Inl SSH_ERR_BUFFER_TOO_SMALL
     else if cap < 9 + length (extension_pairs a1 a2 a3 a4 a5) then Inl SSH_ERR_BUFFER_OVERFLOW
     else Inr (packet_bytes SSH_FXP_VERSION (be32 SFTP_VERSION_3 @ extension_pairs a1 a2 a3 a4 a5)))"
proof -
  let ?put = "thenA (ssh_buffer_put_u8 SSH_FXP_VERSION)
     (thenA (ssh_buffer_put_u32 SFTP_VERSION_3)
     (thenA (put_extension a1 ''posix-rename@openssh.com'' ''1'')
     (thenA (put_extension a2 ''fsync@openssh.com'' ''1'')
     (thenA (put_extension a3 ''hardlink@openssh.com'' ''1'')
     (thenA (put_extension a4 ''statvfs@openssh.com'' ''2'')
     (put_extension a5 ''fstatvfs@openssh.com'' ''2''))))))"
  have "buffer_writer ?put ([SSH_FXP_VERSION] @ be32 SFTP_VERSION_3 @ extension_pairs a1 a2 a3 a4 a5)"
    unfolding extension_pairs_def list.map concat.simps prod.case append_Nil2
    by (intro buffer_writer_thenA put_extension_writes writer_intros) (simp_all add: UINT32_MAX_def)
  from encode_framed_eq [OF this, of cap] show ?thesis
    by (simp add: encode_server_version_def packet_bytes_def)
qed

lemma handle_init_replies:
  assumes "request ! 4 = SSH_FXP_INIT"
  shows "replies (isl (sftp_init_decode request)) request cap (handle_init request cap) s"
proof -
  have version: "reply_for bad request cap session reply"
    if "encode_server_version cap (fs_op fs_posix_rename session \<noteq> None) (fs_op fs_fsync session \<noteq> None)
      (fs_op fs_hardlink session \<noteq> None) (fs_op fs_statvfs session \<noteq> None) (fs_op fs_fstatvfs session \<noteq> None) = Inr reply"
    for session :: "'w sftp_server_session" and reply bad
    using that assms unfolding server_version_eq
    by (auto simp: reply_for_def advertised_def split: if_splits)
  show ?thesis
    unfolding handle_init_def by (intro wp_intros wp_reply_status TrueI; ((erule reply_for_bad, simp) | erule version))
qed

lemma packet_type_at: "sftp_packet_wrap request = Inr packet \<Longrightarrow> request ! 4 = pk_type packet"
  by (simp add: packet_wrap_iff packet_bytes_def nth_append)

lemma handle_packet_replies: "replies (\<not> request_parses request) request cap (sftp_server_handle_packet request cap) s"
proof -
  note handlers = handlers_reply [THEN replies_mono] setstat_handlers_reply [THEN replies_mono] handle_init_replies [THEN replies_mono]
  show ?thesis
    unfolding sftp_server_handle_packet_def
    by (intro wp_intros handlers wp_reply_status TrueI;
        ((erule reply_for_bad, auto simp: request_parses_def)
          | auto simp: request_parses_def fxp_defs dest!: status_answers request_idents packet_type_at intro: reply_forI))
qed

lemma find_handle_init: "find_handle (sftp_server_session_init fs) handle = None"
  by (auto simp: find_handle_def sftp_server_session_init_def find_None_iff handle_equals_def empty_entry_def)

section \<open>Reading and writing\<close>

lemma wp_fsA_run:
  "(\<And>e w. f (snd s) = (Inl e, w) \<Longrightarrow> E e (fst s, w)) \<Longrightarrow> (\<And>x w. f (snd s) = (Inr x, w) \<Longrightarrow> Q x (fst s, w)) \<Longrightarrow> wpA (fsA f) E Q s"
  by (auto simp: wpA_def fsA_def split: prod.splits sum.splits)

lemma wp_call_write:
  "(\<And>e w. E e (fst s, w)) \<Longrightarrow> (\<And>n w. call_write session h offset data s = (Inr n, (fst s, w)) \<Longrightarrow> Q n (fst s, w)) \<Longrightarrow>
   wpA (call_write session h offset data) E Q s"
  by (auto simp: wpA_def call_write_def fsA_def split: prod.splits sum.splits option.splits)

lemma wp_call_read:
  "(\<And>e w. E e (fst s, w)) \<Longrightarrow> (\<And>d w. call_read session h offset n s = (Inr d, (fst s, w)) \<Longrightarrow> Q d (fst s, w)) \<Longrightarrow>
   wpA (call_read session h offset n) E Q s"
  by (auto simp: wpA_def call_read_def fsA_def split: prod.splits sum.splits option.splits)

lemma request_packet_inject: "request_packet t i b = request_packet t' i' b' \<Longrightarrow> t = t' \<and> i = i' \<and> b = b'"
  by (simp add: request_packet_def packet_bytes_def)

lemma status_packet_code: "status_packet i c m = status_packet i' c' m' \<Longrightarrow> c = c'"
  by (auto simp: status_packet_def dest!: request_packet_inject)

lemma status_exact:
  assumes "encode_status cap req_id code message = Inr reply"
  shows "reply = status_packet req_id code message"
proof -
  obtain b b' where "thenA (ssh_buffer_put_u8 SSH_FXP_STATUS) (thenA (ssh_buffer_put_u32 req_id) (thenA (ssh_buffer_put_u32 code)
      (thenA (ssh_buffer_put_cstring (Some (lit message))) (ssh_buffer_put_cstring (Some []))))) b = (Inr (), b')"
    using assms by (auto simp: encode_status_def sftp_status_encode_def elim: encode_packet_Inr)
  then have "length (lit message) \<le> UINT32_MAX"
    by (auto simp: thenA_eq_Inr simp del: length_lit dest: put_cstring_len)
  then show ?thesis
    using assms by (simp add: encode_status_def reply_encoder.encode_Inr [OF status_encoder] status_packet_def status_payload_def request_packet_def)
qed

lemma error_codes_not_ok:
  "SSH_FX_FAILURE \<noteq> SSH_FX_OK" "SSH_FX_BAD_MESSAGE \<noteq> SSH_FX_OK" "SSH_FX_OP_UNSUPPORTED \<noteq> SSH_FX_OK"
  "SSH_FX_PERMISSION_DENIED \<noteq> SSH_FX_OK" "SSH_FX_NO_SUCH_FILE \<noteq> SSH_FX_OK" "status_from_error (Some e) \<noteq> SSH_FX_OK"
  by (simp_all add: status_from_error_def SSH_FX_OK_def SSH_FX_OP_UNSUPPORTED_def SSH_FX_PERMISSION_DENIED_def
      SSH_FX_NO_SUCH_FILE_def SSH_FX_BAD_MESSAGE_def SSH_FX_FAILURE_def)

lemma write_packet:
  assumes "sftp_write_request_decode request = Inr r"
  shows "sftp_server_handle_packet request cap s = handle_write request cap s"
proof -
  have "sftp_packet_wrap request = Inr \<lparr>pk_type = SSH_FXP_WRITE,
      pk_payload = be32 (wr_id r) @ view_bytes (wr_handle r) @ be64 (wr_offset r) @ view_bytes (wr_data r)\<rparr>"
    using assms by (simp add: write_request.decode_iff packet_wrap_iff request_packet_def)
  then show ?thesis
    by (simp add: sftp_server_handle_packet_def tryA_def valueA_def fxp_defs)
qed

lemma read_packet:
  assumes "sftp_read_request_decode request = Inr r"
  shows "sftp_server_handle_packet request cap s = handle_read request cap s"
proof -
  have "sftp_packet_wrap request = Inr \<lparr>pk_type = SSH_FXP_READ,
      pk_payload = be32 (rr_id r) @ view_bytes (rr_handle r) @ be64 (rr_offset r) @ be32 (rr_len r)\<rparr>"
    using assms by (simp add: read_request.decode_iff packet_wrap_iff request_packet_def)
  then show ?thesis
    by (simp add: sftp_server_handle_packet_def tryA_def valueA_def fxp_defs)
qed

text \<open>The effect on the world of a policy that approves a request, and of the call that stores or reads the bytes: \<^verbatim>\<open>write_at\<close> and
  \<^verbatim>\<open>read_at\<close> with the offset where the file system has them, else \<^verbatim>\<open>write\<close> and \<^verbatim>\<open>read\<close> at the position the file system keeps.\<close>

definition approved :: "'w sftp_server_session \<Rightarrow> sftp_policy_request \<Rightarrow> 'w \<Rightarrow> 'w \<Rightarrow> bool" where
  "approved s request w w1 \<longleftrightarrow> (case ses_policy s of None \<Rightarrow> w1 = w | Some policy \<Rightarrow> policy request w = (Inr (), w1))"

definition stored :: "'w sftp_server_session \<Rightarrow> nat \<Rightarrow> u64 \<Rightarrow> u8 list \<Rightarrow> 'w \<Rightarrow> 'w \<Rightarrow> bool" where
  "stored s h offset data w1 w' \<longleftrightarrow> (\<exists>fs. ses_fs s = Some fs \<and> (case fs_write_at fs of
     Some write_at \<Rightarrow> write_at h offset data w1 = (Inr (length data), w')
   | None \<Rightarrow> (\<exists>write. fs_write fs = Some write \<and> write h data w1 = (Inr (length data), w'))))"

definition fetched :: "'w sftp_server_session \<Rightarrow> nat \<Rightarrow> u64 \<Rightarrow> nat \<Rightarrow> u8 list \<Rightarrow> 'w \<Rightarrow> 'w \<Rightarrow> bool" where
  "fetched s h offset n data w1 w' \<longleftrightarrow> (\<exists>fs. ses_fs s = Some fs \<and> (case fs_read_at fs of
     Some read_at \<Rightarrow> read_at h offset n w1 = (Inr data, w')
   | None \<Rightarrow> (\<exists>read. fs_read fs = Some read \<and> read h n w1 = (Inr data, w'))))"

definition write_policy_request :: "sftp_write_request \<Rightarrow> sftp_handle_entry \<Rightarrow> sftp_policy_request" where
  "write_policy_request r entry = \<lparr>po_operation = SFTP_POLICY_WRITE, po_path = Some (he_path entry), po_new_path = None,
     po_pflags = he_pflags entry, po_offset = wr_offset r, po_length = length (view_data (wr_data r)), po_attrs = None\<rparr>"

definition read_policy_request :: "sftp_read_request \<Rightarrow> nat \<Rightarrow> sftp_handle_entry \<Rightarrow> sftp_policy_request" where
  "read_policy_request r n entry = \<lparr>po_operation = SFTP_POLICY_READ, po_path = Some (he_path entry), po_new_path = None,
     po_pflags = he_pflags entry, po_offset = rr_offset r, po_length = n, po_attrs = None\<rparr>"

lemma wp_policy_approves:
  assumes "\<And>e w. E e (fst s, w)"
    and "\<And>w. approved (fst s) \<lparr>po_operation = operation, po_path = path, po_new_path = new_path, po_pflags = pflags,
       po_offset = offset, po_length = len, po_attrs = attrs\<rparr> (snd s) w \<Longrightarrow> Q () (fst s, w)"
  shows "wpA (policy_check operation path new_path pflags offset len attrs) E Q s"
  unfolding policy_check_def
  by (intro wp_intros wp_fsA_run assms) (use assms(2) in \<open>auto simp: approved_def\<close>)

lemma call_write_stored:
  "call_write s h offset data (s, w1) = (Inr n, (s, w')) \<Longrightarrow> n = length data \<Longrightarrow>
   \<not> (fs_op fs_write s = None \<and> fs_op fs_write_at s = None) \<Longrightarrow> stored s h offset data w1 w'"
  by (auto simp: call_write_def stored_def fs_op_def fsA_def split: option.splits prod.splits)

lemma call_read_fetched:
  "call_read s h offset n (s, w1) = (Inr data, (s, w')) \<Longrightarrow>
   \<not> (fs_op fs_read s = None \<and> fs_op fs_read_at s = None) \<Longrightarrow> fetched s h offset n data w1 w'"
  by (auto simp: call_read_def fetched_def fs_op_def fsA_def split: option.splits prod.splits)

definition write_done :: "sftp_write_request \<Rightarrow> 'w sftp_server_session \<Rightarrow> 'w \<Rightarrow> 'w \<Rightarrow> bool" where
  "write_done r s w w' \<longleftrightarrow> (\<exists>i w1. find_handle s (wr_handle r) = Some i \<and> he_kind (ses_handles s ! i) = Some SFTP_HANDLE_KIND_FILE \<and>
     he_pflags (ses_handles s ! i) AND SSH_FXF_WRITE \<noteq> 0 \<and>
     approved s (write_policy_request r (ses_handles s ! i)) w w1 \<and>
     stored s (he_fs_handle (ses_handles s ! i)) (wr_offset r) (view_data (wr_data r)) w1 w')"

lemma handle_write_ok:
  assumes "sftp_write_request_decode request = Inr r"
  shows "wpA (handle_write request cap) (\<lambda>_ _. True)
    (\<lambda>reply s'. reply = status_packet (wr_id r) SSH_FX_OK message \<longrightarrow> write_done r s w (snd s')) (s, w)"
  using assms unfolding handle_write_def resultA_def
  by (intro wp_intros wp_policy_approves wp_call_write wp_putA wp_reply_status TrueI;
      (auto dest!: status_exact status_packet_code simp: error_codes_not_ok write_done_def write_policy_request_def
        intro!: exI intro: call_write_stored)?)

definition read_done :: "sftp_read_request \<Rightarrow> nat \<Rightarrow> u8 list \<Rightarrow> 'w sftp_server_session \<Rightarrow> 'w \<Rightarrow> 'w sftp_state \<Rightarrow> bool" where
  "read_done r cap data s w s' \<longleftrightarrow> fst s' = s \<and> data \<noteq> [] \<and> (\<exists>i n w1. find_handle s (rr_handle r) = Some i \<and>
     he_kind (ses_handles s ! i) = Some SFTP_HANDLE_KIND_FILE \<and> he_pflags (ses_handles s ! i) AND SSH_FXF_READ \<noteq> 0 \<and>
     n \<le> unat (rr_len r) \<and> n \<le> EMSSH_SFTP_MAX_IO \<and> n + SFTP_DATA_RESPONSE_OVERHEAD \<le> cap \<and> length data \<le> n \<and>
     approved s (read_policy_request r n (ses_handles s ! i)) w w1 \<and>
     fetched s (he_fs_handle (ses_handles s ! i)) (rr_offset r) n data w1 (snd s'))"

lemma read_doneI:
  fixes r cap
  defines "n \<equiv> (if cap - SFTP_DATA_RESPONSE_OVERHEAD < (if unat (rr_len r) < EMSSH_SFTP_MAX_IO then unat (rr_len r) else EMSSH_SFTP_MAX_IO)
    then cap - SFTP_DATA_RESPONSE_OVERHEAD else if unat (rr_len r) < EMSSH_SFTP_MAX_IO then unat (rr_len r) else EMSSH_SFTP_MAX_IO)"
  assumes "find_handle s (rr_handle r) = Some i" "he_kind (ses_handles s ! i) = Some SFTP_HANDLE_KIND_FILE"
    and "he_pflags (ses_handles s ! i) AND SSH_FXF_READ \<noteq> 0" "\<not> cap \<le> SFTP_DATA_RESPONSE_OVERHEAD"
    and "approved s (read_policy_request r n (ses_handles s ! i)) w0 w"
    and "call_read s (he_fs_handle (ses_handles s ! i)) (rr_offset r) n (s, w) = (Inr data, (s, w'))"
    and "\<not> (fs_op fs_read s = None \<and> fs_op fs_read_at s = None)" "\<not> n < length data" "data \<noteq> []"
  shows "read_done r cap data s w0 (s, w')"
proof -
  have "n \<le> unat (rr_len r)" "n \<le> EMSSH_SFTP_MAX_IO" "n + SFTP_DATA_RESPONSE_OVERHEAD \<le> cap"
    using assms(5) by (auto simp: n_def)
  moreover have "fetched s (he_fs_handle (ses_handles s ! i)) (rr_offset r) n data w w'"
    using assms(7,8) by (rule call_read_fetched)
  ultimately show ?thesis
    using assms(2-) by (auto simp: read_done_def intro!: exI [of _ n])
qed

lemma data_exact: "finish_data_response_in_place cap req_id data = Inr reply \<Longrightarrow> reply = request_packet SSH_FXP_DATA req_id (string_bytes data)"
  using data_in_place [of data cap req_id] by (auto simp: finish_data_response_in_place_def SFTP_DATA_RESPONSE_OVERHEAD_def split: if_splits)

lemma string_bytes_inject [simp]: "string_bytes a = string_bytes b \<longleftrightarrow> a = b"
  by (auto simp: string_bytes_def)

lemma status_is_no_data: "status_packet i c m \<noteq> request_packet SSH_FXP_DATA j b"
  by (auto simp: status_packet_def fxp_defs dest!: request_packet_inject)

lemma handle_read_data:
  assumes "sftp_read_request_decode request = Inr r"
  shows "wpA (handle_read request cap) (\<lambda>_ _. True)
    (\<lambda>reply s'. reply = request_packet SSH_FXP_DATA req_id (string_bytes data) \<longrightarrow> read_done r cap data s w s') (s, w)"
  using assms unfolding handle_read_def resultA_def
  by (intro wp_intros wp_policy_approves wp_call_read wp_reply_status TrueI;
      (auto dest!: status_exact data_exact request_packet_inject simp: status_is_no_data read_policy_request_def [symmetric]
        split del: if_split intro!: read_doneI)?)

section \<open>Properties\<close>

text \<open>C33. Whatever the client sends, a reply of the server is one framed packet within the capacity of the response: it
  carries the id of the request, or it is a bad-message status for a request that does not parse (it is no framed packet or the
  decoder for its type refuses it), or it is the version packet, which names exactly the extensions that the file system implements.\<close>

theorem every_reply_answers:
  assumes "sftp_server_handle_packet request cap (session, w) = (Inr reply, s')"
  shows "answers (request_ident request) cap reply \<or>
    \<not> request_parses request \<and> (\<exists>message. encode_status cap 0 SSH_FX_BAD_MESSAGE message = Inr reply) \<or>
    request ! 4 = SSH_FXP_INIT \<and> length reply \<le> cap \<and>
      reply = packet_bytes SSH_FXP_VERSION (be32 SFTP_VERSION_3 @ advertised session)"
  using wpD [OF handle_packet_replies assms] by (simp add: reply_for_def)

theorem every_reply_answers_witness:
  "sftp_server_handle_packet (request_packet SSH_FXP_CLOSE 7 (string_bytes [1])) 64 (sftp_server_session_init None, ()) =
      (Inr (status_packet 7 SSH_FX_FAILURE ''bad handle''), (sftp_server_session_init None, ())) \<and>
   answers 7 64 (status_packet 7 SSH_FX_FAILURE ''bad handle'')"
proof -
  let ?request = "request_packet SSH_FXP_CLOSE 7 (string_bytes [1])"
  have wrap: "sftp_packet_wrap ?request = Inr \<lparr>pk_type = SSH_FXP_CLOSE, pk_payload = be32 7 @ string_bytes [1]\<rparr>"
    by (simp add: packet_wrap_iff request_packet_def string_bytes_def UINT32_MAX_def)
  have decode: "sftp_close_request_decode ?request = Inr \<lparr>hr_id = 7, hr_handle = Some [1]\<rparr>"
    by (simp add: sftp_close_request_decode_def handle_request.decode_iff string_valid_def view_bytes_def string_bytes_def UINT32_MAX_def)
  have *: "sftp_server_handle_packet ?request 64 (sftp_server_session_init None, ()) =
      (Inr (status_packet 7 SSH_FX_FAILURE ''bad handle''), (sftp_server_session_init None, ()))"
    using decode wrap
    by (simp add: sftp_server_handle_packet_def handle_close_def tryA_def valueA_def sesA_def statusA_def find_handle_init
        status_fits UINT32_MAX_def fxp_defs)
  show ?thesis
    using * every_reply_answers [OF *] packet_type_at [OF wrap] decode wrap by (simp add: fxp_defs request_parses_def)
qed

text \<open>Writing the header of a data reply in front of the bytes read in place gives the packet that the
  encoder of data replies would have built from a copy of them, and succeeds in the same cases.\<close>

theorem data_reply_in_place_equals_encoder:
  "finish_data_response_in_place cap req_id data = Inr reply \<longleftrightarrow> sftp_data_encode cap req_id data = Inr reply"
  (is "?L \<longleftrightarrow> ?R")
proof (cases "length data \<le> UINT32_MAX")
  case True
  have "?R \<longleftrightarrow> 13 + length data \<le> cap \<and> length data \<le> UINT32_MAX - 9 \<and> reply = request_packet SSH_FXP_DATA req_id (string_bytes data)"
    by (auto simp: reply_encoder.encode_Inr [OF data_encoder [OF True]] request_packet_def string_bytes_def UINT32_MAX_def)
  moreover have "?L \<longleftrightarrow> 13 + length data \<le> cap \<and> length data \<le> UINT32_MAX - 9 \<and> reply = request_packet SSH_FXP_DATA req_id (string_bytes data)"
  proof (cases "13 + length data \<le> cap \<and> length data \<le> UINT32_MAX - 9")
    case True
    then show ?thesis
      using data_in_place [of data cap req_id] by auto
  next
    case False
    then show ?thesis
      by (auto simp: finish_data_response_in_place_def SFTP_DATA_RESPONSE_OVERHEAD_def)
  qed
  ultimately show ?thesis
    by simp
next
  case False
  then have "\<not> ?R"
    by (auto simp: sftp_data_encode_def thenA_eq_Inr ssh_buffer_put_string_def elim!: encode_packet_Inr)
  moreover have "UINT32_MAX - 9 < length data"
    using False by simp
  ultimately show ?thesis
    by (simp add: finish_data_response_in_place_def)
qed

text \<open>C31. A write that is acknowledged was done: the handle is an open file with the write flag, the policy (where there is one)
  approved this write, and the last thing the file system did was to store exactly the bytes of the request and report all of them
  written: by \<^verbatim>\<open>write_at\<close> at the offset of the request where the file system has it, and otherwise by \<^verbatim>\<open>write\<close>, which takes no
  offset and stores at the position the file system keeps for the handle.\<close>

theorem acknowledged_write_is_complete:
  assumes "sftp_write_request_decode request = Inr r"
    and "sftp_server_handle_packet request cap (s, w) = (Inr (status_packet (wr_id r) SSH_FX_OK message), (s', w'))"
  shows "\<exists>i fs w1. let h = ses_handles s ! i; data = view_data (wr_data r) in
     find_handle s (wr_handle r) = Some i \<and> he_kind h = Some SFTP_HANDLE_KIND_FILE \<and> he_pflags h AND SSH_FXF_WRITE \<noteq> 0 \<and>
     (case ses_policy s of None \<Rightarrow> w1 = w | Some policy \<Rightarrow> policy (write_policy_request r h) w = (Inr (), w1)) \<and>
     ses_fs s = Some fs \<and>
     (case fs_write_at fs of
        Some write_at \<Rightarrow> write_at (he_fs_handle h) (wr_offset r) data w1 = (Inr (length data), w')
      | None \<Rightarrow> (\<exists>write. fs_write fs = Some write \<and> write (he_fs_handle h) data w1 = (Inr (length data), w')))"
proof -
  have "write_done r s w w'"
    using wpD [OF handle_write_ok [OF assms(1)] assms(2) [unfolded write_packet [OF assms(1)]]] by simp
  then show ?thesis
    unfolding write_done_def approved_def stored_def Let_def by blast
qed

text \<open>C32. The data of a read reply are what the file system read for this request, in one call for at most the requested length,
  the transfer limit and the room of the reply, on an open file with the read flag, after the policy (where there is one) approved
  this read: by \<^verbatim>\<open>read_at\<close> at the requested offset where the file system has it, and otherwise by \<^verbatim>\<open>read\<close>, which takes no offset
  and reads at the position the file system keeps for the handle. The session is unchanged.\<close>

theorem read_reply_is_file_data:
  assumes "sftp_read_request_decode request = Inr r"
    and "sftp_server_handle_packet request cap (s, w) = (Inr (request_packet SSH_FXP_DATA req_id (string_bytes data)), (s', w'))"
  shows "s' = s \<and> data \<noteq> [] \<and> (\<exists>i n fs w1. let h = ses_handles s ! i in
     find_handle s (rr_handle r) = Some i \<and> he_kind h = Some SFTP_HANDLE_KIND_FILE \<and> he_pflags h AND SSH_FXF_READ \<noteq> 0 \<and>
     n \<le> unat (rr_len r) \<and> n \<le> EMSSH_SFTP_MAX_IO \<and> n + SFTP_DATA_RESPONSE_OVERHEAD \<le> cap \<and> length data \<le> n \<and>
     (case ses_policy s of None \<Rightarrow> w1 = w | Some policy \<Rightarrow> policy (read_policy_request r n h) w = (Inr (), w1)) \<and>
     ses_fs s = Some fs \<and>
     (case fs_read_at fs of
        Some read_at \<Rightarrow> read_at (he_fs_handle h) (rr_offset r) n w1 = (Inr data, w')
      | None \<Rightarrow> (\<exists>read. fs_read fs = Some read \<and> read (he_fs_handle h) n w1 = (Inr data, w'))))"
proof -
  have "read_done r cap data s w (s', w')"
    using wpD [OF handle_read_data [OF assms(1)] assms(2) [unfolded read_packet [OF assms(1)]]] by simp
  then show ?thesis
    unfolding read_done_def approved_def fetched_def Let_def fst_conv snd_conv by blast
qed

text \<open>A file system with one file, whose bytes are the world.\<close>

definition io_fs :: "u8 list ssh_fs_api" where
  "io_fs = \<lparr>fs_open = None, fs_close = None, fs_read = None, fs_write = None,
    fs_read_at = Some (\<lambda>h offset n w. (Inr (take n (drop (unat offset) w)), w)),
    fs_write_at = Some (\<lambda>h offset data w. (Inr (length data), take (unat offset) w @ data @ drop (unat offset + length data) w)), fs_stat = None, fs_lstat = None, fs_setstat = None,
    fs_fsetstat = None, fs_opendir = None, fs_readdir = None, fs_closedir = None, fs_mkdir = None, fs_rmdir = None,
    fs_remove = None, fs_rename = None, fs_posix_rename = None, fs_fsync = None, fs_hardlink = None, fs_statvfs = None,
    fs_fstatvfs = None\<rparr>"

definition io_session :: "u8 list sftp_server_session" where
  "io_session = snd (alloc_handle (sftp_server_session_init (Some io_fs)) 5 SFTP_HANDLE_KIND_FILE (SSH_FXF_READ OR SSH_FXF_WRITE)
     (Some [slash, 97]) (Some empty_attrs))"

lemma io_session_simps:
  "find_handle io_session (Some (be32 1)) = Some 0" "he_kind (ses_handles io_session ! 0) = Some SFTP_HANDLE_KIND_FILE"
  "he_pflags (ses_handles io_session ! 0) = 3" "ses_fs io_session = Some io_fs" "ses_policy io_session = None"
  by (simp_all add: io_session_def alloc_handle_def sftp_server_session_init_def EMSSH_SFTP_MAX_HANDLES_def EMSSH_SFTP_MAX_PATH_def
      find_handle_def handle_equals_def set_entry_def empty_entry_def write_u32_be_def upt_rec Let_def SSH_FXF_READ_def SSH_FXF_WRITE_def)

theorem acknowledged_write_is_complete_witness:
  "snd (snd (sftp_server_handle_packet (request_packet SSH_FXP_WRITE 3 (string_bytes (be32 1) @ be64 2 @ string_bytes [7, 8])) 64
     (io_session, [1, 2, 3, 4, 5]))) = [1, 2, 7, 8, 5]"
proof -
  let ?r = "\<lparr>wr_id = 3, wr_handle = Some (be32 1), wr_offset = 2, wr_data = Some [7, 8]\<rparr>"
  let ?request = "request_packet SSH_FXP_WRITE 3 (string_bytes (be32 1) @ be64 2 @ string_bytes [7, 8])"
  have decode: "sftp_write_request_decode ?request = Inr ?r"
    by (simp add: write_request.decode_iff string_valid_def view_bytes_def string_bytes_def UINT32_MAX_def)
  have "fst (sftp_server_handle_packet ?request 64 (io_session, [1, 2, 3, 4, 5])) = Inr (status_packet 3 SSH_FX_OK ''ok'')"
    by (simp add: write_packet [OF decode] handle_write_def decode tryA_def valueA_def sesA_def fs_op_def io_session_simps policy_check_def
        call_write_def fsA_def thenA_def bindA_def putA_def statusA_def status_fits UINT32_MAX_def io_fs_def SSH_FXF_WRITE_def Let_def)
  then obtain s' w' where *: "sftp_server_handle_packet ?request 64 (io_session, [1, 2, 3, 4, 5]) =
      (Inr (status_packet (wr_id ?r) SSH_FX_OK ''ok''), (s', w'))"
    by (metis prod.collapse sftp_write_request.select_convs(1))
  show ?thesis
    using acknowledged_write_is_complete [OF decode *] by (auto simp: * io_session_simps io_fs_def Let_def)
qed

theorem read_reply_is_file_data_witness:
  "\<exists>n \<le> 100. sftp_server_handle_packet (request_packet SSH_FXP_READ 3 (string_bytes (be32 1) @ be64 1 @ be32 100)) 64
     (io_session, [1, 2, 3, 4, 5]) =
     (Inr (request_packet SSH_FXP_DATA 3 (string_bytes (take n (drop 1 [1, 2, 3, 4, 5])))), (io_session, [1, 2, 3, 4, 5]))"
proof -
  let ?r = "\<lparr>rr_id = 3, rr_handle = Some (be32 1), rr_offset = 1, rr_len = 100\<rparr>"
  let ?request = "request_packet SSH_FXP_READ 3 (string_bytes (be32 1) @ be64 1 @ be32 100)"
  have decode: "sftp_read_request_decode ?request = Inr ?r"
    by (simp add: read_request.decode_iff string_valid_def view_bytes_def string_bytes_def UINT32_MAX_def)
  have "fst (sftp_server_handle_packet ?request 64 (io_session, [1, 2, 3, 4, 5])) =
      Inr (request_packet SSH_FXP_DATA 3 (string_bytes [2, 3, 4, 5]))"
    by (simp add: read_packet [OF decode] handle_read_def decode tryA_def valueA_def sesA_def fs_op_def io_session_simps policy_check_def
        call_read_def fsA_def data_in_place SFTP_DATA_RESPONSE_OVERHEAD_def EMSSH_SFTP_MAX_IO_def packet_limits UINT32_MAX_def io_fs_def SSH_FXF_READ_def Let_def)
  then obtain s' w' where *: "sftp_server_handle_packet ?request 64 (io_session, [1, 2, 3, 4, 5]) =
      (Inr (request_packet SSH_FXP_DATA 3 (string_bytes [2, 3, 4, 5])), (s', w'))"
    by (metis prod.collapse)
  show ?thesis
    using read_reply_is_file_data [OF decode *] by (auto simp: * io_session_simps io_fs_def Let_def)
qed

end
