(* ===== verification/Sftp_Handles.thy ===== *)
theory Sftp_Handles
  imports Sftp_Server "HOL-Library.Multiset"
begin

text \<open>
  The table of open handles of an SFTP session: what the lookups and updates of \<^verbatim>\<open>sftp_server.c\<close> mean for the multiset of
  open entries (locale \<open>handle_table\<close>), the steps by which a request may change the table (\<open>table_step\<close>, which every
  handler follows), and the invariants that all reachable tables have.
\<close>

section \<open>The table as a multiset of open entries\<close>

definition table_ok :: "'w sftp_server_session \<Rightarrow> bool" where
  "table_ok s \<longleftrightarrow> length (ses_handles s) = EMSSH_SFTP_MAX_HANDLES"

definition open_entries :: "'w sftp_server_session \<Rightarrow> sftp_handle_entry multiset" where
  "open_entries s = filter_mset he_in_use (mset (ses_handles s))"

definition wires_distinct :: "sftp_handle_entry multiset \<Rightarrow> bool" where
  "wires_distinct M \<longleftrightarrow> (\<forall>e \<in># M. \<forall>e' \<in># M - {#e#}. he_wire_handle e' \<noteq> he_wire_handle e)"

text \<open>What the handlers rely on: a lookup finds an open entry with that wire handle if there is one, and storing an
  entry in a slot that was found exchanges the entry or removes it.\<close>

locale handle_table =
  fixes ok :: "'s \<Rightarrow> bool" and contents :: "'s \<Rightarrow> sftp_handle_entry multiset" and lookup :: "'s \<Rightarrow> view \<Rightarrow> nat option"
    and get :: "'s \<Rightarrow> nat \<Rightarrow> sftp_handle_entry" and put :: "'s \<Rightarrow> nat \<Rightarrow> sftp_handle_entry \<Rightarrow> 's"
  assumes lookup_Some: "ok s \<Longrightarrow> lookup s v = Some i \<Longrightarrow> get s i \<in># contents s \<and> v = Some (he_wire_handle (get s i))"
    and lookup_None: "ok s \<Longrightarrow> lookup s v = None \<Longrightarrow> e \<in># contents s \<Longrightarrow> v \<noteq> Some (he_wire_handle e)"
    and put_ok: "ok s \<Longrightarrow> ok (put s i e)"
    and put_used: "ok s \<Longrightarrow> lookup s v = Some i \<Longrightarrow> he_in_use e \<Longrightarrow> contents (put s i e) = add_mset e (contents s - {#get s i#})"
    and put_free: "ok s \<Longrightarrow> lookup s v = Some i \<Longrightarrow> \<not> he_in_use e \<Longrightarrow> contents (put s i e) = contents s - {#get s i#}"
begin

lemma lookup_finds:
  assumes "ok s" "wires_distinct (contents s)" "e \<in># contents s"
  shows "\<exists>i. lookup s (Some (he_wire_handle e)) = Some i \<and> get s i = e"
proof -
  obtain i where i: "lookup s (Some (he_wire_handle e)) = Some i"
    using lookup_None [OF assms(1) _ assms(3)] by (cases "lookup s (Some (he_wire_handle e))") auto
  then have "get s i \<in># contents s" "he_wire_handle (get s i) = he_wire_handle e"
    using lookup_Some [OF assms(1) i] by simp_all
  moreover have "get s i \<in># contents s - {#e#}" if "get s i \<noteq> e"
    using calculation(1) that by (simp add: in_diff_count)
  ultimately have "get s i = e"
    using assms(2,3) by (auto simp: wires_distinct_def)
  with i show ?thesis by blast
qed

lemma removed_is_unknown:
  assumes "ok s" "wires_distinct (contents s)" "lookup s v = Some i" "\<not> he_in_use e"
  shows "lookup (put s i e) v = None"
proof (rule ccontr)
  assume "lookup (put s i e) v \<noteq> None"
  then obtain j where j: "lookup (put s i e) v = Some j" by blast
  have "get (put s i e) j \<in># contents s - {#get s i#}" "v = Some (he_wire_handle (get (put s i e) j))"
    using lookup_Some [OF put_ok [OF assms(1)] j] put_free [OF assms(1,3,4)] by simp_all
  then show False
    using assms(2) lookup_Some [OF assms(1,3)] unfolding wires_distinct_def by (metis option.inject)
qed

lemma others_are_kept:
  assumes "ok s" "lookup s v = Some i" "e' \<in># contents s" "e' \<noteq> get s i"
  shows "e' \<in># contents (put s i e)"
  using assms put_used [OF assms(1,2), of e] put_free [OF assms(1,2), of e]
  by (cases "he_in_use e") (auto simp: in_diff_count)

end

lemma find_upt: "find P [0..<n] = Some i \<longleftrightarrow> i < n \<and> P i \<and> (\<forall>j < i. \<not> P j)"
  by (auto simp: find_Some_iff)

lemma find_upt_None: "find P [0..<n] = None \<longleftrightarrow> (\<forall>i < n. \<not> P i)"
  by (auto simp: find_None_iff)

lemma handle_equals_iff: "handle_equals e v \<longleftrightarrow> he_in_use e \<and> v = Some (he_wire_handle e)"
  by (cases v) (auto simp: handle_equals_def)

lemma nth_open: "i < length (ses_handles s) \<Longrightarrow> he_in_use (ses_handles s ! i) \<Longrightarrow> ses_handles s ! i \<in># open_entries s"
  by (simp add: open_entries_def)

lemma open_entries_set:
  assumes "i < length (ses_handles s)"
  shows "open_entries (set_entry s i e) = filter_mset he_in_use {#e#} + (open_entries s - filter_mset he_in_use {#ses_handles s ! i#})"
  using assms by (simp add: open_entries_def set_entry_def mset_update)

lemma find_handle_bounds:
  "table_ok s \<Longrightarrow> find_handle s v = Some i \<Longrightarrow> i < length (ses_handles s) \<and> he_in_use (ses_handles s ! i) \<and>
    v = Some (he_wire_handle (ses_handles s ! i))"
  by (auto simp: find_handle_def find_upt handle_equals_iff table_ok_def)

interpretation session_table: handle_table table_ok open_entries find_handle "\<lambda>s. (!) (ses_handles s)" set_entry
proof unfold_locales
  fix s :: "'w sftp_server_session" and v i e
  assume ok: "table_ok s"
  show "table_ok (set_entry s i e)"
    using ok by (simp add: table_ok_def set_entry_def)
  {
    assume "find_handle s v = Some i"
    note i = find_handle_bounds [OF ok this]
    then show "ses_handles s ! i \<in># open_entries s \<and> v = Some (he_wire_handle (ses_handles s ! i))"
      using nth_open by blast
    show "open_entries (set_entry s i e) = add_mset e (open_entries s - {#ses_handles s ! i#})" if "he_in_use e"
      using i that by (simp add: open_entries_set)
    show "open_entries (set_entry s i e) = open_entries s - {#ses_handles s ! i#}" if "\<not> he_in_use e"
      using i that by (simp add: open_entries_set)
  }
  show "v \<noteq> Some (he_wire_handle e)" if none: "find_handle s v = None" and e: "e \<in># open_entries s"
  proof -
    obtain j where "j < length (ses_handles s)" "ses_handles s ! j = e" "he_in_use e"
      using e by (auto simp: open_entries_def in_set_conv_nth)
    with none ok show ?thesis
      by (auto simp: find_handle_def find_upt_None handle_equals_iff table_ok_def)
  qed
qed

section \<open>Table steps\<close>

text \<open>How one request may change the session: not at all, by new attributes of an open handle, by opening a handle for a
  normal path, or by closing one.\<close>

inductive table_step :: "'w sftp_server_session \<Rightarrow> 'w sftp_server_session \<Rightarrow> bool" where
  keep: "table_step s s"
| attrs: "find_handle s v = Some i \<Longrightarrow> table_step s (set_entry s i ((ses_handles s ! i)\<lparr>he_attrs := a\<rparr>))"
| enter: "alloc_handle s h kind pflags (Some path) (Some a) = (Some i, s') \<Longrightarrow> path_normal path \<Longrightarrow>
    (if kind = SFTP_HANDLE_KIND_FILE then open_pflags_are_valid pflags else pflags = 0) \<Longrightarrow> table_step s s'"
| close: "find_handle s v = Some i \<Longrightarrow> table_step s (set_entry s i empty_entry)"

inductive_cases table_stepE: "table_step s s'"

abbreviation steps_table :: "('w sftp_state, 'a) act \<Rightarrow> 'w sftp_state \<Rightarrow> bool" where
  "steps_table m s \<equiv> wpA m (\<lambda>_ s'. table_step (fst s) (fst s')) (\<lambda>_ s'. table_step (fst s) (fst s')) s"

lemma wp_statusA: "E' \<Longrightarrow> (\<And>e. E e s) \<Longrightarrow> (\<And>r. Q r s) \<Longrightarrow> wpA (statusA cap req_id code message) E Q s"
  unfolding statusA_def by (intro wp_intros)

lemma update_size_attrs: "\<exists>a. update_file_size_after_write e offset n = e\<lparr>he_attrs := a\<rparr>"
proof -
  have "e = e\<lparr>he_attrs := he_attrs e\<rparr>" by simp
  then show ?thesis
    unfolding update_file_size_after_write_def Let_def by (auto intro: exI [of _ "he_attrs e"])
qed

lemma table_step_size:
  "find_handle s v = Some i \<Longrightarrow> table_step s (set_entry s i (update_file_size_after_write (ses_handles s ! i) offset n))"
  using update_size_attrs [of "ses_handles s ! i" offset n] table_step.attrs by metis

lemma handlers_step_table:
  "steps_table (handle_realpath request cap) s"
  "steps_table (handle_path_attrs request type cap) s"
  "steps_table (handle_close request cap) s"
  "steps_table (handle_fstat request cap) s"
  "steps_table (handle_setstat request cap) s"
  "steps_table (handle_fsetstat request cap) s"
  "steps_table (handle_read request cap) s"
  "steps_table (handle_readdir request cap) s"
  "steps_table (handle_write request cap) s"
  "steps_table (handle_remove request cap) s"
  "steps_table (handle_mkdir request cap) s"
  "steps_table (handle_rmdir request cap) s"
  "steps_table (handle_rename request cap) s"
  "steps_table (handle_extended request cap) s"
  "steps_table (handle_init request cap) s"
  unfolding handler_defs handle_init_def step_defs statusA_def
  by (intro wp_intros wp_call_intros;
      (simp add: table_step.keep table_step.attrs table_step.close table_step_size split: if_splits)?)+

lemma open_handlers_step_table:
  "steps_table (handle_open request cap) s"
  "steps_table (handle_opendir request cap) s"
  unfolding handler_defs step_defs statusA_def
  by (intro wp_intros wp_call_intros; (auto simp: table_step.keep split: option.splits prod.splits intro!: wp_intros wp_call_intros
      intro: table_step.keep table_step.enter dest!: copy_path_sound)?)+

lemma handle_packet_steps_table: "steps_table (sftp_server_handle_packet request cap) s"
  unfolding sftp_server_handle_packet_def statusA_def
  by (intro wp_intros handlers_step_table open_handlers_step_table; simp add: table_step.keep)

section \<open>Invariants\<close>

definition entry_ok :: "sftp_handle_entry \<Rightarrow> bool" where
  "entry_ok e \<longleftrightarrow> (he_kind e = Some SFTP_HANDLE_KIND_FILE \<and> open_pflags_are_valid (he_pflags e) \<or>
      he_kind e = Some SFTP_HANDLE_KIND_DIR \<and> he_pflags e = 0) \<and>
    he_fs_handle e \<noteq> 0 \<and> path_normal (he_path e) \<and> length (he_wire_handle e) = 4"

definition session_ok :: "'w sftp_server_session \<Rightarrow> bool" where
  "session_ok s \<longleftrightarrow> table_ok s \<and> (\<forall>e \<in># open_entries s. entry_ok e)"

definition ids_below :: "'w sftp_server_session \<Rightarrow> bool" where
  "ids_below s \<longleftrightarrow> wires_distinct (open_entries s) \<and>
     (\<forall>e \<in># open_entries s. \<exists>n. he_wire_handle e = be32 n \<and> n < ses_next_handle_id s)"

definition new_entry :: "'w sftp_server_session \<Rightarrow> nat \<Rightarrow> sftp_handle_kind \<Rightarrow> u32 \<Rightarrow> u8 list \<Rightarrow> ssh_fs_attrs \<Rightarrow> sftp_handle_entry" where
  "new_entry s h kind pflags path a = \<lparr>he_in_use = True, he_kind = Some kind, he_wire_handle = be32 (ses_next_handle_id s),
     he_fs_handle = h, he_pflags = pflags, he_path = path, he_attrs = a\<rparr>"

definition next_id :: "u32 \<Rightarrow> u32" where
  "next_id n = (if n + 1 = 0 then 1 else n + 1)"

lemma alloc_handle_slot:
  assumes "alloc_handle s h kind pflags (Some path) (Some a) = (Some i, s')"
  shows "i < EMSSH_SFTP_MAX_HANDLES" "\<not> he_in_use (ses_handles s ! i)" "h \<noteq> 0"
    "s' = set_entry (s\<lparr>ses_next_handle_id := next_id (ses_next_handle_id s)\<rparr>) i (new_entry s h kind pflags path a)"
  using assms by (auto simp: alloc_handle_def find_upt Let_def new_entry_def next_id_def write_u32_be_def split: if_splits option.splits)

lemma alloc_handle_Some:
  assumes "alloc_handle s h kind pflags (Some path) (Some a) = (Some i, s')" "table_ok s"
  shows "h \<noteq> 0" "ses_fs s' = ses_fs s" "ses_policy s' = ses_policy s" "ses_next_handle_id s' = next_id (ses_next_handle_id s)"
    "open_entries s' = add_mset (new_entry s h kind pflags path a) (open_entries s)" "table_ok s'"
    "ses_handles s' ! i = new_entry s h kind pflags path a"
proof -
  note i = alloc_handle_slot(1-3) [OF assms(1)] and s' = alloc_handle_slot(4) [OF assms(1)]
  show "h \<noteq> 0" by (rule i)
  have entries: "open_entries (s\<lparr>ses_next_handle_id := n\<rparr>) = open_entries s" for n
    by (simp add: open_entries_def)
  have "i < length (ses_handles s)"
    using i assms(2) by (simp add: table_ok_def)
  then show "open_entries s' = add_mset (new_entry s h kind pflags path a) (open_entries s)"
    using i by (simp add: s' open_entries_set entries) (simp add: new_entry_def)
  show "ses_handles s' ! i = new_entry s h kind pflags path a"
    using \<open>i < length (ses_handles s)\<close> by (simp add: s' set_entry_def)
  show "ses_fs s' = ses_fs s" "ses_policy s' = ses_policy s" "ses_next_handle_id s' = next_id (ses_next_handle_id s)" "table_ok s'"
    using assms(2) by (simp_all add: s' set_entry_def table_ok_def)
qed

lemma set_entry_frame [simp]:
  "ses_fs (set_entry s i e) = ses_fs s" "ses_policy (set_entry s i e) = ses_policy s"
  "ses_next_handle_id (set_entry s i e) = ses_next_handle_id s" "table_ok (set_entry s i e) = table_ok s"
  by (simp_all add: set_entry_def table_ok_def)

lemma empty_entry_free [simp]: "\<not> he_in_use empty_entry"
  by (simp add: empty_entry_def)

text \<open>What a step does to the open entries.\<close>

lemma table_step_entries:
  assumes "table_step s s'" "table_ok s"
  obtains (keep) "open_entries s' = open_entries s" "ses_next_handle_id s' = ses_next_handle_id s"
  | (attrs) e a where "e \<in># open_entries s" "open_entries s' = add_mset (e\<lparr>he_attrs := a\<rparr>) (open_entries s - {#e#})"
      "ses_next_handle_id s' = ses_next_handle_id s"
  | (enter) h kind pflags path a where "open_entries s' = add_mset (new_entry s h kind pflags path a) (open_entries s)"
      "ses_next_handle_id s' = next_id (ses_next_handle_id s)" "entry_ok (new_entry s h kind pflags path a)"
  | (close) e where "e \<in># open_entries s" "open_entries s' = open_entries s - {#e#}" "ses_next_handle_id s' = ses_next_handle_id s"
  using assms(1)
proof cases
  case keep
  then show ?thesis using that(1) by simp
next
  case (attrs v i a)
  note i = find_handle_bounds [OF assms(2) attrs(2)]
  have eq: "open_entries s' = add_mset ((ses_handles s ! i)\<lparr>he_attrs := a\<rparr>) (open_entries s - {#ses_handles s ! i#})"
    unfolding attrs(1) by (rule session_table.put_used [OF assms(2) attrs(2)]) (simp add: i)
  then show ?thesis
    using that(2) [OF _ eq] session_table.lookup_Some [OF assms(2) attrs(2)] attrs(1) by simp
next
  case (enter h kind pflags path a i)
  note alloc = alloc_handle_Some [OF enter(1) assms(2)]
  have "entry_ok (new_entry s h kind pflags path a)"
    using enter alloc(1) by (cases kind) (auto simp: entry_ok_def new_entry_def)
  then show ?thesis
    using that(3) [OF alloc(5,4)] by simp
next
  case (close v i)
  have eq: "open_entries s' = open_entries s - {#ses_handles s ! i#}"
    unfolding close(1) by (rule session_table.put_free [OF assms(2) close(2)]) simp
  then show ?thesis
    using that(4) [OF _ eq] session_table.lookup_Some [OF assms(2) close(2)] close(1) by simp
qed

lemma table_step_ok: "table_step s s' \<Longrightarrow> table_ok s \<Longrightarrow> table_ok s'"
  by (erule table_stepE) (auto dest: alloc_handle_Some(6))

lemma table_step_session_ok:
  assumes "table_step s s'" "session_ok s"
  shows "session_ok s'"
proof -
  have ok: "table_ok s" "\<And>e. e \<in># open_entries s \<Longrightarrow> entry_ok e"
    using assms(2) by (simp_all add: session_ok_def)
  show ?thesis
    using assms(1) ok(1)
  proof (cases rule: table_step_entries)
    case (attrs e a)
    then show ?thesis
      using ok table_step_ok [OF assms(1)] by (auto simp: session_ok_def entry_ok_def dest: in_diffD)
  qed (use ok table_step_ok [OF assms(1)] in \<open>auto simp: session_ok_def dest: in_diffD\<close>)
qed

lemma wires_distinct_add:
  "wires_distinct (add_mset e M) \<longleftrightarrow> wires_distinct M \<and> (\<forall>e' \<in># M. he_wire_handle e' \<noteq> he_wire_handle e)"
proof (intro iffI conjI)
  assume d: "wires_distinct (add_mset e M)"
  then show "\<forall>e' \<in># M. he_wire_handle e' \<noteq> he_wire_handle e"
    by (simp add: wires_distinct_def)
  have "he_wire_handle y \<noteq> he_wire_handle x" if "x \<in># M" "y \<in># M - {#x#}" for x y
  proof -
    have "y \<in># add_mset e M - {#x#}"
      using that by (cases "x = e") (auto simp: diff_add_mset_swap dest: in_diffD)
    moreover have "x \<in># add_mset e M"
      using that(1) by simp
    ultimately show ?thesis
      using d unfolding wires_distinct_def by blast
  qed
  then show "wires_distinct M"
    by (simp add: wires_distinct_def)
next
  assume *: "wires_distinct M \<and> (\<forall>e' \<in># M. he_wire_handle e' \<noteq> he_wire_handle e)"
  have "he_wire_handle y \<noteq> he_wire_handle x" if "x \<in># add_mset e M" "y \<in># add_mset e M - {#x#}" for x y
  proof (cases "x = e")
    case False
    then have "x \<in># M" "y = e \<or> y \<in># M - {#x#}"
      using that by (auto simp: diff_add_mset_swap)
    then show ?thesis
      using * by (auto simp: wires_distinct_def)
  qed (use that * in simp)
  then show "wires_distinct (add_mset e M)"
    unfolding wires_distinct_def by blast
qed

lemma table_step_ids_below:
  assumes "table_step s s'" "table_ok s" "ids_below s" "ses_next_handle_id s \<noteq> - 1"
  shows "ids_below s' \<and> ses_next_handle_id s' \<in> {ses_next_handle_id s, ses_next_handle_id s + 1}"
proof -
  note d = assms(3) [unfolded ids_below_def]
  from assms(1,2) show ?thesis
  proof (cases rule: table_step_entries)
    case keep
    then show ?thesis
      using d by (simp add: ids_below_def)
  next
    case (attrs e a)
    from attrs(1) obtain M where M: "open_entries s = add_mset e M"
      by (metis insert_DiffM)
    then show ?thesis
      using attrs d by (simp add: ids_below_def wires_distinct_add)
  next
    case (enter h kind pflags path a)
    have up: "ses_next_handle_id s < ses_next_handle_id s + 1" "next_id (ses_next_handle_id s) = ses_next_handle_id s + 1"
      using assms(4) unatSuc [of "ses_next_handle_id s"] by (simp_all add: next_id_def word_less_nat_alt eq_neg_iff_add_eq_0 add.commute)
    have "he_wire_handle e \<noteq> be32 (ses_next_handle_id s)" if "e \<in># open_entries s" for e
      using d that by fastforce
    moreover have "\<exists>n. he_wire_handle e = be32 n \<and> n < ses_next_handle_id s + 1" if "e \<in># open_entries s" for e
      using d that up(1) by (meson order.strict_trans)
    moreover have "he_wire_handle (new_entry s h kind pflags path a) = be32 (ses_next_handle_id s)"
      by (simp add: new_entry_def)
    ultimately show ?thesis
      using enter(1,2) d up by (auto simp: ids_below_def wires_distinct_add)
  next
    case (close e)
    from close(1) obtain M where M: "open_entries s = add_mset e M"
      by (metis insert_DiffM)
    then show ?thesis
      using close d by (simp add: ids_below_def wires_distinct_add)
  qed
qed

section \<open>A session\<close>

text \<open>The packets of a session, one after the other; the replies are not needed here.\<close>

fun serve :: "(u8 list \<times> nat) list \<Rightarrow> 'w sftp_state \<Rightarrow> 'w sftp_state" where
  "serve [] \<sigma> = \<sigma>"
| "serve ((request, cap) # requests) \<sigma> = serve requests (snd (sftp_server_handle_packet request cap \<sigma>))"

lemma handle_packet_step: "table_step (fst \<sigma>) (fst (snd (sftp_server_handle_packet request cap \<sigma>)))"
  using handle_packet_steps_table [of request cap \<sigma>] by (auto simp: wpA_def split: prod.splits sum.splits)

lemma serve_session_ok: "session_ok (fst \<sigma>) \<Longrightarrow> session_ok (fst (serve requests \<sigma>))"
proof (induction requests \<sigma> rule: serve.induct)
  case (2 request cap requests \<sigma>)
  then show ?case
    using table_step_session_ok [OF handle_packet_step [of \<sigma> request cap]] by simp
qed simp

lemma serve_ids_below:
  assumes "table_ok (fst \<sigma>)" "ids_below (fst \<sigma>)" "unat (ses_next_handle_id (fst \<sigma>)) + length requests < 2 ^ 32"
  shows "ids_below (fst (serve requests \<sigma>))"
  using assms
proof (induction requests \<sigma> rule: serve.induct)
  case (2 request cap requests \<sigma>)
  let ?s = "fst \<sigma>" and ?s' = "fst (snd (sftp_server_handle_packet request cap \<sigma>))"
  have room: "unat (ses_next_handle_id ?s) + 1 < 2 ^ 32"
    using "2.prems"(3) by simp
  then have "ses_next_handle_id ?s \<noteq> - 1"
    by (auto simp: unsigned_minus_1_eq_mask mask_eq_exp_minus_1)
  note step = table_step_ids_below [OF handle_packet_step "2.prems"(1,2) this, of request cap]
  have "unat (ses_next_handle_id ?s') \<le> unat (ses_next_handle_id ?s) + 1"
    using step room by (auto simp: unat_plus_if')
  then show ?case
    using "2.IH" step "2.prems" table_step_ok [OF handle_packet_step, of \<sigma> request cap] by simp
qed simp

lemma session_start_ok:
  "session_ok (sftp_server_session_set_policy (sftp_server_session_init fs) policy)"
  "ids_below (sftp_server_session_set_policy (sftp_server_session_init fs) policy)"
proof -
  have "open_entries (sftp_server_session_set_policy (sftp_server_session_init fs) policy) = {#}"
    by (simp add: open_entries_def sftp_server_session_set_policy_def sftp_server_session_init_def)
  then show "session_ok (sftp_server_session_set_policy (sftp_server_session_init fs) policy)"
    "ids_below (sftp_server_session_set_policy (sftp_server_session_init fs) policy)"
    by (simp_all add: session_ok_def ids_below_def wires_distinct_def table_ok_def sftp_server_session_set_policy_def sftp_server_session_init_def)
qed

section \<open>Closing\<close>

lemma close_entry_session:
  assumes "he_in_use (ses_handles s ! i)"
  shows "fst (snd (close_entry i (s, w))) = set_entry s i empty_entry"
  using assms by (auto simp: close_entry_def sesA_def tryA_def fsA_def thenA_def bindA_def putA_def Let_def split: prod.splits sum.splits)

lemma finishA_state: "snd (finishA cap req_id fallback m \<sigma>) = snd (m \<sigma>)"
  by (auto simp: finishA_def tryA_def resultA_def statusA_def valueA_def split: prod.splits sum.splits)

lemma close_packet:
  assumes "9 + length h \<le> UINT32_MAX"
  shows "sftp_server_handle_packet (request_packet SSH_FXP_CLOSE req_id (string_bytes h)) cap (s, w) =
    (case find_handle s (Some h) of
       None \<Rightarrow> statusA cap req_id SSH_FX_FAILURE ''bad handle'' (s, w)
     | Some i \<Rightarrow> finishA cap req_id ''close failed'' (close_entry i) (s, w))"
proof -
  let ?request = "request_packet SSH_FXP_CLOSE req_id (string_bytes h)"
  have wrap: "sftp_packet_wrap ?request = Inr \<lparr>pk_type = SSH_FXP_CLOSE, pk_payload = be32 req_id @ string_bytes h\<rparr>"
    using assms by (simp add: packet_wrap_iff request_packet_def string_bytes_def)
  have decode: "sftp_close_request_decode ?request = Inr \<lparr>hr_id = req_id, hr_handle = Some h\<rparr>"
    using assms by (simp add: sftp_close_request_decode_def handle_request.decode_iff string_valid_def view_bytes_def string_bytes_def)
  show ?thesis
    using decode wrap
    by (simp add: sftp_server_handle_packet_def handle_close_def tryA_def valueA_def sesA_def fxp_defs split: option.splits)
qed

section \<open>Opening a file\<close>

text \<open>A request to open the file \<^verbatim>\<open>a\<close> for writing, and its effect where the policy approves and the file system opens.\<close>

definition open_request :: "u8 list" where
  "open_request = request_packet SSH_FXP_OPEN 1 (string_bytes [97] @ be32 2 @ be32 0)"

lemma attrs_decode_none: "sftp_attrs_decode (Some (be32 0)) = Inr empty_attrs"
  by code_simp

lemma open_packet:
  assumes "ses_fs s = Some f" "fs_open f = Some g" "fs_stat f = None" "g [97] 2 w1 = (Inr 5, w2)"
    and "approved s \<lparr>po_operation = SFTP_POLICY_OPEN, po_path = Some [97], po_new_path = None, po_pflags = 2, po_offset = 0, po_length = 0,
       po_attrs = Some empty_attrs\<rparr> w w1"
    and "alloc_handle s 5 SFTP_HANDLE_KIND_FILE 2 (Some [97]) (Some empty_attrs) = (Some i, s')"
  shows "snd (sftp_server_handle_packet open_request 64 (s, w)) = (s', w2)"
proof -
  have wrap: "sftp_packet_wrap open_request = Inr \<lparr>pk_type = SSH_FXP_OPEN, pk_payload = be32 1 @ string_bytes [97] @ be32 2 @ be32 0\<rparr>"
    by (simp add: open_request_def packet_wrap_iff request_packet_def string_bytes_def UINT32_MAX_def)
  have decode: "sftp_open_request_decode open_request = Inr \<lparr>or_id = 1, or_filename = Some [97], or_pflags = 2, or_attrs = Some (be32 0)\<rparr>"
    by (simp add: open_request_def open_request.decode_iff string_valid_def view_bytes_def string_bytes_def UINT32_MAX_def attrs_given_def)
  have copy: "copy_path (Some [97]) = Inr [97]" and flags: "open_pflags_are_valid 2" and none: "attr_flags empty_attrs = 0"
    by code_simp+
  have same: "empty_attrs\<lparr>attr_flags := 0\<rparr> = empty_attrs"
    using none by (metis ssh_fs_attrs.surjective ssh_fs_attrs.update_convs(1))
  show ?thesis
    using decode wrap copy flags none assms
    by (auto simp: sftp_server_handle_packet_def handle_open_def tryA_def valueA_def sesA_def attrs_decode_none same
        fs_op_def policy_check_def approved_def fsA_def open_file_def refresh_attrs_def register_handle_def putA_def
        bindA_def thenA_def fxp_defs Let_def split: option.splits)
qed

section \<open>Properties\<close>

text \<open>C29. In every session, after any packets, the table has its sixteen slots and every open handle is sound: a file
  with valid open flags or a directory without flags, a file system handle that is not NULL, a normal path, a wire handle
  of four bytes. While fewer than \<open>2 ^ 32 - 1\<close> packets were served, no two open handles have the same wire handle.\<close>

theorem reachable_tables_are_sound:
  fixes fs policy w requests
  defines "s \<equiv> fst (serve requests (sftp_server_session_set_policy (sftp_server_session_init fs) policy, w))"
  shows "session_ok s \<and> (length requests < 2 ^ 32 - 1 \<longrightarrow> wires_distinct (open_entries s))"
proof (intro conjI impI)
  let ?\<sigma> = "(sftp_server_session_set_policy (sftp_server_session_init fs) policy, w)"
  show "session_ok s"
    using serve_session_ok [of ?\<sigma> requests] session_start_ok(1) [of fs policy] by (simp add: s_def)
  assume "length requests < 2 ^ 32 - 1"
  then have "table_ok (fst ?\<sigma>)" "unat (ses_next_handle_id (fst ?\<sigma>)) + length requests < 2 ^ 32"
    using session_start_ok(1) [of fs policy] by (simp_all add: session_ok_def sftp_server_session_set_policy_def sftp_server_session_init_def)
  then have "ids_below (fst (serve requests ?\<sigma>))"
    using session_start_ok(2) [of fs policy] by (intro serve_ids_below) simp_all
  then show "wires_distinct (open_entries s)"
    by (simp add: s_def ids_below_def)
qed

text \<open>A file system that only opens.\<close>

definition opening_fs :: "unit ssh_fs_api" where
  "opening_fs = \<lparr>fs_open = Some (\<lambda>p flags w. (Inr 5, w)), fs_close = None, fs_read = None, fs_write = None,
    fs_read_at = None, fs_write_at = None, fs_stat = None, fs_lstat = None, fs_setstat = None, fs_fsetstat = None,
    fs_opendir = None, fs_readdir = None, fs_closedir = None, fs_mkdir = None, fs_rmdir = None,
    fs_remove = None, fs_rename = None, fs_posix_rename = None, fs_fsync = None, fs_hardlink = None,
    fs_statvfs = None, fs_fstatvfs = None\<rparr>"

theorem reachable_tables_are_sound_witness:
  "\<exists>e e'. session_ok (fst (serve [(open_request, 64), (open_request, 64)]
       (sftp_server_session_set_policy (sftp_server_session_init (Some opening_fs)) None, ()))) \<and>
     {#e, e'#} = open_entries (fst (serve [(open_request, 64), (open_request, 64)]
       (sftp_server_session_set_policy (sftp_server_session_init (Some opening_fs)) None, ()))) \<and>
     he_path e = he_path e' \<and> he_wire_handle e \<noteq> he_wire_handle e'"
proof -
  let ?s = "sftp_server_session_set_policy (sftp_server_session_init (Some opening_fs)) None"
  have fs: "ses_fs ?s = Some opening_fs" "ses_policy ?s = None" "open_entries ?s = {#}"
    by (simp_all add: sftp_server_session_set_policy_def sftp_server_session_init_def open_entries_def)
  note open_packet = open_packet [where f = opening_fs and g = "\<lambda>p flags w. (Inr 5, w)" and w = "()" and ?w1.0 = "()" and ?w2.0 = "()"]
  obtain s1 where a1: "alloc_handle ?s 5 SFTP_HANDLE_KIND_FILE 2 (Some [97]) (Some empty_attrs) = (Some 0, s1)"
      "ses_handles s1 = (ses_handles ?s)[0 := new_entry ?s 5 SFTP_HANDLE_KIND_FILE 2 [97] empty_attrs]"
    by (simp add: sftp_server_session_set_policy_def sftp_server_session_init_def alloc_handle_def EMSSH_SFTP_MAX_HANDLES_def Let_def upt_rec
        new_entry_def set_entry_def write_u32_be_def EMSSH_SFTP_MAX_PATH_def empty_entry_def)
  have ok: "table_ok ?s"
    using session_start_ok(1) [of "Some opening_fs" None] by (simp add: session_ok_def)
  note first = alloc_handle_Some [OF a1(1) ok]
  obtain s2 where a2: "alloc_handle s1 5 SFTP_HANDLE_KIND_FILE 2 (Some [97]) (Some empty_attrs) = (Some 1, s2)"
    by (simp add: a1(2) sftp_server_session_set_policy_def sftp_server_session_init_def alloc_handle_def EMSSH_SFTP_MAX_HANDLES_def Let_def upt_rec
        new_entry_def EMSSH_SFTP_MAX_PATH_def empty_entry_def)
  note second = alloc_handle_Some [OF a2 first(6)]
  have ops: "fs_open opening_fs = Some (\<lambda>p flags w. (Inr 5, w))" "fs_stat opening_fs = None"
    by (simp_all add: opening_fs_def)
  have "snd (sftp_server_handle_packet open_request 64 (?s, ())) = (s1, ())"
    by (rule open_packet [OF fs(1) ops _ _ a1(1)]) (simp_all add: approved_def fs(2))
  moreover have "snd (sftp_server_handle_packet open_request 64 (s1, ())) = (s2, ())"
    by (rule open_packet [OF _ ops _ _ a2]) (simp_all add: approved_def first(2,3) fs(1,2))
  ultimately have served: "fst (serve [(open_request, 64), (open_request, 64)] (?s, ())) = s2"
    by simp
  have entries: "open_entries s2 = {#new_entry s1 5 SFTP_HANDLE_KIND_FILE 2 [97] empty_attrs, new_entry ?s 5 SFTP_HANDLE_KIND_FILE 2 [97] empty_attrs#}"
    using second(5) first(5) fs(3) by simp
  have "session_ok s2" "wires_distinct (open_entries s2)"
    using reachable_tables_are_sound [of "[(open_request, 64), (open_request, 64)]" "Some opening_fs" None "()"] by (simp_all only: served) simp_all
  then have "he_wire_handle (new_entry s1 5 SFTP_HANDLE_KIND_FILE 2 [97] empty_attrs) \<noteq>
      he_wire_handle (new_entry ?s 5 SFTP_HANDLE_KIND_FILE 2 [97] empty_attrs)"
    unfolding entries wires_distinct_add by auto
  then show ?thesis
    unfolding served entries using \<open>session_ok s2\<close>
    by (intro exI [of _ "new_entry s1 5 SFTP_HANDLE_KIND_FILE 2 [97] empty_attrs"]
        exI [of _ "new_entry ?s 5 SFTP_HANDLE_KIND_FILE 2 [97] empty_attrs"] conjI refl) (simp_all add: new_entry_def)
qed

text \<open>A close request ends its handle: afterwards the handle is unknown, whatever the file system's close returned,
  and every other open handle is still open with its entry unchanged.\<close>

theorem closed_handle_is_unknown:
  assumes "table_ok s" "wires_distinct (open_entries s)" "9 + length h \<le> UINT32_MAX"
    and "sftp_server_handle_packet (request_packet SSH_FXP_CLOSE req_id (string_bytes h)) cap (s, w) = (r, (s', w'))"
  shows "find_handle s' (Some h) = None \<and> (\<forall>e. e \<in># open_entries s \<and> he_wire_handle e \<noteq> h \<longrightarrow> e \<in># open_entries s')"
proof (cases "find_handle s (Some h)")
  case None
  then have "s' = s"
    using assms(4) by (simp add: close_packet [OF assms(3)] statusA_def valueA_def)
  then show ?thesis
    using None by simp
next
  case (Some i)
  note i = find_handle_bounds [OF assms(1) Some]
  have "s' = fst (snd (close_entry i (s, w)))"
    using assms(4) Some finishA_state [of cap req_id "''close failed''" "close_entry i" "(s, w)"]
    by (metis (no_types, lifting) close_packet [OF assms(3)] fst_conv option.case(2) snd_conv)
  then have s': "s' = set_entry s i empty_entry"
    using i close_entry_session by metis
  show ?thesis
    using session_table.removed_is_unknown [OF assms(1,2) Some, of empty_entry]
      session_table.others_are_kept [OF assms(1) Some, of _ empty_entry] i by (auto simp: s')
qed

definition sample_session :: "unit sftp_server_session" where
  "sample_session = snd (alloc_handle (sftp_server_session_init None) 5 SFTP_HANDLE_KIND_FILE SSH_FXF_READ (Some [slash, 97]) (Some empty_attrs))"

lemma sample_session_entries:
  "table_ok sample_session" "open_entries sample_session =
     {#new_entry (sftp_server_session_init None :: unit sftp_server_session) 5 SFTP_HANDLE_KIND_FILE SSH_FXF_READ [slash, 97] empty_attrs#}"
proof -
  let ?s = "sftp_server_session_init None :: unit sftp_server_session"
  have "find (\<lambda>i. \<not> he_in_use (ses_handles ?s ! i)) [0..<EMSSH_SFTP_MAX_HANDLES] = Some 0"
    by (simp add: find_upt sftp_server_session_init_def EMSSH_SFTP_MAX_HANDLES_def)
  then have alloc: "alloc_handle ?s 5 SFTP_HANDLE_KIND_FILE SSH_FXF_READ (Some [slash, 97]) (Some empty_attrs) = (Some 0, sample_session)"
    by (simp add: sample_session_def alloc_handle_def Let_def EMSSH_SFTP_MAX_PATH_def)
  have ok: "table_ok ?s" and empty: "open_entries ?s = {#}"
    by (simp_all add: table_ok_def open_entries_def sftp_server_session_init_def)
  show "table_ok sample_session" "open_entries sample_session =
     {#new_entry (sftp_server_session_init None :: unit sftp_server_session) 5 SFTP_HANDLE_KIND_FILE SSH_FXF_READ [slash, 97] empty_attrs#}"
    using alloc_handle_Some(5,6) [OF alloc ok] empty by simp_all
qed

theorem closed_handle_is_unknown_witness:
  "find_handle sample_session (Some (be32 1)) \<noteq> None \<and>
   find_handle (fst (snd (sftp_server_handle_packet (request_packet SSH_FXP_CLOSE 7 (string_bytes (be32 1))) 64 (sample_session, ()))))
     (Some (be32 1)) = None"
proof -
  have d: "wires_distinct (open_entries sample_session)" and long: "9 + length (be32 1) \<le> UINT32_MAX"
    by (simp_all add: sample_session_entries wires_distinct_def UINT32_MAX_def)
  obtain r s' w' where *: "sftp_server_handle_packet (request_packet SSH_FXP_CLOSE 7 (string_bytes (be32 1))) 64 (sample_session, ()) = (r, (s', w'))"
    by (metis surj_pair)
  have "find_handle sample_session (Some (be32 1)) \<noteq> None"
    using session_table.lookup_finds [OF sample_session_entries(1) d]
    by (auto simp: sample_session_entries(2) new_entry_def sftp_server_session_init_def)
  then show ?thesis
    using closed_handle_is_unknown [OF sample_session_entries(1) d long *] * by simp
qed

lemma sample_session_handles: "ses_handles sample_session =
  new_entry (sftp_server_session_init None :: unit sftp_server_session) 5 SFTP_HANDLE_KIND_FILE SSH_FXF_READ [slash, 97] empty_attrs
    # replicate 15 empty_entry"
  by (simp add: sample_session_def alloc_handle_def find_upt sftp_server_session_init_def EMSSH_SFTP_MAX_HANDLES_def Let_def
      set_entry_def new_entry_def write_u32_be_def EMSSH_SFTP_MAX_PATH_def upt_rec numeral_eq_Suc)

text \<open>C35. The counter of handle ids does not look at the table: when it has wrapped around while an old handle is still
  open, the next handle gets the same wire handle, and a lookup of it finds the slot that comes first.\<close>

theorem wrapped_id_collides:
  assumes "table_ok s" "ses_next_handle_id s = - 1" "he_in_use (ses_handles s ! 0)" "he_wire_handle (ses_handles s ! 0) = be32 1"
    and "alloc_handle s h kind pflags (Some path) (Some a) = (Some i, s')"
    and "alloc_handle s' h' kind' pflags' (Some path') (Some a') = (Some j, s'')"
  shows "he_wire_handle (ses_handles s'' ! j) = be32 1 \<and> j \<noteq> 0 \<and> find_handle s'' (Some (be32 1)) = Some 0"
proof -
  note first = alloc_handle_Some [OF assms(5,1)]
  note second = alloc_handle_Some [OF assms(6) first(6)]
  have "i \<noteq> 0"
    using assms(3) alloc_handle_slot(2) [OF assms(5)] by metis
  then have slot: "ses_handles s' ! 0 = ses_handles s ! 0"
    by (simp add: alloc_handle_slot(4) [OF assms(5)] set_entry_def)
  then have j: "j \<noteq> 0"
    using assms(3) alloc_handle_slot(2) [OF assms(6)] by metis
  then have "ses_handles s'' ! 0 = ses_handles s ! 0"
    using slot by (simp add: alloc_handle_slot(4) [OF assms(6)] set_entry_def)
  then have "find_handle s'' (Some (be32 1)) = Some 0"
    using assms(3,4) by (simp add: find_handle_def find_upt handle_equals_iff EMSSH_SFTP_MAX_HANDLES_def)
  moreover have "he_wire_handle (ses_handles s'' ! j) = be32 1"
    using second(7) first(4) assms(2) by (simp add: new_entry_def next_id_def)
  ultimately show ?thesis
    using j by blast
qed

theorem wrapped_id_collides_witness:
  "\<exists>s :: unit sftp_server_session. \<exists>s' s'' i j. table_ok s \<and> wires_distinct (open_entries s) \<and>
    alloc_handle s 6 SFTP_HANDLE_KIND_FILE SSH_FXF_READ (Some [dot]) (Some empty_attrs) = (Some i, s') \<and>
    alloc_handle s' 7 SFTP_HANDLE_KIND_FILE SSH_FXF_READ (Some [dot]) (Some empty_attrs) = (Some j, s'') \<and>
    he_wire_handle (ses_handles s'' ! j) = be32 1 \<and> j \<noteq> 0 \<and> find_handle s'' (Some (be32 1)) = Some 0"
proof -
  let ?s = "sample_session\<lparr>ses_next_handle_id := - 1\<rparr>"
  have s: "table_ok ?s" "ses_next_handle_id ?s = - 1" "he_in_use (ses_handles ?s ! 0)" "he_wire_handle (ses_handles ?s ! 0) = be32 1"
    using sample_session_entries(1) by (simp_all add: table_ok_def sample_session_handles new_entry_def sftp_server_session_init_def)
  obtain s' where a1: "alloc_handle ?s 6 SFTP_HANDLE_KIND_FILE SSH_FXF_READ (Some [dot]) (Some empty_attrs) = (Some 1, s')"
      "ses_handles s' = (ses_handles ?s)[1 := new_entry ?s 6 SFTP_HANDLE_KIND_FILE SSH_FXF_READ [dot] empty_attrs]"
    by (simp add: sample_session_handles alloc_handle_def EMSSH_SFTP_MAX_HANDLES_def Let_def upt_rec
        new_entry_def set_entry_def write_u32_be_def EMSSH_SFTP_MAX_PATH_def)
  then obtain s'' where a2: "alloc_handle s' 7 SFTP_HANDLE_KIND_FILE SSH_FXF_READ (Some [dot]) (Some empty_attrs) = (Some 2, s'')"
    by (simp add: sample_session_handles alloc_handle_def EMSSH_SFTP_MAX_HANDLES_def Let_def upt_rec
        new_entry_def EMSSH_SFTP_MAX_PATH_def numeral_eq_Suc)
  have "wires_distinct (open_entries ?s)"
    using sample_session_entries(2) by (simp add: open_entries_def wires_distinct_def)
  then show ?thesis
    using wrapped_id_collides [OF s a1(1) a2] s(1) a1(1) a2 by blast
qed

end
