(* ===== verification/Sftp_Protocol.thy ===== *)
theory Sftp_Protocol
  imports Sftp_Handles
begin

text \<open>
  What the SFTP server asks of the file system and of the policy hook, as a protocol. The callbacks are wrapped so that the
  world also records the decisions of the policy, the calls of the file system and the handles it hands out. The protocol
  is an automaton over these events: a call needs an approval of the policy that covers it, a call on a handle
  needs a handle that is open, of the right kind and with the right flags, and a close ends one handle. Every log that the
  server can produce is a run of the automaton whose live handles are those in the handle table.
\<close>

section \<open>Events\<close>

record live_handle =
  lh_kind :: sftp_handle_kind
  lh_handle :: nat
  lh_path :: "u8 list"
  lh_pflags :: u32

datatype fs_call =
    Call_open "u8 list" u32
  | Call_opendir "u8 list"
  | Call_stat "u8 list"
  | Call_lstat "u8 list"
  | Call_setstat "u8 list" ssh_fs_attrs
  | Call_mkdir "u8 list" ssh_fs_attrs
  | Call_rmdir "u8 list"
  | Call_remove "u8 list"
  | Call_rename "u8 list" "u8 list"
  | Call_posix_rename "u8 list" "u8 list"
  | Call_hardlink "u8 list" "u8 list"
  | Call_statvfs "u8 list"
  | Call_read nat nat
  | Call_read_at nat u64 nat
  | Call_write nat "u8 list"
  | Call_write_at nat u64 "u8 list"
  | Call_fsetstat nat ssh_fs_attrs
  | Call_readdir nat
  | Call_fsync nat
  | Call_fstatvfs nat
  | Call_close nat
  | Call_closedir nat

datatype fs_event = Decision sftp_policy_request bool | Call fs_call | Got live_handle

text \<open>The approval that a call on paths needs.\<close>

fun permits_path :: "sftp_policy_request \<Rightarrow> fs_call \<Rightarrow> bool" where
  "permits_path req (Call_open p flags) \<longleftrightarrow> po_operation req = SFTP_POLICY_OPEN \<and> po_path req = Some p \<and> path_normal p \<and>
     po_pflags req = flags \<and> open_pflags_are_valid flags"
| "permits_path req (Call_opendir p) \<longleftrightarrow> po_operation req = SFTP_POLICY_OPENDIR \<and> po_path req = Some p \<and> path_normal p"
| "permits_path req (Call_stat p) \<longleftrightarrow>
     po_operation req \<in> {SFTP_POLICY_STAT, SFTP_POLICY_OPEN, SFTP_POLICY_OPENDIR, SFTP_POLICY_FSTAT} \<and> po_path req = Some p \<and> path_normal p"
| "permits_path req (Call_lstat p) \<longleftrightarrow> po_operation req = SFTP_POLICY_STAT \<and> po_path req = Some p \<and> path_normal p"
| "permits_path req (Call_setstat p a) \<longleftrightarrow> po_operation req = SFTP_POLICY_SETSTAT \<and> po_path req = Some p \<and> path_normal p \<and>
     po_attrs req = Some a"
| "permits_path req (Call_mkdir p a) \<longleftrightarrow> po_operation req = SFTP_POLICY_MKDIR \<and> po_path req = Some p \<and> path_normal p \<and>
     po_attrs req = Some a"
| "permits_path req (Call_rmdir p) \<longleftrightarrow> po_operation req = SFTP_POLICY_RMDIR \<and> po_path req = Some p \<and> path_normal p"
| "permits_path req (Call_remove p) \<longleftrightarrow> po_operation req = SFTP_POLICY_REMOVE \<and> po_path req = Some p \<and> path_normal p"
| "permits_path req (Call_rename p q) \<longleftrightarrow> po_operation req = SFTP_POLICY_RENAME \<and> po_path req = Some p \<and> po_new_path req = Some q \<and>
     path_normal p \<and> path_normal q"
| "permits_path req (Call_posix_rename p q) \<longleftrightarrow> po_operation req = SFTP_POLICY_RENAME \<and> po_path req = Some p \<and> po_new_path req = Some q \<and>
     path_normal p \<and> path_normal q"
| "permits_path req (Call_hardlink p q) \<longleftrightarrow> po_operation req = SFTP_POLICY_HARDLINK \<and> po_path req = Some p \<and> po_new_path req = Some q \<and>
     path_normal p \<and> path_normal q"
| "permits_path req (Call_statvfs p) \<longleftrightarrow> po_operation req = SFTP_POLICY_STATVFS \<and> po_path req = Some p \<and> path_normal p"
| "permits_path req c \<longleftrightarrow> False"

text \<open>The approval that a call on an open handle needs.\<close>

definition can :: "live_handle \<Rightarrow> u32 \<Rightarrow> bool" where
  "can l flag \<longleftrightarrow> lh_kind l = SFTP_HANDLE_KIND_FILE \<and> lh_pflags l AND flag \<noteq> 0"

fun permits_handle :: "sftp_policy_request \<Rightarrow> live_handle \<Rightarrow> fs_call \<Rightarrow> bool" where
  "permits_handle req l (Call_read h n) \<longleftrightarrow> lh_handle l = h \<and> can l SSH_FXF_READ \<and> po_operation req = SFTP_POLICY_READ \<and>
     po_pflags req = lh_pflags l \<and> po_length req = n \<and> n \<le> EMSSH_SFTP_MAX_IO"
| "permits_handle req l (Call_read_at h offset n) \<longleftrightarrow> lh_handle l = h \<and> can l SSH_FXF_READ \<and> po_operation req = SFTP_POLICY_READ \<and>
     po_pflags req = lh_pflags l \<and> po_offset req = offset \<and> po_length req = n \<and> n \<le> EMSSH_SFTP_MAX_IO"
| "permits_handle req l (Call_write h data) \<longleftrightarrow> lh_handle l = h \<and> can l SSH_FXF_WRITE \<and> po_operation req = SFTP_POLICY_WRITE \<and>
     po_pflags req = lh_pflags l \<and> po_length req = length data"
| "permits_handle req l (Call_write_at h offset data) \<longleftrightarrow> lh_handle l = h \<and> can l SSH_FXF_WRITE \<and> po_operation req = SFTP_POLICY_WRITE \<and>
     po_pflags req = lh_pflags l \<and> po_offset req = offset \<and> po_length req = length data"
| "permits_handle req l (Call_fsetstat h a) \<longleftrightarrow> lh_handle l = h \<and> can l SSH_FXF_WRITE \<and> po_pflags req = lh_pflags l \<and>
     (po_operation req = SFTP_POLICY_FSETSTAT \<and> po_attrs req = Some a \<or>
      po_operation req = SFTP_POLICY_OPEN \<and>
        (\<exists>b. po_attrs req = Some b \<and> a = b\<lparr>attr_flags := attr_flags b AND NOT SSH_FILEXFER_ATTR_SIZE\<rparr>))"
| "permits_handle req l (Call_readdir h) \<longleftrightarrow> lh_handle l = h \<and> lh_kind l = SFTP_HANDLE_KIND_DIR \<and> po_operation req = SFTP_POLICY_READDIR"
| "permits_handle req l (Call_fsync h) \<longleftrightarrow> lh_handle l = h \<and> lh_kind l = SFTP_HANDLE_KIND_FILE \<and> po_operation req = SFTP_POLICY_FSYNC \<and>
     po_pflags req = lh_pflags l"
| "permits_handle req l (Call_fstatvfs h) \<longleftrightarrow> lh_handle l = h \<and> lh_kind l = SFTP_HANDLE_KIND_FILE \<and>
     po_operation req = SFTP_POLICY_FSTATVFS \<and> po_pflags req = lh_pflags l"
| "permits_handle req l c \<longleftrightarrow> False"

fun closes :: "live_handle \<Rightarrow> fs_call \<Rightarrow> bool" where
  "closes l (Call_close h) \<longleftrightarrow> lh_kind l = SFTP_HANDLE_KIND_FILE \<and> lh_handle l = h"
| "closes l (Call_closedir h) \<longleftrightarrow> lh_kind l = SFTP_HANDLE_KIND_DIR \<and> lh_handle l = h"
| "closes l c \<longleftrightarrow> False"

definition opens :: "sftp_policy_request \<Rightarrow> live_handle \<Rightarrow> bool" where
  "opens req l \<longleftrightarrow> po_path req = Some (lh_path l) \<and> path_normal (lh_path l) \<and>
     (if lh_kind l = SFTP_HANDLE_KIND_FILE
      then po_operation req = SFTP_POLICY_OPEN \<and> po_pflags req = lh_pflags l \<and> open_pflags_are_valid (lh_pflags l)
      else po_operation req = SFTP_POLICY_OPENDIR \<and> lh_pflags l = 0)"

section \<open>The protocol\<close>

text \<open>A state: the handles that the file system has handed out and not yet been asked to close, and the request that the
  policy has approved last, if its last decision was an approval.\<close>

type_synonym protocol_state = "live_handle multiset \<times> sftp_policy_request option"

inductive protocol_step :: "protocol_state \<Rightarrow> fs_event \<Rightarrow> protocol_state \<Rightarrow> bool" where
  decide: "protocol_step (L, ap) (Decision req ok) (L, if ok then Some req else None)"
| path_call: "permits_path req c \<Longrightarrow> protocol_step (L, Some req) (Call c) (L, Some req)"
| handle_call: "l \<in># L \<Longrightarrow> po_path req = Some (lh_path l) \<Longrightarrow> permits_handle req l c \<Longrightarrow> protocol_step (L, Some req) (Call c) (L, Some req)"
| got: "opens req l \<Longrightarrow> protocol_step (L, Some req) (Got l) (add_mset l L, Some req)"
| close_call: "l \<in># L \<Longrightarrow> closes l c \<Longrightarrow> protocol_step (L, ap) (Call c) (L - {#l#}, ap)"

inductive protocol_run :: "protocol_state \<Rightarrow> fs_event list \<Rightarrow> protocol_state \<Rightarrow> bool" where
  run_Nil: "protocol_run st [] st"
| run_snoc: "protocol_run st log st' \<Longrightarrow> protocol_step st' ev st'' \<Longrightarrow> protocol_run st (log @ [ev]) st''"

inductive_cases protocol_stepE: "protocol_step st ev st'"

section \<open>Recording the callbacks\<close>

type_synonym 'w traced_world = "'w \<times> fs_event list"

definition traced :: "fs_call \<Rightarrow> ('w, 'a) act \<Rightarrow> ('w traced_world, 'a) act" where
  "traced c f = (\<lambda>(w, log). case f w of (r, w') \<Rightarrow> (r, (w', log @ [Call c])))"

definition traced_open :: "fs_call \<Rightarrow> (nat \<Rightarrow> live_handle) \<Rightarrow> ('w, nat) act \<Rightarrow> ('w traced_world, nat) act" where
  "traced_open c l f = (\<lambda>(w, log). case f w of (r, w') \<Rightarrow>
     (r, (w', log @ [Call c] @ (case r of Inr h \<Rightarrow> [Got (l h)] | Inl _ \<Rightarrow> []))))"

definition traced_policy :: "(sftp_policy_request \<Rightarrow> ('w, unit) act) \<Rightarrow> sftp_policy_request \<Rightarrow> ('w traced_world, unit) act" where
  "traced_policy p req = (\<lambda>(w, log). case p req w of (r, w') \<Rightarrow>
     (r, (w', log @ [Decision req (case r of Inr _ \<Rightarrow> True | Inl _ \<Rightarrow> False)])))"

definition file_handle :: "u8 list \<Rightarrow> u32 \<Rightarrow> nat \<Rightarrow> live_handle" where
  "file_handle p flags h = \<lparr>lh_kind = SFTP_HANDLE_KIND_FILE, lh_handle = h, lh_path = p, lh_pflags = flags\<rparr>"

definition dir_handle :: "u8 list \<Rightarrow> nat \<Rightarrow> live_handle" where
  "dir_handle p h = \<lparr>lh_kind = SFTP_HANDLE_KIND_DIR, lh_handle = h, lh_path = p, lh_pflags = 0\<rparr>"

definition traced_fs :: "'w ssh_fs_api \<Rightarrow> 'w traced_world ssh_fs_api" where
  "traced_fs f = \<lparr>
    fs_open = map_option (\<lambda>g p flags. traced_open (Call_open p flags) (file_handle p flags) (g p flags)) (fs_open f),
    fs_close = map_option (\<lambda>g h. traced (Call_close h) (g h)) (fs_close f),
    fs_read = map_option (\<lambda>g h n. traced (Call_read h n) (g h n)) (fs_read f),
    fs_write = map_option (\<lambda>g h d. traced (Call_write h d) (g h d)) (fs_write f),
    fs_read_at = map_option (\<lambda>g h off n. traced (Call_read_at h off n) (g h off n)) (fs_read_at f),
    fs_write_at = map_option (\<lambda>g h off d. traced (Call_write_at h off d) (g h off d)) (fs_write_at f),
    fs_stat = map_option (\<lambda>g p a. \<lambda>(w, log). case g p a w of (r, w') \<Rightarrow> (r, (w', log @ [Call (Call_stat p)]))) (fs_stat f),
    fs_lstat = map_option (\<lambda>g p. traced (Call_lstat p) (g p)) (fs_lstat f),
    fs_setstat = map_option (\<lambda>g p a. traced (Call_setstat p a) (g p a)) (fs_setstat f),
    fs_fsetstat = map_option (\<lambda>g h a. traced (Call_fsetstat h a) (g h a)) (fs_fsetstat f),
    fs_opendir = map_option (\<lambda>g p. traced_open (Call_opendir p) (dir_handle p) (g p)) (fs_opendir f),
    fs_readdir = map_option (\<lambda>g h. traced (Call_readdir h) (g h)) (fs_readdir f),
    fs_closedir = map_option (\<lambda>g h. traced (Call_closedir h) (g h)) (fs_closedir f),
    fs_mkdir = map_option (\<lambda>g p a. traced (Call_mkdir p a) (g p a)) (fs_mkdir f),
    fs_rmdir = map_option (\<lambda>g p. traced (Call_rmdir p) (g p)) (fs_rmdir f),
    fs_remove = map_option (\<lambda>g p. traced (Call_remove p) (g p)) (fs_remove f),
    fs_rename = map_option (\<lambda>g p q. traced (Call_rename p q) (g p q)) (fs_rename f),
    fs_posix_rename = map_option (\<lambda>g p q. traced (Call_posix_rename p q) (g p q)) (fs_posix_rename f),
    fs_fsync = map_option (\<lambda>g h. traced (Call_fsync h) (g h)) (fs_fsync f),
    fs_hardlink = map_option (\<lambda>g p q. traced (Call_hardlink p q) (g p q)) (fs_hardlink f),
    fs_statvfs = map_option (\<lambda>g p. traced (Call_statvfs p) (g p)) (fs_statvfs f),
    fs_fstatvfs = map_option (\<lambda>g h. traced (Call_fstatvfs h) (g h)) (fs_fstatvfs f)\<rparr>"

section \<open>The server follows the protocol\<close>

definition live_of :: "sftp_handle_entry \<Rightarrow> live_handle" where
  "live_of e = \<lparr>lh_kind = the (he_kind e), lh_handle = he_fs_handle e, lh_path = he_path e, lh_pflags = he_pflags e\<rparr>"

definition live :: "'w sftp_server_session \<Rightarrow> live_handle multiset" where
  "live s = image_mset live_of (open_entries s)"

text \<open>The operation that the policy is asked to approve for a request, if there is one.\<close>

definition extended_operation :: "view \<Rightarrow> sftp_policy_operation option" where
  "extended_operation name = (let named = (\<lambda>str. view_equals_cstring name (Some (lit str))) in
     if named ''fsync@openssh.com'' then Some SFTP_POLICY_FSYNC
     else if named ''statvfs@openssh.com'' then Some SFTP_POLICY_STATVFS
     else if named ''fstatvfs@openssh.com'' then Some SFTP_POLICY_FSTATVFS
     else if named ''hardlink@openssh.com'' then Some SFTP_POLICY_HARDLINK
     else if named ''posix-rename@openssh.com'' then Some SFTP_POLICY_RENAME
     else None)"

definition policy_operation :: "u8 list \<Rightarrow> sftp_policy_operation option" where
  "policy_operation request = (case sftp_packet_wrap request of Inl _ \<Rightarrow> None | Inr packet \<Rightarrow> let type = pk_type packet in
     if type = SSH_FXP_REALPATH then Some SFTP_POLICY_REALPATH
     else if type = SSH_FXP_LSTAT \<or> type = SSH_FXP_STAT then Some SFTP_POLICY_STAT
     else if type = SSH_FXP_OPEN then Some SFTP_POLICY_OPEN
     else if type = SSH_FXP_FSTAT then Some SFTP_POLICY_FSTAT
     else if type = SSH_FXP_SETSTAT then Some SFTP_POLICY_SETSTAT
     else if type = SSH_FXP_FSETSTAT then Some SFTP_POLICY_FSETSTAT
     else if type = SSH_FXP_OPENDIR then Some SFTP_POLICY_OPENDIR
     else if type = SSH_FXP_READDIR then Some SFTP_POLICY_READDIR
     else if type = SSH_FXP_READ then Some SFTP_POLICY_READ
     else if type = SSH_FXP_WRITE then Some SFTP_POLICY_WRITE
     else if type = SSH_FXP_REMOVE then Some SFTP_POLICY_REMOVE
     else if type = SSH_FXP_MKDIR then Some SFTP_POLICY_MKDIR
     else if type = SSH_FXP_RMDIR then Some SFTP_POLICY_RMDIR
     else if type = SSH_FXP_RENAME then Some SFTP_POLICY_RENAME
     else if type = SSH_FXP_EXTENDED then
       (case sftp_extended_request_decode request of Inl _ \<Rightarrow> None | Inr extended \<Rightarrow> extended_operation (ex_name extended))
     else None)"

text \<open>The state of a session while it serves a request. \<open>B\<close> holds what the request started with, the log and the live handles, and
  the operation that it may ask the policy about. What the log has since then is a run, from these handles and no approval, to a
  state with the live handles of the table and the handles \<open>X\<close>, and with the approval \<open>ap\<close>.\<close>

definition follows :: "'w ssh_fs_api \<Rightarrow> (sftp_policy_request \<Rightarrow> ('w, unit) act)
    \<Rightarrow> fs_event list \<times> live_handle multiset \<times> sftp_policy_operation option \<Rightarrow> live_handle multiset
    \<Rightarrow> sftp_policy_request option \<Rightarrow> 'w traced_world sftp_state \<Rightarrow> bool" where
  "follows f p B X ap \<sigma> \<longleftrightarrow> ses_fs (fst \<sigma>) = Some (traced_fs f) \<and> ses_policy (fst \<sigma>) = Some (traced_policy p) \<and>
     session_ok (fst \<sigma>) \<and> (\<exists>seg. snd (snd \<sigma>) = fst B @ seg \<and> protocol_run (fst (snd B), None) seg (live (fst \<sigma>) + X, ap) \<and>
       (\<forall>req ok. Decision req ok \<in> set seg \<longrightarrow> snd (snd B) = Some (po_operation req)))"

lemma follows_step:
  assumes "follows f p B X ap (s, (w, log))" "protocol_step (live s + X, ap) ev (live s' + Y, ap')"
    and "\<forall>req ok. ev = Decision req ok \<longrightarrow> snd (snd B) = Some (po_operation req)"
    and "ses_fs s' = ses_fs s" "ses_policy s' = ses_policy s" "session_ok s'"
  shows "follows f p B Y ap' (s', (w', log @ [ev]))"
proof -
  obtain seg where seg: "log = fst B @ seg" "protocol_run (fst (snd B), None) seg (live s + X, ap)"
      "\<forall>req ok. Decision req ok \<in> set seg \<longrightarrow> snd (snd B) = Some (po_operation req)"
    using assms(1) by (auto simp: follows_def)
  then have "\<exists>seg'. log @ [ev] = fst B @ seg' \<and> protocol_run (fst (snd B), None) seg' (live s' + Y, ap') \<and>
      (\<forall>req ok. Decision req ok \<in> set seg' \<longrightarrow> snd (snd B) = Some (po_operation req))"
    using run_snoc [OF seg(2) assms(2)] assms(3) by (intro exI [of _ "seg @ [ev]"]) auto
  then show ?thesis
    using assms(1,4-6) by (simp add: follows_def)
qed

lemma follows_event:
  assumes "follows f p B X ap (s, (w, log))" "protocol_step (live s + X, ap) ev (live s + Y, ap')"
    and "\<forall>req ok. ev = Decision req ok \<longrightarrow> snd (snd B) = Some (po_operation req)"
  shows "follows f p B Y ap' (s, (w', log @ [ev]))"
  using assms(1) by (intro follows_step [OF assms]) (simp_all add: follows_def)

lemma wp_policy:
  fixes op path new pf off len attrs
  defines "req \<equiv> \<lparr>po_operation = op, po_path = path, po_new_path = new, po_pflags = pf, po_offset = off, po_length = len, po_attrs = attrs\<rparr>"
  assumes "follows f p B X ap s" "fst s = t" "snd (snd B) = Some op"
    and "\<And>e s'. follows f p B X None s' \<Longrightarrow> fst s' = t \<Longrightarrow> E e s'"
    and "\<And>s'. follows f p B X (Some req) s' \<Longrightarrow> fst s' = t \<Longrightarrow> Q () s'"
  shows "wpA (policy_check op path new pf off len attrs) E Q s"
proof -
  obtain session w log where s: "s = (session, (w, log))"
    by (metis surj_pair)
  have pol: "ses_policy session = Some (traced_policy p)"
    using assms(2) by (simp add: s follows_def)
  obtain r w' where r: "p req w = (r, w')"
    by (metis surj_pair)
  have "follows f p B X (if ok then Some req else None) (session, (w', log @ [Decision req ok]))" for ok
    by (rule follows_event [OF assms(2) [unfolded s] protocol_step.decide]) (simp add: assms(4) req_def)
  from this [of True] this [of False] show ?thesis
    using assms(3,5,6) r pol
    by (cases r) (simp_all add: s wpA_def policy_check_def sesA_def fsA_def traced_policy_def req_def)
qed

lemma wp_traced:
  assumes "follows f p B X ap s" "fst s = t" "protocol_step (live t + X, ap) (Call c) (live t + Y, ap)"
    and "\<And>e s'. follows f p B Y ap s' \<Longrightarrow> fst s' = t \<Longrightarrow> E e s'"
    and "\<And>x s'. follows f p B Y ap s' \<Longrightarrow> fst s' = t \<Longrightarrow> Q x s'"
  shows "wpA (fsA (traced c g)) E Q s"
proof -
  obtain session w log where s: "s = (session, (w, log))"
    by (metis surj_pair)
  have "follows f p B Y ap (session, (w', log @ [Call c]))" for w'
    by (rule follows_event [OF assms(1) [unfolded s]]) (use assms(2,3) s in simp_all)
  then show ?thesis
    using assms(2,4,5) by (auto simp: s wpA_def fsA_def traced_def split: prod.splits sum.splits)
qed

lemma wp_traced_open:
  assumes "follows f p B X (Some req) s" "fst s = t" "permits_path req c" "\<And>h. opens req (l h)"
    and "\<And>e s'. follows f p B X (Some req) s' \<Longrightarrow> fst s' = t \<Longrightarrow> E e s'"
    and "\<And>h s'. follows f p B (add_mset (l h) X) (Some req) s' \<Longrightarrow> fst s' = t \<Longrightarrow> Q h s'"
  shows "wpA (fsA (traced_open c l g)) E Q s"
proof -
  obtain session w log where s: "s = (session, (w, log))"
    by (metis surj_pair)
  have called: "follows f p B X (Some req) (session, (w', log @ [Call c]))" for w'
    by (rule follows_event [OF assms(1) [unfolded s] protocol_step.path_call [OF assms(3)]]) simp
  have "follows f p B (add_mset (l h) X) (Some req) (session, (w', (log @ [Call c]) @ [Got (l h)]))" for w' h
    by (rule follows_event [OF called, where ap' = "Some req"]) (use protocol_step.got [OF assms(4)] in simp_all)
  with called show ?thesis
    using assms(2,5,6) by (auto simp: s wpA_def fsA_def traced_open_def split: prod.splits sum.splits)
qed

lemma wp_traced_stat:
  assumes "follows f p B X (Some req) s" "fst s = t" "permits_path req (Call_stat path)"
    and "\<And>x s'. follows f p B X (Some req) s' \<Longrightarrow> fst s' = t \<Longrightarrow> Q x s'"
  shows "wpA (statA (\<lambda>p a (w, log). case g p a w of (r, w') \<Rightarrow> (r, (w', log @ [Call (Call_stat p)]))) path attrs) E Q s"
proof -
  obtain session w log where s: "s = (session, (w, log))"
    by (metis surj_pair)
  have "follows f p B X (Some req) (session, (w', log @ [Call (Call_stat path)]))" for w'
    by (rule follows_event [OF assms(1) [unfolded s] protocol_step.path_call [OF assms(3)]]) simp
  then show ?thesis
    using assms(2,4) by (auto simp: s wpA_def statA_def split: prod.splits)
qed

lemma traced_fs_sel [simp]:
  "fs_open (traced_fs f) = map_option (\<lambda>g p flags. traced_open (Call_open p flags) (file_handle p flags) (g p flags)) (fs_open f)"
  "fs_close (traced_fs f) = map_option (\<lambda>g h. traced (Call_close h) (g h)) (fs_close f)"
  "fs_read (traced_fs f) = map_option (\<lambda>g h n. traced (Call_read h n) (g h n)) (fs_read f)"
  "fs_write (traced_fs f) = map_option (\<lambda>g h d. traced (Call_write h d) (g h d)) (fs_write f)"
  "fs_read_at (traced_fs f) = map_option (\<lambda>g h off n. traced (Call_read_at h off n) (g h off n)) (fs_read_at f)"
  "fs_write_at (traced_fs f) = map_option (\<lambda>g h off d. traced (Call_write_at h off d) (g h off d)) (fs_write_at f)"
  "fs_stat (traced_fs f) = map_option (\<lambda>g p a (w, log). case g p a w of (r, w') \<Rightarrow> (r, (w', log @ [Call (Call_stat p)]))) (fs_stat f)"
  "fs_lstat (traced_fs f) = map_option (\<lambda>g p. traced (Call_lstat p) (g p)) (fs_lstat f)"
  "fs_setstat (traced_fs f) = map_option (\<lambda>g p a. traced (Call_setstat p a) (g p a)) (fs_setstat f)"
  "fs_fsetstat (traced_fs f) = map_option (\<lambda>g h a. traced (Call_fsetstat h a) (g h a)) (fs_fsetstat f)"
  "fs_opendir (traced_fs f) = map_option (\<lambda>g p. traced_open (Call_opendir p) (dir_handle p) (g p)) (fs_opendir f)"
  "fs_readdir (traced_fs f) = map_option (\<lambda>g h. traced (Call_readdir h) (g h)) (fs_readdir f)"
  "fs_closedir (traced_fs f) = map_option (\<lambda>g h. traced (Call_closedir h) (g h)) (fs_closedir f)"
  "fs_mkdir (traced_fs f) = map_option (\<lambda>g p a. traced (Call_mkdir p a) (g p a)) (fs_mkdir f)"
  "fs_rmdir (traced_fs f) = map_option (\<lambda>g p. traced (Call_rmdir p) (g p)) (fs_rmdir f)"
  "fs_remove (traced_fs f) = map_option (\<lambda>g p. traced (Call_remove p) (g p)) (fs_remove f)"
  "fs_rename (traced_fs f) = map_option (\<lambda>g p q. traced (Call_rename p q) (g p q)) (fs_rename f)"
  "fs_posix_rename (traced_fs f) = map_option (\<lambda>g p q. traced (Call_posix_rename p q) (g p q)) (fs_posix_rename f)"
  "fs_fsync (traced_fs f) = map_option (\<lambda>g h. traced (Call_fsync h) (g h)) (fs_fsync f)"
  "fs_hardlink (traced_fs f) = map_option (\<lambda>g p q. traced (Call_hardlink p q) (g p q)) (fs_hardlink f)"
  "fs_statvfs (traced_fs f) = map_option (\<lambda>g p. traced (Call_statvfs p) (g p)) (fs_statvfs f)"
  "fs_fstatvfs (traced_fs f) = map_option (\<lambda>g h. traced (Call_fstatvfs h) (g h)) (fs_fstatvfs f)"
  by (simp_all add: traced_fs_def)

lemma fs_op_follows: "follows f p B X ap s \<Longrightarrow> fst s = t \<Longrightarrow> fs_op sel t = sel (traced_fs f)"
  by (auto simp: follows_def fs_op_def)

lemma wp_sesA_eq: "fst s = t \<Longrightarrow> wpA (k t) E Q s \<Longrightarrow> wpA (sesA k) E Q s"
  using wp_sesA by blast

lemma wp_map_option:
  "(x = None \<Longrightarrow> wpA m E Q s) \<Longrightarrow> (\<And>y. x = Some y \<Longrightarrow> wpA (n (g y)) E Q s) \<Longrightarrow>
   wpA (case map_option g x of None \<Rightarrow> m | Some y \<Rightarrow> n y) E Q s"
  by (cases x) simp_all

lemma wp_traced_path:
  assumes "follows f p B X (Some req) s" "fst s = t" "permits_path req c"
    and "\<And>e s'. follows f p B X (Some req) s' \<Longrightarrow> fst s' = t \<Longrightarrow> E e s'"
    and "\<And>x s'. follows f p B X (Some req) s' \<Longrightarrow> fst s' = t \<Longrightarrow> Q x s'"
  shows "wpA (fsA (traced c g)) E Q s"
  using assms protocol_step.path_call by (intro wp_traced) blast+

lemma wp_traced_handle:
  assumes "follows f p B X (Some req) s" "fst s = t" "l \<in># live t" "po_path req = Some (lh_path l)" "permits_handle req l c"
    and "\<And>e s'. follows f p B X (Some req) s' \<Longrightarrow> fst s' = t \<Longrightarrow> E e s'"
    and "\<And>x s'. follows f p B X (Some req) s' \<Longrightarrow> fst s' = t \<Longrightarrow> Q x s'"
  shows "wpA (fsA (traced c g)) E Q s"
proof -
  have "protocol_step (live t + X, Some req) (Call c) (live t + X, Some req)"
    using assms(3-5) by (intro protocol_step.handle_call) auto
  then show ?thesis
    using assms by (intro wp_traced) blast+
qed

abbreviation keeps :: "'w ssh_fs_api \<Rightarrow> (sftp_policy_request \<Rightarrow> ('w, unit) act)
    \<Rightarrow> fs_event list \<times> live_handle multiset \<times> sftp_policy_operation option \<Rightarrow> ('w traced_world sftp_state, 'a) act
    \<Rightarrow> 'w traced_world sftp_state \<Rightarrow> bool" where
  "keeps f p B m s \<equiv> wpA m (\<lambda>_ s'. \<exists>ap. follows f p B {#} ap s') (\<lambda>_ s'. \<exists>ap. follows f p B {#} ap s') s"

lemmas wp_structure = wp_tryA wp_bindA wp_thenA wp_valueA wp_if wp_let wp_prod wp_retA wp_failA wp_map_option
lemmas reply_defs = finishA_def resultA_def statusA_def

lemma path_handlers_follow:
  assumes "follows f p B {#} ap s" "fst s = t"
  shows "snd (snd B) = Some SFTP_POLICY_REMOVE \<Longrightarrow> keeps f p B (handle_remove request cap) s"
    "snd (snd B) = Some SFTP_POLICY_RMDIR \<Longrightarrow> keeps f p B (handle_rmdir request cap) s"
    "snd (snd B) = Some SFTP_POLICY_MKDIR \<Longrightarrow> keeps f p B (handle_mkdir request cap) s"
    "snd (snd B) = Some SFTP_POLICY_SETSTAT \<Longrightarrow> keeps f p B (handle_setstat request cap) s"
    "snd (snd B) = Some SFTP_POLICY_REALPATH \<Longrightarrow> keeps f p B (handle_realpath request cap) s"
    "keeps f p B (handle_init request cap) s"
  using assms unfolding handler_defs handle_init_def reply_defs
  by - ((rule wp_structure | (rule wp_sesA_eq, assumption, (simp only: fs_op_follows [OF assms] traced_fs_sel)?)
     | (rule wp_policy, assumption, assumption, assumption)
     | (rule wp_traced_path, assumption, assumption, (auto dest: copy_path_sound)[1])
     | (rule exI, assumption))+)

lemma wp_rename_or_replace:
  assumes "follows f p B X (Some req) s" "fst s = t" "permits_path req (Call_rename a b)" "permits_path req (Call_posix_rename a b)"
    and "\<And>e s'. follows f p B X (Some req) s' \<Longrightarrow> fst s' = t \<Longrightarrow> E e s'"
    and "\<And>x s'. follows f p B X (Some req) s' \<Longrightarrow> fst s' = t \<Longrightarrow> Q x s'"
  shows "wpA (rename_or_replace (\<lambda>p q. traced (Call_rename p q) (g p q))
    (map_option (\<lambda>g p q. traced (Call_posix_rename p q) (g p q)) (fs_posix_rename f)) a b) E Q s"
  unfolding rename_or_replace_def
  by (rule wp_tryA, rule wp_traced_path [OF assms(1-3)], cases "fs_posix_rename f")
    (auto intro!: wp_if wp_failA wp_retA assms(5,6) wp_traced_path [OF _ _ assms(4)])

lemma wp_checked_stat:
  assumes "follows f p B X (Some req) s" "fst s = t" "permits_path req (Call_stat path)"
    and "\<And>e s'. follows f p B X (Some req) s' \<Longrightarrow> fst s' = t \<Longrightarrow> E e s'"
    and "\<And>x s'. follows f p B X (Some req) s' \<Longrightarrow> fst s' = t \<Longrightarrow> Q x s'"
  shows "wpA (checked_stat (\<lambda>p a (w, log). case g p a w of (r, w') \<Rightarrow> (r, (w', log @ [Call (Call_stat p)]))) path) E Q s"
  unfolding checked_stat_def
  by (rule wp_bindA, rule wp_traced_stat [OF assms(1-3)]) (auto intro!: wp_prod wp_option wp_retA wp_failA assms(4,5))

lemma wp_refresh_attrs:
  assumes "follows f p B X (Some req) s" "fst s = t" "permits_path req (Call_stat path)"
    and "\<And>x s'. follows f p B X (Some req) s' \<Longrightarrow> fst s' = t \<Longrightarrow> Q x s'"
  shows "wpA (refresh_attrs path a) E Q s"
  unfolding refresh_attrs_def
  by (rule wp_sesA_eq [OF assms(2)], simp only: fs_op_follows [OF assms(1,2)] traced_fs_sel, rule wp_map_option)
    (auto intro!: wp_retA wp_bindA wp_traced_stat [OF assms(1-3)] assms(4) [OF assms(1,2)] assms(4))

lemma path_attrs_follows:
  assumes "follows f p B {#} ap s" "fst s = t" "type = SSH_FXP_LSTAT \<or> type = SSH_FXP_STAT"
    and "snd (snd B) = Some SFTP_POLICY_STAT"
  shows "keeps f p B (handle_path_attrs request type cap) s"
  using assms unfolding handle_path_attrs_def reply_defs
  by - ((rule wp_structure | (rule wp_sesA_eq, assumption, (simp only: fs_op_follows [OF assms(1,2)] traced_fs_sel)?)
     | (rule wp_policy, assumption, assumption, assumption)
     | (rule wp_traced_path, assumption, assumption, (auto dest: copy_path_sound)[1])
     | (rule wp_checked_stat, assumption, assumption, (auto dest: copy_path_sound)[1])
     | (rule exI, assumption)
     | (subst option.map_sel, fastforce))+)

lemma two_path_handlers_follow:
  assumes "follows f p B {#} ap s" "fst s = t"
  shows "snd (snd B) = Some SFTP_POLICY_RENAME \<Longrightarrow> keeps f p B (handle_rename request cap) s"
    "snd (snd B) = Some SFTP_POLICY_STATVFS \<Longrightarrow> keeps f p B (extended_statvfs ext cap) s"
    "snd (snd B) = Some SFTP_POLICY_HARDLINK \<Longrightarrow> keeps f p B (extended_hardlink ext cap) s"
    "snd (snd B) = Some SFTP_POLICY_RENAME \<Longrightarrow> keeps f p B (extended_posix_rename ext cap) s"
  using assms unfolding handle_rename_def extended_statvfs_def extended_hardlink_def extended_posix_rename_def two_path_call_def reply_defs
  by - ((rule wp_structure | (rule wp_sesA_eq, assumption, (simp only: fs_op_follows [OF assms] traced_fs_sel)?)
     | (rule wp_policy, assumption, assumption, assumption)
     | (rule wp_traced_path, assumption, assumption, (auto dest: copy_path_sound)[1])
     | (rule wp_rename_or_replace, assumption, assumption, (auto dest: copy_path_sound)[1], (auto dest: copy_path_sound)[1])
     | (rule exI, assumption))+)

lemma follows_entry:
  assumes "follows f p B X ap s" "fst s = t" "find_handle t v = Some i"
  shows "live_of (ses_handles t ! i) \<in># live t" "entry_ok (ses_handles t ! i)" "table_ok t"
proof -
  have ok: "session_ok t"
    using assms(1,2) by (auto simp: follows_def)
  then show "table_ok t"
    by (simp add: session_ok_def)
  from session_table.lookup_Some [OF this assms(3)]
  show "live_of (ses_handles t ! i) \<in># live t" "entry_ok (ses_handles t ! i)"
    using ok by (simp_all add: live_def session_ok_def)
qed

lemma wp_traced_entry:
  assumes "follows f p B X (Some req) s" "fst s = t" "find_handle t v = Some i"
    and "po_path req = Some (he_path (ses_handles t ! i))" "permits_handle req (live_of (ses_handles t ! i)) c"
    and "\<And>e s'. follows f p B X (Some req) s' \<Longrightarrow> fst s' = t \<Longrightarrow> E e s'"
    and "\<And>x s'. follows f p B X (Some req) s' \<Longrightarrow> fst s' = t \<Longrightarrow> Q x s'"
  shows "wpA (fsA (traced c g)) E Q s"
  by (rule wp_traced_handle [OF assms(1,2) follows_entry(1) [OF assms(1-3)] _ assms(5-7)]) (simp add: assms(4) live_of_def)

lemma follows_table:
  assumes "follows f p B X ap s" "fst s = t" "session_ok t'" "ses_fs t' = ses_fs t" "ses_policy t' = ses_policy t"
    "live t' + Y = live t + X"
  shows "follows f p B Y ap (t', snd s)"
  using assms by (auto simp: follows_def)

lemma wp_put_attrs:
  assumes "follows f p B X ap s" "fst s = t" "find_handle t v = Some i"
    and "\<And>s'. follows f p B X ap s' \<Longrightarrow> Q () s'"
  shows "wpA (putA (set_entry t i ((ses_handles t ! i)\<lparr>he_attrs := a\<rparr>))) E Q s"
proof (rule wp_putA, rule assms(4), rule follows_table [OF assms(1,2)])
  note e = follows_entry [OF assms(1-3)] and step = table_step.attrs [OF assms(3), of a]
  show "session_ok (set_entry t i ((ses_handles t ! i)\<lparr>he_attrs := a\<rparr>))"
    using assms(1,2) by (intro table_step_session_ok [OF step]) (auto simp: follows_def)
  have used: "he_in_use (ses_handles t ! i)"
    using find_handle_bounds [OF e(3) assms(3)] by simp
  have same: "live_of (E\<lparr>he_attrs := a\<rparr>) = live_of E" for E
    by (simp add: live_of_def)
  have "live (set_entry t i ((ses_handles t ! i)\<lparr>he_attrs := a\<rparr>)) =
      add_mset (live_of (ses_handles t ! i)) (live t - {#live_of (ses_handles t ! i)#})"
    using session_table.put_used [OF e(3) assms(3), of "(ses_handles t ! i)\<lparr>he_attrs := a\<rparr>"] used
      session_table.lookup_Some [OF e(3) assms(3)]
    by (simp add: live_def same image_mset_Diff)
  then show "live (set_entry t i ((ses_handles t ! i)\<lparr>he_attrs := a\<rparr>)) + X = live t + X"
    using e(1) by simp
qed simp_all

lemma wp_put_size:
  assumes "follows f p B X ap s" "fst s = t" "find_handle t v = Some i"
    and "\<And>s'. follows f p B X ap s' \<Longrightarrow> Q () s'"
  shows "wpA (putA (set_entry t i (update_file_size_after_write (ses_handles t ! i) offset n))) E Q s"
proof -
  obtain a where "update_file_size_after_write (ses_handles t ! i) offset n = (ses_handles t ! i)\<lparr>he_attrs := a\<rparr>"
    using update_size_attrs by blast
  then show ?thesis
    using wp_put_attrs [OF assms(1-3), of Q a E] assms(4) by simp
qed

lemma follows_path:
  assumes "follows f p B X ap s" "fst s = t" "find_handle t v = Some i"
  shows "path_normal (he_path (ses_handles t ! i))"
  using follows_entry(2) [OF assms] by (simp add: entry_ok_def)

lemma handle_handlers_follow:
  assumes "follows f p B {#} ap s" "fst s = t"
  shows "snd (snd B) = Some SFTP_POLICY_FSETSTAT \<Longrightarrow> keeps f p B (handle_fsetstat request cap) s"
    "snd (snd B) = Some SFTP_POLICY_READDIR \<Longrightarrow> keeps f p B (handle_readdir request cap) s"
    "snd (snd B) = Some SFTP_POLICY_FSTAT \<Longrightarrow> keeps f p B (handle_fstat request cap) s"
    "snd (snd B) = Some SFTP_POLICY_FSYNC \<Longrightarrow> keeps f p B (extended_fsync ext cap) s"
    "snd (snd B) = Some SFTP_POLICY_FSTATVFS \<Longrightarrow> keeps f p B (extended_fstatvfs ext cap) s"
  using assms unfolding handler_defs extended_fsync_def extended_fstatvfs_def file_entry_def reply_defs
  by - ((rule wp_structure | (rule wp_sesA_eq, assumption, (simp only: fs_op_follows [OF assms] traced_fs_sel)?)
     | (rule wp_policy, assumption, assumption, assumption)
     | (rule wp_traced_entry, assumption, assumption, assumption, (simp; fail), (simp add: live_of_def can_def; fail))
     | (rule wp_put_attrs, assumption, assumption, assumption)
     | (rule wp_option)
     | (rule exI, assumption)
     | (subst option.map_sel, fastforce)
     | (rule wp_checked_stat, assumption, assumption, (auto intro: follows_path)[1]))+)

lemma io_handlers_follow:
  assumes "follows f p B {#} ap s" "fst s = t"
  shows "snd (snd B) = Some SFTP_POLICY_READ \<Longrightarrow> keeps f p B (handle_read request cap) s"
    "snd (snd B) = Some SFTP_POLICY_WRITE \<Longrightarrow> keeps f p B (handle_write request cap) s"
  using assms unfolding handler_defs call_read_def call_write_def reply_defs
  by - ((rule wp_structure | (rule wp_sesA_eq, assumption, (simp only: fs_op_follows [OF assms] traced_fs_sel)?)
     | (rule wp_policy, assumption, assumption, assumption)
     | (rule wp_traced_entry, assumption, assumption, assumption, (simp; fail), (auto simp: live_of_def can_def)[1])
     | (rule wp_put_size, assumption, assumption, assumption)
     | (rule wp_option)
     | (rule exI, assumption)
     | (subst option.map_sel, fastforce))+)

text \<open>The file system can close what it opens.\<close>

definition closable :: "'w ssh_fs_api \<Rightarrow> bool" where
  "closable f \<longleftrightarrow> fs_close f \<noteq> None \<and> fs_closedir f \<noteq> None"

definition close_op :: "sftp_handle_kind \<Rightarrow> 'w ssh_fs_api \<Rightarrow> (nat \<Rightarrow> ('w, unit) act) option" where
  "close_op kind = (case kind of SFTP_HANDLE_KIND_FILE \<Rightarrow> fs_close | SFTP_HANDLE_KIND_DIR \<Rightarrow> fs_closedir)"

definition close_call :: "sftp_handle_kind \<Rightarrow> nat \<Rightarrow> fs_call" where
  "close_call kind = (case kind of SFTP_HANDLE_KIND_FILE \<Rightarrow> Call_close | SFTP_HANDLE_KIND_DIR \<Rightarrow> Call_closedir)"

lemma close_op_traced:
  "closable f \<Longrightarrow> \<exists>g. close_op kind (traced_fs f) = Some (\<lambda>h. traced (close_call kind h) (g h))"
  by (cases kind) (auto simp: closable_def close_op_def close_call_def)

lemma closes_call: "closes l (close_call (lh_kind l) (lh_handle l))"
  by (cases "lh_kind l") (simp_all add: close_call_def)

lemma wp_drop:
  assumes "closable f" "follows f p B (add_mset l X) ap s" "fst s = t" "lh_handle l = h" "kind = lh_kind l"
    and "\<And>s'. follows f p B X ap s' \<Longrightarrow> fst s' = t \<Longrightarrow> wpA k E Q s'"
  shows "wpA (dropA (fs_op (close_op kind) t) h k) E Q s"
proof -
  obtain g where g: "close_op kind (traced_fs f) = Some (\<lambda>h. traced (close_call kind h) (g h))"
    using close_op_traced [OF assms(1)] by blast
  have "protocol_step (live t + add_mset l X, ap) (Call (close_call kind h)) (live t + add_mset l X - {#l#}, ap)"
    by (rule protocol_step.close_call) (use closes_call [of l] assms(4,5) in auto)
  then have step: "protocol_step (live t + add_mset l X, ap) (Call (close_call kind h)) (live t + X, ap)"
    by simp
  have eq: "fs_op (close_op kind) t = Some (\<lambda>h. traced (close_call kind h) (g h))"
    by (simp only: g fs_op_follows [OF assms(2,3)])
  show ?thesis
    unfolding dropA_def eq option.case
    by (rule wp_tryA, rule wp_traced [OF assms(2,3) step]) (rule assms(6); assumption)+
qed

lemma wp_register:
  assumes "closable f" "follows f p B {#l#} ap s" "fst s = t"
    and l: "l = \<lparr>lh_kind = kind, lh_handle = h, lh_path = path, lh_pflags = pflags\<rparr>" and "path_normal path"
    and "if kind = SFTP_HANDLE_KIND_FILE then open_pflags_are_valid pflags else pflags = 0"
  shows "keeps f p B (register_handle cap req_id (close_op kind) h kind pflags path a) s"
  unfolding register_handle_def
proof (rule wp_sesA_eq [OF assms(3)], rule wp_prod, rule wp_option)
  fix r t'
  assume alloc: "alloc_handle t h kind pflags (Some path) (Some a) = (r, t')"
  show "keeps f p B (dropA (fs_op (close_op kind) t) h (statusA cap req_id SSH_FX_FAILURE ''no handles'')) s"
    by (rule wp_drop [OF assms(1) assms(2) assms(3)])
      (auto simp: l statusA_def intro!: wp_valueA)
  fix i
  assume "r = Some i"
  note alloc = alloc [unfolded this]
  have ok: "session_ok t"
    using assms(2,3) by (auto simp: follows_def)
  note new = alloc_handle_Some [OF alloc]
  have "follows f p B {#} ap (t', snd s)"
  proof (rule follows_table [OF assms(2,3)])
    show "session_ok t'"
      using table_step.enter [OF alloc assms(5,6)] ok by (rule table_step_session_ok)
    show "live t' + {#} = live t + {#l#}"
      using new(5) ok by (simp add: session_ok_def live_def new_entry_def live_of_def l)
  qed (use new(2,3) ok in \<open>simp_all add: session_ok_def\<close>)
  then show "keeps f p B (thenA (putA t') (valueA (sftp_handle_encode cap req_id (he_wire_handle (ses_handles t' ! i))))) s"
    by (intro wp_thenA wp_putA wp_valueA) blast+
qed

lemma wp_traced_extra:
  assumes "follows f p B (add_mset l X) (Some req) s" "fst s = t" "po_path req = Some (lh_path l)" "permits_handle req l c"
    and "\<And>e s'. follows f p B (add_mset l X) (Some req) s' \<Longrightarrow> fst s' = t \<Longrightarrow> E e s'"
    and "\<And>x s'. follows f p B (add_mset l X) (Some req) s' \<Longrightarrow> fst s' = t \<Longrightarrow> Q x s'"
  shows "wpA (fsA (traced c g)) E Q s"
proof -
  have "protocol_step (live t + add_mset l X, Some req) (Call c) (live t + add_mset l X, Some req)"
    using assms(3,4) by (intro protocol_step.handle_call) auto
  then show ?thesis
    using assms by (intro wp_traced) blast+
qed

lemmas wp_register_file = wp_register [where kind = SFTP_HANDLE_KIND_FILE, unfolded close_op_def sftp_handle_kind.case]
lemmas wp_register_dir = wp_register [where kind = SFTP_HANDLE_KIND_DIR, unfolded close_op_def sftp_handle_kind.case]
lemmas wp_drop_file = wp_drop [where kind = SFTP_HANDLE_KIND_FILE, unfolded close_op_def sftp_handle_kind.case]

lemma open_file_follows:
  assumes "closable f" "follows f p B {#} (Some req) s" "fst s = t" "path_normal path" "open_pflags_are_valid pflags"
    and req: "po_operation req = SFTP_POLICY_OPEN" "po_path req = Some path" "po_pflags req = pflags" "po_attrs req = Some requested"
    and attrs: "open_attrs = requested\<lparr>attr_flags := attr_flags requested AND NOT SSH_FILEXFER_ATTR_SIZE\<rparr>"
    and set: "attr_flags open_attrs \<noteq> 0 \<Longrightarrow> fs_fsetstat f \<noteq> None \<and> pflags AND SSH_FXF_WRITE \<noteq> 0"
  shows "keeps f p B (open_file cap req_id (\<lambda>p flags. traced_open (Call_open p flags) (file_handle p flags) (g p flags)) path pflags open_attrs) s"
  unfolding open_file_def resultA_def statusA_def
proof (rule wp_tryA, rule wp_traced_open [OF assms(2,3)])
  show "permits_path req (Call_open path pflags)" "opens req (file_handle path pflags h)" for h
    using assms(4,5) req by (simp_all add: opens_def file_handle_def)
  fix h s1
  assume s1: "follows f p B (add_mset (file_handle path pflags h) {#}) (Some req) s1" "fst s1 = t"
  have stat: "permits_path req (Call_stat path)"
    using req assms(4) by simp
  have rest: "keeps f p B (bindA (refresh_attrs path open_attrs) (register_handle cap req_id fs_close h SFTP_HANDLE_KIND_FILE pflags path)) s2"
    if "follows f p B {#file_handle path pflags h#} (Some req) s2" "fst s2 = t" for s2
    by (rule wp_bindA, rule wp_refresh_attrs [OF that stat], rule wp_register_file [OF assms(1)])
      (use assms(4,5) in \<open>auto simp: file_handle_def\<close>)
  have fset: "po_path req = Some (lh_path (file_handle path pflags h))"
    "permits_handle req (file_handle path pflags h) (Call_fsetstat h open_attrs)" if "attr_flags open_attrs \<noteq> 0"
    using set [OF that] req attrs by (auto simp: file_handle_def can_def)
  show "keeps f p B (sesA (\<lambda>session.
      tryA (if attr_flags open_attrs \<noteq> 0 then fsA (the (fs_op fs_fsetstat session) h open_attrs) else retA ())
        (\<lambda>e. dropA (fs_op fs_close session) h (valueA (encode_status cap req_id (status_from_error (Some e))
               (status_message_from_error (Some e) (Some ''open attrs failed'')))))
        (\<lambda>_. bindA (refresh_attrs path open_attrs) (register_handle cap req_id fs_close h SFTP_HANDLE_KIND_FILE pflags path)))) s1"
  proof (rule wp_sesA_eq [OF s1(2)], rule wp_tryA, rule wp_if)
    assume on: "attr_flags open_attrs \<noteq> 0"
    obtain g' where g': "fs_op fs_fsetstat t = Some (\<lambda>h a. traced (Call_fsetstat h a) (g' h a))"
      using set [OF on] fs_op_follows [OF s1, of fs_fsetstat] by auto
    have drop: "keeps f p B (dropA (fs_op fs_close t) h (valueA r)) s2"
      if "follows f p B {#file_handle path pflags h#} (Some req) s2" "fst s2 = t" for s2 and r :: "ssh_err + u8 list"
      by (rule wp_drop_file [OF assms(1) that]) (auto simp: file_handle_def intro!: wp_valueA)
    show "wpA (fsA (the (fs_op fs_fsetstat t) h open_attrs))
       (\<lambda>e. keeps f p B (dropA (fs_op fs_close t) h (valueA (encode_status cap req_id (status_from_error (Some e))
               (status_message_from_error (Some e) (Some ''open attrs failed''))))))
       (\<lambda>_. keeps f p B (bindA (refresh_attrs path open_attrs) (register_handle cap req_id fs_close h SFTP_HANDLE_KIND_FILE pflags path))) s1"
      unfolding g' option.sel by (rule wp_traced_extra [OF s1 fset [OF on]]) (rule drop rest; assumption)+
  qed (rule wp_retA, rule rest [OF s1])
qed (auto intro!: wp_valueA)

lemma open_handlers_follow:
  assumes "closable f" "follows f p B {#} ap s" "fst s = t"
  shows "snd (snd B) = Some SFTP_POLICY_OPEN \<Longrightarrow> keeps f p B (handle_open request cap) s" "snd (snd B) = Some SFTP_POLICY_OPENDIR \<Longrightarrow> keeps f p B (handle_opendir request cap) s"
  using assms(2,3) unfolding handler_defs resultA_def statusA_def
  by - ((rule wp_structure | (rule wp_sesA_eq, assumption, (simp only: fs_op_follows [OF assms(2,3)] traced_fs_sel)?)
     | (rule wp_policy, assumption, assumption, assumption)
     | (rule open_file_follows [OF assms(1)], assumption, assumption, (erule copy_path_sound), blast, simp, simp, simp, simp, rule refl, (auto)[1])
     | (rule wp_traced_open, assumption, assumption, (auto dest: copy_path_sound)[1], (auto simp: opens_def dir_handle_def dest: copy_path_sound)[1])
     | (rule wp_refresh_attrs, assumption, assumption, (auto dest: copy_path_sound)[1])
     | (rule wp_register_dir [OF assms(1)], assumption, assumption, (simp add: dir_handle_def), (erule copy_path_sound), simp)
     | (rule exI, assumption))+)

lemma wp_close_entry:
  assumes "closable f" "follows f p B X ap s" "fst s = t" "i < EMSSH_SFTP_MAX_HANDLES" "he_in_use (ses_handles t ! i)"
    and "\<And>s'. follows f p B X ap s' \<Longrightarrow> fst s' = set_entry t i empty_entry \<Longrightarrow> (\<forall>e. E e s') \<and> Q () s'"
  shows "wpA (close_entry i) E Q s"
proof -
  let ?e = "ses_handles t ! i"
  have ok: "session_ok t"
    using assms(2,3) by (auto simp: follows_def)
  then have i: "i < length (ses_handles t)"
    using assms(4) by (simp add: session_ok_def table_ok_def)
  have e: "?e \<in># open_entries t" "live_of ?e \<in># live t" "entry_ok ?e"
    using nth_open [OF i assms(5)] ok by (simp_all add: live_def session_ok_def)
  obtain kind where kind: "he_kind ?e = Some kind"
    using e(3) by (auto simp: entry_ok_def)
  obtain g where g: "close_op kind (traced_fs f) = Some (\<lambda>h. traced (close_call kind h) (g h))"
    using close_op_traced [OF assms(1)] by blast
  have opens: "open_entries (set_entry t i empty_entry) = open_entries t - {#?e#}"
    using assms(5) by (simp add: open_entries_set [OF i])
  then have live: "live (set_entry t i empty_entry) = live t - {#live_of ?e#}"
    using e(1) by (simp add: live_def image_mset_Diff)
  have ok': "session_ok (set_entry t i empty_entry)"
    using ok opens by (auto simp: session_ok_def dest: in_diffD)
  have after: "follows f p B X ap (set_entry t i empty_entry, (w', log @ [Call (close_call kind (he_fs_handle ?e))]))"
    if "s = (t, (w, log))" for w w' log
  proof -
    have "protocol_step (live t + X, ap) (Call (close_call kind (he_fs_handle ?e))) (live t + X - {#live_of ?e#}, ap)"
      by (rule protocol_step.close_call) (use e(2) closes_call [of "live_of ?e"] kind in \<open>auto simp: live_of_def\<close>)
    moreover have "live t + X - {#live_of ?e#} = live (set_entry t i empty_entry) + X"
      using e(2) live by simp
    ultimately show ?thesis
      using assms(2) that ok' by (intro follows_step [where X = X and ap = ap]) simp_all
  qed
  obtain w log where s: "s = (t, (w, log))"
    using assms(3) by (metis surj_pair fst_conv)
  have call: "(if he_kind ?e = Some SFTP_HANDLE_KIND_DIR \<and> fs_op fs_closedir t \<noteq> None
         then fsA (the (fs_op fs_closedir t) (he_fs_handle ?e))
         else if he_kind ?e = Some SFTP_HANDLE_KIND_FILE \<and> fs_op fs_close t \<noteq> None
         then fsA (the (fs_op fs_close t) (he_fs_handle ?e)) else retA ()) =
       fsA (traced (close_call kind (he_fs_handle ?e)) (g (he_fs_handle ?e)))"
    using g kind by (cases kind) (simp_all add: close_op_def fs_op_follows [OF assms(2,3)] del: traced_fs_sel)
  show ?thesis
    unfolding close_entry_def Let_def
    by (rule wp_sesA_eq [OF assms(3)], simp only: call assms(5) not_True_eq_False if_False)
      (use assms(6) [OF after [OF s]] in \<open>auto simp: s wpA_def tryA_def fsA_def traced_def thenA_def bindA_def sesA_def putA_def
        split: prod.splits sum.splits\<close>)
qed

lemma close_follows:
  assumes "closable f" "follows f p B {#} ap s" "fst s = t"
  shows "keeps f p B (handle_close request cap) s"
proof -
  have close: "wpA (close_entry i) (\<lambda>e. keeps f p B (valueA (r e))) (\<lambda>u. keeps f p B (valueA r')) s"
    if "find_handle t v = Some i" for v i and r :: "ssh_err \<Rightarrow> ssh_err + u8 list" and r'
    using find_handle_bounds [OF follows_entry(3) [OF assms(2,3) that] that] follows_entry(3) [OF assms(2,3) that]
    by (intro wp_close_entry [OF assms]) (auto simp: table_ok_def intro!: wp_valueA)
  show ?thesis
    using assms(2,3) unfolding handle_close_def reply_defs
    by - ((rule wp_structure | (rule wp_sesA_eq, assumption) | (rule wp_option) | (rule exI, assumption) | (rule close, assumption))+)
qed

lemma extended_follows:
  assumes "follows f p B {#} ap s" "snd (snd B) = (case sftp_extended_request_decode request of Inl _ \<Rightarrow> None
    | Inr extended \<Rightarrow> extended_operation (ex_name extended))"
  shows "keeps f p B (handle_extended request cap) s"
  unfolding handle_extended_def statusA_def
  by (intro wp_tryA wp_valueA wp_if wp_let two_path_handlers_follow [OF assms(1) refl] handle_handlers_follow [OF assms(1) refl]
      exI [of _ ap] assms(1)) (use assms(2) in \<open>auto simp: extended_operation_def\<close>)

lemma handle_packet_follows:
  assumes "closable f" "follows f p B {#} ap s" "snd (snd B) = policy_operation request"
  shows "keeps f p B (sftp_server_handle_packet request cap) s"
  unfolding sftp_server_handle_packet_def statusA_def
  by (intro wp_tryA wp_valueA wp_if wp_let path_handlers_follow [OF assms(2) refl] two_path_handlers_follow [OF assms(2) refl]
      handle_handlers_follow [OF assms(2) refl] io_handlers_follow [OF assms(2) refl] open_handlers_follow [OF assms(1,2) refl]
      close_follows [OF assms(1,2) refl] path_attrs_follows [OF assms(2) refl] extended_follows [OF assms(2)] exI [of _ ap] assms(2))
    (auto simp: policy_operation_def fxp_defs assms(3))

section \<open>Whole sessions\<close>

definition start_session :: "'w ssh_fs_api \<Rightarrow> (sftp_policy_request \<Rightarrow> ('w, unit) act) \<Rightarrow> 'w traced_world sftp_server_session" where
  "start_session f p = sftp_server_session_set_policy (sftp_server_session_init (Some (traced_fs f))) (Some (traced_policy p))"

text \<open>Between two requests: the whole log is a run to the live handles of the table.\<close>

definition in_protocol :: "'w ssh_fs_api \<Rightarrow> (sftp_policy_request \<Rightarrow> ('w, unit) act) \<Rightarrow> 'w traced_world sftp_state \<Rightarrow> bool" where
  "in_protocol f p \<sigma> \<longleftrightarrow> ses_fs (fst \<sigma>) = Some (traced_fs f) \<and> ses_policy (fst \<sigma>) = Some (traced_policy p) \<and>
     session_ok (fst \<sigma>) \<and> (\<exists>ap. protocol_run ({#}, None) (snd (snd \<sigma>)) (live (fst \<sigma>), ap))"

lemma start_in_protocol: "in_protocol f p (start_session f p, (w, []))"
proof -
  have "open_entries (start_session f p) = {#}"
    by (simp add: start_session_def open_entries_def sftp_server_session_set_policy_def sftp_server_session_init_def)
  then have "live (start_session f p) = {#}"
    by (simp add: live_def)
  moreover have "session_ok (start_session f p)"
    using session_start_ok(1) by (simp add: start_session_def)
  ultimately show ?thesis
    by (auto simp: in_protocol_def intro: run_Nil)
      (simp_all add: start_session_def sftp_server_session_set_policy_def sftp_server_session_init_def)
qed

lemma step_approved: "protocol_step (L, ap) (Decision req True) (L, Some req)"
  using protocol_step.decide [of L ap req True] by simp

lemma run_append:
  "protocol_run st1 post st2 \<Longrightarrow> protocol_run st pre st1 \<Longrightarrow> protocol_run st (pre @ post) st2"
proof (induction rule: protocol_run.induct)
  case (run_snoc st' log st1 ev st2)
  then show ?case
    using protocol_run.run_snoc [of st "pre @ log"] by simp
qed simp

text \<open>An approval that is there at the start changes nothing: a run without it is also a run with it.\<close>

lemma run_approved:
  "protocol_run st log st' \<Longrightarrow> st = (L, None) \<Longrightarrow> \<exists>ap'. protocol_run (L, ap0) log (fst st', ap') \<and> (snd st' \<noteq> None \<longrightarrow> ap' = snd st')"
proof (induction rule: protocol_run.induct)
  case (run_Nil st)
  then show ?case
    using protocol_run.run_Nil by fastforce
next
  case (run_snoc st log st' ev st'')
  then obtain ap' where run: "protocol_run (L, ap0) log (fst st', ap')" "snd st' \<noteq> None \<longrightarrow> ap' = snd st'"
    by blast
  have "\<exists>ap''. protocol_step (fst st', ap') ev (fst st'', ap'') \<and> (snd st'' \<noteq> None \<longrightarrow> ap'' = snd st'')"
    using run_snoc.hyps(2) run(2) by cases (auto intro: protocol_step.intros step_approved)
  then show ?case
    using protocol_run.run_snoc [OF run(1)] by blast
qed

lemma in_protocol_follows: "in_protocol f p \<sigma> \<Longrightarrow> follows f p (snd (snd \<sigma>), live (fst \<sigma>), op) {#} None \<sigma>"
  by (auto simp: in_protocol_def follows_def intro: run_Nil)

lemma follows_in_protocol:
  assumes "in_protocol f p \<sigma>" "follows f p (snd (snd \<sigma>), live (fst \<sigma>), op) {#} ap \<sigma>'"
  shows "in_protocol f p \<sigma>'"
proof -
  obtain ap0 where run: "protocol_run ({#}, None) (snd (snd \<sigma>)) (live (fst \<sigma>), ap0)"
    using assms(1) by (auto simp: in_protocol_def)
  obtain seg where seg: "snd (snd \<sigma>') = snd (snd \<sigma>) @ seg" "protocol_run (live (fst \<sigma>), None) seg (live (fst \<sigma>'), ap)"
    using assms(2) by (auto simp: follows_def)
  then obtain ap' where "protocol_run (live (fst \<sigma>), ap0) seg (live (fst \<sigma>'), ap')"
    using run_approved [OF seg(2) refl] by auto
  from run_append [OF this run] show ?thesis
    using assms(2) seg(1) by (auto simp: in_protocol_def follows_def)
qed

lemma packet_follows:
  assumes "closable f" "in_protocol f p \<sigma>"
  shows "\<exists>ap. follows f p (snd (snd \<sigma>), live (fst \<sigma>), policy_operation request) {#} ap (snd (sftp_server_handle_packet request cap \<sigma>))"
  using handle_packet_follows [OF assms(1) in_protocol_follows [OF assms(2), of "policy_operation request"], of request cap]
  by (auto simp: wpA_def split: prod.splits sum.splits)

lemma serve_in_protocol: "closable f \<Longrightarrow> in_protocol f p \<sigma> \<Longrightarrow> in_protocol f p (serve requests \<sigma>)"
proof (induction requests arbitrary: \<sigma>)
  case (Cons r requests)
  obtain request cap where r: "r = (request, cap)"
    by (metis surj_pair)
  obtain ap where "follows f p (snd (snd \<sigma>), live (fst \<sigma>), policy_operation request) {#} ap (snd (sftp_server_handle_packet request cap \<sigma>))"
    using packet_follows [OF Cons.prems] by blast
  from Cons.IH [OF Cons.prems(1) follows_in_protocol [OF Cons.prems(2) this]] show ?case
    by (simp add: r)
qed simp

lemmas served_in_protocol = serve_in_protocol [OF _ start_in_protocol]

lemma close_entries_follows:
  assumes "closable f" "follows f p B {#} ap s" "\<forall>i \<in> set is. i < EMSSH_SFTP_MAX_HANDLES"
  shows "wpA (close_entries is) (\<lambda>_ _. False) (\<lambda>_ s'. follows f p B {#} ap s' \<and>
    (\<forall>j. \<not> he_in_use (ses_handles (fst s) ! j) \<or> j \<in> set is \<longrightarrow> \<not> he_in_use (ses_handles (fst s') ! j))) s"
  using assms(2,3)
proof (induction "is" arbitrary: s)
  case Nil
  then show ?case
    by (simp add: wpA_def)
next
  case (Cons i "is")
  have IH: "wpA (close_entries is) (\<lambda>_ _. False) (\<lambda>_ s'. follows f p B {#} ap s' \<and>
      (\<forall>j. \<not> he_in_use (ses_handles (fst s) ! j) \<or> j \<in> set (i # is) \<longrightarrow> \<not> he_in_use (ses_handles (fst s') ! j))) s1"
    if "follows f p B {#} ap s1" "fst s1 = fst s \<and> \<not> he_in_use (ses_handles (fst s) ! i) \<or> fst s1 = set_entry (fst s) i empty_entry" for s1
  proof (rule wp_mono [OF Cons.IH [OF that(1)]])
    have free: "\<not> he_in_use (ses_handles (fst s1) ! j)" if "\<not> he_in_use (ses_handles (fst s) ! j) \<or> j = i" for j
      using that \<open>fst s1 = fst s \<and> _ \<or> _\<close> Cons.prems \<open>follows f p B {#} ap s1\<close>
      by (auto simp: set_entry_def nth_list_update follows_def session_ok_def table_ok_def split: if_splits)
    fix x s'
    assume "follows f p B {#} ap s' \<and>
      (\<forall>j. \<not> he_in_use (ses_handles (fst s1) ! j) \<or> j \<in> set is \<longrightarrow> \<not> he_in_use (ses_handles (fst s') ! j))"
    then show "follows f p B {#} ap s' \<and>
      (\<forall>j. \<not> he_in_use (ses_handles (fst s) ! j) \<or> j \<in> set (i # is) \<longrightarrow> \<not> he_in_use (ses_handles (fst s') ! j))"
      using free by auto
  qed (use Cons.prems in auto)
  show ?case
    unfolding close_entries.simps
  proof (rule wp_sesA, rule wp_if)
    assume "he_in_use (ses_handles (fst s) ! i)"
    then show "wpA (tryA (close_entry i) (\<lambda>_. close_entries is) (\<lambda>_. close_entries is)) (\<lambda>_ _. False) (\<lambda>_ s'. follows f p B {#} ap s' \<and>
      (\<forall>j. \<not> he_in_use (ses_handles (fst s) ! j) \<or> j \<in> set (i # is) \<longrightarrow> \<not> he_in_use (ses_handles (fst s') ! j))) s"
      using Cons.prems(2) by (intro wp_tryA wp_close_entry [OF assms(1) Cons.prems(1) refl] conjI allI IH) (simp_all only: list.set_intros simp_thms)
  qed (rule IH; use Cons.prems in simp)
qed

lemma deinit_log:
  assumes "closable f" "in_protocol f p \<sigma>"
  shows "\<exists>ap. protocol_run ({#}, None) (snd (snd (snd (sftp_server_session_deinit \<sigma>)))) ({#}, ap)"
proof -
  note wp = close_entries_follows [OF assms(1) in_protocol_follows [OF assms(2)], of "[0..<EMSSH_SFTP_MAX_HANDLES]" None]
  then obtain s' where s': "close_entries [0..<EMSSH_SFTP_MAX_HANDLES] \<sigma> = (Inr (), s')"
      "follows f p (snd (snd \<sigma>), live (fst \<sigma>), None) {#} None s'"
      "\<forall>j < EMSSH_SFTP_MAX_HANDLES. \<not> he_in_use (ses_handles (fst s') ! j)"
    by (auto simp: wpA_def split: prod.splits sum.splits)
  have "in_protocol f p s'"
    using follows_in_protocol [OF assms(2) s'(2)] .
  moreover have "open_entries (fst s') = {#}"
    using s'(2,3) by (auto simp: open_entries_def follows_def session_ok_def table_ok_def in_set_conv_nth filter_mset_eq_conv)
  ultimately show ?thesis
    using s'(1) by (auto simp: in_protocol_def live_def sftp_server_session_deinit_def putA_def)
qed

section \<open>What runs of the protocol mean\<close>

definition last_approval :: "fs_event list \<Rightarrow> sftp_policy_request option" where
  "last_approval log = fold (\<lambda>ev ap. case ev of Decision req ok \<Rightarrow> if ok then Some req else None | _ \<Rightarrow> ap) log None"

lemma last_approval_simps [simp]:
  "last_approval [] = None"
  "last_approval (log @ [Decision req ok]) = (if ok then Some req else None)"
  "last_approval (log @ [Call c]) = last_approval log"
  "last_approval (log @ [Got l]) = last_approval log"
  by (simp_all add: last_approval_def)

lemma run_state:
  "protocol_run st log st' \<Longrightarrow> st = (L, None) \<Longrightarrow> snd st' = last_approval log"
proof (induction rule: protocol_run.induct)
  case (run_snoc st log st' ev st'')
  then show ?case
    by (auto elim!: protocol_step.cases)
qed simp

lemma last_approval_asked: "last_approval log = Some req \<Longrightarrow> \<exists>ok. Decision req ok \<in> set log"
proof (induction log rule: rev_induct)
  case (snoc ev log)
  then show ?case
    by (cases ev) (auto split: if_splits)
qed simp

lemma run_prefix:
  "protocol_run st log st' \<Longrightarrow> log = pre @ ev # post \<Longrightarrow> \<exists>st1 st2. protocol_run st pre st1 \<and> protocol_step st1 ev st2"
proof (induction arbitrary: post rule: protocol_run.induct)
  case (run_snoc st log st' ev' st'')
  show ?case
  proof (cases post rule: rev_cases)
    case Nil
    then have "log = pre" "ev' = ev"
      using run_snoc.prems by simp_all
    then show ?thesis
      using run_snoc.hyps by blast
  next
    case (snoc post' x)
    then show ?thesis
      using run_snoc.IH [of post'] run_snoc.prems by auto
  qed
qed simp

section \<open>Properties\<close>

text \<open>C4. The server refines the protocol: for every file system that can close what it opens, every policy and every
  sequence of packets, the decisions of the policy, the calls of the file system and the handles it returned form a run of
  the protocol, and the live handles at its end are those of the open entries of the handle table.\<close>

theorem session_follows_protocol:
  assumes "closable f"
  shows "\<exists>ap. protocol_run ({#}, None) (snd (snd (serve requests (start_session f p, (w, [])))))
    (live (fst (serve requests (start_session f p, (w, [])))), ap)"
  using served_in_protocol [OF assms] by (auto simp: in_protocol_def)

text \<open>C24. No call of the file system without approval, for every file system that can close what it opens. Take any session and
  the events of one more request, up to a call. Either the call closes a handle that is live at this point, or the policy was asked while
  serving this very request, its last answer was an approval, and what it approved is the operation that belongs to the type of the
  request. The approval names the normal paths of the call, or the path of the live handle that the call is on, of the right kind, with the
  open flags that the call needs, and the offset, length or attributes with which it is made, where the call has them. One approval also covers
  what serves the same operation: the \<^verbatim>\<open>stat\<close> of the path that an open, opendir or fstat was approved for, the \<^verbatim>\<open>fsetstat\<close> of the
  attributes, without the size, that an open was approved with, and \<^verbatim>\<open>posix_rename\<close> for a rename.\<close>

theorem every_call_is_approved:
  assumes "closable f" "\<sigma> = serve requests (start_session f p, (w, []))"
    and "snd (snd (snd (sftp_server_handle_packet request cap \<sigma>))) = snd (snd \<sigma>) @ pre @ Call c # post"
  shows "\<exists>L ap. protocol_run (live (fst \<sigma>), None) pre (L, ap) \<and> ((\<exists>l \<in># L. closes l c) \<or>
    (\<exists>req. last_approval pre = Some req \<and> policy_operation request = Some (po_operation req) \<and>
      (permits_path req c \<or> (\<exists>l \<in># L. po_path req = Some (lh_path l) \<and> permits_handle req l c))))"
proof -
  obtain ap where "follows f p (snd (snd \<sigma>), live (fst \<sigma>), policy_operation request) {#} ap (snd (sftp_server_handle_packet request cap \<sigma>))"
    using packet_follows [OF assms(1) served_in_protocol [OF assms(1)], of p requests w request cap] assms(2) by auto
  then have run: "protocol_run (live (fst \<sigma>), None) (pre @ Call c # post) (live (fst (snd (sftp_server_handle_packet request cap \<sigma>))), ap)"
    and asked: "\<And>req ok. Decision req ok \<in> set pre \<Longrightarrow> policy_operation request = Some (po_operation req)"
    using assms(3) by (auto simp: follows_def)
  obtain L ap1 st2 where st: "protocol_run (live (fst \<sigma>), None) pre (L, ap1)" "protocol_step (L, ap1) (Call c) st2"
    using run_prefix [OF run refl] by (metis surj_pair)
  have ap1: "ap1 = last_approval pre"
    using run_state [OF st(1) refl] by simp
  have operation: "policy_operation request = Some (po_operation req)" if "last_approval pre = Some req" for req
    using last_approval_asked [OF that] asked by blast
  have "(\<exists>l \<in># L. closes l c) \<or> (\<exists>req. last_approval pre = Some req \<and> policy_operation request = Some (po_operation req) \<and>
      (permits_path req c \<or> (\<exists>l \<in># L. po_path req = Some (lh_path l) \<and> permits_handle req l c)))"
    using st(2) by cases (use ap1 operation in auto)
  then show ?thesis
    using st(1) by blast
qed

text \<open>C28. Ending a session leaks no handle: for every file system that can close what it opens, after any packets,
  \<^verbatim>\<open>sftp_server_session_deinit\<close> closes the handles that are still open, so the whole log is a run of the protocol that ends without live handles.\<close>

theorem deinit_closes_everything:
  assumes "closable f"
  shows "\<exists>ap. protocol_run ({#}, None)
    (snd (snd (snd (sftp_server_session_deinit (serve requests (start_session f p, (w, []))))))) ({#}, ap)"
  by (rule deinit_log [OF assms served_in_protocol [OF assms]])

text \<open>A file system that opens, writes, removes and closes.\<close>

definition sample_fs :: "unit ssh_fs_api" where
  "sample_fs = \<lparr>fs_open = Some (\<lambda>p flags w. (Inr 5, w)), fs_close = Some (\<lambda>h w. (Inr (), w)), fs_read = None,
    fs_write = Some (\<lambda>h d w. (Inr (length d), w)), fs_read_at = None, fs_write_at = None, fs_stat = None, fs_lstat = None,
    fs_setstat = None, fs_fsetstat = None, fs_opendir = None, fs_readdir = None, fs_closedir = Some (\<lambda>h w. (Inr (), w)),
    fs_mkdir = None, fs_rmdir = None, fs_remove = Some (\<lambda>p w. (Inr (), w)), fs_rename = None, fs_posix_rename = None,
    fs_fsync = None, fs_hardlink = None, fs_statvfs = None, fs_fstatvfs = None\<rparr>"

definition sample_policy :: "sftp_policy_request \<Rightarrow> (unit, unit) act" where
  "sample_policy req = retA ()"

lemma sample_fs_closable: "closable sample_fs"
  by (simp add: closable_def sample_fs_def)

theorem session_follows_protocol_witness:
  "\<exists>ap. protocol_run ({#}, None)
    (snd (snd (serve [(request_packet SSH_FXP_REMOVE 1 (string_bytes [97]), 64)] (start_session sample_fs sample_policy, ((), [])))))
    (live (fst (serve [(request_packet SSH_FXP_REMOVE 1 (string_bytes [97]), 64)] (start_session sample_fs sample_policy, ((), [])))), ap)"
  by (rule session_follows_protocol [OF sample_fs_closable])

text \<open>Opening the file \<^verbatim>\<open>a\<close> for writing in a new session, with handle 5 of the file system, and a write on it.\<close>

definition opened :: "unit traced_world sftp_server_session" where
  "opened = snd (alloc_handle (start_session sample_fs sample_policy) 5 SFTP_HANDLE_KIND_FILE 2 (Some [97]) (Some empty_attrs))"

definition opened_log :: "fs_event list" where
  "opened_log = [Decision \<lparr>po_operation = SFTP_POLICY_OPEN, po_path = Some [97], po_new_path = None, po_pflags = 2, po_offset = 0,
     po_length = 0, po_attrs = Some empty_attrs\<rparr> True, Call (Call_open [97] 2), Got (file_handle [97] 2 5)]"

definition write_packet_1 :: "u8 list" where
  "write_packet_1 = request_packet SSH_FXP_WRITE 2 (string_bytes (be32 1) @ be64 0 @ string_bytes [7, 8])"

lemma sample_fs_sel:
  "fs_open sample_fs = Some (\<lambda>p flags w. (Inr 5, w))" "fs_stat sample_fs = None"
  "fs_write sample_fs = Some (\<lambda>h d w. (Inr (length d), w))" "fs_write_at sample_fs = None"
  by (simp_all add: sample_fs_def)

lemma sample_start:
  "start_session sample_fs sample_policy = \<lparr>ses_fs = Some (traced_fs sample_fs), ses_policy = Some (traced_policy sample_policy),
     ses_next_handle_id = 1, ses_handles = replicate EMSSH_SFTP_MAX_HANDLES empty_entry\<rparr>"
  by (simp add: start_session_def sftp_server_session_set_policy_def sftp_server_session_init_def)

lemma opened_simps:
  "find_handle opened (Some (be32 1)) = Some 0" "ses_fs opened = Some (traced_fs sample_fs)"
  "ses_policy opened = Some (traced_policy sample_policy)"
  "ses_handles opened = \<lparr>he_in_use = True, he_kind = Some SFTP_HANDLE_KIND_FILE, he_wire_handle = be32 1, he_fs_handle = 5, he_pflags = 2,
     he_path = [97], he_attrs = empty_attrs\<rparr> # replicate 15 empty_entry"
  by (simp_all add: opened_def sample_start alloc_handle_def EMSSH_SFTP_MAX_HANDLES_def EMSSH_SFTP_MAX_PATH_def
      find_handle_def handle_equals_def set_entry_def empty_entry_def write_u32_be_def upt_rec Let_def numeral_eq_Suc)

lemma serve_open: "serve [(open_request, 64)] (start_session sample_fs sample_policy, ((), [])) = (opened, ((), opened_log))"
proof -
  have "alloc_handle (start_session sample_fs sample_policy) 5 SFTP_HANDLE_KIND_FILE 2 (Some [97]) (Some empty_attrs) = (Some 0, opened)"
    by (simp add: opened_def alloc_handle_def sample_start EMSSH_SFTP_MAX_HANDLES_def EMSSH_SFTP_MAX_PATH_def
        empty_entry_def upt_rec Let_def)
  then have "snd (sftp_server_handle_packet open_request 64 (start_session sample_fs sample_policy, ((), []))) = (opened, ((), opened_log))"
    by (intro open_packet [where f = "traced_fs sample_fs" and ?w1.0 = "((), take 1 opened_log)" and
          g = "\<lambda>p flags. traced_open (Call_open p flags) (file_handle p flags) (\<lambda>w. (Inr 5, w))"])
      (simp_all add: sample_start sample_fs_sel approved_def traced_policy_def traced_open_def sample_policy_def opened_log_def)
  then show ?thesis
    by simp
qed

theorem deinit_closes_everything_witness:
  "live (fst (serve [(open_request, 64)] (start_session sample_fs sample_policy, ((), [])))) = {#file_handle [97] 2 5#} \<and>
   (\<exists>ap. protocol_run ({#}, None)
    (snd (snd (snd (sftp_server_session_deinit (serve [(open_request, 64)] (start_session sample_fs sample_policy, ((), []))))))) ({#}, ap))"
proof
  show "live (fst (serve [(open_request, 64)] (start_session sample_fs sample_policy, ((), [])))) = {#file_handle [97] 2 5#}"
    unfolding serve_open by (simp add: live_def open_entries_def opened_simps live_of_def file_handle_def empty_entry_def)
qed (rule deinit_closes_everything [OF sample_fs_closable])

lemma write_log:
  "snd (snd (snd (sftp_server_handle_packet write_packet_1 64 (opened, ((), opened_log))))) = opened_log @
     [Decision \<lparr>po_operation = SFTP_POLICY_WRITE, po_path = Some [97], po_new_path = None, po_pflags = 2, po_offset = 0, po_length = 2,
       po_attrs = None\<rparr> True] @ Call (Call_write 5 [7, 8]) # []"
proof -
  have decode: "sftp_write_request_decode write_packet_1 = Inr \<lparr>wr_id = 2, wr_handle = Some (be32 1), wr_offset = 0, wr_data = Some [7, 8]\<rparr>"
    by (simp add: write_packet_1_def write_request.decode_iff string_valid_def view_bytes_def string_bytes_def UINT32_MAX_def)
  show ?thesis
    by (simp add: write_packet [OF decode] handle_write_def decode tryA_def valueA_def sesA_def fs_op_def opened_simps policy_check_def
        call_write_def fsA_def thenA_def bindA_def putA_def statusA_def traced_def traced_policy_def sample_policy_def sample_fs_sel
        SSH_FXF_WRITE_def Let_def split: sum.splits)
qed

theorem every_call_is_approved_witness:
  "\<exists>L ap. protocol_run (live opened, None) [Decision \<lparr>po_operation = SFTP_POLICY_WRITE, po_path = Some [97], po_new_path = None,
      po_pflags = 2, po_offset = 0, po_length = 2, po_attrs = None\<rparr> True] (L, ap) \<and>
    (\<exists>req. policy_operation write_packet_1 = Some (po_operation req) \<and>
      (\<exists>l \<in># L. po_path req = Some (lh_path l) \<and> permits_handle req l (Call_write 5 [7, 8])))"
  using every_call_is_approved [OF sample_fs_closable serve_open [symmetric], unfolded fst_conv snd_conv, OF write_log] by simp blast

end
