(* ===== verification/Sftp_World.thy ===== *)
theory Sftp_World
  imports Sftp_Handles
begin

text \<open>
  The SFTP server of \<^verbatim>\<open>src/sftp/sftp_server.c\<close> reaches the world only through the file system and the policy of its session:
  a predicate on worlds that those callbacks keep is kept by the handling of every packet and by the end of a session.
\<close>

section \<open>Callbacks that keep a predicate\<close>

definition call_keeps :: "('w \<Rightarrow> bool) \<Rightarrow> ('w \<Rightarrow> 'r \<times> 'w) \<Rightarrow> bool" where
  "call_keeps W m \<longleftrightarrow> (\<forall>w. W w \<longrightarrow> W (snd (m w)))"

definition fs_keeps :: "('w \<Rightarrow> bool) \<Rightarrow> 'w ssh_fs_api \<Rightarrow> bool" where
  "fs_keeps W fs \<longleftrightarrow>
     (\<forall>f p n. fs_open fs = Some f \<longrightarrow> call_keeps W (f p n)) \<and>
     (\<forall>f h. fs_close fs = Some f \<longrightarrow> call_keeps W (f h)) \<and>
     (\<forall>f h n. fs_read fs = Some f \<longrightarrow> call_keeps W (f h n)) \<and>
     (\<forall>f h b. fs_write fs = Some f \<longrightarrow> call_keeps W (f h b)) \<and>
     (\<forall>f h off n. fs_read_at fs = Some f \<longrightarrow> call_keeps W (f h off n)) \<and>
     (\<forall>f h off b. fs_write_at fs = Some f \<longrightarrow> call_keeps W (f h off b)) \<and>
     (\<forall>f p a. fs_stat fs = Some f \<longrightarrow> call_keeps W (f p a)) \<and>
     (\<forall>f p. fs_lstat fs = Some f \<longrightarrow> call_keeps W (f p)) \<and>
     (\<forall>f p a. fs_setstat fs = Some f \<longrightarrow> call_keeps W (f p a)) \<and>
     (\<forall>f h a. fs_fsetstat fs = Some f \<longrightarrow> call_keeps W (f h a)) \<and>
     (\<forall>f p. fs_opendir fs = Some f \<longrightarrow> call_keeps W (f p)) \<and>
     (\<forall>f h. fs_readdir fs = Some f \<longrightarrow> call_keeps W (f h)) \<and>
     (\<forall>f h. fs_closedir fs = Some f \<longrightarrow> call_keeps W (f h)) \<and>
     (\<forall>f p a. fs_mkdir fs = Some f \<longrightarrow> call_keeps W (f p a)) \<and>
     (\<forall>f p. fs_rmdir fs = Some f \<longrightarrow> call_keeps W (f p)) \<and>
     (\<forall>f p. fs_remove fs = Some f \<longrightarrow> call_keeps W (f p)) \<and>
     (\<forall>f p q. fs_rename fs = Some f \<longrightarrow> call_keeps W (f p q)) \<and>
     (\<forall>f p q. fs_posix_rename fs = Some f \<longrightarrow> call_keeps W (f p q)) \<and>
     (\<forall>f h. fs_fsync fs = Some f \<longrightarrow> call_keeps W (f h)) \<and>
     (\<forall>f p q. fs_hardlink fs = Some f \<longrightarrow> call_keeps W (f p q)) \<and>
     (\<forall>f p. fs_statvfs fs = Some f \<longrightarrow> call_keeps W (f p)) \<and>
     (\<forall>f h. fs_fstatvfs fs = Some f \<longrightarrow> call_keeps W (f h))"

definition policy_keeps :: "('w \<Rightarrow> bool) \<Rightarrow> (sftp_policy_request \<Rightarrow> ('w, unit) act) option \<Rightarrow> bool" where
  "policy_keeps W policy \<longleftrightarrow> (\<forall>f request. policy = Some f \<longrightarrow> call_keeps W (f request))"

section \<open>The handlers\<close>

text \<open>The session keeps its file system and its policy, and the world the predicate.\<close>

definition session_in :: "('w \<Rightarrow> bool) \<Rightarrow> 'w ssh_fs_api option \<Rightarrow> (sftp_policy_request \<Rightarrow> ('w, unit) act) option \<Rightarrow> 'w sftp_state \<Rightarrow> bool" where
  "session_in W fs policy \<sigma> \<longleftrightarrow> W (snd \<sigma>) \<and> ses_fs (fst \<sigma>) = fs \<and> ses_policy (fst \<sigma>) = policy"

definition stays :: "('s \<Rightarrow> bool) \<Rightarrow> ('s, 'a) act \<Rightarrow> bool" where
  "stays G m \<longleftrightarrow> (\<forall>s. G s \<longrightarrow> G (snd (m s)))"

named_theorems stays_intros \<open>rules for actions that keep a predicate\<close>

lemma staysI: "(\<And>s. G s \<Longrightarrow> G (snd (m s))) \<Longrightarrow> stays G m"
  by (simp add: stays_def)

lemma stays_retA [stays_intros]: "stays G (retA x)"
  by (simp add: stays_def retA_def)

lemma stays_failA [stays_intros]: "stays G (failA e)"
  by (simp add: stays_def failA_def)

lemma stays_valueA [stays_intros]: "stays G (valueA r)"
  by (simp add: stays_def valueA_def)

lemma stays_bindA [stays_intros]: "stays G m \<Longrightarrow> (\<And>x. stays G (f x)) \<Longrightarrow> stays G (bindA m f)"
  by (fastforce simp: stays_def bindA_def split: prod.splits sum.splits)

lemma stays_thenA [stays_intros]: "stays G m \<Longrightarrow> stays G n \<Longrightarrow> stays G (thenA m n)"
  unfolding thenA_def by (rule stays_bindA)

lemma stays_tryA [stays_intros]: "stays G m \<Longrightarrow> (\<And>e. stays G (h e)) \<Longrightarrow> (\<And>x. stays G (k x)) \<Longrightarrow> stays G (tryA m h k)"
  by (fastforce simp: stays_def tryA_def split: prod.splits sum.splits)

lemma stays_if [stays_intros]: "(c \<Longrightarrow> stays G m) \<Longrightarrow> (\<not> c \<Longrightarrow> stays G n) \<Longrightarrow> stays G (if c then m else n)"
  by simp

lemma stays_option [stays_intros]:
  "(x = None \<Longrightarrow> stays G m) \<Longrightarrow> (\<And>y. x = Some y \<Longrightarrow> stays G (f y)) \<Longrightarrow> stays G (case x of None \<Rightarrow> m | Some y \<Rightarrow> f y)"
  by (cases x) simp_all

lemma stays_prod [stays_intros]: "(\<And>a b. x = (a, b) \<Longrightarrow> stays G (f a b)) \<Longrightarrow> stays G (case x of (a, b) \<Rightarrow> f a b)"
  by (cases x) simp

lemma stays_let [stays_intros]: "stays G (f x) \<Longrightarrow> stays G (let y = x in f y)"
  by simp

lemma stays_statusA [stays_intros]: "stays G (statusA cap req_id code message)"
  unfolding statusA_def by (intro stays_intros)

lemma stays_sesA [stays_intros]:
  "(\<And>session. ses_fs session = fs \<Longrightarrow> ses_policy session = policy \<Longrightarrow> stays (session_in W fs policy) (k session)) \<Longrightarrow>
   stays (session_in W fs policy) (sesA k)"
  by (auto simp: stays_def sesA_def session_in_def)

lemma stays_putA [stays_intros]:
  "ses_fs session = fs \<Longrightarrow> ses_policy session = policy \<Longrightarrow> stays (session_in W fs policy) (putA session)"
  by (simp add: stays_def putA_def session_in_def)

lemma stays_fsA [stays_intros]: "call_keeps W f \<Longrightarrow> stays (session_in W fs policy) (fsA f)"
  by (auto simp: stays_def fsA_def session_in_def call_keeps_def split: prod.splits)

lemma stays_statA [stays_intros]: "call_keeps W (f path attrs) \<Longrightarrow> stays (session_in W fs policy) (statA f path attrs)"
  by (auto simp: stays_def statA_def session_in_def call_keeps_def split: prod.splits)

lemma alloc_handle_frame:
  "alloc_handle session h kind pflags path a = (i, session') \<Longrightarrow> ses_fs session' = ses_fs session \<and> ses_policy session' = ses_policy session"
  by (auto simp: alloc_handle_def Let_def split: if_splits option.splits)


lemma path_attrs_stay:
  assumes "\<And>f. fs = Some f \<Longrightarrow> fs_keeps W f" "policy_keeps W policy" "type = SSH_FXP_LSTAT \<or> type = SSH_FXP_STAT"
  shows "stays (session_in W fs policy) (handle_path_attrs request type cap)"
  unfolding handler_defs step_defs
  by (intro stays_intros) (use assms in \<open>auto simp: fs_op_def fs_keeps_def policy_keeps_def split: option.splits\<close>)

lemma handlers_stay:
  assumes "\<And>f. fs = Some f \<Longrightarrow> fs_keeps W f" "policy_keeps W policy"
  shows "stays (session_in W fs policy) (handle_realpath request cap)"
  "stays (session_in W fs policy) (handle_open request cap)"
  "stays (session_in W fs policy) (handle_opendir request cap)"
  "stays (session_in W fs policy) (handle_close request cap)"
  "stays (session_in W fs policy) (close_entry i)"
  "stays (session_in W fs policy) (handle_fstat request cap)"
  "stays (session_in W fs policy) (handle_setstat request cap)"
  "stays (session_in W fs policy) (handle_fsetstat request cap)"
  "stays (session_in W fs policy) (handle_read request cap)"
  "stays (session_in W fs policy) (handle_readdir request cap)"
  "stays (session_in W fs policy) (handle_write request cap)"
  "stays (session_in W fs policy) (handle_remove request cap)"
  "stays (session_in W fs policy) (handle_mkdir request cap)"
  "stays (session_in W fs policy) (handle_rmdir request cap)"
  "stays (session_in W fs policy) (handle_rename request cap)"
  "stays (session_in W fs policy) (handle_extended request cap)"
  "stays (session_in W fs policy) (handle_init request cap)"
  unfolding handler_defs handle_init_def step_defs
  by (intro stays_intros; (use assms in \<open>auto simp: fs_op_def fs_keeps_def policy_keeps_def split: option.splits dest: alloc_handle_frame\<close>; fail)?)+


lemma handle_packet_stays:
  assumes "\<And>f. fs = Some f \<Longrightarrow> fs_keeps W f" "policy_keeps W policy"
  shows "stays (session_in W fs policy) (sftp_server_handle_packet request cap)"
  unfolding sftp_server_handle_packet_def
  by (intro stays_intros handlers_stay path_attrs_stay assms) simp_all

lemma close_entries_stay:
  assumes "\<And>f. fs = Some f \<Longrightarrow> fs_keeps W f" "policy_keeps W policy"
  shows "stays (session_in W fs policy) (close_entries indices)"
proof (induction indices)
  case (Cons i indices)
  have "stays (session_in W fs policy) (close_entry i)"
    using assms by (rule handlers_stay)
  with Cons show ?case
    unfolding close_entries.simps by (intro stays_intros)
qed (simp add: stays_def)

lemma close_entries_ok: "fst (close_entries indices \<sigma>) = Inr ()"
  by (induction indices arbitrary: \<sigma>) (auto simp: retA_def sesA_def tryA_def split: prod.splits sum.splits)

lemma deinit_ok: "fst (sftp_server_session_deinit \<sigma>) = Inr ()"
  using close_entries_ok [of "[0..<EMSSH_SFTP_MAX_HANDLES]" \<sigma>]
  by (auto simp: sftp_server_session_deinit_def thenA_def bindA_def putA_def split: prod.splits sum.splits)

lemma deinit_stays:
  assumes "\<And>f. ses_fs session = Some f \<Longrightarrow> fs_keeps W f" "policy_keeps W (ses_policy session)" "W w"
  shows "W (snd (snd (sftp_server_session_deinit (session, w))))"
proof -
  have "session_in W (ses_fs session) (ses_policy session) (snd (close_entries [0..<EMSSH_SFTP_MAX_HANDLES] (session, w)))"
    using close_entries_stay [OF assms(1,2), where indices = "[0..<EMSSH_SFTP_MAX_HANDLES]"] assms(3) by (simp add: stays_def session_in_def)
  then show ?thesis
    by (auto simp: sftp_server_session_deinit_def thenA_def bindA_def putA_def session_in_def split: prod.splits sum.splits)
qed

end
