(* ===== verification/Emssh_Proc.thy ===== *)
theory Emssh_Proc
  imports Emssh_Prelude
begin

text \<open>
  Procedures: actions that may not return. The transport reads from a network connection in a loop without a bound, so a C
  function above it is \<open>s \<Rightarrow> ((ssh_err + 'a) \<times> s) option\<close>, with \<open>None\<close> for a call that never returns. Bounded
  \<^verbatim>\<open>for\<close> loops are \<open>forP\<close>, unbounded \<^verbatim>\<open>while\<close> loops are \<open>loopP\<close>, the only partial function of the development.

  The second part is one weakest-precondition predicate for both readings: \<open>wp True\<close> is partial correctness, \<open>wp False\<close>
  also says that the procedure returns. The rules are in the collection \<open>wpP_intros\<close>.
\<close>

section \<open>Combinators\<close>

type_synonym ('s, 'a) proc = "'s \<Rightarrow> ((ssh_err + 'a) \<times> 's) option"

definition actP :: "('s, 'a) act \<Rightarrow> ('s, 'a) proc" where
  "actP m s = Some (m s)"

definition retP :: "'a \<Rightarrow> ('s, 'a) proc" where
  "retP x s = Some (Inr x, s)"

definition failP :: "ssh_err \<Rightarrow> ('s, 'a) proc" where
  "failP e s = Some (Inl e, s)"

text \<open>A call without effect on the state.\<close>

definition valueP :: "ssh_err + 'a \<Rightarrow> ('s, 'a) proc" where
  "valueP r s = Some (r, s)"

definition bindP :: "('s, 'a) proc \<Rightarrow> ('a \<Rightarrow> ('s, 'b) proc) \<Rightarrow> ('s, 'b) proc" where
  "bindP m f s = (case m s of None \<Rightarrow> None | Some (r, t) \<Rightarrow> (case r of Inl e \<Rightarrow> Some (Inl e, t) | Inr x \<Rightarrow> f x t))"

definition thenP :: "('s, unit) proc \<Rightarrow> ('s, 'a) proc \<Rightarrow> ('s, 'a) proc" where
  "thenP m n = bindP m (\<lambda>_. n)"

text \<open>\<open>tryP m h k\<close> goes on with \<open>h\<close> after an error and with \<open>k\<close> after success; \<open>dropP m k\<close> is \<^verbatim>\<open>(void)m(); k\<close>.\<close>

definition tryP :: "('s, 'a) proc \<Rightarrow> (ssh_err \<Rightarrow> ('s, 'b) proc) \<Rightarrow> ('a \<Rightarrow> ('s, 'b) proc) \<Rightarrow> ('s, 'b) proc" where
  "tryP m h k s = (case m s of None \<Rightarrow> None | Some (r, t) \<Rightarrow> (case r of Inl e \<Rightarrow> h e t | Inr x \<Rightarrow> k x t))"

definition dropP :: "('s, 'a) proc \<Rightarrow> ('s, 'b) proc \<Rightarrow> ('s, 'b) proc" where
  "dropP m k = tryP m (\<lambda>_. k) (\<lambda>_. k)"

definition ensureP :: "bool \<Rightarrow> ssh_err \<Rightarrow> ('s, unit) proc" where
  "ensureP c e = (if c then retP () else failP e)"

definition whenP :: "bool \<Rightarrow> ('s, unit) proc \<Rightarrow> ('s, unit) proc" where
  "whenP c m = (if c then m else retP ())"

text \<open>\<open>askP\<close> reads the state, \<open>setP\<close> updates it.\<close>

definition askP :: "('s \<Rightarrow> ('s, 'a) proc) \<Rightarrow> ('s, 'a) proc" where
  "askP k s = k s s"

definition setP :: "('s \<Rightarrow> 's) \<Rightarrow> ('s, unit) proc" where
  "setP f s = Some (Inr (), f s)"

text \<open>\<open>onP\<close> runs a procedure on the second component of a state, \<open>onP_act\<close> an action.\<close>

definition onP :: "('s, 'a) proc \<Rightarrow> ('c \<times> 's, 'a) proc" where
  "onP m s = (case m (snd s) of None \<Rightarrow> None | Some (r, t) \<Rightarrow> Some (r, (fst s, t)))"

text \<open>\<^verbatim>\<open>for (i = 0; i < n; ++i) { ... }\<close> and what follows it: the body continues with \<open>Inl\<close> of the variables it carries,
  or returns with \<open>Inr\<close>.\<close>

fun forP :: "nat \<Rightarrow> ('x \<Rightarrow> ('s, 'a) proc) \<Rightarrow> ('x \<Rightarrow> ('s, 'x + 'a) proc) \<Rightarrow> 'x \<Rightarrow> ('s, 'a) proc" where
  "forP 0 after body x = after x"
| "forP (Suc n) after body x = bindP (body x) (\<lambda>r. case r of Inl y \<Rightarrow> forP n after body y | Inr a \<Rightarrow> retP a)"

text \<open>A loop without a bound.\<close>

partial_function (option) loopP :: "('x \<Rightarrow> ('s, 'x + 'a) proc) \<Rightarrow> 'x \<Rightarrow> 's \<Rightarrow> ((ssh_err + 'a) \<times> 's) option" where
  "loopP body x s = (case body x s of None \<Rightarrow> None | Some (r, t) \<Rightarrow> (case r of Inl e \<Rightarrow> Some (Inl e, t)
     | Inr c \<Rightarrow> (case c of Inl y \<Rightarrow> loopP body y t | Inr a \<Rightarrow> Some (Inr a, t))))"

lemma proc_apply [simp]:
  "actP m s = Some (m s)" "retP x s = Some (Inr x, s)" "failP e s = Some (Inl e, s)" "valueP r s = Some (r, s)"
  "setP f s = Some (Inr (), f s)" "askP k s = k s s"
  by (simp_all add: actP_def retP_def failP_def valueP_def setP_def askP_def)

lemma bindP_simps [simp]:
  "m s = None \<Longrightarrow> bindP m f s = None"
  "m s = Some (Inl e, t) \<Longrightarrow> bindP m f s = Some (Inl e, t)"
  "m s = Some (Inr x, t) \<Longrightarrow> bindP m f s = f x t"
  by (simp_all add: bindP_def)

lemma thenP_simps [simp]:
  "m s = None \<Longrightarrow> thenP m n s = None"
  "m s = Some (Inl e, t) \<Longrightarrow> thenP m n s = Some (Inl e, t)"
  "m s = Some (Inr u, t) \<Longrightarrow> thenP m n s = n t"
  by (simp_all add: thenP_def)

lemma tryP_simps [simp]:
  "m s = None \<Longrightarrow> tryP m h k s = None"
  "m s = Some (Inl e, t) \<Longrightarrow> tryP m h k s = h e t"
  "m s = Some (Inr x, t) \<Longrightarrow> tryP m h k s = k x t"
  by (simp_all add: tryP_def)

lemma ensureP_simps [simp]: "ensureP True e = retP ()" "ensureP False e = failP e"
  by (simp_all add: ensureP_def)

lemma whenP_simps [simp]: "whenP True m = m" "whenP False m = retP ()"
  by (simp_all add: whenP_def)

lemma bindP_ret [simp]: "bindP (retP x) f = f x"
  by (rule ext) simp

lemma thenP_ret [simp]: "thenP (retP ()) m = m"
  by (rule ext) simp

lemma bindP_fail [simp]: "bindP (failP e) f = failP e"
  by (rule ext) simp

lemma thenP_fail [simp]: "thenP (failP e) m = failP e"
  by (rule ext) simp

lemma bindP_eq_Some:
  "bindP m f s = Some (Inr y, t) \<longleftrightarrow> (\<exists>x s'. m s = Some (Inr x, s') \<and> f x s' = Some (Inr y, t))"
  by (auto simp: bindP_def split: option.splits prod.splits sum.splits)

lemma thenP_eq_Some:
  "thenP m n s = Some (Inr y, t) \<longleftrightarrow> (\<exists>s'. m s = Some (Inr (), s') \<and> n s' = Some (Inr y, t))"
  by (simp add: thenP_def bindP_eq_Some)

section \<open>Weakest preconditions\<close>

text \<open>\<open>wp N m E Q s\<close>: run from \<open>s\<close>, the procedure does not return (allowed when \<open>N\<close>), ends with an error and \<open>E\<close>, or ends
  with a value and \<open>Q\<close>.\<close>

definition wp :: "bool \<Rightarrow> ('s, 'a) proc \<Rightarrow> (ssh_err \<Rightarrow> 's \<Rightarrow> bool) \<Rightarrow> ('a \<Rightarrow> 's \<Rightarrow> bool) \<Rightarrow> 's \<Rightarrow> bool" where
  "wp N m E Q s \<longleftrightarrow> (case m s of None \<Rightarrow> N | Some (r, t) \<Rightarrow> (case r of Inl e \<Rightarrow> E e t | Inr x \<Rightarrow> Q x t))"

named_theorems wpP_intros \<open>weakest-precondition rules for procedures\<close>

lemma wp_actP: "(\<And>e t. m s = (Inl e, t) \<Longrightarrow> E e t) \<Longrightarrow> (\<And>x t. m s = (Inr x, t) \<Longrightarrow> Q x t) \<Longrightarrow> wp N (actP m) E Q s"
  by (cases "m s") (auto simp: wp_def split: sum.splits)

lemma wp_retP [wpP_intros]: "Q x s \<Longrightarrow> wp N (retP x) E Q s"
  by (simp add: wp_def)

lemma wp_failP [wpP_intros]: "E e s \<Longrightarrow> wp N (failP e) E Q s"
  by (simp add: wp_def)

lemma wp_valueP [wpP_intros]:
  "(\<And>e. r = Inl e \<Longrightarrow> E e s) \<Longrightarrow> (\<And>x. r = Inr x \<Longrightarrow> Q x s) \<Longrightarrow> wp N (valueP r) E Q s"
  by (cases r) (simp_all add: wp_def)

lemma wp_bindP [wpP_intros]: "wp N m E (\<lambda>x. wp N (f x) E Q) s \<Longrightarrow> wp N (bindP m f) E Q s"
  by (auto simp: wp_def bindP_def split: option.splits prod.splits sum.splits)

lemma wp_thenP [wpP_intros]: "wp N m E (\<lambda>_. wp N n E Q) s \<Longrightarrow> wp N (thenP m n) E Q s"
  unfolding thenP_def by (rule wp_bindP)

lemma wp_tryP [wpP_intros]: "wp N m (\<lambda>e. wp N (h e) E Q) (\<lambda>x. wp N (k x) E Q) s \<Longrightarrow> wp N (tryP m h k) E Q s"
  by (auto simp: wp_def tryP_def split: option.splits prod.splits sum.splits)

lemma wp_dropP [wpP_intros]: "wp N m (\<lambda>_. wp N k E Q) (\<lambda>_. wp N k E Q) s \<Longrightarrow> wp N (dropP m k) E Q s"
  unfolding dropP_def by (rule wp_tryP)

lemma wp_ensureP [wpP_intros]: "(c \<Longrightarrow> Q () s) \<Longrightarrow> (\<not> c \<Longrightarrow> E e s) \<Longrightarrow> wp N (ensureP c e) E Q s"
  by (simp add: wp_def ensureP_def)

lemma wp_whenP [wpP_intros]: "(c \<Longrightarrow> wp N m E Q s) \<Longrightarrow> (\<not> c \<Longrightarrow> Q () s) \<Longrightarrow> wp N (whenP c m) E Q s"
  by (simp add: wp_def whenP_def)

lemma wp_askP [wpP_intros]: "wp N (k s) E Q s \<Longrightarrow> wp N (askP k) E Q s"
  by (simp add: wp_def)

lemma wp_setP [wpP_intros]: "Q () (f s) \<Longrightarrow> wp N (setP f) E Q s"
  by (simp add: wp_def)

lemma wp_onP: "wp N m (\<lambda>e t. E e (fst s, t)) (\<lambda>x t. Q x (fst s, t)) (snd s) \<Longrightarrow> wp N (onP m) E Q s"
  by (auto simp: wp_def onP_def split: option.splits prod.splits sum.splits)

lemma wpP_if [wpP_intros]: "(c \<Longrightarrow> wp N m E Q s) \<Longrightarrow> (\<not> c \<Longrightarrow> wp N n E Q s) \<Longrightarrow> wp N (if c then m else n) E Q s"
  by simp

lemma wpP_option [wpP_intros]:
  "(x = None \<Longrightarrow> wp N m E Q s) \<Longrightarrow> (\<And>y. x = Some y \<Longrightarrow> wp N (n y) E Q s) \<Longrightarrow>
   wp N (case x of None \<Rightarrow> m | Some y \<Rightarrow> n y) E Q s"
  by (cases x) simp_all

lemma wpP_prod [wpP_intros]: "(\<And>a b. x = (a, b) \<Longrightarrow> wp N (f a b) E Q s) \<Longrightarrow> wp N (case x of (a, b) \<Rightarrow> f a b) E Q s"
  by (cases x) simp

lemma wpP_sum [wpP_intros]:
  "(\<And>y. x = Inl y \<Longrightarrow> wp N (f y) E Q s) \<Longrightarrow> (\<And>y. x = Inr y \<Longrightarrow> wp N (g y) E Q s) \<Longrightarrow>
   wp N (case x of Inl y \<Rightarrow> f y | Inr y \<Rightarrow> g y) E Q s"
  by (cases x) simp_all

lemma wpP_let [wpP_intros]: "wp N (f x) E Q s \<Longrightarrow> wp N (let y = x in f y) E Q s"
  by simp

lemma wpP_mono:
  "wp N m E Q s \<Longrightarrow> (\<And>e t. E e t \<Longrightarrow> E' e t) \<Longrightarrow> (\<And>x t. Q x t \<Longrightarrow> Q' x t) \<Longrightarrow> (N \<Longrightarrow> N') \<Longrightarrow> wp N' m E' Q' s"
  by (auto simp: wp_def split: option.splits prod.splits sum.splits)

lemma wpP_conj:
  "wp N m E Q s \<Longrightarrow> wp M m E' Q' s \<Longrightarrow> wp (N \<and> M) m (\<lambda>e t. E e t \<and> E' e t) (\<lambda>x t. Q x t \<and> Q' x t) s"
  by (auto simp: wp_def split: option.splits prod.splits sum.splits)

lemma wpP_Inr: "wp N m E Q s \<Longrightarrow> m s = Some (Inr x, t) \<Longrightarrow> Q x t"
  by (simp add: wp_def)

lemma wpP_Inl: "wp N m E Q s \<Longrightarrow> m s = Some (Inl e, t) \<Longrightarrow> E e t"
  by (simp add: wp_def)

lemma wpP_returns: "wp False m E Q s \<Longrightarrow> m s \<noteq> None"
  by (auto simp: wp_def split: option.splits)

lemma wpP_I:
  "(\<And>e t. m s = Some (Inl e, t) \<Longrightarrow> E e t) \<Longrightarrow> (\<And>x t. m s = Some (Inr x, t) \<Longrightarrow> Q x t) \<Longrightarrow> (m s = None \<Longrightarrow> N) \<Longrightarrow> wp N m E Q s"
  by (auto simp: wp_def split: option.splits prod.splits sum.splits)

section \<open>Loops\<close>

lemma wp_forP:
  assumes body: "\<And>x s. I x s \<Longrightarrow> wp N (body x) E (\<lambda>r t. case r of Inl y \<Rightarrow> I y t | Inr a \<Rightarrow> Q a t) s"
    and last: "\<And>x s. I x s \<Longrightarrow> wp N (after x) E Q s" and start: "I x s"
  shows "wp N (forP n after body x) E Q s"
  using start
proof (induction n arbitrary: x s)
  case 0
  then show ?case
    unfolding forP.simps by (rule last)
next
  case (Suc n)
  show ?case
    unfolding forP.simps
    by (rule wp_bindP, rule wpP_mono [OF body [OF Suc.prems]])
      (auto split: sum.splits intro: wp_retP Suc.IH)
qed

lemma loopP_induct:
  assumes "loopP body x s = Some r"
    and "\<And>f body x s r. (\<And>body x s r. f body x s = Some r \<Longrightarrow> P body x s r) \<Longrightarrow>
      (case body x s of None \<Rightarrow> None | Some (r, t) \<Rightarrow> (case r of Inl e \<Rightarrow> Some (Inl e, t)
        | Inr c \<Rightarrow> (case c of Inl y \<Rightarrow> f body y t | Inr a \<Rightarrow> Some (Inr a, t)))) = Some r \<Longrightarrow> P body x s r"
  shows "P body x s r"
  using loopP.raw_induct [of P "((body, x), s)" r, unfolded prod.case] assms by blast

lemma wp_loopP:
  assumes body: "\<And>x s. I x s \<Longrightarrow> wp True (body x) E (\<lambda>r t. case r of Inl y \<Rightarrow> I y t | Inr a \<Rightarrow> Q a t) s"
    and start: "I x s"
  shows "wp True (loopP body x) E Q s"
proof -
  let ?P = "\<lambda>r. case fst r of Inl e \<Rightarrow> E e (snd r) | Inr a \<Rightarrow> Q a (snd r)"
  have "body = body \<longrightarrow> I x s \<longrightarrow> ?P r" if "loopP body x s = Some r" for r
    using that
  proof (rule loopP_induct [where P = "\<lambda>b x s r. b = body \<longrightarrow> I x s \<longrightarrow> ?P r"], intro impI)
    fix f b x s r
    assume IH: "\<And>b x s r. f b x s = Some r \<Longrightarrow> b = body \<longrightarrow> I x s \<longrightarrow> ?P r"
      and eq: "(case b x s of None \<Rightarrow> None | Some (r, t) \<Rightarrow> (case r of Inl e \<Rightarrow> Some (Inl e, t)
        | Inr c \<Rightarrow> (case c of Inl y \<Rightarrow> f b y t | Inr a \<Rightarrow> Some (Inr a, t)))) = Some r"
      and b: "b = body" and I: "I x s"
    show "?P r"
    proof (cases "body x s")
      case (Some rt)
      then obtain c t where "body x s = Some (c, t)" by (cases rt) simp
      then show ?thesis
        using body [OF I] eq IH [of body _ t r] b by (cases c) (auto simp: wp_def split: sum.splits)
    qed (use eq b in simp)
  qed
  with start show ?thesis
    by (auto simp: wp_def split: option.splits prod.splits sum.splits)
qed

lemma loopP_unfold: "loopP body x s = bindP (body x) (\<lambda>r. case r of Inl y \<Rightarrow> loopP body y | Inr a \<Rightarrow> retP a) s"
  by (subst loopP.simps) (auto simp: bindP_def split: option.splits prod.splits sum.splits)

text \<open>Total correctness: the body makes the carried variables and the state smaller in a well-founded order.\<close>

lemma wp_loopP_wf:
  assumes wf: "wf R"
    and body: "\<And>x s. I x s \<Longrightarrow> wp False (body x) E (\<lambda>r t. case r of Inl y \<Rightarrow> I y t \<and> ((y, t), (x, s)) \<in> R | Inr a \<Rightarrow> Q a t) s"
    and start: "I x s"
  shows "wp False (loopP body x) E Q s"
  using wf start
proof (induction "(x, s)" arbitrary: x s)
  case less
  have "wp False (loopP body y) E Q t" if "I y t" "((y, t), (x, s)) \<in> R" for y t
    using less that by blast
  then have "wp False (bindP (body x) (\<lambda>r. case r of Inl y \<Rightarrow> loopP body y | Inr a \<Rightarrow> retP a)) E Q s"
    by (intro wp_bindP wpP_mono [OF body [OF less.prems]]) (auto split: sum.splits intro: wp_retP)
  then show ?case
    by (simp add: wp_def loopP_unfold [symmetric])
qed

lemma wp_loopP_total:
  fixes \<mu> :: "'x \<Rightarrow> 's \<Rightarrow> nat"
  assumes "\<And>x s. I x s \<Longrightarrow> wp False (body x) E (\<lambda>r t. case r of Inl y \<Rightarrow> I y t \<and> \<mu> y t < \<mu> x s | Inr a \<Rightarrow> Q a t) s"
    and "I x s"
  shows "wp False (loopP body x) E Q s"
  using assms by (intro wp_loopP_wf [where R = "measure (\<lambda>(x, s). \<mu> x s)" and I = I]) (auto cong: sum.case_cong)

section \<open>Invariants\<close>

text \<open>\<open>keeps N I m P\<close>: from a state with \<open>I\<close> the procedure ends in one with \<open>I\<close>, also after an error, and its value has \<open>P\<close>;
  with \<open>N\<close> false it returns. The collection \<open>keeps_intros\<close> proves it for a procedure from the calls it makes.\<close>

definition keeps :: "bool \<Rightarrow> ('s \<Rightarrow> bool) \<Rightarrow> ('s, 'a) proc \<Rightarrow> ('a \<Rightarrow> bool) \<Rightarrow> bool" where
  "keeps N I m P \<longleftrightarrow> (\<forall>s. I s \<longrightarrow> wp N m (\<lambda>_. I) (\<lambda>x t. I t \<and> P x) s)"

named_theorems keeps_intros \<open>rules that prove an invariant of a procedure\<close>

lemma keepsI: "(\<And>s. I s \<Longrightarrow> wp N m (\<lambda>_. I) (\<lambda>x t. I t \<and> P x) s) \<Longrightarrow> keeps N I m P"
  by (simp add: keeps_def)

lemma keepsD: "keeps N I m P \<Longrightarrow> I s \<Longrightarrow> wp N m (\<lambda>_. I) (\<lambda>x t. I t \<and> P x) s"
  by (simp add: keeps_def)

lemma keeps_Some: "keeps N I m P \<Longrightarrow> I s \<Longrightarrow> m s = Some (r, t) \<Longrightarrow> I t"
  by (drule (1) keepsD) (cases r; simp add: wp_def)

lemma keeps_mono: "keeps N I m P \<Longrightarrow> (\<And>x. P x \<Longrightarrow> Q x) \<Longrightarrow> keeps N I m Q"
  unfolding keeps_def by (blast intro: wpP_mono)

lemma keeps_retP [keeps_intros]: "P x \<Longrightarrow> keeps N I (retP x) P"
  by (intro keepsI wp_retP) simp

lemma keeps_failP [keeps_intros]: "keeps N I (failP e) P"
  by (intro keepsI wp_failP)

lemma keeps_valueP [keeps_intros]: "(\<And>x. r = Inr x \<Longrightarrow> P x) \<Longrightarrow> keeps N I (valueP r) P"
  by (intro keepsI wp_valueP) simp_all

lemma keeps_valueP_eq: "keeps N I (valueP r) (\<lambda>x. r = Inr x)"
  by (rule keeps_valueP)

lemma keeps_bindP: "keeps N I m P \<Longrightarrow> (\<And>x. P x \<Longrightarrow> keeps N I (f x) Q) \<Longrightarrow> keeps N I (bindP m f) Q"
  by (rule keepsI, rule wp_bindP, rule wpP_mono, erule (1) keepsD) (auto dest: keepsD)

lemma keeps_thenP [keeps_intros]: "keeps N I m (\<lambda>_. True) \<Longrightarrow> keeps N I n Q \<Longrightarrow> keeps N I (thenP m n) Q"
  unfolding thenP_def by (rule keeps_bindP)

lemma keeps_bind_value [keeps_intros]: "(\<And>x. r = Inr x \<Longrightarrow> keeps N I (f x) Q) \<Longrightarrow> keeps N I (bindP (valueP r) f) Q"
  by (rule keeps_bindP [OF keeps_valueP_eq])

lemma keeps_tryP: "keeps N I m P \<Longrightarrow> (\<And>e. keeps N I (h e) Q) \<Longrightarrow> (\<And>x. P x \<Longrightarrow> keeps N I (k x) Q) \<Longrightarrow> keeps N I (tryP m h k) Q"
  by (rule keepsI, rule wp_tryP, rule wpP_mono, erule (1) keepsD) (blast dest: keepsD)+

lemma keeps_dropP [keeps_intros]: "keeps N I m (\<lambda>_. True) \<Longrightarrow> keeps N I k Q \<Longrightarrow> keeps N I (dropP m k) Q"
  unfolding dropP_def by (rule keeps_tryP)

lemma keeps_then_check [keeps_intros]: "(c \<Longrightarrow> keeps N I m Q) \<Longrightarrow> keeps N I (thenP (ensureP c e) m) Q"
  by (cases c) (simp_all add: keeps_failP)

lemma keeps_ensureP [keeps_intros]: "P () \<Longrightarrow> keeps N I (ensureP c e) P"
  by (simp add: ensureP_def keeps_retP keeps_failP)

lemma keeps_whenP [keeps_intros]: "P () \<Longrightarrow> (c \<Longrightarrow> keeps N I m P) \<Longrightarrow> keeps N I (whenP c m) P"
  by (simp add: whenP_def keeps_retP)

lemma keeps_askP: "(\<And>s. I s \<Longrightarrow> keeps N I (k s) P) \<Longrightarrow> keeps N I (askP k) P"
  by (rule keepsI, rule wp_askP) (blast dest: keepsD)

lemma keeps_setP: "P () \<Longrightarrow> (\<And>s. I s \<Longrightarrow> I (f s)) \<Longrightarrow> keeps N I (setP f) P"
  by (intro keepsI wp_setP) simp

lemma keeps_if [keeps_intros]: "(c \<Longrightarrow> keeps N I m P) \<Longrightarrow> (\<not> c \<Longrightarrow> keeps N I n P) \<Longrightarrow> keeps N I (if c then m else n) P"
  by simp

lemma keeps_option [keeps_intros]:
  "(x = None \<Longrightarrow> keeps N I m P) \<Longrightarrow> (\<And>y. x = Some y \<Longrightarrow> keeps N I (f y) P) \<Longrightarrow> keeps N I (case x of None \<Rightarrow> m | Some y \<Rightarrow> f y) P"
  by (cases x) simp_all

lemma keeps_prod [keeps_intros]: "(\<And>a b. x = (a, b) \<Longrightarrow> keeps N I (f a b) P) \<Longrightarrow> keeps N I (case x of (a, b) \<Rightarrow> f a b) P"
  by (cases x) simp

lemma keeps_sum [keeps_intros]:
  "(\<And>a. x = Inl a \<Longrightarrow> keeps N I (f a) P) \<Longrightarrow> (\<And>b. x = Inr b \<Longrightarrow> keeps N I (g b) P) \<Longrightarrow>
   keeps N I (case x of Inl a \<Rightarrow> f a | Inr b \<Rightarrow> g b) P"
  by (cases x) simp_all

lemma keeps_let [keeps_intros]: "keeps N I (f x) P \<Longrightarrow> keeps N I (let y = x in f y) P"
  by simp

lemma keeps_forP:
  assumes "\<And>x. J x \<Longrightarrow> keeps N I (body x) (\<lambda>r. case r of Inl y \<Rightarrow> J y | Inr a \<Rightarrow> P a)"
    and "\<And>x. J x \<Longrightarrow> keeps N I (after x) P" and "J x"
  shows "keeps N I (forP n after body x) P"
proof (rule keepsI)
  fix s assume "I s"
  with assms(3) have "I s \<and> J x" by simp
  then show "wp N (forP n after body x) (\<lambda>_. I) (\<lambda>x t. I t \<and> P x) s"
  proof (rule wp_forP [where I = "\<lambda>x t. I t \<and> J x", rotated 2])
    show "wp N (body x) (\<lambda>_. I) (\<lambda>r t. case r of Inl y \<Rightarrow> I t \<and> J y | Inr a \<Rightarrow> I t \<and> P a) s" if "I s \<and> J x" for x s
      using keepsD [OF assms(1), of x s] that by (auto elim!: wpP_mono split: sum.splits)
    show "wp N (after x) (\<lambda>_. I) (\<lambda>x t. I t \<and> P x) s" if "I s \<and> J x" for x s
      using keepsD [OF assms(2), of x s] that by auto
  qed
qed

lemma keeps_loopP:
  assumes "\<And>x. J x \<Longrightarrow> keeps True I (body x) (\<lambda>r. case r of Inl y \<Rightarrow> J y | Inr a \<Rightarrow> P a)" and "J x"
  shows "keeps True I (loopP body x) P"
proof (rule keepsI)
  fix s assume "I s"
  with assms(2) have "I s \<and> J x" by simp
  then show "wp True (loopP body x) (\<lambda>_. I) (\<lambda>x t. I t \<and> P x) s"
  proof (rule wp_loopP [where I = "\<lambda>x t. I t \<and> J x", rotated])
    show "wp True (body x) (\<lambda>_. I) (\<lambda>r t. case r of Inl y \<Rightarrow> I t \<and> J y | Inr a \<Rightarrow> I t \<and> P a) s" if "I s \<and> J x" for x s
      using keepsD [OF assms(1), of x s] that by (auto elim!: wpP_mono split: sum.splits)
  qed
qed

lemma keeps_onP: "(\<And>c. keeps N (\<lambda>s. I (c, s)) m P) \<Longrightarrow> keeps N I (onP m) P"
  by (rule keepsI, rule wp_onP, rule wpP_mono, rule keepsD) auto

end
