(* ===== verification/Ssh_Userauth.thy ===== *)
theory Ssh_Userauth
  imports Ssh_Service Ssh_Packet
begin

text \<open>
  User authentication: \<^verbatim>\<open>src/core/ssh_userauth.c\<close>. Messages, the server's login policy
  (\<^verbatim>\<open>AllowUsers\<close> patterns and \<^verbatim>\<open>PermitRootLogin\<close>), password and public key authentication and the
  decision on a request.

  The authentication callbacks of \<^verbatim>\<open>ssh_server_config_t\<close> are predicates on the request they are
  called with, \<open>None\<close> for NULL. \<^verbatim>\<open>ssh_crypto_publickey_signature_algorithms()\<close>, which the crypto
  backend linked into the program defines, is the argument \<open>backend_algorithms\<close>.
\<close>

definition SSH_MSG_USERAUTH_REQUEST :: u8 where "SSH_MSG_USERAUTH_REQUEST = 50"
definition SSH_MSG_USERAUTH_FAILURE :: u8 where "SSH_MSG_USERAUTH_FAILURE = 51"
definition SSH_MSG_USERAUTH_SUCCESS :: u8 where "SSH_MSG_USERAUTH_SUCCESS = 52"
definition SSH_MSG_USERAUTH_PK_OK :: u8 where "SSH_MSG_USERAUTH_PK_OK = 60"
definition SSH_AUTH_METHOD_NONE :: "u8 list" where "SSH_AUTH_METHOD_NONE = lit ''none''"
definition SSH_AUTH_METHOD_PASSWORD :: "u8 list" where "SSH_AUTH_METHOD_PASSWORD = lit ''password''"
definition SSH_AUTH_METHOD_PUBLICKEY :: "u8 list" where "SSH_AUTH_METHOD_PUBLICKEY = lit ''publickey''"
definition EMSSH_MAX_USERAUTH_PAYLOAD :: nat where "EMSSH_MAX_USERAUTH_PAYLOAD = 2048"
definition EMSSH_MAX_EXCHANGE_HASH :: nat where "EMSSH_MAX_EXCHANGE_HASH = 64"
definition EMSSH_PERMIT_ROOT_LOGIN_DEFAULT :: int where "EMSSH_PERMIT_ROOT_LOGIN_DEFAULT = 0"
definition EMSSH_PERMIT_ROOT_LOGIN_NO :: int where "EMSSH_PERMIT_ROOT_LOGIN_NO = 1"
definition EMSSH_PERMIT_ROOT_LOGIN_YES :: int where "EMSSH_PERMIT_ROOT_LOGIN_YES = 2"
definition EMSSH_PERMIT_ROOT_LOGIN_PROHIBIT_PASSWORD :: int where "EMSSH_PERMIT_ROOT_LOGIN_PROHIBIT_PASSWORD = 3"

lemmas root_login_modes = EMSSH_PERMIT_ROOT_LOGIN_DEFAULT_def EMSSH_PERMIT_ROOT_LOGIN_NO_def
  EMSSH_PERMIT_ROOT_LOGIN_YES_def EMSSH_PERMIT_ROOT_LOGIN_PROHIBIT_PASSWORD_def

record ssh_password_auth_request =
  pwr_username :: view
  pwr_service_name :: view
  pwr_password :: view

record ssh_publickey_auth_request =
  pkr_username :: view
  pkr_service_name :: view
  pkr_algorithm :: view
  pkr_publickey_blob :: view

record ssh_server_config =
  cfg_software_name :: cstr
  cfg_max_packet_size :: nat
  cfg_max_payload_size :: nat
  cfg_max_auth_tries :: nat
  cfg_listen_address :: cstr
  cfg_password_auth :: "(ssh_password_auth_request \<Rightarrow> bool) option"
  cfg_publickey_auth :: "(ssh_publickey_auth_request \<Rightarrow> bool) option"
  cfg_publickey_signature_algorithms :: cstr
  cfg_permit_root_login :: int
  cfg_allow_users :: cstr
  cfg_authorized_keys_file :: cstr

record ssh_server =
  srv_crypto :: "ssh_crypto_api option"
  srv_config :: ssh_server_config

record ssh_userauth_request =
  ua_username :: view
  ua_service_name :: view
  ua_method_name :: view
  ua_password_change_request :: bool
  ua_password :: view
  ua_publickey_has_signature :: bool
  ua_publickey_algorithm :: view
  ua_publickey_blob :: view
  ua_publickey_signature :: view

datatype ssh_userauth_decision =
    SSH_USERAUTH_DECISION_FAILURE
  | SSH_USERAUTH_DECISION_SUCCESS
  | SSH_USERAUTH_DECISION_PK_OK

section \<open>Login policy\<close>

text \<open>The loop of \<^verbatim>\<open>name_list_contains_view\<close> on the characters from \<^verbatim>\<open>p\<close> on.\<close>

function name_list_view_loop :: "u8 list \<Rightarrow> u8 list \<Rightarrow> bool" where
  "name_list_view_loop p name =
     (if p = [] then False
      else let token = takeWhile (\<lambda>c. c \<noteq> comma) p; p = dropWhile (\<lambda>c. c \<noteq> comma) p
      in if length token = length name \<and> token = name then True
      else name_list_view_loop (case p of [] \<Rightarrow> [] | _ # p \<Rightarrow> p) name)"
  by pat_completeness auto
termination
proof (relation "measure (length \<circ> fst)", goal_cases)
  case (2 p name x xa)
  have "length (dropWhile (\<lambda>c. c \<noteq> comma) p) \<le> length p"
    by (rule length_dropWhile_le)
  with 2 show ?case
    by (cases "dropWhile (\<lambda>c. c \<noteq> comma) p") auto
qed simp

declare name_list_view_loop.simps [simp del]

definition name_list_contains_view :: "cstr \<Rightarrow> view \<Rightarrow> bool" where
  "name_list_contains_view name_list name =
     (case (name_list, name) of (Some l, Some n) \<Rightarrow> if length n = 0 then False else name_list_view_loop l n
      | _ \<Rightarrow> False)"

definition is_separator_char :: "u8 \<Rightarrow> bool" where
  "is_separator_char ch \<longleftrightarrow> ch = 32 \<or> ch = 9 \<or> ch = comma"

definition username_is_root :: "view \<Rightarrow> bool" where
  "username_is_root username = view_eq username (lit ''root'')"

definition star :: u8 where "star = 42"
definition question :: u8 where "question = 63"
definition at_sign :: u8 where "at_sign = 64"

text \<open>The wildcard loop with its variables \<^verbatim>\<open>p\<close>, \<^verbatim>\<open>u\<close>, \<^verbatim>\<open>star_p\<close> (\<open>None\<close> for \<^verbatim>\<open>(size_t)-1\<close>) and \<^verbatim>\<open>star_u\<close>.
  That it ends is the lemma \<open>pattern_loop_total\<close> below.\<close>

partial_function (option) pattern_loop :: "u8 list \<Rightarrow> u8 list \<Rightarrow> nat \<Rightarrow> nat \<Rightarrow> nat option \<Rightarrow> nat \<Rightarrow> bool option" where
  [code]: "pattern_loop pattern username p u star_p star_u =
    (if u < length username then
       if p < length pattern \<and> (pattern ! p = question \<or> pattern ! p = username ! u)
       then pattern_loop pattern username (p + 1) (u + 1) star_p star_u
       else if p < length pattern \<and> pattern ! p = star
       then pattern_loop pattern username (p + 1) u (Some (p + 1)) u
       else (case star_p of
         Some sp \<Rightarrow> pattern_loop pattern username sp (star_u + 1) star_p (star_u + 1)
       | None \<Rightarrow> Some False)
     else Some (p + length (takeWhile (\<lambda>c. c = star) (drop p pattern)) = length pattern))"

definition username_pattern_matches :: "u8 list \<Rightarrow> u8 list \<Rightarrow> bool" where
  "username_pattern_matches pattern username = (pattern_loop pattern username 0 0 None 0 = Some True)"

text \<open>The tokens of \<^verbatim>\<open>allow_users\<close>, on the characters from \<^verbatim>\<open>p\<close> on. The part of a token from an \<^verbatim>\<open>@\<close> on is
  dropped.\<close>

function allow_users_loop :: "u8 list \<Rightarrow> u8 list \<Rightarrow> bool" where
  "allow_users_loop p username =
     (let p = dropWhile is_separator_char p in
      if p = [] then False
      else let token = takeWhile (\<lambda>c. \<not> is_separator_char c) p;
               p = dropWhile (\<lambda>c. \<not> is_separator_char c) p;
               token = takeWhile (\<lambda>c. c \<noteq> at_sign) token
      in if token \<noteq> [] \<and> username_pattern_matches token username then True
      else allow_users_loop p username)"
  by pat_completeness auto
termination
proof (relation "measure (length \<circ> fst)", goal_cases)
  case (2 p username p' token p'' token')
  have "p' \<noteq> []" "\<not> is_separator_char (hd p')" "length p' \<le> length p"
    using 2(2) hd_dropWhile [of is_separator_char p] unfolding 2(1) by (auto simp: length_dropWhile_le)
  moreover from this have "length p'' < length p'"
    unfolding 2(4) by (intro length_dropWhile_hd)
  ultimately show ?case
    by simp
qed simp

declare allow_users_loop.simps [simp del]

definition username_allowed_by_allow_users :: "cstr \<Rightarrow> view \<Rightarrow> bool" where
  "username_allowed_by_allow_users allow_users username =
     (if allow_users = None \<or> allow_users = Some [] then True
      else if username = None \<or> view_len username = 0 then False
      else allow_users_loop (view_data allow_users) (view_data username))"

definition request_allowed_by_server_policy :: "ssh_server \<Rightarrow> ssh_userauth_request \<Rightarrow> bool" where
  "request_allowed_by_server_policy server request =
     (if \<not> username_allowed_by_allow_users (cfg_allow_users (srv_config server)) (ua_username request) then False
      else if username_is_root (ua_username request) then
        let mode = cfg_permit_root_login (srv_config server);
            mode = (if mode = EMSSH_PERMIT_ROOT_LOGIN_DEFAULT then EMSSH_PERMIT_ROOT_LOGIN_PROHIBIT_PASSWORD else mode)
        in if mode = EMSSH_PERMIT_ROOT_LOGIN_NO then False
           else if mode = EMSSH_PERMIT_ROOT_LOGIN_PROHIBIT_PASSWORD \<and>
             view_eq (ua_method_name request) SSH_AUTH_METHOD_PASSWORD then False
           else True
      else True)"

section \<open>Messages\<close>

text \<open>The array \<^verbatim>\<open>methods\<close> holds the characters written so far and a NUL.\<close>

definition append_method_name :: "nat \<Rightarrow> u8 list \<Rightarrow> (u8 list, unit) act" where
  "append_method_name capacity name methods =
     (if length methods \<noteq> 0 \<and> length methods + 1 \<ge> capacity then (Inl SSH_ERR_BUFFER_TOO_SMALL, methods)
      else let methods = (if length methods \<noteq> 0 then methods @ [comma] else methods)
      in if length methods + length name \<ge> capacity then (Inl SSH_ERR_BUFFER_TOO_SMALL, methods)
      else (Inr (), methods @ name))"

definition ssh_userauth_failure_methods :: "ssh_server \<Rightarrow> nat \<Rightarrow> ssh_err + u8 list" where
  "ssh_userauth_failure_methods server methods_capacity =
     (if methods_capacity = 0 then Inl SSH_ERR_INVALID_ARGUMENT
      else case thenA (if cfg_publickey_auth (srv_config server) \<noteq> None
                       then append_method_name methods_capacity SSH_AUTH_METHOD_PUBLICKEY else retA ())
                     (if cfg_password_auth (srv_config server) \<noteq> None
                      then append_method_name methods_capacity SSH_AUTH_METHOD_PASSWORD else retA ()) [] of
        (Inl e, _) \<Rightarrow> Inl e
      | (Inr _, methods) \<Rightarrow> Inr methods)"

definition ssh_userauth_request_none_encode :: "cstr \<Rightarrow> cstr \<Rightarrow> (ssh_buffer, unit) act" where
  "ssh_userauth_request_none_encode username service_name =
     thenA (ensureA (username \<noteq> None \<and> service_name \<noteq> None) SSH_ERR_INVALID_ARGUMENT)
     (thenA (ssh_buffer_put_u8 SSH_MSG_USERAUTH_REQUEST)
     (thenA (ssh_buffer_put_cstring username)
     (thenA (ssh_buffer_put_cstring service_name)
     (ssh_buffer_put_cstring (Some SSH_AUTH_METHOD_NONE)))))"

definition ssh_userauth_request_password_encode :: "cstr \<Rightarrow> cstr \<Rightarrow> cstr \<Rightarrow> (ssh_buffer, unit) act" where
  "ssh_userauth_request_password_encode username service_name password =
     thenA (ensureA (username \<noteq> None \<and> service_name \<noteq> None \<and> password \<noteq> None) SSH_ERR_INVALID_ARGUMENT)
     (thenA (ssh_buffer_put_u8 SSH_MSG_USERAUTH_REQUEST)
     (thenA (ssh_buffer_put_cstring username)
     (thenA (ssh_buffer_put_cstring service_name)
     (thenA (ssh_buffer_put_cstring (Some SSH_AUTH_METHOD_PASSWORD))
     (thenA (ssh_buffer_put_bool False)
     (ssh_buffer_put_cstring password))))))"

definition empty_userauth_request :: ssh_userauth_request where
  "empty_userauth_request = \<lparr>ua_username = None, ua_service_name = None, ua_method_name = None,
     ua_password_change_request = False, ua_password = None, ua_publickey_has_signature = False,
     ua_publickey_algorithm = None, ua_publickey_blob = None, ua_publickey_signature = None\<rparr>"

text \<open>The part of \<^verbatim>\<open>ssh_userauth_request_decode\<close> after the method name. The fields of an unknown method
  stay unread.\<close>

definition decode_method_fields :: "ssh_userauth_request \<Rightarrow> (ssh_buffer, ssh_userauth_request) act" where
  "decode_method_fields request =
     (if view_eq (ua_method_name request) SSH_AUTH_METHOD_NONE then
        thenA (at_endA SSH_ERR_MALFORMED_PACKET) (retA request)
      else if view_eq (ua_method_name request) SSH_AUTH_METHOD_PASSWORD then
        bindA ssh_buffer_get_bool (\<lambda>password_change_request.
        bindA ssh_buffer_get_string_view (\<lambda>password.
        thenA (at_endA SSH_ERR_MALFORMED_PACKET)
        (retA (request\<lparr>ua_password_change_request := password_change_request, ua_password := password\<rparr>))))
      else if view_eq (ua_method_name request) SSH_AUTH_METHOD_PUBLICKEY then
        bindA ssh_buffer_get_bool (\<lambda>has_signature.
        bindA ssh_buffer_get_string_view (\<lambda>algorithm.
        bindA ssh_buffer_get_string_view (\<lambda>blob.
        thenA (ensureA (\<not> (view_len algorithm = 0 \<or> view_len blob = 0)) SSH_ERR_MALFORMED_PACKET) (
        bindA (if has_signature then
                 bindA ssh_buffer_get_string_view (\<lambda>signature.
                 thenA (ensureA (view_len signature \<noteq> 0) SSH_ERR_MALFORMED_PACKET) (retA signature))
               else retA None) (\<lambda>signature.
        thenA (at_endA SSH_ERR_MALFORMED_PACKET)
        (retA (request\<lparr>ua_publickey_has_signature := has_signature, ua_publickey_algorithm := algorithm,
                 ua_publickey_blob := blob, ua_publickey_signature := signature\<rparr>)))))))
      else retA request)"

definition ssh_userauth_request_decode :: "(ssh_buffer, ssh_userauth_request) act" where
  "ssh_userauth_request_decode =
     bindA ssh_buffer_get_u8 (\<lambda>message_id.
     thenA (ensureA (message_id = SSH_MSG_USERAUTH_REQUEST) SSH_ERR_MALFORMED_PACKET) (
     bindA ssh_buffer_get_string_view (\<lambda>username.
     bindA ssh_buffer_get_string_view (\<lambda>service_name.
     bindA ssh_buffer_get_string_view (\<lambda>method_name.
     thenA (ensureA (\<not> (view_len username = 0 \<or> \<not> view_eq service_name SSH_SERVICE_CONNECTION))
              SSH_ERR_MALFORMED_PACKET) (
     decode_method_fields (empty_userauth_request\<lparr>ua_username := username, ua_service_name := service_name,
       ua_method_name := method_name\<rparr>)))))))"

definition ssh_userauth_failure_encode :: "cstr \<Rightarrow> bool \<Rightarrow> (ssh_buffer, unit) act" where
  "ssh_userauth_failure_encode methods partial_success =
     thenA (ensureA (methods \<noteq> None) SSH_ERR_INVALID_ARGUMENT)
     (thenA (ssh_buffer_put_u8 SSH_MSG_USERAUTH_FAILURE)
     (thenA (ssh_buffer_put_cstring methods)
     (ssh_buffer_put_bool partial_success)))"

definition ssh_userauth_pk_ok_encode :: "view \<Rightarrow> view \<Rightarrow> (ssh_buffer, unit) act" where
  "ssh_userauth_pk_ok_encode publickey_algorithm publickey_blob =
     thenA (ensureA (\<not> (publickey_algorithm = None \<or> view_len publickey_algorithm = 0 \<or>
                       publickey_blob = None \<or> view_len publickey_blob = 0)) SSH_ERR_INVALID_ARGUMENT)
     (thenA (ssh_buffer_put_u8 SSH_MSG_USERAUTH_PK_OK)
     (thenA (ssh_buffer_put_string (view_data publickey_algorithm))
     (ssh_buffer_put_string (view_data publickey_blob))))"

definition ssh_userauth_success_encode :: "(ssh_buffer, unit) act" where
  "ssh_userauth_success_encode = ssh_buffer_put_u8 SSH_MSG_USERAUTH_SUCCESS"

section \<open>Authentication\<close>

definition ssh_userauth_authenticate_password :: "ssh_server \<Rightarrow> ssh_userauth_request \<Rightarrow> ssh_err + unit" where
  "ssh_userauth_authenticate_password server request =
     (if \<not> view_eq (ua_method_name request) SSH_AUTH_METHOD_PASSWORD \<or> ua_password_change_request request \<or>
         \<not> view_eq (ua_service_name request) SSH_SERVICE_CONNECTION
      then Inl SSH_ERR_INVALID_ARGUMENT
      else case cfg_password_auth (srv_config server) of
        None \<Rightarrow> Inl SSH_ERR_SECURITY
      | Some password_auth \<Rightarrow>
         if \<not> request_allowed_by_server_policy server request then Inl SSH_ERR_SECURITY
         else if password_auth \<lparr>pwr_username = ua_username request, pwr_service_name = ua_service_name request,
                   pwr_password = ua_password request\<rparr>
         then Inr () else Inl SSH_ERR_SECURITY)"

definition ssh_userauth_publickey_is_acceptable ::
    "cstr \<Rightarrow> ssh_server \<Rightarrow> ssh_userauth_request \<Rightarrow> ssh_err + unit" where
  "ssh_userauth_publickey_is_acceptable backend_algorithms server request =
     (if \<not> view_eq (ua_method_name request) SSH_AUTH_METHOD_PUBLICKEY \<or>
         \<not> view_eq (ua_service_name request) SSH_SERVICE_CONNECTION \<or>
         ua_publickey_algorithm request = None \<or> ua_publickey_blob request = None
      then Inl SSH_ERR_INVALID_ARGUMENT
      else case cfg_publickey_auth (srv_config server) of
        None \<Rightarrow> Inl SSH_ERR_SECURITY
      | Some publickey_auth \<Rightarrow>
         if \<not> request_allowed_by_server_policy server request then Inl SSH_ERR_SECURITY
         else let signature_algorithms = (case cfg_publickey_signature_algorithms (srv_config server) of
                    None \<Rightarrow> backend_algorithms | Some a \<Rightarrow> Some a)
         in if signature_algorithms \<noteq> None \<and> signature_algorithms \<noteq> Some [] \<and>
               \<not> name_list_contains_view signature_algorithms (ua_publickey_algorithm request)
         then Inl SSH_ERR_SECURITY
         else if publickey_auth \<lparr>pkr_username = ua_username request, pkr_service_name = ua_service_name request,
                   pkr_algorithm = ua_publickey_algorithm request, pkr_publickey_blob = ua_publickey_blob request\<rparr>
         then Inr () else Inl SSH_ERR_SECURITY)"

text \<open>The capacity of the array \<^verbatim>\<open>signed_data\<close> on the stack; its initial contents do not matter.\<close>

definition signed_data_capacity :: nat where
  "signed_data_capacity = EMSSH_MAX_USERAUTH_PAYLOAD + EMSSH_MAX_EXCHANGE_HASH + 8"

definition put_signed_data :: "u8 list \<Rightarrow> ssh_userauth_request \<Rightarrow> (ssh_buffer, unit) act" where
  "put_signed_data session_id request =
     thenA (ssh_buffer_put_string session_id)
     (thenA (ssh_buffer_put_u8 SSH_MSG_USERAUTH_REQUEST)
     (thenA (ssh_buffer_put_string (view_data (ua_username request)))
     (thenA (ssh_buffer_put_string (view_data (ua_service_name request)))
     (thenA (ssh_buffer_put_string (view_data (ua_method_name request)))
     (thenA (ssh_buffer_put_bool True)
     (thenA (ssh_buffer_put_string (view_data (ua_publickey_algorithm request)))
     (ssh_buffer_put_string (view_data (ua_publickey_blob request)))))))))"

definition ssh_userauth_authenticate_publickey ::
    "cstr \<Rightarrow> ssh_server \<Rightarrow> ssh_userauth_request \<Rightarrow> view \<Rightarrow> ssh_err + unit" where
  "ssh_userauth_authenticate_publickey backend_algorithms server request session_id =
     (if session_id = None \<or> view_len session_id = 0 \<or> \<not> ua_publickey_has_signature request \<or>
         ua_publickey_signature request = None \<or> view_len (ua_publickey_signature request) = 0
      then Inl SSH_ERR_INVALID_ARGUMENT
      else bindS (ssh_userauth_publickey_is_acceptable backend_algorithms server request) (\<lambda>_.
        case srv_crypto server of None \<Rightarrow> Inl SSH_ERR_PLATFORM
      | Some crypto \<Rightarrow> (case publickey_verify crypto of None \<Rightarrow> Inl SSH_ERR_PLATFORM
      | Some verify \<Rightarrow>
          (case put_signed_data (view_data session_id) request
                  (ssh_buffer_init (Some (replicate signed_data_capacity 0)) signed_data_capacity) of
             (Inl e, _) \<Rightarrow> Inl e
           | (Inr _, buf) \<Rightarrow>
              (case verify (ua_publickey_algorithm request) (view_data (ua_publickey_blob request)) (buf_content buf)
                      (view_data (ua_publickey_signature request)) of
                 Inr _ \<Rightarrow> Inr ()
               | Inl e \<Rightarrow> if e = SSH_ERR_UNSUPPORTED then Inl e else Inl SSH_ERR_SECURITY)))))"

text \<open>The result is the status with the decision left in \<^verbatim>\<open>*decision\<close>.\<close>

definition ssh_userauth_evaluate_request ::
    "cstr \<Rightarrow> ssh_server \<Rightarrow> ssh_userauth_request \<Rightarrow> view \<Rightarrow> ssh_err + ssh_userauth_decision" where
  "ssh_userauth_evaluate_request backend_algorithms server request session_id =
     (if view_eq (ua_method_name request) SSH_AUTH_METHOD_PASSWORD then
        case ssh_userauth_authenticate_password server request of
          Inr _ \<Rightarrow> Inr SSH_USERAUTH_DECISION_SUCCESS
        | Inl e \<Rightarrow> if e = SSH_ERR_SECURITY then Inr SSH_USERAUTH_DECISION_FAILURE else Inl e
      else if view_eq (ua_method_name request) SSH_AUTH_METHOD_PUBLICKEY then
        if ua_publickey_has_signature request then
          if session_id = None \<or> view_len session_id = 0 then Inl SSH_ERR_INVALID_ARGUMENT
          else case ssh_userauth_authenticate_publickey backend_algorithms server request session_id of
            Inr _ \<Rightarrow> Inr SSH_USERAUTH_DECISION_SUCCESS
          | Inl e \<Rightarrow> if e = SSH_ERR_SECURITY \<or> e = SSH_ERR_UNSUPPORTED
                     then Inr SSH_USERAUTH_DECISION_FAILURE else Inl e
        else case ssh_userauth_publickey_is_acceptable backend_algorithms server request of
            Inr _ \<Rightarrow> Inr SSH_USERAUTH_DECISION_PK_OK
          | Inl e \<Rightarrow> if e = SSH_ERR_SECURITY then Inr SSH_USERAUTH_DECISION_FAILURE else Inl e
      else Inr SSH_USERAUTH_DECISION_FAILURE)"

section \<open>Wildcard patterns\<close>

text \<open>The meaning of a pattern: a star stands for any string, a question mark for any character.\<close>

fun glob :: "u8 list \<Rightarrow> u8 list \<Rightarrow> bool" where
  "glob [] us \<longleftrightarrow> us = []"
| "glob (c # ps) us \<longleftrightarrow>
     (if c = star then \<exists>k \<le> length us. glob ps (drop k us)
      else us \<noteq> [] \<and> (c = question \<or> c = hd us) \<and> glob ps (tl us))"

lemma star_neq_question [simp]: "star \<noteq> question"
  by (simp add: star_def question_def)

lemma glob_star: "glob (star # ps) us \<longleftrightarrow> (\<exists>k \<le> length us. glob ps (drop k us))"
  by simp

lemma glob_Nil: "glob ps [] \<longleftrightarrow> (\<forall>c \<in> set ps. c = star)"
  by (induction ps) auto

text \<open>A part of the pattern without stars consumes one character each.\<close>

lemma glob_literal_prefix:
  "glob ps us \<Longrightarrow> n \<le> length ps \<Longrightarrow> \<forall>i < n. ps ! i \<noteq> star \<Longrightarrow> n \<le> length us \<and> glob (drop n ps) (drop n us)"
proof (induction n arbitrary: ps us)
  case (Suc n)
  then obtain c ps' where ps: "ps = c # ps'" by (cases ps) auto
  with Suc.prems have "c \<noteq> star" by auto
  with ps Suc.prems obtain u us' where us: "us = u # us'" "glob ps' us'"
    by (cases us) auto
  moreover have "\<forall>i < n. ps' ! i \<noteq> star"
    using Suc.prems(3) ps by auto
  ultimately show ?case
    using Suc.IH [of ps' us'] Suc.prems(2) ps by simp
qed simp

lemma drop_unfold: "p < length xs \<Longrightarrow> drop p xs = xs ! p # drop (p + 1) xs"
  by (simp add: Cons_nth_drop_Suc)

text \<open>What the loop decides from a state: a match of the rest, or one that begins later at the last star.\<close>

definition pattern_goal :: "u8 list \<Rightarrow> u8 list \<Rightarrow> nat \<Rightarrow> nat \<Rightarrow> nat option \<Rightarrow> nat \<Rightarrow> bool" where
  "pattern_goal pat name p u sp su \<longleftrightarrow> glob (drop p pat) (drop u name) \<or>
     (case sp of None \<Rightarrow> False | Some s \<Rightarrow> \<exists>j > su. j \<le> length name \<and> glob (drop s pat) (drop j name))"

definition pattern_inv :: "u8 list \<Rightarrow> u8 list \<Rightarrow> nat \<Rightarrow> nat \<Rightarrow> nat option \<Rightarrow> nat \<Rightarrow> bool" where
  "pattern_inv pat name p u sp su \<longleftrightarrow> p \<le> length pat \<and> u \<le> length name \<and>
     (case sp of None \<Rightarrow> True | Some s \<Rightarrow> s \<le> p \<and> su \<le> u \<and> p - s = u - su)"

definition no_star_since :: "u8 list \<Rightarrow> nat \<Rightarrow> nat option \<Rightarrow> bool" where
  "no_star_since pat p sp \<longleftrightarrow> (case sp of None \<Rightarrow> True | Some s \<Rightarrow> \<forall>i. s \<le> i \<and> i < p \<longrightarrow> pat ! i \<noteq> star)"

lemma later_match:
  assumes "pattern_inv pat name p u (Some s) su" "no_star_since pat p (Some s)"
    and "su < j" "j \<le> length name" "glob (drop s pat) (drop j name)"
  shows "\<exists>j' > u. j' \<le> length name \<and> glob (drop p pat) (drop j' name)"
proof -
  let ?n = "p - s"
  have *: "s \<le> p" "p \<le> length pat" "su \<le> u" "?n = u - su"
    using assms(1) by (auto simp: pattern_inv_def)
  then have "?n \<le> length (drop s pat)" "\<forall>i < ?n. drop s pat ! i \<noteq> star"
    using assms(2) by (auto simp: no_star_since_def)
  then have "?n \<le> length (drop j name)" "glob (drop ?n (drop s pat)) (drop ?n (drop j name))"
    using glob_literal_prefix [OF assms(5)] by blast+
  moreover have "drop ?n (drop s pat) = drop p pat" "drop ?n (drop j name) = drop (j + ?n) name"
    using *(1) by (simp_all add: add.commute)
  moreover have "u < j + ?n" "j + ?n \<le> length name" if "?n \<le> length (drop j name)"
    using * assms(3,4) that by simp_all
  ultimately show ?thesis
    by (intro exI [of _ "j + ?n"]) (simp only: simp_thms)
qed

lemma pattern_goal_step:
  assumes "p < length pat" "u < length name" "pat ! p = question \<or> pat ! p = name ! u"
  shows "pattern_goal pat name (p + 1) (u + 1) sp su \<Longrightarrow> pattern_goal pat name p u sp su"
    and "pat ! p \<noteq> star \<Longrightarrow> pattern_goal pat name p u sp su \<Longrightarrow> pattern_goal pat name (p + 1) (u + 1) sp su"
proof -
  have d: "drop p pat = pat ! p # drop (p + 1) pat" "drop u name = name ! u # drop (u + 1) name"
    using assms by (simp_all add: drop_unfold)
  have "glob (drop p pat) (drop u name)" if "glob (drop (p + 1) pat) (drop (u + 1) name)"
    using that assms(3) unfolding d by (cases "pat ! p = star") (auto intro!: exI [of _ 1])
  then show "pattern_goal pat name (p + 1) (u + 1) sp su \<Longrightarrow> pattern_goal pat name p u sp su"
    unfolding pattern_goal_def by blast
  have "glob (drop (p + 1) pat) (drop (u + 1) name)" if "pat ! p \<noteq> star" "glob (drop p pat) (drop u name)"
    using that unfolding d by simp
  then show "pat ! p \<noteq> star \<Longrightarrow> pattern_goal pat name p u sp su \<Longrightarrow> pattern_goal pat name (p + 1) (u + 1) sp su"
    unfolding pattern_goal_def by blast
qed

lemma pattern_goal_star:
  assumes "p < length pat" "u \<le> length name" "pat ! p = star"
  shows "pattern_goal pat name (p + 1) u (Some (p + 1)) u \<longleftrightarrow> glob (drop p pat) (drop u name)"
proof -
  have "glob (drop p pat) (drop u name) \<longleftrightarrow> (\<exists>k \<le> length name - u. glob (drop (p + 1) pat) (drop (u + k) name))"
    using assms by (simp add: drop_unfold add.commute)
  also have "\<dots> \<longleftrightarrow> (\<exists>j \<ge> u. j \<le> length name \<and> glob (drop (p + 1) pat) (drop j name))"
    using assms(2) by (metis add_diff_inverse_nat diff_le_mono le_add1 le_add_diff_inverse nat_add_left_cancel_le not_less)
  finally show ?thesis
    using assms(2) unfolding pattern_goal_def by (auto simp: le_less)
qed

lemma pattern_goal_retry:
  assumes "su < length name"
  shows "pattern_goal pat name s (su + 1) (Some s) (su + 1) \<longleftrightarrow>
    (\<exists>j > su. j \<le> length name \<and> glob (drop s pat) (drop j name))"
  unfolding pattern_goal_def option.case
  using assms by (metis Suc_eq_plus1 Suc_leI less_SucI not_less_eq not_less_less_Suc_eq order_less_le)

lemma pattern_mismatch:
  assumes "u < length name" "\<not> (p < length pat \<and> (pat ! p = question \<or> pat ! p = name ! u))"
    and "\<not> (p < length pat \<and> pat ! p = star)"
  shows "\<not> glob (drop p pat) (drop u name)"
proof (cases "p < length pat")
  case True
  with assms show ?thesis
    by (simp add: drop_unfold)
next
  case False
  with assms(1) show ?thesis by simp
qed

definition pattern_measures :: "u8 list \<Rightarrow> u8 list \<Rightarrow> (nat \<times> nat \<times> nat option \<times> nat) rel" where
  "pattern_measures pat name = measures
     [\<lambda>(p, u, sp, su). case sp of None \<Rightarrow> length pat + 1 | Some s \<Rightarrow> length pat - s,
      \<lambda>(p, u, sp, su). length name - su, \<lambda>(p, u, sp, su). length name - u]"

lemma pattern_measures_decrease:
  "u < length name \<Longrightarrow> ((p + 1, u + 1, sp, su), (p, u, sp, su)) \<in> pattern_measures pat name"
  "p < length pat \<Longrightarrow> pattern_inv pat name p u sp su \<Longrightarrow>
   ((p + 1, u, Some (p + 1), u), (p, u, sp, su)) \<in> pattern_measures pat name"
  "su < length name \<Longrightarrow> ((s, su + 1, Some s, su + 1), (p, u, Some s, su)) \<in> pattern_measures pat name"
  by (auto simp: pattern_measures_def pattern_inv_def split: option.splits)

lemma pattern_inv_steps:
  assumes "pattern_inv pat name p u sp su"
  shows "p < length pat \<Longrightarrow> u < length name \<Longrightarrow> pattern_inv pat name (p + 1) (u + 1) sp su"
    and "p < length pat \<Longrightarrow> pattern_inv pat name (p + 1) u (Some (p + 1)) u"
    and "u < length name \<Longrightarrow> sp = Some s \<Longrightarrow> su < length name \<and> pattern_inv pat name s (su + 1) (Some s) (su + 1)"
  using assms by (auto simp: pattern_inv_def split: option.splits)

definition pattern_decides :: "u8 list \<Rightarrow> u8 list \<Rightarrow> nat \<Rightarrow> nat \<Rightarrow> nat option \<Rightarrow> nat \<Rightarrow> bool" where
  "pattern_decides pat name p u sp su \<longleftrightarrow>
     (\<exists>b. pattern_loop pat name p u sp su = Some b \<and> (b \<longrightarrow> pattern_goal pat name p u sp su) \<and>
        (star \<notin> set name \<and> no_star_since pat p sp \<and> pattern_goal pat name p u sp su \<longrightarrow> b))"

lemma decides_finished:
  assumes inv: "pattern_inv pat name p u sp su" and "\<not> u < length name"
  shows "pattern_decides pat name p u sp su"
proof -
  have u: "u = length name"
    using assms by (simp add: pattern_inv_def)
  have eq: "pattern_loop pat name p u sp su = Some (p + length (takeWhile (\<lambda>c. c = star) (drop p pat)) = length pat)"
    using assms(2) by (simp add: pattern_loop.simps)
  have "length (takeWhile P xs) = length xs \<longleftrightarrow> (\<forall>x \<in> set xs. P x)" for P and xs :: "u8 list"
    by (induction xs) auto
  moreover have "p + length (takeWhile (\<lambda>c. c = star) (drop p pat)) = length pat \<longleftrightarrow>
      length (takeWhile (\<lambda>c. c = star) (drop p pat)) = length (drop p pat)"
    using inv by (auto simp: pattern_inv_def)
  ultimately have b: "p + length (takeWhile (\<lambda>c. c = star) (drop p pat)) = length pat \<longleftrightarrow>
      glob (drop p pat) (drop u name)"
    by (simp add: u glob_Nil del: length_drop)
  have "glob (drop p pat) (drop u name)" if "pattern_goal pat name p u sp su" "no_star_since pat p sp"
  proof (rule ccontr)
    assume "\<not> glob (drop p pat) (drop u name)"
    with that(1) obtain s j where "sp = Some s" "su < j" "j \<le> length name" "glob (drop s pat) (drop j name)"
      by (auto simp: pattern_goal_def split: option.splits)
    with later_match [of pat name p u s su j] inv that(2) u show False
      by auto
  qed
  with b eq show ?thesis
    by (auto simp: pattern_decides_def pattern_goal_def)
qed

lemma decides_literal:
  assumes "u < length name" "p < length pat \<and> (pat ! p = question \<or> pat ! p = name ! u)"
    and "pattern_decides pat name (p + 1) (u + 1) sp su"
  shows "pattern_decides pat name p u sp su"
proof -
  have eq: "pattern_loop pat name p u sp su = pattern_loop pat name (p + 1) (u + 1) sp su"
    using assms by (simp add: pattern_loop.simps [of _ _ p])
  have "pat ! p \<noteq> star" if "star \<notin> set name"
    using assms(1,2) that by (metis nth_mem star_neq_question)
  moreover have "no_star_since pat (p + 1) sp" if "pat ! p \<noteq> star" "no_star_since pat p sp"
    using that by (auto simp: no_star_since_def less_Suc_eq split: option.splits)
  ultimately show ?thesis
    using assms eq pattern_goal_step [of p pat u name sp su] unfolding pattern_decides_def by metis
qed

lemma decides_star:
  assumes inv: "pattern_inv pat name p u sp su" and u: "u < length name"
    and "\<not> (p < length pat \<and> (pat ! p = question \<or> pat ! p = name ! u))" and p: "p < length pat" "pat ! p = star"
    and IH: "pattern_decides pat name (p + 1) u (Some (p + 1)) u"
  shows "pattern_decides pat name p u sp su"
proof -
  have eq: "pattern_loop pat name p u sp su = pattern_loop pat name (p + 1) u (Some (p + 1)) u"
    using assms by (simp add: pattern_loop.simps [of _ _ p])
  have g: "pattern_goal pat name (p + 1) u (Some (p + 1)) u \<longleftrightarrow> glob (drop p pat) (drop u name)"
    using u p by (intro pattern_goal_star) auto
  have "glob (drop p pat) (drop u name)" if "pattern_goal pat name p u sp su" "no_star_since pat p sp"
  proof (rule ccontr)
    assume no: "\<not> glob (drop p pat) (drop u name)"
    with that(1) obtain s j where "sp = Some s" "su < j" "j \<le> length name" "glob (drop s pat) (drop j name)"
      by (auto simp: pattern_goal_def split: option.splits)
    with later_match [of pat name p u s su j] inv that(2) obtain j' where
        j': "u < j'" "j' \<le> length name" "glob (drop p pat) (drop j' name)"
      by auto
    then obtain k where "k \<le> length name - j'" "glob (drop (p + 1) pat) (drop (k + j') name)"
      using p by (auto simp: drop_unfold)
    with j' have "glob (drop (p + 1) pat) (drop (k + j' - u) (drop u name))" "k + j' - u \<le> length (drop u name)"
      by auto
    then have "glob (star # drop (p + 1) pat) (drop u name)"
      unfolding glob_star by blast
    with no show False
      unfolding drop_unfold [OF p(1)] p(2) by blast
  qed
  moreover have "no_star_since pat (p + 1) (Some (p + 1))"
    by (auto simp: no_star_since_def)
  moreover have "pattern_goal pat name p u sp su" if "glob (drop p pat) (drop u name)"
    using that by (simp add: pattern_goal_def)
  ultimately show ?thesis
    using IH eq g unfolding pattern_decides_def by metis
qed

lemma decides_mismatch:
  assumes u: "u < length name" and no: "\<not> (p < length pat \<and> (pat ! p = question \<or> pat ! p = name ! u))"
      "\<not> (p < length pat \<and> pat ! p = star)"
    and IH: "\<And>s. sp = Some s \<Longrightarrow> su < length name \<and> pattern_decides pat name s (su + 1) (Some s) (su + 1)"
  shows "pattern_decides pat name p u sp su"
proof (cases sp)
  case None
  then have "pattern_loop pat name p u sp su = Some False"
    by (subst pattern_loop.simps) (simp only: u no if_True if_False option.case)
  with None show ?thesis
    using pattern_mismatch [OF u no] by (auto simp: pattern_decides_def pattern_goal_def)
next
  case (Some s)
  then have eq: "pattern_loop pat name p u sp su = pattern_loop pat name s (su + 1) (Some s) (su + 1)"
    by (subst pattern_loop.simps) (simp only: u no if_True if_False option.case)
  have "pattern_goal pat name s (su + 1) (Some s) (su + 1) \<longleftrightarrow> pattern_goal pat name p u sp su"
    unfolding pattern_goal_retry [OF IH [OF Some, THEN conjunct1]]
    using Some pattern_mismatch [OF u no] by (simp add: pattern_goal_def)
  moreover have "no_star_since pat s (Some s)"
    by (auto simp: no_star_since_def)
  ultimately show ?thesis
    using IH [OF Some] eq unfolding pattern_decides_def by metis
qed

text \<open>The loop ends, is sound for every user name, and complete for user names without a star.\<close>

lemma pattern_loop_total: "pattern_inv pat name p u sp su \<Longrightarrow> pattern_decides pat name p u sp su"
proof -
  have "wf (pattern_measures pat name)"
    by (simp add: pattern_measures_def)
  moreover have "pattern_inv pat name p u sp su \<longrightarrow> pattern_decides pat name p u sp su"
    if IH: "\<forall>st. (st, (p, u, sp, su)) \<in> pattern_measures pat name \<longrightarrow>
        (\<lambda>(p, u, sp, su). pattern_inv pat name p u sp su \<longrightarrow> pattern_decides pat name p u sp su) st" for p u sp su
  proof
    assume inv: "pattern_inv pat name p u sp su"
    have step: "pattern_decides pat name p' u' sp' su'"
      if "((p', u', sp', su'), (p, u, sp, su)) \<in> pattern_measures pat name" "pattern_inv pat name p' u' sp' su'"
      for p' u' sp' su'
      using IH that by blast
    consider "\<not> u < length name"
      | "u < length name" "p < length pat \<and> (pat ! p = question \<or> pat ! p = name ! u)"
      | "u < length name" "\<not> (p < length pat \<and> (pat ! p = question \<or> pat ! p = name ! u))"
          "p < length pat" "pat ! p = star"
      | "u < length name" "\<not> (p < length pat \<and> (pat ! p = question \<or> pat ! p = name ! u))"
          "\<not> (p < length pat \<and> pat ! p = star)"
      by blast
    then show "pattern_decides pat name p u sp su"
    proof cases
      case 1
      with inv show ?thesis by (rule decides_finished)
    next
      case 2
      show ?thesis
        by (rule decides_literal [OF 2 step [OF pattern_measures_decrease(1) [OF 2(1)]
              pattern_inv_steps(1) [OF inv conjunct1 [OF 2(2)] 2(1)]]])
    next
      case 3
      show ?thesis
        by (rule decides_star [OF inv 3 step [OF pattern_measures_decrease(2) [OF 3(3) inv]
              pattern_inv_steps(2) [OF inv 3(3)]]])
    next
      case 4
      show ?thesis
      proof (rule decides_mismatch [OF 4])
        fix s assume "sp = Some s"
        with pattern_inv_steps(3) [OF inv 4(1)] step pattern_measures_decrease(3) [of su name s p u pat]
        show "su < length name \<and> pattern_decides pat name s (su + 1) (Some s) (su + 1)"
          by auto
      qed
    qed
  qed
  ultimately show "pattern_inv pat name p u sp su \<Longrightarrow> pattern_decides pat name p u sp su"
    using wf_induct_rule [of "pattern_measures pat name"
        "\<lambda>(p, u, sp, su). pattern_inv pat name p u sp su \<longrightarrow> pattern_decides pat name p u sp su" "(p, u, sp, su)"]
    by auto
qed

lemma pattern_matches_sound: "username_pattern_matches pat name \<Longrightarrow> glob pat name"
  using pattern_loop_total [of pat name 0 0 None 0]
  by (auto simp: pattern_decides_def pattern_inv_def pattern_goal_def username_pattern_matches_def)

lemma pattern_matches_iff: "star \<notin> set name \<Longrightarrow> username_pattern_matches pat name \<longleftrightarrow> glob pat name"
  using pattern_loop_total [of pat name 0 0 None 0]
  by (auto simp: pattern_decides_def pattern_inv_def pattern_goal_def username_pattern_matches_def no_star_since_def)

section \<open>Token lists\<close>

fun split_by :: "(u8 \<Rightarrow> bool) \<Rightarrow> u8 list \<Rightarrow> u8 list list" where
  "split_by P [] = [[]]"
| "split_by P (c # cs) = (if P c then [] # split_by P cs
     else (case split_by P cs of [] \<Rightarrow> [[c]] | x # xs \<Rightarrow> (c # x) # xs))"

lemma name_items_split_by: "name_items bs = split_by (\<lambda>c. c = comma) bs"
  by (induction bs) auto

lemma split_by_unfold:
  "split_by P xs = takeWhile (\<lambda>c. \<not> P c) xs #
     (case dropWhile (\<lambda>c. \<not> P c) xs of [] \<Rightarrow> [] | _ # r \<Rightarrow> split_by P r)"
  by (induction xs) (auto split: list.splits)

lemma name_list_view_loop_iff:
  "name \<noteq> [] \<Longrightarrow> name_list_view_loop p name \<longleftrightarrow> name \<in> set (name_items p)"
proof (induction p name rule: name_list_view_loop.induct)
  case (1 p name)
  show ?case
  proof (cases "p = [] \<or> takeWhile (\<lambda>c. c \<noteq> comma) p = name")
    case True
    with 1(2) show ?thesis
      by (subst name_list_view_loop.simps, subst name_items_split_by, subst split_by_unfold) auto
  next
    case False
    let ?r = "case dropWhile (\<lambda>c. c \<noteq> comma) p of [] \<Rightarrow> [] | _ # p \<Rightarrow> p"
    have "name_list_view_loop p name \<longleftrightarrow> name_list_view_loop ?r name"
      using False by (subst name_list_view_loop.simps) (auto simp: Let_def)
    also have "\<dots> \<longleftrightarrow> name \<in> set (name_items ?r)"
      using False 1 by auto
    also have "\<dots> \<longleftrightarrow> name \<in> set (name_items p)"
      using False 1(2) split_by_unfold [of "\<lambda>c. c = comma" p]
      by (cases "dropWhile (\<lambda>c. c \<noteq> comma) p")
        (auto simp: name_items_split_by simp del: dropWhile_eq_Nil_conv)
    finally show ?thesis .
  qed
qed

lemma name_list_contains_view_iff:
  "name_list_contains_view (Some l) (Some n) \<longleftrightarrow> n \<noteq> [] \<and> n \<in> set (name_items l)"
  by (simp add: name_list_contains_view_def name_list_view_loop_iff)

text \<open>The user patterns of an \<^verbatim>\<open>AllowUsers\<close> value.\<close>

definition allow_patterns :: "u8 list \<Rightarrow> u8 list list" where
  "allow_patterns p = filter (\<lambda>t. t \<noteq> []) (map (takeWhile (\<lambda>c. c \<noteq> at_sign)) (split_by is_separator_char p))"

lemma allow_patterns_skip: "allow_patterns (dropWhile is_separator_char p) = allow_patterns p"
  by (induction p) (auto simp: allow_patterns_def)

lemma allow_patterns_token:
  "allow_patterns p = filter (\<lambda>t. t \<noteq> []) [takeWhile (\<lambda>c. c \<noteq> at_sign) (takeWhile (\<lambda>c. \<not> is_separator_char c) p)] @
     allow_patterns (dropWhile (\<lambda>c. \<not> is_separator_char c) p)"
proof -
  have "is_separator_char (hd (dropWhile (\<lambda>c. \<not> is_separator_char c) p))"
    if "dropWhile (\<lambda>c. \<not> is_separator_char c) p \<noteq> []"
    using hd_dropWhile [OF that] by simp
  then show ?thesis
    unfolding allow_patterns_def
    by (subst split_by_unfold, cases "dropWhile (\<lambda>c. \<not> is_separator_char c) p")
      (simp_all del: dropWhile_eq_Nil_conv)
qed

lemma allow_users_loop_iff:
  "allow_users_loop p name \<longleftrightarrow> (\<exists>t \<in> set (allow_patterns p). username_pattern_matches t name)"
proof (induction p name rule: allow_users_loop.induct)
  case (1 p name)
  let ?p = "dropWhile is_separator_char p"
  let ?t = "takeWhile (\<lambda>c. c \<noteq> at_sign) (takeWhile (\<lambda>c. \<not> is_separator_char c) ?p)"
  let ?r = "dropWhile (\<lambda>c. \<not> is_separator_char c) ?p"
  have skip: "allow_patterns p = allow_patterns ?p"
    by (simp add: allow_patterns_skip)
  show ?case
  proof (cases "?p = []")
    case True
    have "allow_patterns p = []"
      unfolding skip True by (simp add: allow_patterns_def)
    then show ?thesis
      using True by (subst allow_users_loop.simps) (simp add: Let_def)
  next
    case False
    have "allow_users_loop p name \<longleftrightarrow> (?t \<noteq> [] \<and> username_pattern_matches ?t name) \<or> allow_users_loop ?r name"
      using False by (subst allow_users_loop.simps) (simp add: Let_def del: dropWhile_eq_Nil_conv)
    moreover have "allow_users_loop ?r name \<longleftrightarrow> (\<exists>t \<in> set (allow_patterns ?r). username_pattern_matches t name)"
      if "\<not> (?t \<noteq> [] \<and> username_pattern_matches ?t name)"
      using 1 False that by blast
    moreover have "set (allow_patterns p) = set (filter (\<lambda>t. t \<noteq> []) [?t]) \<union> set (allow_patterns ?r)"
      unfolding skip by (subst allow_patterns_token) simp
    ultimately show ?thesis by auto
  qed
qed

section \<open>Authentication decisions\<close>

definition signed_data_bytes :: "u8 list \<Rightarrow> ssh_userauth_request \<Rightarrow> u8 list" where
  "signed_data_bytes session_id request =
     string_bytes session_id @ [SSH_MSG_USERAUTH_REQUEST] @ view_bytes (ua_username request) @
     view_bytes (ua_service_name request) @ view_bytes (ua_method_name request) @ [1] @
     view_bytes (ua_publickey_algorithm request) @ view_bytes (ua_publickey_blob request)"

lemma put_string_succeeds:
  assumes "ssh_buffer_put_string bs b = (Inr u, b')" "buf_wf b"
  shows "buf_wf b' \<and> buf_content b' = buf_content b @ string_bytes bs"
proof -
  have "length bs \<le> UINT32_MAX"
    using assms(1) by (auto simp: ssh_buffer_put_string_def split: if_splits)
  then have w: "buffer_writer (ssh_buffer_put_string bs) (string_bytes bs)"
    by (rule buffer_writer_put_string)
  show ?thesis
    using buffer_writer.put_content [OF w assms(2)] buffer_writer.put_wf [OF w assms(2)] assms(1) by auto
qed

lemma put_u8_succeeds:
  assumes "ssh_buffer_put_u8 v b = (Inr u, b')" "buf_wf b"
  shows "buf_wf b' \<and> buf_content b' = buf_content b @ [v]"
  using buffer_writer.put_content [OF buffer_writer_put_u8 assms(2)] buffer_writer.put_wf [OF buffer_writer_put_u8 assms(2)]
    assms(1) by (metis old.unit.exhaust snd_conv)

lemma put_signed_data_content:
  assumes "put_signed_data sid request b = (Inr u, b')" "buf_wf b"
  shows "buf_content b' = buf_content b @ signed_data_bytes sid request"
  using assms unfolding put_signed_data_def thenA_eq_Inr ssh_buffer_put_bool_def
  by (elim exE conjE)
    (auto simp: signed_data_bytes_def view_bytes_def dest!: put_string_succeeds put_u8_succeeds)

lemma signed_data_bytes_inj:
  assumes "string_valid (Some s)" "string_valid (Some s')"
    and "\<And>v. v \<in> {ua_username r, ua_service_name r, ua_method_name r, ua_publickey_algorithm r, ua_publickey_blob r,
      ua_username r', ua_service_name r', ua_method_name r', ua_publickey_algorithm r', ua_publickey_blob r'} \<Longrightarrow> string_valid v"
    and "signed_data_bytes s r = signed_data_bytes s' r'"
  shows "s = s' \<and> ua_username r = ua_username r' \<and> ua_service_name r = ua_service_name r' \<and>
    ua_method_name r = ua_method_name r' \<and> ua_publickey_algorithm r = ua_publickey_algorithm r' \<and>
    ua_publickey_blob r = ua_publickey_blob r'"
proof -
  note parse = strng.bytes_unique_parse
  from parse [of "Some s" "Some s'"] assms(1,2,4) have 1: "s = s'"
    "view_bytes (ua_username r) @ view_bytes (ua_service_name r) @ view_bytes (ua_method_name r) @ [1] @
      view_bytes (ua_publickey_algorithm r) @ view_bytes (ua_publickey_blob r) =
     view_bytes (ua_username r') @ view_bytes (ua_service_name r') @ view_bytes (ua_method_name r') @ [1] @
      view_bytes (ua_publickey_algorithm r') @ view_bytes (ua_publickey_blob r')"
    by (auto simp: signed_data_bytes_def)
  from parse [OF _ _ 1(2)] assms(3) have 2: "ua_username r = ua_username r'"
    "view_bytes (ua_service_name r) @ view_bytes (ua_method_name r) @ [1] @
      view_bytes (ua_publickey_algorithm r) @ view_bytes (ua_publickey_blob r) =
     view_bytes (ua_service_name r') @ view_bytes (ua_method_name r') @ [1] @
      view_bytes (ua_publickey_algorithm r') @ view_bytes (ua_publickey_blob r')"
    by auto
  from parse [OF _ _ 2(2)] assms(3) have 3: "ua_service_name r = ua_service_name r'"
    "view_bytes (ua_method_name r) @ [1] @ view_bytes (ua_publickey_algorithm r) @ view_bytes (ua_publickey_blob r) =
     view_bytes (ua_method_name r') @ [1] @ view_bytes (ua_publickey_algorithm r') @ view_bytes (ua_publickey_blob r')"
    by auto
  from parse [OF _ _ 3(2)] assms(3) have 4: "ua_method_name r = ua_method_name r'"
    "view_bytes (ua_publickey_algorithm r) @ view_bytes (ua_publickey_blob r) =
     view_bytes (ua_publickey_algorithm r') @ view_bytes (ua_publickey_blob r')"
    by auto
  from parse [OF _ _ 4(2)] assms(3) have 5: "ua_publickey_algorithm r = ua_publickey_algorithm r'"
    "view_bytes (ua_publickey_blob r) = view_bytes (ua_publickey_blob r')"
    by auto
  with strng.bytes_inj [of "ua_publickey_blob r" "ua_publickey_blob r'"] assms(3) 1 2 3 4 show ?thesis
    by auto
qed

lemma policy_iff:
  "request_allowed_by_server_policy server request \<longleftrightarrow>
     username_allowed_by_allow_users (cfg_allow_users (srv_config server)) (ua_username request) \<and>
     (ua_username request = Some (lit ''root'') \<longrightarrow>
        cfg_permit_root_login (srv_config server) \<noteq> EMSSH_PERMIT_ROOT_LOGIN_NO \<and>
        (cfg_permit_root_login (srv_config server) \<in>
           {EMSSH_PERMIT_ROOT_LOGIN_DEFAULT, EMSSH_PERMIT_ROOT_LOGIN_PROHIBIT_PASSWORD} \<longrightarrow>
         ua_method_name request \<noteq> Some SSH_AUTH_METHOD_PASSWORD))"
  by (auto simp: request_allowed_by_server_policy_def username_is_root_def Let_def root_login_modes)

text \<open>The credentials that justify a successful authentication.\<close>

definition password_verified :: "ssh_server \<Rightarrow> ssh_userauth_request \<Rightarrow> bool" where
  "password_verified server request \<longleftrightarrow>
     ua_method_name request = Some SSH_AUTH_METHOD_PASSWORD \<and>
     (\<exists>check. cfg_password_auth (srv_config server) = Some check \<and>
        check \<lparr>pwr_username = ua_username request, pwr_service_name = ua_service_name request,
                pwr_password = ua_password request\<rparr>)"

definition signature_verified :: "ssh_server \<Rightarrow> ssh_userauth_request \<Rightarrow> view \<Rightarrow> bool" where
  "signature_verified server request session_id \<longleftrightarrow>
     ua_method_name request = Some SSH_AUTH_METHOD_PUBLICKEY \<and>
     (\<exists>check crypto verify sid. cfg_publickey_auth (srv_config server) = Some check \<and>
        check \<lparr>pkr_username = ua_username request, pkr_service_name = ua_service_name request,
                pkr_algorithm = ua_publickey_algorithm request, pkr_publickey_blob = ua_publickey_blob request\<rparr> \<and>
        srv_crypto server = Some crypto \<and> publickey_verify crypto = Some verify \<and>
        session_id = Some sid \<and> sid \<noteq> [] \<and>
        verify (ua_publickey_algorithm request) (view_data (ua_publickey_blob request))
          (signed_data_bytes sid request) (view_data (ua_publickey_signature request)) = Inr ())"

lemma authenticate_password_ok:
  "ssh_userauth_authenticate_password server request = Inr u \<Longrightarrow>
   password_verified server request \<and> request_allowed_by_server_policy server request \<and>
   ua_service_name request = Some SSH_SERVICE_CONNECTION \<and> \<not> ua_password_change_request request"
  by (auto simp: ssh_userauth_authenticate_password_def password_verified_def split: if_splits option.splits)

lemma publickey_acceptable_ok:
  "ssh_userauth_publickey_is_acceptable backend server request = Inr u \<Longrightarrow>
   ua_method_name request = Some SSH_AUTH_METHOD_PUBLICKEY \<and> request_allowed_by_server_policy server request \<and>
   (\<exists>check. cfg_publickey_auth (srv_config server) = Some check \<and>
        check \<lparr>pkr_username = ua_username request, pkr_service_name = ua_service_name request,
                pkr_algorithm = ua_publickey_algorithm request, pkr_publickey_blob = ua_publickey_blob request\<rparr>)"
  by (auto simp: ssh_userauth_publickey_is_acceptable_def Let_def split: if_splits option.splits)

lemma authenticate_publickey_ok:
  assumes "ssh_userauth_authenticate_publickey backend server request session_id = Inr u"
  shows "signature_verified server request session_id \<and> request_allowed_by_server_policy server request"
proof -
  let ?b = "ssh_buffer_init (Some (replicate signed_data_capacity 0)) signed_data_capacity"
  from assms obtain sid crypto verify buf u' where *:
      "session_id = Some sid" "sid \<noteq> []" "ssh_userauth_publickey_is_acceptable backend server request = Inr ()"
      "srv_crypto server = Some crypto" "publickey_verify crypto = Some verify"
      "put_signed_data sid request ?b = (Inr u', buf)"
      "verify (ua_publickey_algorithm request) (view_data (ua_publickey_blob request)) (buf_content buf)
         (view_data (ua_publickey_signature request)) = Inr ()"
    by (auto simp: ssh_userauth_authenticate_publickey_def bindS_eq_Inr split: if_splits option.splits prod.splits sum.splits)
  have "buf_content buf = signed_data_bytes sid request"
    using put_signed_data_content [OF *(6)] by simp
  with * publickey_acceptable_ok [OF *(3)] show ?thesis
    by (auto simp: signature_verified_def)
qed

section \<open>Messages on the wire\<close>

lemma method_names_differ [simp]:
  "SSH_AUTH_METHOD_PASSWORD \<noteq> SSH_AUTH_METHOD_NONE" "SSH_AUTH_METHOD_PUBLICKEY \<noteq> SSH_AUTH_METHOD_NONE"
  "SSH_AUTH_METHOD_PUBLICKEY \<noteq> SSH_AUTH_METHOD_PASSWORD" "SSH_AUTH_METHOD_PASSWORD \<noteq> SSH_AUTH_METHOD_PUBLICKEY"
  "SSH_AUTH_METHOD_NONE \<noteq> SSH_AUTH_METHOD_PASSWORD" "SSH_AUTH_METHOD_NONE \<noteq> SSH_AUTH_METHOD_PUBLICKEY"
  by (simp_all add: SSH_AUTH_METHOD_NONE_def SSH_AUTH_METHOD_PASSWORD_def SSH_AUTH_METHOD_PUBLICKEY_def)

lemma name_lengths [simp]:
  "length SSH_SERVICE_CONNECTION \<le> UINT32_MAX" "length SSH_AUTH_METHOD_PASSWORD \<le> UINT32_MAX"
  "length SSH_AUTH_METHOD_NONE \<le> UINT32_MAX"
  by (simp_all add: SSH_SERVICE_CONNECTION_def SSH_AUTH_METHOD_PASSWORD_def SSH_AUTH_METHOD_NONE_def UINT32_MAX_def)

definition signature_valid :: "bool \<Rightarrow> view \<Rightarrow> bool" where
  "signature_valid has_signature v \<longleftrightarrow> (if has_signature then len_in UINT32_MAX v else v = None)"

definition signature_bytes :: "bool \<Rightarrow> view \<Rightarrow> u8 list" where
  "signature_bytes has_signature v = (if has_signature then view_bytes v else [])"

definition method_fields_bytes :: "ssh_userauth_request \<Rightarrow> u8 list" where
  "method_fields_bytes rq =
     (if ua_method_name rq = Some SSH_AUTH_METHOD_PASSWORD
      then [bool_byte (ua_password_change_request rq)] @ view_bytes (ua_password rq)
      else if ua_method_name rq = Some SSH_AUTH_METHOD_PUBLICKEY
      then [bool_byte (ua_publickey_has_signature rq)] @ view_bytes (ua_publickey_algorithm rq) @
        view_bytes (ua_publickey_blob rq) @
        signature_bytes (ua_publickey_has_signature rq) (ua_publickey_signature rq)
      else [])"

definition method_fields_valid :: "ssh_userauth_request \<Rightarrow> bool" where
  "method_fields_valid rq \<longleftrightarrow>
     (if ua_method_name rq = Some SSH_AUTH_METHOD_PASSWORD then string_valid (ua_password rq)
      else ua_password rq = None \<and> \<not> ua_password_change_request rq) \<and>
     (if ua_method_name rq = Some SSH_AUTH_METHOD_PUBLICKEY
      then len_in UINT32_MAX (ua_publickey_algorithm rq) \<and> len_in UINT32_MAX (ua_publickey_blob rq) \<and>
        signature_valid (ua_publickey_has_signature rq) (ua_publickey_signature rq)
      else \<not> ua_publickey_has_signature rq \<and> ua_publickey_algorithm rq = None \<and>
        ua_publickey_blob rq = None \<and> ua_publickey_signature rq = None)"

definition userauth_request_bytes :: "ssh_userauth_request \<Rightarrow> u8 list" where
  "userauth_request_bytes rq = [SSH_MSG_USERAUTH_REQUEST] @ view_bytes (ua_username rq) @
     view_bytes (ua_service_name rq) @ view_bytes (ua_method_name rq) @ method_fields_bytes rq"

definition userauth_request_valid :: "ssh_userauth_request \<Rightarrow> bool" where
  "userauth_request_valid rq \<longleftrightarrow>
     len_in UINT32_MAX (ua_username rq) \<and> ua_service_name rq = Some SSH_SERVICE_CONNECTION \<and>
     string_valid (ua_method_name rq) \<and> method_fields_valid rq"

definition known_methods :: "view set" where
  "known_methods = {Some SSH_AUTH_METHOD_NONE, Some SSH_AUTH_METHOD_PASSWORD, Some SSH_AUTH_METHOD_PUBLICKEY}"

lemma len_in_max: "len_in UINT32_MAX v \<longleftrightarrow> string_valid v \<and> view_len v \<noteq> 0"
  by (cases v) (auto simp: len_in_def)

text \<open>The requests with the given user, service and method.\<close>

definition same_header :: "view \<Rightarrow> view \<Rightarrow> view \<Rightarrow> ssh_userauth_request \<Rightarrow> bool" where
  "same_header u s m rq \<longleftrightarrow> ua_username rq = u \<and> ua_service_name rq = s \<and> ua_method_name rq = m"

lemmas method_fields_simps = same_header_def method_fields_valid_def method_fields_bytes_def known_methods_def
  empty_userauth_request_def len_in_max

lemma reads_password_fields:
  "reads (bindA ssh_buffer_get_bool (\<lambda>change. bindA ssh_buffer_get_string_view (\<lambda>password.
      thenA (at_endA e) (retA (f change password)))))
    (\<lambda>rq bs r. \<exists>change password. string_valid password \<and> rq = f change password \<and>
       bs = [bool_byte change] @ view_bytes password \<and> r = [])"
  by (rule reads_cong, (rule reads_intros)+) auto

lemma reads_signature_field [reads_intros]:
  "reads (if has_signature then bindA ssh_buffer_get_string_view (\<lambda>signature.
      thenA (ensureA (view_len signature \<noteq> 0) e) (retA signature)) else retA None)
    (\<lambda>v bs r. signature_valid has_signature v \<and> bs = signature_bytes has_signature v)"
  by (rule reads_cong, (rule reads_intros)+) (auto simp: len_in_max signature_valid_def signature_bytes_def)

lemma reads_publickey_fields:
  "reads (bindA ssh_buffer_get_bool (\<lambda>has_signature. bindA ssh_buffer_get_string_view (\<lambda>algorithm.
      bindA ssh_buffer_get_string_view (\<lambda>blob.
      thenA (ensureA (\<not> (view_len algorithm = 0 \<or> view_len blob = 0)) e) (
      bindA (if has_signature then bindA ssh_buffer_get_string_view (\<lambda>signature.
          thenA (ensureA (view_len signature \<noteq> 0) e') (retA signature)) else retA None) (\<lambda>signature.
      thenA (at_endA e'') (retA (f has_signature algorithm blob signature))))))))
    (\<lambda>rq bs r. \<exists>hs alg blob sig. len_in UINT32_MAX alg \<and> len_in UINT32_MAX blob \<and> signature_valid hs sig \<and>
       rq = f hs alg blob sig \<and> bs = [bool_byte hs] @ view_bytes alg @ view_bytes blob @ signature_bytes hs sig \<and> r = [])"
  by (rule reads_cong, (rule reads_signature_field reads_intros)+) (simp add: len_in_max, blast)

definition method_fields_rel ::
    "ssh_userauth_request \<Rightarrow> ssh_userauth_request \<Rightarrow> u8 list \<Rightarrow> u8 list \<Rightarrow> bool" where
  "method_fields_rel q rq bs r \<longleftrightarrow>
     (if ua_method_name q = Some SSH_AUTH_METHOD_PASSWORD then
       \<exists>change password. string_valid password \<and>
         rq = q\<lparr>ua_password_change_request := change, ua_password := password\<rparr> \<and>
         bs = [bool_byte change] @ view_bytes password \<and> r = []
     else if ua_method_name q = Some SSH_AUTH_METHOD_PUBLICKEY then
       \<exists>hs alg blob sig. len_in UINT32_MAX alg \<and> len_in UINT32_MAX blob \<and> signature_valid hs sig \<and>
         rq = q\<lparr>ua_publickey_has_signature := hs, ua_publickey_algorithm := alg,
                 ua_publickey_blob := blob, ua_publickey_signature := sig\<rparr> \<and>
         bs = [bool_byte hs] @ view_bytes alg @ view_bytes blob @ signature_bytes hs sig \<and> r = []
     else rq = q \<and> bs = [] \<and> (ua_method_name q = Some SSH_AUTH_METHOD_NONE \<longrightarrow> r = []))"

lemma reads_method_fields: "reads (decode_method_fields q) (method_fields_rel q)"
proof -
  consider (none) "ua_method_name q = Some SSH_AUTH_METHOD_NONE"
    | (password) "ua_method_name q = Some SSH_AUTH_METHOD_PASSWORD"
    | (publickey) "ua_method_name q = Some SSH_AUTH_METHOD_PUBLICKEY"
    | (other) "ua_method_name q \<notin> known_methods"
    by (auto simp: known_methods_def)
  then show ?thesis
  proof cases
    case none
    then show ?thesis
      unfolding decode_method_fields_def method_fields_rel_def [abs_def]
      by (simp add: reads_end [OF reads_retA, simplified])
        (rule reads_cong, rule reads_end [OF reads_retA], auto)
  next
    case password
    then show ?thesis
      unfolding decode_method_fields_def method_fields_rel_def [abs_def] view_eq_iff
      by (simp only: method_names_differ option.inject if_True if_False simp_thms) (rule reads_password_fields)
  next
    case publickey
    then show ?thesis
      unfolding decode_method_fields_def method_fields_rel_def [abs_def] view_eq_iff
      by (simp only: method_names_differ option.inject if_True if_False simp_thms) (rule reads_publickey_fields)
  next
    case other
    then have "decode_method_fields q = retA q"
      by (simp add: decode_method_fields_def known_methods_def del: retA_apply)
    with other show ?thesis
      by (simp only:) (rule reads_cong, rule reads_retA, auto simp: known_methods_def method_fields_rel_def)
  qed
qed

lemma method_fields_rel_iff:
  "method_fields_rel (empty_userauth_request\<lparr>ua_username := u, ua_service_name := s, ua_method_name := m\<rparr>) rq bs r \<longleftrightarrow>
     same_header u s m rq \<and> method_fields_valid rq \<and> bs = method_fields_bytes rq \<and> (m \<in> known_methods \<longrightarrow> r = [])"
proof -
  consider (password) "m = Some SSH_AUTH_METHOD_PASSWORD" | (publickey) "m = Some SSH_AUTH_METHOD_PUBLICKEY"
    | (other) "m \<noteq> Some SSH_AUTH_METHOD_PASSWORD" "m \<noteq> Some SSH_AUTH_METHOD_PUBLICKEY"
    by blast
  then show ?thesis
  proof cases
    case password
    then show ?thesis
      by (cases rq) (auto simp: method_fields_rel_def method_fields_simps)
  next
    case publickey
    then show ?thesis
      by (cases rq) (auto simp: method_fields_rel_def method_fields_simps)
  next
    case other
    then show ?thesis
      by (cases rq) (auto simp: method_fields_rel_def method_fields_simps)
  qed
qed

text \<open>The decoder of requests accepts exactly the encodings of the valid requests; only after an unknown
  method is anything left over.\<close>

lemma reads_userauth_request:
  "reads ssh_userauth_request_decode (\<lambda>rq bs r. userauth_request_valid rq \<and> bs = userauth_request_bytes rq \<and>
     (ua_method_name rq \<in> known_methods \<longrightarrow> r = []))"
  unfolding ssh_userauth_request_decode_def
  by (rule reads_cong, (rule reads_intros reads_method_fields)+)
    (auto simp: method_fields_rel_iff same_header_def userauth_request_valid_def userauth_request_bytes_def len_in_max)

lemma password_encode_writes:
  assumes "userauth_request_valid rq" "ua_method_name rq = Some SSH_AUTH_METHOD_PASSWORD"
    and "\<not> ua_password_change_request rq"
  shows "buffer_writer (ssh_userauth_request_password_encode (ua_username rq) (ua_service_name rq) (ua_password rq))
    (userauth_request_bytes rq)"
proof -
  have "string_valid (ua_username rq)" "string_valid (ua_service_name rq)" "string_valid (ua_password rq)"
    using assms by (auto simp: userauth_request_valid_def method_fields_valid_def len_in_max)
  moreover from this have "ua_username rq \<noteq> None \<and> ua_service_name rq \<noteq> None \<and> ua_password rq \<noteq> None"
    by (metis string_valid_None)
  moreover have "userauth_request_bytes rq = [SSH_MSG_USERAUTH_REQUEST] @ view_bytes (ua_username rq) @
      view_bytes (ua_service_name rq) @ string_bytes SSH_AUTH_METHOD_PASSWORD @ [if False then 1 else 0] @
      view_bytes (ua_password rq)"
    using assms by (simp add: userauth_request_bytes_def method_fields_bytes_def bool_byte_def)
  ultimately show ?thesis
    unfolding ssh_userauth_request_password_encode_def by (simp only:) (intro encoder_intros name_lengths, simp_all)
qed

section \<open>Properties\<close>

text \<open>A server that accepts one password.\<close>

definition sample_server :: ssh_server where
  "sample_server = \<lparr>srv_crypto = None, srv_config = \<lparr>cfg_software_name = None, cfg_max_packet_size = 35000,
     cfg_max_payload_size = 32768, cfg_max_auth_tries = 6, cfg_listen_address = None,
     cfg_password_auth = Some (\<lambda>r. pwr_password r = Some (lit ''pw'')), cfg_publickey_auth = None,
     cfg_publickey_signature_algorithms = None, cfg_permit_root_login = EMSSH_PERMIT_ROOT_LOGIN_DEFAULT,
     cfg_allow_users = Some (lit ''a*''), cfg_authorized_keys_file = None\<rparr>\<rparr>"

definition sample_request :: "u8 list \<Rightarrow> ssh_userauth_request" where
  "sample_request user = empty_userauth_request\<lparr>ua_username := Some user,
     ua_service_name := Some SSH_SERVICE_CONNECTION, ua_method_name := Some SSH_AUTH_METHOD_PASSWORD,
     ua_password := Some (lit ''pw'')\<rparr>"

lemma sample_allowed: "username_allowed_by_allow_users (Some (lit ''a*'')) (Some (lit ''al''))"
  by code_simp

lemma sample_not_root: "lit ''al'' \<noteq> lit ''root''"
  by simp

lemma sample_login: "ssh_userauth_evaluate_request None sample_server (sample_request (lit ''al'')) None =
    Inr SSH_USERAUTH_DECISION_SUCCESS"
  using sample_allowed sample_not_root
  by (simp add: ssh_userauth_evaluate_request_def ssh_userauth_authenticate_password_def sample_request_def
      sample_server_def empty_userauth_request_def policy_iff del: lit_simps)

lemma evaluate_success:
  "ssh_userauth_evaluate_request backend server request session_id = Inr SSH_USERAUTH_DECISION_SUCCESS \<Longrightarrow>
   (password_verified server request \<or> signature_verified server request session_id) \<and> request_allowed_by_server_policy server request"
  by (auto simp: ssh_userauth_evaluate_request_def split: if_splits sum.splits
      dest: authenticate_password_ok authenticate_publickey_ok)

text \<open>C6. No authentication without credentials: a request is answered with success only if the password
  callback accepted exactly this user and password, or the public key callback accepted the key and the
  crypto backend verified a signature over the session identifier and this request; and the server's login
  policy allows the request. In particular the method "none" never succeeds.\<close>

theorem authentication_sound:
  assumes "ssh_userauth_evaluate_request backend server request session_id = Inr SSH_USERAUTH_DECISION_SUCCESS"
  shows "(password_verified server request \<or> signature_verified server request session_id) \<and>
    request_allowed_by_server_policy server request"
  using evaluate_success [OF assms] .

theorem authentication_sound_witness:
  "(password_verified sample_server (sample_request (lit ''al'')) \<or>
     signature_verified sample_server (sample_request (lit ''al'')) None) \<and>
   request_allowed_by_server_policy sample_server (sample_request (lit ''al''))"
  by (rule authentication_sound [OF sample_login])

text \<open>C27. A signature is bound to its session and request: if the data signed for two requests, each with
  the session identifier of its connection, is equal, then session identifier, user, service, method,
  algorithm and public key are equal. A signature made for one of them is of no use for another.\<close>

theorem signed_data_binds_request:
  assumes "string_valid (Some s)" "string_valid (Some s')"
    and "\<And>v. v \<in> {ua_username r, ua_service_name r, ua_method_name r, ua_publickey_algorithm r, ua_publickey_blob r,
      ua_username r', ua_service_name r', ua_method_name r', ua_publickey_algorithm r', ua_publickey_blob r'} \<Longrightarrow> string_valid v"
    and "put_signed_data s r (ssh_buffer_init (Some st) cap) = (Inr (), b)" "cap \<le> length st"
    and "put_signed_data s' r' (ssh_buffer_init (Some st') cap') = (Inr (), b')" "cap' \<le> length st'"
    and "buf_content b = buf_content b'"
  shows "s = s' \<and> ua_username r = ua_username r' \<and> ua_service_name r = ua_service_name r' \<and>
    ua_method_name r = ua_method_name r' \<and> ua_publickey_algorithm r = ua_publickey_algorithm r' \<and>
    ua_publickey_blob r = ua_publickey_blob r'"
  using put_signed_data_content [OF assms(4)] put_signed_data_content [OF assms(6)] assms(5,7,8)
  by (intro signed_data_bytes_inj assms(1-3)) auto

definition sample_key_request :: "u8 \<Rightarrow> ssh_userauth_request" where
  "sample_key_request user = empty_userauth_request\<lparr>ua_username := Some [user], ua_service_name := Some [98],
     ua_method_name := Some [99], ua_publickey_has_signature := True, ua_publickey_algorithm := Some [100],
     ua_publickey_blob := Some [101], ua_publickey_signature := Some [102]\<rparr>"

lemma sample_signed_data:
  "\<exists>b. put_signed_data [1] (sample_key_request user) (ssh_buffer_init (Some (replicate 64 0)) 64) = (Inr (), b)"
proof -
  have "buffer_writer (put_signed_data [1] (sample_key_request user))
      (string_bytes [1] @ [SSH_MSG_USERAUTH_REQUEST] @ view_bytes (Some [user]) @ view_bytes (Some [98]) @
       view_bytes (Some [99]) @ [if True then 1 else 0] @ view_bytes (Some [100]) @ view_bytes (Some [101]))"
    unfolding put_signed_data_def sample_key_request_def ssh_userauth_request.simps view_data_simps view_bytes_Some
    by (intro writer_intros) (simp_all add: UINT32_MAX_def writer_intros)
  from buffer_writer.put_fits [OF this, of "ssh_buffer_init (Some (replicate 64 0)) 64"] show ?thesis
    by simp
qed

theorem signed_data_binds_request_witness:
  "\<exists>b b'. put_signed_data [1] (sample_key_request 97) (ssh_buffer_init (Some (replicate 64 0)) 64) = (Inr (), b) \<and>
     put_signed_data [1] (sample_key_request 96) (ssh_buffer_init (Some (replicate 64 0)) 64) = (Inr (), b') \<and>
     buf_content b \<noteq> buf_content b'"
proof -
  obtain b b' where
    *: "put_signed_data [1] (sample_key_request 97) (ssh_buffer_init (Some (replicate 64 0)) 64) = (Inr (), b)"
       "put_signed_data [1] (sample_key_request 96) (ssh_buffer_init (Some (replicate 64 0)) 64) = (Inr (), b')"
    using sample_signed_data by meson
  have "buf_content b \<noteq> buf_content b'"
  proof
    assume "buf_content b = buf_content b'"
    then have "[1 :: u8] = [1] \<and> ua_username (sample_key_request 97) = ua_username (sample_key_request 96) \<and>
        ua_service_name (sample_key_request 97) = ua_service_name (sample_key_request 96) \<and>
        ua_method_name (sample_key_request 97) = ua_method_name (sample_key_request 96) \<and>
        ua_publickey_algorithm (sample_key_request 97) = ua_publickey_algorithm (sample_key_request 96) \<and>
        ua_publickey_blob (sample_key_request 97) = ua_publickey_blob (sample_key_request 96)"
      by (rule signed_data_binds_request [OF _ _ _ *(1) _ *(2), rotated -1])
        (auto simp: UINT32_MAX_def sample_key_request_def empty_userauth_request_def)
    then show False
      by (simp add: sample_key_request_def)
  qed
  with * show ?thesis by blast
qed

text \<open>Root cannot log in with a password unless the configuration says so: with the default
  \<^verbatim>\<open>PermitRootLogin\<close>, with prohibit-password and with no, no password request for the user root succeeds,
  whatever the callbacks answer; with no, no request for root succeeds at all.\<close>

theorem root_login_restricted:
  assumes "ua_username request = Some (lit ''root'')"
    and "cfg_permit_root_login (srv_config server) = EMSSH_PERMIT_ROOT_LOGIN_NO \<or>
      cfg_permit_root_login (srv_config server) \<in>
        {EMSSH_PERMIT_ROOT_LOGIN_DEFAULT, EMSSH_PERMIT_ROOT_LOGIN_PROHIBIT_PASSWORD} \<and>
      ua_method_name request = Some SSH_AUTH_METHOD_PASSWORD"
  shows "ssh_userauth_evaluate_request backend server request session_id \<noteq> Inr SSH_USERAUTH_DECISION_SUCCESS"
proof -
  have "\<not> request_allowed_by_server_policy server request"
    using assms by (auto simp: policy_iff)
  then show ?thesis
    using evaluate_success by blast
qed

theorem root_login_restricted_witness:
  "ssh_userauth_evaluate_request None sample_server (sample_request (lit ''root'')) None \<noteq>
     Inr SSH_USERAUTH_DECISION_SUCCESS"
  by (rule root_login_restricted) (simp_all add: sample_request_def sample_server_def empty_userauth_request_def)

text \<open>\<^verbatim>\<open>AllowUsers\<close> is enforced: if it is set, every successful login is by a user whose name matches
  one of its patterns, in the usual sense of star and question mark.\<close>

theorem allow_users_enforced:
  assumes "cfg_allow_users (srv_config server) = Some patterns" "patterns \<noteq> []"
    and "ssh_userauth_evaluate_request backend server request session_id = Inr SSH_USERAUTH_DECISION_SUCCESS"
  shows "\<exists>name pattern. ua_username request = Some name \<and> pattern \<in> set (allow_patterns patterns) \<and> glob pattern name"
proof -
  have "request_allowed_by_server_policy server request"
    using evaluate_success [OF assms(3)] ..
  with assms(1,2) show ?thesis
    by (cases "ua_username request")
      (auto simp: policy_iff username_allowed_by_allow_users_def allow_users_loop_iff dest: pattern_matches_sound split: if_splits)
qed

theorem allow_users_enforced_witness:
  "\<exists>name pattern. ua_username (sample_request (lit ''al'')) = Some name \<and>
     pattern \<in> set (allow_patterns (lit ''a*'')) \<and> glob pattern name"
  by (rule allow_users_enforced [OF _ _ sample_login]) (simp_all add: sample_server_def)

text \<open>The wildcard matcher, a loop that only remembers the last star, always ends, and decides the
  pattern language exactly for every user name without a star.\<close>

theorem pattern_matcher_correct:
  assumes "star \<notin> set name"
  shows "(\<exists>b. pattern_loop pattern name 0 0 None 0 = Some b) \<and>
    (username_pattern_matches pattern name \<longleftrightarrow> glob pattern name)"
  using pattern_loop_total [of pattern name 0 0 None 0] pattern_matches_iff [OF assms]
  by (auto simp: pattern_decides_def pattern_inv_def)

theorem pattern_matcher_correct_witness:
  "username_pattern_matches (lit ''*b?'') (lit ''abbc'') \<longleftrightarrow> glob (lit ''*b?'') (lit ''abbc'')"
  using pattern_matcher_correct [of "lit ''abbc''" "lit ''*b?''"] by (simp add: star_def)

lemma glob_same_prefix: "glob ps us \<Longrightarrow> glob (pre @ ps) (pre @ us)"
proof (induction pre)
  case (Cons c pre)
  then show ?case
    by (auto intro: exI [of _ 1])
qed simp

lemma loop_same_prefix:
  "i \<le> length pre \<Longrightarrow> pattern_loop (pre @ ps) (pre @ us) i i None 0 = pattern_loop (pre @ ps) (pre @ us) (length pre) (length pre) None 0"
proof (induction "length pre - i" arbitrary: i)
  case (Suc n)
  have "i < length pre"
    using Suc.hyps(2) by simp
  then have "pattern_loop (pre @ ps) (pre @ us) i i None 0 = pattern_loop (pre @ ps) (pre @ us) (i + 1) (i + 1) None 0"
    by (subst pattern_loop.simps) (simp add: nth_append)
  then show ?case
    using Suc.hyps(1) [of "i + 1"] Suc.hyps(2) by simp
qed simp

text \<open>C40. A star in a user name is compared with the star of a pattern as a literal first. So a pattern that ends in its star and should match
  every name with its prefix matches no longer name that repeats the pattern: with any prefix, the name that consists of the
  pattern itself and something more is refused, though the pattern describes it. In particular the pattern \<^verbatim>\<open>*\<close> matches no name that
  starts with a star and is longer than it.\<close>

theorem star_pattern_misses_starred_name:
  "glob (pre @ [star]) (pre @ [star] @ tail) \<and> (username_pattern_matches (pre @ [star]) (pre @ [star] @ tail) \<longleftrightarrow> tail = [])"
proof
  have "glob [star] ([star] @ tail)"
    by (simp add: glob_star) (rule exI [of _ "Suc (length tail)"], simp)
  then show "glob (pre @ [star]) (pre @ [star] @ tail)"
    by (rule glob_same_prefix)
  have "pattern_loop (pre @ [star]) (pre @ [star] @ tail) (length pre) (length pre) None 0 =
      pattern_loop (pre @ [star]) (pre @ [star] @ tail) (Suc (length pre)) (Suc (length pre)) None 0"
    by (subst pattern_loop.simps) (simp add: nth_append)
  also have "\<dots> = Some (tail = [])"
    by (subst pattern_loop.simps) simp
  finally show "username_pattern_matches (pre @ [star]) (pre @ [star] @ tail) \<longleftrightarrow> tail = []"
    using loop_same_prefix [of 0 pre "[star]" "[star] @ tail"] by (simp add: username_pattern_matches_def)
qed

text \<open>The authentication request decoder accepts exactly the encodings of the valid requests: the fields
  of the methods none, password and publickey must fill the message, an unknown method may carry anything.\<close>

theorem userauth_decoder_exact:
  "fst (ssh_userauth_request_decode (ssh_buffer_wrap (Some m) (length m))) = Inr rq \<longleftrightarrow>
     userauth_request_valid rq \<and>
     (if ua_method_name rq \<in> known_methods then m = userauth_request_bytes rq
      else \<exists>rest. m = userauth_request_bytes rq @ rest)"
  using reads_fst [OF reads_userauth_request, of "ssh_buffer_wrap (Some m) (length m)" rq] by auto

text \<open>A password request that the client side encodes decodes to the same user, service and password.\<close>

theorem password_request_roundtrip:
  assumes "userauth_request_valid rq" "ua_method_name rq = Some SSH_AUTH_METHOD_PASSWORD"
    and "\<not> ua_password_change_request rq"
    and "length storage = cap" "length (userauth_request_bytes rq) \<le> cap"
  shows "\<exists>b. ssh_userauth_request_password_encode (ua_username rq) (ua_service_name rq) (ua_password rq)
      (ssh_buffer_init (Some storage) cap) = (Inr (), b) \<and>
    fst (ssh_userauth_request_decode (ssh_buffer_wrap (Some (buf_content b)) (length (buf_content b)))) = Inr rq"
proof -
  let ?m = "userauth_request_bytes rq"
  have "fst (ssh_userauth_request_decode (ssh_buffer_wrap (Some ?m) (length ?m))) = Inr rq"
    using reads_fst [OF reads_userauth_request, of "ssh_buffer_wrap (Some ?m) (length ?m)" rq] assms(1) by auto
  then show ?thesis
    using buffer_writer.put_fits [OF password_encode_writes [OF assms(1-3)], of "ssh_buffer_init (Some storage) cap"]
      assms(4,5) by simp
qed

theorem password_request_roundtrip_witness:
  "\<exists>b. ssh_userauth_request_password_encode (Some (lit ''al'')) (Some SSH_SERVICE_CONNECTION) (Some (lit ''pw''))
      (ssh_buffer_init (Some (replicate 99 0)) 99) = (Inr (), b) \<and>
    fst (ssh_userauth_request_decode (ssh_buffer_wrap (Some (buf_content b)) (length (buf_content b)))) =
      Inr (sample_request (lit ''al''))"
  using password_request_roundtrip [of "sample_request (lit ''al'')" "replicate 99 0" 99]
  by (simp add: sample_request_def empty_userauth_request_def userauth_request_valid_def method_fields_valid_def
      userauth_request_bytes_def method_fields_bytes_def len_in_def UINT32_MAX_def
      SSH_AUTH_METHOD_PASSWORD_def SSH_AUTH_METHOD_PUBLICKEY_def SSH_SERVICE_CONNECTION_def)

end
