(* ===== verification/Ssh_Transport.thy ===== *)
theory Ssh_Transport
  imports Emssh_Proc Ssh_Kex Ssh_Packet Ssh_Service Ssh_Userauth Ssh_Connection
begin

text \<open>
  The transport layer of \<^verbatim>\<open>src/core/ssh_transport.c\<close>: the identification exchange, the key exchange and the change of
  keys, packets over the network, and one receive or send procedure per message of the upper layers.

  A procedure works on the session and the world \<open>'w\<close>, which stands for the contexts of the platform callbacks and the
  connection. The server a session points to (\<^verbatim>\<open>session->server\<close>, constant) is the first argument of every definition.
  Where a session field is an array with a length that are always written together, the model has the list of the used bytes.
  \<^verbatim>\<open>client_kexinit_payload\<close> is also the scratch area of the receive loop, and the views of a channel request point into
  \<^verbatim>\<open>channel_request_payload\<close>, so these two are the array as far as it has been written; the first keeps its length field.
  Trace output to stderr is left out.
\<close>

section \<open>Platform interfaces\<close>

text \<open>\<^verbatim>\<open>net->read\<close> returns \<open>Inr\<close> with the bytes it stored for a positive return value, and \<open>Inl\<close> of a return value that is
  not positive; \<^verbatim>\<open>net->write\<close> returns its value. The connection is part of the world.\<close>

record 'w ssh_net_api =
  net_read :: "(nat \<Rightarrow> u32 \<Rightarrow> 'w \<Rightarrow> (int + u8 list) \<times> 'w) option"
  net_write :: "(u8 list \<Rightarrow> u32 \<Rightarrow> 'w \<Rightarrow> int \<times> 'w) option"

text \<open>The callbacks of the crypto interface the key exchange uses. Key generation and signing may draw random numbers.\<close>

record 'w ssh_kex_api =
  kex_generate_keypair :: "(view \<Rightarrow> ('w, u8 list \<times> u8 list) act) option"
  kex_compute_shared_secret :: "(view \<Rightarrow> u8 list \<Rightarrow> u8 list \<Rightarrow> ssh_err + u8 list) option"
  hostkey_public :: "(view \<Rightarrow> ssh_err + u8 list) option"
  hash_exchange :: "(view \<Rightarrow> u8 list \<Rightarrow> ssh_err + u8 list) option"
  hostkey_sign :: "(view \<Rightarrow> u8 list \<Rightarrow> ('w, u8 list) act) option"
  derive_key :: "(view \<Rightarrow> u8 list \<Rightarrow> u8 list \<Rightarrow> u8 list \<Rightarrow> char \<Rightarrow> nat \<Rightarrow> ssh_err + u8 list) option"
  kexinit_defaults :: "ssh_kexinit_algorithm_set option"

text \<open>The server as the transport sees it. The random generator is what it would return for each size, together with the
  world after the call; \<open>host_backend_algorithms\<close> is \<^verbatim>\<open>ssh_crypto_publickey_signature_algorithms()\<close>.\<close>

record 'w ssh_host = ssh_server +
  host_initialized :: bool
  host_net :: "'w ssh_net_api option"
  host_rng :: "('w \<Rightarrow> rng_fill \<times> 'w) option"
  host_kex :: "'w ssh_kex_api"
  host_backend_algorithms :: cstr

section \<open>Sessions\<close>

definition SSH_MSG_DISCONNECT :: u8 where "SSH_MSG_DISCONNECT = 1"
definition SSH_MSG_IGNORE :: u8 where "SSH_MSG_IGNORE = 2"
definition SSH_MSG_UNIMPLEMENTED :: u8 where "SSH_MSG_UNIMPLEMENTED = 3"
definition SSH_MSG_DEBUG :: u8 where "SSH_MSG_DEBUG = 4"
definition SSH_MSG_EXT_INFO :: u8 where "SSH_MSG_EXT_INFO = 7"
definition SSH_MSG_REQUEST_SUCCESS :: u8 where "SSH_MSG_REQUEST_SUCCESS = 81"
definition SSH_MSG_CHANNEL_EXTENDED_DATA :: u8 where "SSH_MSG_CHANNEL_EXTENDED_DATA = 95"
definition SSH_OPEN_UNKNOWN_CHANNEL_TYPE :: u32 where "SSH_OPEN_UNKNOWN_CHANNEL_TYPE = 3"
definition SSH_OPEN_RESOURCE_SHORTAGE :: u32 where "SSH_OPEN_RESOURCE_SHORTAGE = 4"
definition EMSSH_NET_IO_TIMEOUT :: int where "EMSSH_NET_IO_TIMEOUT = -2"
definition EMSSH_MAX_IDENTIFICATION_LINE :: nat where "EMSSH_MAX_IDENTIFICATION_LINE = 255"
definition EMSSH_MAX_KEXINIT_PAYLOAD :: nat where "EMSSH_MAX_KEXINIT_PAYLOAD = 2048"
definition EMSSH_MAX_KEX_REPLY_PAYLOAD :: nat where "EMSSH_MAX_KEX_REPLY_PAYLOAD = 2048"
definition EMSSH_MAX_SERVICE_PAYLOAD :: nat where "EMSSH_MAX_SERVICE_PAYLOAD = 256"
definition EMSSH_MAX_EXT_INFO_PAYLOAD :: nat where "EMSSH_MAX_EXT_INFO_PAYLOAD = 256"
definition EMSSH_MAX_CHANNEL_OPEN_PAYLOAD :: nat where "EMSSH_MAX_CHANNEL_OPEN_PAYLOAD = 512"
definition EMSSH_MAX_CHANNEL_REQUEST_PAYLOAD :: nat where "EMSSH_MAX_CHANNEL_REQUEST_PAYLOAD = 512"
definition EMSSH_MAX_CHANNEL_MESSAGE_PAYLOAD :: nat where
  "EMSSH_MAX_CHANNEL_MESSAGE_PAYLOAD = EMSSH_MAX_PAYLOAD_SIZE + 16"
definition EMSSH_MAX_USERAUTH_FAILURE_METHODS :: nat where "EMSSH_MAX_USERAUTH_FAILURE_METHODS = 64"

lemmas transport_limits = EMSSH_MAX_IDENTIFICATION_LINE_def EMSSH_MAX_KEXINIT_PAYLOAD_def
  EMSSH_MAX_KEX_REPLY_PAYLOAD_def EMSSH_MAX_SERVICE_PAYLOAD_def EMSSH_MAX_EXT_INFO_PAYLOAD_def
  EMSSH_MAX_CHANNEL_OPEN_PAYLOAD_def EMSSH_MAX_CHANNEL_REQUEST_PAYLOAD_def EMSSH_MAX_CHANNEL_MESSAGE_PAYLOAD_def
  EMSSH_MAX_USERAUTH_FAILURE_METHODS_def EMSSH_MAX_PAYLOAD_SIZE_def EMSSH_MAX_PACKET_SIZE_def

record ssh_identification =
  id_raw :: view
  id_protocol_version :: view
  id_software_version :: view
  id_comments :: view

datatype ssh_transport_state =
    SSH_TRANSPORT_STATE_INIT
  | SSH_TRANSPORT_STATE_IDENT_SENT
  | SSH_TRANSPORT_STATE_IDENT_RECEIVED
  | SSH_TRANSPORT_STATE_KEXINIT_SENT
  | SSH_TRANSPORT_STATE_KEXINIT_RECEIVED
  | SSH_TRANSPORT_STATE_NEGOTIATED
  | SSH_TRANSPORT_STATE_KEX_ECDH_INIT_RECEIVED
  | SSH_TRANSPORT_STATE_KEX_ECDH_REPLY_SENT
  | SSH_TRANSPORT_STATE_NEWKEYS_SENT
  | SSH_TRANSPORT_STATE_NEWKEYS_RECEIVED
  | SSH_TRANSPORT_STATE_SERVICE_REQUEST_RECEIVED
  | SSH_TRANSPORT_STATE_SERVICE_ACCEPT_SENT
  | SSH_TRANSPORT_STATE_USERAUTH_REQUEST_RECEIVED
  | SSH_TRANSPORT_STATE_USERAUTH_PK_OK_SENT
  | SSH_TRANSPORT_STATE_USERAUTH_SUCCESS_SENT
  | SSH_TRANSPORT_STATE_USERAUTH_FAILURE_SENT
  | SSH_TRANSPORT_STATE_GLOBAL_REQUEST_RECEIVED
  | SSH_TRANSPORT_STATE_REQUEST_FAILURE_SENT
  | SSH_TRANSPORT_STATE_CHANNEL_OPEN_RECEIVED
  | SSH_TRANSPORT_STATE_CHANNEL_OPEN_CONFIRMATION_SENT
  | SSH_TRANSPORT_STATE_CHANNEL_OPEN_FAILURE_SENT
  | SSH_TRANSPORT_STATE_CHANNEL_REQUEST_RECEIVED
  | SSH_TRANSPORT_STATE_CHANNEL_SUCCESS_SENT
  | SSH_TRANSPORT_STATE_CHANNEL_FAILURE_SENT
  | SSH_TRANSPORT_STATE_CHANNEL_WINDOW_ADJUST_RECEIVED
  | SSH_TRANSPORT_STATE_CHANNEL_WINDOW_ADJUST_SENT
  | SSH_TRANSPORT_STATE_CHANNEL_DATA_RECEIVED
  | SSH_TRANSPORT_STATE_CHANNEL_DATA_SENT
  | SSH_TRANSPORT_STATE_CHANNEL_EOF_RECEIVED
  | SSH_TRANSPORT_STATE_CHANNEL_EOF_SENT
  | SSH_TRANSPORT_STATE_CHANNEL_CLOSE_RECEIVED
  | SSH_TRANSPORT_STATE_CHANNEL_CLOSE_SENT

text \<open>A value with its \<^verbatim>\<open>_valid\<close> flag is an option. \<^verbatim>\<open>client_kexinit\<close> and the used parts of the payload arrays are read
  only by the procedure that fills them.\<close>

record ssh_transport_session =
  ts_state :: ssh_transport_state
  ts_server_identification_line :: "u8 list"
  ts_server_identification :: ssh_identification
  ts_client_identification_line :: "u8 list"
  ts_client_identification :: ssh_identification
  ts_server_algorithms :: ssh_kexinit_algorithm_set
  ts_server_kexinit_payload :: "u8 list"
  ts_client_kexinit_payload :: "u8 list"
  ts_client_kexinit_payload_len :: nat
  ts_client_supports_ext_info :: bool
  ts_inbound_sequence :: u32
  ts_outbound_sequence :: u32
  ts_rekey_after_packets :: u64
  ts_rekey_after_bytes :: u64
  ts_inbound_rekey_packets :: u64
  ts_outbound_rekey_packets :: u64
  ts_inbound_rekey_bytes :: u64
  ts_outbound_rekey_bytes :: u64
  ts_rekey_needed :: bool
  ts_rekey_in_progress :: bool
  ts_negotiation :: ssh_kex_negotiation
  ts_client_kex_public_key :: "u8 list"
  ts_server_kex_public_key :: "u8 list"
  ts_server_kex_private_key :: "u8 list"
  ts_shared_secret :: "u8 list"
  ts_exchange_hash :: "u8 list"
  ts_session_id :: "u8 list"
  ts_server_host_key :: "u8 list"
  ts_server_signature :: "u8 list"
  ts_inbound :: ssh_packet_protection
  ts_outbound :: ssh_packet_protection
  ts_channel_request_payload :: "u8 list"
  ts_authenticated_username :: "u8 list"
  ts_last_received_message_id :: "u8 option"
  ts_last_channel_request_type :: "u8 list option"
  ts_last_channel_request_want_reply :: bool

type_synonym 'w tstate = "ssh_transport_session \<times> 'w"

text \<open>Access to the session and calls on the world.\<close>

definition tsP :: "(ssh_transport_session \<Rightarrow> ('w tstate, 'a) proc) \<Rightarrow> ('w tstate, 'a) proc" where
  "tsP k = askP (\<lambda>s. k (fst s))"

definition modP :: "(ssh_transport_session \<Rightarrow> ssh_transport_session) \<Rightarrow> ('w tstate, unit) proc" where
  "modP f = setP (\<lambda>s. (f (fst s), snd s))"

definition callP :: "('w, 'a) act \<Rightarrow> ('w tstate, 'a) proc" where
  "callP m = onP (actP m)"

definition to_state :: "ssh_transport_state \<Rightarrow> ('w tstate, unit) proc" where
  "to_state st = modP (ts_state_update (\<lambda>_. st))"

text \<open>\<^verbatim>\<open>ssh_buffer_init(&buf, payload, sizeof(payload)); status = encode(&buf, ...)\<close>: the bytes of the message.\<close>

definition encode_payload :: "nat \<Rightarrow> (ssh_buffer, unit) act \<Rightarrow> ssh_err + u8 list" where
  "encode_payload cap put = (case put (ssh_buffer_init (Some (replicate cap 0)) cap) of
     (Inl e, _) \<Rightarrow> Inl e
   | (Inr _, buf) \<Rightarrow> Inr (buf_content buf))"

text \<open>\<^verbatim>\<open>ssh_buffer_wrap(&buf, payload, payload_len); status = decode(&buf, ...)\<close>\<close>

definition decode_payload :: "(ssh_buffer, 'a) act \<Rightarrow> u8 list \<Rightarrow> ssh_err + 'a" where
  "decode_payload get payload = fst (get (ssh_buffer_wrap (Some payload) (length payload)))"

section \<open>Helpers\<close>

definition is_space :: "u8 \<Rightarrow> bool" where
  "is_space c \<longleftrightarrow> c = 32"

definition is_ident_char :: "u8 \<Rightarrow> bool" where
  "is_ident_char c \<longleftrightarrow> c \<ge> 0x20 \<and> c \<le> 0x7e"

definition view_equals_cstr :: "view \<Rightarrow> u8 list \<Rightarrow> bool" where
  "view_equals_cstr v val \<longleftrightarrow> (if v = None then False else view_len v = length val \<and> view_data v = val)"

definition channel_request_is_putty_extension :: "ssh_channel_request \<Rightarrow> bool" where
  "channel_request_is_putty_extension request \<longleftrightarrow>
     view_equals_cstr (cr_request_type request) (lit ''simple@putty.projects.tartarus.org'') \<or>
     view_equals_cstr (cr_request_type request) (lit ''winadj@putty.projects.tartarus.org'')"

text \<open>The loop of \<^verbatim>\<open>name_list_contains\<close> from index \<open>i\<close> on.\<close>

function name_list_contains_loop :: "u8 list \<Rightarrow> u8 list \<Rightarrow> nat \<Rightarrow> nat \<Rightarrow> bool" where
  "name_list_contains_loop list name start i =
    (if i > length list then False
     else if i = length list \<or> list ! i = comma then
       if i - start = length name \<and> take (i - start) (drop start list) = name then True
       else name_list_contains_loop list name (i + 1) (i + 1)
     else name_list_contains_loop list name start (i + 1))"
  by pat_completeness auto
termination by (relation "measure (\<lambda>(list, name, start, i). Suc (length list) - i)") auto

declare name_list_contains_loop.simps [simp del]

definition name_list_contains :: "view \<Rightarrow> u8 list \<Rightarrow> bool" where
  "name_list_contains list name = (case list of None \<Rightarrow> False | Some l \<Rightarrow> name_list_contains_loop l name 0 0)"

definition signature_algorithms_valid :: "cstr \<Rightarrow> bool" where
  "signature_algorithms_valid val = (if val = None \<or> val = Some [] then True else ssh_name_list_is_valid val)"

definition view_algorithm_size :: "view \<Rightarrow> u8 list \<Rightarrow> nat \<Rightarrow> nat" where
  "view_algorithm_size v algorithm val = (if view_len v = length algorithm \<and> view_data v = algorithm then val else 0)"

definition negotiated_packet_sizes :: "ssh_kex_negotiation \<Rightarrow> ssh_err + nat \<times> nat \<times> nat \<times> nat \<times> nat" where
  "negotiated_packet_sizes negotiation =
    (let cipher_key_len = view_algorithm_size (neg_encryption_algorithm_client_to_server negotiation) (lit ''aes128-ctr'') 16;
         cipher_iv_len = view_algorithm_size (neg_encryption_algorithm_client_to_server negotiation) (lit ''aes128-ctr'') 16;
         block_size = view_algorithm_size (neg_encryption_algorithm_client_to_server negotiation) (lit ''aes128-ctr'') 16;
         mac_key_len = view_algorithm_size (neg_mac_algorithm_client_to_server negotiation) (lit ''hmac-sha2-256'') 32;
         mac_len = view_algorithm_size (neg_mac_algorithm_client_to_server negotiation) (lit ''hmac-sha2-256'') 32
     in if cipher_key_len = 0 \<or> cipher_iv_len = 0 \<or> block_size = 0 \<or> mac_key_len = 0 \<or> mac_len = 0
        then Inl SSH_ERR_UNSUPPORTED
        else Inr (cipher_key_len, cipher_iv_len, block_size, mac_key_len, mac_len))"

section \<open>Identification\<close>

definition ssh_identification_parse_line :: "u8 list \<Rightarrow> ssh_err + ssh_identification" where
  "ssh_identification_parse_line line =
    (let len = length line;
         raw_len = (if len \<ge> 2 \<and> line ! (len - 2) = 13 \<and> line ! (len - 1) = 10 then len - 2
                    else if len \<ge> 1 \<and> line ! (len - 1) = 10 then len - 1 else len);
         raw = take raw_len line
     in if raw_len = 0 \<or> raw_len > EMSSH_MAX_IDENTIFICATION_LINE then Inl SSH_ERR_MALFORMED_PACKET
     else if \<not> list_all is_ident_char raw then Inl SSH_ERR_MALFORMED_PACKET
     else if raw_len < 8 \<or> take 4 line \<noteq> lit ''SSH-'' then Inl SSH_ERR_MALFORMED_PACKET
     else
       let protocol = takeWhile (\<lambda>c. c \<noteq> 45) (drop 4 raw);
           protocol_end = 4 + length protocol
       in if list_ex is_space protocol then Inl SSH_ERR_MALFORMED_PACKET
       else if protocol = [] \<or> protocol_end \<ge> raw_len then Inl SSH_ERR_MALFORMED_PACKET
       else
         let software = takeWhile (\<lambda>c. \<not> is_space c) (drop (protocol_end + 1) raw);
             software_end = protocol_end + 1 + length software;
             comments_start = (if software_end < raw_len \<and> is_space (raw ! software_end) then software_end + 1 else software_end)
         in if software = [] then Inl SSH_ERR_MALFORMED_PACKET
         else Inr \<lparr>id_raw = Some raw, id_protocol_version = Some protocol, id_software_version = Some software,
                id_comments = (if comments_start < raw_len then Some (drop comments_start raw) else None)\<rparr>)"

definition ssh_identification_is_ssh2_compatible :: "ssh_identification \<Rightarrow> bool" where
  "ssh_identification_is_ssh2_compatible ident \<longleftrightarrow>
     view_equals_cstr (id_protocol_version ident) (lit ''2.0'') \<or>
     view_equals_cstr (id_protocol_version ident) (lit ''1.99'')"

text \<open>\<^verbatim>\<open>ssh_server_format_identification\<close> of \<^verbatim>\<open>src/core/ssh_server.c\<close>: the line without the terminating NUL.\<close>

definition EMSSH_SOFTWARE_NAME :: "u8 list" where "EMSSH_SOFTWARE_NAME = lit ''emsshd_0.1''"

definition ssh_server_format_identification :: "('w, 'z) ssh_host_scheme \<Rightarrow> nat \<Rightarrow> ssh_err + u8 list" where
  "ssh_server_format_identification server out_capacity =
    (if out_capacity = 0 \<or> \<not> host_initialized server then Inl SSH_ERR_INVALID_ARGUMENT
     else let software_name = (case cfg_software_name (srv_config server) of Some n \<Rightarrow> n | None \<Rightarrow> EMSSH_SOFTWARE_NAME);
              line = lit ''SSH-2.0-'' @ software_name @ [13, 10]
     in if out_capacity \<le> length line then Inl SSH_ERR_BUFFER_TOO_SMALL else Inr line)"

section \<open>Network\<close>

text \<open>One turn of the loop of \<^verbatim>\<open>net_read_exact\<close>, which carries the bytes read so far.\<close>

definition net_read_step :: "(nat \<Rightarrow> u32 \<Rightarrow> 'w \<Rightarrow> (int + u8 list) \<times> 'w) \<Rightarrow> nat \<Rightarrow> u32 \<Rightarrow> u8 list
    \<Rightarrow> ('w, u8 list) act" where
  "net_read_step read len timeout_ms done w = (case read (len - length done) timeout_ms w of
     (Inl n, w') \<Rightarrow>
       if n = EMSSH_NET_IO_TIMEOUT then if length done = 0 then (Inl SSH_ERR_NOT_FOUND, w') else (Inr done, w')
       else if n < 0 then (Inl SSH_ERR_PLATFORM, w')
       else (Inl SSH_ERR_CLOSED, w')
   | (Inr bs, w') \<Rightarrow> if length bs = 0 then (Inl SSH_ERR_CLOSED, w') else (Inr (done @ bs), w'))"

definition net_read_exact :: "('w, 'z) ssh_host_scheme \<Rightarrow> nat \<Rightarrow> u32 \<Rightarrow> ('w tstate, u8 list) proc" where
  "net_read_exact server len timeout_ms =
    (case host_net server of None \<Rightarrow> failP SSH_ERR_INVALID_ARGUMENT
     | Some net \<Rightarrow> (case net_read net of None \<Rightarrow> failP SSH_ERR_INVALID_ARGUMENT
       | Some read \<Rightarrow> loopP (\<lambda>done. if length done < len
           then bindP (callP (net_read_step read len timeout_ms done)) (\<lambda>done. retP (Inl done))
           else retP (Inr done)) []))"

function net_write_loop :: "(u8 list \<Rightarrow> u32 \<Rightarrow> 'w \<Rightarrow> int \<times> 'w) \<Rightarrow> u32 \<Rightarrow> u8 list \<Rightarrow> ('w, unit) act" where
  "net_write_loop write timeout_ms buf w =
    (if buf = [] then (Inr (), w)
     else case write buf timeout_ms w of (n, w') \<Rightarrow>
       if n = 0 then (Inl SSH_ERR_CLOSED, w')
       else if n < 0 then (Inl SSH_ERR_PLATFORM, w')
       else net_write_loop write timeout_ms (drop (nat n) buf) w')"
  by pat_completeness auto
termination by (relation "measure (\<lambda>(write, timeout_ms, buf, w). length buf)") auto

declare net_write_loop.simps [simp del]

definition net_write_all :: "('w, 'z) ssh_host_scheme \<Rightarrow> u8 list \<Rightarrow> u32 \<Rightarrow> ('w tstate, unit) proc" where
  "net_write_all server buf timeout_ms =
    (case host_net server of None \<Rightarrow> failP SSH_ERR_INVALID_ARGUMENT
     | Some net \<Rightarrow> (case net_write net of None \<Rightarrow> failP SSH_ERR_INVALID_ARGUMENT
       | Some write \<Rightarrow> callP (net_write_loop write timeout_ms buf)))"

definition transport_read_u32_be :: "u8 list \<Rightarrow> u32" where
  "transport_read_u32_be data =
     push_bit 24 (ucast (data ! 0)) OR push_bit 16 (ucast (data ! 1)) OR push_bit 8 (ucast (data ! 2)) OR ucast (data ! 3)"

section \<open>Rekeying limits\<close>

definition add_u64_saturating :: "u64 \<Rightarrow> u64 \<Rightarrow> u64" where
  "add_u64_saturating lhs rhs = (if - 1 - lhs < rhs then - 1 else lhs + rhs)"

definition update_rekey_needed :: "ssh_transport_session \<Rightarrow> ssh_transport_session" where
  "update_rekey_needed session = session\<lparr>ts_rekey_needed :=
     (ts_rekey_after_packets session \<noteq> 0 \<and>
      (ts_inbound_rekey_packets session \<ge> ts_rekey_after_packets session \<or>
       ts_outbound_rekey_packets session \<ge> ts_rekey_after_packets session)) \<or>
     (ts_rekey_after_bytes session \<noteq> 0 \<and>
      (ts_inbound_rekey_bytes session \<ge> ts_rekey_after_bytes session \<or>
       ts_outbound_rekey_bytes session \<ge> ts_rekey_after_bytes session))\<rparr>"

definition record_rekey_packet :: "bool \<Rightarrow> nat \<Rightarrow> ssh_transport_session \<Rightarrow> ssh_transport_session" where
  "record_rekey_packet outbound wire_len session = update_rekey_needed
    (if outbound then session\<lparr>
       ts_outbound_rekey_packets := add_u64_saturating (ts_outbound_rekey_packets session) 1,
       ts_outbound_rekey_bytes := add_u64_saturating (ts_outbound_rekey_bytes session) (of_nat wire_len)\<rparr>
     else session\<lparr>
       ts_inbound_rekey_packets := add_u64_saturating (ts_inbound_rekey_packets session) 1,
       ts_inbound_rekey_bytes := add_u64_saturating (ts_inbound_rekey_bytes session) (of_nat wire_len)\<rparr>)"

definition reset_rekey_direction :: "bool \<Rightarrow> ssh_transport_session \<Rightarrow> ssh_transport_session" where
  "reset_rekey_direction outbound session = update_rekey_needed
    (if outbound then session\<lparr>ts_outbound_rekey_packets := 0, ts_outbound_rekey_bytes := 0\<rparr>
     else session\<lparr>ts_inbound_rekey_packets := 0, ts_inbound_rekey_bytes := 0\<rparr>)"

definition ssh_transport_set_rekey_limits :: "u64 \<Rightarrow> u64 \<Rightarrow> ('w tstate, unit) proc" where
  "ssh_transport_set_rekey_limits packets bytes = modP (\<lambda>session. session\<lparr>
     ts_rekey_after_packets := packets, ts_rekey_after_bytes := bytes,
     ts_inbound_rekey_packets := 0, ts_outbound_rekey_packets := 0,
     ts_inbound_rekey_bytes := 0, ts_outbound_rekey_bytes := 0, ts_rekey_needed := False\<rparr>)"

definition ssh_transport_rekey_needed :: "ssh_transport_session \<Rightarrow> bool" where
  "ssh_transport_rekey_needed session = ts_rekey_needed session"

text \<open>The type is kept as a C string in 64 bytes.\<close>

definition record_last_channel_request_diag :: "ssh_channel_request \<Rightarrow> ssh_transport_session \<Rightarrow> ssh_transport_session" where
  "record_last_channel_request_diag request session = (case cr_request_type request of
     None \<Rightarrow> session
   | Some type \<Rightarrow> session\<lparr>ts_last_channel_request_type := Some (take 63 type),
       ts_last_channel_request_want_reply := cr_want_reply request\<rparr>)"

section \<open>Packets\<close>

text \<open>A use of the random generator.\<close>

definition rngP :: "('w, 'z) ssh_host_scheme \<Rightarrow> (rng_fill option \<Rightarrow> ('w tstate, 'a) proc) \<Rightarrow> ('w tstate, 'a) proc" where
  "rngP server k s = (case host_rng server of
     None \<Rightarrow> k None s
   | Some rng \<Rightarrow> (case rng (snd s) of (fill, w) \<Rightarrow> k (Some fill) (fst s, w)))"

definition packet_storage :: "u8 list" where
  "packet_storage = replicate (EMSSH_MAX_PACKET_SIZE + 4 + EMSSH_MAX_MAC) 0"

definition ssh_transport_send_protected_payload ::
    "('w, 'z) ssh_host_scheme \<Rightarrow> u8 list \<Rightarrow> u32 \<Rightarrow> ('w tstate, unit) proc" where
  "ssh_transport_send_protected_payload server payload timeout_ms = tsP (\<lambda>session.
     thenP (ensureP (prot_active (ts_outbound session)) SSH_ERR_INVALID_ARGUMENT)
     (rngP server (\<lambda>rng.
       case ssh_packet_encode_protected packet_storage (length packet_storage) payload rng (ts_outbound session) of
         (status, packet, outbound) \<Rightarrow>
           thenP (modP (\<lambda>session. session\<lparr>ts_outbound := outbound\<rparr>))
           (bindP (valueP status) (\<lambda>packet_len.
           thenP (net_write_all server (take packet_len packet) timeout_ms)
           (modP (\<lambda>session. record_rekey_packet True packet_len
             (session\<lparr>ts_outbound_sequence := prot_sequence (ts_outbound session)\<rparr>))))))))"

definition send_transport_payload :: "('w, 'z) ssh_host_scheme \<Rightarrow> u8 list \<Rightarrow> u32 \<Rightarrow> ('w tstate, unit) proc" where
  "send_transport_payload server payload timeout_ms = tsP (\<lambda>session.
     if prot_active (ts_outbound session) then ssh_transport_send_protected_payload server payload timeout_ms
     else rngP server (\<lambda>rng.
       case ssh_packet_encode_plain packet_storage (length packet_storage) payload SSH_PACKET_MIN_BLOCK_SIZE rng of
         (status, packet) \<Rightarrow>
           bindP (valueP status) (\<lambda>packet_len.
           thenP (net_write_all server (take packet_len packet) timeout_ms)
           (modP (\<lambda>session. session\<lparr>ts_outbound_sequence := ts_outbound_sequence session + 1\<rparr>)))))"

text \<open>A receiver returns the payload, at most \<^verbatim>\<open>payload_capacity\<close> bytes of it.\<close>

definition receive_plain_packet :: "('w, 'z) ssh_host_scheme \<Rightarrow> nat \<Rightarrow> u32 \<Rightarrow> ('w tstate, u8 list) proc" where
  "receive_plain_packet server payload_capacity timeout_ms =
     bindP (net_read_exact server 4 timeout_ms) (\<lambda>header.
     let packet_length = unat (transport_read_u32_be header) in
     thenP (ensureP (\<not> (packet_length = 0 \<or> packet_length > EMSSH_MAX_PACKET_SIZE)) SSH_ERR_MALFORMED_PACKET)
     (bindP (net_read_exact server packet_length timeout_ms) (\<lambda>rest.
     bindP (valueP (ssh_packet_decode_plain (header @ rest) (packet_length + 4))) (\<lambda>payload.
     thenP (ensureP (\<not> length payload > payload_capacity) SSH_ERR_BUFFER_TOO_SMALL)
     (thenP (modP (\<lambda>session. session\<lparr>ts_inbound_sequence := ts_inbound_sequence session + 1\<rparr>))
     (retP payload))))))"

definition ssh_transport_receive_protected_payload ::
    "('w, 'z) ssh_host_scheme \<Rightarrow> nat \<Rightarrow> u32 \<Rightarrow> ('w tstate, u8 list) proc" where
  "ssh_transport_receive_protected_payload server payload_capacity timeout_ms = tsP (\<lambda>session.
     let inbound = ts_inbound session; block_size = prot_block_size inbound in
     thenP (ensureP (prot_active inbound) SSH_ERR_INVALID_ARGUMENT)
     (thenP (ensureP (\<not> (block_size < SSH_PACKET_MIN_BLOCK_SIZE \<or> block_size > EMSSH_MAX_CIPHER_IV)) SSH_ERR_INVALID_ARGUMENT)
     (bindP (net_read_exact server block_size timeout_ms) (\<lambda>first.
     case protection_crypt inbound (prot_cipher_iv inbound) SSH_CIPHER_DECRYPT first of
       (Inl _, _) \<Rightarrow> failP SSH_ERR_PLATFORM
     | (Inr _, first_block) \<Rightarrow>
       let packet_length = unat (transport_read_u32_be first_block); encrypted_len = packet_length + 4 in
       thenP (ensureP (\<not> (packet_length = 0 \<or> packet_length > EMSSH_MAX_PACKET_SIZE)) SSH_ERR_MALFORMED_PACKET)
       (thenP (ensureP (\<not> (encrypted_len < block_size \<or> encrypted_len > EMSSH_MAX_PACKET_SIZE + 4 \<or>
                 encrypted_len mod block_size \<noteq> 0)) SSH_ERR_MALFORMED_PACKET)
       (bindP (net_read_exact server ((encrypted_len - block_size) + prot_mac_len inbound) timeout_ms) (\<lambda>rest.
       let packet_len = encrypted_len + prot_mac_len inbound in
       case ssh_packet_decode_protected (first @ rest) packet_len inbound of
         (status, _, inbound) \<Rightarrow>
           thenP (modP (\<lambda>session. session\<lparr>ts_inbound := inbound\<rparr>))
           (bindP (valueP status) (\<lambda>payload.
           thenP (ensureP (\<not> length payload > payload_capacity) SSH_ERR_BUFFER_TOO_SMALL)
           (thenP (modP (\<lambda>session. record_rekey_packet False packet_len
             (session\<lparr>ts_inbound_sequence := prot_sequence (ts_inbound session)\<rparr>)))
           (retP payload)))))))))))"

definition receive_transport_payload :: "('w, 'z) ssh_host_scheme \<Rightarrow> nat \<Rightarrow> u32 \<Rightarrow> ('w tstate, u8 list) proc" where
  "receive_transport_payload server payload_capacity timeout_ms = tsP (\<lambda>session.
     if prot_active (ts_inbound session) then ssh_transport_receive_protected_payload server payload_capacity timeout_ms
     else receive_plain_packet server payload_capacity timeout_ms)"

section \<open>Session start\<close>

definition transport_copy_algorithms :: "('w, 'z) ssh_host_scheme \<Rightarrow> ssh_kexinit_algorithm_set option \<Rightarrow> ssh_kexinit_algorithm_set" where
  "transport_copy_algorithms server src = (case src of
     Some algorithms \<Rightarrow> algorithms
   | None \<Rightarrow> (case if srv_crypto server \<noteq> None then kexinit_defaults (host_kex server) else None of
       Some algorithms \<Rightarrow> algorithms
     | None \<Rightarrow> ssh_kexinit_algorithm_set_defaults))"

definition empty_identification :: ssh_identification where
  "empty_identification = \<lparr>id_raw = None, id_protocol_version = None, id_software_version = None, id_comments = None\<rparr>"

definition ssh_transport_session_init ::
    "('w, 'z) ssh_host_scheme \<Rightarrow> ssh_kexinit_algorithm_set option \<Rightarrow> ssh_err + ssh_transport_session" where
  "ssh_transport_session_init server server_algorithms =
    (if \<not> host_initialized server then Inl SSH_ERR_INVALID_ARGUMENT
     else Inr \<lparr>ts_state = SSH_TRANSPORT_STATE_INIT,
       ts_server_identification_line = [], ts_server_identification = empty_identification,
       ts_client_identification_line = [], ts_client_identification = empty_identification,
       ts_server_algorithms = transport_copy_algorithms server server_algorithms,
       ts_server_kexinit_payload = [], ts_client_kexinit_payload = [], ts_client_kexinit_payload_len = 0,
       ts_client_supports_ext_info = False, ts_inbound_sequence = 0, ts_outbound_sequence = 0,
       ts_rekey_after_packets = 0, ts_rekey_after_bytes = 0, ts_inbound_rekey_packets = 0,
       ts_outbound_rekey_packets = 0, ts_inbound_rekey_bytes = 0, ts_outbound_rekey_bytes = 0,
       ts_rekey_needed = False, ts_rekey_in_progress = False, ts_negotiation = empty_negotiation,
       ts_client_kex_public_key = [], ts_server_kex_public_key = [], ts_server_kex_private_key = [],
       ts_shared_secret = [], ts_exchange_hash = [], ts_session_id = [], ts_server_host_key = [],
       ts_server_signature = [], ts_inbound = ssh_packet_protection_init, ts_outbound = ssh_packet_protection_init,
       ts_channel_request_payload = [], ts_authenticated_username = [], ts_last_received_message_id = None,
       ts_last_channel_request_type = None, ts_last_channel_request_want_reply = False\<rparr>)"

text \<open>The loop of \<^verbatim>\<open>receive_one_line\<close> ends when the line is full or with a line feed.\<close>

definition receive_one_line :: "('w, 'z) ssh_host_scheme \<Rightarrow> nat \<Rightarrow> u32 \<Rightarrow> ('w tstate, u8 list) proc" where
  "receive_one_line server capacity timeout_ms =
    (if capacity = 0 then failP SSH_ERR_INVALID_ARGUMENT
     else forP capacity (\<lambda>_. failP SSH_ERR_MALFORMED_PACKET) (\<lambda>line.
       bindP (net_read_exact server 1 timeout_ms) (\<lambda>c.
       retP (if c ! 0 = 10 then Inr (line @ c) else Inl (line @ c)))) [])"

definition ssh_transport_send_identification :: "('w, 'z) ssh_host_scheme \<Rightarrow> u32 \<Rightarrow> ('w tstate, unit) proc" where
  "ssh_transport_send_identification server timeout_ms =
     bindP (valueP (ssh_server_format_identification server (EMSSH_MAX_IDENTIFICATION_LINE + 2))) (\<lambda>line.
     thenP (modP (\<lambda>session. session\<lparr>ts_server_identification_line := line\<rparr>))
     (bindP (valueP (ssh_identification_parse_line line)) (\<lambda>ident.
     thenP (modP (\<lambda>session. session\<lparr>ts_server_identification := ident\<rparr>))
     (thenP (net_write_all server line timeout_ms)
     (to_state SSH_TRANSPORT_STATE_IDENT_SENT)))))"

definition ssh_transport_receive_identification :: "('w, 'z) ssh_host_scheme \<Rightarrow> u32 \<Rightarrow> ('w tstate, unit) proc" where
  "ssh_transport_receive_identification server timeout_ms = forP 20 (\<lambda>_. failP SSH_ERR_MALFORMED_PACKET) (\<lambda>_.
     bindP (receive_one_line server (EMSSH_MAX_IDENTIFICATION_LINE + 2) timeout_ms) (\<lambda>line.
     thenP (modP (\<lambda>session. session\<lparr>ts_client_identification_line := line\<rparr>))
     (if length line \<ge> 4 \<and> take 4 line = lit ''SSH-'' then
        bindP (valueP (ssh_identification_parse_line line)) (\<lambda>ident.
        thenP (modP (\<lambda>session. session\<lparr>ts_client_identification := ident\<rparr>))
        (thenP (ensureP (ssh_identification_is_ssh2_compatible ident) SSH_ERR_UNSUPPORTED)
        (thenP (to_state SSH_TRANSPORT_STATE_IDENT_RECEIVED) (retP (Inr ())))))
      else retP (Inl ())))) ()"

section \<open>Key exchange\<close>

definition ssh_transport_send_kexinit :: "('w, 'z) ssh_host_scheme \<Rightarrow> u32 \<Rightarrow> ('w tstate, unit) proc" where
  "ssh_transport_send_kexinit server timeout_ms = rngP server (\<lambda>rng. case rng of
     None \<Rightarrow> failP SSH_ERR_PLATFORM
   | Some fill \<Rightarrow>
     bindP (valueP (fill SSH_KEX_COOKIE_LEN)) (\<lambda>cookie. tsP (\<lambda>session.
     bindP (valueP (encode_payload EMSSH_MAX_KEXINIT_PAYLOAD
       (ssh_kexinit_encode cookie (Some (ts_server_algorithms session)) False))) (\<lambda>payload.
     thenP (modP (\<lambda>session. session\<lparr>ts_server_kexinit_payload := payload\<rparr>))
     (thenP (send_transport_payload server payload timeout_ms)
     (to_state SSH_TRANSPORT_STATE_KEXINIT_SENT))))))"

definition process_kexinit_payload :: "u8 list \<Rightarrow> ('w tstate, unit) proc" where
  "process_kexinit_payload payload =
     thenP (ensureP (length payload \<noteq> 0) SSH_ERR_INVALID_ARGUMENT)
     (thenP (ensureP (\<not> length payload > EMSSH_MAX_KEXINIT_PAYLOAD) SSH_ERR_BUFFER_TOO_SMALL)
     (thenP (modP (\<lambda>session. session\<lparr>ts_client_kexinit_payload := overwrite (ts_client_kexinit_payload session) 0 payload,
        ts_client_kexinit_payload_len := length payload\<rparr>))
     (bindP (valueP (decode_payload ssh_kexinit_decode payload)) (\<lambda>client_kexinit. tsP (\<lambda>session.
     case ssh_kex_negotiate client_kexinit (Some (ts_server_algorithms session)) (ts_negotiation session) of (status, negotiation) \<Rightarrow>
     thenP (modP (\<lambda>session. session\<lparr>ts_negotiation := negotiation\<rparr>))
     (thenP (valueP status)
     (thenP (modP (\<lambda>session. session\<lparr>ts_client_supports_ext_info :=
          name_list_contains (kx_name_lists client_kexinit ! index_nat SSH_KEX_ALGORITHMS) (lit ''ext-info-c'')\<rparr>))
     (to_state SSH_TRANSPORT_STATE_NEGOTIATED))))))))"

definition ssh_transport_receive_kexinit :: "('w, 'z) ssh_host_scheme \<Rightarrow> u32 \<Rightarrow> ('w tstate, unit) proc" where
  "ssh_transport_receive_kexinit server timeout_ms =
     bindP (receive_transport_payload server EMSSH_MAX_KEXINIT_PAYLOAD timeout_ms) (\<lambda>payload.
     thenP (modP (\<lambda>session. session\<lparr>ts_client_kexinit_payload := overwrite (ts_client_kexinit_payload session) 0 payload,
        ts_client_kexinit_payload_len := length payload\<rparr>))
     (process_kexinit_payload payload))"

text \<open>The puts of \<^verbatim>\<open>build_exchange_hash_input\<close>; \<^verbatim>\<open>client_kexinit_payload\<close> with its length.\<close>

definition put_exchange_hash_input :: "ssh_transport_session \<Rightarrow> (ssh_buffer, unit) act" where
  "put_exchange_hash_input session =
     thenA (ssh_buffer_put_string (view_data (id_raw (ts_client_identification session))))
     (thenA (ssh_buffer_put_string (view_data (id_raw (ts_server_identification session))))
     (thenA (ssh_buffer_put_string (take (ts_client_kexinit_payload_len session) (ts_client_kexinit_payload session)))
     (thenA (ssh_buffer_put_string (ts_server_kexinit_payload session))
     (thenA (ssh_buffer_put_string (ts_server_host_key session))
     (thenA (ssh_buffer_put_string (ts_client_kex_public_key session))
     (thenA (ssh_buffer_put_string (ts_server_kex_public_key session))
     (ssh_buffer_put_mpint_positive (ts_shared_secret session))))))))"

definition build_exchange_hash_input :: "ssh_transport_session \<Rightarrow> nat \<Rightarrow> ssh_err + u8 list" where
  "build_exchange_hash_input session out_capacity = encode_payload out_capacity (put_exchange_hash_input session)"

definition ssh_transport_receive_kex_ecdh_init :: "('w, 'z) ssh_host_scheme \<Rightarrow> u32 \<Rightarrow> ('w tstate, unit) proc" where
  "ssh_transport_receive_kex_ecdh_init server timeout_ms =
     bindP (receive_transport_payload server (EMSSH_MAX_KEX_PUBLIC_KEY + 16) timeout_ms) (\<lambda>payload.
     bindP (valueP (decode_payload ssh_kex_ecdh_init_decode payload)) (\<lambda>client_public_key.
     thenP (modP (\<lambda>session. session\<lparr>ts_client_kex_public_key := view_data client_public_key\<rparr>))
     (to_state SSH_TRANSPORT_STATE_KEX_ECDH_INIT_RECEIVED)))"

definition ssh_transport_send_kex_ecdh_reply :: "('w, 'z) ssh_host_scheme \<Rightarrow> u32 \<Rightarrow> ('w tstate, unit) proc" where
  "ssh_transport_send_kex_ecdh_reply server timeout_ms = (let crypto = host_kex server in
     if srv_crypto server = None \<or> kex_generate_keypair crypto = None \<or> kex_compute_shared_secret crypto = None \<or>
        hostkey_public crypto = None \<or> hash_exchange crypto = None \<or> hostkey_sign crypto = None
     then failP SSH_ERR_PLATFORM
     else tsP (\<lambda>session. let negotiation = ts_negotiation session in
     bindP (callP (the (kex_generate_keypair crypto) (neg_kex_algorithm negotiation))) (\<lambda>(public_key, private_key).
     thenP (modP (\<lambda>session. session\<lparr>ts_server_kex_public_key := public_key, ts_server_kex_private_key := private_key\<rparr>))
     (bindP (valueP (the (kex_compute_shared_secret crypto) (neg_kex_algorithm negotiation) private_key
         (ts_client_kex_public_key session))) (\<lambda>shared_secret.
     thenP (modP (\<lambda>session. session\<lparr>ts_shared_secret := shared_secret\<rparr>))
     (bindP (valueP (the (hostkey_public crypto) (neg_server_host_key_algorithm negotiation))) (\<lambda>host_key.
     thenP (modP (\<lambda>session. session\<lparr>ts_server_host_key := host_key\<rparr>))
     (tsP (\<lambda>session.
     bindP (valueP (build_exchange_hash_input session 4096)) (\<lambda>exchange_input.
     bindP (valueP (the (hash_exchange crypto) (neg_kex_algorithm negotiation) exchange_input)) (\<lambda>exchange_hash.
     thenP (modP (\<lambda>session. session\<lparr>ts_exchange_hash := exchange_hash\<rparr>))
     (bindP (callP (the (hostkey_sign crypto) (neg_server_host_key_algorithm negotiation) exchange_hash)) (\<lambda>signature.
     thenP (modP (\<lambda>session. session\<lparr>ts_server_signature := signature\<rparr>))
     (thenP (modP (\<lambda>session. if length (ts_session_id session) = 0 then session\<lparr>ts_session_id := exchange_hash\<rparr> else session))
     (bindP (valueP (encode_payload EMSSH_MAX_KEX_REPLY_PAYLOAD
         (ssh_kex_ecdh_reply_encode host_key public_key signature))) (\<lambda>reply.
     thenP (send_transport_payload server reply timeout_ms)
     (to_state SSH_TRANSPORT_STATE_KEX_ECDH_REPLY_SENT)))))))))))))))))"

definition derive_material :: "('w, 'z) ssh_host_scheme \<Rightarrow> ssh_transport_session \<Rightarrow> char \<Rightarrow> nat \<Rightarrow> ssh_err + u8 list" where
  "derive_material server session key_id out_len =
    (case if srv_crypto server = None then None else derive_key (host_kex server) of
       None \<Rightarrow> Inl SSH_ERR_PLATFORM
     | Some derive \<Rightarrow> (case derive (neg_kex_algorithm (ts_negotiation session)) (ts_shared_secret session)
           (ts_exchange_hash session) (ts_session_id session) key_id out_len of
         Inl _ \<Rightarrow> Inl SSH_ERR_PLATFORM
       | Inr out \<Rightarrow> if length out \<noteq> out_len then Inl SSH_ERR_PLATFORM else Inr out))"

text \<open>The derived keys on the stack are zeroed at the end, which the model does not show.\<close>

definition activate_packet_protection :: "('w, 'z) ssh_host_scheme \<Rightarrow> bool \<Rightarrow> ('w tstate, unit) proc" where
  "activate_packet_protection server outbound = tsP (\<lambda>session.
     bindP (valueP (negotiated_packet_sizes (ts_negotiation session)))
       (\<lambda>(cipher_key_len, cipher_iv_len, block_size, mac_key_len, mac_len).
     thenP (if length (ts_session_id session) = 0 then
              thenP (ensureP (\<not> (length (ts_exchange_hash session) = 0 \<or>
                length (ts_exchange_hash session) > EMSSH_MAX_EXCHANGE_HASH)) SSH_ERR_SECURITY)
              (modP (\<lambda>session. session\<lparr>ts_session_id := ts_exchange_hash session\<rparr>))
            else retP ())
     (tsP (\<lambda>session. let negotiation = ts_negotiation session in
     bindP (valueP (derive_material server session (if outbound then CHR ''B'' else CHR ''A'') cipher_iv_len)) (\<lambda>cipher_iv.
     bindP (valueP (derive_material server session (if outbound then CHR ''D'' else CHR ''C'') cipher_key_len)) (\<lambda>cipher_key.
     bindP (valueP (derive_material server session (if outbound then CHR ''F'' else CHR ''E'') mac_key_len)) (\<lambda>mac_key.
     case ssh_packet_protection_set (srv_crypto server)
         (if outbound then neg_encryption_algorithm_server_to_client negotiation
          else neg_encryption_algorithm_client_to_server negotiation)
         (if outbound then neg_mac_algorithm_server_to_client negotiation
          else neg_mac_algorithm_client_to_server negotiation)
         cipher_key cipher_iv mac_key block_size mac_len
         (if outbound then ts_outbound session else ts_inbound session) of
       (Inl e, _) \<Rightarrow> failP e
     | (Inr _, protection) \<Rightarrow> modP (\<lambda>session. reset_rekey_direction outbound
         (if outbound then session\<lparr>ts_outbound := protection\<lparr>prot_sequence := ts_outbound_sequence session\<rparr>\<rparr>
          else session\<lparr>ts_inbound := protection\<lparr>prot_sequence := ts_inbound_sequence session\<rparr>\<rparr>)))))))))"

definition ssh_transport_send_newkeys :: "('w, 'z) ssh_host_scheme \<Rightarrow> u32 \<Rightarrow> ('w tstate, unit) proc" where
  "ssh_transport_send_newkeys server timeout_ms =
     bindP (valueP (encode_payload 8 ssh_kex_newkeys_encode)) (\<lambda>payload.
     thenP (send_transport_payload server payload timeout_ms)
     (thenP (activate_packet_protection server True)
     (to_state SSH_TRANSPORT_STATE_NEWKEYS_SENT)))"

definition ssh_transport_receive_newkeys :: "('w, 'z) ssh_host_scheme \<Rightarrow> u32 \<Rightarrow> ('w tstate, unit) proc" where
  "ssh_transport_receive_newkeys server timeout_ms =
     bindP (receive_transport_payload server 8 timeout_ms) (\<lambda>payload.
     bindP (valueP (decode_payload ssh_kex_newkeys_decode payload)) (\<lambda>_.
     thenP (activate_packet_protection server False)
     (to_state SSH_TRANSPORT_STATE_NEWKEYS_RECEIVED)))"

definition put_ext_info :: "u8 list \<Rightarrow> (ssh_buffer, unit) act" where
  "put_ext_info signature_algorithms =
     thenA (ssh_buffer_put_u8 SSH_MSG_EXT_INFO)
     (thenA (ssh_buffer_put_u32 (if signature_algorithms = [] then 0 else 1))
     (if signature_algorithms \<noteq> [] then
        thenA (ssh_buffer_put_cstring (Some (lit ''server-sig-algs'')))
        (ssh_buffer_put_cstring (Some signature_algorithms))
      else retA ()))"

definition ssh_transport_send_ext_info :: "('w, 'z) ssh_host_scheme \<Rightarrow> u32 \<Rightarrow> ('w tstate, unit) proc" where
  "ssh_transport_send_ext_info server timeout_ms = tsP (\<lambda>session.
     if \<not> ts_client_supports_ext_info session then retP ()
     else
       let signature_algorithms = (if cfg_publickey_auth (srv_config server) = None then []
             else view_data (host_backend_algorithms server)) in
       thenP (ensureP (signature_algorithms_valid (Some signature_algorithms)) SSH_ERR_INVALID_ARGUMENT)
       (bindP (valueP (encode_payload EMSSH_MAX_EXT_INFO_PAYLOAD (put_ext_info signature_algorithms))) (\<lambda>payload.
       ssh_transport_send_protected_payload server payload timeout_ms)))"

section \<open>Receiving\<close>

definition transport_payload_is_ignorable :: "u8 list \<Rightarrow> bool" where
  "transport_payload_is_ignorable payload \<longleftrightarrow> (case payload of [] \<Rightarrow> False
     | message_id # _ \<Rightarrow> message_id = SSH_MSG_IGNORE \<or> message_id = SSH_MSG_DEBUG \<or> message_id = SSH_MSG_UNIMPLEMENTED)"

definition transport_payload_is_disconnect :: "u8 list \<Rightarrow> bool" where
  "transport_payload_is_disconnect payload \<longleftrightarrow> payload \<noteq> [] \<and> payload ! 0 = SSH_MSG_DISCONNECT"

definition transport_payload_is_kexinit :: "u8 list \<Rightarrow> bool" where
  "transport_payload_is_kexinit payload \<longleftrightarrow> payload \<noteq> [] \<and> payload ! 0 = SSH_MSG_KEXINIT"

definition ssh_transport_handle_peer_rekey :: "('w, 'z) ssh_host_scheme \<Rightarrow> u8 list \<Rightarrow> u32 \<Rightarrow> ('w tstate, unit) proc" where
  "ssh_transport_handle_peer_rekey server client_kexinit_payload timeout_ms = tsP (\<lambda>session.
     if \<not> prot_active (ts_inbound session) \<or> \<not> prot_active (ts_outbound session) \<or> ts_rekey_in_progress session
     then failP SSH_ERR_UNSUPPORTED
     else thenP (modP (ts_rekey_in_progress_update (\<lambda>_. True)))
     (tryP (thenP (process_kexinit_payload client_kexinit_payload)
           (thenP (ssh_transport_send_kexinit server timeout_ms)
           (thenP (ssh_transport_receive_kex_ecdh_init server timeout_ms)
           (thenP (ssh_transport_send_kex_ecdh_reply server timeout_ms)
           (thenP (ssh_transport_send_newkeys server timeout_ms)
           (ssh_transport_receive_newkeys server timeout_ms))))))
       (\<lambda>e. thenP (modP (ts_rekey_in_progress_update (\<lambda>_. False))) (failP e))
       (\<lambda>_. modP (ts_rekey_in_progress_update (\<lambda>_. False)))))"

definition receive_protected_payload_skip_ignorable ::
    "('w, 'z) ssh_host_scheme \<Rightarrow> nat \<Rightarrow> u32 \<Rightarrow> ('w tstate, u8 list) proc" where
  "receive_protected_payload_skip_ignorable server payload_capacity timeout_ms =
     forP 8 (\<lambda>_. failP SSH_ERR_MALFORMED_PACKET) (\<lambda>_.
       let using_scratch = payload_capacity < EMSSH_MAX_KEXINIT_PAYLOAD;
           received_capacity = (if using_scratch then EMSSH_MAX_KEXINIT_PAYLOAD else payload_capacity) in
       bindP (ssh_transport_receive_protected_payload server received_capacity timeout_ms) (\<lambda>received.
       thenP (whenP using_scratch (modP (\<lambda>session. session\<lparr>
         ts_client_kexinit_payload := overwrite (ts_client_kexinit_payload session) 0 received\<rparr>)))
       (thenP (whenP (length received \<noteq> 0) (modP (\<lambda>session. session\<lparr>ts_last_received_message_id := Some (received ! 0)\<rparr>)))
       (if transport_payload_is_disconnect received then failP SSH_ERR_CLOSED
        else if transport_payload_is_kexinit received
        then thenP (ssh_transport_handle_peer_rekey server received timeout_ms) (retP (Inl ()))
        else if \<not> transport_payload_is_ignorable received
        then thenP (ensureP (\<not> (using_scratch \<and> length received > payload_capacity)) SSH_ERR_BUFFER_TOO_SMALL)
          (retP (Inr received))
        else retP (Inl ()))))) ()"

section \<open>Services and authentication\<close>

text \<open>A sender encodes its message into an array of the given size, sends it and changes the state.\<close>

definition send_message :: "('w, 'z) ssh_host_scheme \<Rightarrow> nat \<Rightarrow> (ssh_buffer, unit) act \<Rightarrow> ssh_transport_state \<Rightarrow> u32
    \<Rightarrow> ('w tstate, unit) proc" where
  "send_message server cap encode st timeout_ms =
     bindP (valueP (encode_payload cap encode)) (\<lambda>payload.
     thenP (ssh_transport_send_protected_payload server payload timeout_ms)
     (to_state st))"

definition ssh_transport_receive_service_request ::
    "('w, 'z) ssh_host_scheme \<Rightarrow> u32 \<Rightarrow> ('w tstate, ssh_service_request) proc" where
  "ssh_transport_receive_service_request server timeout_ms =
     bindP (receive_protected_payload_skip_ignorable server EMSSH_MAX_SERVICE_PAYLOAD timeout_ms) (\<lambda>payload.
     bindP (valueP (decode_payload ssh_service_request_decode payload)) (\<lambda>request.
     thenP (ensureP (ssh_service_name_is_supported (srq_service_name request)) SSH_ERR_UNSUPPORTED)
     (thenP (to_state SSH_TRANSPORT_STATE_SERVICE_REQUEST_RECEIVED) (retP request))))"

definition ssh_transport_send_service_accept ::
    "('w, 'z) ssh_host_scheme \<Rightarrow> u8 list \<Rightarrow> u32 \<Rightarrow> ('w tstate, unit) proc" where
  "ssh_transport_send_service_accept server name timeout_ms =
     send_message server 256 (ssh_service_accept_encode (Some name)) SSH_TRANSPORT_STATE_SERVICE_ACCEPT_SENT timeout_ms"

definition ssh_transport_receive_userauth_request ::
    "('w, 'z) ssh_host_scheme \<Rightarrow> u32 \<Rightarrow> ('w tstate, ssh_userauth_request) proc" where
  "ssh_transport_receive_userauth_request server timeout_ms =
     bindP (receive_protected_payload_skip_ignorable server EMSSH_MAX_USERAUTH_PAYLOAD timeout_ms) (\<lambda>payload.
     bindP (valueP (decode_payload ssh_userauth_request_decode payload)) (\<lambda>request.
     thenP (to_state SSH_TRANSPORT_STATE_USERAUTH_REQUEST_RECEIVED) (retP request)))"

definition ssh_transport_send_userauth_pk_ok ::
    "('w, 'z) ssh_host_scheme \<Rightarrow> view \<Rightarrow> view \<Rightarrow> u32 \<Rightarrow> ('w tstate, unit) proc" where
  "ssh_transport_send_userauth_pk_ok server algorithm blob timeout_ms =
     send_message server EMSSH_MAX_USERAUTH_PAYLOAD (ssh_userauth_pk_ok_encode algorithm blob)
       SSH_TRANSPORT_STATE_USERAUTH_PK_OK_SENT timeout_ms"

definition ssh_transport_send_userauth_success :: "('w, 'z) ssh_host_scheme \<Rightarrow> u32 \<Rightarrow> ('w tstate, unit) proc" where
  "ssh_transport_send_userauth_success server timeout_ms =
     send_message server 8 ssh_userauth_success_encode SSH_TRANSPORT_STATE_USERAUTH_SUCCESS_SENT timeout_ms"

definition ssh_transport_send_userauth_failure ::
    "('w, 'z) ssh_host_scheme \<Rightarrow> u8 list \<Rightarrow> bool \<Rightarrow> u32 \<Rightarrow> ('w tstate, unit) proc" where
  "ssh_transport_send_userauth_failure server methods partial_success timeout_ms =
     send_message server 128 (ssh_userauth_failure_encode (Some methods) partial_success)
       SSH_TRANSPORT_STATE_USERAUTH_FAILURE_SENT timeout_ms"

definition ssh_transport_handle_userauth_request ::
    "('w, 'z) ssh_host_scheme \<Rightarrow> ssh_userauth_request \<Rightarrow> u32 \<Rightarrow> ('w tstate, unit) proc" where
  "ssh_transport_handle_userauth_request server request timeout_ms = tsP (\<lambda>session.
     bindP (valueP (ssh_userauth_evaluate_request (host_backend_algorithms server) (ssh_server.truncate server) request
       (Some (ts_session_id session)))) (\<lambda>decision.
     if decision = SSH_USERAUTH_DECISION_SUCCESS then ssh_transport_send_userauth_success server timeout_ms
     else if decision = SSH_USERAUTH_DECISION_PK_OK
     then ssh_transport_send_userauth_pk_ok server (ua_publickey_algorithm request) (ua_publickey_blob request) timeout_ms
     else bindP (valueP (ssh_userauth_failure_methods (ssh_server.truncate server) EMSSH_MAX_USERAUTH_FAILURE_METHODS)) (\<lambda>methods.
       ssh_transport_send_userauth_failure server methods False timeout_ms)))"

section \<open>Channels\<close>

definition ssh_transport_receive_channel_open ::
    "('w, 'z) ssh_host_scheme \<Rightarrow> u32 \<Rightarrow> ('w tstate, ssh_channel_open) proc" where
  "ssh_transport_receive_channel_open server timeout_ms =
     bindP (receive_protected_payload_skip_ignorable server EMSSH_MAX_CHANNEL_OPEN_PAYLOAD timeout_ms) (\<lambda>payload.
     bindP (valueP (decode_payload ssh_channel_open_decode payload)) (\<lambda>open.
     thenP (to_state SSH_TRANSPORT_STATE_CHANNEL_OPEN_RECEIVED) (retP open)))"

definition ssh_transport_send_global_request_failure :: "('w, 'z) ssh_host_scheme \<Rightarrow> u32 \<Rightarrow> ('w tstate, unit) proc" where
  "ssh_transport_send_global_request_failure server timeout_ms =
     send_message server 8 ssh_global_request_failure_encode SSH_TRANSPORT_STATE_REQUEST_FAILURE_SENT timeout_ms"

text \<open>The treatment of a global request, the same in the three receive loops.\<close>

definition refuse_global_request :: "('w, 'z) ssh_host_scheme \<Rightarrow> u8 list \<Rightarrow> u32 \<Rightarrow> ('w tstate, unit) proc" where
  "refuse_global_request server payload timeout_ms =
     bindP (valueP (decode_payload ssh_global_request_decode payload)) (\<lambda>request.
     thenP (to_state SSH_TRANSPORT_STATE_GLOBAL_REQUEST_RECEIVED)
     (whenP (gr_want_reply request) (ssh_transport_send_global_request_failure server timeout_ms)))"

definition ssh_transport_receive_channel_open_skip_global_requests ::
    "('w, 'z) ssh_host_scheme \<Rightarrow> u32 \<Rightarrow> ('w tstate, ssh_channel_open) proc" where
  "ssh_transport_receive_channel_open_skip_global_requests server timeout_ms =
     forP 8 (\<lambda>_. failP SSH_ERR_UNSUPPORTED) (\<lambda>_.
       bindP (receive_protected_payload_skip_ignorable server EMSSH_MAX_CHANNEL_OPEN_PAYLOAD timeout_ms) (\<lambda>payload.
       if length payload = 0 then failP SSH_ERR_MALFORMED_PACKET
       else if payload ! 0 = SSH_MSG_CHANNEL_OPEN then
         bindP (valueP (decode_payload ssh_channel_open_decode payload)) (\<lambda>open.
         thenP (to_state SSH_TRANSPORT_STATE_CHANNEL_OPEN_RECEIVED) (retP (Inr open)))
       else if payload ! 0 = SSH_MSG_GLOBAL_REQUEST
       then thenP (refuse_global_request server payload timeout_ms) (retP (Inl ()))
       else failP SSH_ERR_MALFORMED_PACKET)) ()"

definition ssh_transport_send_channel_open_confirmation ::
    "('w, 'z) ssh_host_scheme \<Rightarrow> u32 \<Rightarrow> u32 \<Rightarrow> u32 \<Rightarrow> u32 \<Rightarrow> u32 \<Rightarrow> ('w tstate, unit) proc" where
  "ssh_transport_send_channel_open_confirmation server recipient_channel sender_channel initial_window_size
      maximum_packet_size timeout_ms =
     send_message server 64 (ssh_channel_open_confirmation_encode recipient_channel sender_channel initial_window_size
       maximum_packet_size) SSH_TRANSPORT_STATE_CHANNEL_OPEN_CONFIRMATION_SENT timeout_ms"

definition ssh_transport_send_channel_open_failure ::
    "('w, 'z) ssh_host_scheme \<Rightarrow> u32 \<Rightarrow> u32 \<Rightarrow> string \<Rightarrow> u32 \<Rightarrow> ('w tstate, unit) proc" where
  "ssh_transport_send_channel_open_failure server recipient_channel reason_code description timeout_ms =
     send_message server 256 (ssh_channel_open_failure_encode recipient_channel reason_code (Some (lit description)) (Some []))
       SSH_TRANSPORT_STATE_CHANNEL_OPEN_FAILURE_SENT timeout_ms"

text \<open>The answer to a further channel in a session that has one.\<close>

definition refuse_channel_open :: "('w, 'z) ssh_host_scheme \<Rightarrow> u8 list \<Rightarrow> u32 \<Rightarrow> ('w tstate, unit) proc" where
  "refuse_channel_open server payload timeout_ms =
     bindP (valueP (decode_payload ssh_channel_open_decode payload)) (\<lambda>open.
     ssh_transport_send_channel_open_failure server (co_sender_channel open) SSH_OPEN_RESOURCE_SHORTAGE
       ''additional channels are not supported in this session'' timeout_ms)"

text \<open>A request the caller still holds has views into \<^verbatim>\<open>channel_request_payload\<close>: they show the new bytes once the array is
  overwritten. The type name starts at offset 9, after the message number, the channel and the length.\<close>

definition reread_view :: "nat \<Rightarrow> u8 list \<Rightarrow> view \<Rightarrow> view" where
  "reread_view offset array v = map_option (\<lambda>bs. take (length bs) (drop offset array)) v"

definition reread_channel_request :: "u8 list \<Rightarrow> ssh_channel_request \<Rightarrow> ssh_channel_request" where
  "reread_channel_request array request =
    (let fields = 9 + view_len (cr_request_type request) + 1 + 4 in
     request\<lparr>cr_request_type := reread_view 9 array (cr_request_type request),
       cr_subsystem_name := reread_view fields array (cr_subsystem_name request),
       cr_term_type := reread_view fields array (cr_term_type request),
       cr_command := reread_view fields array (cr_command request),
       cr_env_name := reread_view fields array (cr_env_name request),
       cr_env_value := reread_view (fields + view_len (cr_env_name request) + 4) array (cr_env_value request),
       cr_signal_name := reread_view fields array (cr_signal_name request),
       cr_pty_modes := reread_view (fields + view_len (cr_term_type request) + 16 + 4) array (cr_pty_modes request)\<rparr>)"

text \<open>A message that is only a channel number: its message number.\<close>

definition channel_only_decode :: "(ssh_buffer, u8) act" where
  "channel_only_decode =
     bindA ssh_buffer_get_u8 (\<lambda>message_id.
     bindA ssh_buffer_get_u32 (\<lambda>recipient_channel.
     thenA (at_endA SSH_ERR_MALFORMED_PACKET) (retA message_id)))"

text \<open>The request is the caller's structure, which the callers also read after an error, so status and structure are the value.\<close>

definition handle_request_payload :: "('w, 'z) ssh_host_scheme \<Rightarrow> u32 \<Rightarrow> u8 list \<Rightarrow> ssh_channel_request
    \<Rightarrow> ('w tstate, ssh_channel_request + ssh_err option \<times> ssh_channel_request) proc" where
  "handle_request_payload server timeout_ms payload request =
    (if length payload = 0 then retP (Inr (Some SSH_ERR_MALFORMED_PACKET, request))
     else let message_id = payload ! 0 in
     if message_id = SSH_MSG_CHANNEL_REQUEST then
       (case ssh_channel_request_decode (ssh_buffer_wrap (Some payload) (length payload), request) of
          (Inl e, (_, request)) \<Rightarrow>
            thenP (whenP (e = SSH_ERR_UNSUPPORTED) (modP (record_last_channel_request_diag request)))
            (retP (Inr (Some e, request)))
        | (Inr _, (_, request)) \<Rightarrow>
            thenP (modP (record_last_channel_request_diag request))
            (thenP (to_state SSH_TRANSPORT_STATE_CHANNEL_REQUEST_RECEIVED)
            (retP (Inr (None, request)))))
     else if message_id = SSH_MSG_CHANNEL_CLOSE \<or> message_id = SSH_MSG_CHANNEL_EOF then
       (case decode_payload channel_only_decode payload of
          Inl _ \<Rightarrow> retP (Inr (Some SSH_ERR_MALFORMED_PACKET, request))
        | Inr message_id \<Rightarrow>
            thenP (to_state (if message_id = SSH_MSG_CHANNEL_CLOSE then SSH_TRANSPORT_STATE_CHANNEL_CLOSE_RECEIVED
              else SSH_TRANSPORT_STATE_CHANNEL_EOF_RECEIVED))
            (retP (Inr (Some SSH_ERR_CLOSED, request))))
     else if message_id = SSH_MSG_GLOBAL_REQUEST then
       tryP (refuse_global_request server payload timeout_ms) (\<lambda>e. retP (Inr (Some e, request))) (\<lambda>_. retP (Inl request))
     else if message_id = SSH_MSG_CHANNEL_OPEN then
       tryP (refuse_channel_open server payload timeout_ms) (\<lambda>e. retP (Inr (Some e, request))) (\<lambda>_. retP (Inl request))
     else if message_id = SSH_MSG_CHANNEL_SUCCESS \<or> message_id = SSH_MSG_CHANNEL_FAILURE then
       (case decode_payload channel_only_decode payload of
          Inl _ \<Rightarrow> retP (Inr (Some SSH_ERR_MALFORMED_PACKET, request))
        | Inr _ \<Rightarrow> retP (Inl request))
     else if message_id = SSH_MSG_CHANNEL_WINDOW_ADJUST \<or> message_id = SSH_MSG_CHANNEL_DATA \<or>
        message_id = SSH_MSG_CHANNEL_EXTENDED_DATA \<or> message_id = SSH_MSG_REQUEST_SUCCESS \<or>
        message_id = SSH_MSG_REQUEST_FAILURE \<or> message_id = SSH_MSG_CHANNEL_OPEN_CONFIRMATION \<or>
        message_id = SSH_MSG_CHANNEL_OPEN_FAILURE
     then retP (Inl request)
     else retP (Inr (Some SSH_ERR_UNSUPPORTED, request)))"

definition ssh_transport_receive_channel_request ::
    "('w, 'z) ssh_host_scheme \<Rightarrow> u32 \<Rightarrow> ssh_channel_request \<Rightarrow> ('w tstate, ssh_err option \<times> ssh_channel_request) proc" where
  "ssh_transport_receive_channel_request server timeout_ms =
     forP 16 (\<lambda>request. retP (Some SSH_ERR_UNSUPPORTED, request)) (\<lambda>request.
       tryP (receive_protected_payload_skip_ignorable server EMSSH_MAX_CHANNEL_REQUEST_PAYLOAD timeout_ms)
         (\<lambda>e. retP (Inr (Some e, request))) (\<lambda>payload.
       thenP (modP (\<lambda>session. session\<lparr>
         ts_channel_request_payload := overwrite (ts_channel_request_payload session) 0 payload\<rparr>))
       (tsP (\<lambda>session. handle_request_payload server timeout_ms payload
         (reread_channel_request (ts_channel_request_payload session) request)))))"

definition ssh_transport_send_channel_success :: "('w, 'z) ssh_host_scheme \<Rightarrow> u32 \<Rightarrow> u32 \<Rightarrow> ('w tstate, unit) proc" where
  "ssh_transport_send_channel_success server recipient_channel timeout_ms =
     send_message server 16 (ssh_channel_success_encode recipient_channel) SSH_TRANSPORT_STATE_CHANNEL_SUCCESS_SENT timeout_ms"

definition ssh_transport_send_channel_failure :: "('w, 'z) ssh_host_scheme \<Rightarrow> u32 \<Rightarrow> u32 \<Rightarrow> ('w tstate, unit) proc" where
  "ssh_transport_send_channel_failure server recipient_channel timeout_ms =
     send_message server 16 (ssh_channel_failure_encode recipient_channel) SSH_TRANSPORT_STATE_CHANNEL_FAILURE_SENT timeout_ms"

definition ssh_transport_receive_channel_data ::
    "('w, 'z) ssh_host_scheme \<Rightarrow> nat \<Rightarrow> u32 \<Rightarrow> ('w tstate, u32 \<times> u8 list) proc" where
  "ssh_transport_receive_channel_data server data_capacity timeout_ms =
     bindP (receive_protected_payload_skip_ignorable server (EMSSH_MAX_PAYLOAD_SIZE + 16) timeout_ms) (\<lambda>payload.
     bindP (valueP (decode_payload ssh_channel_data_decode payload)) (\<lambda>channel_data.
     thenP (ensureP (\<not> view_len (cd_data channel_data) > data_capacity) SSH_ERR_BUFFER_TOO_SMALL)
     (thenP (to_state SSH_TRANSPORT_STATE_CHANNEL_DATA_RECEIVED)
     (retP (cd_recipient_channel channel_data, view_data (cd_data channel_data))))))"

text \<open>The handling of one payload in the loop of \<^verbatim>\<open>ssh_transport_receive_channel_message\<close>: \<open>Inr\<close> leaves the loop.\<close>

definition handle_message_payload :: "('w, 'z) ssh_host_scheme \<Rightarrow> u32 \<Rightarrow> u8 list
    \<Rightarrow> ('w tstate, unit + ssh_channel_message) proc" where
  "handle_message_payload server timeout_ms payload =
    (if length payload = 0 then failP SSH_ERR_MALFORMED_PACKET
     else if payload ! 0 = SSH_MSG_CHANNEL_SUCCESS \<or> payload ! 0 = SSH_MSG_CHANNEL_FAILURE \<or>
        payload ! 0 = SSH_MSG_REQUEST_SUCCESS \<or> payload ! 0 = SSH_MSG_REQUEST_FAILURE \<or>
        payload ! 0 = SSH_MSG_CHANNEL_OPEN_CONFIRMATION \<or> payload ! 0 = SSH_MSG_CHANNEL_OPEN_FAILURE \<or>
        payload ! 0 = SSH_MSG_CHANNEL_EXTENDED_DATA
     then retP (Inl ())
     else if payload ! 0 = SSH_MSG_GLOBAL_REQUEST
     then thenP (refuse_global_request server payload timeout_ms) (retP (Inl ()))
     else if payload ! 0 = SSH_MSG_CHANNEL_OPEN
     then thenP (refuse_channel_open server payload timeout_ms) (retP (Inl ()))
     else case ssh_channel_message_decode (ssh_buffer_wrap (Some payload) (length payload), empty_channel_message) of
       (Inr _, (_, message)) \<Rightarrow> retP (Inr message)
     | (Inl e, _) \<Rightarrow>
        if e = SSH_ERR_UNSUPPORTED \<and> payload ! 0 = SSH_MSG_CHANNEL_REQUEST then
          let request = snd (snd (ssh_channel_request_decode
                (ssh_buffer_wrap (Some payload) (length payload), empty_channel_request))) in
          thenP (modP (record_last_channel_request_diag request))
          (if cr_request_type request \<noteq> None then
             thenP (whenP (cr_want_reply request \<and> \<not> channel_request_is_putty_extension request)
               (ssh_transport_send_channel_failure server (cr_recipient_channel request) timeout_ms))
             (retP (Inl ()))
           else failP e)
        else failP e)"

definition ssh_transport_receive_channel_message ::
    "('w, 'z) ssh_host_scheme \<Rightarrow> nat \<Rightarrow> u32 \<Rightarrow> ('w tstate, ssh_channel_message \<times> u8 list) proc" where
  "ssh_transport_receive_channel_message server data_capacity timeout_ms =
     bindP (forP 16 (\<lambda>_. failP SSH_ERR_UNSUPPORTED) (\<lambda>_.
       bindP (receive_protected_payload_skip_ignorable server EMSSH_MAX_CHANNEL_MESSAGE_PAYLOAD timeout_ms)
         (handle_message_payload server timeout_ms)) ()) (\<lambda>message.
     if cm_message_id message = SSH_MSG_CHANNEL_WINDOW_ADJUST
     then thenP (to_state SSH_TRANSPORT_STATE_CHANNEL_WINDOW_ADJUST_RECEIVED) (retP (message, []))
     else if cm_message_id message = SSH_MSG_CHANNEL_REQUEST
     then thenP (to_state SSH_TRANSPORT_STATE_CHANNEL_REQUEST_RECEIVED) (retP (message, []))
     else if cm_message_id message = SSH_MSG_CHANNEL_DATA
     then thenP (ensureP (\<not> view_len (cm_data message) > data_capacity) SSH_ERR_BUFFER_TOO_SMALL)
       (thenP (to_state SSH_TRANSPORT_STATE_CHANNEL_DATA_RECEIVED) (retP (message, view_data (cm_data message))))
     else if cm_message_id message = SSH_MSG_CHANNEL_EOF
     then thenP (to_state SSH_TRANSPORT_STATE_CHANNEL_EOF_RECEIVED) (retP (message, []))
     else if cm_message_id message = SSH_MSG_CHANNEL_CLOSE
     then thenP (to_state SSH_TRANSPORT_STATE_CHANNEL_CLOSE_RECEIVED) (retP (message, []))
     else retP (message, []))"

text \<open>The \<^verbatim>\<open>do ... while\<close> loop over the chunks, on the data from \<^verbatim>\<open>offset\<close> on.\<close>

function send_channel_data_loop :: "('w, 'z) ssh_host_scheme \<Rightarrow> u32 \<Rightarrow> u32 \<Rightarrow> u8 list \<Rightarrow> ('w tstate, unit) proc" where
  "send_channel_data_loop server recipient_channel timeout_ms data =
    (let max_data_len = EMSSH_MAX_PAYLOAD_SIZE - 9 in
     bindP (valueP (encode_payload (EMSSH_MAX_PAYLOAD_SIZE + 16)
       (ssh_channel_data_encode recipient_channel (take max_data_len data)))) (\<lambda>payload.
     thenP (ssh_transport_send_protected_payload server payload timeout_ms)
     (if length data > max_data_len
      then send_channel_data_loop server recipient_channel timeout_ms (drop max_data_len data)
      else retP ())))"
  by pat_completeness auto
termination
  by (relation "measure (\<lambda>(server, recipient_channel, timeout_ms, data). length data)") (auto simp: packet_limits)

declare send_channel_data_loop.simps [simp del]

definition ssh_transport_send_channel_data :: "('w, 'z) ssh_host_scheme \<Rightarrow> u32 \<Rightarrow> u8 list \<Rightarrow> u32 \<Rightarrow> ('w tstate, unit) proc" where
  "ssh_transport_send_channel_data server recipient_channel data timeout_ms =
    (if EMSSH_MAX_PAYLOAD_SIZE \<le> 9 then failP SSH_ERR_BUFFER_TOO_SMALL
     else thenP (send_channel_data_loop server recipient_channel timeout_ms data)
       (to_state SSH_TRANSPORT_STATE_CHANNEL_DATA_SENT))"

definition ssh_transport_send_channel_window_adjust :: "('w, 'z) ssh_host_scheme \<Rightarrow> u32 \<Rightarrow> u32 \<Rightarrow> u32 \<Rightarrow> ('w tstate, unit) proc" where
  "ssh_transport_send_channel_window_adjust server recipient_channel bytes_to_add timeout_ms =
     thenP (ensureP (bytes_to_add \<noteq> 0) SSH_ERR_INVALID_ARGUMENT)
     (send_message server 16 (ssh_channel_window_adjust_encode recipient_channel bytes_to_add)
       SSH_TRANSPORT_STATE_CHANNEL_WINDOW_ADJUST_SENT timeout_ms)"

definition send_channel_simple :: "('w, 'z) ssh_host_scheme \<Rightarrow> u32 \<Rightarrow> u8 \<Rightarrow> u32 \<Rightarrow> ('w tstate, unit) proc" where
  "send_channel_simple server recipient_channel message_id timeout_ms =
    (if message_id = SSH_MSG_CHANNEL_EOF
     then send_message server 16 (ssh_channel_eof_encode recipient_channel) SSH_TRANSPORT_STATE_CHANNEL_EOF_SENT timeout_ms
     else if message_id = SSH_MSG_CHANNEL_CLOSE
     then send_message server 16 (ssh_channel_close_encode recipient_channel) SSH_TRANSPORT_STATE_CHANNEL_CLOSE_SENT timeout_ms
     else failP SSH_ERR_INVALID_ARGUMENT)"

definition ssh_transport_send_channel_eof :: "('w, 'z) ssh_host_scheme \<Rightarrow> u32 \<Rightarrow> u32 \<Rightarrow> ('w tstate, unit) proc" where
  "ssh_transport_send_channel_eof server recipient_channel timeout_ms =
     send_channel_simple server recipient_channel SSH_MSG_CHANNEL_EOF timeout_ms"

definition ssh_transport_send_channel_close :: "('w, 'z) ssh_host_scheme \<Rightarrow> u32 \<Rightarrow> u32 \<Rightarrow> ('w tstate, unit) proc" where
  "ssh_transport_send_channel_close server recipient_channel timeout_ms =
     send_channel_simple server recipient_channel SSH_MSG_CHANNEL_CLOSE timeout_ms"

definition ssh_transport_send_channel_exit_status :: "('w, 'z) ssh_host_scheme \<Rightarrow> u32 \<Rightarrow> u32 \<Rightarrow> u32 \<Rightarrow> ('w tstate, unit) proc" where
  "ssh_transport_send_channel_exit_status server recipient_channel exit_status timeout_ms =
     bindP (valueP (encode_payload 32 (ssh_channel_request_exit_status_encode recipient_channel False exit_status))) (\<lambda>payload.
     ssh_transport_send_protected_payload server payload timeout_ms)"

end
