(* ===== verification/Ssh_Transport_Laws.thy ===== *)
theory Ssh_Transport_Laws
  imports Ssh_Transport
begin

text \<open>
  What every operation of the transport layer promises. The locale \<open>session_contract\<close> takes an invariant of session and world
  and asks for the elementary changes only: a packet encoded or decoded, keys activated, a payload stored, a callback called.
  Inside it every procedure of \<^verbatim>\<open>ssh_transport.c\<close> keeps the invariant. It is interpreted below for the permanence of the
  session identifier, for the fact that encryption is never switched off again, for the sizes of the arrays of a session and,
  with the world alone, for the termination of every procedure on a connection that ends.
\<close>

section \<open>Rules for sessions\<close>

lemma keeps_tsP [keeps_intros]: "(\<And>ts w. I (ts, w) \<Longrightarrow> keeps N I (k ts) P) \<Longrightarrow> keeps N I (tsP k) P"
  unfolding tsP_def by (rule keeps_askP) (metis prod.collapse)

lemma keeps_modP: "P () \<Longrightarrow> (\<And>ts w. I (ts, w) \<Longrightarrow> I (f ts, w)) \<Longrightarrow> keeps N I (modP f) P"
  unfolding modP_def by (rule keeps_setP) auto

lemma keeps_callP: "(\<And>ts w r w'. I (ts, w) \<Longrightarrow> m w = (r, w') \<Longrightarrow> I (ts, w')) \<Longrightarrow> (\<And>x. P x) \<Longrightarrow> keeps N I (callP m) P"
  unfolding callP_def by (intro keepsI wp_onP wp_actP) (metis prod.collapse)+

lemma keeps_call_result:
  "(\<And>ts w r w'. I (ts, w) \<Longrightarrow> m w = (r, w') \<Longrightarrow> I (ts, w')) \<Longrightarrow> (\<And>w x w'. m w = (Inr x, w') \<Longrightarrow> R x) \<Longrightarrow> keeps N I (callP m) R"
  unfolding callP_def by (intro keepsI wp_onP wp_actP) (metis prod.collapse)+

lemma wp_tsP [wpP_intros]: "wp N (k (fst s)) E Q s \<Longrightarrow> wp N (tsP k) E Q s"
  unfolding tsP_def by (rule wp_askP)

lemma wp_modP [wpP_intros]: "Q () (f (fst s), snd s) \<Longrightarrow> wp N (modP f) E Q s"
  unfolding modP_def by (rule wp_setP)

lemma wp_to_state [wpP_intros]: "Q () ((fst s)\<lparr>ts_state := st\<rparr>, snd s) \<Longrightarrow> wp N (to_state st) E Q s"
  unfolding to_state_def by (intro wpP_intros)

lemma wp_callP:
  "(\<And>e w. m (snd s) = (Inl e, w) \<Longrightarrow> E e (fst s, w)) \<Longrightarrow> (\<And>x w. m (snd s) = (Inr x, w) \<Longrightarrow> Q x (fst s, w)) \<Longrightarrow> wp N (callP m) E Q s"
  unfolding callP_def by (intro wp_onP wp_actP) auto

lemma wp_rngP:
  assumes "host_rng server = None \<Longrightarrow> wp N (k None) E Q s"
    and "\<And>rng fill w. host_rng server = Some rng \<Longrightarrow> rng (snd s) = (fill, w) \<Longrightarrow> wp N (k (Some fill)) E Q (fst s, w)"
  shows "wp N (rngP server k) E Q s"
proof (cases "host_rng server")
  case (Some rng)
  obtain fill w where "rng (snd s) = (fill, w)" by fastforce
  with Some assms(2) [OF Some this] show ?thesis by (simp add: wp_def rngP_def)
qed (use assms(1) in \<open>simp add: wp_def rngP_def\<close>)

lemma keeps_rngP:
  assumes "\<And>rng ts w. host_rng server = Some rng \<Longrightarrow> I (ts, w) \<Longrightarrow> I (ts, snd (rng w))" "\<And>rng. keeps N I (k rng) P"
  shows "keeps N I (rngP server k) P"
proof (rule keepsI, rule wp_rngP)
  fix s rng fill w assume "I s" "host_rng server = Some rng" "rng (snd s) = (fill, w)"
  with assms(1) [of rng "fst s" "snd s"] show "wp N (k (Some fill)) (\<lambda>_. I) (\<lambda>x t. I t \<and> P x) (fst s, w)"
    by (intro keepsD [OF assms(2)]) simp
qed (rule keepsD [OF assms(2)])

section \<open>What a packet does to the protection\<close>

lemma encode_protected_state:
  assumes "ssh_packet_encode_protected out cap payload rng p = (r, packet, p')"
  shows "p' = p \<or> prot_active p \<and> (\<exists>n. p' = packet_state_after p n)"
  using assms
  by (auto simp: ssh_packet_encode_protected_def packet_state_after_def Let_def split: if_splits sum.splits prod.splits)

lemma decode_protected_state:
  assumes "ssh_packet_decode_protected packet n p = (r, packet', p')"
  shows "p' = p \<or> prot_active p \<and> (\<exists>n. p' = packet_state_after p n)"
proof (cases "p' = p")
  case False
  with assms have "prot_active p \<and> p' = packet_state_after p (n - prot_mac_len p)"
    by (auto simp: ssh_packet_decode_protected_def packet_state_after_def advance_stream_position_def advance_counter_be_def
        Let_def split: if_splits sum.splits prod.splits)
  then show ?thesis by blast
qed simp

definition same_protection :: "ssh_packet_protection \<Rightarrow> ssh_packet_protection \<Rightarrow> bool" where
  "same_protection p p' \<longleftrightarrow> prot_active p' = prot_active p \<and> prot_block_size p' = prot_block_size p \<and>
     prot_crypto p' = prot_crypto p \<and>
     (protection_wf p \<longrightarrow> protection_wf p')"

lemma packet_state_after_crypto: "prot_crypto (packet_state_after p n) = prot_crypto p"
  by (simp add: packet_state_after_def)

lemma encode_same_protection: "ssh_packet_encode_protected out cap payload rng p = (r, packet, p') \<Longrightarrow> same_protection p p'"
  by (drule encode_protected_state) (auto simp: same_protection_def packet_state_after_ok packet_state_after_crypto)

lemma decode_same_protection: "ssh_packet_decode_protected packet n p = (r, packet', p') \<Longrightarrow> same_protection p p'"
  by (drule decode_protected_state) (auto simp: same_protection_def packet_state_after_ok packet_state_after_crypto)

lemma protection_set_changes:
  assumes "ssh_packet_protection_set crypto ca ma key iv mac b m p = (Inr u, p')"
  shows "prot_active p' \<and> protection_wf p' \<and> prot_block_size p' = normalized_block_size b \<and> prot_crypto p' = crypto"
  using assms by (auto simp: ssh_packet_protection_set_def protection_wf_def packet_limits split: if_splits option.splits)

section \<open>Messages in arrays\<close>

lemma decode_payload_message:
  "message_decoder decode bytes valid \<Longrightarrow> decode_payload decode payload = Inr x \<longleftrightarrow> valid x \<and> payload = bytes x"
  unfolding decode_payload_def by (rule message_decoder.decode_wrapped)

lemma encode_payload_writes:
  assumes "buffer_writer put bs"
  shows "encode_payload cap put = (if length bs \<le> cap then Inr bs else Inl SSH_ERR_BUFFER_OVERFLOW)"
proof -
  have "buf_wf (ssh_buffer_init (Some (replicate cap 0)) cap)" by simp
  then show ?thesis
    by (rule buffer_writer.put_cases [OF assms]) (auto simp: encode_payload_def)
qed

text \<open>Encoders stay within the array they are given, whether they succeed or not.\<close>

definition stays_within :: "(ssh_buffer, unit) act \<Rightarrow> bool" where
  "stays_within put \<longleftrightarrow> (\<forall>b. buf_wf b \<longrightarrow> buf_wf (snd (put b)) \<and> buf_capacity (snd (put b)) = buf_capacity b)"

lemma stays_within_writer: "buffer_writer put bs \<Longrightarrow> stays_within put"
  unfolding stays_within_def by (blast dest: buffer_writer.put_wf)

lemma stays_within_thenA: "stays_within p \<Longrightarrow> stays_within q \<Longrightarrow> stays_within (thenA p q)"
  unfolding stays_within_def thenA_def bindA_def by (fastforce split: prod.splits sum.splits)

lemma stays_within_failA: "stays_within (failA e)" "stays_within (ensureA c e)"
  by (simp_all add: stays_within_def ensureA_def failA_def)

lemma stays_within_string: "stays_within (ssh_buffer_put_string bs)"
  unfolding ssh_buffer_put_string_def
  by (auto intro: stays_within_failA stays_within_thenA stays_within_writer [OF buffer_writer_put_u32]
      stays_within_writer [OF buffer_writer_put_bytes])

lemma stays_within_name_lists: "stays_within (put_name_lists ls)"
proof (induction ls)
  case Nil
  show ?case
    unfolding put_name_lists.simps by (rule stays_within_writer [OF buffer_writer_retA])
next
  case (Cons l ls)
  then show ?case
    unfolding put_name_lists.simps ssh_buffer_put_cstring_def option.case
    by (intro stays_within_thenA stays_within_failA stays_within_string)
qed

lemma stays_within_kexinit: "stays_within (ssh_kexinit_encode cookie algorithms follows)"
  unfolding ssh_kexinit_encode_def
  by (intro stays_within_thenA stays_within_name_lists stays_within_writer [OF buffer_writer_put_u8]
      stays_within_writer [OF buffer_writer_put_bytes] stays_within_writer [OF buffer_writer_put_bool]
      stays_within_writer [OF buffer_writer_put_u32])

lemma encode_payload_fits:
  assumes "encode_payload cap put = Inr payload" "stays_within put"
  shows "length payload \<le> cap"
proof -
  obtain b where b: "put (ssh_buffer_init (Some (replicate cap 0)) cap) = (Inr (), b)" "payload = buf_content b"
    using assms(1) by (auto simp: encode_payload_def split: prod.splits sum.splits)
  have "buf_wf (ssh_buffer_init (Some (replicate cap 0)) cap)" by simp
  with assms(2) b have "buf_wf b" "buf_capacity b = cap"
    unfolding stays_within_def by (metis snd_conv, metis snd_conv buf_init_simps)
  then show ?thesis
    using b(2) by (auto simp: elim: buf_wfE)
qed

lemma ecdh_init_key_fits: "decode_payload ssh_kex_ecdh_init_decode payload = Inr key \<Longrightarrow> view_len key \<le> EMSSH_MAX_KEX_PUBLIC_KEY"
  by (auto simp: decode_payload_message [OF ecdh_init.message_decoder_axioms] len_in_def)

section \<open>The contract\<close>

text \<open>The fields of a session an invariant may speak about.\<close>

definition session_core where
  "session_core ts = (ts_session_id ts, ts_inbound ts, ts_outbound ts, ts_client_kexinit_payload ts,
     ts_client_kexinit_payload_len ts, ts_client_kex_public_key ts, ts_channel_request_payload ts, ts_authenticated_username ts)"

lemma session_core_update [simp]:
  "session_core (ts\<lparr>ts_state := v0\<rparr>) = session_core ts"
  "session_core (ts\<lparr>ts_server_identification_line := v1\<rparr>) = session_core ts"
  "session_core (ts\<lparr>ts_server_identification := v2\<rparr>) = session_core ts"
  "session_core (ts\<lparr>ts_client_identification_line := v3\<rparr>) = session_core ts"
  "session_core (ts\<lparr>ts_client_identification := v4\<rparr>) = session_core ts"
  "session_core (ts\<lparr>ts_server_algorithms := v5\<rparr>) = session_core ts"
  "session_core (ts\<lparr>ts_server_kexinit_payload := v6\<rparr>) = session_core ts"
  "session_core (ts\<lparr>ts_client_supports_ext_info := v7\<rparr>) = session_core ts"
  "session_core (ts\<lparr>ts_inbound_sequence := v8\<rparr>) = session_core ts"
  "session_core (ts\<lparr>ts_outbound_sequence := v9\<rparr>) = session_core ts"
  "session_core (ts\<lparr>ts_rekey_after_packets := v10\<rparr>) = session_core ts"
  "session_core (ts\<lparr>ts_rekey_after_bytes := v11\<rparr>) = session_core ts"
  "session_core (ts\<lparr>ts_inbound_rekey_packets := v12\<rparr>) = session_core ts"
  "session_core (ts\<lparr>ts_outbound_rekey_packets := v13\<rparr>) = session_core ts"
  "session_core (ts\<lparr>ts_inbound_rekey_bytes := v14\<rparr>) = session_core ts"
  "session_core (ts\<lparr>ts_outbound_rekey_bytes := v15\<rparr>) = session_core ts"
  "session_core (ts\<lparr>ts_rekey_needed := v16\<rparr>) = session_core ts"
  "session_core (ts\<lparr>ts_rekey_in_progress := v17\<rparr>) = session_core ts"
  "session_core (ts\<lparr>ts_negotiation := v18\<rparr>) = session_core ts"
  "session_core (ts\<lparr>ts_server_kex_public_key := v19\<rparr>) = session_core ts"
  "session_core (ts\<lparr>ts_server_kex_private_key := v20\<rparr>) = session_core ts"
  "session_core (ts\<lparr>ts_shared_secret := v21\<rparr>) = session_core ts"
  "session_core (ts\<lparr>ts_exchange_hash := v22\<rparr>) = session_core ts"
  "session_core (ts\<lparr>ts_server_host_key := v23\<rparr>) = session_core ts"
  "session_core (ts\<lparr>ts_server_signature := v24\<rparr>) = session_core ts"
  "session_core (ts\<lparr>ts_last_received_message_id := v25\<rparr>) = session_core ts"
  "session_core (ts\<lparr>ts_last_channel_request_type := v26\<rparr>) = session_core ts"
  "session_core (ts\<lparr>ts_last_channel_request_want_reply := v27\<rparr>) = session_core ts"
  by (simp_all add: session_core_def)

text \<open>What the platform callbacks promise about the arrays they are given: they do not report more bytes than there is room for.\<close>

definition host_fits :: "('w, 'z) ssh_host_scheme \<Rightarrow> bool" where
  "host_fits server \<longleftrightarrow>
     (\<forall>net read n t w bs w'. host_net server = Some net \<longrightarrow> net_read net = Some read \<longrightarrow> read n t w = (Inr bs, w') \<longrightarrow> length bs \<le> n) \<and>
     (\<forall>f a w pub priv w'. kex_generate_keypair (host_kex server) = Some f \<longrightarrow> f a w = (Inr (pub, priv), w') \<longrightarrow>
        length pub \<le> EMSSH_MAX_KEX_PUBLIC_KEY \<and> length priv \<le> EMSSH_MAX_KEX_PRIVATE_KEY) \<and>
     (\<forall>f a k p secret. kex_compute_shared_secret (host_kex server) = Some f \<longrightarrow> f a k p = Inr secret \<longrightarrow>
        length secret \<le> EMSSH_MAX_KEX_SHARED_SECRET) \<and>
     (\<forall>f a key. hostkey_public (host_kex server) = Some f \<longrightarrow> f a = Inr key \<longrightarrow> length key \<le> EMSSH_MAX_HOST_KEY_BLOB) \<and>
     (\<forall>f a i hash. hash_exchange (host_kex server) = Some f \<longrightarrow> f a i = Inr hash \<longrightarrow> length hash \<le> EMSSH_MAX_EXCHANGE_HASH) \<and>
     (\<forall>f a h w sig w'. hostkey_sign (host_kex server) = Some f \<longrightarrow> f a h w = (Inr sig, w') \<longrightarrow> length sig \<le> EMSSH_MAX_SIGNATURE)"

lemma host_fitsD:
  assumes "host_fits server"
  shows "host_net server = Some net \<Longrightarrow> net_read net = Some read \<Longrightarrow> read n t w = (Inr bs, w') \<Longrightarrow> length bs \<le> n"
    and "kex_generate_keypair (host_kex server) = Some f1 \<Longrightarrow> f1 a w = (Inr (pub, priv), w') \<Longrightarrow>
      length pub \<le> EMSSH_MAX_KEX_PUBLIC_KEY \<and> length priv \<le> EMSSH_MAX_KEX_PRIVATE_KEY"
    and "kex_compute_shared_secret (host_kex server) = Some f2 \<Longrightarrow> f2 a k p = Inr secret \<Longrightarrow> length secret \<le> EMSSH_MAX_KEX_SHARED_SECRET"
    and "hostkey_public (host_kex server) = Some f3 \<Longrightarrow> f3 a = Inr key \<Longrightarrow> length key \<le> EMSSH_MAX_HOST_KEY_BLOB"
    and "hash_exchange (host_kex server) = Some f4 \<Longrightarrow> f4 a i = Inr hash \<Longrightarrow> length hash \<le> EMSSH_MAX_EXCHANGE_HASH"
    and "hostkey_sign (host_kex server) = Some f5 \<Longrightarrow> f5 a h w = (Inr sig, w') \<Longrightarrow> length sig \<le> EMSSH_MAX_SIGNATURE"
  using assms unfolding host_fits_def by (metis (no_types))+

text \<open>The arrays of \<^verbatim>\<open>ssh_transport_session_t\<close> that are filled from the network, by encoders and by callbacks.\<close>

definition session_arrays_fit :: "ssh_transport_session \<Rightarrow> bool" where
  "session_arrays_fit ts \<longleftrightarrow>
     length (ts_server_identification_line ts) \<le> EMSSH_MAX_IDENTIFICATION_LINE + 2 \<and>
     length (ts_client_identification_line ts) \<le> EMSSH_MAX_IDENTIFICATION_LINE + 2 \<and>
     length (ts_server_kexinit_payload ts) \<le> EMSSH_MAX_KEXINIT_PAYLOAD \<and>
     length (ts_server_kex_public_key ts) \<le> EMSSH_MAX_KEX_PUBLIC_KEY \<and>
     length (ts_server_kex_private_key ts) \<le> EMSSH_MAX_KEX_PRIVATE_KEY \<and>
     length (ts_shared_secret ts) \<le> EMSSH_MAX_KEX_SHARED_SECRET \<and>
     length (ts_exchange_hash ts) \<le> EMSSH_MAX_EXCHANGE_HASH \<and>
     length (ts_session_id ts) \<le> EMSSH_MAX_EXCHANGE_HASH \<and>
     length (ts_server_host_key ts) \<le> EMSSH_MAX_HOST_KEY_BLOB \<and>
     length (ts_server_signature ts) \<le> EMSSH_MAX_SIGNATURE \<and>
     length (ts_authenticated_username ts) \<le> EMSSH_MAX_USERAUTH_PAYLOAD \<and>
     (\<forall>type. ts_last_channel_request_type ts = Some type \<longrightarrow> length type < 64)"

lemma session_arrays_fit_update [simp]:
  "session_arrays_fit (ts\<lparr>ts_state := v0\<rparr>) = session_arrays_fit ts"
  "session_arrays_fit (ts\<lparr>ts_server_identification := v2\<rparr>) = session_arrays_fit ts"
  "session_arrays_fit (ts\<lparr>ts_client_identification := v4\<rparr>) = session_arrays_fit ts"
  "session_arrays_fit (ts\<lparr>ts_client_supports_ext_info := v7\<rparr>) = session_arrays_fit ts"
  "session_arrays_fit (ts\<lparr>ts_inbound_sequence := v8\<rparr>) = session_arrays_fit ts"
  "session_arrays_fit (ts\<lparr>ts_outbound_sequence := v9\<rparr>) = session_arrays_fit ts"
  "session_arrays_fit (ts\<lparr>ts_rekey_after_packets := v10\<rparr>) = session_arrays_fit ts"
  "session_arrays_fit (ts\<lparr>ts_rekey_after_bytes := v11\<rparr>) = session_arrays_fit ts"
  "session_arrays_fit (ts\<lparr>ts_inbound_rekey_packets := v12\<rparr>) = session_arrays_fit ts"
  "session_arrays_fit (ts\<lparr>ts_outbound_rekey_packets := v13\<rparr>) = session_arrays_fit ts"
  "session_arrays_fit (ts\<lparr>ts_inbound_rekey_bytes := v14\<rparr>) = session_arrays_fit ts"
  "session_arrays_fit (ts\<lparr>ts_outbound_rekey_bytes := v15\<rparr>) = session_arrays_fit ts"
  "session_arrays_fit (ts\<lparr>ts_rekey_needed := v16\<rparr>) = session_arrays_fit ts"
  "session_arrays_fit (ts\<lparr>ts_rekey_in_progress := v17\<rparr>) = session_arrays_fit ts"
  "session_arrays_fit (ts\<lparr>ts_negotiation := v18\<rparr>) = session_arrays_fit ts"
  "session_arrays_fit (ts\<lparr>ts_last_received_message_id := v25\<rparr>) = session_arrays_fit ts"
  "session_arrays_fit (ts\<lparr>ts_inbound := v30\<rparr>) = session_arrays_fit ts"
  "session_arrays_fit (ts\<lparr>ts_outbound := v31\<rparr>) = session_arrays_fit ts"
  "session_arrays_fit (ts\<lparr>ts_client_kexinit_payload := v32\<rparr>) = session_arrays_fit ts"
  "session_arrays_fit (ts\<lparr>ts_client_kexinit_payload_len := v33\<rparr>) = session_arrays_fit ts"
  "session_arrays_fit (ts\<lparr>ts_client_kex_public_key := v34\<rparr>) = session_arrays_fit ts"
  "session_arrays_fit (ts\<lparr>ts_channel_request_payload := v35\<rparr>) = session_arrays_fit ts"
  by (simp_all add: session_arrays_fit_def)

lemma session_arrays_fit_rekey [simp]:
  "session_arrays_fit (update_rekey_needed ts) = session_arrays_fit ts"
  "session_arrays_fit (record_rekey_packet b n ts) = session_arrays_fit ts"
  "session_arrays_fit (reset_rekey_direction b ts) = session_arrays_fit ts"
  by (simp_all add: session_arrays_fit_def update_rekey_needed_def record_rekey_packet_def reset_rekey_direction_def)

lemma session_arrays_fit_diag [simp]: "session_arrays_fit ts \<Longrightarrow> session_arrays_fit (record_last_channel_request_diag q ts)"
  by (auto simp: session_arrays_fit_def record_last_channel_request_diag_def split: option.splits)

lemma format_identification_fits: "ssh_server_format_identification server cap = Inr line \<Longrightarrow> length line < cap"
  by (auto simp: ssh_server_format_identification_def Let_def split: if_splits)

lemma session_core_rekey [simp]:
  "session_core (update_rekey_needed ts) = session_core ts"
  "session_core (record_rekey_packet b n ts) = session_core ts"
  "session_core (reset_rekey_direction b ts) = session_core ts"
  "session_core (record_last_channel_request_diag q ts) = session_core ts"
  by (simp_all add: session_core_def update_rekey_needed_def record_rekey_packet_def reset_rekey_direction_def
      record_last_channel_request_diag_def split: option.splits)

lemma reset_rekey_fields [simp]:
  "ts_session_id (reset_rekey_direction b ts) = ts_session_id ts"
  by (simp add: reset_rekey_direction_def update_rekey_needed_def)

lemma net_read_fits:
  assumes "host_fits server" "net_read_exact server len timeout_ms s = Some (Inr bs, t)"
  shows "length bs \<le> len"
proof -
  have "wp True (net_read_exact server len timeout_ms) (\<lambda>_ _. True) (\<lambda>bs _. length bs \<le> len) s"
    unfolding net_read_exact_def
  proof (intro wpP_option wp_failP TrueI)
    fix net read assume net: "host_net server = Some net" "net_read net = Some read"
    have step: "length y \<le> len" if "net_read_step read len timeout_ms done w = (Inr y, w')" "length done \<le> len" for y w w' "done"
      using that by (auto simp: net_read_step_def dest!: host_fitsD(1) [OF assms(1) net] split: prod.splits sum.splits if_splits)
    show "wp True (loopP (\<lambda>done. if length done < len
        then bindP (callP (net_read_step read len timeout_ms done)) (\<lambda>done. retP (Inl done))
        else retP (Inr done)) []) (\<lambda>_ _. True) (\<lambda>bs _. length bs \<le> len) s"
      by (rule wp_loopP [where I = "\<lambda>done _. length done \<le> len"], intro wpP_if wp_bindP wp_callP wp_retP) (auto dest: step)
  qed
  then show ?thesis
    using assms(2) by (rule wpP_Inr)
qed

lemma keeps_result: "keeps N I m P \<Longrightarrow> (\<And>s x t. m s = Some (Inr x, t) \<Longrightarrow> R x) \<Longrightarrow> keeps N I m (\<lambda>x. P x \<and> R x)"
  unfolding keeps_def wp_def by (fastforce split: option.splits sum.splits prod.splits)

locale session_contract =
  fixes N :: bool and server :: "('w, 'z) ssh_host_scheme" and I :: "'w tstate \<Rightarrow> bool"
  assumes core: "I (ts, w) \<Longrightarrow> session_core ts' = session_core ts \<Longrightarrow>
      (host_fits server \<Longrightarrow> session_arrays_fit ts \<Longrightarrow> session_arrays_fit ts') \<Longrightarrow> I (ts', w)"
    and net_in: "keeps N (\<lambda>s. I s \<and> fst s = ts) (net_read_exact server len timeout_ms) (\<lambda>_. True)"
    and net_out: "keeps N I (net_write_all server buf timeout_ms) (\<lambda>_. True)"
    and rng: "host_rng server = Some g \<Longrightarrow> I (ts, w) \<Longrightarrow> I (ts, snd (g w))"
    and keypair: "kex_generate_keypair (host_kex server) = Some generate \<Longrightarrow> I (ts, w) \<Longrightarrow> I (ts, snd (generate algorithm w))"
    and sign: "hostkey_sign (host_kex server) = Some f \<Longrightarrow> I (ts, w) \<Longrightarrow> I (ts, snd (f algorithm hash w))"
    and encoded: "I (ts, w) \<Longrightarrow> ssh_packet_encode_protected packet_storage (length packet_storage) payload fill (ts_outbound ts) = (r, packet, p) \<Longrightarrow>
      I (ts\<lparr>ts_outbound := p\<rparr>, w)"
    and decoded: "I (ts, w) \<Longrightarrow> ssh_packet_decode_protected packet n (ts_inbound ts) = (r', packet', p) \<Longrightarrow>
      I (ts\<lparr>ts_inbound := p\<rparr>, w)"
    and session_id: "I (ts, w) \<Longrightarrow> ts_session_id ts = [] \<Longrightarrow> (host_fits server \<Longrightarrow> length hash \<le> EMSSH_MAX_EXCHANGE_HASH) \<Longrightarrow>
      I (ts\<lparr>ts_session_id := hash\<rparr>, w)"
    and outbound_keys: "I (ts, w) \<Longrightarrow> ts_session_id ts \<noteq> [] \<Longrightarrow> prot_active p \<Longrightarrow> protection_wf p \<Longrightarrow> prot_block_size p = 16 \<Longrightarrow>
      prot_crypto p = srv_crypto server \<Longrightarrow> I (ts\<lparr>ts_outbound := p\<rparr>, w)"
    and inbound_keys: "I (ts, w) \<Longrightarrow> ts_session_id ts \<noteq> [] \<Longrightarrow> prot_active p \<Longrightarrow> protection_wf p \<Longrightarrow> prot_block_size p = 16 \<Longrightarrow>
      prot_crypto p = srv_crypto server \<Longrightarrow> I (ts\<lparr>ts_inbound := p\<rparr>, w)"
    and scratch: "I (ts, w) \<Longrightarrow> length payload \<le> EMSSH_MAX_KEXINIT_PAYLOAD \<Longrightarrow>
      I (ts\<lparr>ts_client_kexinit_payload := overwrite (ts_client_kexinit_payload ts) 0 payload\<rparr>, w)"
    and kexinit: "I (ts, w) \<Longrightarrow> length payload \<le> EMSSH_MAX_KEXINIT_PAYLOAD \<Longrightarrow>
      I (ts\<lparr>ts_client_kexinit_payload := overwrite (ts_client_kexinit_payload ts) 0 payload,
        ts_client_kexinit_payload_len := length payload\<rparr>, w)"
    and public_key: "I (ts, w) \<Longrightarrow> length key \<le> EMSSH_MAX_KEX_PUBLIC_KEY \<Longrightarrow> I (ts\<lparr>ts_client_kex_public_key := key\<rparr>, w)"
    and request_payload: "I (ts, w) \<Longrightarrow> length payload \<le> EMSSH_MAX_CHANNEL_REQUEST_PAYLOAD \<Longrightarrow>
      I (ts\<lparr>ts_channel_request_payload := overwrite (ts_channel_request_payload ts) 0 payload\<rparr>, w)"
begin

abbreviation "kept m \<equiv> keeps N I m (\<lambda>_. True)"

lemma kept_mod: "P () \<Longrightarrow> (\<And>ts. session_core (f ts) = session_core ts) \<Longrightarrow>
    (\<And>ts. host_fits server \<Longrightarrow> session_arrays_fit ts \<Longrightarrow> session_arrays_fit (f ts)) \<Longrightarrow> keeps N I (modP f) P"
  by (rule keeps_modP) (auto intro: core)

lemma kept_to_state: "P () \<Longrightarrow> keeps N I (to_state st) P"
  unfolding to_state_def by (rule kept_mod) simp_all

lemma kept_rng: "(\<And>rng. keeps N I (k rng) P) \<Longrightarrow> keeps N I (rngP server k) P"
  by (rule keeps_rngP) (auto intro: rng)

lemma kept_read: "kept (net_read_exact server len timeout_ms)"
  using net_in [of "fst s" for s] by (blast intro: keepsI wpP_mono dest: keepsD)

lemmas kept_basic = keeps_intros kept_to_state kept_rng net_out kept_read

subsection \<open>Packets\<close>

lemma send_protected: "kept (ssh_transport_send_protected_payload server payload timeout_ms)"
proof (rule keepsI)
  fix s assume s: "I s"
  obtain ts w where [simp]: "s = (ts, w)" by (cases s)
  let ?rest = "\<lambda>status packet. bindP (valueP status) (\<lambda>packet_len.
      thenP (net_write_all server (take packet_len packet) timeout_ms)
      (modP (\<lambda>session. record_rekey_packet True packet_len
        (session\<lparr>ts_outbound_sequence := prot_sequence (ts_outbound session)\<rparr>))))"
  have rest: "kept (?rest status packet)" for status packet
    by (intro kept_basic kept_mod) simp_all
  have "wp N (case ssh_packet_encode_protected packet_storage (length packet_storage) payload fill (ts_outbound ts) of
      (status, packet, outbound) \<Rightarrow> thenP (modP (ts_outbound_update (\<lambda>_. outbound))) (?rest status packet))
      (\<lambda>_. I) (\<lambda>x t. I t \<and> True) (ts, w')" if "I (ts, w')" for fill w'
    by (rule wpP_prod, rule wpP_prod, rule wp_thenP, rule wp_modP, rule keepsD [OF rest])
      (use encoded [OF that] in simp)
  with s rng [of _ ts w] show "wp N (ssh_transport_send_protected_payload server payload timeout_ms) (\<lambda>_. I) (\<lambda>x t. I t \<and> True) s"
    unfolding ssh_transport_send_protected_payload_def
    by (intro wp_tsP wp_thenP wp_ensureP wp_rngP) auto
qed

lemma send_plain: "kept (send_transport_payload server payload timeout_ms)"
  unfolding send_transport_payload_def by (intro kept_basic kept_mod send_protected) simp_all

lemma bind_read: "(\<And>x. keeps N I (f x) Q) \<Longrightarrow> keeps N I (bindP (net_read_exact server len timeout_ms) f) Q"
  by (rule keeps_bindP [OF kept_read])

lemma receive_plain: "keeps N I (receive_plain_packet server cap timeout_ms) (\<lambda>payload. length payload \<le> cap)"
  unfolding receive_plain_packet_def by (intro kept_basic kept_mod bind_read) simp_all

lemma receive_protected:
  "keeps N I (ssh_transport_receive_protected_payload server cap timeout_ms) (\<lambda>payload. length payload \<le> cap)"
proof (rule keepsI)
  fix s assume s: "I s"
  define ts where "ts = fst s"
  let ?Q = "\<lambda>x t. I t \<and> length x \<le> cap"
  have finish: "keeps N I (bindP (valueP status) (\<lambda>payload.
           thenP (ensureP (\<not> length payload > cap) SSH_ERR_BUFFER_TOO_SMALL)
           (thenP (modP (\<lambda>session. record_rekey_packet False packet_len
             (session\<lparr>ts_inbound_sequence := prot_sequence (ts_inbound session)\<rparr>)))
           (retP payload)))) (\<lambda>payload. length payload \<le> cap)" for status packet_len
    by (intro kept_basic kept_mod) simp_all
  have read: "I t \<Longrightarrow> fst t = ts \<Longrightarrow> (\<And>x t. I t \<Longrightarrow> fst t = ts \<Longrightarrow> wp N (f x) (\<lambda>_. I) ?Q t) \<Longrightarrow>
      wp N (bindP (net_read_exact server len timeout_ms) f) (\<lambda>_. I) ?Q t" for len f t
    by (rule wp_bindP, rule wpP_mono, rule keepsD [OF net_in [of ts]]) auto
  show "wp N (ssh_transport_receive_protected_payload server cap timeout_ms) (\<lambda>_. I) ?Q s"
    unfolding ssh_transport_receive_protected_payload_def Let_def
    by (intro wp_tsP wp_thenP wp_ensureP read wpP_prod wpP_sum wp_failP wp_modP keepsD [OF finish])
      (auto simp: s ts_def [symmetric] intro: decoded)
qed

lemma receive_any: "keeps N I (receive_transport_payload server cap timeout_ms) (\<lambda>payload. length payload \<le> cap)"
  unfolding receive_transport_payload_def by (intro kept_basic receive_plain receive_protected)

subsection \<open>Identification and key exchange\<close>

lemma read_fits: "keeps N I (net_read_exact server len timeout_ms) (\<lambda>bs. True \<and> (host_fits server \<longrightarrow> length bs \<le> len))"
  by (rule keeps_result [OF kept_read]) (blast intro: net_read_fits)

lemma receive_line: "keeps N I (receive_one_line server cap timeout_ms) (\<lambda>line. host_fits server \<longrightarrow> length line \<le> cap)"
proof -
  have "keeps N I (forP n (\<lambda>_. failP SSH_ERR_MALFORMED_PACKET) (\<lambda>line.
       bindP (net_read_exact server 1 timeout_ms) (\<lambda>c.
       retP (if c ! 0 = 10 then Inr (line @ c) else Inl (line @ c)))) line)
     (\<lambda>x. host_fits server \<longrightarrow> length x \<le> length line + n)" for n line
  proof (induction n arbitrary: line)
    case (Suc n)
    have next_byte: "keeps N I (bindP (net_read_exact server 1 timeout_ms) (\<lambda>c.
        retP (if c ! 0 = 10 then Inr (line @ c) else Inl (line @ c))))
      (\<lambda>r. host_fits server \<longrightarrow> (case r of Inl y \<Rightarrow> length y \<le> length line + 1 | Inr y \<Rightarrow> length y \<le> length line + 1))"
      by (rule keeps_bindP [OF read_fits], rule keeps_retP) auto
    show ?case
      unfolding forP.simps
      by (rule keeps_bindP [OF next_byte], intro keeps_sum keeps_mono [OF Suc] keeps_retP) auto
  next
    case 0
    show ?case unfolding forP.simps by (rule keeps_failP)
  qed
  from this [of cap "[]"] show ?thesis
    unfolding receive_one_line_def by (auto intro: keeps_failP)
qed

lemma send_identification: "kept (ssh_transport_send_identification server timeout_ms)"
  unfolding ssh_transport_send_identification_def
  by (intro kept_basic kept_mod) (auto simp: session_arrays_fit_def dest: format_identification_fits)

lemma receive_identification: "kept (ssh_transport_receive_identification server timeout_ms)"
  unfolding ssh_transport_receive_identification_def
  by (intro kept_basic kept_mod keeps_forP [where J = "\<lambda>_. True"] keeps_bindP [OF receive_line])
    (simp_all add: session_arrays_fit_def split: sum.splits)

lemma send_kexinit: "kept (ssh_transport_send_kexinit server timeout_ms)"
  unfolding ssh_transport_send_kexinit_def
  by (intro kept_basic kept_mod send_plain) (auto simp: session_arrays_fit_def dest: encode_payload_fits [OF _ stays_within_kexinit])

lemma process_kexinit: "kept (process_kexinit_payload payload)"
proof -
  have "length payload \<le> EMSSH_MAX_KEXINIT_PAYLOAD \<Longrightarrow>
      kept (modP (\<lambda>session. session\<lparr>ts_client_kexinit_payload := overwrite (ts_client_kexinit_payload session) 0 payload,
        ts_client_kexinit_payload_len := length payload\<rparr>))"
    by (rule keeps_modP) (auto intro: kexinit)
  then show ?thesis
    unfolding process_kexinit_payload_def by (intro kept_basic) (auto intro!: kept_mod)
qed

lemma receive_kexinit: "kept (ssh_transport_receive_kexinit server timeout_ms)"
  unfolding ssh_transport_receive_kexinit_def
  by (intro kept_basic keeps_bindP [OF receive_any] process_kexinit keeps_modP) (auto intro: kexinit)

lemma receive_ecdh_init: "kept (ssh_transport_receive_kex_ecdh_init server timeout_ms)"
  unfolding ssh_transport_receive_kex_ecdh_init_def
  by (intro kept_basic keeps_bindP [OF receive_any] keeps_modP) (auto intro!: public_key ecdh_init_key_fits)

lemma send_ecdh_reply: "kept (ssh_transport_send_kex_ecdh_reply server timeout_ms)"
proof -
  have generate: "(\<And>x. (host_fits server \<longrightarrow> length (fst x) \<le> EMSSH_MAX_KEX_PUBLIC_KEY \<and> length (snd x) \<le> EMSSH_MAX_KEX_PRIVATE_KEY) \<Longrightarrow>
        keeps N I (f x) Q) \<Longrightarrow> kex_generate_keypair (host_kex server) = Some g \<Longrightarrow>
      keeps N I (bindP (callP (g algorithm)) f) Q" for f algorithm g and Q :: "unit \<Rightarrow> bool"
    by (rule keeps_bindP [OF keeps_call_result [where R = "\<lambda>x. host_fits server \<longrightarrow> length (fst x) \<le> EMSSH_MAX_KEX_PUBLIC_KEY \<and>
        length (snd x) \<le> EMSSH_MAX_KEX_PRIVATE_KEY"]])
      (auto dest: keypair [where algorithm = algorithm] host_fitsD(2))
  have sign': "(\<And>x. (host_fits server \<longrightarrow> length x \<le> EMSSH_MAX_SIGNATURE) \<Longrightarrow> keeps N I (f x) Q) \<Longrightarrow> hostkey_sign (host_kex server) = Some g \<Longrightarrow>
      keeps N I (bindP (callP (g algorithm hash)) f) Q" for f algorithm hash g and Q :: "unit \<Rightarrow> bool"
    by (rule keeps_bindP [OF keeps_call_result [where R = "\<lambda>x. host_fits server \<longrightarrow> length x \<le> EMSSH_MAX_SIGNATURE"]])
      (auto dest: sign [where algorithm = algorithm and hash = hash] host_fitsD(6))
  have first_id: "kept (modP (\<lambda>session. if length (ts_session_id session) = 0 then session\<lparr>ts_session_id := hash\<rparr> else session))"
    if "host_fits server \<longrightarrow> length hash \<le> EMSSH_MAX_EXCHANGE_HASH" for hash
    by (rule keeps_modP) (use that in \<open>auto intro: session_id\<close>)
  show ?thesis
    unfolding ssh_transport_send_kex_ecdh_reply_def
    by (intro kept_basic kept_mod generate sign' first_id send_plain)
      (auto simp: session_arrays_fit_def dest: host_fitsD(3,4,5))
qed

lemma new_keys:
  assumes "I (ts, w)" "ts_session_id ts \<noteq> []" "prot_active p" "protection_wf p" "prot_block_size p = 16"
    and "prot_crypto p = srv_crypto server"
  shows "I (reset_rekey_direction outbound (if outbound then ts\<lparr>ts_outbound := p\<lparr>prot_sequence := ts_outbound_sequence ts\<rparr>\<rparr>
          else ts\<lparr>ts_inbound := p\<lparr>prot_sequence := ts_inbound_sequence ts\<rparr>\<rparr>), w)" (is "I (reset_rekey_direction _ ?ts, w)")
proof -
  have "protection_wf (p\<lparr>prot_sequence := n\<rparr>)" for n
    using assms by (simp add: protection_wf_def)
  then have "I (?ts, w)"
    using assms outbound_keys inbound_keys by simp
  then show ?thesis
    using core by simp
qed

lemma activate: "kept (activate_packet_protection server outbound)"
proof (rule keepsI)
  fix s assume s: "I s"
  have set: "prot_active p \<and> protection_wf p \<and> prot_block_size p = 16 \<and> prot_crypto p = crypto"
    if "ssh_packet_protection_set crypto ca ma key iv mac b m p0 = (Inr u, p)" 
       "negotiated_packet_sizes neg = Inr (k, i, b, l, m)" for crypto ca ma key iv mac b m p p0 neg k i l u
    using protection_set_changes [OF that(1)] that(2)
    by (auto simp: negotiated_packet_sizes_def view_algorithm_size_def normalized_block_size_def packet_limits Let_def
        split: if_splits)
  have id: "I ((fst s)\<lparr>ts_session_id := ts_exchange_hash (fst s)\<rparr>, snd s)"
    if "ts_session_id (fst s) = []" "\<not> length (ts_exchange_hash (fst s)) > EMSSH_MAX_EXCHANGE_HASH"
    using s session_id [OF _ that(1), of "snd s"] that(2) by simp
  show "wp N (activate_packet_protection server outbound) (\<lambda>_. I) (\<lambda>x t. I t \<and> True) s"
    unfolding activate_packet_protection_def Let_def
    by (intro wpP_intros conjI TrueI new_keys) (auto simp: s id dest: set)
qed

lemma send_newkeys: "kept (ssh_transport_send_newkeys server timeout_ms)"
  unfolding ssh_transport_send_newkeys_def by (intro kept_basic send_plain activate) simp_all

lemma receive_newkeys: "kept (ssh_transport_receive_newkeys server timeout_ms)"
  unfolding ssh_transport_receive_newkeys_def by (intro kept_basic keeps_bindP [OF receive_any] activate) simp_all

lemma send_ext_info: "kept (ssh_transport_send_ext_info server timeout_ms)"
  unfolding ssh_transport_send_ext_info_def by (intro kept_basic send_protected) simp_all

lemma peer_rekey: "kept (ssh_transport_handle_peer_rekey server payload timeout_ms)"
  unfolding ssh_transport_handle_peer_rekey_def
  by (intro kept_basic kept_mod keeps_tryP [where P = "\<lambda>_. True"] process_kexinit send_kexinit receive_ecdh_init
      send_ecdh_reply send_newkeys receive_newkeys) simp_all

subsection \<open>Messages of the upper layers\<close>

lemma receive_payload:
  "keeps N I (receive_protected_payload_skip_ignorable server cap timeout_ms) (\<lambda>payload. length payload \<le> cap)"
proof -
  have store: "keeps N I (whenP (cap < EMSSH_MAX_KEXINIT_PAYLOAD) (modP (\<lambda>session. session\<lparr>
         ts_client_kexinit_payload := overwrite (ts_client_kexinit_payload session) 0 received\<rparr>))) (\<lambda>_. True)"
    if "length received \<le> (if cap < EMSSH_MAX_KEXINIT_PAYLOAD then EMSSH_MAX_KEXINIT_PAYLOAD else cap)" for received
    by (rule keeps_whenP, simp, rule keeps_modP) (use that in \<open>auto intro: scratch\<close>)
  show ?thesis
    unfolding receive_protected_payload_skip_ignorable_def Let_def
    by (intro keeps_forP [where J = "\<lambda>_. True"] keeps_bindP [OF receive_protected] keeps_then_check keeps_thenP store
        keeps_whenP keeps_if keeps_retP keeps_failP peer_rekey kept_mod) (auto split: if_splits)
qed

lemma sending: "kept (send_message server cap encode st timeout_ms)"
  unfolding send_message_def by (intro kept_basic send_protected) simp_all

lemmas bind_payload = keeps_bindP [OF receive_payload]
lemmas upper_basic = kept_basic bind_payload sending

lemma services:
  "kept (ssh_transport_receive_service_request server timeout_ms)"
  "kept (ssh_transport_send_service_accept server name timeout_ms)"
  "kept (ssh_transport_receive_userauth_request server timeout_ms)"
  "kept (ssh_transport_send_userauth_pk_ok server algorithm blob timeout_ms)"
  "kept (ssh_transport_send_userauth_success server timeout_ms)"
  "kept (ssh_transport_send_userauth_failure server methods partial timeout_ms)"
  unfolding ssh_transport_receive_service_request_def ssh_transport_send_service_accept_def
    ssh_transport_receive_userauth_request_def ssh_transport_send_userauth_pk_ok_def
    ssh_transport_send_userauth_success_def ssh_transport_send_userauth_failure_def
  by (intro upper_basic; simp)+

lemma handle_userauth: "kept (ssh_transport_handle_userauth_request server request timeout_ms)"
  unfolding ssh_transport_handle_userauth_request_def by (intro kept_basic services)

lemma channel_senders:
  "kept (ssh_transport_send_global_request_failure server timeout_ms)"
  "kept (ssh_transport_send_channel_open_confirmation server rc sc w m timeout_ms)"
  "kept (ssh_transport_send_channel_open_failure server rc reason description timeout_ms)"
  "kept (ssh_transport_send_channel_success server rc timeout_ms)"
  "kept (ssh_transport_send_channel_failure server rc timeout_ms)"
  "kept (ssh_transport_send_channel_window_adjust server rc n timeout_ms)"
  "kept (ssh_transport_send_channel_eof server rc timeout_ms)"
  "kept (ssh_transport_send_channel_close server rc timeout_ms)"
  "kept (ssh_transport_send_channel_exit_status server rc n timeout_ms)"
  unfolding ssh_transport_send_global_request_failure_def ssh_transport_send_channel_open_confirmation_def
    ssh_transport_send_channel_open_failure_def ssh_transport_send_channel_success_def
    ssh_transport_send_channel_failure_def ssh_transport_send_channel_window_adjust_def
    ssh_transport_send_channel_eof_def ssh_transport_send_channel_close_def send_channel_simple_def
    ssh_transport_send_channel_exit_status_def
  by (intro upper_basic send_protected)+

lemma refusals:
  "kept (refuse_global_request server payload timeout_ms)"
  "kept (refuse_channel_open server payload timeout_ms)"
  unfolding refuse_global_request_def refuse_channel_open_def by (intro upper_basic channel_senders; simp)+

lemma receive_channel_open:
  "kept (ssh_transport_receive_channel_open server timeout_ms)"
  "kept (ssh_transport_receive_channel_open_skip_global_requests server timeout_ms)"
  unfolding ssh_transport_receive_channel_open_def ssh_transport_receive_channel_open_skip_global_requests_def
  by (intro keeps_forP [where J = "\<lambda>_. True"] upper_basic refusals; simp split: sum.splits)+

lemma handle_request: "kept (handle_request_payload server timeout_ms payload request)"
  unfolding handle_request_payload_def Let_def
  by (intro upper_basic keeps_tryP [where P = "\<lambda>_. True"] refusals kept_mod TrueI) simp_all

lemma receive_channel_request: "kept (ssh_transport_receive_channel_request server timeout_ms request)"
proof -
  have "kept (modP (\<lambda>session. session\<lparr>
         ts_channel_request_payload := overwrite (ts_channel_request_payload session) 0 payload\<rparr>))"
    if "length payload \<le> EMSSH_MAX_CHANNEL_REQUEST_PAYLOAD" for payload
    by (rule keeps_modP) (use that request_payload in auto)
  then show ?thesis
    unfolding ssh_transport_receive_channel_request_def
    by (intro keeps_forP [where J = "\<lambda>_. True"] keeps_tryP [OF receive_payload] kept_basic keeps_mono [OF handle_request])
      (simp_all split: sum.splits)
qed

lemma receive_channel_data: "keeps N I (ssh_transport_receive_channel_data server cap timeout_ms) (\<lambda>(_, bs). length bs \<le> cap)"
  unfolding ssh_transport_receive_channel_data_def by (intro upper_basic) simp_all

lemma handle_message: "kept (handle_message_payload server timeout_ms payload)"
  unfolding handle_message_payload_def Let_def
  by (intro upper_basic refusals channel_senders kept_mod TrueI) simp_all

lemma receive_channel_message:
  "keeps N I (ssh_transport_receive_channel_message server cap timeout_ms) (\<lambda>(_, bs). length bs \<le> cap)"
proof -
  have "kept (forP 16 (\<lambda>_. failP SSH_ERR_UNSUPPORTED) (\<lambda>_.
       bindP (receive_protected_payload_skip_ignorable server EMSSH_MAX_CHANNEL_MESSAGE_PAYLOAD timeout_ms)
         (handle_message_payload server timeout_ms)) ())"
    by (intro keeps_forP [where J = "\<lambda>_. True"] upper_basic keeps_mono [OF handle_message]) (simp_all split: sum.splits)
  then show ?thesis
    unfolding ssh_transport_receive_channel_message_def
    by (rule keeps_bindP) (intro kept_basic; simp)
qed

lemma send_data_loop: "kept (send_channel_data_loop server rc timeout_ms bs)"
proof (induction bs rule: length_induct)
  case (1 bs)
  then show ?case
    by (subst send_channel_data_loop.simps) (auto intro!: kept_basic send_protected simp: Let_def packet_limits)
qed

lemma send_channel_data: "kept (ssh_transport_send_channel_data server rc bs timeout_ms)"
  unfolding ssh_transport_send_channel_data_def by (intro kept_basic send_data_loop TrueI)

end

section \<open>Runs of a session\<close>

text \<open>The public procedures of the transport, and their runs in any order, with any arguments, whether they succeed or fail.\<close>

inductive transport_op :: "('w, 'z) ssh_host_scheme \<Rightarrow> ('w tstate, unit) proc \<Rightarrow> bool" for server where
  "transport_op server (ssh_transport_set_rekey_limits packets bytes)"
| "transport_op server (ssh_transport_send_identification server timeout_ms)"
| "transport_op server (ssh_transport_receive_identification server timeout_ms)"
| "transport_op server (ssh_transport_send_kexinit server timeout_ms)"
| "transport_op server (ssh_transport_receive_kexinit server timeout_ms)"
| "transport_op server (ssh_transport_receive_kex_ecdh_init server timeout_ms)"
| "transport_op server (ssh_transport_send_kex_ecdh_reply server timeout_ms)"
| "transport_op server (ssh_transport_send_newkeys server timeout_ms)"
| "transport_op server (ssh_transport_receive_newkeys server timeout_ms)"
| "transport_op server (ssh_transport_send_ext_info server timeout_ms)"
| "transport_op server (ssh_transport_handle_peer_rekey server payload timeout_ms)"
| "transport_op server (ssh_transport_send_protected_payload server payload timeout_ms)"
| "transport_op server (dropP (ssh_transport_receive_protected_payload server cap timeout_ms) (retP ()))"
| "transport_op server (dropP (ssh_transport_receive_service_request server timeout_ms) (retP ()))"
| "transport_op server (ssh_transport_send_service_accept server name timeout_ms)"
| "transport_op server (dropP (ssh_transport_receive_userauth_request server timeout_ms) (retP ()))"
| "transport_op server (ssh_transport_send_userauth_pk_ok server algorithm blob timeout_ms)"
| "transport_op server (ssh_transport_send_userauth_success server timeout_ms)"
| "transport_op server (ssh_transport_send_userauth_failure server methods partial timeout_ms)"
| "transport_op server (ssh_transport_handle_userauth_request server request timeout_ms)"
| "transport_op server (dropP (ssh_transport_receive_channel_open server timeout_ms) (retP ()))"
| "transport_op server (dropP (ssh_transport_receive_channel_open_skip_global_requests server timeout_ms) (retP ()))"
| "transport_op server (ssh_transport_send_global_request_failure server timeout_ms)"
| "transport_op server (ssh_transport_send_channel_open_confirmation server rc sc window maxp timeout_ms)"
| "transport_op server (ssh_transport_send_channel_open_failure server rc reason description timeout_ms)"
| "transport_op server (dropP (ssh_transport_receive_channel_request server timeout_ms channel_request) (retP ()))"
| "transport_op server (ssh_transport_send_channel_success server rc timeout_ms)"
| "transport_op server (ssh_transport_send_channel_failure server rc timeout_ms)"
| "transport_op server (dropP (ssh_transport_receive_channel_data server cap timeout_ms) (retP ()))"
| "transport_op server (dropP (ssh_transport_receive_channel_message server cap timeout_ms) (retP ()))"
| "transport_op server (ssh_transport_send_channel_data server rc bs timeout_ms)"
| "transport_op server (ssh_transport_send_channel_window_adjust server rc n timeout_ms)"
| "transport_op server (ssh_transport_send_channel_eof server rc timeout_ms)"
| "transport_op server (ssh_transport_send_channel_close server rc timeout_ms)"
| "transport_op server (ssh_transport_send_channel_exit_status server rc n timeout_ms)"

inductive transport_step :: "('w, 'z) ssh_host_scheme \<Rightarrow> 'w tstate \<Rightarrow> 'w tstate \<Rightarrow> bool" for server where
  "transport_op server m \<Longrightarrow> m s = Some (r, t) \<Longrightarrow> transport_step server s t"

context session_contract
begin

lemma every_op: "transport_op server m \<Longrightarrow> kept m"
proof (induction rule: transport_op.induct)
  case 1
  show ?case unfolding ssh_transport_set_rekey_limits_def by (rule kept_mod) simp_all
qed (intro keeps_dropP keeps_retP TrueI send_identification receive_identification send_kexinit receive_kexinit receive_ecdh_init
    send_ecdh_reply send_newkeys receive_newkeys send_ext_info peer_rekey send_protected services handle_userauth
    receive_channel_open channel_senders receive_channel_request send_channel_data
    keeps_mono [OF receive_protected] keeps_mono [OF receive_channel_data] keeps_mono [OF receive_channel_message])+

lemma every_step: "transport_step server s t \<Longrightarrow> I s \<Longrightarrow> I t"
  by (erule transport_step.cases) (blast dest: every_op keeps_Some)

lemma every_run: "(transport_step server)\<^sup>*\<^sup>* s t \<Longrightarrow> I s \<Longrightarrow> I t"
  by (induction rule: rtranclp_induct) (auto intro: every_step)

end

section \<open>Session invariants\<close>

text \<open>Reading returns when a read cannot time out for ever: \<open>\<mu>\<close> is a bound on the timeouts in a row.\<close>

definition timeouts_end :: "('w, 'z) ssh_host_scheme \<Rightarrow> ('w \<Rightarrow> nat) \<Rightarrow> bool" where
  "timeouts_end server \<mu> \<longleftrightarrow> (\<forall>net read len timeout_ms w w'. host_net server = Some net \<longrightarrow> net_read net = Some read \<longrightarrow>
     read len timeout_ms w = (Inl EMSSH_NET_IO_TIMEOUT, w') \<longrightarrow> \<mu> w' < \<mu> w)"

lemma net_read_step_cases:
  assumes "net_read_step read len timeout_ms done w = (r, w')" "length done < len"
  shows "w' = snd (read (len - length done) timeout_ms w)"
    "r = Inr done' \<Longrightarrow> len - length done' < len - length done \<or>
       length done' = length done \<and> read (len - length done) timeout_ms w = (Inl EMSSH_NET_IO_TIMEOUT, w')"
  using assms by (auto simp: net_read_step_def neq_Nil_conv split: prod.splits sum.splits if_splits)

lemma keeps_net_read:
  assumes world: "\<And>net read n t ts w. host_net server = Some net \<Longrightarrow> net_read net = Some read \<Longrightarrow> I (ts, w) \<Longrightarrow> I (ts, snd (read n t w))"
    and ends: "N \<or> timeouts_end server \<mu>"
  shows "keeps N I (net_read_exact server len timeout_ms) (\<lambda>bs. len \<le> length bs)"
proof (rule keepsI)
  fix s assume s: "I s"
  let ?E = "\<lambda>_. I" and ?Q = "\<lambda>x t. I t \<and> len \<le> length x"
  show "wp N (net_read_exact server len timeout_ms) ?E ?Q s"
    unfolding net_read_exact_def
  proof (intro wpP_option wp_failP s)
    fix net read assume net: "host_net server = Some net" "net_read net = Some read"
    let ?body = "\<lambda>done. if length done < len
           then bindP (callP (net_read_step read len timeout_ms done)) (\<lambda>done. retP (Inl done)) else retP (Inr done)"
    let ?R = "inv_image (less_than <*lex*> less_than) (\<lambda>(done :: u8 list, s). (len - length done, \<mu> (snd s)))"
    have body: "wp N (?body done) ?E (\<lambda>r t. case r of Inl y \<Rightarrow> I t \<and> (N \<or> ((y, t), (done, s)) \<in> ?R) | Inr a \<Rightarrow> ?Q a t) s"
      if "I s" for "done" s
    proof -
      have I: "I (fst s, w)" if "net_read_step read len timeout_ms done (snd s) = (r, w)" "length done < len" for r w
        using world [OF net] \<open>I s\<close> net_read_step_cases(1) [OF that] by simp
      have "N \<or> ((y, fst s, w), (done, s)) \<in> ?R"
        if "net_read_step read len timeout_ms done (snd s) = (Inr y, w)" "length done < len" for y w
        using net_read_step_cases(2) [OF that, of y] ends net by (auto simp: timeouts_end_def)
      with I that show ?thesis
        by (intro wpP_if wp_bindP wp_callP wp_retP) auto
    qed
    show "wp N (loopP ?body []) ?E ?Q s"
    proof (cases N)
      case True
      have "wp True (loopP ?body []) ?E ?Q s"
        by (rule wp_loopP [where I = "\<lambda>_. I"], rule wpP_mono [OF body]) (use s in \<open>auto split: sum.splits\<close>)
      with True show ?thesis by simp
    next
      case False
      have "wp False (loopP ?body []) ?E ?Q s"
        by (rule wp_loopP_wf [where R = ?R and I = "\<lambda>_. I"], (rule wf_inv_image, simp add: wf_lex_prod), rule wpP_mono [OF body])
          (use s False in \<open>auto split: sum.splits\<close>)
      with False show ?thesis by simp
    qed
  qed
qed

lemma keeps_net_write:
  assumes world: "\<And>net send bs t ts w. host_net server = Some net \<Longrightarrow> net_write net = Some send \<Longrightarrow> I (ts, w) \<Longrightarrow> I (ts, snd (send bs t w))"
  shows "keeps N I (net_write_all server buf timeout_ms) (\<lambda>_. True)"
proof -
  have "I (ts, snd (net_write_loop send timeout_ms buf w))"
    if "host_net server = Some net" "net_write net = Some send" "I (ts, w)" for net send ts w
    using that(2,3)
  proof (induction send timeout_ms buf w rule: net_write_loop.induct)
    case (1 send timeout_ms buf w)
    then have "I (ts, snd (send buf timeout_ms w))"
      using world [OF that(1)] by blast
    with 1 show ?case
      by (subst net_write_loop.simps) (auto split: prod.splits)
  qed
  then show ?thesis
    unfolding net_write_all_def by (intro keeps_intros keeps_callP) (metis snd_conv, simp)
qed

text \<open>The contract for an invariant of the session alone: the callbacks may do anything to the world.\<close>

locale session_invariant =
  fixes J :: "ssh_transport_session \<Rightarrow> bool"
  assumes core_only: "session_core ts' = session_core ts \<Longrightarrow> J ts \<Longrightarrow> J ts'"
    and sent: "J ts \<Longrightarrow> same_protection (ts_outbound ts) p \<Longrightarrow> J (ts\<lparr>ts_outbound := p\<rparr>)"
    and received: "J ts \<Longrightarrow> same_protection (ts_inbound ts) p \<Longrightarrow> J (ts\<lparr>ts_inbound := p\<rparr>)"
    and first_id: "J ts \<Longrightarrow> ts_session_id ts = [] \<Longrightarrow> J (ts\<lparr>ts_session_id := hash\<rparr>)"
    and new_outbound: "J ts \<Longrightarrow> ts_session_id ts \<noteq> [] \<Longrightarrow> prot_active p \<Longrightarrow> protection_wf p \<Longrightarrow> prot_block_size p = 16 \<Longrightarrow>
      J (ts\<lparr>ts_outbound := p\<rparr>)"
    and new_inbound: "J ts \<Longrightarrow> ts_session_id ts \<noteq> [] \<Longrightarrow> prot_active p \<Longrightarrow> protection_wf p \<Longrightarrow> prot_block_size p = 16 \<Longrightarrow>
      J (ts\<lparr>ts_inbound := p\<rparr>)"
    and stored: "J ts \<Longrightarrow> length payload \<le> EMSSH_MAX_KEXINIT_PAYLOAD \<Longrightarrow>
      J (ts\<lparr>ts_client_kexinit_payload := overwrite (ts_client_kexinit_payload ts) 0 payload\<rparr>) \<and>
      J (ts\<lparr>ts_client_kexinit_payload := overwrite (ts_client_kexinit_payload ts) 0 payload,
        ts_client_kexinit_payload_len := length payload\<rparr>)"
    and client_key: "J ts \<Longrightarrow> length key \<le> EMSSH_MAX_KEX_PUBLIC_KEY \<Longrightarrow> J (ts\<lparr>ts_client_kex_public_key := key\<rparr>)"
    and request_stored: "J ts \<Longrightarrow> length payload \<le> EMSSH_MAX_CHANNEL_REQUEST_PAYLOAD \<Longrightarrow>
      J (ts\<lparr>ts_channel_request_payload := overwrite (ts_channel_request_payload ts) 0 payload\<rparr>)"

sublocale session_invariant \<subseteq> run: session_contract True server "\<lambda>s. J (fst s)" for server
proof unfold_locales
  show "keeps True (\<lambda>s. J (fst s) \<and> fst s = ts) (net_read_exact server len timeout_ms) (\<lambda>_. True)" for ts len timeout_ms
    by (rule keeps_mono, rule keeps_net_read) simp_all
  show "keeps True (\<lambda>s. J (fst s)) (net_write_all server buf timeout_ms) (\<lambda>_. True)" for buf timeout_ms
    by (rule keeps_net_write) simp
qed (auto intro: core_only sent received first_id new_outbound new_inbound client_key request_stored
    dest: stored encode_same_protection decode_same_protection)

text \<open>The session identifier never changes once it is set, and a direction that has been protected stays protected.\<close>

definition session_fixed :: "u8 list \<Rightarrow> bool \<Rightarrow> bool \<Rightarrow> ssh_transport_session \<Rightarrow> bool" where
  "session_fixed sid inb outb ts \<longleftrightarrow> (sid \<noteq> [] \<longrightarrow> ts_session_id ts = sid) \<and>
     (inb \<longrightarrow> prot_active (ts_inbound ts)) \<and> (outb \<longrightarrow> prot_active (ts_outbound ts))"

text \<open>The used parts of the arrays fit, the protection states are well formed, and no key is active without a session
  identifier.\<close>

definition transport_session_wf :: "ssh_transport_session \<Rightarrow> bool" where
  "transport_session_wf ts \<longleftrightarrow> protection_wf (ts_inbound ts) \<and> protection_wf (ts_outbound ts) \<and>
     (prot_active (ts_inbound ts) \<longrightarrow> prot_block_size (ts_inbound ts) = 16 \<and> ts_session_id ts \<noteq> []) \<and>
     (prot_active (ts_outbound ts) \<longrightarrow> prot_block_size (ts_outbound ts) = 16 \<and> ts_session_id ts \<noteq> []) \<and>
     length (ts_client_kexinit_payload ts) \<le> EMSSH_MAX_KEXINIT_PAYLOAD \<and>
     ts_client_kexinit_payload_len ts \<le> length (ts_client_kexinit_payload ts) \<and>
     length (ts_client_kex_public_key ts) \<le> EMSSH_MAX_KEX_PUBLIC_KEY \<and>
     length (ts_channel_request_payload ts) \<le> EMSSH_MAX_CHANNEL_REQUEST_PAYLOAD"

interpretation fixed_session: session_invariant "session_fixed sid inb outb"
  by unfold_locales (auto simp: session_fixed_def same_protection_def session_core_def)

lemma overwrite_length_le:
  "length xs \<le> n \<Longrightarrow> length ys \<le> n \<Longrightarrow> length (overwrite xs 0 ys) \<le> n"
  "length xs \<le> length (overwrite xs 0 ys)" "length ys \<le> length (overwrite xs 0 ys)"
  by (simp_all add: overwrite_def)

interpretation wf_session: session_invariant transport_session_wf
  by unfold_locales
    (auto simp: transport_session_wf_def same_protection_def session_core_def overwrite_length_le
      intro: order_trans [OF _ overwrite_length_le(2)])

text \<open>With callbacks that respect the room they are given, every array of the session fits.\<close>

interpretation sized_session: session_contract True server "\<lambda>s. host_fits server \<longrightarrow> session_arrays_fit (fst s)"
proof unfold_locales
  show "keeps True (\<lambda>s. (host_fits server \<longrightarrow> session_arrays_fit (fst s)) \<and> fst s = ts) (net_read_exact server len timeout_ms) (\<lambda>_. True)"
    for ts len timeout_ms
    by (rule keeps_mono, rule keeps_net_read) simp_all
  show "keeps True (\<lambda>s. host_fits server \<longrightarrow> session_arrays_fit (fst s)) (net_write_all server buf timeout_ms) (\<lambda>_. True)" for buf timeout_ms
    by (rule keeps_net_write) simp
  show "host_fits server \<longrightarrow> session_arrays_fit (fst (ts\<lparr>ts_session_id := hash\<rparr>, w))"
    if "host_fits server \<longrightarrow> session_arrays_fit (fst (ts, w))" "host_fits server \<Longrightarrow> length hash \<le> EMSSH_MAX_EXCHANGE_HASH" for ts w hash
    using that by (simp add: session_arrays_fit_def)
qed auto

text \<open>The keys in use belong to the crypto interface of the server.\<close>

definition server_keys :: "('w, 'z) ssh_host_scheme \<Rightarrow> ssh_transport_session \<Rightarrow> bool" where
  "server_keys server ts \<longleftrightarrow> (prot_active (ts_inbound ts) \<longrightarrow> prot_crypto (ts_inbound ts) = srv_crypto server) \<and>
     (prot_active (ts_outbound ts) \<longrightarrow> prot_crypto (ts_outbound ts) = srv_crypto server)"

interpretation keys_of_server: session_contract True server "\<lambda>s. server_keys server (fst s)"
proof unfold_locales
  show "keeps True (\<lambda>s. server_keys server (fst s) \<and> fst s = ts) (net_read_exact server len timeout_ms) (\<lambda>_. True)" for ts len timeout_ms
    by (rule keeps_mono, rule keeps_net_read) simp_all
  show "keeps True (\<lambda>s. server_keys server (fst s)) (net_write_all server buf timeout_ms) (\<lambda>_. True)" for buf timeout_ms
    by (rule keeps_net_write) simp
qed (auto simp: server_keys_def session_core_def same_protection_def dest: encode_same_protection decode_same_protection)

text \<open>And on a connection whose timeouts end every procedure returns.\<close>

interpretation returning: session_contract "\<not> timeouts_end server \<mu>" server "\<lambda>_. True"
proof unfold_locales
  show "keeps (\<not> timeouts_end server \<mu>) (\<lambda>s. True \<and> fst s = ts) (net_read_exact server len timeout_ms) (\<lambda>_. True)" for ts len timeout_ms
    by (rule keeps_mono, rule keeps_net_read [where \<mu> = \<mu>]) simp_all
  show "keeps (\<not> timeouts_end server \<mu>) (\<lambda>_. True) (net_write_all server buf timeout_ms) (\<lambda>_. True)" for buf timeout_ms
    by (rule keeps_net_write) simp
qed simp_all

end
