(* ===== verification/Ssh_Session_Server.thy ===== *)
theory Ssh_Session_Server
  imports Ssh_Transport Sftp_Server
begin

text \<open>
  The session server of \<^verbatim>\<open>src/core/ssh_server.c\<close>: set-up of the transport, user authentication, acceptance of a channel,
  the SFTP and the terminal channel with their windows, and the loops of a whole session.

  A procedure on a channel works on the channel, the transport session and the world. The server is again the first argument,
  extended by the file system, the terminal and the log; its \<^verbatim>\<open>diag_\<close> fields, the only ones that change, are a component of the
  state of a whole session. Lines for the log are built and written as in the code; trace output to stderr is left out.
\<close>

section \<open>Interfaces, options and channels\<close>

definition EMSSH_DEFAULT_SESSION_TIMEOUT_MS :: u32 where "EMSSH_DEFAULT_SESSION_TIMEOUT_MS = 10000"
definition EMSSH_DEFAULT_CHANNEL_WINDOW_SIZE :: u32 where "EMSSH_DEFAULT_CHANNEL_WINDOW_SIZE = 65536"
definition EMSSH_DEFAULT_CHANNEL_MAX_PACKET_SIZE :: u32 where "EMSSH_DEFAULT_CHANNEL_MAX_PACKET_SIZE = 32768"
definition EMSSH_TERMINAL_RECV_POLL_MS :: u32 where "EMSSH_TERMINAL_RECV_POLL_MS = 50"
definition EMSSH_SFTP_MAX_PACKET_SIZE :: nat where "EMSSH_SFTP_MAX_PACKET_SIZE = 131072"
definition EMSSH_MAX_AUTH_TRIES :: nat where "EMSSH_MAX_AUTH_TRIES = 6"
definition SSH_CHANNEL_REQUEST_X11_REQ :: "u8 list" where "SSH_CHANNEL_REQUEST_X11_REQ = lit ''x11-req''"

text \<open>A terminal handle is a natural number with 0 for NULL. \<^verbatim>\<open>read\<close> returns the bytes it stored, \<^verbatim>\<open>write\<close> the number it took,
  \<^verbatim>\<open>wait_exit\<close> whether the process has ended and its exit status.\<close>

record 'w ssh_term_api =
  term_spawn_shell :: "(cstr \<Rightarrow> cstr \<Rightarrow> u32 \<Rightarrow> u32 \<Rightarrow> u32 \<Rightarrow> u32 \<Rightarrow> ('w, nat) act) option"
  term_spawn_exec :: "(cstr \<Rightarrow> u8 list \<Rightarrow> cstr \<Rightarrow> u32 \<Rightarrow> u32 \<Rightarrow> u32 \<Rightarrow> u32 \<Rightarrow> ('w, nat) act) option"
  term_write :: "(nat \<Rightarrow> u8 list \<Rightarrow> ('w, nat) act) option"
  term_read :: "(nat \<Rightarrow> nat \<Rightarrow> ('w, u8 list) act) option"
  term_resize :: "(nat \<Rightarrow> u32 \<Rightarrow> u32 \<Rightarrow> u32 \<Rightarrow> u32 \<Rightarrow> ('w, unit) act) option"
  term_signal :: "(nat \<Rightarrow> u8 list \<Rightarrow> ('w, unit) act) option"
  term_wait_exit :: "(nat \<Rightarrow> ('w, bool \<times> u32) act) option"
  term_close :: "(nat \<Rightarrow> ('w, unit) act) option"

record 'w ssh_session_host = "'w ssh_host" +
  host_fs :: "'w ssh_fs_api option"
  host_term :: "'w ssh_term_api option"
  host_log :: "(u8 list \<Rightarrow> 'w \<Rightarrow> 'w) option"

record ssh_server_diag =
  diag_last_received_message_id :: "u8 option"
  diag_last_channel_request_type :: "u8 list option"
  diag_last_channel_request_want_reply :: bool

record 'w ssh_server_session_options =
  opt_algorithms :: "ssh_kexinit_algorithm_set option"
  opt_timeout_ms :: u32
  opt_server_channel :: u32
  opt_channel_window_size :: u32
  opt_channel_max_packet_size :: u32
  opt_max_sftp_packets :: u32
  opt_rekey_after_packets :: u64
  opt_rekey_after_bytes :: u64
  opt_sftp_policy :: "(sftp_policy_request \<Rightarrow> ('w, unit) act) option"
  opt_non_sftp_channel_request_policy :: "(ssh_channel_request \<Rightarrow> ('w, unit) act) option"
  opt_sftp_subsystem_name :: cstr
  opt_sftp_trace_enabled :: bool

text \<open>\<open>sch_rx\<close> and \<open>sch_tx_pending\<close> are the used parts of \<^verbatim>\<open>sftp_rx\<close> and \<^verbatim>\<open>sftp_tx_pending\<close>.\<close>

record 'w ssh_server_sftp_channel =
  sch_client_channel :: u32
  sch_server_channel :: u32
  sch_window_size :: u32
  sch_window_max_size :: u32
  sch_max_packet_size :: u32
  sch_peer_window_size :: u32
  sch_peer_max_packet_size :: u32
  sch_initialized :: bool
  sch_eof_sent :: bool
  sch_close_sent :: bool
  sch_rx :: "u8 list"
  sch_tx_pending :: "u8 list"
  sch_sftp :: "'w sftp_server_session"

datatype ssh_server_terminal_state =
    SSH_SERVER_TERMINAL_STATE_INIT
  | SSH_SERVER_TERMINAL_STATE_SESSION_OPEN
  | SSH_SERVER_TERMINAL_STATE_PTY_CONFIGURED
  | SSH_SERVER_TERMINAL_STATE_RUNNING
  | SSH_SERVER_TERMINAL_STATE_CLOSED

record ssh_server_terminal_channel =
  tch_client_channel :: u32
  tch_server_channel :: u32
  tch_window_size :: u32
  tch_window_max_size :: u32
  tch_max_packet_size :: u32
  tch_peer_window_size :: u32
  tch_peer_max_packet_size :: u32
  tch_cols :: u32
  tch_rows :: u32
  tch_width_px :: u32
  tch_height_px :: u32
  tch_term_type :: "u8 list"
  tch_initialized :: bool
  tch_pty_requested :: bool
  tch_running :: bool
  tch_eof_sent :: bool
  tch_close_sent :: bool
  tch_exit_status_sent :: bool
  tch_state :: ssh_server_terminal_state
  tch_term_handle :: nat

datatype ssh_server_channel_kind =
    SSH_SERVER_CHANNEL_KIND_NONE
  | SSH_SERVER_CHANNEL_KIND_SFTP
  | SSH_SERVER_CHANNEL_KIND_TERMINAL

text \<open>The zeroed structures.\<close>

definition empty_sftp_channel :: "'w ssh_server_sftp_channel" where
  "empty_sftp_channel = \<lparr>sch_client_channel = 0, sch_server_channel = 0, sch_window_size = 0, sch_window_max_size = 0,
     sch_max_packet_size = 0, sch_peer_window_size = 0, sch_peer_max_packet_size = 0, sch_initialized = False,
     sch_eof_sent = False, sch_close_sent = False, sch_rx = [], sch_tx_pending = [],
     sch_sftp = \<lparr>ses_fs = None, ses_policy = None, ses_next_handle_id = 0,
       ses_handles = replicate EMSSH_SFTP_MAX_HANDLES empty_entry\<rparr>\<rparr>"

definition empty_terminal_channel :: ssh_server_terminal_channel where
  "empty_terminal_channel = \<lparr>tch_client_channel = 0, tch_server_channel = 0, tch_window_size = 0, tch_window_max_size = 0,
     tch_max_packet_size = 0, tch_peer_window_size = 0, tch_peer_max_packet_size = 0, tch_cols = 0, tch_rows = 0,
     tch_width_px = 0, tch_height_px = 0, tch_term_type = [], tch_initialized = False, tch_pty_requested = False,
     tch_running = False, tch_eof_sent = False, tch_close_sent = False, tch_exit_status_sent = False,
     tch_state = SSH_SERVER_TERMINAL_STATE_INIT, tch_term_handle = 0\<rparr>"

section \<open>Server and options\<close>

definition ssh_server_config_defaults :: ssh_server_config where
  "ssh_server_config_defaults = \<lparr>cfg_software_name = Some EMSSH_SOFTWARE_NAME, cfg_max_packet_size = EMSSH_MAX_PACKET_SIZE,
     cfg_max_payload_size = EMSSH_MAX_PAYLOAD_SIZE, cfg_max_auth_tries = EMSSH_MAX_AUTH_TRIES,
     cfg_listen_address = None, cfg_password_auth = None,
     cfg_publickey_auth = None, cfg_publickey_signature_algorithms = None,
     cfg_permit_root_login = EMSSH_PERMIT_ROOT_LOGIN_PROHIBIT_PASSWORD, cfg_allow_users = None, cfg_authorized_keys_file = None\<rparr>"

text \<open>\<^verbatim>\<open>ssh_server_init\<close> for the platform in \<open>server\<close>; the second value is the server after the call.\<close>

definition ssh_server_init :: "('w, 'z) ssh_host_scheme \<Rightarrow> ssh_server_config option \<Rightarrow> (ssh_err + unit) \<times> ('w, 'z) ssh_host_scheme" where
  "ssh_server_init server config =
    (let cfg = (case config of Some c \<Rightarrow> c | None \<Rightarrow> ssh_server_config_defaults);
         server = server\<lparr>srv_config := cfg, host_initialized := False\<rparr>
     in if cfg_software_name cfg = None \<or> cfg_max_packet_size cfg = 0 \<or> cfg_max_payload_size cfg = 0 \<or>
           cfg_max_payload_size cfg > cfg_max_packet_size cfg
        then (Inl SSH_ERR_INVALID_ARGUMENT, server)
        else if cfg_permit_root_login cfg < EMSSH_PERMIT_ROOT_LOGIN_DEFAULT \<or>
           cfg_permit_root_login cfg > EMSSH_PERMIT_ROOT_LOGIN_PROHIBIT_PASSWORD
        then (Inl SSH_ERR_INVALID_ARGUMENT, server)
        else (Inr (), server\<lparr>host_initialized := True\<rparr>))"

text \<open>\<^verbatim>\<open>ssh_server_deinit\<close> zeroes the structure; the algorithms of the cryptographic back end do not belong to it.\<close>

definition ssh_server_deinit :: "'w ssh_session_host \<Rightarrow> 'w ssh_session_host" where
  "ssh_server_deinit server = server\<lparr>srv_crypto := None,
     srv_config := \<lparr>cfg_software_name = None, cfg_max_packet_size = 0, cfg_max_payload_size = 0, cfg_max_auth_tries = 0,
       cfg_listen_address = None,
       cfg_password_auth = None, cfg_publickey_auth = None, cfg_publickey_signature_algorithms = None,
       cfg_permit_root_login = 0, cfg_allow_users = None, cfg_authorized_keys_file = None\<rparr>,
     host_initialized := False, host_net := None, host_rng := None,
     host_kex := \<lparr>kex_generate_keypair = None, kex_compute_shared_secret = None, hostkey_public = None, hash_exchange = None,
       hostkey_sign = None, derive_key = None, kexinit_defaults = None\<rparr>,
     host_fs := None, host_term := None, host_log := None\<rparr>"

definition ssh_server_session_options_defaults :: "'w ssh_server_session_options" where
  "ssh_server_session_options_defaults = \<lparr>opt_algorithms = None, opt_timeout_ms = EMSSH_DEFAULT_SESSION_TIMEOUT_MS,
     opt_server_channel = 0, opt_channel_window_size = EMSSH_DEFAULT_CHANNEL_WINDOW_SIZE,
     opt_channel_max_packet_size = EMSSH_DEFAULT_CHANNEL_MAX_PACKET_SIZE, opt_max_sftp_packets = 0,
     opt_rekey_after_packets = 0, opt_rekey_after_bytes = 0, opt_sftp_policy = None,
     opt_non_sftp_channel_request_policy = None, opt_sftp_subsystem_name = Some SSH_SUBSYSTEM_SFTP,
     opt_sftp_trace_enabled = False\<rparr>"

definition effective_session_options :: "'w ssh_server_session_options option \<Rightarrow> 'w ssh_server_session_options" where
  "effective_session_options options = (case options of
     None \<Rightarrow> ssh_server_session_options_defaults
   | Some opts \<Rightarrow> ssh_server_session_options_defaults\<lparr>
       opt_algorithms := opt_algorithms opts,
       opt_timeout_ms := (if opt_timeout_ms opts \<noteq> 0 then opt_timeout_ms opts else EMSSH_DEFAULT_SESSION_TIMEOUT_MS),
       opt_server_channel := opt_server_channel opts,
       opt_channel_window_size := (if opt_channel_window_size opts \<noteq> 0 then opt_channel_window_size opts
         else EMSSH_DEFAULT_CHANNEL_WINDOW_SIZE),
       opt_channel_max_packet_size := (if opt_channel_max_packet_size opts \<noteq> 0 then opt_channel_max_packet_size opts
         else EMSSH_DEFAULT_CHANNEL_MAX_PACKET_SIZE),
       opt_max_sftp_packets := opt_max_sftp_packets opts,
       opt_rekey_after_packets := opt_rekey_after_packets opts,
       opt_rekey_after_bytes := opt_rekey_after_bytes opts,
       opt_sftp_policy := opt_sftp_policy opts,
       opt_non_sftp_channel_request_policy := opt_non_sftp_channel_request_policy opts,
       opt_sftp_subsystem_name := (case opt_sftp_subsystem_name opts of Some n \<Rightarrow> Some n | None \<Rightarrow> Some SSH_SUBSYSTEM_SFTP),
       opt_sftp_trace_enabled := opt_sftp_trace_enabled opts\<rparr>)"

text \<open>\<^verbatim>\<open>strlen\<close> ends at the first NUL.\<close>

definition cstring_of :: "u8 list \<Rightarrow> u8 list" where
  "cstring_of bs = takeWhile (\<lambda>c. c \<noteq> 0) bs"

definition update_server_diag_from_transport :: "ssh_transport_session \<Rightarrow> ssh_server_diag" where
  "update_server_diag_from_transport transport = \<lparr>
     diag_last_received_message_id = ts_last_received_message_id transport,
     diag_last_channel_request_type = map_option (\<lambda>type. take 63 (cstring_of type)) (ts_last_channel_request_type transport),
     diag_last_channel_request_want_reply =
       (ts_last_channel_request_type transport \<noteq> None \<and> ts_last_channel_request_want_reply transport)\<rparr>"

section \<open>Helpers\<close>

definition channel_request_is_subsystem_name :: "ssh_channel_request \<Rightarrow> u8 list \<Rightarrow> bool" where
  "channel_request_is_subsystem_name request subsystem_name \<longleftrightarrow>
     view_equals_cstr (cr_request_type request) SSH_CHANNEL_REQUEST_SUBSYSTEM \<and>
     view_equals_cstr (cr_subsystem_name request) subsystem_name"

definition channel_request_is_default_ignorable_non_sftp :: "ssh_channel_request \<Rightarrow> bool" where
  "channel_request_is_default_ignorable_non_sftp request \<longleftrightarrow>
     view_equals_cstr (cr_request_type request) (lit ''simple@putty.projects.tartarus.org'') \<or>
     view_equals_cstr (cr_request_type request) (lit ''winadj@putty.projects.tartarus.org'') \<or>
     view_equals_cstr (cr_request_type request) SSH_CHANNEL_REQUEST_X11_REQ \<or>
     view_equals_cstr (cr_request_type request) SSH_CHANNEL_REQUEST_PTY_REQ \<or>
     view_equals_cstr (cr_request_type request) SSH_CHANNEL_REQUEST_SHELL \<or>
     view_equals_cstr (cr_request_type request) SSH_CHANNEL_REQUEST_EXEC \<or>
     view_equals_cstr (cr_request_type request) SSH_CHANNEL_REQUEST_ENV \<or>
     view_equals_cstr (cr_request_type request) SSH_CHANNEL_REQUEST_WINDOW_CHANGE \<or>
     view_equals_cstr (cr_request_type request) SSH_CHANNEL_REQUEST_SIGNAL"

definition should_reply_failure_for_non_sftp_request :: "ssh_channel_request \<Rightarrow> bool" where
  "should_reply_failure_for_non_sftp_request request \<longleftrightarrow>
     (if \<not> cr_want_reply request then False
      else if channel_request_is_putty_extension request then False else True)"

definition non_sftp_channel_request_allowed_by_policy ::
    "'w ssh_server_session_options \<Rightarrow> ssh_channel_request \<Rightarrow> ('w tstate, unit) proc" where
  "non_sftp_channel_request_allowed_by_policy effective request =
    (let default = ensureP (channel_request_is_default_ignorable_non_sftp request) SSH_ERR_UNSUPPORTED in
     case opt_non_sftp_channel_request_policy effective of
       None \<Rightarrow> default
     | Some policy \<Rightarrow> tryP (callP (policy request)) (\<lambda>_. default) (\<lambda>_. retP ()))"

definition add_u32_saturating :: "u32 \<Rightarrow> u32 \<Rightarrow> u32" where
  "add_u32_saturating lhs rhs = (if - 1 - lhs < rhs then - 1 else lhs + rhs)"

definition read_u32_be_local :: "u8 list \<Rightarrow> u32" where
  "read_u32_be_local data =
     push_bit 24 (ucast (data ! 0)) OR push_bit 16 (ucast (data ! 1)) OR push_bit 8 (ucast (data ! 2)) OR ucast (data ! 3)"

definition min_u32_local :: "u32 \<Rightarrow> u32 \<Rightarrow> u32" where
  "min_u32_local lhs rhs = (if lhs < rhs then lhs else rhs)"

definition view_to_cstring :: "view \<Rightarrow> nat \<Rightarrow> ssh_err + u8 list" where
  "view_to_cstring v out_capacity =
    (if out_capacity = 0 then Inl SSH_ERR_INVALID_ARGUMENT
     else case v of None \<Rightarrow> Inr []
     | Some bs \<Rightarrow> if length bs + 1 > out_capacity then Inl SSH_ERR_BUFFER_TOO_SMALL else Inr bs)"

definition should_tolerate_pre_request_malformed :: "ssh_transport_session \<Rightarrow> ssh_err \<Rightarrow> bool" where
  "should_tolerate_pre_request_malformed transport e \<longleftrightarrow>
    (if e \<noteq> SSH_ERR_MALFORMED_PACKET then False
     else case ts_last_received_message_id transport of
       None \<Rightarrow> False
     | Some message_id \<Rightarrow> message_id = SSH_MSG_CHANNEL_DATA \<or> message_id = SSH_MSG_CHANNEL_EXTENDED_DATA)"

fun ssh_status_string :: "ssh_err option \<Rightarrow> string" where
  "ssh_status_string None = ''ok''"
| "ssh_status_string (Some SSH_ERR_INVALID_ARGUMENT) = ''invalid argument''"
| "ssh_status_string (Some SSH_ERR_BUFFER_TOO_SMALL) = ''buffer too small''"
| "ssh_status_string (Some SSH_ERR_BUFFER_OVERFLOW) = ''no space left''"
| "ssh_status_string (Some SSH_ERR_BUFFER_UNDERFLOW) = ''buffer underflow''"
| "ssh_status_string (Some SSH_ERR_MALFORMED_PACKET) = ''malformed packet''"
| "ssh_status_string (Some SSH_ERR_UNSUPPORTED) = ''unsupported''"
| "ssh_status_string (Some SSH_ERR_PLATFORM) = ''platform error''"
| "ssh_status_string (Some SSH_ERR_SECURITY) = ''security error''"
| "ssh_status_string (Some SSH_ERR_CLOSED) = ''closed''"
| "ssh_status_string (Some SSH_ERR_NOT_FOUND) = ''not found''"
| "ssh_status_string (Some SSH_ERR_ALREADY_EXISTS) = ''already exists''"
| "ssh_status_string (Some SSH_ERR_DIR_NOT_EMPTY) = ''directory not empty''"
| "ssh_status_string (Some SSH_ERR_READ_ONLY) = ''read only''"


section \<open>Procedures on a channel\<close>

text \<open>The state of a procedure on a channel: the channel, and below it the transport session and the world.\<close>

type_synonym ('c, 'w) cstate = "'c \<times> 'w tstate"
type_synonym 'w sftp_chan = "('w ssh_server_sftp_channel, 'w) cstate"
type_synonym 'w term_chan = "(ssh_server_terminal_channel, 'w) cstate"

definition chP :: "('c \<Rightarrow> ('c \<times> 's, 'a) proc) \<Rightarrow> ('c \<times> 's, 'a) proc" where
  "chP k = askP (\<lambda>s. k (fst s))"

definition chmodP :: "('c \<Rightarrow> 'c) \<Rightarrow> ('c \<times> 's, unit) proc" where
  "chmodP f = setP (\<lambda>s. (f (fst s), snd s))"

definition transportP :: "(ssh_transport_session \<Rightarrow> (('c, 'w) cstate, 'a) proc) \<Rightarrow> (('c, 'w) cstate, 'a) proc" where
  "transportP k = askP (\<lambda>s. k (fst (snd s)))"

text \<open>A call on the SFTP session of the channel and the world.\<close>

definition sftpP :: "('w sftp_state, 'a) act \<Rightarrow> ('w sftp_chan, 'a) proc" where
  "sftpP m s = (case m (sch_sftp (fst s), snd (snd s)) of
     (r, (sftp, w)) \<Rightarrow> Some (r, ((fst s)\<lparr>sch_sftp := sftp\<rparr>, (fst (snd s), w))))"

section \<open>The trace log\<close>

text \<open>A line under construction is its bytes; \<open>capacity\<close> counts the terminating NUL.\<close>

definition append_lit_local :: "nat \<Rightarrow> u8 list \<Rightarrow> u8 list \<Rightarrow> u8 list" where
  "append_lit_local capacity buf text =
    (if length buf \<ge> capacity then buf else buf @ take (capacity - 1 - length buf) text)"

text \<open>The digits of a number, lowest first, at most \<open>n\<close> of them.\<close>

fun decimal_tmp :: "nat \<Rightarrow> u32 \<Rightarrow> u8 list" where
  "decimal_tmp 0 value = []"
| "decimal_tmp (Suc n) value = (if value = 0 then [] else (48 + ucast (value mod 10)) # decimal_tmp n (value div 10))"

definition append_u32_local :: "nat \<Rightarrow> u8 list \<Rightarrow> u32 \<Rightarrow> u8 list" where
  "append_u32_local capacity buf value =
    (if length buf \<ge> capacity then buf
     else if value = 0 then (if length buf + 1 < capacity then buf @ [48] else buf)
     else buf @ take (capacity - 1 - length buf) (rev (decimal_tmp 16 value)))"

definition append_size_local :: "nat \<Rightarrow> u8 list \<Rightarrow> nat \<Rightarrow> u8 list" where
  "append_size_local capacity buf value =
    (if value > 4294967295 then append_lit_local capacity buf (lit ''4294967295+'')
     else append_u32_local capacity buf (of_nat value))"

definition append_i32_local :: "nat \<Rightarrow> u8 list \<Rightarrow> int \<Rightarrow> u8 list" where
  "append_i32_local capacity buf value =
    (if value < 0 then append_u32_local capacity (append_lit_local capacity buf (lit ''-'')) (of_int (- (value + 1) + 1))
     else append_u32_local capacity buf (of_int value))"

definition append_view_text_local :: "nat \<Rightarrow> u8 list \<Rightarrow> view \<Rightarrow> nat \<Rightarrow> u8 list" where
  "append_view_text_local capacity buf v max_chars =
    (if length buf \<ge> capacity then buf else case v of None \<Rightarrow> buf
     | Some bs \<Rightarrow>
        let limit = (if length bs > max_chars then max_chars else length bs);
            buf = buf @ take (capacity - 1 - length buf)
              (map (\<lambda>c. if c \<ge> 32 \<and> c \<le> 126 then c else 63) (take limit bs))
        in if length bs > limit then append_lit_local capacity buf (lit ''...'') else buf)"

definition sftp_type_name_local :: "u8 \<Rightarrow> string" where
  "sftp_type_name_local type =
    (if type = SSH_FXP_INIT then ''INIT'' else if type = SSH_FXP_VERSION then ''VERSION''
     else if type = SSH_FXP_OPEN then ''OPEN'' else if type = SSH_FXP_CLOSE then ''CLOSE''
     else if type = SSH_FXP_READ then ''READ'' else if type = SSH_FXP_WRITE then ''WRITE''
     else if type = SSH_FXP_LSTAT then ''LSTAT'' else if type = SSH_FXP_FSTAT then ''FSTAT''
     else if type = SSH_FXP_SETSTAT then ''SETSTAT'' else if type = SSH_FXP_FSETSTAT then ''FSETSTAT''
     else if type = SSH_FXP_OPENDIR then ''OPENDIR'' else if type = SSH_FXP_READDIR then ''READDIR''
     else if type = SSH_FXP_REMOVE then ''REMOVE'' else if type = SSH_FXP_MKDIR then ''MKDIR''
     else if type = SSH_FXP_RMDIR then ''RMDIR'' else if type = SSH_FXP_REALPATH then ''REALPATH''
     else if type = SSH_FXP_STAT then ''STAT'' else if type = SSH_FXP_RENAME then ''RENAME''
     else if type = SSH_FXP_STATUS then ''STATUS'' else if type = SSH_FXP_HANDLE then ''HANDLE''
     else if type = SSH_FXP_DATA then ''DATA'' else if type = SSH_FXP_NAME then ''NAME''
     else if type = SSH_FXP_ATTRS then ''ATTRS'' else if type = SSH_FXP_EXTENDED then ''EXTENDED''
     else if type = SSH_FXP_EXTENDED_REPLY then ''EXTENDED_REPLY'' else ''UNKNOWN'')"

fun ssh_status_code :: "ssh_err \<Rightarrow> int" where
  "ssh_status_code SSH_ERR_INVALID_ARGUMENT = -1"
| "ssh_status_code SSH_ERR_BUFFER_TOO_SMALL = -2"
| "ssh_status_code SSH_ERR_BUFFER_OVERFLOW = -3"
| "ssh_status_code SSH_ERR_BUFFER_UNDERFLOW = -4"
| "ssh_status_code SSH_ERR_MALFORMED_PACKET = -5"
| "ssh_status_code SSH_ERR_UNSUPPORTED = -6"
| "ssh_status_code SSH_ERR_PLATFORM = -7"
| "ssh_status_code SSH_ERR_SECURITY = -8"
| "ssh_status_code SSH_ERR_CLOSED = -9"
| "ssh_status_code SSH_ERR_NOT_FOUND = -10"
| "ssh_status_code SSH_ERR_ALREADY_EXISTS = -11"
| "ssh_status_code SSH_ERR_DIR_NOT_EMPTY = -12"
| "ssh_status_code SSH_ERR_READ_ONLY = -13"

definition sftp_trace_log_line :: "('w, 'z) ssh_session_host_scheme \<Rightarrow> bool \<Rightarrow> u8 list \<Rightarrow> ('w tstate, unit) proc" where
  "sftp_trace_log_line server trace_enabled line =
    (if \<not> trace_enabled then retP ()
     else case host_log server of None \<Rightarrow> retP ()
     | Some log \<Rightarrow> setP (\<lambda>s. (fst s, log line (snd s))))"

text \<open>The line of \<^verbatim>\<open>sftp_trace_log_request_paths\<close>: the paths of the request, or why there are none.\<close>

definition request_paths :: "u8 \<Rightarrow> u8 list \<Rightarrow> ssh_err + (string \<times> view \<times> nat) list" where
  "request_paths request_type packet =
    (let path = map_sum id (\<lambda>req. [('' path='', pr_path req, 160)]) in
     if request_type = SSH_FXP_REALPATH then path (sftp_realpath_request_decode packet)
     else if request_type = SSH_FXP_STAT then path (sftp_stat_request_decode packet)
     else if request_type = SSH_FXP_LSTAT then path (sftp_lstat_request_decode packet)
     else if request_type = SSH_FXP_OPENDIR then path (sftp_opendir_request_decode packet)
     else if request_type = SSH_FXP_REMOVE then path (sftp_remove_request_decode packet)
     else if request_type = SSH_FXP_RMDIR then path (sftp_rmdir_request_decode packet)
     else if request_type = SSH_FXP_OPEN
     then map_sum id (\<lambda>req. [('' path='', or_filename req, 160)]) (sftp_open_request_decode packet)
     else if request_type = SSH_FXP_MKDIR
     then map_sum id (\<lambda>req. [('' path='', mk_path req, 160)]) (sftp_mkdir_request_decode packet)
     else if request_type = SSH_FXP_SETSTAT
     then map_sum id (\<lambda>req. [('' path='', ss_path req, 160)]) (fst (sftp_setstat_request_decode packet))
     else if request_type = SSH_FXP_RENAME
     then map_sum id (\<lambda>req. [('' old='', rn_old_path req, 120), ('' new='', rn_new_path req, 120)]) (sftp_rename_request_decode packet)
     else Inl SSH_ERR_UNSUPPORTED)"

definition request_paths_line :: "u8 \<Rightarrow> u8 list \<Rightarrow> u8 list" where
  "request_paths_line request_type packet =
    (let line = append_lit_local 320 (append_lit_local 320 [] (lit ''sftp-trace: req-path type=''))
           (lit (sftp_type_name_local request_type))
     in case request_paths request_type packet of
       Inl e \<Rightarrow> append_i32_local 320 (append_lit_local 320 line (lit '' decode-status='')) (ssh_status_code e)
     | Inr paths \<Rightarrow> foldl (\<lambda>line (label, path, limit).
         append_view_text_local 320 (append_lit_local 320 line (lit label)) path limit) line paths)"

definition sftp_trace_log_request_paths ::
    "('w, 'z) ssh_session_host_scheme \<Rightarrow> bool \<Rightarrow> u8 \<Rightarrow> u8 list \<Rightarrow> ('w tstate, unit) proc" where
  "sftp_trace_log_request_paths server trace_enabled request_type packet =
    (if \<not> trace_enabled \<or> length packet < 5 then retP ()
     else sftp_trace_log_line server trace_enabled (request_paths_line request_type packet))"

text \<open>The lines that \<^verbatim>\<open>ssh_server_process_sftp_channel_data\<close> writes.\<close>

definition receive_status_line :: "ssh_err \<Rightarrow> u8 list" where
  "receive_status_line e =
     append_i32_local 128 (append_lit_local 128 [] (lit ''sftp-trace: channel receive status='')) (ssh_status_code e)"

definition channel_message_line :: "u8 \<Rightarrow> nat \<Rightarrow> nat \<Rightarrow> u8 list" where
  "channel_message_line message_id data_len rx_len =
    (let line = append_lit_local 192 [] (lit ''sftp-trace: channel msg='');
         line = append_u32_local 192 line (ucast message_id);
         line = append_lit_local 192 line (lit '' data_len='');
         line = append_size_local 192 line data_len;
         line = append_lit_local 192 line (lit '' rx_buf='')
     in append_size_local 192 line rx_len)"

definition malformed_length_line :: "u32 \<Rightarrow> nat \<Rightarrow> u8 list" where
  "malformed_length_line sftp_packet_length rx_len =
    (let line = append_lit_local 192 [] (lit ''sftp-trace: malformed sftp length='');
         line = append_u32_local 192 line sftp_packet_length;
         line = append_lit_local 192 line (lit '' rx_buf='')
     in append_size_local 192 line rx_len)"

definition append_id :: "nat \<Rightarrow> u8 list \<Rightarrow> u32 option \<Rightarrow> u8 list" where
  "append_id capacity line request_id = (case request_id of None \<Rightarrow> line
     | Some n \<Rightarrow> append_u32_local capacity (append_lit_local capacity line (lit '' id='')) n)"

definition append_type :: "u8 list \<Rightarrow> u8 \<Rightarrow> u8 list" where
  "append_type line type =
    (let line = append_lit_local 224 line (lit (sftp_type_name_local type));
         line = append_lit_local 224 line (lit ''('')
     in append_u32_local 224 line (ucast type))"

definition request_line :: "u8 \<Rightarrow> u32 \<Rightarrow> nat \<Rightarrow> u32 option \<Rightarrow> u8 list" where
  "request_line request_type sftp_packet_length wire_len request_id =
    (let line = append_type (append_lit_local 224 [] (lit ''sftp-trace: in type='')) request_type;
         line = append_lit_local 224 line (lit '') len='');
         line = append_u32_local 224 line sftp_packet_length;
         line = append_lit_local 224 line (lit '' wire='');
         line = append_size_local 224 line wire_len
     in append_id 224 line request_id)"

definition handle_error_line :: "ssh_err \<Rightarrow> u8 \<Rightarrow> u32 option \<Rightarrow> u8 list" where
  "handle_error_line e request_type request_id =
    (let line = append_lit_local 192 [] (lit ''sftp-trace: handle error status='');
         line = append_i32_local 192 line (ssh_status_code e);
         line = append_lit_local 192 line (lit '' type='');
         line = append_lit_local 192 line (lit (sftp_type_name_local request_type))
     in append_id 192 line request_id)"

definition response_line :: "u8 list \<Rightarrow> u8 list" where
  "response_line response =
    (let response_type = (if length response \<ge> 5 then response ! 4 else 0);
         response_id = (if length response \<ge> 9 \<and> response_type \<noteq> SSH_FXP_VERSION \<and> response_type \<noteq> SSH_FXP_INIT
           then Some (read_u32_be_local (drop 5 response)) else None);
         response_status_code = (if response_type = SSH_FXP_STATUS \<and> length response \<ge> 13
           then Some (read_u32_be_local (drop 9 response)) else None);
         line = append_type (append_lit_local 224 [] (lit ''sftp-trace: out type='')) response_type;
         line = append_lit_local 224 line (lit '') wire='');
         line = append_size_local 224 line (length response);
         line = append_id 224 line response_id
     in case response_status_code of None \<Rightarrow> line
        | Some n \<Rightarrow> append_u32_local 224 (append_lit_local 224 line (lit '' status='')) n)"

section \<open>Windows\<close>

definition maybe_replenish_receive_window ::
    "('w, 'z) ssh_session_host_scheme \<Rightarrow> u32 \<Rightarrow> ('w sftp_chan, unit) proc" where
  "maybe_replenish_receive_window server timeout_ms = chP (\<lambda>channel.
     if sch_window_max_size channel = 0 then failP SSH_ERR_INVALID_ARGUMENT
     else if sch_window_size channel > sch_window_max_size channel div 2 then retP ()
     else let bytes_to_add = sch_window_max_size channel - sch_window_size channel in
     if bytes_to_add = 0 then retP ()
     else thenP (onP (ssh_transport_send_channel_window_adjust server (sch_client_channel channel) bytes_to_add timeout_ms))
       (chmodP (\<lambda>channel. channel\<lparr>sch_window_size := sch_window_size channel + bytes_to_add\<rparr>)))"

definition maybe_replenish_terminal_receive_window ::
    "('w, 'z) ssh_session_host_scheme \<Rightarrow> u32 \<Rightarrow> ('w term_chan, unit) proc" where
  "maybe_replenish_terminal_receive_window server timeout_ms = chP (\<lambda>channel.
     if tch_window_max_size channel = 0 then failP SSH_ERR_INVALID_ARGUMENT
     else if tch_window_size channel > tch_window_max_size channel div 2 then retP ()
     else let bytes_to_add = tch_window_max_size channel - tch_window_size channel in
     if bytes_to_add = 0 then retP ()
     else thenP (onP (ssh_transport_send_channel_window_adjust server (tch_client_channel channel) bytes_to_add timeout_ms))
       (chmodP (\<lambda>channel. channel\<lparr>tch_window_size := tch_window_size channel + bytes_to_add\<rparr>)))"

text \<open>The number of pending bytes that the window and the packet size of the peer admit.\<close>

definition flush_len :: "'w ssh_server_sftp_channel \<Rightarrow> nat" where
  "flush_len channel =
    (let send_len = length (sch_tx_pending channel);
         send_len = (if send_len > unat (sch_peer_window_size channel) then unat (sch_peer_window_size channel) else send_len)
     in if sch_peer_max_packet_size channel \<noteq> 0 \<and> send_len > unat (sch_peer_max_packet_size channel)
        then unat (sch_peer_max_packet_size channel) else send_len)"

definition maybe_flush_pending_sftp_response ::
    "('w, 'z) ssh_session_host_scheme \<Rightarrow> u32 \<Rightarrow> ('w sftp_chan, unit) proc" where
  "maybe_flush_pending_sftp_response server timeout_ms =
     thenP (loopP (\<lambda>_. chP (\<lambda>channel.
       if sch_tx_pending channel = [] \<or> sch_peer_window_size channel = 0 then retP (Inr ())
       else let send_len = flush_len channel in
       if send_len = 0 then retP (Inr ())
       else thenP (onP (ssh_transport_send_channel_data server (sch_client_channel channel)
           (take send_len (sch_tx_pending channel)) timeout_ms))
         (thenP (chmodP (\<lambda>channel. channel\<lparr>
           sch_peer_window_size := sch_peer_window_size channel - of_nat send_len,
           sch_tx_pending := drop send_len (sch_tx_pending channel)\<rparr>))
         (retP (Inl ()))))) ())
     (chP (\<lambda>channel. ensureP (sch_tx_pending channel = []) SSH_ERR_NOT_FOUND))"


section \<open>Set-up and authentication\<close>

text \<open>The handshake on a new session, up to the keys in both directions.\<close>

definition transport_handshake :: "('w, 'z) ssh_host_scheme \<Rightarrow> u64 \<Rightarrow> u64 \<Rightarrow> u32 \<Rightarrow> ('w tstate, unit) proc" where
  "transport_handshake server rekey_after_packets rekey_after_bytes timeout_ms =
     thenP (ssh_transport_set_rekey_limits rekey_after_packets rekey_after_bytes)
     (thenP (ssh_transport_send_identification server timeout_ms)
     (thenP (ssh_transport_receive_identification server timeout_ms)
     (thenP (ssh_transport_send_kexinit server timeout_ms)
     (thenP (ssh_transport_receive_kexinit server timeout_ms)
     (thenP (ssh_transport_receive_kex_ecdh_init server timeout_ms)
     (thenP (ssh_transport_send_kex_ecdh_reply server timeout_ms)
     (thenP (ssh_transport_send_newkeys server timeout_ms)
     (thenP (ssh_transport_send_ext_info server timeout_ms)
     (ssh_transport_receive_newkeys server timeout_ms)))))))))"

definition ssh_server_run_transport_setup ::
    "('w, 'z) ssh_session_host_scheme \<Rightarrow> 'w ssh_server_session_options option \<Rightarrow> ('w tstate, unit) proc" where
  "ssh_server_run_transport_setup server options =
     thenP (ensureP (host_initialized server) SSH_ERR_INVALID_ARGUMENT)
     (let effective = effective_session_options options in
      bindP (valueP (ssh_transport_session_init server (opt_algorithms effective))) (\<lambda>transport.
      thenP (modP (\<lambda>_. transport))
      (transport_handshake server (opt_rekey_after_packets effective) (opt_rekey_after_bytes effective) (opt_timeout_ms effective))))"

text \<open>One turn of the loop of \<^verbatim>\<open>ssh_server_run_userauth\<close>. An offered key that is acceptable does not count as a try.\<close>

definition userauth_try :: "('w, 'z) ssh_session_host_scheme \<Rightarrow> u32 \<Rightarrow> nat \<Rightarrow> ('w tstate, nat + unit) proc" where
  "userauth_try server timeout_ms tries =
    (if tries < cfg_max_auth_tries (srv_config server) then
       bindP (ssh_transport_receive_userauth_request server timeout_ms) (\<lambda>request. tsP (\<lambda>transport.
       bindP (valueP (ssh_userauth_evaluate_request (host_backend_algorithms server) (ssh_server.truncate server) request
         (Some (ts_session_id transport)))) (\<lambda>decision.
       if decision = SSH_USERAUTH_DECISION_SUCCESS then
         bindP (valueP (view_to_cstring (ua_username request) EMSSH_MAX_USERAUTH_PAYLOAD)) (\<lambda>name.
         thenP (modP (ts_authenticated_username_update (\<lambda>_. name)))
         (thenP (ssh_transport_send_userauth_success server timeout_ms) (retP (Inr ()))))
       else if decision = SSH_USERAUTH_DECISION_PK_OK then
         thenP (ssh_transport_send_userauth_pk_ok server (ua_publickey_algorithm request) (ua_publickey_blob request) timeout_ms)
         (retP (Inl tries))
       else
         bindP (valueP (ssh_userauth_failure_methods (ssh_server.truncate server) EMSSH_MAX_USERAUTH_FAILURE_METHODS)) (\<lambda>methods.
         thenP (ssh_transport_send_userauth_failure server methods False timeout_ms)
         (retP (Inl (tries + 1)))))))
     else failP SSH_ERR_SECURITY)"

definition ssh_server_run_userauth ::
    "('w, 'z) ssh_session_host_scheme \<Rightarrow> 'w ssh_server_session_options option \<Rightarrow> ('w tstate, unit) proc" where
  "ssh_server_run_userauth server options =
     thenP (modP (ts_authenticated_username_update (\<lambda>_. [])))
     (let timeout_ms = opt_timeout_ms (effective_session_options options) in
      bindP (ssh_transport_receive_service_request server timeout_ms) (\<lambda>service_request.
      thenP (ensureP (view_equals_cstr (srq_service_name service_request) SSH_SERVICE_USERAUTH) SSH_ERR_UNSUPPORTED)
      (thenP (ssh_transport_send_service_accept server SSH_SERVICE_USERAUTH timeout_ms)
      (loopP (userauth_try server timeout_ms) 0))))"

section \<open>Accepting a channel\<close>

text \<open>The parts that the request loops share: the next request, a status that is neither success nor
  \<^verbatim>\<open>SSH_ERR_UNSUPPORTED\<close>, and the answer to a request that is not for the channel.\<close>

definition next_channel_request :: "('w, 'z) ssh_session_host_scheme \<Rightarrow> u32 \<Rightarrow> ssh_channel_request option \<Rightarrow> ssh_channel_request
    \<Rightarrow> (('c, 'w) cstate, ssh_err option \<times> ssh_channel_request) proc" where
  "next_channel_request server timeout_ms first_request request = (case first_request of
     Some first \<Rightarrow> retP (None, first)
   | None \<Rightarrow> onP (ssh_transport_receive_channel_request server timeout_ms request))"

definition tolerate_or_fail :: "ssh_err \<Rightarrow> 'x \<Rightarrow> (('c, 'w) cstate, 'x + 'a) proc" where
  "tolerate_or_fail e x = transportP (\<lambda>transport.
     if should_tolerate_pre_request_malformed transport e then retP (Inl x) else failP e)"

definition refuse_channel_request :: "('w, 'z) ssh_session_host_scheme \<Rightarrow> 'w ssh_server_session_options \<Rightarrow> u32 \<Rightarrow> ssh_channel_request
    \<Rightarrow> (('c, 'w) cstate, 'a) proc \<Rightarrow> (('c, 'w) cstate, 'a) proc" where
  "refuse_channel_request server effective client_channel request k =
    (let policy = dropP (onP (non_sftp_channel_request_allowed_by_policy effective request)) k in
     if should_reply_failure_for_non_sftp_request request
     then dropP (onP (ssh_transport_send_channel_failure server client_channel (opt_timeout_ms effective))) policy
     else policy)"

definition effective_subsystem_name :: "'w ssh_server_session_options \<Rightarrow> u8 list" where
  "effective_subsystem_name effective = (case opt_sftp_subsystem_name effective of Some n \<Rightarrow> n | None \<Rightarrow> SSH_SUBSYSTEM_SFTP)"

definition sftp_accept_request :: "('w, 'z) ssh_session_host_scheme \<Rightarrow> 'w ssh_server_session_options \<Rightarrow> ssh_channel_open
    \<Rightarrow> ssh_channel_request option \<times> ssh_channel_request
    \<Rightarrow> ('w sftp_chan, (ssh_channel_request option \<times> ssh_channel_request) + ssh_channel_request) proc" where
  "sftp_accept_request server effective open = (\<lambda>(first_request, request).
     bindP (next_channel_request server (opt_timeout_ms effective) first_request request) (\<lambda>(status, request).
     if status \<noteq> None \<and> status \<noteq> Some SSH_ERR_UNSUPPORTED then tolerate_or_fail (the status) (None, request)
     else if status = None \<and> cr_recipient_channel request \<noteq> opt_server_channel effective then failP SSH_ERR_SECURITY
     else if status = None \<and> channel_request_is_subsystem_name request (effective_subsystem_name effective)
     then retP (Inr request)
     else refuse_channel_request server effective (co_sender_channel open) request (retP (Inl (None, request)))))"

definition sftp_accept_after_open :: "('w, 'z) ssh_session_host_scheme \<Rightarrow> 'w ssh_server_session_options option \<Rightarrow> ssh_channel_open
    \<Rightarrow> ssh_channel_request option \<Rightarrow> ('w sftp_chan, unit) proc" where
  "sftp_accept_after_open server options open first_request =
    (case host_fs server of None \<Rightarrow> failP SSH_ERR_PLATFORM
     | Some fs \<Rightarrow>
       let effective = effective_session_options options in
       bindP (forP 8 (\<lambda>_. failP SSH_ERR_UNSUPPORTED) (sftp_accept_request server effective open)
         (first_request, empty_channel_request)) (\<lambda>request.
       thenP (whenP (cr_want_reply request)
         (onP (ssh_transport_send_channel_success server (co_sender_channel open) (opt_timeout_ms effective))))
       (chmodP (\<lambda>channel. channel\<lparr>
         sch_sftp := (let sftp = sftp_server_session_init (Some fs) in
           if opt_sftp_policy effective \<noteq> None then sftp_server_session_set_policy sftp (opt_sftp_policy effective) else sftp),
         sch_client_channel := co_sender_channel open,
         sch_server_channel := opt_server_channel effective,
         sch_window_size := opt_channel_window_size effective,
         sch_window_max_size := opt_channel_window_size effective,
         sch_max_packet_size := opt_channel_max_packet_size effective,
         sch_peer_window_size := co_initial_window_size open,
         sch_peer_max_packet_size := co_maximum_packet_size open,
         sch_initialized := True\<rparr>))))"

text \<open>The answers of the terminal channel to a request; \<open>Inl\<close> goes on with the next one.\<close>

definition reply_success :: "('w, 'z) ssh_session_host_scheme \<Rightarrow> u32 \<Rightarrow> ssh_channel_request \<Rightarrow> 'a \<Rightarrow> ('w term_chan, 'a) proc" where
  "reply_success server timeout_ms request x = chP (\<lambda>channel.
     thenP (whenP (cr_want_reply request)
       (onP (ssh_transport_send_channel_success server (tch_client_channel channel) timeout_ms)))
     (retP x))"

definition reply_failure :: "('w, 'z) ssh_session_host_scheme \<Rightarrow> u32 \<Rightarrow> ssh_channel_request \<Rightarrow> 'a \<Rightarrow> ('w term_chan, 'a) proc" where
  "reply_failure server timeout_ms request x = chP (\<lambda>channel.
     if cr_want_reply request
     then dropP (onP (ssh_transport_send_channel_failure server (tch_client_channel channel) timeout_ms)) (retP x)
     else retP x)"

definition set_dimensions :: "ssh_channel_request \<Rightarrow> ssh_server_terminal_channel \<Rightarrow> ssh_server_terminal_channel" where
  "set_dimensions request channel = channel\<lparr>tch_cols := cr_cols request, tch_rows := cr_rows request,
     tch_width_px := cr_width_px request, tch_height_px := cr_height_px request\<rparr>"

text \<open>The callbacks that need a running terminal: nothing happens when there is none.\<close>

definition resize_terminal :: "'w ssh_term_api option \<Rightarrow> ('w term_chan, unit) proc" where
  "resize_terminal term = chP (\<lambda>channel.
     case (if tch_running channel \<and> tch_term_handle channel \<noteq> 0 then Option.bind term term_resize else None) of
       None \<Rightarrow> retP ()
     | Some resize \<Rightarrow> onP (callP (resize (tch_term_handle channel) (tch_cols channel) (tch_rows channel)
         (tch_width_px channel) (tch_height_px channel))))"

text \<open>The handler of \<^verbatim>\<open>signal\<close>: a name that does not fit ends with \<open>too_long\<close>, a failing callback with \<open>failed\<close>.\<close>

definition signal_terminal :: "'w ssh_term_api option \<Rightarrow> ssh_channel_request \<Rightarrow> (ssh_err \<Rightarrow> ('w term_chan, 'a) proc)
    \<Rightarrow> (ssh_err \<Rightarrow> ('w term_chan, 'a) proc) \<Rightarrow> ('w term_chan, 'a) proc \<Rightarrow> ('w term_chan, 'a) proc" where
  "signal_terminal term request too_long failed done = chP (\<lambda>channel.
     case (if tch_running channel \<and> tch_term_handle channel \<noteq> 0 then Option.bind term term_signal else None) of
       None \<Rightarrow> done
     | Some signal \<Rightarrow> tryP (valueP (view_to_cstring (cr_signal_name request) 64)) too_long (\<lambda>signal_name.
         tryP (onP (callP (signal (tch_term_handle channel) (cstring_of signal_name)))) failed (\<lambda>_. done)))"

text \<open>The call of \<^verbatim>\<open>spawn_shell\<close> or \<^verbatim>\<open>spawn_exec\<close>. A missing callback and a command that does not fit are answered like a
  failing call. A failing call leaves the handle as it was.\<close>

definition spawn_terminal :: "'w ssh_term_api \<Rightarrow> ssh_channel_request \<Rightarrow> ('w term_chan, nat) proc" where
  "spawn_terminal term request = chP (\<lambda>channel. transportP (\<lambda>transport.
     let username = (if length (ts_authenticated_username transport) \<noteq> 0
           then Some (cstring_of (ts_authenticated_username transport)) else None);
         term_type = (if tch_pty_requested channel then Some (cstring_of (tch_term_type channel)) else None)
     in if view_equals_cstr (cr_request_type request) SSH_CHANNEL_REQUEST_SHELL then
       (case term_spawn_shell term of None \<Rightarrow> failP SSH_ERR_UNSUPPORTED
        | Some spawn \<Rightarrow> onP (callP (spawn username term_type (tch_cols channel) (tch_rows channel)
            (tch_width_px channel) (tch_height_px channel))))
     else
       (case term_spawn_exec term of None \<Rightarrow> failP SSH_ERR_UNSUPPORTED
        | Some spawn \<Rightarrow> bindP (valueP (view_to_cstring (cr_command request) 256)) (\<lambda>command.
            onP (callP (spawn username (cstring_of command) term_type (tch_cols channel) (tch_rows channel)
              (tch_width_px channel) (tch_height_px channel)))))))"

text \<open>A decoded request for the channel, in the loop of \<^verbatim>\<open>terminal_accept_after_open\<close>.\<close>

definition terminal_request :: "('w, 'z) ssh_session_host_scheme \<Rightarrow> 'w ssh_term_api \<Rightarrow> 'w ssh_server_session_options
    \<Rightarrow> ssh_channel_request \<Rightarrow> ('w term_chan, (ssh_channel_request option \<times> ssh_channel_request) + unit) proc" where
  "terminal_request server term effective request =
    (let timeout_ms = opt_timeout_ms effective; continue = Inl (None, request) in
     if view_equals_cstr (cr_request_type request) SSH_CHANNEL_REQUEST_PTY_REQ then
       bindP (valueP (view_to_cstring (cr_term_type request) 64)) (\<lambda>term_type.
       thenP (chmodP (\<lambda>channel. (set_dimensions request (channel\<lparr>tch_term_type := term_type\<rparr>))\<lparr>
         tch_pty_requested := True, tch_state := SSH_SERVER_TERMINAL_STATE_PTY_CONFIGURED\<rparr>))
       (reply_success server timeout_ms request continue))
     else if view_equals_cstr (cr_request_type request) SSH_CHANNEL_REQUEST_ENV
     then reply_success server timeout_ms request continue
     else if view_equals_cstr (cr_request_type request) SSH_CHANNEL_REQUEST_WINDOW_CHANGE then
       thenP (chmodP (set_dimensions request))
       (tryP (resize_terminal (Some term))
         (\<lambda>_. reply_failure server timeout_ms request continue) (\<lambda>_. reply_success server timeout_ms request continue))
     else if view_equals_cstr (cr_request_type request) SSH_CHANNEL_REQUEST_SIGNAL then
       signal_terminal (Some term) request failP
         (\<lambda>_. reply_failure server timeout_ms request continue) (reply_success server timeout_ms request continue)
     else if view_equals_cstr (cr_request_type request) SSH_CHANNEL_REQUEST_SHELL \<or>
         view_equals_cstr (cr_request_type request) SSH_CHANNEL_REQUEST_EXEC then
       chP (\<lambda>channel.
         if tch_running channel then reply_failure server timeout_ms request continue
         else tryP (spawn_terminal term request)
           (\<lambda>_. reply_failure server timeout_ms request continue)
           (\<lambda>handle.
             thenP (chmodP (\<lambda>channel. channel\<lparr>tch_term_handle := handle, tch_running := True,
               tch_state := SSH_SERVER_TERMINAL_STATE_RUNNING\<rparr>))
             (reply_success server timeout_ms request (Inr ()))))
     else chP (\<lambda>channel. refuse_channel_request server effective (tch_client_channel channel) request (retP continue)))"

definition terminal_accept_request :: "('w, 'z) ssh_session_host_scheme \<Rightarrow> 'w ssh_term_api \<Rightarrow> 'w ssh_server_session_options
    \<Rightarrow> ssh_channel_request option \<times> ssh_channel_request
    \<Rightarrow> ('w term_chan, (ssh_channel_request option \<times> ssh_channel_request) + unit) proc" where
  "terminal_accept_request server term effective = (\<lambda>(first_request, request).
     bindP (next_channel_request server (opt_timeout_ms effective) first_request request) (\<lambda>(status, request). chP (\<lambda>channel.
     if status \<noteq> None \<and> status \<noteq> Some SSH_ERR_UNSUPPORTED then tolerate_or_fail (the status) (None, request)
     else if status = None \<and> cr_recipient_channel request \<noteq> tch_server_channel channel then failP SSH_ERR_SECURITY
     else if status = Some SSH_ERR_UNSUPPORTED
     then refuse_channel_request server effective (tch_client_channel channel) request (retP (Inl (None, request)))
     else terminal_request server term effective request)))"

definition terminal_accept_after_open :: "('w, 'z) ssh_session_host_scheme \<Rightarrow> 'w ssh_server_session_options option
    \<Rightarrow> ssh_channel_open \<Rightarrow> ssh_channel_request option \<Rightarrow> ('w term_chan, unit) proc" where
  "terminal_accept_after_open server options open first_request =
    (case host_term server of None \<Rightarrow> failP SSH_ERR_UNSUPPORTED
     | Some term \<Rightarrow>
       if term_spawn_shell term = None \<and> term_spawn_exec term = None then failP SSH_ERR_UNSUPPORTED
       else let effective = effective_session_options options in
       thenP (chmodP (\<lambda>channel. channel\<lparr>
         tch_client_channel := co_sender_channel open,
         tch_server_channel := opt_server_channel effective,
         tch_window_size := opt_channel_window_size effective,
         tch_window_max_size := opt_channel_window_size effective,
         tch_max_packet_size := opt_channel_max_packet_size effective,
         tch_peer_window_size := co_initial_window_size open,
         tch_peer_max_packet_size := co_maximum_packet_size open,
         tch_initialized := True,
         tch_state := SSH_SERVER_TERMINAL_STATE_SESSION_OPEN\<rparr>))
       (forP 16 (\<lambda>_. failP SSH_ERR_UNSUPPORTED) (terminal_accept_request server term effective)
         (first_request, empty_channel_request)))"

text \<open>The channel open that the accepting functions start with.\<close>

definition accept_session_channel :: "('w, 'z) ssh_session_host_scheme \<Rightarrow> 'w ssh_server_session_options
    \<Rightarrow> ('w tstate, ssh_channel_open) proc" where
  "accept_session_channel server effective =
     bindP (ssh_transport_receive_channel_open_skip_global_requests server (opt_timeout_ms effective)) (\<lambda>open.
     if \<not> ssh_channel_type_is_session (co_channel_type open) then
       dropP (ssh_transport_send_channel_open_failure server (co_sender_channel open) SSH_OPEN_UNKNOWN_CHANNEL_TYPE
         ''unsupported channel type'' (opt_timeout_ms effective))
       (failP SSH_ERR_UNSUPPORTED)
     else
       thenP (ssh_transport_send_channel_open_confirmation server (co_sender_channel open) (opt_server_channel effective)
         (opt_channel_window_size effective) (opt_channel_max_packet_size effective) (opt_timeout_ms effective))
       (retP open))"

definition ssh_server_accept_sftp_channel ::
    "('w, 'z) ssh_session_host_scheme \<Rightarrow> 'w ssh_server_session_options option \<Rightarrow> ('w sftp_chan, unit) proc" where
  "ssh_server_accept_sftp_channel server options =
    (if host_fs server = None then failP SSH_ERR_PLATFORM
     else let effective = effective_session_options options in
     thenP (chmodP (\<lambda>_. empty_sftp_channel))
     (bindP (onP (accept_session_channel server effective)) (\<lambda>open.
     sftp_accept_after_open server (Some effective) open None)))"

definition ssh_server_accept_terminal_channel ::
    "('w, 'z) ssh_session_host_scheme \<Rightarrow> 'w ssh_server_session_options option \<Rightarrow> ('w term_chan, unit) proc" where
  "ssh_server_accept_terminal_channel server options =
    (let effective = effective_session_options options in
     thenP (chmodP (\<lambda>_. empty_terminal_channel))
     (bindP (onP (accept_session_channel server effective)) (\<lambda>open.
     terminal_accept_after_open server (Some effective) open None)))"

text \<open>With both channels in the state: a procedure on one of them.\<close>

type_synonym 'w auto_chan = "('w ssh_server_sftp_channel \<times> ssh_server_terminal_channel, 'w) cstate"

definition on_sftpP :: "('w sftp_chan, 'a) proc \<Rightarrow> ('w auto_chan, 'a) proc" where
  "on_sftpP m s = (case m (fst (fst s), snd s) of None \<Rightarrow> None
     | Some (r, t) \<Rightarrow> Some (r, ((fst t, snd (fst s)), snd t)))"

definition on_termP :: "('w term_chan, 'a) proc \<Rightarrow> ('w auto_chan, 'a) proc" where
  "on_termP m s = (case m (snd (fst s), snd s) of None \<Rightarrow> None
     | Some (r, t) \<Rightarrow> Some (r, ((fst (fst s), fst t), snd t)))"

text \<open>The loop that \<^verbatim>\<open>ssh_server_accept_auto_channel\<close> and \<^verbatim>\<open>ssh_server_run_auto_session\<close> both contain: \<open>on_sftp\<close> and
  \<open>on_terminal\<close> are what they do with the first request for a channel of that kind.\<close>

definition auto_request :: "('w, 'z) ssh_session_host_scheme \<Rightarrow> 'w ssh_server_session_options \<Rightarrow> ssh_channel_open
    \<Rightarrow> (ssh_channel_request \<Rightarrow> ('w auto_chan, 'a) proc) \<Rightarrow> (ssh_channel_request \<Rightarrow> ('w auto_chan, 'a) proc)
    \<Rightarrow> ssh_channel_request \<Rightarrow> ('w auto_chan, ssh_channel_request + 'a) proc" where
  "auto_request server effective open on_sftp on_terminal request =
     bindP (next_channel_request server (opt_timeout_ms effective) None request) (\<lambda>(status, request).
     if status \<noteq> None \<and> status \<noteq> Some SSH_ERR_UNSUPPORTED then tolerate_or_fail (the status) request
     else if status = None \<and> cr_recipient_channel request \<noteq> opt_server_channel effective then failP SSH_ERR_SECURITY
     else if status = None \<and> channel_request_is_subsystem_name request (effective_subsystem_name effective)
     then bindP (on_sftp request) (\<lambda>x. retP (Inr x))
     else if status = None \<and> ssh_channel_request_is_terminal request
     then bindP (on_terminal request) (\<lambda>x. retP (Inr x))
     else refuse_channel_request server effective (co_sender_channel open) request (retP (Inl request)))"

definition ssh_server_accept_auto_channel :: "('w, 'z) ssh_session_host_scheme \<Rightarrow> 'w ssh_server_session_options option
    \<Rightarrow> (ssh_server_channel_kind \<Rightarrow> ('w tstate, unit) proc) option \<Rightarrow> ('w auto_chan, ssh_server_channel_kind) proc" where
  "ssh_server_accept_auto_channel server options before_accept =
    (let effective = effective_session_options options;
         hook = (\<lambda>kind. case before_accept of None \<Rightarrow> retP () | Some f \<Rightarrow> onP (f kind)) in
     thenP (chmodP (\<lambda>_. (empty_sftp_channel, empty_terminal_channel)))
     (bindP (onP (accept_session_channel server effective)) (\<lambda>open.
     forP 16 (\<lambda>_. failP SSH_ERR_UNSUPPORTED) (auto_request server effective open
       (\<lambda>request. thenP (hook SSH_SERVER_CHANNEL_KIND_SFTP)
         (thenP (on_sftpP (sftp_accept_after_open server (Some effective) open (Some request)))
         (retP SSH_SERVER_CHANNEL_KIND_SFTP)))
       (\<lambda>request. thenP (hook SSH_SERVER_CHANNEL_KIND_TERMINAL)
         (thenP (on_termP (terminal_accept_after_open server (Some effective) open (Some request)))
         (retP SSH_SERVER_CHANNEL_KIND_TERMINAL)))) empty_channel_request)))"


section \<open>The SFTP channel\<close>

text \<open>A message for the channel; the value says whether the function goes on to the buffered requests or returns
  \<^verbatim>\<open>SSH_OK\<close>.\<close>

definition close_sftp_channel :: "('w, 'z) ssh_session_host_scheme \<Rightarrow> u32 \<Rightarrow> ('w sftp_chan, unit) proc" where
  "close_sftp_channel server timeout_ms = chP (\<lambda>channel.
     whenP (\<not> sch_close_sent channel)
       (thenP (onP (ssh_transport_send_channel_close server (sch_client_channel channel) timeout_ms))
       (chmodP (\<lambda>channel. channel\<lparr>sch_close_sent := True\<rparr>))))"

definition process_sftp_message :: "('w, 'z) ssh_session_host_scheme \<Rightarrow> 'w ssh_server_session_options \<Rightarrow> ssh_channel_message
    \<Rightarrow> u8 list \<Rightarrow> ('w sftp_chan, bool) proc" where
  "process_sftp_message server effective message channel_data =
    (let timeout_ms = opt_timeout_ms effective in chP (\<lambda>channel.
     if cm_recipient_channel message \<noteq> sch_server_channel channel then failP SSH_ERR_SECURITY
     else if cm_message_id message = SSH_MSG_CHANNEL_WINDOW_ADJUST then
       thenP (chmodP (\<lambda>channel. channel\<lparr>
         sch_peer_window_size := add_u32_saturating (sch_peer_window_size channel) (cm_window_bytes message)\<rparr>))
       (retP (sch_rx channel \<noteq> []))
     else if cm_message_id message = SSH_MSG_CHANNEL_REQUEST then
       let request = cm_channel_request message in
       thenP (whenP (should_reply_failure_for_non_sftp_request request)
         (onP (ssh_transport_send_channel_failure server (sch_client_channel channel) timeout_ms)))
       (dropP (onP (non_sftp_channel_request_allowed_by_policy effective request)) (retP False))
     else if cm_message_id message = SSH_MSG_CHANNEL_EOF then
       thenP (whenP (\<not> sch_eof_sent channel)
         (thenP (onP (ssh_transport_send_channel_eof server (sch_client_channel channel) timeout_ms))
         (chmodP (\<lambda>channel. channel\<lparr>sch_eof_sent := True\<rparr>))))
       (thenP (close_sftp_channel server timeout_ms) (retP False))
     else if cm_message_id message = SSH_MSG_CHANNEL_CLOSE then
       thenP (close_sftp_channel server timeout_ms) (failP SSH_ERR_CLOSED)
     else if cm_message_id message = SSH_MSG_CHANNEL_DATA then
       thenP (ensureP (\<not> length channel_data > unat (sch_window_size channel)) SSH_ERR_SECURITY)
       (thenP (chmodP (\<lambda>channel. channel\<lparr>sch_window_size := sch_window_size channel - of_nat (length channel_data)\<rparr>))
       (thenP (maybe_replenish_receive_window server timeout_ms)
       (thenP (ensureP (\<not> length channel_data > EMSSH_SFTP_MAX_PACKET_SIZE - length (sch_rx channel)) SSH_ERR_BUFFER_TOO_SMALL)
       (thenP (chmodP (\<lambda>channel. channel\<lparr>sch_rx := sch_rx channel @ channel_data\<rparr>))
       (retP True)))))
     else failP SSH_ERR_UNSUPPORTED))"

text \<open>\<^verbatim>\<open>while (sent_len < response_len)\<close>, on the bytes from \<^verbatim>\<open>sent_len\<close> on.\<close>

definition send_response_chunks :: "('w, 'z) ssh_session_host_scheme \<Rightarrow> u32 \<Rightarrow> u8 list \<Rightarrow> ('w sftp_chan, unit) proc" where
  "send_response_chunks server timeout_ms =
     loopP (\<lambda>rest. if rest = [] then retP (Inr ()) else chP (\<lambda>channel.
       let chunk_len = (if sch_peer_max_packet_size channel \<noteq> 0 \<and> length rest > unat (sch_peer_max_packet_size channel)
             then unat (sch_peer_max_packet_size channel) else length rest) in
       thenP (ensureP (chunk_len \<noteq> 0) SSH_ERR_BUFFER_TOO_SMALL)
       (thenP (onP (ssh_transport_send_channel_data server (sch_client_channel channel) (take chunk_len rest) timeout_ms))
       (retP (Inl (drop chunk_len rest))))))"

text \<open>The answer is sent at once when the window admits all of it; otherwise it becomes the pending response, and the function
  returns.\<close>

definition send_sftp_response :: "('w, 'z) ssh_session_host_scheme \<Rightarrow> u32 \<Rightarrow> u8 list \<Rightarrow> ('w sftp_chan, unit + unit) proc" where
  "send_sftp_response server timeout_ms response = chP (\<lambda>channel.
     if length response > unat (sch_peer_window_size channel) then
       thenP (ensureP (\<not> length response > EMSSH_SFTP_MAX_PACKET_SIZE) SSH_ERR_BUFFER_TOO_SMALL)
       (thenP (chmodP (\<lambda>channel. channel\<lparr>sch_tx_pending := response\<rparr>))
       (thenP (maybe_flush_pending_sftp_response server timeout_ms) (retP (Inr ()))))
     else
       thenP (send_response_chunks server timeout_ms response)
       (thenP (chmodP (\<lambda>channel. channel\<lparr>
         sch_peer_window_size := sch_peer_window_size channel - of_nat (length response)\<rparr>))
       (retP (Inl ()))))"

text \<open>A complete packet at the head of \<^verbatim>\<open>sftp_rx\<close>: it is handled, removed and answered.\<close>

definition serve_sftp_packet :: "('w, 'z) ssh_session_host_scheme \<Rightarrow> 'w ssh_server_session_options \<Rightarrow> u32
    \<Rightarrow> ('w sftp_chan, unit + unit) proc" where
  "serve_sftp_packet server effective sftp_packet_length =
    (let wire_len = unat sftp_packet_length + 4; timeout_ms = opt_timeout_ms effective;
         trace_line = (\<lambda>line. onP (sftp_trace_log_line server (opt_sftp_trace_enabled effective) line)) in
     chP (\<lambda>channel.
     let packet = take wire_len (sch_rx channel);
         request_type = sch_rx channel ! 4;
         request_id = (if sftp_packet_length \<ge> 5 \<and> request_type \<noteq> SSH_FXP_INIT \<and> request_type \<noteq> SSH_FXP_VERSION
           then Some (read_u32_be_local (drop 5 (sch_rx channel))) else None) in
     thenP (trace_line (request_line request_type sftp_packet_length wire_len request_id))
     (thenP (onP (sftp_trace_log_request_paths server (opt_sftp_trace_enabled effective) request_type packet))
     (tryP (sftpP (sftp_server_handle_packet packet EMSSH_MAX_PACKET_SIZE))
       (\<lambda>e. thenP (trace_line (handle_error_line e request_type request_id)) (failP e))
       (\<lambda>response.
        thenP (trace_line (response_line response))
        (thenP (chmodP (\<lambda>channel. channel\<lparr>sch_rx := drop wire_len (sch_rx channel)\<rparr>))
        (send_sftp_response server timeout_ms response)))))))"

text \<open>\<^verbatim>\<open>while (channel->sftp_rx_len >= 4u)\<close>\<close>

definition serve_sftp_packets :: "('w, 'z) ssh_session_host_scheme \<Rightarrow> 'w ssh_server_session_options \<Rightarrow> ('w sftp_chan, unit) proc" where
  "serve_sftp_packets server effective = loopP (\<lambda>_. chP (\<lambda>channel.
     if \<not> length (sch_rx channel) \<ge> 4 then retP (Inr ())
     else let sftp_packet_length = read_u32_be_local (sch_rx channel) in
     if sftp_packet_length = 0 \<or> unat sftp_packet_length > EMSSH_SFTP_MAX_PACKET_SIZE - 4 then
       thenP (onP (sftp_trace_log_line server (opt_sftp_trace_enabled effective)
         (malformed_length_line sftp_packet_length (length (sch_rx channel)))))
       (failP SSH_ERR_MALFORMED_PACKET)
     else if length (sch_rx channel) < unat sftp_packet_length + 4 then retP (Inr ())
     else serve_sftp_packet server effective sftp_packet_length)) ()"

definition ssh_server_process_sftp_channel_data ::
    "('w, 'z) ssh_session_host_scheme \<Rightarrow> 'w ssh_server_session_options option \<Rightarrow> ('w sftp_chan, unit) proc" where
  "ssh_server_process_sftp_channel_data server options = chP (\<lambda>channel.
     thenP (ensureP (sch_initialized channel) SSH_ERR_INVALID_ARGUMENT)
     (let effective = effective_session_options options;
          trace_line = (\<lambda>line. onP (sftp_trace_log_line server (opt_sftp_trace_enabled effective) line)) in
      bindP (tryP (onP (ssh_transport_receive_channel_message server EMSSH_MAX_PACKET_SIZE (opt_timeout_ms effective)))
        (\<lambda>e. if e = SSH_ERR_NOT_FOUND then
               (if sch_rx channel \<noteq> [] then retP True
                else if sch_close_sent channel then failP SSH_ERR_CLOSED else failP e)
             else thenP (trace_line (receive_status_line e)) (failP e))
        (\<lambda>(message, channel_data).
           thenP (trace_line (channel_message_line (cm_message_id message) (length channel_data) (length (sch_rx channel))))
           (process_sftp_message server effective message channel_data))) (\<lambda>go_on.
      whenP go_on
        (thenP (maybe_flush_pending_sftp_response server (opt_timeout_ms effective))
        (serve_sftp_packets server effective)))))"

definition ssh_server_sftp_channel_deinit :: "('w sftp_chan, unit) proc" where
  "ssh_server_sftp_channel_deinit = chP (\<lambda>channel.
     whenP (sch_initialized channel)
       (thenP (sftpP sftp_server_session_deinit) (chmodP (\<lambda>_. empty_sftp_channel))))"

section \<open>The terminal channel\<close>

definition maybe_send_terminal_exit_and_close ::
    "('w, 'z) ssh_session_host_scheme \<Rightarrow> 'w ssh_server_session_options \<Rightarrow> ('w term_chan, bool) proc" where
  "maybe_send_terminal_exit_and_close server effective =
    (let timeout_ms = opt_timeout_ms effective in chP (\<lambda>channel.
     if \<not> tch_running channel \<or> tch_term_handle channel = 0 then retP False
     else case Option.bind (host_term server) term_wait_exit of None \<Rightarrow> retP False
     | Some wait_exit \<Rightarrow>
       bindP (onP (callP (wait_exit (tch_term_handle channel)))) (\<lambda>(exited, exit_status).
       if \<not> exited then retP False
       else
         thenP (whenP (\<not> tch_exit_status_sent channel)
           (thenP (onP (ssh_transport_send_channel_exit_status server (tch_client_channel channel) exit_status timeout_ms))
           (chmodP (\<lambda>channel. channel\<lparr>tch_exit_status_sent := True\<rparr>))))
         (thenP (whenP (\<not> tch_eof_sent channel)
           (thenP (onP (ssh_transport_send_channel_eof server (tch_client_channel channel) timeout_ms))
           (chmodP (\<lambda>channel. channel\<lparr>tch_eof_sent := True\<rparr>))))
         (thenP (whenP (\<not> tch_close_sent channel)
           (thenP (onP (ssh_transport_send_channel_close server (tch_client_channel channel) timeout_ms))
           (chmodP (\<lambda>channel. channel\<lparr>tch_close_sent := True\<rparr>))))
         (thenP (chmodP (\<lambda>channel. channel\<lparr>tch_state := SSH_SERVER_TERMINAL_STATE_CLOSED, tch_running := False\<rparr>))
         (retP True)))))))"

text \<open>\<^verbatim>\<open>term->read\<close> may return fewer bytes than asked for; the size of \<^verbatim>\<open>outbuf\<close> is 2048.\<close>

definition maybe_pump_terminal_output ::
    "('w, 'z) ssh_session_host_scheme \<Rightarrow> 'w ssh_server_session_options \<Rightarrow> ('w term_chan, unit) proc" where
  "maybe_pump_terminal_output server effective = chP (\<lambda>channel.
     if \<not> tch_running channel \<or> tch_term_handle channel = 0 then retP ()
     else case Option.bind (host_term server) term_read of None \<Rightarrow> retP ()
     | Some read \<Rightarrow> loopP (\<lambda>_. chP (\<lambda>channel.
         if tch_peer_window_size channel = 0 then retP (Inr ())
         else let max_send = tch_peer_window_size channel;
                  max_send = (if tch_peer_max_packet_size channel \<noteq> 0
                    then min_u32_local max_send (tch_peer_max_packet_size channel) else max_send);
                  max_send = min_u32_local max_send 2048 in
         if max_send = 0 then retP (Inr ())
         else tryP (onP (callP (read (tch_term_handle channel) (unat max_send))))
           (\<lambda>e. if e = SSH_ERR_NOT_FOUND \<or> e = SSH_ERR_UNSUPPORTED then retP (Inr ()) else failP e)
           (\<lambda>outbuf. if length outbuf = 0 then retP (Inr ())
             else thenP (onP (ssh_transport_send_channel_data server (tch_client_channel channel) outbuf (opt_timeout_ms effective)))
               (thenP (ensureP (\<not> length outbuf > unat (tch_peer_window_size channel)) SSH_ERR_SECURITY)
               (thenP (chmodP (\<lambda>channel. channel\<lparr>
                 tch_peer_window_size := tch_peer_window_size channel - of_nat (length outbuf)\<rparr>))
               (retP (Inl ()))))))) ())"

text \<open>The pair of calls that most branches below share, and what follows when the channel stays open.\<close>

definition pump_and_close :: "('w, 'z) ssh_session_host_scheme \<Rightarrow> 'w ssh_server_session_options \<Rightarrow> ('w term_chan, unit) proc
    \<Rightarrow> ('w term_chan, unit) proc" where
  "pump_and_close server effective k =
     thenP (maybe_pump_terminal_output server effective)
     (bindP (maybe_send_terminal_exit_and_close server effective) (\<lambda>closed_now.
     if closed_now then failP SSH_ERR_CLOSED else k))"

definition process_terminal_request :: "('w, 'z) ssh_session_host_scheme \<Rightarrow> 'w ssh_server_session_options \<Rightarrow> ssh_channel_request
    \<Rightarrow> ('w term_chan, unit) proc" where
  "process_terminal_request server effective request =
    (let timeout_ms = opt_timeout_ms effective;
         answer = (\<lambda>ok. chP (\<lambda>channel.
           thenP (whenP (cr_want_reply request)
             (if ok then onP (ssh_transport_send_channel_success server (tch_client_channel channel) timeout_ms)
              else onP (ssh_transport_send_channel_failure server (tch_client_channel channel) timeout_ms)))
           (if ok then pump_and_close server effective (retP ()) else retP ()))) in
     if view_equals_cstr (cr_request_type request) SSH_CHANNEL_REQUEST_WINDOW_CHANGE then
       thenP (chmodP (set_dimensions request))
       (tryP (resize_terminal (host_term server)) (\<lambda>_. answer False) (\<lambda>_. answer True))
     else if view_equals_cstr (cr_request_type request) SSH_CHANNEL_REQUEST_SIGNAL then
       signal_terminal (host_term server) request (\<lambda>_. answer False) (\<lambda>_. answer False) (answer True)
     else if view_equals_cstr (cr_request_type request) SSH_CHANNEL_REQUEST_ENV then answer True
     else answer False)"

definition process_terminal_input :: "('w, 'z) ssh_session_host_scheme \<Rightarrow> 'w ssh_server_session_options \<Rightarrow> u8 list
    \<Rightarrow> ('w term_chan, unit) proc" where
  "process_terminal_input server effective channel_data = chP (\<lambda>channel.
     thenP (ensureP (\<not> length channel_data > unat (tch_window_size channel)) SSH_ERR_SECURITY)
     (thenP (chmodP (\<lambda>channel. channel\<lparr>tch_window_size := tch_window_size channel - of_nat (length channel_data)\<rparr>))
     (thenP (maybe_replenish_terminal_receive_window server (opt_timeout_ms effective))
     (case (if \<not> tch_running channel \<or> tch_term_handle channel = 0 then None else Option.bind (host_term server) term_write) of
        None \<Rightarrow> failP SSH_ERR_UNSUPPORTED
      | Some send \<Rightarrow>
        bindP (onP (callP (send (tch_term_handle channel) channel_data))) (\<lambda>written_len.
        thenP (ensureP (\<not> written_len > length channel_data) SSH_ERR_PLATFORM)
        (pump_and_close server effective (retP ())))))))"

definition process_terminal_message :: "('w, 'z) ssh_session_host_scheme \<Rightarrow> 'w ssh_server_session_options \<Rightarrow> ssh_channel_message
    \<Rightarrow> u8 list \<Rightarrow> ('w term_chan, unit) proc" where
  "process_terminal_message server effective message channel_data = chP (\<lambda>channel.
     if cm_recipient_channel message \<noteq> tch_server_channel channel then failP SSH_ERR_SECURITY
     else if cm_message_id message = SSH_MSG_CHANNEL_WINDOW_ADJUST then
       thenP (chmodP (\<lambda>channel. channel\<lparr>
         tch_peer_window_size := add_u32_saturating (tch_peer_window_size channel) (cm_window_bytes message)\<rparr>))
       (pump_and_close server effective (retP ()))
     else if cm_message_id message = SSH_MSG_CHANNEL_REQUEST
     then process_terminal_request server effective (cm_channel_request message)
     else if cm_message_id message = SSH_MSG_CHANNEL_EOF then pump_and_close server effective (retP ())
     else if cm_message_id message = SSH_MSG_CHANNEL_CLOSE then
       thenP (whenP (\<not> tch_close_sent channel)
         (thenP (onP (ssh_transport_send_channel_close server (tch_client_channel channel) (opt_timeout_ms effective)))
         (chmodP (\<lambda>channel. channel\<lparr>tch_close_sent := True\<rparr>))))
       (thenP (chmodP (\<lambda>channel. channel\<lparr>tch_state := SSH_SERVER_TERMINAL_STATE_CLOSED\<rparr>)) (failP SSH_ERR_CLOSED))
     else if cm_message_id message \<noteq> SSH_MSG_CHANNEL_DATA then failP SSH_ERR_UNSUPPORTED
     else process_terminal_input server effective channel_data)"

definition ssh_server_process_terminal_channel_data ::
    "('w, 'z) ssh_session_host_scheme \<Rightarrow> 'w ssh_server_session_options option \<Rightarrow> ('w term_chan, unit) proc" where
  "ssh_server_process_terminal_channel_data server options = chP (\<lambda>channel.
     thenP (ensureP (tch_initialized channel) SSH_ERR_INVALID_ARGUMENT)
     (let effective = effective_session_options options;
          receive_timeout_ms = (if opt_timeout_ms effective = 0 \<or> opt_timeout_ms effective > EMSSH_TERMINAL_RECV_POLL_MS
            then EMSSH_TERMINAL_RECV_POLL_MS else opt_timeout_ms effective) in
      pump_and_close server effective
      (tryP (onP (ssh_transport_receive_channel_message server EMSSH_MAX_PACKET_SIZE receive_timeout_ms))
        (\<lambda>e. if e = SSH_ERR_NOT_FOUND then pump_and_close server effective (failP SSH_ERR_NOT_FOUND) else failP e)
        (\<lambda>(message, channel_data). process_terminal_message server effective message channel_data))))"

definition ssh_server_terminal_channel_deinit :: "('w, 'z) ssh_session_host_scheme \<Rightarrow> ('w term_chan, unit) proc" where
  "ssh_server_terminal_channel_deinit server = chP (\<lambda>channel.
     whenP (tch_initialized channel)
       (case (if tch_term_handle channel \<noteq> 0 then Option.bind (host_term server) term_close else None) of
          None \<Rightarrow> chmodP (\<lambda>_. empty_terminal_channel)
        | Some close \<Rightarrow> dropP (onP (callP (close (tch_term_handle channel)))) (chmodP (\<lambda>_. empty_terminal_channel))))"

section \<open>Whole sessions\<close>

text \<open>\<open>localsP\<close> gives a session its channel, zeroed, and its transport session, whose bytes are not initialised.\<close>

definition localsP :: "'c \<Rightarrow> ssh_transport_session \<Rightarrow> ('d \<times> ('c, 'w) cstate, 'a) proc \<Rightarrow> ('d \<times> 'w, 'a) proc" where
  "localsP c transport m s = (case m (fst s, (c, (transport, snd s))) of None \<Rightarrow> None
     | Some (r, t) \<Rightarrow> Some (r, (fst t, snd (snd (snd t)))))"

definition diagP :: "(ssh_server_diag \<times> ('c, 'w) cstate, unit) proc" where
  "diagP = setP (\<lambda>s. (update_server_diag_from_transport (fst (snd (snd s))), snd s))"

definition statusP :: "ssh_err option \<Rightarrow> ('s, unit) proc" where
  "statusP status = (case status of None \<Rightarrow> retP () | Some e \<Rightarrow> failP e)"

text \<open>The loop over the messages of a channel, and the end of a session: the three functions below contain it.\<close>

definition channel_turn :: "u32 \<Rightarrow> ('s, unit) proc \<Rightarrow> u32 \<Rightarrow> ('s, u32 + ssh_err option \<times> u32) proc" where
  "channel_turn max_packets process processed =
    (if max_packets = 0 \<or> processed < max_packets then
       tryP process
         (\<lambda>e. if e = SSH_ERR_CLOSED then retP (Inr (None, processed))
              else if e = SSH_ERR_NOT_FOUND then retP (Inl processed)
              else retP (Inr (Some e, processed)))
         (\<lambda>_. retP (Inl (processed + 1)))
     else retP (Inr (None, processed)))"

definition serve_channel :: "u32 \<Rightarrow> (('c, 'w) cstate, unit) proc \<Rightarrow> (('c, 'w) cstate, unit) proc
    \<Rightarrow> (ssh_server_diag \<times> ('c, 'w) cstate, unit) proc" where
  "serve_channel max_packets process deinit =
     bindP (onP (loopP (channel_turn max_packets process) 0)) (\<lambda>(status, processed).
     thenP (onP deinit)
     (thenP diagP
     (if max_packets \<noteq> 0 \<and> processed = max_packets then retP () else statusP status)))"

definition ssh_server_run_sftp_session :: "('w, 'z) ssh_session_host_scheme \<Rightarrow> 'w ssh_server_session_options option
    \<Rightarrow> ssh_transport_session \<Rightarrow> (ssh_server_diag \<times> 'w, unit) proc" where
  "ssh_server_run_sftp_session server options uninitialized =
     thenP (ensureP (host_initialized server) SSH_ERR_INVALID_ARGUMENT)
     (let effective = effective_session_options options in
      localsP empty_sftp_channel uninitialized
        (tryP (onP (thenP (onP (ssh_server_run_transport_setup server (Some effective)))
            (thenP (onP (ssh_server_run_userauth server (Some effective)))
            (ssh_server_accept_sftp_channel server (Some effective)))))
          (\<lambda>e. thenP diagP (thenP (onP ssh_server_sftp_channel_deinit) (failP e)))
          (\<lambda>_. serve_channel (opt_max_sftp_packets effective)
             (ssh_server_process_sftp_channel_data server (Some effective)) ssh_server_sftp_channel_deinit)))"

definition ssh_server_run_terminal_session :: "('w, 'z) ssh_session_host_scheme \<Rightarrow> 'w ssh_server_session_options option
    \<Rightarrow> ssh_transport_session \<Rightarrow> (ssh_server_diag \<times> 'w, unit) proc" where
  "ssh_server_run_terminal_session server options uninitialized =
     thenP (ensureP (host_initialized server) SSH_ERR_INVALID_ARGUMENT)
     (let effective = effective_session_options options in
      localsP empty_terminal_channel uninitialized
        (tryP (onP (thenP (onP (ssh_server_run_transport_setup server (Some effective)))
            (thenP (onP (ssh_server_run_userauth server (Some effective)))
            (ssh_server_accept_terminal_channel server (Some effective)))))
          (\<lambda>e. thenP diagP (thenP (onP (ssh_server_terminal_channel_deinit server)) (failP e)))
          (\<lambda>_. serve_channel (opt_max_sftp_packets effective)
             (ssh_server_process_terminal_channel_data server (Some effective)) (ssh_server_terminal_channel_deinit server))))"

text \<open>The session with either channel. The channel is chosen by the first request for one; the error of an accepting
  function is the status of the session after the channel is released.\<close>

definition choose_channel :: "('w, 'z) ssh_session_host_scheme \<Rightarrow> 'w ssh_server_session_options \<Rightarrow> ssh_channel_open
    \<Rightarrow> ('w auto_chan, ssh_server_channel_kind) proc" where
  "choose_channel server effective open =
     forP 16 (\<lambda>_. failP SSH_ERR_UNSUPPORTED) (auto_request server effective open
       (\<lambda>request. tryP (on_sftpP (sftp_accept_after_open server (Some effective) open (Some request)))
         (\<lambda>e. thenP (on_sftpP ssh_server_sftp_channel_deinit) (failP e)) (\<lambda>_. retP SSH_SERVER_CHANNEL_KIND_SFTP))
       (\<lambda>request. tryP (on_termP (terminal_accept_after_open server (Some effective) open (Some request)))
         (\<lambda>e. thenP (on_termP (ssh_server_terminal_channel_deinit server)) (failP e)) (\<lambda>_. retP SSH_SERVER_CHANNEL_KIND_TERMINAL)))
       empty_channel_request"

definition ssh_server_run_auto_session :: "('w, 'z) ssh_session_host_scheme \<Rightarrow> 'w ssh_server_session_options option
    \<Rightarrow> ssh_transport_session \<Rightarrow> (ssh_server_diag \<times> 'w, unit) proc" where
  "ssh_server_run_auto_session server options uninitialized =
     thenP (ensureP (host_initialized server) SSH_ERR_INVALID_ARGUMENT)
     (let effective = effective_session_options options in
      localsP (empty_sftp_channel, empty_terminal_channel) uninitialized
        (tryP (onP (thenP (onP (ssh_server_run_transport_setup server (Some effective)))
            (thenP (onP (ssh_server_run_userauth server (Some effective)))
            (bindP (onP (accept_session_channel server effective)) (choose_channel server effective)))))
          (\<lambda>e. thenP diagP (failP e))
          (\<lambda>kind. if kind = SSH_SERVER_CHANNEL_KIND_SFTP
             then serve_channel (opt_max_sftp_packets effective)
               (on_sftpP (ssh_server_process_sftp_channel_data server (Some effective))) (on_sftpP ssh_server_sftp_channel_deinit)
             else serve_channel (opt_max_sftp_packets effective)
               (on_termP (ssh_server_process_terminal_channel_data server (Some effective)))
               (on_termP (ssh_server_terminal_channel_deinit server)))))"

end
