(* ===== verification/Ssh_Session_Laws.thy ===== *)
theory Ssh_Session_Laws
  imports Sftp_World Ssh_Transport_Laws Ssh_Session_Server
begin

text \<open>
  What the procedures of \<^verbatim>\<open>src/core/ssh_server.c\<close> promise. The locale \<open>session_services\<close> extends the contract of the transport
  by the file system, the terminal, the policies and the log; inside it every procedure on a channel keeps the invariant, and
  the loops over buffered data end. It is interpreted for a predicate on worlds that only a verified user can break, and for a
  bound on the input that is left, from which it follows that a whole session returns.
\<close>

section \<open>Rules for channels\<close>

lemma wp_chP [wpP_intros]: "wp N (k (fst s)) E Q s \<Longrightarrow> wp N (chP k) E Q s"
  unfolding chP_def by (rule wp_askP)

lemma wp_chmodP [wpP_intros]: "Q () (f (fst s), snd s) \<Longrightarrow> wp N (chmodP f) E Q s"
  unfolding chmodP_def by (rule wp_setP)

lemma wp_transportP [wpP_intros]: "wp N (k (fst (snd s))) E Q s \<Longrightarrow> wp N (transportP k) E Q s"
  unfolding transportP_def by (rule wp_askP)

lemma keeps_chP [keeps_intros]: "(\<And>c t. I (c, t) \<Longrightarrow> keeps N I (k c) P) \<Longrightarrow> keeps N I (chP k) P"
  unfolding chP_def by (rule keeps_askP) (metis prod.collapse)

lemma keeps_chmodP: "P () \<Longrightarrow> (\<And>c t. I (c, t) \<Longrightarrow> I (f c, t)) \<Longrightarrow> keeps N I (chmodP f) P"
  unfolding chmodP_def by (rule keeps_setP) auto

lemma keeps_transportP [keeps_intros]: "(\<And>c ts w. I (c, ts, w) \<Longrightarrow> keeps N I (k ts) P) \<Longrightarrow> keeps N I (transportP k) P"
  unfolding transportP_def by (rule keeps_askP) (metis prod.collapse)

lemma keeps_and: "keeps N I m P \<Longrightarrow> keeps N (\<lambda>s. I s \<and> b) m P"
  by (cases b) (simp_all add: keeps_def)

lemma keeps_when: "keeps N I m P \<Longrightarrow> keeps N (\<lambda>s. b \<and> I s) m P"
  by (cases b) (simp_all add: keeps_def)

text \<open>A loop that makes a measure smaller: it ends, so the rule serves both readings of \<open>keeps\<close>.\<close>

lemma keeps_loopP_measure:
  fixes m :: "'x \<Rightarrow> 's \<Rightarrow> nat"
  assumes body: "\<And>x s. I s \<Longrightarrow> wp N (body x) (\<lambda>_. I) (\<lambda>r t. case r of Inl y \<Rightarrow> I t \<and> m y t < m x s | Inr a \<Rightarrow> I t \<and> P a) s"
  shows "keeps N I (loopP body x) P"
proof (rule keepsI)
  fix s assume s: "I s"
  show "wp N (loopP body x) (\<lambda>_. I) (\<lambda>x t. I t \<and> P x) s"
  proof (cases N)
    case True
    have "wp True (loopP body x) (\<lambda>_. I) (\<lambda>x t. I t \<and> P x) s"
      by (rule wp_loopP [where I = "\<lambda>_. I"], rule wpP_mono [OF body]) (use s in \<open>auto split: sum.splits\<close>)
    with True show ?thesis by simp
  next
    case False
    have "wp False (loopP body x) (\<lambda>_. I) (\<lambda>x t. I t \<and> P x) s"
      by (rule wp_loopP_total [where \<mu> = m and I = "\<lambda>_. I"], rule wpP_mono [OF body]) (use s False in \<open>auto split: sum.splits\<close>)
    with False show ?thesis by simp
  qed
qed

lemma effective_idem [simp]:
  "effective_session_options (Some (effective_session_options options)) = effective_session_options options"
  by (cases options)
    (simp_all add: effective_session_options_def ssh_server_session_options_defaults_def EMSSH_DEFAULT_SESSION_TIMEOUT_MS_def
      EMSSH_DEFAULT_CHANNEL_WINDOW_SIZE_def EMSSH_DEFAULT_CHANNEL_MAX_PACKET_SIZE_def split: option.splits)

section \<open>The contract\<close>

definition spawn_user :: "ssh_transport_session \<Rightarrow> cstr" where
  "spawn_user ts = (if length (ts_authenticated_username ts) \<noteq> 0 then Some (cstring_of (ts_authenticated_username ts)) else None)"

definition term_keeps :: "('w \<Rightarrow> bool) \<Rightarrow> cstr \<Rightarrow> 'w ssh_term_api \<Rightarrow> bool" where
  "term_keeps W user term \<longleftrightarrow>
     (\<forall>f type c r x y. term_spawn_shell term = Some f \<longrightarrow> call_keeps W (f user type c r x y)) \<and>
     (\<forall>f command type c r x y. term_spawn_exec term = Some f \<longrightarrow> call_keeps W (f user command type c r x y)) \<and>
     (\<forall>f h bs. term_write term = Some f \<longrightarrow> call_keeps W (f h bs)) \<and>
     (\<forall>f h n. term_read term = Some f \<longrightarrow> call_keeps W (f h n)) \<and>
     (\<forall>f h c r x y. term_resize term = Some f \<longrightarrow> call_keeps W (f h c r x y)) \<and>
     (\<forall>f h name. term_signal term = Some f \<longrightarrow> call_keeps W (f h name)) \<and>
     (\<forall>f h. term_wait_exit term = Some f \<longrightarrow> call_keeps W (f h)) \<and>
     (\<forall>f h. term_close term = Some f \<longrightarrow> call_keeps W (f h))"

locale session_services = session_contract N server I
  for N :: bool and server :: "('w, 'z) ssh_session_host_scheme" and I :: "'w tstate \<Rightarrow> bool" +
  fixes effective :: "'w ssh_server_session_options"
  assumes files: "host_fs server = Some fs \<Longrightarrow> fs_keeps (\<lambda>w. I (ts, w)) fs"
    and file_policy: "policy_keeps (\<lambda>w. I (ts, w)) (opt_sftp_policy effective)"
    and request_policy: "opt_non_sftp_channel_request_policy effective = Some f \<Longrightarrow> call_keeps (\<lambda>w. I (ts, w)) (f request)"
    and terminal: "host_term server = Some term \<Longrightarrow> term_keeps (\<lambda>w. I (ts, w)) (spawn_user ts) term"
    and logging: "host_log server = Some log \<Longrightarrow> I (ts, w) \<Longrightarrow> I (ts, log line w)"

text \<open>The invariant on a state with an SFTP channel: its session has the file system and the policy of the server once it is
  initialised (\<open>ready\<close> says that it is), and \<open>R\<close> holds of the buffered input.\<close>

definition sftp_serving :: "('w tstate \<Rightarrow> bool) \<Rightarrow> ('w, 'z) ssh_session_host_scheme \<Rightarrow> 'w ssh_server_session_options \<Rightarrow> bool
    \<Rightarrow> (u8 list \<Rightarrow> bool) \<Rightarrow> 'w sftp_chan \<Rightarrow> bool" where
  "sftp_serving I server effective ready R s \<longleftrightarrow> I (snd s) \<and>
     ((sch_initialized (fst s) \<or> ready \<longrightarrow>
        ses_fs (sch_sftp (fst s)) = host_fs server \<and> ses_policy (sch_sftp (fst s)) = opt_sftp_policy effective) \<and>
      R (sch_rx (fst s)))"

context session_services
begin

abbreviation "on_term m \<equiv> keeps N (\<lambda>s. I (snd s)) m (\<lambda>_. True)"
abbreviation "serving ready R \<equiv> sftp_serving I server effective ready R"

lemma on_sftp: "keeps N I m P \<Longrightarrow> keeps N (serving ready R) (onP m) P"
  unfolding sftp_serving_def by (rule keeps_onP) (simp add: keeps_and)

lemma on_chan: "keeps N I m P \<Longrightarrow> keeps N (\<lambda>s. I (snd s)) (onP m) P"
  by (rule keeps_onP) simp

lemma call_kept: "(\<And>ts. call_keeps (\<lambda>w. I (ts, w)) m) \<Longrightarrow> (\<And>x. P x) \<Longrightarrow> keeps N I (callP m) P"
  by (rule keeps_callP) (metis call_keeps_def snd_conv)

lemma sftp_mod:
  "P () \<Longrightarrow> (\<And>c. sch_sftp (f c) = sch_sftp c \<and> sch_initialized (f c) = sch_initialized c \<and> sch_rx (f c) = sch_rx c) \<Longrightarrow>
   keeps N (serving ready R) (chmodP f) P"
  by (rule keeps_chmodP) (simp_all add: sftp_serving_def)

lemma term_mod: "P () \<Longrightarrow> keeps N (\<lambda>s. I (snd s)) (chmodP f) P"
  by (rule keeps_chmodP) simp_all

lemma log_line: "kept (sftp_trace_log_line server enabled line)"
  unfolding sftp_trace_log_line_def by (intro kept_basic keeps_setP TrueI) (auto intro: logging)

lemma log_paths: "kept (sftp_trace_log_request_paths server enabled type packet)"
  unfolding sftp_trace_log_request_paths_def by (intro kept_basic log_line TrueI)

lemma policy_call: "kept (non_sftp_channel_request_allowed_by_policy effective request)"
  unfolding non_sftp_channel_request_allowed_by_policy_def Let_def
  by (intro kept_basic keeps_tryP [where P = "\<lambda>_. True"] call_kept TrueI) (auto intro: request_policy)

end


section \<open>The SFTP channel\<close>

lemma flush_len_bounds:
  "flush_len c \<le> length (sch_tx_pending c)" "flush_len c \<le> unat (sch_peer_window_size c)"
  "sch_peer_max_packet_size c \<noteq> 0 \<Longrightarrow> flush_len c \<le> unat (sch_peer_max_packet_size c)"
  by (simp_all add: flush_len_def Let_def)

lemma flush_len_pos: "sch_tx_pending c \<noteq> [] \<Longrightarrow> sch_peer_window_size c \<noteq> 0 \<Longrightarrow> 0 < flush_len c"
  by (simp add: flush_len_def Let_def unat_gt_0)

context session_services
begin

lemma wp_on_sftp:
  assumes "keeps N I m P" "serving ready R s"
    and "\<And>x t. P x \<Longrightarrow> serving ready R (fst s, t) \<Longrightarrow> Q x (fst s, t)" "\<And>e t. serving ready R (fst s, t) \<Longrightarrow> E e (fst s, t)"
  shows "wp N (onP m) E Q s"
  using assms by (intro wp_onP wpP_mono [OF keepsD [OF assms(1)]]) (auto simp: sftp_serving_def)

lemma replenish: "keeps N (serving ready R) (maybe_replenish_receive_window server timeout_ms) (\<lambda>_. True)"
  unfolding maybe_replenish_receive_window_def Let_def
  by (intro keeps_intros on_sftp channel_senders sftp_mod TrueI) simp_all

lemma flush: "keeps N (serving ready R) (maybe_flush_pending_sftp_response server timeout_ms) (\<lambda>_. True)"
  unfolding maybe_flush_pending_sftp_response_def
proof (intro keeps_thenP keeps_loopP_measure [where m = "\<lambda>_ s. length (sch_tx_pending (fst s))"] keeps_intros TrueI)
  fix s assume s: "serving ready R s"
  show "wp N (chP (\<lambda>channel.
       if sch_tx_pending channel = [] \<or> sch_peer_window_size channel = 0 then retP (Inr ())
       else let send_len = flush_len channel in
       if send_len = 0 then retP (Inr ())
       else thenP (onP (ssh_transport_send_channel_data server (sch_client_channel channel)
           (take send_len (sch_tx_pending channel)) timeout_ms))
         (thenP (chmodP (\<lambda>channel. channel\<lparr>
           sch_peer_window_size := sch_peer_window_size channel - of_nat send_len,
           sch_tx_pending := drop send_len (sch_tx_pending channel)\<rparr>))
         (retP (Inl ()))))) (\<lambda>_. serving ready R)
     (\<lambda>r t. case r of Inl y \<Rightarrow> serving ready R t \<and> length (sch_tx_pending (fst t)) < length (sch_tx_pending (fst s))
       | Inr a \<Rightarrow> serving ready R t \<and> True) s"
    unfolding Let_def
    by (intro wpP_intros wp_on_sftp [OF send_channel_data s]) (use s in \<open>auto simp: sftp_serving_def\<close>)
qed

end


lemma wp_keeps:
  "keeps N G m P \<Longrightarrow> G s \<Longrightarrow> (\<And>e t. G t \<Longrightarrow> E e t) \<Longrightarrow> (\<And>x t. G t \<Longrightarrow> P x \<Longrightarrow> Q x t) \<Longrightarrow> wp N m E Q s"
  by (erule (1) wpP_mono [OF keepsD]) auto

context session_services
begin

lemma chunks: "keeps N (serving ready R) (send_response_chunks server timeout_ms rest) (\<lambda>_. True)"
  unfolding send_response_chunks_def Let_def
proof (intro keeps_loopP_measure [where m = "\<lambda>rest _. length rest"] wpP_intros)
  fix rest :: "u8 list" and s assume s: "serving ready R s"
  let ?n = "if sch_peer_max_packet_size (fst s) \<noteq> 0 \<and> length rest > unat (sch_peer_max_packet_size (fst s))
             then unat (sch_peer_max_packet_size (fst s)) else length rest"
  assume "?n \<noteq> 0" "rest \<noteq> []"
  then show "wp N (onP (ssh_transport_send_channel_data server (sch_client_channel (fst s)) (take ?n rest) timeout_ms)) (\<lambda>_. serving ready R)
      (\<lambda>_. wp N (retP (Inl (drop ?n rest))) (\<lambda>_. serving ready R)
        (\<lambda>r t. case r of Inl y \<Rightarrow> serving ready R t \<and> length y < length rest | Inr a \<Rightarrow> serving ready R t \<and> True)) s"
    by (intro wpP_intros wp_on_sftp [OF send_channel_data s]) auto
qed simp_all

lemma handle_packet: "keeps N (serving True R) (sftpP (sftp_server_handle_packet packet cap)) (\<lambda>_. True)"
proof (rule keepsI)
  fix s assume s: "serving True R s"
  obtain c ts w where [simp]: "s = (c, ts, w)" by (cases s)
  have "stays (session_in (\<lambda>w. I (ts, w)) (host_fs server) (opt_sftp_policy effective)) (sftp_server_handle_packet packet cap)"
    using files file_policy by (rule handle_packet_stays)
  then have "session_in (\<lambda>w. I (ts, w)) (host_fs server) (opt_sftp_policy effective)
      (snd (sftp_server_handle_packet packet cap (sch_sftp c, w)))"
    using s by (simp add: stays_def session_in_def sftp_serving_def)
  with s show "wp N (sftpP (sftp_server_handle_packet packet cap)) (\<lambda>_. serving True R) (\<lambda>_ t. serving True R t \<and> True) s"
    by (auto simp: wp_def sftpP_def session_in_def sftp_serving_def split: prod.splits sum.splits)
qed

lemma serve_packet:
  assumes s: "serving True R s" and drop: "\<And>rx. R rx \<Longrightarrow> R' (drop (unat len + 4) rx)"
  shows "wp N (serve_sftp_packet server effective len) (\<lambda>_. serving True (\<lambda>_. True)) (\<lambda>_. serving True R') s"
proof -
  note quiet = wp_keeps [OF on_sftp [where ready = True and R = R, OF log_line]]
    wp_keeps [OF on_sftp [where ready = True and R = R, OF log_paths]] wp_keeps [OF handle_packet [of R]]
  have answer: "keeps N (serving True R') (chP (\<lambda>channel.
         if length response > unat (sch_peer_window_size channel) then
           thenP (ensureP (\<not> length response > EMSSH_SFTP_MAX_PACKET_SIZE) SSH_ERR_BUFFER_TOO_SMALL)
           (thenP (chmodP (\<lambda>channel. channel\<lparr>sch_tx_pending := response\<rparr>))
           (thenP (maybe_flush_pending_sftp_response server (opt_timeout_ms effective)) (retP (Inr ()))))
         else
           thenP (send_response_chunks server (opt_timeout_ms effective) response)
           (thenP (chmodP (\<lambda>channel. channel\<lparr>
             sch_peer_window_size := sch_peer_window_size channel - of_nat (length response)\<rparr>))
           (retP (Inl ()))))) (\<lambda>_. True)" for response :: "u8 list"
    by (intro keeps_intros flush chunks sftp_mod TrueI) simp_all
  show ?thesis
    unfolding serve_sftp_packet_def send_sftp_response_def Let_def
    by (intro wp_chP wp_thenP wp_tryP quiet wp_failP wp_chmodP wp_keeps [OF answer])
      (use s drop in \<open>simp_all add: sftp_serving_def\<close>)
qed

end


context session_services
begin

abbreviation "served \<equiv> serving True (\<lambda>_. True)"

lemma serve_packets: "keeps N served (serve_sftp_packets server effective) (\<lambda>_. True)"
  unfolding serve_sftp_packets_def Let_def
proof (intro keeps_loopP_measure [where m = "\<lambda>_ s. length (sch_rx (fst s))"] wp_chP wpP_if wp_thenP wp_retP wp_failP
    wp_keeps [OF on_sftp [where ready = True and R = "\<lambda>_. True", OF log_line]])
  fix s assume s: "served s" and len: "\<not> \<not> 4 \<le> length (sch_rx (fst s))"
    and fits: "\<not> length (sch_rx (fst s)) < unat (read_u32_be_local (sch_rx (fst s))) + 4"
  let ?n = "length (sch_rx (fst s))" and ?k = "unat (read_u32_be_local (sch_rx (fst s))) + 4"
  have "wp N (serve_sftp_packet server effective (read_u32_be_local (sch_rx (fst s)))) (\<lambda>_. served)
      (\<lambda>_. serving True (\<lambda>rx. length rx = ?n - ?k)) s"
    by (rule serve_packet [where R = "\<lambda>rx. length rx = ?n"]) (use s in \<open>simp_all add: sftp_serving_def\<close>)
  then show "wp N (serve_sftp_packet server effective (read_u32_be_local (sch_rx (fst s)))) (\<lambda>_. served)
      (\<lambda>r t. case r of Inl y \<Rightarrow> served t \<and> length (sch_rx (fst t)) < ?n | Inr a \<Rightarrow> served t \<and> True) s"
    by (rule wpP_mono) (use len in \<open>auto simp: sftp_serving_def split: sum.splits\<close>)
qed simp_all

lemma sftp_close: "keeps N (serving ready R) (close_sftp_channel server timeout_ms) (\<lambda>_. True)"
  unfolding close_sftp_channel_def by (intro keeps_intros on_sftp channel_senders sftp_mod TrueI) simp_all

lemma sftp_message: "keeps N served (process_sftp_message server effective message bs) (\<lambda>_. True)"
proof -
  have data: "keeps N served (chmodP (\<lambda>channel. channel\<lparr>sch_rx := sch_rx channel @ bs\<rparr>)) (\<lambda>_. True)"
    by (rule keeps_chmodP) (simp_all add: sftp_serving_def)
  show ?thesis
    unfolding process_sftp_message_def Let_def
    by (intro keeps_intros on_sftp channel_senders policy_call sftp_close replenish data sftp_mod TrueI) simp_all
qed

lemma process_sftp:
  assumes "effective_session_options options = effective"
  shows "keeps N served (ssh_server_process_sftp_channel_data server options) (\<lambda>_. True)"
  unfolding ssh_server_process_sftp_channel_data_def Let_def assms
  by (intro keeps_intros keeps_bindP [where P = "\<lambda>_. True"] keeps_tryP [OF on_sftp [OF receive_channel_message]]
      on_sftp [OF log_line] sftp_message flush serve_packets TrueI)

lemma sftp_deinit:
  "keeps N (serving False (\<lambda>_. True)) ssh_server_sftp_channel_deinit (\<lambda>_. True)"
proof (rule keepsI)
  fix s assume s: "serving False (\<lambda>_. True) s"
  obtain c ts w where [simp]: "s = (c, ts, w)" by (cases s)
  have "I (ts, snd (snd (sftp_server_session_deinit (sch_sftp c, w))))" if "sch_initialized c"
    by (rule deinit_stays [where W = "\<lambda>w. I (ts, w)"]) (use s that files file_policy in \<open>simp_all add: sftp_serving_def\<close>)
  moreover obtain session w' where "sftp_server_session_deinit (sch_sftp c, w) = (Inr (), session, w')"
    using deinit_ok [of "(sch_sftp c, w)"] by (metis prod.collapse)
  ultimately show "wp N ssh_server_sftp_channel_deinit (\<lambda>_. serving False (\<lambda>_. True)) (\<lambda>_ t. serving False (\<lambda>_. True) t \<and> True) s"
    using s by (auto simp: wp_def ssh_server_sftp_channel_deinit_def chP_def chmodP_def sftpP_def whenP_def sftp_serving_def
        empty_sftp_channel_def)
qed

end


section \<open>Accepting a channel\<close>

lemma call_keepsD: "call_keeps W m \<Longrightarrow> m w = (r, w') \<Longrightarrow> W w \<Longrightarrow> W w'"
  by (metis call_keeps_def snd_conv)

definition sftp_matches :: "('w, 'z) ssh_session_host_scheme \<Rightarrow> 'w ssh_server_session_options \<Rightarrow> bool \<Rightarrow> 'w ssh_server_sftp_channel \<Rightarrow> bool" where
  "sftp_matches server effective ready c \<longleftrightarrow> (sch_initialized c \<or> ready \<longrightarrow>
     ses_fs (sch_sftp c) = host_fs server \<and> ses_policy (sch_sftp c) = opt_sftp_policy effective)"

lemma sftp_serving_eq:
  "sftp_serving I server effective ready (\<lambda>_. True) = (\<lambda>s. I (snd s) \<and> sftp_matches server effective ready (fst s))"
  by (simp add: fun_eq_iff sftp_serving_def sftp_matches_def)

context session_services
begin

abbreviation "with_chan C \<equiv> (\<lambda>s. I (snd s) \<and> C (fst s))"

lemma on: "keeps N I m P \<Longrightarrow> keeps N (with_chan C) (onP m) P"
  by (rule keeps_onP) (simp add: keeps_and)

lemma next_request: "keeps N (with_chan C) (next_channel_request server timeout_ms first request) (\<lambda>_. True)"
  unfolding next_channel_request_def by (intro keeps_intros on receive_channel_request TrueI)

lemma tolerated: "P (Inl x) \<Longrightarrow> keeps N (with_chan C) (tolerate_or_fail e x) P"
  unfolding tolerate_or_fail_def by (intro keeps_intros)

lemma refuse:
  "keeps N (with_chan C) k Q \<Longrightarrow> keeps N (with_chan C) (refuse_channel_request server effective client_channel request k) Q"
  unfolding refuse_channel_request_def Let_def by (intro keeps_intros on channel_senders policy_call)

lemma accept_channel: "kept (accept_session_channel server effective)"
  unfolding accept_session_channel_def
  by (intro kept_basic keeps_bindP [OF receive_channel_open(2)] channel_senders TrueI)

lemma sftp_request:
  "keeps N (serving ready (\<lambda>_. True)) (forP n (\<lambda>_. failP SSH_ERR_UNSUPPORTED) (sftp_accept_request server effective open) x) (\<lambda>_. True)"
  unfolding sftp_serving_eq sftp_accept_request_def
  by (intro keeps_forP [where J = "\<lambda>_. True"] keeps_intros keeps_bindP [OF next_request] refuse tolerated TrueI) simp_all

lemma sftp_accept_after:
  assumes "effective_session_options options = effective" "serving False (\<lambda>_. True) s"
  shows "wp N (sftp_accept_after_open server options open first) (\<lambda>_. serving False (\<lambda>_. True)) (\<lambda>_. served) s"
  unfolding sftp_accept_after_open_def Let_def assms(1)
  by (intro wpP_option wp_failP wp_bindP wp_keeps [OF sftp_request [of False]] wp_thenP wp_whenP wp_chmodP
      wp_keeps [OF on_sftp [where ready = False and R = "\<lambda>_. True", OF channel_senders(4)]])
    (use assms(2) in \<open>auto simp: sftp_serving_def sftp_server_session_init_def sftp_server_session_set_policy_def\<close>)

lemma sftp_accept:
  assumes "effective_session_options options = effective" "serving False (\<lambda>_. True) s"
  shows "wp N (ssh_server_accept_sftp_channel server options) (\<lambda>_. serving False (\<lambda>_. True)) (\<lambda>_. served) s"
  unfolding ssh_server_accept_sftp_channel_def Let_def assms(1)
  by (intro wpP_if wp_failP wp_thenP wp_bindP wp_chmodP wp_keeps [OF on_sftp [where ready = False and R = "\<lambda>_. True", OF accept_channel]]
      sftp_accept_after)
    (use assms in \<open>auto simp: sftp_serving_def empty_sftp_channel_def\<close>)

end

section \<open>The terminal channel\<close>

context session_services
begin

abbreviation "term_chan \<equiv> with_chan (\<lambda>_. True)"

lemma term_modP: "P () \<Longrightarrow> keeps N term_chan (chmodP f) P"
  by (rule keeps_chmodP) simp_all

lemma term_call: "host_term server = Some term \<Longrightarrow> (\<And>ts. call_keeps (\<lambda>w. I (ts, w)) m) \<Longrightarrow> keeps N term_chan (onP (callP m)) (\<lambda>_. True)"
  by (intro on call_kept) simp_all

lemma term_replies:
  "P x \<Longrightarrow> keeps N term_chan (reply_success server timeout_ms request x) P"
  "P x \<Longrightarrow> keeps N term_chan (reply_failure server timeout_ms request x) P"
  unfolding reply_success_def reply_failure_def by (intro keeps_intros on channel_senders TrueI; simp)+

lemma resize:
  assumes "\<And>t. term = Some t \<Longrightarrow> host_term server = Some t"
  shows "keeps N term_chan (resize_terminal term) (\<lambda>_. True)"
  unfolding resize_terminal_def
  by (intro keeps_intros on call_kept TrueI)
    (use assms terminal in \<open>auto simp: term_keeps_def bind_eq_Some_conv split: if_splits\<close>)

lemma signal:
  assumes "\<And>t. term = Some t \<Longrightarrow> host_term server = Some t"
    and "\<And>e. keeps N term_chan (too_long e) P" "\<And>e. keeps N term_chan (failed e) P" "keeps N term_chan finished P"
  shows "keeps N term_chan (signal_terminal term request too_long failed finished) P"
  unfolding signal_terminal_def
  by (intro keeps_intros keeps_tryP [where P = "\<lambda>_. True"] on call_kept assms TrueI)
    (use assms(1) terminal in \<open>auto simp: term_keeps_def bind_eq_Some_conv split: if_splits\<close>)

lemma wp_on_call:
  assumes "call_keeps (\<lambda>w. I (fst (snd s), w)) m" "with_chan C s"
  shows "wp N (onP (callP m)) (\<lambda>_. with_chan C) (\<lambda>_ t. with_chan C t \<and> True) s"
  using assms(2) call_keepsD [OF assms(1)] by (intro wp_onP wp_callP) auto

lemma spawn:
  assumes "host_term server = Some term"
  shows "keeps N term_chan (spawn_terminal term request) (\<lambda>_. True)"
proof (rule keepsI)
  fix s :: "'w term_chan" assume s: "term_chan s"
  have "term_keeps (\<lambda>w. I (fst (snd s), w)) (spawn_user (fst (snd s))) term"
    using assms by (rule terminal)
  with s show "wp N (spawn_terminal term request) (\<lambda>_. term_chan) (\<lambda>_ t. term_chan t \<and> True) s"
    unfolding spawn_terminal_def Let_def spawn_user_def [symmetric]
    by (intro wpP_intros wp_on_call) (auto simp: term_keeps_def)
qed

end


lemma window_decreases: "n \<le> unat (w :: u32) \<Longrightarrow> unat (w - of_nat n) = unat w - n"
proof -
  assume "n \<le> unat w"
  then have "n < 2 ^ LENGTH(32)"
    using unsigned_less [of w] by (rule order_le_less_trans)
  then have "unat (of_nat n :: u32) = n"
    by (simp add: unsigned_of_nat take_bit_nat_eq_self)
  then show "unat (w - of_nat n) = unat w - n"
    using \<open>n \<le> unat w\<close> by (simp add: unat_sub word_le_nat_alt)
qed

lemma diff_less_unat: "w \<noteq> 0 \<Longrightarrow> bs \<noteq> [] \<Longrightarrow> unat (w :: u32) - length bs < unat w"
  by (simp add: unat_gt_0)

context session_services
begin

lemma term_request:
  assumes "host_term server = Some term"
  shows "keeps N term_chan (terminal_request server term effective request) (\<lambda>_. True)"
  unfolding terminal_request_def Let_def
  by (intro keeps_intros term_modP term_replies keeps_tryP [OF resize] keeps_tryP [OF spawn] signal refuse TrueI)
    (use assms in simp_all)

lemma terminal_accept:
  "keeps N term_chan (ssh_server_accept_terminal_channel server options) (\<lambda>_. True)"
  "keeps N term_chan (terminal_accept_after_open server options chan first) (\<lambda>_. True)"
  if "effective_session_options options = effective" for options
proof -
  have after: "keeps N term_chan (terminal_accept_after_open server options chan first) (\<lambda>_. True)"
    if "effective_session_options options = effective" for options chan first
    unfolding terminal_accept_after_open_def Let_def that terminal_accept_request_def
    by (intro keeps_intros term_modP keeps_forP [where J = "\<lambda>_. True"] keeps_bindP [OF next_request] refuse tolerated
        keeps_mono [OF term_request] TrueI) (simp_all split: sum.splits)
  show "keeps N term_chan (terminal_accept_after_open server options chan first) (\<lambda>_. True)"
    using that by (rule after)
  have "effective_session_options (Some effective) = effective"
    using that effective_idem by metis
  then show "keeps N term_chan (ssh_server_accept_terminal_channel server options) (\<lambda>_. True)"
    unfolding ssh_server_accept_terminal_channel_def Let_def that
    by (intro keeps_intros term_modP keeps_bindP [OF on [OF accept_channel]] after TrueI)
qed

lemma exit_and_close: "keeps N term_chan (maybe_send_terminal_exit_and_close server effective) (\<lambda>_. True)"
  unfolding maybe_send_terminal_exit_and_close_def Let_def
  by (intro keeps_intros keeps_bindP [where P = "\<lambda>_. True"] on call_kept channel_senders term_modP TrueI)
    (use terminal in \<open>auto simp: term_keeps_def bind_eq_Some_conv\<close>)

lemma pump: "keeps N term_chan (maybe_pump_terminal_output server effective) (\<lambda>_. True)"
proof -
  have body: "wp N (chP (\<lambda>channel.
         if tch_peer_window_size channel = 0 then retP (Inr ())
         else let max_send = tch_peer_window_size channel;
                  max_send = (if tch_peer_max_packet_size channel \<noteq> 0
                    then min_u32_local max_send (tch_peer_max_packet_size channel) else max_send);
                  max_send = min_u32_local max_send 2048 in
         if max_send = 0 then retP (Inr ())
         else tryP (onP (callP (read (tch_term_handle channel) (unat max_send))))
           (\<lambda>e. if e = SSH_ERR_NOT_FOUND \<or> e = SSH_ERR_UNSUPPORTED then retP (Inr ()) else failP e)
           (\<lambda>outbuf. if length outbuf = 0 then retP (Inr ())
             else thenP (onP (ssh_transport_send_channel_data server (tch_client_channel channel) outbuf (opt_timeout_ms effective)))
               (thenP (ensureP (\<not> length outbuf > unat (tch_peer_window_size channel)) SSH_ERR_SECURITY)
               (thenP (chmodP (\<lambda>channel. channel\<lparr>
                 tch_peer_window_size := tch_peer_window_size channel - of_nat (length outbuf)\<rparr>))
               (retP (Inl ())))))))
      (\<lambda>_. term_chan) (\<lambda>r t. case r of Inl y \<Rightarrow> term_chan t \<and> unat (tch_peer_window_size (fst t)) < unat (tch_peer_window_size (fst s))
        | Inr a \<Rightarrow> term_chan t \<and> True) s"
    if s: "term_chan s" and api: "host_term server = Some api" "term_read api = Some read" for s api read
  proof -
    have "call_keeps (\<lambda>w. I (ts, w)) (read h n)" for ts h n
      using terminal [OF api(1), of ts] api(2) by (simp add: term_keeps_def)
    then have read: "keeps N (with_chan (\<lambda>c. c = fst s)) (onP (callP (read h n))) (\<lambda>_. True)" for h n
      by (intro on call_kept) simp_all
    show ?thesis
      unfolding Let_def
      by (intro wpP_intros wp_keeps [OF read] wp_keeps [OF on [where C = "\<lambda>c. c = fst s", OF send_channel_data]])
        (use s in \<open>auto simp: window_decreases diff_less_unat\<close>)
  qed
  show ?thesis
    unfolding maybe_pump_terminal_output_def
    by (intro keeps_intros keeps_loopP_measure [where m = "\<lambda>_ s. unat (tch_peer_window_size (fst s))"] TrueI)
      (auto simp only: bind_eq_Some_conv intro!: body)
qed

end


context session_services
begin

lemma pump_close: "keeps N term_chan k (\<lambda>_. True) \<Longrightarrow> keeps N term_chan (pump_and_close server effective k) (\<lambda>_. True)"
  unfolding pump_and_close_def by (intro keeps_intros keeps_bindP [OF exit_and_close] pump)

lemma term_process_request: "keeps N term_chan (process_terminal_request server effective request) (\<lambda>_. True)"
  unfolding process_terminal_request_def Let_def
  by (intro keeps_intros term_modP keeps_tryP [OF resize] signal on channel_senders pump_close TrueI; simp)

lemma term_replenish: "keeps N term_chan (maybe_replenish_terminal_receive_window server timeout_ms) (\<lambda>_. True)"
  unfolding maybe_replenish_terminal_receive_window_def Let_def
  by (intro keeps_intros on channel_senders term_modP TrueI)

lemma term_input: "keeps N term_chan (process_terminal_input server effective bs) (\<lambda>_. True)"
  unfolding process_terminal_input_def
  by (intro keeps_intros keeps_bindP [where P = "\<lambda>_. True"] on call_kept term_modP term_replenish pump_close TrueI)
    (use terminal in \<open>auto simp: term_keeps_def bind_eq_Some_conv split: if_splits\<close>)

lemma term_message: "keeps N term_chan (process_terminal_message server effective message bs) (\<lambda>_. True)"
  unfolding process_terminal_message_def
  by (intro keeps_intros on channel_senders term_modP pump_close term_process_request term_input TrueI)

lemma process_terminal:
  assumes "effective_session_options options = effective"
  shows "keeps N term_chan (ssh_server_process_terminal_channel_data server options) (\<lambda>_. True)"
  unfolding ssh_server_process_terminal_channel_data_def Let_def assms
  by (intro keeps_intros pump_close keeps_tryP [OF on [OF receive_channel_message]] term_message TrueI)

lemma terminal_deinit: "keeps N term_chan (ssh_server_terminal_channel_deinit server) (\<lambda>_. True)"
  unfolding ssh_server_terminal_channel_deinit_def
  by (intro keeps_intros on call_kept term_modP TrueI)
    (use terminal in \<open>auto simp: term_keeps_def bind_eq_Some_conv split: if_splits\<close>)

end

section \<open>Set-up and authentication\<close>

context session_contract
begin

lemma handshake: "kept (transport_handshake server packets bytes timeout_ms)"
  unfolding transport_handshake_def ssh_transport_set_rekey_limits_def
  by (intro kept_basic kept_mod send_identification receive_identification send_kexinit receive_kexinit receive_ecdh_init
      send_ecdh_reply send_newkeys send_ext_info receive_newkeys) simp_all

end

text \<open>An invariant of the world alone holds across the set-up, which starts a new session, and the authentication.\<close>

locale world_contract = session_contract N server "\<lambda>s. W (snd s)"
  for N :: bool and server :: "('w, 'z) ssh_session_host_scheme" and W :: "'w \<Rightarrow> bool"
begin

lemma any_mod: "P () \<Longrightarrow> keeps N (\<lambda>s. W (snd s)) (modP f) P"
  by (rule keeps_modP) simp_all

lemma transport_setup: "kept (ssh_server_run_transport_setup server options)"
  unfolding ssh_server_run_transport_setup_def Let_def by (intro kept_basic any_mod handshake TrueI)

lemma userauth_turn: "kept (userauth_try server timeout_ms tries)"
  unfolding userauth_try_def
  by (intro kept_basic keeps_bindP [OF services(3)] any_mod services TrueI)

lemma userauth_start:
  assumes "\<And>timeout_ms. kept (loopP (userauth_try server timeout_ms) 0)"
  shows "kept (ssh_server_run_userauth server options)"
  unfolding ssh_server_run_userauth_def Let_def
  by (intro kept_basic keeps_bindP [OF services(1)] any_mod services assms TrueI)

end


section \<open>Either channel\<close>

lemma wp_on_sftpP [wpP_intros]:
  "wp N m (\<lambda>e t. E e ((fst t, snd (fst s)), snd t)) (\<lambda>x t. Q x ((fst t, snd (fst s)), snd t)) (fst (fst s), snd s) \<Longrightarrow>
   wp N (on_sftpP m) E Q s"
  by (auto simp: wp_def on_sftpP_def split: option.splits prod.splits sum.splits)

lemma wp_on_termP [wpP_intros]:
  "wp N m (\<lambda>e t. E e ((fst (fst s), fst t), snd t)) (\<lambda>x t. Q x ((fst (fst s), fst t), snd t)) (snd (fst s), snd s) \<Longrightarrow>
   wp N (on_termP m) E Q s"
  by (auto simp: wp_def on_termP_def split: option.splits prod.splits sum.splits)

lemma keeps_on_sftpP: "keeps N (\<lambda>s. I s) m P \<Longrightarrow> keeps N (\<lambda>s. I (fst (fst s), snd s)) (on_sftpP m) P"
  by (rule keepsI, rule wp_on_sftpP, rule wpP_mono, rule keepsD) auto

lemma keeps_on_termP: "keeps N (\<lambda>s. I s) m P \<Longrightarrow> keeps N (\<lambda>s. I (snd (fst s), snd s)) (on_termP m) P"
  by (rule keepsI, rule wp_on_termP, rule wpP_mono, rule keepsD) auto

context session_services
begin

lemma choose:
  assumes eff: "effective_session_options (Some effective) = effective"
    and s: "I (snd s)" "sftp_matches server effective False (fst (fst s))"
  shows "wp N (choose_channel server effective chan) (\<lambda>_ t. I (snd t))
    (\<lambda>kind t. I (snd t) \<and> (kind = SSH_SERVER_CHANNEL_KIND_SFTP \<longrightarrow> served (fst (fst t), snd t))) s"
proof -
  let ?G = "with_chan (\<lambda>c. sftp_matches server effective False (fst c))"
  let ?Q = "\<lambda>kind t. I (snd t) \<and> (kind = SSH_SERVER_CHANNEL_KIND_SFTP \<longrightarrow> served (fst (fst t), snd t))"
  have idle: "serving False (\<lambda>_. True) t \<Longrightarrow> I (snd t)" "served t \<Longrightarrow> I (snd t)" for t
    by (simp_all add: sftp_serving_def)
  have sftp: "wp N (tryP (on_sftpP (sftp_accept_after_open server (Some effective) chan (Some request)))
         (\<lambda>e. thenP (on_sftpP ssh_server_sftp_channel_deinit) (failP e)) (\<lambda>_. retP SSH_SERVER_CHANNEL_KIND_SFTP))
       (\<lambda>_ t. I (snd t)) ?Q t" if "?G t" for request t
    by (intro wp_tryP wp_on_sftpP wpP_mono [OF sftp_accept_after [OF eff]] wp_thenP wp_failP wp_retP wp_keeps [OF sftp_deinit])
      (use that in \<open>auto simp: sftp_serving_eq\<close>)
  have terminal: "wp N (tryP (on_termP (terminal_accept_after_open server (Some effective) chan (Some request)))
         (\<lambda>e. thenP (on_termP (ssh_server_terminal_channel_deinit server)) (failP e)) (\<lambda>_. retP SSH_SERVER_CHANNEL_KIND_TERMINAL))
       (\<lambda>_ t. I (snd t)) ?Q t" if "?G t" for request t
    by (intro wp_tryP wp_on_termP wp_keeps [OF terminal_accept(2) [OF eff]] wp_thenP wp_failP wp_retP wp_keeps [OF terminal_deinit])
      (use that in auto)
  have refused: "wp N (refuse_channel_request server effective cc request (retP (Inl request))) (\<lambda>_ t. I (snd t))
      (\<lambda>r t. case r of Inl y \<Rightarrow> ?G t | Inr a \<Rightarrow> ?Q a t) t" if "?G t" for cc request t
    by (rule wp_keeps [OF refuse [where Q = "\<lambda>r. r = Inl request"]]) (use that in \<open>auto intro: keeps_retP\<close>)
  show ?thesis
    unfolding choose_channel_def
  proof (rule wp_forP [where I = "\<lambda>_. ?G"])
    fix request and s :: "'w auto_chan" assume "?G s"
    then show "wp N (auto_request server effective chan
       (\<lambda>request. tryP (on_sftpP (sftp_accept_after_open server (Some effective) chan (Some request)))
         (\<lambda>e. thenP (on_sftpP ssh_server_sftp_channel_deinit) (failP e)) (\<lambda>_. retP SSH_SERVER_CHANNEL_KIND_SFTP))
       (\<lambda>request. tryP (on_termP (terminal_accept_after_open server (Some effective) chan (Some request)))
         (\<lambda>e. thenP (on_termP (ssh_server_terminal_channel_deinit server)) (failP e)) (\<lambda>_. retP SSH_SERVER_CHANNEL_KIND_TERMINAL))
       request) (\<lambda>_ t. I (snd t)) (\<lambda>r t. case r of Inl y \<Rightarrow> ?G t | Inr a \<Rightarrow> ?Q a t) s"
      unfolding auto_request_def tolerate_or_fail_def
      by (intro wp_bindP wp_keeps [OF next_request [where C = "\<lambda>c. sftp_matches server effective False (fst c)"]]
          wpP_prod wpP_if wp_failP wp_transportP wp_retP refused wpP_mono [OF sftp] wpP_mono [OF terminal]) auto
  qed (use s in \<open>auto intro: wp_failP\<close>)
qed

end

end
