(* ===== verification/Ssh_Transport_Props.thy ===== *)
theory Ssh_Transport_Props
  imports Ssh_Transport_Laws
begin

text \<open>
  The properties of the transport layer. The invariants of a session over any run of its procedures and their termination
  come from the contract of \<open>Ssh_Transport_Laws\<close>. A direct analysis gives the rest: what an accepted payload proves about the
  bytes on the wire, that two sessions with the same keys form a reliable link, what the exchange hash binds, how channel
  data is cut into messages, how channel messages cross the link, the grammar of identification lines, and what a timeout inside a
  packet does.
\<close>

section \<open>A network for examples\<close>

text \<open>The bytes still to be read and the bytes written so far.\<close>

type_synonym pipe = "u8 list \<times> u8 list"

definition pipe_net :: "pipe ssh_net_api" where
  "pipe_net = \<lparr>
     net_read = Some (\<lambda>n timeout_ms w. if fst w = [] then (Inl 0, w) else (Inr (take n (fst w)), (drop n (fst w), snd w))),
     net_write = Some (\<lambda>bs timeout_ms w. (int (length bs), (fst w, snd w @ bs)))\<rparr>"

definition pipe_host :: "pipe ssh_host" where
  "pipe_host = ssh_server.extend
     (sample_server\<lparr>srv_crypto := Some \<lparr>cipher_crypt = Some xor_cipher, mac_compute = Some sum_mac, publickey_verify = None\<rparr>\<rparr>)
     \<lparr>host_initialized = True, host_net = Some pipe_net, host_rng = Some (\<lambda>w. (\<lambda>n. Inr (replicate n 0), w)),
      host_kex = \<lparr>kex_generate_keypair = None, kex_compute_shared_secret = None, hostkey_public = None, hash_exchange = None,
        hostkey_sign = None, derive_key = None, kexinit_defaults = None\<rparr>,
      host_backend_algorithms = None\<rparr>"

lemma pipe_host_fields [simp]:
  "host_net pipe_host = Some pipe_net" "host_initialized pipe_host"
  "host_rng pipe_host = Some (\<lambda>w. (\<lambda>n. Inr (replicate n 0), w))"
  "srv_crypto pipe_host = Some \<lparr>cipher_crypt = Some xor_cipher, mac_compute = Some sum_mac, publickey_verify = None\<rparr>"
  "cfg_software_name (srv_config pipe_host) = None"
  by (simp_all add: pipe_host_def ssh_server.extend_def sample_server_def)

text \<open>A fresh session of this host, and the same one with keys.\<close>

definition fresh_session :: ssh_transport_session where
  "fresh_session = projr (ssh_transport_session_init pipe_host None)"

definition keyed_session :: ssh_transport_session where
  "keyed_session = fresh_session\<lparr>ts_session_id := [7], ts_inbound := sample_protection, ts_outbound := sample_protection\<rparr>"


lemma keyed_session_fields [simp]:
  "ts_session_id keyed_session = [7]" "ts_inbound keyed_session = sample_protection" "ts_outbound keyed_session = sample_protection"
  by (simp_all add: keyed_session_def)

lemma net_read_exact_pipe:
  assumes "host_net server = Some pipe_net" "n \<le> length (fst w)"
  shows "net_read_exact server n timeout_ms (ts, w) = Some (Inr (take n (fst w)), (ts, (drop n (fst w), snd w)))"
proof (cases n)
  case 0
  then show ?thesis
    using assms by (simp add: net_read_exact_def pipe_net_def loopP_unfold)
next
  case (Suc m)
  then have "fst w \<noteq> []" using assms by auto
  then show ?thesis
    using assms Suc
    by (simp add: net_read_exact_def pipe_net_def loopP_unfold [of _ "[]"] loopP_unfold [of _ "take _ _"] callP_def onP_def
        net_read_step_def bindP_def min_def split: prod.splits)
qed

lemma net_write_all_pipe:
  assumes "host_net server = Some pipe_net"
  shows "net_write_all server bs timeout_ms (ts, w) = Some (Inr (), (ts, (fst w, snd w @ bs)))"
  using assms
  by (simp add: net_write_all_def pipe_net_def callP_def onP_def net_write_loop.simps [of _ _ bs] net_write_loop.simps [of _ _ "[]"])

section \<open>Invariants\<close>

text \<open>C10. A session keeps its identity: whatever procedures of the transport run, in any order and with any result, key
  re-exchanges included, the session identifier that was set first stays, and a direction once encrypted and authenticated is
  never again unprotected.\<close>

theorem session_identity_permanent:
  assumes "(transport_step server)\<^sup>*\<^sup>* s t" "ts_session_id (fst s) \<noteq> []"
  shows "ts_session_id (fst t) = ts_session_id (fst s) \<and>
    (prot_active (ts_inbound (fst s)) \<longrightarrow> prot_active (ts_inbound (fst t))) \<and>
    (prot_active (ts_outbound (fst s)) \<longrightarrow> prot_active (ts_outbound (fst t)))"
  using fixed_session.run.every_run [OF assms(1), of "ts_session_id (fst s)" "prot_active (ts_inbound (fst s))"
      "prot_active (ts_outbound (fst s))"] assms(2)
  by (simp add: session_fixed_def)

theorem session_identity_permanent_witness:
  "\<exists>t. (transport_step pipe_host)\<^sup>*\<^sup>* (keyed_session, ([], [])) t \<and> ts_rekey_after_packets (fst t) = 9 \<and>
     ts_session_id (fst t) = [7] \<and> prot_active (ts_inbound (fst t)) \<and> prot_active (ts_outbound (fst t))"
proof -
  let ?s = "(keyed_session, ([], []) :: pipe)"
  obtain t where t: "ssh_transport_set_rekey_limits 9 0 ?s = Some (Inr (), t)" "ts_rekey_after_packets (fst t) = 9"
    by (simp add: ssh_transport_set_rekey_limits_def modP_def)
  then have "(transport_step pipe_host)\<^sup>*\<^sup>* ?s t"
    by (blast intro: transport_step.intros transport_op.intros)
  with session_identity_permanent [OF this] t(2) show ?thesis
    by (intro exI [of _ t]) (simp add: sample_protection_ok)
qed





text \<open>C20. Every procedure of the transport returns, on a connection where a read cannot time out for ever: each of its loops
  is bounded except the one that waits for the rest of a packet.\<close>

theorem transport_procedures_return:
  assumes "timeouts_end server \<mu>" "transport_op server m"
  shows "m s \<noteq> None"
  using keepsD [OF returning.every_op [OF assms(2), of \<mu>], of s] assms(1) by (auto dest: wpP_returns)

theorem transport_procedures_return_witness:
  "ssh_transport_receive_identification pipe_host 0 (fresh_session, (lit ''SSH-2.0-x'', [])) \<noteq> None"
proof (rule transport_procedures_return)
  show "timeouts_end pipe_host (\<lambda>_. 0)"
    by (auto simp: timeouts_end_def pipe_net_def EMSSH_NET_IO_TIMEOUT_def split: if_splits)
qed (rule transport_op.intros)

section \<open>Authenticity\<close>

lemma server_keys_update [simp]:
  "server_keys server (ts\<lparr>ts_client_kexinit_payload := x\<rparr>) = server_keys server ts"
  "server_keys server (ts\<lparr>ts_last_received_message_id := y\<rparr>) = server_keys server ts"
  by (simp_all add: server_keys_def)

lemma record_rekey_inbound [simp]: "ts_inbound (record_rekey_packet b n ts) = ts_inbound ts"
  by (simp add: record_rekey_packet_def update_rekey_needed_def)

text \<open>The cipher callback of the server works in place with every key: it changes as many bytes as it is given. It may fail.\<close>

definition crypto_in_place :: "('w, 'z) ssh_host_scheme \<Rightarrow> bool" where
  "crypto_in_place server \<longleftrightarrow> (\<forall>p. prot_crypto p = srv_crypto server \<longrightarrow> cipher_in_place p)"

text \<open>\<open>received_from server timeout_ms s payload t\<close>: from \<open>s\<close> the session reads two parts of a packet from the network; the
  bytes before the tag decrypt to the packet of \<open>payload\<close>, the tag is the MAC of this packet under the inbound key and the
  current sequence number, and the inbound state has moved on by this packet in \<open>t\<close>.\<close>

definition received_from :: "('w, 'z) ssh_host_scheme \<Rightarrow> u32 \<Rightarrow> 'w tstate \<Rightarrow> u8 list \<Rightarrow> 'w tstate \<Rightarrow> bool" where
  "received_from server timeout_ms s payload t \<longleftrightarrow> (let p = ts_inbound (fst s) in
     prot_active p \<and> (\<exists>first s1 n rest s2 padding L.
       net_read_exact server (prot_block_size p) timeout_ms s = Some (Inr first, s1) \<and>
       net_read_exact server n timeout_ms s1 = Some (Inr rest, s2) \<and>
       L + prot_mac_len p = prot_block_size p + n \<and>
       protection_crypt p (prot_cipher_iv p) SSH_CIPHER_DECRYPT (take L (first @ rest)) = (Inr (), plain_packet payload padding) \<and>
       protection_mac p (plain_packet payload padding) = Inr (take (prot_mac_len p) (drop L (first @ rest))) \<and>
       4 \<le> length padding \<and> length padding \<le> 255 \<and>
       ts_inbound (fst t) = packet_state_after p L))"

lemma net_read_exact_length:
  "net_read_exact server n timeout_ms s = Some (Inr bs, t) \<Longrightarrow> fst t = fst s \<and> n \<le> length bs"
  using keeps_net_read [of server "\<lambda>s'. fst s' = fst s" True undefined n timeout_ms]
  by (auto dest!: keepsD [where s = s] wpP_Inr)

lemma wp_result: "(\<And>x t. m s = Some (Inr x, t) \<Longrightarrow> Q x t) \<Longrightarrow> wp True m (\<lambda>_ _. True) Q s"
  by (rule wpP_I) simp_all

lemma decoded_is_authentic:
  assumes "crypto_in_place server" "server_keys server (fst s)" "prot_active (ts_inbound (fst s))"
    and "net_read_exact server (prot_block_size (ts_inbound (fst s))) timeout_ms s = Some (Inr first, s1)"
    and "net_read_exact server n timeout_ms s1 = Some (Inr rest, s2)"
    and "ssh_packet_decode_protected (first @ rest) m (ts_inbound (fst s)) = (Inr payload, packet, ts_inbound (fst t))"
    and "m = prot_block_size (ts_inbound (fst s)) + n"
  shows "received_from server timeout_ms s payload t"
proof -
  have "cipher_in_place (ts_inbound (fst s))" "m \<le> length (first @ rest)"
    using assms net_read_exact_length [OF assms(4)] net_read_exact_length [OF assms(5)]
    by (simp_all add: crypto_in_place_def server_keys_def)
  from decode_protected_accepts [OF this assms(6)] assms show ?thesis
    unfolding received_from_def Let_def by blast
qed

lemma receive_protected_authentic:
  assumes "crypto_in_place server" "server_keys server (fst s)"
  shows "wp True (ssh_transport_receive_protected_payload server cap timeout_ms) (\<lambda>_ _. True)
    (\<lambda>payload t. received_from server timeout_ms s payload t) s"
  unfolding ssh_transport_receive_protected_payload_def Let_def
  apply (intro wp_tsP wp_thenP wp_ensureP TrueI wpP_prod wpP_sum wp_failP wp_modP wp_bindP wp_result [of "net_read_exact _ _ _"] wp_valueP wp_retP)
  apply (rule decoded_is_authentic [OF assms])
  apply assumption+
  apply (auto simp: not_less)
  done

text \<open>C11. The upper layers see only authentic messages: when the receive loop of the transport delivers a payload, in a session
  with the keys of the server's crypto interface, whose cipher callback works in place (it may fail), it was read from the network as a packet whose MAC, under the inbound key and the
  sequence number of that moment, was right; it fits the caller's array and is no transport message. Ignored messages and key
  re-exchanges on the way do not change this.\<close>

theorem delivered_payload_is_authentic:
  fixes server :: "('w, 'z) ssh_host_scheme"
  assumes "crypto_in_place server" "server_keys server (fst s)"
    and "receive_protected_payload_skip_ignorable server cap timeout_ms s = Some (Inr payload, t)"
  shows "\<exists>s1 t1. received_from server timeout_ms s1 payload t1 \<and> server_keys server (fst s1) \<and>
    ts_inbound (fst t) = ts_inbound (fst t1) \<and> length payload \<le> cap \<and>
    \<not> transport_payload_is_ignorable payload \<and> \<not> transport_payload_is_disconnect payload \<and> \<not> transport_payload_is_kexinit payload"
proof -
  define Q where "Q = (\<lambda>payload (t :: 'w tstate). \<exists>s1 t1. received_from server timeout_ms s1 payload t1 \<and>
    server_keys server (fst s1) \<and> ts_inbound (fst t) = ts_inbound (fst t1) \<and> length payload \<le> cap \<and>
    \<not> transport_payload_is_ignorable payload \<and> \<not> transport_payload_is_disconnect payload \<and> \<not> transport_payload_is_kexinit payload)"
  have "wp True (receive_protected_payload_skip_ignorable server cap timeout_ms) (\<lambda>_ _. True) Q s"
    unfolding receive_protected_payload_skip_ignorable_def Let_def
  proof (rule wp_forP [where I = "\<lambda>_ s. server_keys server (fst s)"], goal_cases)
    case (1 x s)
    note keys = 1
    have recv: "wp True (ssh_transport_receive_protected_payload server n timeout_ms) (\<lambda>_ _. True)
        (\<lambda>pl t. received_from server timeout_ms s pl t \<and> server_keys server (fst t) \<and> length pl \<le> n) s" for n
      by (rule wpP_mono [OF wpP_conj [OF receive_protected_authentic [OF assms(1) keys]
              keepsD [OF keys_of_server.receive_protected keys]]]) auto
    have rekey: "server_keys server (fst t) \<Longrightarrow>
        wp True (thenP (ssh_transport_handle_peer_rekey server pl timeout_ms) (retP (Inl ()))) (\<lambda>_ _. True)
          (\<lambda>r t. case r of Inl y \<Rightarrow> server_keys server (fst t) | Inr a \<Rightarrow> Q a t) t" for pl t
      by (rule wp_thenP, rule wpP_mono, rule keepsD [OF keys_of_server.peer_rekey]) (auto intro: wp_retP)
    have found: "received_from server timeout_ms s pl t \<Longrightarrow> ts_inbound (fst t') = ts_inbound (fst t) \<Longrightarrow> length pl \<le> cap \<Longrightarrow>
        \<not> transport_payload_is_ignorable pl \<Longrightarrow> \<not> transport_payload_is_disconnect pl \<Longrightarrow> \<not> transport_payload_is_kexinit pl \<Longrightarrow>
        Q pl t'" for pl t and t' :: "'w tstate"
      using keys unfolding Q_def by blast
    show ?case
      apply (rule wp_bindP, rule wpP_mono [OF recv], rule TrueI)
       apply (elim conjE)
       apply (intro rekey wp_thenP wp_whenP wp_modP wpP_if wp_failP wp_ensureP wp_retP TrueI)
      apply (auto intro: found)
      done
  next
    case (2 x s)
    show ?case by (rule wp_failP) simp
  next
    case 3
    show ?case by (rule assms)
  qed
  then have "Q payload t"
    using assms(3) by (rule wpP_Inr)
  then show ?thesis
    unfolding Q_def .
qed

section \<open>A reliable link\<close>

text \<open>Decrypting the first block of a packet gives the first block of the decryption, as the receiver relies on to find the
  length of a packet.\<close>

definition cipher_streams :: "ssh_packet_protection \<Rightarrow> bool" where
  "cipher_streams p \<longleftrightarrow> (\<forall>iv seq data pt. length iv = length (prot_cipher_iv p) \<longrightarrow> packet_sized p data \<longrightarrow>
     cipher_call p iv seq SSH_CIPHER_DECRYPT data = (Inr (), pt) \<longrightarrow>
     cipher_call p iv seq SSH_CIPHER_DECRYPT (take (prot_block_size p) data) = (Inr (), take (prot_block_size p) pt))"

definition link_ok :: "ssh_packet_protection \<Rightarrow> bool" where
  "link_ok p \<longleftrightarrow> protection_wf p \<and> prot_active p \<and> cipher_sound p \<and> mac_sound p \<and> cipher_streams p \<and>
     prot_block_size p \<le> EMSSH_MAX_CIPHER_IV"

lemma link_ok_after: "link_ok p \<Longrightarrow> link_ok (packet_state_after p n)"
  by (auto simp: link_ok_def packet_state_after_ok,
      simp add: cipher_streams_def packet_state_after_def cipher_call_def packet_sized_def)

lemma transport_read_u32_be_eq: "transport_read_u32_be bs = of_be32 bs"
  by (simp add: transport_read_u32_be_def of_be32_def)

lemma plain_packet_length_field:
  assumes "4 \<le> k" "length (plain_packet payload padding) \<le> EMSSH_MAX_PACKET_SIZE + 4"
  shows "unat (transport_read_u32_be (take k (plain_packet payload padding))) + 4 = length (plain_packet payload padding)"
proof -
  let ?m = "1 + length payload + length padding"
  have "take k (plain_packet payload padding) = be32 (of_nat ?m) @ take (k - 4) (of_nat (length padding) # payload @ padding)"
    using assms(1) by (simp add: plain_packet_def)
  then have "transport_read_u32_be (take k (plain_packet payload padding)) = of_nat ?m"
    by (simp only: transport_read_u32_be_eq of_be32_be32_append)
  moreover have "unat (of_nat ?m :: u32) = ?m"
    using assms(2) by (simp add: unsigned_of_nat take_bit_nat_eq_self packet_limits del: of_nat_add of_nat_Suc)
  ultimately show ?thesis by simp
qed

lemma encoded_packet:
  assumes "link_ok p" "fill_ok rng"
    and enc: "ssh_packet_encode_protected packet_storage (length packet_storage) payload rng p = (Inr n, packet, p')"
  obtains ct mac padding where
    "take n packet = ct @ mac" "length mac = prot_mac_len p" "n = length ct + length mac" "p' = packet_state_after p (length ct)"
    "prot_block_size p \<le> length ct" "length ct mod prot_block_size p = 0" "length ct \<le> EMSSH_MAX_PACKET_SIZE + 4"
    "\<exists>packet'. ssh_packet_decode_protected (ct @ mac) (length ct + length mac) p = (Inr payload, packet', p')"
    "protection_crypt p (prot_cipher_iv p) SSH_CIPHER_DECRYPT (take (prot_block_size p) ct) =
      (Inr (), take (prot_block_size p) (plain_packet payload padding))"
    "length ct = length (plain_packet payload padding)"
proof -
  have p: "protection_wf p" "cipher_sound p" "cipher_streams p" "prot_block_size p \<le> 252"
    using assms(1) by (auto simp: link_ok_def packet_limits)
  from encode_protected_ok [OF enc order_refl assms(2) p(1,2,4)] obtain padding mac ct where *:
    "length mac = prot_mac_len p"
    "protection_crypt p (prot_cipher_iv p) SSH_CIPHER_DECRYPT ct = (Inr (), plain_packet payload padding)"
    "length ct = length (plain_packet payload padding)"
    "n = length ct + length mac" "take n packet = ct @ mac" "p' = packet_state_after p (length ct)" "packet_sized p ct"
    by metis
  have "\<exists>packet'. ssh_packet_decode_protected (ct @ mac) n p = (Inr payload, packet', p')"
    by (rule protected_roundtrip_lemma [OF enc p(1,2,4) order_refl assms(2)]) (use * in simp_all)
  moreover have "protection_crypt p (prot_cipher_iv p) SSH_CIPHER_DECRYPT (take (prot_block_size p) ct) =
      (Inr (), take (prot_block_size p) (plain_packet payload padding))"
    using p(3) *(2,7) unfolding cipher_streams_def protection_crypt_call by blast
  ultimately show ?thesis
    using * by (intro that [of ct mac padding]) (auto simp: packet_sized_def)
qed

lemma packet_encodes:
  assumes "link_ok p" "fill_works rng" "length payload \<le> EMSSH_MAX_PAYLOAD_SIZE"
  obtains n packet p' where
    "ssh_packet_encode_protected packet_storage (length packet_storage) payload rng p = (Inr n, packet, p')"
proof -
  let ?b = "prot_block_size p" and ?cap = "length packet_storage"
  have p: "protection_wf p" "prot_active p" "cipher_sound p" "mac_sound p" "?b \<le> 252" "?b \<le> 32" "8 \<le> ?b" "prot_mac_len p \<le> 64"
    using assms(1) by (auto simp: link_ok_def protection_wf_def packet_limits)
  then have "normalized_block_size ?b = ?b"
    by (simp add: normalized_block_size_def packet_limits)
  then have "ssh_packet_encoded_len (length payload) ?b + prot_mac_len p \<le> ?cap"
    using assms(3) p padding_len_bounds(2) [of "length payload" ?b]
    by (simp add: ssh_packet_encoded_len_def packet_storage_def packet_limits)
  from send_packet_succeeds [OF p(1-4) assms(2) p(5) assms(3) this] show ?thesis
    using that unfolding send_packet_def packet_storage_def length_replicate by (auto split: prod.splits sum.splits)
qed

lemma record_rekey_outbound [simp]: "ts_outbound (record_rekey_packet b n ts) = ts_outbound ts"
  by (simp add: record_rekey_packet_def update_rekey_needed_def)

lemma send_protected_pipe:
  assumes "host_net server = Some pipe_net" "host_rng server = Some (\<lambda>w. (fill, w))" "prot_active (ts_outbound ts)"
    and "ssh_packet_encode_protected packet_storage (length packet_storage) payload (Some fill) (ts_outbound ts) = (Inr n, packet, p')"
  shows "\<exists>ts'. ssh_transport_send_protected_payload server payload timeout_ms (ts, w) =
    Some (Inr (), (ts', (fst w, snd w @ take n packet))) \<and> ts_outbound ts' = p'"
  using assms
  by (simp add: ssh_transport_send_protected_payload_def tsP_def rngP_def modP_def thenP_def bindP_def ensureP_def
      net_write_all_pipe)

text \<open>Receiving a packet, given what the two reads of its first block and of its rest return.\<close>

lemma receive_protected_reads:
  assumes "ts_inbound ts = p" "prot_active p" "8 \<le> prot_block_size p" "prot_block_size p \<le> EMSSH_MAX_CIPHER_IV"
    and packet: "length mac = prot_mac_len p" "prot_block_size p \<le> length ct"
      "length ct mod prot_block_size p = 0" "length ct \<le> EMSSH_MAX_PACKET_SIZE + 4" "length ct = length (plain_packet payload padding)"
    and first: "protection_crypt p (prot_cipher_iv p) SSH_CIPHER_DECRYPT (take (prot_block_size p) ct) =
      (Inr (), take (prot_block_size p) (plain_packet payload padding))"
    and read: "net_read_exact server (prot_block_size p) timeout_ms (ts, w) = Some (Inr (take (prot_block_size p) ct), (ts, w1))"
  shows "net_read_exact server (length ct - prot_block_size p + prot_mac_len p) timeout_ms (ts, w1) =
        Some (Inr (drop (prot_block_size p) ct @ mac), (ts, w2)) \<Longrightarrow>
      ssh_packet_decode_protected (ct @ mac) (length ct + length mac) p = (Inr payload, packet', p') \<Longrightarrow> length payload \<le> cap \<Longrightarrow>
      ssh_transport_receive_protected_payload server cap timeout_ms (ts, w) =
      Some (Inr payload, (record_rekey_packet False (length ct + prot_mac_len p)
        (ts\<lparr>ts_inbound := p', ts_inbound_sequence := prot_sequence p'\<rparr>), w2))" (is "?ok \<Longrightarrow> _ \<Longrightarrow> _ \<Longrightarrow> _")
    and "net_read_exact server (length ct - prot_block_size p + prot_mac_len p) timeout_ms (ts, w1) = Some (Inl e, (ts, w2)) \<Longrightarrow>
      ssh_transport_receive_protected_payload server cap timeout_ms (ts, w) = Some (Inl e, (ts, w2))"
proof -
  let ?b = "prot_block_size p"
  have "unat (transport_read_u32_be (take ?b (plain_packet payload padding))) + 4 = length ct"
    using plain_packet_length_field [of ?b payload padding] assms(3) packet by simp
  then have len: "unat (transport_read_u32_be (take ?b (plain_packet payload padding))) = length ct - 4" "5 \<le> length ct"
      "length ct - 4 \<le> 35000"
    using packet by (simp_all add: packet_limits)
  have parts: "take ?b ct @ drop ?b ct @ mac = ct @ mac"
    by simp
  note simps = parts ssh_transport_receive_protected_payload_def tsP_def modP_def thenP_def bindP_def ensureP_def Let_def
    packet_limits not_less
  show "ssh_transport_receive_protected_payload server cap timeout_ms (ts, w) =
      Some (Inr payload, (record_rekey_packet False (length ct + prot_mac_len p)
        (ts\<lparr>ts_inbound := p', ts_inbound_sequence := prot_sequence p'\<rparr>), w2))"
    if ?ok "ssh_packet_decode_protected (ct @ mac) (length ct + length mac) p = (Inr payload, packet', p')" "length payload \<le> cap"
    using assms(1-4) packet(1-4) first read len that by (simp add: simps)
  show "ssh_transport_receive_protected_payload server cap timeout_ms (ts, w) = Some (Inl e, (ts, w2))"
    if "net_read_exact server (length ct - ?b + prot_mac_len p) timeout_ms (ts, w1) = Some (Inl e, (ts, w2))"
    using assms(1-4) packet(1-4) first read len that by (simp add: simps)
qed

lemma receive_protected_pipe:
  assumes "host_net server = Some pipe_net" "ts_inbound ts = p" "prot_active p" "8 \<le> prot_block_size p"
    "prot_block_size p \<le> EMSSH_MAX_CIPHER_IV"
    and packet: "fst w = ct @ mac @ rest" "length mac = prot_mac_len p" "prot_block_size p \<le> length ct"
      "length ct mod prot_block_size p = 0" "length ct \<le> EMSSH_MAX_PACKET_SIZE + 4" "length ct = length (plain_packet payload padding)"
    and first: "protection_crypt p (prot_cipher_iv p) SSH_CIPHER_DECRYPT (take (prot_block_size p) ct) =
      (Inr (), take (prot_block_size p) (plain_packet payload padding))"
    and dec: "ssh_packet_decode_protected (ct @ mac) (length ct + length mac) p = (Inr payload, packet', p')"
    and cap: "length payload \<le> cap"
  shows "ssh_transport_receive_protected_payload server cap timeout_ms (ts, w) =
    Some (Inr payload, (record_rekey_packet False (length ct + prot_mac_len p)
      (ts\<lparr>ts_inbound := p', ts_inbound_sequence := prot_sequence p'\<rparr>), (rest, snd w)))"
proof -
  let ?b = "prot_block_size p"
  have parts: "take ?b (fst w) = take ?b ct" "drop ?b (fst w) = drop ?b ct @ mac @ rest"
    using packet by simp_all
  have 1: "net_read_exact server ?b timeout_ms (ts, w) = Some (Inr (take ?b ct), (ts, (drop ?b ct @ mac @ rest, snd w)))"
    using net_read_exact_pipe [OF assms(1), of ?b w timeout_ms ts] packet(1,3) parts by simp
  have 2: "net_read_exact server (length ct - ?b + prot_mac_len p) timeout_ms (ts, (drop ?b ct @ mac @ rest, snd w)) =
      Some (Inr (drop ?b ct @ mac), (ts, (rest, snd w)))"
    using net_read_exact_pipe [OF assms(1), of "length ct - ?b + prot_mac_len p" "(drop ?b ct @ mac @ rest, snd w)"] packet(2) by simp
  show ?thesis
    by (rule receive_protected_reads(1) [OF assms(2-5) packet(2-6) first 1 2 dec cap])
qed

text \<open>One payload over the link.\<close>

lemma link_transfer:
  assumes "host_net sender = Some pipe_net" "host_rng sender = Some (\<lambda>w. (fill, w))" "fill_works (Some fill)"
    and "host_net receiver = Some pipe_net"
    and link: "link_ok (ts_outbound ts)" and same: "ts_inbound ts' = ts_outbound ts"
    and size: "length pl \<le> EMSSH_MAX_PAYLOAD_SIZE" "length pl \<le> cap"
  obtains ts1 ts1' wire where
    "ssh_transport_send_protected_payload sender pl timeout_ms (ts, w) = Some (Inr (), (ts1, (fst w, snd w @ wire)))"
    "\<And>rest out. ssh_transport_receive_protected_payload receiver cap timeout_ms (ts', (wire @ rest, out)) = Some (Inr pl, (ts1', (rest, out)))"
    "ts_inbound ts1' = ts_outbound ts1" "link_ok (ts_outbound ts1)"
proof -
  let ?p = "ts_outbound ts"
  have p: "prot_active ?p" "8 \<le> prot_block_size ?p" "prot_block_size ?p \<le> EMSSH_MAX_CIPHER_IV"
    using link by (auto simp: link_ok_def protection_wf_def)
  obtain n packet p' where enc: "ssh_packet_encode_protected packet_storage (length packet_storage) pl (Some fill) ?p = (Inr n, packet, p')"
    by (rule packet_encodes [OF link assms(3) size(1)])
  from encoded_packet [OF link fill_works_ok [OF assms(3)] enc] obtain ct mac padding where *:
    "take n packet = ct @ mac" "length mac = prot_mac_len ?p" "n = length ct + length mac" "p' = packet_state_after ?p (length ct)"
    "prot_block_size ?p \<le> length ct" "length ct mod prot_block_size ?p = 0" "length ct \<le> EMSSH_MAX_PACKET_SIZE + 4"
    "\<exists>packet'. ssh_packet_decode_protected (ct @ mac) (length ct + length mac) ?p = (Inr pl, packet', p')"
    "protection_crypt ?p (prot_cipher_iv ?p) SSH_CIPHER_DECRYPT (take (prot_block_size ?p) ct) =
      (Inr (), take (prot_block_size ?p) (plain_packet pl padding))"
    "length ct = length (plain_packet pl padding)"
    by blast
  obtain ts1 where send: "ssh_transport_send_protected_payload sender pl timeout_ms (ts, w) = Some (Inr (), (ts1, (fst w, snd w @ ct @ mac)))"
      "ts_outbound ts1 = p'"
    using send_protected_pipe [OF assms(1,2) p(1) enc] *(1) by metis
  obtain packet' where dec: "ssh_packet_decode_protected (ct @ mac) (length ct + length mac) ?p = (Inr pl, packet', p')"
    using *(8) by blast
  let ?ts1 = "record_rekey_packet False (length ct + prot_mac_len ?p) (ts'\<lparr>ts_inbound := p', ts_inbound_sequence := prot_sequence p'\<rparr>)"
  have "ssh_transport_receive_protected_payload receiver cap timeout_ms (ts', ((ct @ mac) @ rest, out)) =
      Some (Inr pl, (?ts1, (rest, out)))" for rest out
    using receive_protected_pipe [OF assms(4) same p _ *(2,5-7,10,9) dec, of "((ct @ mac) @ rest, out)" rest cap timeout_ms] size(2) by simp
  then show thesis
    using send link_ok_after [OF link] *(4) by (intro that [of ts1 "ct @ mac" ?ts1]) simp_all
qed

fun send_payloads :: "('w, 'z) ssh_host_scheme \<Rightarrow> u32 \<Rightarrow> u8 list list \<Rightarrow> ('w tstate, unit) proc" where
  "send_payloads server timeout_ms [] = retP ()"
| "send_payloads server timeout_ms (pl # pls) =
     thenP (ssh_transport_send_protected_payload server pl timeout_ms) (send_payloads server timeout_ms pls)"

fun receive_payloads :: "('w, 'z) ssh_host_scheme \<Rightarrow> nat \<Rightarrow> u32 \<Rightarrow> nat \<Rightarrow> ('w tstate, u8 list list) proc" where
  "receive_payloads server cap timeout_ms 0 = retP []"
| "receive_payloads server cap timeout_ms (Suc n) =
     bindP (ssh_transport_receive_protected_payload server cap timeout_ms) (\<lambda>pl.
     bindP (receive_payloads server cap timeout_ms n) (\<lambda>pls. retP (pl # pls)))"

text \<open>C12. Two sessions with the same keys form a reliable link. Assume of the callbacks, on areas of whole blocks up to the size of a
  packet and with the keys of the state, that encryption succeeds, that decryption undoes it and decrypts the first block of a packet
  as it decrypts the packet, and that the MAC has the negotiated length; and that the random generator delivers. Then the packets one
  session sends for any sequence of payloads of legal size, over a network that delivers the bytes written, are received as
  exactly these payloads, without error and without touching the bytes that follow, and both protection states stay equal.\<close>

theorem sessions_form_a_link:
  assumes "host_net sender = Some pipe_net" "host_rng sender = Some (\<lambda>w. (fill, w))" "fill_works (Some fill)"
    and "host_net receiver = Some pipe_net"
    and "link_ok (ts_outbound ts)" "ts_inbound ts' = ts_outbound ts"
    and "\<forall>pl \<in> set payloads. length pl \<le> EMSSH_MAX_PAYLOAD_SIZE \<and> length pl \<le> cap"
  shows "\<exists>ts1 ts1' wire. send_payloads sender timeout_ms payloads (ts, w) = Some (Inr (), (ts1, (fst w, snd w @ wire))) \<and>
    receive_payloads receiver cap timeout_ms (length payloads) (ts', (wire @ rest, out)) = Some (Inr payloads, (ts1', (rest, out))) \<and>
    ts_inbound ts1' = ts_outbound ts1"
  using assms(5-7)
proof (induction payloads arbitrary: ts ts' w)
  case (Cons pl pls)
  obtain ts1 ts1' wire1 where one:
    "ssh_transport_send_protected_payload sender pl timeout_ms (ts, w) = Some (Inr (), (ts1, (fst w, snd w @ wire1)))"
    "\<And>rest out. ssh_transport_receive_protected_payload receiver cap timeout_ms (ts', (wire1 @ rest, out)) = Some (Inr pl, (ts1', (rest, out)))"
    "ts_inbound ts1' = ts_outbound ts1" "link_ok (ts_outbound ts1)"
    by (rule link_transfer [OF assms(1-4) Cons.prems(1,2), of pl cap]) (use Cons.prems(3) in auto)
  obtain ts2 ts2' wire2 where IH: "send_payloads sender timeout_ms pls (ts1, (fst w, snd w @ wire1)) =
        Some (Inr (), (ts2, (fst w, (snd w @ wire1) @ wire2)))"
      "receive_payloads receiver cap timeout_ms (length pls) (ts1', (wire2 @ rest, out)) = Some (Inr pls, (ts2', (rest, out)))"
      "ts_inbound ts2' = ts_outbound ts2"
    using Cons.IH [of ts1 ts1' "(fst w, snd w @ wire1)"] one(3,4) Cons.prems(3) by auto
  then show ?case
    using one(1) one(2) [of "wire2 @ rest"] by (intro exI [of _ ts2] exI [of _ ts2'] exI [of _ "wire1 @ wire2"]) simp
qed simp

lemma sample_link_ok: "link_ok sample_protection"
  by (simp add: link_ok_def sample_protection_ok,
      auto simp: cipher_streams_def cipher_call_def sample_protection_eq xor_cipher_def take_map packet_limits)

theorem sessions_form_a_link_witness:
  "\<exists>ts1 ts1' wire. send_payloads pipe_host 0 [[94, 0], []] (keyed_session, ([], [])) = Some (Inr (), (ts1, ([], wire))) \<and>
    receive_payloads pipe_host 512 0 2 (keyed_session, (wire @ [5], [])) = Some (Inr [[94, 0], []], (ts1', ([5], []))) \<and>
    ts_inbound ts1' = ts_outbound ts1"
  using sessions_form_a_link [of pipe_host "\<lambda>n. Inr (replicate n 0)" pipe_host keyed_session keyed_session "[[94, 0], []]" 512 0
      "([], [])" "[5]" "[]"]
  by (simp add: sample_link_ok fill_works_def packet_limits numeral_2_eq_2 del: send_payloads.simps receive_payloads.simps)

lemma valueP_Inr [simp]: "valueP (Inr x) = retP x"
  by (rule ext) simp

lemma forP_numeral:
  "forP (numeral n) after body x = bindP (body x) (\<lambda>r. case r of Inl y \<Rightarrow> forP (pred_numeral n) after body y | Inr a \<Rightarrow> retP a)"
  by (simp add: numeral_eq_Suc)

lemma sample_delivery:
  "\<exists>t. receive_protected_payload_skip_ignorable pipe_host 512 0 (keyed_session, (sample_packet, [])) = Some (Inr [21], t)"
proof -
  let ?p = sample_protection and ?ct = "take 16 sample_packet"
  have packet: "sample_packet = ?ct @ [52] @ []" "length ?ct = 16" "?ct @ [52] = sample_packet"
    "map (\<lambda>x. x XOR 6) ?ct = [0, 0, 0, 12, 10, 21, 0, 0, 0, 0, 0, 0, 0, 0, 0, 0]"
    by (simp_all add: sample_packet_def)
  obtain packet' p' where *: "ssh_packet_decode_protected sample_packet 17 ?p = (Inr [21], packet', p')"
    using sample_packet_decodes by (metis prod.collapse)
  then have dec: "ssh_packet_decode_protected (?ct @ [52]) (length ?ct + length [52 :: u8]) ?p = (Inr [21], packet', p')"
    unfolding packet(2,3) by simp
  have "ssh_transport_receive_protected_payload pipe_host EMSSH_MAX_KEXINIT_PAYLOAD 0 (keyed_session, (sample_packet, [])) =
      Some (Inr [21], (record_rekey_packet False (length ?ct + prot_mac_len ?p)
        (keyed_session\<lparr>ts_inbound := p', ts_inbound_sequence := prot_sequence p'\<rparr>), ([], [])))"
    using receive_protected_pipe [OF pipe_host_fields(1) keyed_session_fields(2) _ _ _ _ _ _ _ _ _ _ dec, of "(sample_packet, [])" "[]" "replicate 10 0"
        EMSSH_MAX_KEXINIT_PAYLOAD 0]
      packet sample_protection_ok
    by (simp add: sample_plain_packet packet_limits transport_limits sample_crypt sample_protection_eq [THEN arg_cong [of _ _ prot_cipher_iv]])
  moreover have "512 < EMSSH_MAX_KEXINIT_PAYLOAD"
    by (simp add: transport_limits)
  ultimately show ?thesis
    by (simp add: receive_protected_payload_skip_ignorable_def forP_numeral Let_def bindP_def thenP_def modP_def ensureP_def
        transport_payload_is_disconnect_def transport_payload_is_kexinit_def transport_payload_is_ignorable_def
        SSH_MSG_DISCONNECT_def SSH_MSG_KEXINIT_def SSH_MSG_IGNORE_def SSH_MSG_DEBUG_def SSH_MSG_UNIMPLEMENTED_def)
qed

theorem delivered_payload_is_authentic_witness:
  "\<exists>s1 t1 :: pipe tstate. received_from pipe_host 0 s1 [21] t1 \<and> server_keys pipe_host (fst s1) \<and> length [21 :: u8] \<le> 512"
proof -
  obtain t where t: "receive_protected_payload_skip_ignorable pipe_host 512 0 (keyed_session, (sample_packet, [])) = Some (Inr [21], t)"
    using sample_delivery by blast
  have "crypto_in_place pipe_host" "server_keys pipe_host (fst (keyed_session, (sample_packet, [] :: u8 list)))"
    by (auto simp: crypto_in_place_def server_keys_def cipher_in_place_def cipher_call_def xor_cipher_def sample_protection_eq)
  from delivered_payload_is_authentic [OF this t] show ?thesis by blast
qed

section \<open>The exchange hash\<close>

definition handshake :: "ssh_transport_session \<Rightarrow> u8 list list" where
  "handshake ts = [view_data (id_raw (ts_client_identification ts)), view_data (id_raw (ts_server_identification ts)),
     take (ts_client_kexinit_payload_len ts) (ts_client_kexinit_payload ts), ts_server_kexinit_payload ts,
     ts_server_host_key ts, ts_client_kex_public_key ts, ts_server_kex_public_key ts]"

definition handshake_sizes_ok :: "ssh_transport_session \<Rightarrow> bool" where
  "handshake_sizes_ok ts \<longleftrightarrow> list_all (\<lambda>x. length x < UINT32_MAX) (ts_shared_secret ts # handshake ts)"

lemma exchange_hash_writer:
  assumes "handshake_sizes_ok ts"
  shows "buffer_writer (put_exchange_hash_input ts)
    (concat (map string_bytes (handshake ts)) @ string_bytes (mpint_body (ts_shared_secret ts)))"
  using assms
  by (auto simp: put_exchange_hash_input_def handshake_def handshake_sizes_ok_def intro!: writer_intros)

lemma string_bytes_parse:
  "length x \<le> UINT32_MAX \<Longrightarrow> length y \<le> UINT32_MAX \<Longrightarrow> string_bytes x @ r = string_bytes y @ s \<Longrightarrow> x = y \<and> r = s"
  using strng.bytes_unique_parse [of "Some x" "Some y" r s] by simp

lemma strings_parse:
  assumes "length xs = length ys" "list_all (\<lambda>x. length x \<le> UINT32_MAX) (xs @ ys)"
    and "concat (map string_bytes xs) @ r = concat (map string_bytes ys) @ s"
  shows "xs = ys \<and> r = s"
  using assms
proof (induction xs ys rule: list_induct2)
  case (Cons x xs y ys)
  then show ?case
    using string_bytes_parse [of x y "concat (map string_bytes xs) @ r" "concat (map string_bytes ys) @ s"] by auto
qed simp

text \<open>C17. The exchange hash binds the whole handshake: if the data two sessions hash for the key exchange is equal, then both
  identification lines, both KEXINIT messages, the host key and both public keys are equal, and so is the shared secret as a
  number. A signature of the host key on the hash of one handshake cannot be used in another.\<close>

theorem exchange_hash_binds_handshake:
  assumes "handshake_sizes_ok a" "handshake_sizes_ok b"
    and "build_exchange_hash_input a cap = Inr input" "build_exchange_hash_input b cap' = Inr input"
  shows "handshake a = handshake b \<and> be_value (ts_shared_secret a) = be_value (ts_shared_secret b)"
proof -
  let ?bytes = "\<lambda>ts. concat (map string_bytes (handshake ts)) @ string_bytes (mpint_body (ts_shared_secret ts))"
  have "?bytes a = ?bytes b"
    using assms by (auto simp: build_exchange_hash_input_def encode_payload_writes [OF exchange_hash_writer] split: if_splits)
  moreover have "list_all (\<lambda>x. length x \<le> UINT32_MAX) (handshake a @ handshake b)"
    using assms(1,2) by (auto simp: handshake_sizes_ok_def list_all_iff)
  moreover have "length (handshake a) = length (handshake b)"
    by (simp add: handshake_def)
  ultimately have eq: "handshake a = handshake b" "string_bytes (mpint_body (ts_shared_secret a)) = string_bytes (mpint_body (ts_shared_secret b))"
    using strings_parse by blast+
  moreover have "length (mpint_body (ts_shared_secret ts)) \<le> UINT32_MAX" if "handshake_sizes_ok ts" for ts
    using that length_mpint_body [of "ts_shared_secret ts"] by (simp add: handshake_sizes_ok_def)
  ultimately have "mpint_body (ts_shared_secret a) = mpint_body (ts_shared_secret b)"
    using assms(1,2) string_bytes_parse [of _ _ "[]" "[]"] by simp
  then show ?thesis
    using eq(1) mpint_value_body by (metis of_nat_eq_iff)
qed

theorem exchange_hash_binds_handshake_witness:
  "build_exchange_hash_input (fresh_session\<lparr>ts_shared_secret := [0, 5]\<rparr>) 99 = build_exchange_hash_input (fresh_session\<lparr>ts_shared_secret := [5]\<rparr>) 99 \<and>
   be_value [0, 5] = be_value [5 :: u8]"
proof -
  let ?a = "fresh_session\<lparr>ts_shared_secret := [0, 5]\<rparr>" and ?b = "fresh_session\<lparr>ts_shared_secret := [5]\<rparr>"
  have ok: "handshake_sizes_ok ?a" "handshake_sizes_ok ?b"
    by (simp_all add: handshake_sizes_ok_def handshake_def fresh_session_def ssh_transport_session_init_def empty_identification_def UINT32_MAX_def)
  moreover have "handshake ?a = [[], [], [], [], [], [], []]" "handshake ?b = [[], [], [], [], [], [], []]"
    by (simp_all add: handshake_def fresh_session_def ssh_transport_session_init_def empty_identification_def)
  moreover have "mpint_body [0, 5] = [5]" "mpint_body [5] = [5]"
    by (simp_all add: mpint_body_def)
  ultimately have "build_exchange_hash_input ?a 99 = Inr (concat (map string_bytes [[], [], [], [], [], [], [], [5]]))"
    "build_exchange_hash_input ?b 99 = Inr (concat (map string_bytes [[], [], [], [], [], [], [], [5]]))"
    by (simp_all add: build_exchange_hash_input_def encode_payload_writes [OF exchange_hash_writer] string_bytes_def)
  then show ?thesis
    using exchange_hash_binds_handshake [OF ok] by simp
qed

section \<open>Channel data\<close>

text \<open>Data in pieces of the largest size a message may carry; no data is one empty message.\<close>

function data_chunks :: "u8 list \<Rightarrow> u8 list list" where
  "data_chunks bs = (if length bs > EMSSH_MAX_PAYLOAD_SIZE - 9
     then take (EMSSH_MAX_PAYLOAD_SIZE - 9) bs # data_chunks (drop (EMSSH_MAX_PAYLOAD_SIZE - 9) bs) else [bs])"
  by pat_completeness auto
termination by (relation "measure length") (auto simp: packet_limits)

declare data_chunks.simps [simp del]

definition channel_data_payload :: "u32 \<Rightarrow> u8 list \<Rightarrow> u8 list" where
  "channel_data_payload recipient_channel bs = SSH_MSG_CHANNEL_DATA # be32 recipient_channel @ string_bytes bs"

lemma encode_channel_data:
  assumes "length bs \<le> EMSSH_MAX_PAYLOAD_SIZE - 9"
  shows "encode_payload (EMSSH_MAX_PAYLOAD_SIZE + 16) (ssh_channel_data_encode rc bs) = Inr (channel_data_payload rc bs)"
proof -
  have "buffer_writer (ssh_channel_data_encode rc bs) ([SSH_MSG_CHANNEL_DATA] @ be32 rc @ string_bytes bs)"
    unfolding ssh_channel_data_encode_def using assms
    by (intro encoder_intros) (simp_all add: UINT32_MAX_def packet_limits)
  then show ?thesis
    using assms by (simp add: encode_payload_writes channel_data_payload_def string_bytes_def packet_limits)
qed

lemma send_channel_data_loop_chunks:
  "send_channel_data_loop server rc timeout_ms bs = send_payloads server timeout_ms (map (channel_data_payload rc) (data_chunks bs))"
proof (induction bs rule: data_chunks.induct)
  case (1 bs)
  show ?case
  proof (cases "length bs > EMSSH_MAX_PAYLOAD_SIZE - 9")
    case True
    with 1 show ?thesis
      by (subst send_channel_data_loop.simps, subst data_chunks.simps) (simp add: Let_def encode_channel_data valueP_Inr)
  next
    case False
    then show ?thesis
      by (subst send_channel_data_loop.simps, subst data_chunks.simps) (simp add: Let_def encode_channel_data valueP_Inr)
  qed
qed

text \<open>Channel data of any length goes out completely and in order: it is cut into pieces that are together the data, each
  of at most 32759 bytes so that its message fits a packet, and one message is sent for each.\<close>

theorem channel_data_is_chunked:
  "ssh_transport_send_channel_data server rc bs timeout_ms =
     thenP (send_payloads server timeout_ms (map (channel_data_payload rc) (data_chunks bs)))
       (to_state SSH_TRANSPORT_STATE_CHANNEL_DATA_SENT) \<and>
   concat (data_chunks bs) = bs \<and>
   list_all (\<lambda>c. length c \<le> 32759 \<and> length (channel_data_payload rc c) \<le> EMSSH_MAX_PAYLOAD_SIZE) (data_chunks bs)"
proof (intro conjI)
  show "concat (data_chunks bs) = bs"
    by (induction bs rule: data_chunks.induct) (subst data_chunks.simps, simp)
  show "list_all (\<lambda>c. length c \<le> 32759 \<and> length (channel_data_payload rc c) \<le> EMSSH_MAX_PAYLOAD_SIZE) (data_chunks bs)"
    by (induction bs rule: data_chunks.induct)
      (subst data_chunks.simps, simp add: channel_data_payload_def string_bytes_def packet_limits)
qed (simp add: ssh_transport_send_channel_data_def send_channel_data_loop_chunks packet_limits)

section \<open>Keys\<close>

text \<open>The key of one direction by RFC 4253, section 7.2: the letters for the IV, the encryption key and the MAC key.\<close>

definition key_letters :: "bool \<Rightarrow> char \<times> char \<times> char" where
  "key_letters outbound = (if outbound then (CHR ''B'', CHR ''D'', CHR ''F'') else (CHR ''A'', CHR ''C'', CHR ''E''))"

definition directed :: "bool \<Rightarrow> ssh_transport_session \<Rightarrow> ssh_packet_protection" where
  "directed outbound ts = (if outbound then ts_outbound ts else ts_inbound ts)"

lemma derive_material_ok:
  "derive_material server ts letter n = Inr bs \<longleftrightarrow> srv_crypto server \<noteq> None \<and> (\<exists>derive. derive_key (host_kex server) = Some derive \<and>
     derive (neg_kex_algorithm (ts_negotiation ts)) (ts_shared_secret ts) (ts_exchange_hash ts) (ts_session_id ts) letter n = Inr bs \<and>
     length bs = n)"
  by (auto simp: derive_material_def split: option.splits sum.splits)

lemma reset_rekey_unchanged [simp]:
  "ts_inbound (reset_rekey_direction b ts) = ts_inbound ts" "ts_outbound (reset_rekey_direction b ts) = ts_outbound ts"
  by (simp_all add: reset_rekey_direction_def update_rekey_needed_def)

text \<open>C16. New keys are fresh, directed and in step: when the protection of a direction is activated, its IV, encryption key and MAC
  key are what the key derivation gives for the letters of this direction, from the shared secret and exchange hash of the
  current key exchange and the session identifier of the first one; the packet counter goes on where it was, the other
  direction is not touched.\<close>

theorem activated_keys_are_derived:
  assumes "activate_packet_protection server outbound s = Some (Inr (), t)"
  shows "case key_letters outbound of (iv_letter, key_letter, mac_letter) \<Rightarrow>
    (\<exists>derive. derive_key (host_kex server) = Some derive \<and>
      (let ts = fst t; p = directed outbound ts;
           key = derive (neg_kex_algorithm (ts_negotiation (fst s))) (ts_shared_secret (fst s)) (ts_exchange_hash (fst s)) (ts_session_id ts) in
       prot_active p \<and> key iv_letter 16 = Inr (prot_cipher_iv p) \<and> key key_letter 16 = Inr (prot_cipher_key p) \<and>
       key mac_letter 32 = Inr (prot_mac_key p) \<and> length (prot_mac_key p) = 32 \<and> prot_mac_len p = 32 \<and>
       prot_sequence p = (if outbound then ts_outbound_sequence (fst s) else ts_inbound_sequence (fst s)) \<and>
       directed (\<not> outbound) ts = directed (\<not> outbound) (fst s) \<and>
       ts_session_id ts = (if ts_session_id (fst s) = [] then ts_exchange_hash (fst s) else ts_session_id (fst s)) \<and>
       ts_session_id ts \<noteq> [] \<and> snd t = snd s))" (is "?Q t")
proof -
  have set: "prot_active p \<and> prot_cipher_key p = key \<and> prot_cipher_iv p = iv \<and> prot_mac_key p = mac \<and> prot_mac_len p = m"
    if "ssh_packet_protection_set crypto ca ma key iv mac b m p0 = (Inr u, p)" for crypto ca ma key iv mac b m p p0 u
    using that by (auto simp: ssh_packet_protection_set_def split: if_splits)
  have sizes: "k = 16 \<and> i = 16 \<and> l = 32 \<and> m = 32" if "negotiated_packet_sizes neg = Inr (k, i, b, l, m)" for neg k i b l m
    using that by (auto simp: negotiated_packet_sizes_def view_algorithm_size_def Let_def split: if_splits)
  have "wp True (activate_packet_protection server outbound) (\<lambda>_ _. True) (\<lambda>_ t. ?Q t) s"
    unfolding activate_packet_protection_def Let_def
    by (intro wpP_intros TrueI) (auto simp: derive_material_ok key_letters_def directed_def dest!: set sizes)
  then show ?thesis
    using assms by (rule wpP_Inr)
qed

definition deriving_host :: "pipe ssh_host" where
  "deriving_host = pipe_host\<lparr>host_kex := (host_kex pipe_host)\<lparr>derive_key :=
     Some (\<lambda>alg k h sid letter n. Inr (replicate n (of_char letter)))\<rparr>\<rparr>"

definition negotiated_session :: ssh_transport_session where
  "negotiated_session = fresh_session\<lparr>ts_exchange_hash := [1, 2], ts_outbound_sequence := 3, ts_negotiation := empty_negotiation\<lparr>
     neg_encryption_algorithm_client_to_server := Some (lit ''aes128-ctr''),
     neg_mac_algorithm_client_to_server := Some (lit ''hmac-sha2-256'')\<rparr>\<rparr>"

lemma deriving_fields [simp]:
  "derive_key (host_kex deriving_host) = Some (\<lambda>alg k h sid letter n. Inr (replicate n (of_char letter)))"
  "srv_crypto deriving_host = srv_crypto pipe_host"
  "ts_session_id negotiated_session = []" "ts_exchange_hash negotiated_session = [1, 2]" "ts_outbound_sequence negotiated_session = 3"
  by (simp_all add: deriving_host_def negotiated_session_def fresh_session_def ssh_transport_session_init_def)

lemma negotiated_session_sizes: "negotiated_packet_sizes (ts_negotiation negotiated_session) = Inr (16, 16, 16, 32, 32)"
  by (simp add: negotiated_packet_sizes_def negotiated_session_def view_algorithm_size_def Let_def)

theorem activated_keys_are_derived_witness:
  "\<exists>t. activate_packet_protection deriving_host True (negotiated_session, ([], [])) = Some (Inr (), t) \<and>
     prot_cipher_iv (ts_outbound (fst t)) = replicate 16 66 \<and> prot_mac_key (ts_outbound (fst t)) = replicate 32 70 \<and>
     prot_sequence (ts_outbound (fst t)) = 3 \<and> ts_session_id (fst t) = [1, 2]"
proof -
  let ?s = "(negotiated_session, ([], []) :: pipe)"
  have "\<exists>t. activate_packet_protection deriving_host True ?s = Some (Inr (), t)"
    by (simp add: activate_packet_protection_def tsP_def modP_def negotiated_session_sizes Let_def derive_material_def
        ssh_packet_protection_set_def packet_limits EMSSH_MAX_EXCHANGE_HASH_def thenP_def bindP_def)
  then obtain t where t: "activate_packet_protection deriving_host True ?s = Some (Inr (), t)"
    by blast
  from activated_keys_are_derived [OF this] show ?thesis
    by (intro exI [of _ t]) (simp add: t key_letters_def directed_def Let_def)
qed

section \<open>Identification lines\<close>

definition strip_eol :: "u8 list \<Rightarrow> u8 list" where
  "strip_eol line = take (if length line \<ge> 2 \<and> line ! (length line - 2) = 13 \<and> line ! (length line - 1) = 10 then length line - 2
     else if length line \<ge> 1 \<and> line ! (length line - 1) = 10 then length line - 1 else length line) line"

text \<open>The grammar of RFC 4253, section 4.2: \<open>SSH-protoversion-softwareversion SP comments\<close>, printable characters only.\<close>

definition identification_parts :: "u8 list \<Rightarrow> u8 list \<Rightarrow> u8 list \<Rightarrow> u8 list \<Rightarrow> bool" where
  "identification_parts raw proto software tail \<longleftrightarrow> raw = lit ''SSH-'' @ proto @ [45] @ software @ tail \<and>
     proto \<noteq> [] \<and> 45 \<notin> set proto \<and> 32 \<notin> set proto \<and> software \<noteq> [] \<and> 32 \<notin> set software \<and> (tail = [] \<or> hd tail = 32) \<and>
     list_all is_ident_char raw \<and> 8 \<le> length raw \<and> length raw \<le> 255"

lemma strip_eol_iff:
  assumes "list_all is_ident_char raw"
  shows "strip_eol line = raw \<longleftrightarrow> line = raw \<or> line = raw @ [10] \<or> line = raw @ [13, 10]"
proof -
  have last: "x \<noteq> 10 \<and> x \<noteq> 13" if "raw = ys @ [x]" for ys x
    using that assms by (auto simp: is_ident_char_def)
  have eqs: "strip_eol [] = []" "strip_eol [x] = (if x = 10 then [] else [x])"
    "strip_eol (ys @ [x, y]) = (if y = 10 then if x = 13 then ys else ys @ [x] else ys @ [x, y])" for ys x y
    by (simp_all add: strip_eol_def nth_append)
  consider "line = []" | x where "line = [x]" | ys x y where "line = ys @ [x, y]"
    by (metis append.assoc append_Cons append_Nil rev_exhaust)
  then show ?thesis
  proof cases
    case (2 x)
    with eqs(2) last [of "[]" x] show ?thesis by (auto simp: append_eq_Cons_conv Cons_eq_append_conv)
  next
    case (3 ys x y)
    with eqs(3) [of ys x y] last [of ys x] last [of "ys @ [x]" y] show ?thesis
      by (auto simp: append_eq_append_conv2 append_eq_Cons_conv Cons_eq_append_conv split: if_splits)
  qed (auto simp: eqs)
qed

text \<open>The parser on the line without its end.\<close>

definition parse_raw :: "u8 list \<Rightarrow> ssh_err + ssh_identification" where
  "parse_raw raw =
    (if length raw < 8 \<or> length raw > EMSSH_MAX_IDENTIFICATION_LINE \<or> \<not> list_all is_ident_char raw \<or> take 4 raw \<noteq> lit ''SSH-''
     then Inl SSH_ERR_MALFORMED_PACKET
     else
       let protocol = takeWhile (\<lambda>c. c \<noteq> 45) (drop 4 raw); rest = dropWhile (\<lambda>c. c \<noteq> 45) (drop 4 raw);
           software = takeWhile (\<lambda>c. c \<noteq> 32) (tl rest); tail = dropWhile (\<lambda>c. c \<noteq> 32) (tl rest)
       in if 32 \<in> set protocol \<or> protocol = [] \<or> rest = [] \<or> software = [] then Inl SSH_ERR_MALFORMED_PACKET
       else Inr \<lparr>id_raw = Some raw, id_protocol_version = Some protocol, id_software_version = Some software,
                id_comments = (if length tail > 1 then Some (tl tail) else None)\<rparr>)"

lemma parse_line_eq: "ssh_identification_parse_line line = parse_raw (strip_eol line)"
proof -
  define n where "n = (if length line \<ge> 2 \<and> line ! (length line - 2) = 13 \<and> line ! (length line - 1) = 10 then length line - 2
     else if length line \<ge> 1 \<and> line ! (length line - 1) = 10 then length line - 1 else length line)"
  define raw where "raw = take n line"
  have "n \<le> length line"
    by (auto simp: n_def)
  then have n: "length raw = n" "4 \<le> n \<Longrightarrow> take 4 line = take 4 raw"
    by (simp_all add: raw_def min_def)
  have raw: "strip_eol line = raw"
    by (simp only: n_def raw_def strip_eol_def)
  define protocol where "protocol = takeWhile (\<lambda>c. c \<noteq> 45) (drop 4 raw)"
  define rest where "rest = dropWhile (\<lambda>c. c \<noteq> 45) (drop 4 raw)"
  define software where "software = takeWhile (\<lambda>c. c \<noteq> 32) (tl rest)"
  define tail where "tail = dropWhile (\<lambda>c. c \<noteq> 32) (tl rest)"
  have parts: "drop 4 raw = protocol @ rest" "tl rest = software @ tail"
    by (simp_all add: protocol_def rest_def software_def tail_def)
  have after: "drop (4 + length protocol + 1) raw = software @ tail"
    using arg_cong [OF parts(1), of "drop (length protocol + 1)"] parts(2) by (simp add: drop_Suc add.commute)
  then have "drop (length software) (drop (4 + length protocol + 1) raw) = tail" by simp
  then have tail: "drop (4 + length protocol + 1 + length software) raw = tail"
    by (simp only: drop_drop add.commute)
  have space: "tail \<noteq> [] \<Longrightarrow> hd tail = 32"
    unfolding tail_def by (metis (mono_tags) hd_dropWhile)
  show ?thesis
  proof (cases "8 \<le> n")
    case True
    let ?k = "4 + length protocol + 1 + length software"
    have len: "n = 4 + length protocol + length rest"
      using arg_cong [OF parts(1), of length] n(1) True by simp
    then have end_rest: "n \<le> 4 + length protocol \<longleftrightarrow> rest = []" by simp
    have sw: "takeWhile (\<lambda>c. c \<noteq> 32) (drop (4 + length protocol + 1) raw) = software"
      unfolding after parts(2) [symmetric] by (simp only: software_def)
    have lt: "length tail = n - ?k"
      using arg_cong [OF tail, of length] n(1) by simp
    have "drop (?k + 1) raw = drop 1 (drop ?k raw)"
      by (simp only: drop_drop add.commute)
    then have tl: "drop (?k + 1) raw = tl tail"
      unfolding tail by (simp add: drop_Suc)
    have lens: "?k < n \<longleftrightarrow> tail \<noteq> []" "?k + 1 < n \<longleftrightarrow> 1 < length tail"
      unfolding length_greater_0_conv [symmetric] lt by arith+
    have "raw ! ?k = 32" if "?k < n"
      using that space lens(1) tail n(1) hd_drop_conv_nth [of ?k raw] by simp
    then have comments: "(let comments_start = (if ?k < n \<and> raw ! ?k = 32 then ?k + 1 else ?k)
        in if comments_start < n then Some (drop comments_start raw) else None) = (if length tail > 1 then Some (tl tail) else None)"
      using tl lens by (auto simp: Let_def)
    show ?thesis
      unfolding ssh_identification_parse_line_def parse_raw_def Let_def n_def [symmetric] raw_def [symmetric] raw
        protocol_def [symmetric] rest_def [symmetric] software_def [symmetric] tail_def [symmetric] is_space_def
        sw comments [unfolded Let_def] n(1) n(2) [OF order_trans [OF _ True], simplified] end_rest
      using True by (auto simp: list_ex_iff)
  next
    case False
    then show ?thesis
      unfolding ssh_identification_parse_line_def parse_raw_def Let_def n_def [symmetric] raw_def [symmetric] raw
      using n(1) by simp
  qed
qed

definition identification_of :: "u8 list \<Rightarrow> u8 list \<Rightarrow> u8 list \<Rightarrow> u8 list \<Rightarrow> ssh_identification" where
  "identification_of raw proto software tail = \<lparr>id_raw = Some raw, id_protocol_version = Some proto, id_software_version = Some software,
     id_comments = (if length tail > 1 then Some (tl tail) else None)\<rparr>"

lemma parts_printable: "identification_parts raw proto software tail \<Longrightarrow> list_all is_ident_char raw"
  unfolding identification_parts_def by blast

lemma split_at:
  assumes "c \<notin> set xs" "ys = [] \<or> hd ys = c"
  shows "takeWhile (\<lambda>x. x \<noteq> c) (xs @ ys) = xs" "dropWhile (\<lambda>x. x \<noteq> c) (xs @ ys) = ys"
  using assms by (induction xs) (cases ys; auto)+

lemma parse_raw_parts: "identification_parts raw proto software tail \<Longrightarrow> parse_raw raw = Inr (identification_of raw proto software tail)"
proof -
  assume parts: "identification_parts raw proto software tail"
  then have raw: "take 4 raw = lit ''SSH-''" "drop 4 raw = proto @ 45 # software @ tail"
    by (simp_all add: identification_parts_def)
  have "takeWhile (\<lambda>c. c \<noteq> 45) (drop 4 raw) = proto" "dropWhile (\<lambda>c. c \<noteq> 45) (drop 4 raw) = 45 # software @ tail"
    using parts unfolding raw(2) by (simp_all add: identification_parts_def split_at)
  moreover have "takeWhile (\<lambda>c. c \<noteq> 32) (software @ tail) = software" "dropWhile (\<lambda>c. c \<noteq> 32) (software @ tail) = tail"
    using parts by (simp_all add: identification_parts_def split_at)
  ultimately show ?thesis
    using parts raw(1) by (auto simp: parse_raw_def identification_parts_def identification_of_def EMSSH_MAX_IDENTIFICATION_LINE_def Let_def)
qed

lemma parse_raw_ok:
  assumes "parse_raw raw = Inr ident"
  obtains proto software tail where "identification_parts raw proto software tail"
proof -
  define protocol where "protocol = takeWhile (\<lambda>c. c \<noteq> 45) (drop 4 raw)"
  define rest where "rest = dropWhile (\<lambda>c. c \<noteq> 45) (drop 4 raw)"
  define software where "software = takeWhile (\<lambda>c. c \<noteq> 32) (tl rest)"
  define tail where "tail = dropWhile (\<lambda>c. c \<noteq> 32) (tl rest)"
  have ok: "8 \<le> length raw" "length raw \<le> 255" "list_all is_ident_char raw" "take 4 raw = lit ''SSH-''"
    "32 \<notin> set protocol" "protocol \<noteq> []" "rest \<noteq> []" "software \<noteq> []"
    using assms unfolding parse_raw_def Let_def protocol_def [symmetric] rest_def [symmetric] software_def [symmetric] tail_def [symmetric]
    by (auto simp: EMSSH_MAX_IDENTIFICATION_LINE_def not_less split: if_splits)
  have "hd rest = 45"
    using ok(7) unfolding rest_def by (metis (mono_tags) hd_dropWhile)
  then have rest: "rest = 45 # software @ tail"
    using ok(7) by (cases rest) (simp_all add: software_def tail_def)
  have "raw = lit ''SSH-'' @ drop 4 raw"
    by (simp only: ok(4) [symmetric] append_take_drop_id)
  also have "drop 4 raw = protocol @ [45] @ software @ tail"
    using rest takeWhile_dropWhile_id [of "\<lambda>c. c \<noteq> 45" "drop 4 raw"] unfolding protocol_def rest_def by simp
  finally have "raw = lit ''SSH-'' @ protocol @ [45] @ software @ tail" .
  moreover have "45 \<notin> set protocol" "32 \<notin> set software"
    unfolding protocol_def software_def by (metis (mono_tags) set_takeWhileD)+
  moreover have "tail = [] \<or> hd tail = 32"
    unfolding tail_def by (metis (mono_tags) hd_dropWhile)
  ultimately show ?thesis
    using ok by (intro that [of protocol software tail]) (simp add: identification_parts_def)
qed

text \<open>The identification parser accepts exactly the lines of RFC 4253: \<open>SSH-\<close>, a protocol version without minus and space, a
  software version without space, optionally a space and comments, all printable, 8 to 255 characters before the line end, which
  may be CR LF, LF or missing; and it returns these parts.\<close>

theorem identification_grammar:
  "ssh_identification_parse_line line = Inr ident \<longleftrightarrow> (\<exists>raw proto software tail.
     (line = raw \<or> line = raw @ [10] \<or> line = raw @ [13, 10]) \<and> identification_parts raw proto software tail \<and>
     ident = identification_of raw proto software tail)"
proof
  assume "ssh_identification_parse_line line = Inr ident"
  then have p: "parse_raw (strip_eol line) = Inr ident"
    by (simp add: parse_line_eq)
  then obtain proto software tail where parts: "identification_parts (strip_eol line) proto software tail"
    by (rule parse_raw_ok)
  then have "line = strip_eol line \<or> line = strip_eol line @ [10] \<or> line = strip_eol line @ [13, 10]"
    using strip_eol_iff [OF parts_printable [OF parts], of line] by simp
  with parse_raw_parts [OF parts] p parts show "\<exists>raw proto software tail.
     (line = raw \<or> line = raw @ [10] \<or> line = raw @ [13, 10]) \<and> identification_parts raw proto software tail \<and>
     ident = identification_of raw proto software tail"
    by (metis sum.inject(2))
next
  assume "\<exists>raw proto software tail. (line = raw \<or> line = raw @ [10] \<or> line = raw @ [13, 10]) \<and>
     identification_parts raw proto software tail \<and> ident = identification_of raw proto software tail"
  then obtain raw proto software tail where *: "line = raw \<or> line = raw @ [10] \<or> line = raw @ [13, 10]"
    "identification_parts raw proto software tail" "ident = identification_of raw proto software tail"
    by blast
  then have "strip_eol line = raw"
    using strip_eol_iff [OF parts_printable [OF *(2)], of line] by blast
  with parse_raw_parts [OF *(2)] *(3) show "ssh_identification_parse_line line = Inr ident"
    by (simp add: parse_line_eq)
qed


section \<open>Channel messages over the link\<close>

lemma link_payload:
  assumes "ssh_transport_receive_protected_payload server cap timeout_ms (ts, w) = Some (Inr pl, (ts1, w1))"
    and "EMSSH_MAX_KEXINIT_PAYLOAD \<le> cap" "pl = i # rest"
      "i \<notin> {SSH_MSG_DISCONNECT, SSH_MSG_KEXINIT, SSH_MSG_IGNORE, SSH_MSG_DEBUG, SSH_MSG_UNIMPLEMENTED}"
  shows "receive_protected_payload_skip_ignorable server cap timeout_ms (ts, w) =
    Some (Inr pl, (ts1\<lparr>ts_last_received_message_id := Some i\<rparr>, w1))"
  using assms
  by (simp add: receive_protected_payload_skip_ignorable_def forP_numeral Let_def bindP_def thenP_def modP_def not_less
      transport_payload_is_disconnect_def transport_payload_is_kexinit_def transport_payload_is_ignorable_def)

fun event_data :: "channel_event \<Rightarrow> u8 list" where
  "event_data (Data channel bs) = view_data bs"
| "event_data _ = []"

lemma event_message_fields [simp]:
  "cm_message_id (event_message e) = event_id e"
  "event_id e = SSH_MSG_CHANNEL_DATA \<Longrightarrow> view_data (cm_data (event_message e)) = event_data e"
  by (cases e; simp add: event_message_def SSH_MSG_CHANNEL_DATA_def SSH_MSG_CHANNEL_WINDOW_ADJUST_def SSH_MSG_CHANNEL_EOF_def
      SSH_MSG_CHANNEL_CLOSE_def SSH_MSG_CHANNEL_REQUEST_def)+

lemmas channel_ids = SSH_MSG_CHANNEL_DATA_def SSH_MSG_CHANNEL_WINDOW_ADJUST_def SSH_MSG_CHANNEL_EOF_def
  SSH_MSG_CHANNEL_CLOSE_def SSH_MSG_CHANNEL_REQUEST_def SSH_MSG_CHANNEL_SUCCESS_def SSH_MSG_CHANNEL_FAILURE_def
  SSH_MSG_REQUEST_SUCCESS_def SSH_MSG_REQUEST_FAILURE_def SSH_MSG_CHANNEL_OPEN_CONFIRMATION_def SSH_MSG_CHANNEL_OPEN_FAILURE_def
  SSH_MSG_CHANNEL_EXTENDED_DATA_def SSH_MSG_GLOBAL_REQUEST_def SSH_MSG_CHANNEL_OPEN_def
  SSH_MSG_DISCONNECT_def SSH_MSG_KEXINIT_def SSH_MSG_IGNORE_def SSH_MSG_DEBUG_def SSH_MSG_UNIMPLEMENTED_def

lemma handle_event:
  assumes "event_valid e"
  shows "handle_message_payload server timeout_ms (event_bytes e) = retP (Inr (event_message e))"
proof -
  let ?m = "event_bytes e"
  obtain b where "ssh_channel_message_decode (ssh_buffer_wrap (Some ?m) (length ?m), empty_channel_message) = (Inr (), (b, event_message e))"
    using assms by (auto simp: readsFD [OF readsF_channel_message])
  moreover have "?m ! 0 = event_id e" "length ?m \<noteq> 0"
    by (simp_all add: event_bytes_def)
  moreover have "event_id e \<notin> {SSH_MSG_CHANNEL_SUCCESS, SSH_MSG_CHANNEL_FAILURE, SSH_MSG_REQUEST_SUCCESS, SSH_MSG_REQUEST_FAILURE,
      SSH_MSG_CHANNEL_OPEN_CONFIRMATION, SSH_MSG_CHANNEL_OPEN_FAILURE, SSH_MSG_CHANNEL_EXTENDED_DATA, SSH_MSG_GLOBAL_REQUEST, SSH_MSG_CHANNEL_OPEN}"
    by (cases e) (simp_all add: channel_ids)
  ultimately show ?thesis
    by (simp add: handle_message_payload_def)
qed

lemma event_transfer:
  assumes "host_net sender = Some pipe_net" "host_rng sender = Some (\<lambda>w. (fill, w))" "fill_works (Some fill)"
    and "host_net receiver = Some pipe_net"
    and "link_ok (ts_outbound ts)" "ts_inbound ts' = ts_outbound ts"
    and "event_valid e" "length (event_bytes e) \<le> EMSSH_MAX_PAYLOAD_SIZE" "length (event_data e) \<le> cap"
  obtains ts1 wire where
    "ssh_transport_send_protected_payload sender (event_bytes e) timeout_ms (ts, w) = Some (Inr (), (ts1, (fst w, snd w @ wire)))"
    "\<And>rest out. \<exists>ts1'. ssh_transport_receive_channel_message receiver cap timeout_ms (ts', (wire @ rest, out)) =
       Some (Inr (event_message e, event_data e), (ts1', (rest, out))) \<and> ts_inbound ts1' = ts_outbound ts1"
proof -
  have "length (event_bytes e) \<le> EMSSH_MAX_CHANNEL_MESSAGE_PAYLOAD"
    using assms(8) by (simp add: transport_limits)
  then obtain ts1 ts1' wire where *:
    "ssh_transport_send_protected_payload sender (event_bytes e) timeout_ms (ts, w) = Some (Inr (), (ts1, (fst w, snd w @ wire)))"
    "\<And>rest out. ssh_transport_receive_protected_payload receiver EMSSH_MAX_CHANNEL_MESSAGE_PAYLOAD timeout_ms (ts', (wire @ rest, out)) =
       Some (Inr (event_bytes e), (ts1', (rest, out)))"
    "ts_inbound ts1' = ts_outbound ts1"
    using link_transfer [OF assms(1-6,8)] by metis
  have "receive_protected_payload_skip_ignorable receiver EMSSH_MAX_CHANNEL_MESSAGE_PAYLOAD timeout_ms (ts', (wire @ rest, out)) =
      Some (Inr (event_bytes e), (ts1'\<lparr>ts_last_received_message_id := Some (event_id e)\<rparr>, (rest, out)))" for rest out
    by (rule link_payload [OF *(2)], simp add: transport_limits, simp add: event_bytes_def) (cases e; simp add: channel_ids)
  then have "forP 16 (\<lambda>_. failP SSH_ERR_UNSUPPORTED) (\<lambda>_.
       bindP (receive_protected_payload_skip_ignorable receiver EMSSH_MAX_CHANNEL_MESSAGE_PAYLOAD timeout_ms)
         (handle_message_payload receiver timeout_ms)) () (ts', (wire @ rest, out)) =
      Some (Inr (event_message e), (ts1'\<lparr>ts_last_received_message_id := Some (event_id e)\<rparr>, (rest, out)))" for rest out
    by (simp add: forP_numeral bindP_def handle_event [OF assms(7)])
  then have "\<exists>ts2. ssh_transport_receive_channel_message receiver cap timeout_ms (ts', (wire @ rest, out)) =
      Some (Inr (event_message e, event_data e), (ts2, (rest, out))) \<and> ts_inbound ts2 = ts_inbound ts1'" for rest out
    using assms(9) unfolding ssh_transport_receive_channel_message_def
    by (subst bindP_def, cases e)
      (simp_all add: thenP_def bindP_def to_state_def modP_def channel_ids event_message_fields event_message_def view_data_def
        split: option.splits)
  with * show thesis by (intro that [of ts1 wire]) simp_all
qed

text \<open>The procedures that send these messages; a subsystem request, which the server only receives, is what the encoder of the
  library writes.\<close>

fun send_event :: "('w, 'z) ssh_host_scheme \<Rightarrow> channel_event \<Rightarrow> u32 \<Rightarrow> ('w tstate, unit) proc" where
  "send_event server (Window_adjust channel bytes_to_add) timeout_ms =
     ssh_transport_send_channel_window_adjust server channel bytes_to_add timeout_ms"
| "send_event server (Data channel bs) timeout_ms = ssh_transport_send_channel_data server channel (view_data bs) timeout_ms"
| "send_event server (Eof channel) timeout_ms = ssh_transport_send_channel_eof server channel timeout_ms"
| "send_event server (Close channel) timeout_ms = ssh_transport_send_channel_close server channel timeout_ms"
| "send_event server (Request channel want_reply k) timeout_ms =
     bindP (valueP (encode_payload EMSSH_MAX_PAYLOAD_SIZE (event_encode (Request channel want_reply k)))) (\<lambda>payload.
       ssh_transport_send_protected_payload server payload timeout_ms)"

lemma send_event_sends:
  assumes "event_valid e" "encodable e" "length (event_bytes e) \<le> EMSSH_MAX_PAYLOAD_SIZE"
    and sent: "ssh_transport_send_protected_payload server (event_bytes e) timeout_ms s = Some (Inr (), (ts1, w1))"
  shows "\<exists>ts2. send_event server e timeout_ms s = Some (Inr (), (ts2, w1)) \<and> ts_outbound ts2 = ts_outbound ts1"
proof -
  have enc: "encode_payload n (event_encode e) = Inr (event_bytes e)" if "length (event_bytes e) \<le> n" for n
    using that by (simp add: encode_payload_writes [OF event_encode_writes [OF assms(1,2)]])
  note [simp] = send_message_def thenP_def bindP_def to_state_def modP_def
  show ?thesis
  proof (cases e)
    case (Data channel bs)
    then have "data_chunks (view_data bs) = [view_data bs]"
      using assms(3) by (subst data_chunks.simps) (simp add: event_bytes_def view_bytes_def string_bytes_def packet_limits)
    moreover have "channel_data_payload channel (view_data bs) = event_bytes e"
      using Data by (simp add: event_bytes_def channel_data_payload_def view_bytes_def string_bytes_def)
    ultimately show ?thesis
      using sent Data by (simp add: ssh_transport_send_channel_data_def send_channel_data_loop_chunks packet_limits)
  next
    case (Window_adjust channel n)
    then show ?thesis
      using sent enc [of 16] assms(1) by (simp add: ssh_transport_send_channel_window_adjust_def ensureP_def event_bytes_def)
  next
    case (Eof channel)
    then show ?thesis
      using sent enc [of 16] by (simp add: ssh_transport_send_channel_eof_def send_channel_simple_def event_bytes_def)
  next
    case (Close channel)
    then show ?thesis
      using sent enc [of 16]
      by (simp add: ssh_transport_send_channel_close_def send_channel_simple_def event_bytes_def channel_ids)
  next
    case (Request channel want_reply k)
    then show ?thesis
      using sent enc [OF assms(3)] by simp
  qed
qed

text \<open>C15. Channel messages cross the link: a window adjustment, data that fits one message, an end-of-file or a close that one
  session sends with its procedure for it, or a subsystem request as its encoder writes it, is what
  \<^verbatim>\<open>ssh_transport_receive_channel_message\<close> of the other returns, with its data, through encoding, encryption, transport, decryption
  and decoding. The assumptions on the callbacks are those of a reliable link: on areas of whole blocks up to the size of a packet,
  encryption succeeds and decryption undoes it block by block, and the MAC has the negotiated length.\<close>

theorem channel_events_cross_the_link:
  assumes "host_net sender = Some pipe_net" "host_rng sender = Some (\<lambda>w. (fill, w))" "fill_works (Some fill)"
    and "host_net receiver = Some pipe_net"
    and "link_ok (ts_outbound ts)" "ts_inbound ts' = ts_outbound ts"
    and "event_valid e" "encodable e" "length (event_bytes e) \<le> EMSSH_MAX_PAYLOAD_SIZE" "length (event_data e) \<le> cap"
  shows "\<exists>ts1 ts1' wire. send_event sender e timeout_ms (ts, w) = Some (Inr (), (ts1, (fst w, snd w @ wire))) \<and>
      ssh_transport_receive_channel_message receiver cap timeout_ms (ts', (wire @ rest, out)) =
        Some (Inr (event_message e, event_data e), (ts1', (rest, out))) \<and>
      ts_inbound ts1' = ts_outbound ts1"
proof (rule event_transfer [OF assms(1-7,9,10), where timeout_ms = timeout_ms and w = w])
  fix ts1 wire
  assume sent: "ssh_transport_send_protected_payload sender (event_bytes e) timeout_ms (ts, w) = Some (Inr (), (ts1, (fst w, snd w @ wire)))"
    and "\<And>rest out. \<exists>ts1'. ssh_transport_receive_channel_message receiver cap timeout_ms (ts', (wire @ rest, out)) =
       Some (Inr (event_message e, event_data e), (ts1', (rest, out))) \<and> ts_inbound ts1' = ts_outbound ts1"
  with send_event_sends [OF assms(7-9) sent] show ?thesis by metis
qed

theorem channel_events_cross_the_link_witness:
  "\<exists>ts1 ts1' wire. ssh_transport_send_channel_data pipe_host 2 [8, 9] 0 (keyed_session, ([], [])) =
      Some (Inr (), (ts1, ([], wire))) \<and>
    ssh_transport_receive_channel_message pipe_host 512 0 (keyed_session, (wire @ [5], [])) =
      Some (Inr (event_message (Data 2 (Some [8, 9])), [8, 9]), (ts1', ([5], []))) \<and>
    ts_inbound ts1' = ts_outbound ts1"
  using channel_events_cross_the_link [of pipe_host "\<lambda>n. Inr (replicate n 0)" pipe_host keyed_session keyed_session "Data 2 (Some [8, 9])" 512 0
      "([], [])" "[5]" "[]"]
  by (simp add: sample_link_ok fill_works_def event_bytes_def view_bytes_def string_valid_def UINT32_MAX_def packet_limits)

section \<open>Timeouts inside a packet\<close>

text \<open>A network that delivers given pieces; an empty piece is a timeout.\<close>

definition piece_net :: "u8 list list ssh_net_api" where
  "piece_net = \<lparr>
     net_read = Some (\<lambda>n timeout_ms w. case w of [] \<Rightarrow> (Inl 0, [])
       | bs # w' \<Rightarrow> if bs = [] then (Inl EMSSH_NET_IO_TIMEOUT, w')
           else (Inr (take n bs), if length bs \<le> n then w' else drop n bs # w')),
     net_write = Some (\<lambda>bs timeout_ms w. (int (length bs), w))\<rparr>"

lemma net_read_piece:
  assumes "host_net server = Some piece_net" "0 < n"
  shows "length bs = n \<Longrightarrow> net_read_exact server n timeout_ms (ts, bs # w) = Some (Inr bs, (ts, w))"
    and "n < length bs \<Longrightarrow> net_read_exact server n timeout_ms (ts, bs # w) = Some (Inr (take n bs), (ts, drop n bs # w))"
    and "net_read_exact server n timeout_ms (ts, [] # w) = Some (Inl SSH_ERR_NOT_FOUND, (ts, w))"
    and "bs \<noteq> [] \<Longrightarrow> length (bs @ cs) = n \<Longrightarrow> cs \<noteq> [] \<Longrightarrow>
      net_read_exact server n timeout_ms (ts, bs # [] # cs # w) = Some (Inr (bs @ cs), (ts, w))"
    and "bs \<noteq> [] \<Longrightarrow> length bs < n \<Longrightarrow> n < length (bs @ cs) \<Longrightarrow>
      net_read_exact server n timeout_ms (ts, bs # [] # cs # w) =
        Some (Inr (bs @ take (n - length bs) cs), (ts, drop (n - length bs) cs # w))"
  using assms
  by (auto simp: net_read_exact_def piece_net_def loopP_unfold [of _ "[]"] loopP_unfold [of _ bs] loopP_unfold [of _ "take _ _"]
      loopP_unfold [of _ "_ @ _"] callP_def onP_def net_read_step_def bindP_def EMSSH_NET_IO_TIMEOUT_def)

text \<open>C38. A timeout loses a packet at exactly one point. Take any session, any payload that its peer encodes with the same keys (under
  the assumptions of a reliable link) and any point inside the packet, and let the packet arrive in two pieces, cut at this point,
  with a timeout between them. At every point but one the timeout is waited out and the payload is delivered. But when the first
  piece is just the first block of the packet, receiving ends with \<^verbatim>\<open>SSH_ERR_NOT_FOUND\<close>, which the callers take for an idle
  connection, and the first block is gone while the session still expects the whole packet: what follows is taken for the
  start of the next one.\<close>

theorem interrupted_packet_is_lost:
  assumes "host_net server = Some piece_net" "link_ok (ts_inbound ts)" "fill_ok rng"
    and "ssh_packet_encode_protected packet_storage (length packet_storage) payload rng (ts_inbound ts) = (Inr n, packet, p')"
    and "length payload \<le> cap" "0 < k" "k < n"
  shows "let wire = take n packet; b = prot_block_size (ts_inbound ts);
       received = ssh_transport_receive_protected_payload server cap timeout_ms (ts, [take k wire, [], drop k wire])
     in if k = b then received = Some (Inl SSH_ERR_NOT_FOUND, (ts, [drop b wire]))
        else \<exists>ts'. received = Some (Inr payload, (ts', [])) \<and> ts_inbound ts' = p'"
proof -
  let ?p = "ts_inbound ts" and ?b = "prot_block_size (ts_inbound ts)"
  from encoded_packet [OF assms(2,3,4)] obtain ct mac padding packet' where *:
    "take n packet = ct @ mac" "length mac = prot_mac_len ?p" "n = length ct + length mac"
    "?b \<le> length ct" "length ct mod ?b = 0" "length ct \<le> EMSSH_MAX_PACKET_SIZE + 4"
    "ssh_packet_decode_protected (ct @ mac) (length ct + length mac) ?p = (Inr payload, packet', p')"
    "protection_crypt ?p (prot_cipher_iv ?p) SSH_CIPHER_DECRYPT (take ?b ct) = (Inr (), take ?b (plain_packet payload padding))"
    "length ct = length (plain_packet payload padding)"
    by metis
  define wire where "wire = ct @ mac"
  let ?m = "length ct - ?b + prot_mac_len ?p"
  have p: "prot_active ?p" "8 \<le> ?b" "?b \<le> EMSSH_MAX_CIPHER_IV" "0 < ?b" "0 < ?m"
    using assms(2) by (auto simp: link_ok_def protection_wf_def)
  have len: "?b < n" "take ?b wire = take ?b ct" "drop ?b wire = drop ?b ct @ mac" "length wire = n" "n - ?b = ?m" "take n packet = wire"
    using * p by (simp_all add: wire_def)
  note reads = receive_protected_reads [OF refl p(1-3) *(2,4-6,9,8), where server = server and timeout_ms = timeout_ms and cap = cap
      and w = "[take k wire, [], drop k wire]"]
  note block = net_read_piece [OF assms(1) p(4), where timeout_ms = timeout_ms and ts = ts]
  note rest = net_read_piece [OF assms(1) p(5), where timeout_ms = timeout_ms and ts = ts]
  consider "k < ?b" | "k = ?b" | "?b < k" by linarith
  then show ?thesis
  proof cases
    case 1
    have cut: "take k wire @ take (?b - k) (drop k wire) = take ?b ct" "drop (?b - k) (drop k wire) = drop ?b wire"
      using 1 len(2) take_add [of k "?b - k" wire] by simp_all
    have "net_read_exact server ?b timeout_ms (ts, [take k wire, [], drop k wire]) = Some (Inr (take ?b ct), (ts, [drop ?b wire]))"
      using block(5) [of "take k wire" "drop k wire" "[]"] cut 1 len(1,4) assms(6) by (cases wire) (auto simp: min_def)
    moreover have "net_read_exact server ?m timeout_ms (ts, [drop ?b wire]) = Some (Inr (drop ?b ct @ mac), (ts, []))"
      using rest(1) [of "drop ?b wire" "[]"] len(3-5) *(2) by simp
    ultimately show ?thesis
      using reads(1) [OF _ _ *(7) assms(5)] 1 by (simp add: Let_def len(6))
  next
    case 2
    then have "net_read_exact server ?b timeout_ms (ts, [take k wire, [], drop k wire]) =
        Some (Inr (take ?b ct), (ts, [[], drop ?b wire]))"
      using block(1) [of "take ?b wire" "[[], drop ?b wire]"] len *(4) by (simp add: min_def)
    from reads(2) [OF this rest(3)] 2 show ?thesis
      by (simp add: Let_def len(6))
  next
    case 3
    have cut: "take ?b (take k wire) = take ?b ct" "drop ?b (take k wire) @ drop k wire = drop ?b ct @ mac"
      using 3 len(2,3,4) assms(7) drop_append [of ?b "take k wire" "drop k wire"] by simp_all
    have "net_read_exact server ?b timeout_ms (ts, [take k wire, [], drop k wire]) =
        Some (Inr (take ?b ct), (ts, [drop ?b (take k wire), [], drop k wire]))"
      using block(2) [of "take k wire" "[[], drop k wire]"] 3 assms(7) len(4) cut(1) by simp
    moreover have "net_read_exact server ?m timeout_ms (ts, [drop ?b (take k wire), [], drop k wire]) =
        Some (Inr (drop ?b ct @ mac), (ts, []))"
      using rest(4) [of "drop ?b (take k wire)" "drop k wire" "[]"] 3 assms(7) len(4,5) *(2) unfolding cut(2) by simp
    ultimately show ?thesis
      using reads(1) [OF _ _ *(7) assms(5)] 3 by (simp add: Let_def len(6))
  qed
qed

definition piece_host :: "u8 list list ssh_host" where
  "piece_host = ssh_server.extend
     (sample_server\<lparr>srv_crypto := Some \<lparr>cipher_crypt = Some xor_cipher, mac_compute = Some sum_mac, publickey_verify = None\<rparr>\<rparr>)
     \<lparr>host_initialized = True, host_net = Some piece_net, host_rng = None,
      host_kex = \<lparr>kex_generate_keypair = None, kex_compute_shared_secret = None, hostkey_public = None, hash_exchange = None,
        hostkey_sign = None, derive_key = None, kexinit_defaults = None\<rparr>,
      host_backend_algorithms = None\<rparr>"

theorem interrupted_packet_is_lost_witness:
  "\<exists>wire t. 16 < length wire \<and>
     ssh_transport_receive_protected_payload piece_host 512 0 (keyed_session, [take 5 wire, [], drop 5 wire]) = Some (Inr [94, 1], t) \<and>
     ssh_transport_receive_protected_payload piece_host 512 0 (keyed_session, [take 16 wire, [], drop 16 wire]) =
       Some (Inl SSH_ERR_NOT_FOUND, (keyed_session, [drop 16 wire]))"
proof -
  have fill: "fill_works None" by (simp add: fill_works_def)
  have net: "host_net piece_host = Some piece_net" by (simp add: piece_host_def ssh_server.extend_def)
  have link: "link_ok (ts_inbound keyed_session)" by (simp add: sample_link_ok)
  obtain n packet p' where enc: "ssh_packet_encode_protected packet_storage (length packet_storage) [94, 1 :: u8] None
      (ts_inbound keyed_session) = (Inr n, packet, p')"
    by (rule packet_encodes [OF link fill, of "[94, 1]"]) (simp_all add: packet_limits)
  note fill' = fill_works_ok [OF fill]
  have wire: "16 < length (take n packet)" "16 < n"
    by (rule encoded_packet [OF link fill' enc]; simp add: sample_protection_ok)+
  note lost = interrupted_packet_is_lost [OF net link fill' enc, where cap = 512 and timeout_ms = 0]
  have "\<exists>ts'. ssh_transport_receive_protected_payload piece_host 512 0 (keyed_session, [take 5 (take n packet), [], drop 5 (take n packet)]) =
      Some (Inr [94, 1], (ts', []))"
    using lost [of 5] wire(2) unfolding Let_def keyed_session_fields sample_protection_ok by auto
  moreover have "ssh_transport_receive_protected_payload piece_host 512 0
      (keyed_session, [take 16 (take n packet), [], drop 16 (take n packet)]) =
      Some (Inl SSH_ERR_NOT_FOUND, (keyed_session, [drop 16 (take n packet)]))"
    using lost [of 16] wire(2) unfolding Let_def keyed_session_fields sample_protection_ok by auto
  ultimately show ?thesis
    using wire(1) by blast
qed

end
