(* ===== verification/Ssh_Session_Props.thy ===== *)
theory Ssh_Session_Props
  imports Ssh_Session_Laws Ssh_Transport_Props
begin

text \<open>
  What a whole session of \<^verbatim>\<open>src/core/ssh_server.c\<close> guarantees: the set-up ends with both directions encrypted, authentication
  ends with the name of a request that was verified for this session, and files and terminals are reached for such a user only.
\<close>

section \<open>Verified users\<close>

text \<open>\<open>granted server sid name\<close>: the server accepts some authentication request for the session \<open>sid\<close>, and \<open>name\<close> is its user.\<close>

definition granted :: "('w, 'z) ssh_host_scheme \<Rightarrow> u8 list \<Rightarrow> u8 list \<Rightarrow> bool" where
  "granted server sid name \<longleftrightarrow> (\<exists>request.
     ssh_userauth_evaluate_request (host_backend_algorithms server) (ssh_server.truncate server) request (Some sid) =
       Inr SSH_USERAUTH_DECISION_SUCCESS \<and>
     view_to_cstring (ua_username request) EMSSH_MAX_USERAUTH_PAYLOAD = Inr name)"

definition granted_session :: "('w, 'z) ssh_host_scheme \<Rightarrow> ssh_transport_session \<Rightarrow> bool" where
  "granted_session server ts \<longleftrightarrow> ts_session_id ts \<noteq> [] \<and> granted server (ts_session_id ts) (ts_authenticated_username ts)"

definition verified_user :: "('w, 'z) ssh_host_scheme \<Rightarrow> cstr \<Rightarrow> bool" where
  "verified_user server user \<longleftrightarrow> (\<exists>sid name. granted server sid name \<and> user = (if name = [] then None else Some (cstring_of name)))"

lemma granted_spawn_user: "granted_session server ts \<Longrightarrow> verified_user server (spawn_user ts)"
  by (auto simp: granted_session_def verified_user_def spawn_user_def)

interpretation granted_inv: session_invariant "granted_session host" for host
  by unfold_locales (auto simp: granted_session_def session_core_def)

section \<open>Predicates on worlds\<close>

definition transport_keeps :: "('w, 'z) ssh_host_scheme \<Rightarrow> ('w \<Rightarrow> bool) \<Rightarrow> bool" where
  "transport_keeps server W \<longleftrightarrow>
     (\<forall>net f n t. host_net server = Some net \<longrightarrow> net_read net = Some f \<longrightarrow> call_keeps W (f n t)) \<and>
     (\<forall>net f bs t. host_net server = Some net \<longrightarrow> net_write net = Some f \<longrightarrow> call_keeps W (f bs t)) \<and>
     (\<forall>g. host_rng server = Some g \<longrightarrow> call_keeps W g) \<and>
     (\<forall>f a. kex_generate_keypair (host_kex server) = Some f \<longrightarrow> call_keeps W (f a)) \<and>
     (\<forall>f a h. hostkey_sign (host_kex server) = Some f \<longrightarrow> call_keeps W (f a h))"

lemma call_keeps_imp: "(H \<Longrightarrow> call_keeps W m) \<Longrightarrow> call_keeps (\<lambda>w. H \<longrightarrow> W w) m"
  by (simp add: call_keeps_def)

lemma transport_keeps_imp: "(H \<Longrightarrow> transport_keeps server W) \<Longrightarrow> transport_keeps server (\<lambda>w. H \<longrightarrow> W w)"
  by (simp add: transport_keeps_def call_keeps_def)

text \<open>Invariants of the world and of the session combine to a contract of the transport.\<close>

lemma product_contract:
  assumes J: "session_invariant J" and V: "transport_keeps server V"
  shows "session_contract True server (\<lambda>s. V (snd s) \<and> J (fst s))"
proof unfold_locales
  show "keeps True (\<lambda>s. (V (snd s) \<and> J (fst s)) \<and> fst s = ts) (net_read_exact server len timeout_ms) (\<lambda>_. True)" for ts len timeout_ms
    by (rule keeps_mono, rule keeps_net_read) (use V in \<open>auto simp: transport_keeps_def call_keeps_def\<close>)
  show "keeps True (\<lambda>s. V (snd s) \<and> J (fst s)) (net_write_all server buf timeout_ms) (\<lambda>_. True)" for buf timeout_ms
    by (rule keeps_net_write) (use V in \<open>auto simp: transport_keeps_def call_keeps_def\<close>)
qed (use V in \<open>auto simp: transport_keeps_def call_keeps_def
    intro: session_invariant.core_only [OF J] session_invariant.sent [OF J] session_invariant.received [OF J]
      session_invariant.first_id [OF J] session_invariant.new_outbound [OF J] session_invariant.new_inbound [OF J]
      session_invariant.client_key [OF J] session_invariant.request_stored [OF J]
    dest: session_invariant.stored [OF J] encode_same_protection decode_same_protection\<close>)

text \<open>A world that the network, the random numbers and the host key keep, before authentication: only those are used.\<close>

interpretation before_auth: session_contract True server "\<lambda>s. (transport_keeps server W \<longrightarrow> W (snd s)) \<and> session_fixed sid inb outb (fst s)"
  by (rule product_contract [OF fixed_session.session_invariant_axioms transport_keeps_imp])

interpretation before_setup: world_contract True server "\<lambda>w. transport_keeps server W \<longrightarrow> W w"
  using before_auth.session_contract_axioms [of server W "[]" False False]
  by (simp add: world_contract_def session_fixed_def)

text \<open>A world that the callbacks after authentication keep, too, when they work for a verified user.\<close>

definition confines :: "('w, 'z) ssh_session_host_scheme \<Rightarrow> 'w ssh_server_session_options \<Rightarrow> ('w \<Rightarrow> bool) \<Rightarrow> bool" where
  "confines server effective W \<longleftrightarrow> transport_keeps server W \<and>
     (\<forall>user. verified_user server user \<longrightarrow>
       (\<forall>fs. host_fs server = Some fs \<longrightarrow> fs_keeps W fs) \<and>
       (\<forall>term. host_term server = Some term \<longrightarrow> term_keeps W user term) \<and>
       policy_keeps W (opt_sftp_policy effective) \<and>
       (\<forall>f request. opt_non_sftp_channel_request_policy effective = Some f \<longrightarrow> call_keeps W (f request)) \<and>
       (\<forall>log line w. host_log server = Some log \<longrightarrow> W w \<longrightarrow> W (log line w)))"

lemma keeps_under:
  "(H \<Longrightarrow> G \<Longrightarrow> call_keeps W m) \<Longrightarrow> call_keeps (\<lambda>w. (H \<longrightarrow> W w) \<and> G) m"
  "(H \<Longrightarrow> G \<Longrightarrow> fs_keeps W fs) \<Longrightarrow> fs_keeps (\<lambda>w. (H \<longrightarrow> W w) \<and> G) fs"
  "(H \<Longrightarrow> G \<Longrightarrow> policy_keeps W policy) \<Longrightarrow> policy_keeps (\<lambda>w. (H \<longrightarrow> W w) \<and> G) policy"
  "(H \<Longrightarrow> G \<Longrightarrow> term_keeps W user api) \<Longrightarrow> term_keeps (\<lambda>w. (H \<longrightarrow> W w) \<and> G) user api"
  by (cases H; cases G; simp add: call_keeps_def fs_keeps_def policy_keeps_def term_keeps_def)+

interpretation after_auth: session_services True server
  "\<lambda>s. (confines server effective W \<longrightarrow> W (snd s)) \<and> granted_session server (fst s)" effective
proof (intro session_services.intro session_services_axioms.intro product_contract granted_inv.session_invariant_axioms
    transport_keeps_imp, unfold fst_conv snd_conv)
  show "confines server effective W \<Longrightarrow> transport_keeps server W"
    by (simp add: confines_def)
  note keep = keeps_under [where H = "confines server effective W" and G = "granted_session server ts" for ts]
  show "fs_keeps (\<lambda>w. (confines server effective W \<longrightarrow> W w) \<and> granted_session server ts) fs" if "host_fs server = Some fs" for fs ts
    using that by (intro keep) (auto simp: confines_def dest!: granted_spawn_user)
  show "term_keeps (\<lambda>w. (confines server effective W \<longrightarrow> W w) \<and> granted_session server ts) (spawn_user ts) api"
    if "host_term server = Some api" for api ts
    using that by (intro keep) (auto simp: confines_def dest!: granted_spawn_user)
qed (auto simp: confines_def intro!: keeps_under dest!: granted_spawn_user)


section \<open>The handshake\<close>

lemma wp_any: "wp True m (\<lambda>_ _. True) (\<lambda>_ _. True) s"
  by (simp add: wp_def split: option.splits prod.splits sum.splits)

lemma wp_then_any: "(\<And>t. wp True n (\<lambda>_ _. True) Q t) \<Longrightarrow> wp True (thenP m n) (\<lambda>_ _. True) Q s"
  by (rule wp_thenP, rule wpP_mono [OF wp_any]) simp_all

lemma wp_activate:
  "wp True (activate_packet_protection server outbound) (\<lambda>_ _. True)
     (\<lambda>_ t. prot_active (if outbound then ts_outbound (fst t) else ts_inbound (fst t)) \<and> ts_session_id (fst t) \<noteq> []) s"
  unfolding activate_packet_protection_def Let_def
  by (intro wpP_intros) (auto dest: protection_set_changes simp: reset_rekey_direction_def update_rekey_needed_def)


lemma newkeys_active:
  "wp True (ssh_transport_send_newkeys server timeout_ms) (\<lambda>_ _. True)
     (\<lambda>_ t. prot_active (ts_outbound (fst t)) \<and> ts_session_id (fst t) \<noteq> []) s"
  "wp True (ssh_transport_receive_newkeys server timeout_ms) (\<lambda>_ _. True)
     (\<lambda>_ t. prot_active (ts_inbound (fst t)) \<and> ts_session_id (fst t) \<noteq> []) s"
proof -
  have "wp True (activate_packet_protection server outbound) (\<lambda>_ _. True) (\<lambda>_. wp True (to_state st) (\<lambda>_ _. True)
     (\<lambda>_ t. prot_active (if outbound then ts_outbound (fst t) else ts_inbound (fst t)) \<and> ts_session_id (fst t) \<noteq> [])) s" for outbound st s
    by (rule wpP_mono [OF wp_activate]) (auto intro!: wp_to_state)
  note * = this [of True, simplified] this [of False, simplified]
  show "wp True (ssh_transport_send_newkeys server timeout_ms) (\<lambda>_ _. True)
     (\<lambda>_ t. prot_active (ts_outbound (fst t)) \<and> ts_session_id (fst t) \<noteq> []) s"
    unfolding ssh_transport_send_newkeys_def
    by (intro wp_bindP wp_then_any wp_thenP wpP_mono [OF wp_any] wp_valueP *; (intro wpP_intros)?) simp_all
  show "wp True (ssh_transport_receive_newkeys server timeout_ms) (\<lambda>_ _. True)
     (\<lambda>_ t. prot_active (ts_inbound (fst t)) \<and> ts_session_id (fst t) \<noteq> []) s"
    unfolding ssh_transport_receive_newkeys_def
    by (intro wp_bindP wp_then_any wp_thenP wpP_mono [OF wp_any] wp_valueP *; (intro wpP_intros)?) simp_all
qed


lemma keeps_conj: "keeps True I m P \<Longrightarrow> keeps True J m Q \<Longrightarrow> keeps True (\<lambda>s. I s \<and> J s) m (\<lambda>x. P x \<and> Q x)"
  by (fastforce simp: keeps_def wp_def split: option.splits prod.splits sum.splits)

lemma handshake_active:
  "wp True (transport_handshake server packets bytes timeout_ms) (\<lambda>_ _. True)
     (\<lambda>_ t. session_fixed [] True True (fst t) \<and> ts_session_id (fst t) \<noteq> []) s"
proof -
  have last: "wp True (ssh_transport_receive_newkeys server timeout_ms) (\<lambda>_ _. True)
      (\<lambda>_ t. session_fixed [] True True (fst t) \<and> ts_session_id (fst t) \<noteq> []) t"
    if "session_fixed [] False True (fst t)" for t
    using wpP_conj [OF newkeys_active(2) keepsD [OF fixed_session.run.receive_newkeys that], of server timeout_ms]
    by (rule wpP_mono) (auto simp: session_fixed_def)
  have rest: "wp True (thenP (ssh_transport_send_ext_info server timeout_ms) (ssh_transport_receive_newkeys server timeout_ms)) (\<lambda>_ _. True)
      (\<lambda>_ t. session_fixed [] True True (fst t) \<and> ts_session_id (fst t) \<noteq> []) t"
    if "session_fixed [] False True (fst t)" for t
    by (rule wp_thenP, rule wp_keeps [OF fixed_session.run.send_ext_info]) (auto intro: that last)
  have keys: "wp True (thenP (ssh_transport_send_newkeys server timeout_ms)
        (thenP (ssh_transport_send_ext_info server timeout_ms) (ssh_transport_receive_newkeys server timeout_ms))) (\<lambda>_ _. True)
      (\<lambda>_ t. session_fixed [] True True (fst t) \<and> ts_session_id (fst t) \<noteq> []) t" for t
    by (rule wp_thenP, rule wpP_mono [OF newkeys_active(1)]) (rule TrueI, rule rest, simp add: session_fixed_def)
  show ?thesis
    unfolding transport_handshake_def
    by (rule wp_then_any, rule wp_then_any, rule wp_then_any, rule wp_then_any, rule wp_then_any, rule wp_then_any,
        rule wp_then_any, rule keys)
qed

lemma session_init_ok:
  assumes "ssh_transport_session_init server algorithms = Inr ts"
  shows "transport_session_wf ts" "server_keys server ts"
  using assms
  by (auto simp: ssh_transport_session_init_def transport_session_wf_def server_keys_def ssh_packet_protection_init_def
      protection_wf_def packet_limits split: if_splits)

lemma wp_setup:
  "wp True (ssh_server_run_transport_setup server options) (\<lambda>_ _. True)
     (\<lambda>_ t. session_fixed [] True True (fst t) \<and> ts_session_id (fst t) \<noteq> [] \<and>
       transport_session_wf (fst t) \<and> server_keys server (fst t)) s"
proof -
  have handshake: "wp True (transport_handshake server packets bytes timeout_ms) (\<lambda>_ _. True)
     (\<lambda>_ t. session_fixed [] True True (fst t) \<and> ts_session_id (fst t) \<noteq> [] \<and>
       transport_session_wf (fst t) \<and> server_keys server (fst t)) t"
    if "transport_session_wf (fst t)" "server_keys server (fst t)" for packets bytes timeout_ms t
    by (rule wpP_mono [OF wpP_conj [OF handshake_active wpP_conj [OF keepsD [OF wf_session.run.handshake that(1)]
          keepsD [OF keys_of_server.handshake that(2)]]]]) simp_all
  show ?thesis
    unfolding ssh_server_run_transport_setup_def Let_def
    by (intro wpP_intros handshake) (auto dest: session_init_ok)
qed

section \<open>Authentication\<close>

lemma wp_userauth_try:
  assumes s: "(transport_keeps server W \<longrightarrow> W (snd s)) \<and> session_fixed sid True True (fst s)" and sid: "sid \<noteq> []"
  shows "wp True (userauth_try server timeout_ms tries) (\<lambda>_ t. transport_keeps server W \<longrightarrow> W (snd t))
    (\<lambda>r t. (transport_keeps server W \<longrightarrow> W (snd t)) \<and> session_fixed sid True True (fst t) \<and>
       (case r of Inl _ \<Rightarrow> True | Inr _ \<Rightarrow> granted_session server (fst t))) s"
proof -
  let ?V = "\<lambda>s. (transport_keeps server W \<longrightarrow> W (snd s)) \<and> session_fixed sid True True (fst s)"
  note accept = keeps_conj [OF before_auth.services(5) [where W = W and sid = sid and inb = True and outb = True]
      granted_inv.run.services(5) [of server]]
  have ok: "granted_session server ((fst t)\<lparr>ts_authenticated_username := name\<rparr>)"
    if "?V t" "ssh_userauth_evaluate_request (host_backend_algorithms server) (ssh_server.truncate server) request
         (Some (ts_session_id (fst t))) = Inr SSH_USERAUTH_DECISION_SUCCESS"
       "view_to_cstring (ua_username request) EMSSH_MAX_USERAUTH_PAYLOAD = Inr name" for t request name
    using that sid by (auto simp: granted_session_def granted_def session_fixed_def)
  show ?thesis
    unfolding userauth_try_def
    by (intro wpP_if wp_bindP wp_tsP wp_valueP wp_thenP wp_failP wp_retP wp_modP wp_keeps [OF accept]
        wp_keeps [OF before_auth.services(3) [where W = W and sid = sid and inb = True and outb = True]]
        wp_keeps [OF before_auth.services(4) [where W = W and sid = sid and inb = True and outb = True]]
        wp_keeps [OF before_auth.services(6) [where W = W and sid = sid and inb = True and outb = True]])
      (use s in \<open>auto intro: ok simp: session_fixed_def\<close>)
qed


lemma wp_userauth:
  assumes s: "(transport_keeps server W \<longrightarrow> W (snd s)) \<and> session_fixed sid True True (fst s)" and sid: "sid \<noteq> []"
  shows "wp True (ssh_server_run_userauth server options) (\<lambda>_ t. transport_keeps server W \<longrightarrow> W (snd t))
    (\<lambda>_ t. (transport_keeps server W \<longrightarrow> W (snd t)) \<and> session_fixed sid True True (fst t) \<and> granted_session server (fst t)) s"
proof -
  let ?G = "\<lambda>s. (transport_keeps server W \<longrightarrow> W (snd s)) \<and> session_fixed sid True True (fst s)"
  have loop: "wp True (loopP (userauth_try server timeout_ms) n) (\<lambda>_ t. transport_keeps server W \<longrightarrow> W (snd t))
      (\<lambda>_ t. ?G t \<and> granted_session server (fst t)) t" if "?G t" for timeout_ms n t
    using that by (intro wp_loopP [where I = "\<lambda>_. ?G"] wpP_mono [OF wp_userauth_try [OF _ sid]]) (auto split: sum.splits)
  note step = wp_keeps [OF before_auth.services(1) [where W = W and sid = sid and inb = True and outb = True]]
    wp_keeps [OF before_auth.services(2) [where W = W and sid = sid and inb = True and outb = True]]
  show ?thesis
    unfolding ssh_server_run_userauth_def Let_def
    by (intro wp_thenP wp_modP wp_bindP wp_ensureP step wpP_mono [OF loop]) (use s in \<open>auto simp: session_fixed_def\<close>)
qed

text \<open>Set-up and authentication before the work on a channel.\<close>

lemma wp_login:
  assumes W: "transport_keeps server W" "W w"
    and fails: "\<And>e t. W (snd t) \<Longrightarrow> E e (c, t)"
    and work: "\<And>t. W (snd t) \<Longrightarrow> granted_session server (fst t) \<Longrightarrow> wp True m E Q (c, t)"
  shows "wp True (thenP (onP (ssh_server_run_transport_setup server options)) (thenP (onP (ssh_server_run_userauth server options')) m))
    E Q (c, ts, w)"
proof -
  have started: "wp True (ssh_server_run_transport_setup server options) (\<lambda>_ t. W (snd t))
     (\<lambda>_ t. W (snd t) \<and> session_fixed [] True True (fst t) \<and> ts_session_id (fst t) \<noteq> []) (ts, w)"
    using wpP_conj [OF wp_setup [of server options "(ts, w)"] keepsD [OF before_setup.transport_setup [of server W options], of "(ts, w)"]] W
    by (auto elim: wpP_mono)
  have auth: "wp True (ssh_server_run_userauth server options') (\<lambda>_ t. W (snd t))
     (\<lambda>_ t. W (snd t) \<and> granted_session server (fst t)) t"
    if "W (snd t)" "session_fixed [] True True (fst t)" "ts_session_id (fst t) \<noteq> []" for t
    by (rule wpP_mono [OF wp_userauth [of server W t "ts_session_id (fst t)" options']])
      (use W(1) that in \<open>auto simp: session_fixed_def\<close>)
  have rest: "wp True (thenP (onP (ssh_server_run_userauth server options')) m) E Q (c, t)"
    if "W (snd t) \<and> session_fixed [] True True (fst t) \<and> ts_session_id (fst t) \<noteq> []" for t
    by (rule wp_thenP, rule wp_onP, unfold fst_conv snd_conv, rule wpP_mono [OF auth]) (use that in \<open>auto intro: fails work\<close>)
  show ?thesis
    by (rule wp_thenP, rule wp_onP, unfold fst_conv snd_conv, rule wpP_mono [OF started]) (auto intro: fails rest)
qed

section \<open>Whole sessions\<close>

lemma wp_localsP [wpP_intros]:
  "wp N m (\<lambda>e t. E e (fst t, snd (snd (snd t)))) (\<lambda>x t. Q x (fst t, snd (snd (snd t)))) (fst s, (c, (transport, snd s))) \<Longrightarrow>
   wp N (localsP c transport m) E Q s"
  by (auto simp: wp_def localsP_def split: option.splits prod.splits sum.splits)

lemma wp_diagP [wpP_intros]: "Q () (update_server_diag_from_transport (fst (snd (snd s))), snd s) \<Longrightarrow> wp N diagP E Q s"
  unfolding diagP_def by (rule wp_setP)

lemma wp_statusP: "(\<And>e. status = Some e \<Longrightarrow> E e s) \<Longrightarrow> (status = None \<Longrightarrow> Q () s) \<Longrightarrow> wp N (statusP status) E Q s"
  unfolding statusP_def by (intro wpP_intros)

text \<open>The loop of a session keeps what its turns keep.\<close>

lemma wp_serve_channel:
  assumes process: "keeps True I process (\<lambda>_. True)" and deinit: "\<And>t. I t \<Longrightarrow> wp True deinit (\<lambda>_. J) (\<lambda>_. J) t"
    and start: "I (snd s)"
  shows "wp True (serve_channel n process deinit) (\<lambda>_ t. J (snd t)) (\<lambda>_ t. J (snd t)) s"
proof -
  have turn: "wp True (channel_turn n process x) (\<lambda>_ _. False) (\<lambda>_. I) t" if "I t" for x t
    unfolding channel_turn_def
    by (intro wpP_if wp_tryP wp_retP wpP_mono [OF keepsD [OF process]]) (use that in auto)
  have loop: "wp True (loopP (channel_turn n process) 0) (\<lambda>_ _. False) (\<lambda>_. I) t" if "I t" for t
    using that by (intro wp_loopP [where I = "\<lambda>_. I"] wpP_mono [OF turn]) (auto split: sum.splits)
  show ?thesis
    unfolding serve_channel_def
    by (intro wp_bindP wp_onP wpP_mono [OF loop [OF start]] wpP_prod wp_thenP wp_diagP wpP_if wp_retP wp_statusP
        wpP_mono [OF deinit]) auto
qed


lemma idle_deinit:
  "\<not> sch_initialized (fst s) \<Longrightarrow> ssh_server_sftp_channel_deinit s = Some (Inr (), s)"
  "\<not> tch_initialized (fst s') \<Longrightarrow> ssh_server_terminal_channel_deinit server s' = Some (Inr (), s')"
  by (simp_all add: ssh_server_sftp_channel_deinit_def ssh_server_terminal_channel_deinit_def chP_def)

lemma wp_session:
  assumes "wp N m (\<lambda>_. F) G (c, u, snd s)" "W (snd s)"
    and "\<And>e d t. F t \<Longrightarrow> wp N (h e) (\<lambda>_ t. W (snd (snd (snd t)))) (\<lambda>_ t. W (snd (snd (snd t)))) (d, t)"
    and "\<And>x d t. G x t \<Longrightarrow> wp N (k x) (\<lambda>_ t. W (snd (snd (snd t)))) (\<lambda>_ t. W (snd (snd (snd t)))) (d, t)"
  shows "wp N (thenP (ensureP b err) (localsP c u (tryP (onP m) h k))) (\<lambda>_ t. W (snd t)) (\<lambda>_ t. W (snd t)) s"
proof -
  have "wp N (tryP (onP m) h k) (\<lambda>_ t. W (snd (snd (snd t)))) (\<lambda>_ t. W (snd (snd (snd t)))) (fst s, c, u, snd s)"
    by (rule wp_tryP, rule wp_onP, unfold fst_conv snd_conv, rule wpP_mono [OF assms(1)]) (auto intro: assms)
  with assms(2) show ?thesis
    by (intro wp_thenP wp_ensureP wp_localsP) simp_all
qed

lemma sftp_session_confined:
  assumes C: "confines server (effective_session_options options) W" and s: "W (snd s)"
  shows "wp True (ssh_server_run_sftp_session server options u) (\<lambda>_ t. W (snd t)) (\<lambda>_ t. W (snd t)) s"
proof -
  let ?eff = "effective_session_options options"
  let ?I = "\<lambda>s. (confines server ?eff W \<longrightarrow> W (snd s)) \<and> granted_session server (fst s)"
  let ?served = "sftp_serving ?I server ?eff"
  let ?E = "\<lambda>t. W (snd (snd t)) \<and> (sch_initialized (fst t) \<longrightarrow> ?served False (\<lambda>_. True) t)"
  have T: "transport_keeps server W"
    using C by (simp add: confines_def)
  have accept: "wp True (ssh_server_accept_sftp_channel server (Some ?eff)) (\<lambda>_. ?E) (\<lambda>_. ?served True (\<lambda>_. True)) (empty_sftp_channel, t)"
    if "W (snd t)" "granted_session server (fst t)" for t
    by (rule wpP_mono [OF after_auth.sftp_accept])
      (use that C in \<open>auto simp: sftp_serving_def empty_sftp_channel_def\<close>)
  have login: "wp True (thenP (onP (ssh_server_run_transport_setup server (Some ?eff)))
      (thenP (onP (ssh_server_run_userauth server (Some ?eff))) (ssh_server_accept_sftp_channel server (Some ?eff))))
      (\<lambda>_. ?E) (\<lambda>_. ?served True (\<lambda>_. True)) (empty_sftp_channel, u, snd s)"
    by (rule wp_login [OF T s _ accept]) (simp_all add: empty_sftp_channel_def)
  have deinit: "wp True ssh_server_sftp_channel_deinit (\<lambda>_ t. W (snd (snd t))) (\<lambda>_ t. W (snd (snd t))) t" if "?E t" for t
  proof (cases "sch_initialized (fst t)")
    case True
    with that have "?served False (\<lambda>_. True) t" by blast
    then show ?thesis
      by (rule wpP_mono [OF keepsD [OF after_auth.sftp_deinit]]) (use C in \<open>auto simp: sftp_serving_def\<close>)
  qed (use that in \<open>simp add: wp_def idle_deinit\<close>)
  have serve: "wp True (serve_channel n (ssh_server_process_sftp_channel_data server (Some ?eff)) ssh_server_sftp_channel_deinit)
      (\<lambda>_ t. W (snd (snd (snd t)))) (\<lambda>_ t. W (snd (snd (snd t)))) t" if "?served True (\<lambda>_. True) (snd t)" for n t
    by (rule wp_serve_channel [where J = "\<lambda>t. W (snd (snd t))", OF after_auth.process_sftp deinit that])
      (use C in \<open>auto simp: sftp_serving_def\<close>)
  show ?thesis
    unfolding ssh_server_run_sftp_session_def Let_def
    by (rule wp_session [where W = W, OF login]; (rule serve)?; (intro wp_thenP wp_diagP wp_onP wp_failP wpP_mono [OF deinit])?)
      (use s in auto)
qed


lemma terminal_session_confined:
  assumes C: "confines server (effective_session_options options) W" and s: "W (snd s)"
  shows "wp True (ssh_server_run_terminal_session server options u) (\<lambda>_ t. W (snd t)) (\<lambda>_ t. W (snd t)) s"
proof -
  let ?eff = "effective_session_options options"
  let ?I = "\<lambda>s. (confines server ?eff W \<longrightarrow> W (snd s)) \<and> granted_session server (fst s)"
  let ?G = "\<lambda>t. ?I (snd t) \<and> True"
  let ?E = "\<lambda>t. W (snd (snd t)) \<and> (tch_initialized (fst t) \<longrightarrow> ?G t)"
  have T: "transport_keeps server W"
    using C by (simp add: confines_def)
  have accept: "wp True (ssh_server_accept_terminal_channel server (Some ?eff)) (\<lambda>_. ?E) (\<lambda>_. ?G) (empty_terminal_channel, t)"
    if "W (snd t)" "granted_session server (fst t)" for t
    by (rule wpP_mono [OF keepsD [OF after_auth.terminal_accept(1)]]) (use that C in auto)
  have login: "wp True (thenP (onP (ssh_server_run_transport_setup server (Some ?eff)))
      (thenP (onP (ssh_server_run_userauth server (Some ?eff))) (ssh_server_accept_terminal_channel server (Some ?eff))))
      (\<lambda>_. ?E) (\<lambda>_. ?G) (empty_terminal_channel, u, snd s)"
    by (rule wp_login [OF T s _ accept]) (simp_all add: empty_terminal_channel_def)
  have deinit: "wp True (ssh_server_terminal_channel_deinit server) (\<lambda>_ t. W (snd (snd t))) (\<lambda>_ t. W (snd (snd t))) t" if "?E t" for t
  proof (cases "tch_initialized (fst t)")
    case True
    with that have "?G t" by blast
    then show ?thesis
      by (rule wpP_mono [OF keepsD [OF after_auth.terminal_deinit]]) (use C in auto)
  qed (use that in \<open>simp add: wp_def idle_deinit\<close>)
  have serve: "wp True (serve_channel n (ssh_server_process_terminal_channel_data server (Some ?eff)) (ssh_server_terminal_channel_deinit server))
      (\<lambda>_ t. W (snd (snd (snd t)))) (\<lambda>_ t. W (snd (snd (snd t)))) t" if "?G (snd t)" for n t
    by (rule wp_serve_channel [where J = "\<lambda>t. W (snd (snd t))", OF after_auth.process_terminal deinit that]) (use C in auto)
  show ?thesis
    unfolding ssh_server_run_terminal_session_def Let_def
    by (rule wp_session [where W = W, OF login]; (rule serve)?; (intro wp_thenP wp_diagP wp_onP wp_failP wpP_mono [OF deinit])?)
      (use s in auto)
qed


lemma auto_session_confined:
  assumes C: "confines server (effective_session_options options) W" and s: "W (snd s)"
  shows "wp True (ssh_server_run_auto_session server options u) (\<lambda>_ t. W (snd t)) (\<lambda>_ t. W (snd t)) s"
proof -
  let ?eff = "effective_session_options options"
  let ?I = "\<lambda>s. (confines server ?eff W \<longrightarrow> W (snd s)) \<and> granted_session server (fst s)"
  let ?served = "sftp_serving ?I server ?eff"
  let ?E = "\<lambda>t. W (snd (snd t))"
  let ?G = "\<lambda>kind t. ?I (snd t) \<and> (kind = SSH_SERVER_CHANNEL_KIND_SFTP \<longrightarrow> ?served True (\<lambda>_. True) (fst (fst t), snd t))"
  let ?c = "(empty_sftp_channel, empty_terminal_channel)"
  have T: "transport_keeps server W" and W: "\<And>t. ?I t \<Longrightarrow> W (snd t)"
    using C by (simp_all add: confines_def)
  have chosen: "wp True (choose_channel server ?eff chan) (\<lambda>_. ?E) ?G t" if "?I (snd t) \<and> fst t = ?c" for chan t
    by (rule wpP_mono [OF after_auth.choose [where W = W]])
      (use that W in \<open>auto simp: sftp_matches_def empty_sftp_channel_def\<close>)
  have accept: "wp True (bindP (onP (accept_session_channel server ?eff)) (choose_channel server ?eff)) (\<lambda>_. ?E) ?G (?c, t)"
    if "W (snd t)" "granted_session server (fst t)" for t
    by (rule wp_bindP, rule wp_keeps [OF after_auth.on [where C = "\<lambda>c. c = ?c" and W = W, OF after_auth.accept_channel]],
        use that in simp, rule W, blast, rule chosen, blast)
  have login: "wp True (thenP (onP (ssh_server_run_transport_setup server (Some ?eff)))
      (thenP (onP (ssh_server_run_userauth server (Some ?eff)))
      (bindP (onP (accept_session_channel server ?eff)) (choose_channel server ?eff)))) (\<lambda>_. ?E) ?G (?c, u, snd s)"
    by (rule wp_login [OF T s _ accept]) simp_all
  have sftp: "wp True (serve_channel n (on_sftpP (ssh_server_process_sftp_channel_data server (Some ?eff))) (on_sftpP ssh_server_sftp_channel_deinit))
      (\<lambda>_ t. ?E (snd t)) (\<lambda>_ t. ?E (snd t)) t" if "?served True (\<lambda>_. True) (fst (fst (snd t)), snd (snd t))" for n t
    by (rule wp_serve_channel [where J = ?E, OF keeps_on_sftpP [OF after_auth.process_sftp [where W = W]]])
      (use that W in \<open>auto intro!: wp_on_sftpP wp_keeps [OF after_auth.sftp_deinit [where W = W and effective = ?eff]] simp: sftp_serving_def\<close>)
  have terminal: "wp True (serve_channel n (on_termP (ssh_server_process_terminal_channel_data server (Some ?eff)))
      (on_termP (ssh_server_terminal_channel_deinit server))) (\<lambda>_ t. ?E (snd t)) (\<lambda>_ t. ?E (snd t)) t" if "?I (snd (snd t))" for n t
    by (rule wp_serve_channel [where J = ?E, OF keeps_on_termP [OF after_auth.process_terminal [where W = W and effective = ?eff]]])
      (use that W in \<open>auto intro!: wp_on_termP wp_keeps [OF after_auth.terminal_deinit [where W = W and effective = ?eff]]\<close>)
  show ?thesis
    unfolding ssh_server_run_auto_session_def Let_def
    by (rule wp_session [where W = W, OF login]; (intro wpP_if sftp terminal wp_thenP wp_diagP wp_failP)?) (use s in auto)
qed


section \<open>Properties of a session\<close>

text \<open>C8. A set-up that succeeds ends with a session in which both directions are encrypted under the crypto interface of
  the server, the session identifier is set, and the session is well formed.\<close>

theorem setup_protects_session:
  "case ssh_server_run_transport_setup server options s of
     Some (Inr _, (ts, w)) \<Rightarrow> prot_active (ts_inbound ts) \<and> prot_active (ts_outbound ts) \<and> ts_session_id ts \<noteq> [] \<and>
       prot_crypto (ts_inbound ts) = srv_crypto server \<and> prot_crypto (ts_outbound ts) = srv_crypto server \<and> transport_session_wf ts
   | _ \<Rightarrow> True"
  using wp_setup [of server options s]
  by (auto simp: wp_def session_fixed_def server_keys_def split: option.splits sum.splits)

text \<open>When set-up and authentication both succeed, the user name the session goes on with is the one of a request that was
  verified against the session identifier of this session, and both directions are still encrypted.\<close>

theorem login_is_verified:
  "case thenP (ssh_server_run_transport_setup server options) (ssh_server_run_userauth server options') s of
     Some (Inr _, (ts, w)) \<Rightarrow> ts_session_id ts \<noteq> [] \<and> prot_active (ts_inbound ts) \<and> prot_active (ts_outbound ts) \<and>
       (\<exists>request. ssh_userauth_evaluate_request (host_backend_algorithms server) (ssh_server.truncate server) request
            (Some (ts_session_id ts)) = Inr SSH_USERAUTH_DECISION_SUCCESS \<and>
          view_to_cstring (ua_username request) EMSSH_MAX_USERAUTH_PAYLOAD = Inr (ts_authenticated_username ts))
   | _ \<Rightarrow> True"
proof -
  have auth: "wp True (ssh_server_run_userauth server options') (\<lambda>_ _. True)
     (\<lambda>_ t. session_fixed [] True True (fst t) \<and> granted_session server (fst t)) t"
    if "session_fixed [] True True (fst t)" "ts_session_id (fst t) \<noteq> []" for t
    by (rule wpP_mono [OF wp_userauth [of server "\<lambda>_. True" t "ts_session_id (fst t)" options']])
      (use that in \<open>auto simp: session_fixed_def\<close>)
  have "wp True (thenP (ssh_server_run_transport_setup server options) (ssh_server_run_userauth server options')) (\<lambda>_ _. True)
     (\<lambda>_ t. session_fixed [] True True (fst t) \<and> granted_session server (fst t)) s"
    by (rule wp_thenP, rule wpP_mono [OF wp_setup]) (auto intro: auth)
  then show ?thesis
    by (auto simp: wp_def session_fixed_def granted_session_def granted_def split: option.splits sum.splits)
qed

definition server_sessions :: "('w, 'z) ssh_session_host_scheme \<Rightarrow> 'w ssh_server_session_options option \<Rightarrow> ssh_transport_session
    \<Rightarrow> (ssh_server_diag \<times> 'w, unit) proc set" where
  "server_sessions server options u = {ssh_server_run_sftp_session server options u,
     ssh_server_run_terminal_session server options u, ssh_server_run_auto_session server options u}"

lemma sessions_confined:
  assumes "session \<in> server_sessions server options u" "confines server (effective_session_options options) W" "W w"
    and "session (d, w) = Some (r, (d', w'))"
  shows "W w'"
proof -
  have "wp True session (\<lambda>_ t. W (snd t)) (\<lambda>_ t. W (snd t)) (d, w)"
    using assms(1-3) sftp_session_confined [of server options W "(d, w)" u] terminal_session_confined [of server options W "(d, w)" u]
      auto_session_confined [of server options W "(d, w)" u]
    by (auto simp: server_sessions_def)
  with assms(4) show ?thesis
    by (auto simp: wp_def split: sum.splits)
qed

text \<open>C1. Files and terminals are reached for verified users only. Let \<open>W\<close> be a predicate on the world that the network, the
  random numbers and the host key keep, and that the file system, the policies, the log and the terminal keep when they work
  for a verified user; a shell started under any other name, or a file operation when nobody can be verified, may break it.
  Every session of the server keeps it.\<close>

theorem only_verified_users_are_served:
  assumes "session \<in> server_sessions server options u" "confines server (effective_session_options options) W" "W w"
    and "session (d, w) = Some (r, (d', w'))"
  shows "W w'"
  using sessions_confined [OF assms] .

text \<open>A host that records the users it starts shells for, and accepts one user.\<close>

definition shell_host :: "cstr list ssh_session_host" where
  "shell_host = ssh_server.extend
     (sample_server\<lparr>srv_config := (srv_config sample_server)\<lparr>cfg_password_auth := Some (\<lambda>r. pwr_username r = Some (lit ''al''))\<rparr>\<rparr>)
     \<lparr>host_initialized = True, host_net = None, host_rng = None,
      host_kex = \<lparr>kex_generate_keypair = None, kex_compute_shared_secret = None, hostkey_public = None, hash_exchange = None,
        hostkey_sign = None, derive_key = None, kexinit_defaults = None\<rparr>,
      host_backend_algorithms = None, host_fs = None,
      host_term = Some \<lparr>term_spawn_shell = Some (\<lambda>user type c r x y w. (Inr 1, user # w)), term_spawn_exec = None,
        term_write = None, term_read = None, term_resize = None, term_signal = None, term_wait_exit = None, term_close = None\<rparr>,
      host_log = None\<rparr>"

lemma shell_host_fields [simp]:
  "host_initialized shell_host" "host_net shell_host = None" "host_rng shell_host = None" "host_fs shell_host = None"
  "kex_generate_keypair (host_kex shell_host) = None" "hostkey_sign (host_kex shell_host) = None" "host_log shell_host = None"
  "host_term shell_host = Some \<lparr>term_spawn_shell = Some (\<lambda>user type c r x y w. (Inr 1, user # w)), term_spawn_exec = None,
        term_write = None, term_read = None, term_resize = None, term_signal = None, term_wait_exit = None, term_close = None\<rparr>"
  "cfg_password_auth (srv_config (ssh_server.truncate shell_host)) = Some (\<lambda>r. pwr_username r = Some (lit ''al''))"
  "cfg_publickey_auth (srv_config (ssh_server.truncate shell_host)) = None" "cfg_software_name (srv_config shell_host) = None"
  by (simp_all add: shell_host_def ssh_server.defs sample_server_def)

lemma shell_host_users: "verified_user shell_host user \<Longrightarrow> user = Some (lit ''al'')"
  unfolding verified_user_def granted_def
  by (elim exE conjE, drule evaluate_success [THEN conjunct1])
    (auto simp: password_verified_def signature_verified_def view_to_cstring_def cstring_of_def split: if_splits)

lemma shell_host_returns: "wp False (ssh_server_run_terminal_session shell_host None u) (\<lambda>_ t. True) (\<lambda>_ t. True) s"
proof -
  have ident: "wp False (ssh_transport_send_identification shell_host timeout_ms) (\<lambda>_ _. True) (\<lambda>_ _. False) t" for timeout_ms t
    unfolding ssh_transport_send_identification_def net_write_all_def by (intro wpP_intros) simp_all
  have handshake: "wp False (transport_handshake shell_host p b timeout_ms) (\<lambda>_ _. True) (\<lambda>_ _. False) t" for p b timeout_ms t
    unfolding transport_handshake_def ssh_transport_set_rekey_limits_def
    by (rule wp_thenP, rule wp_modP, rule wp_thenP, rule wpP_mono [OF ident]) simp_all
  have start: "wp False (ssh_server_run_transport_setup shell_host options) (\<lambda>_ _. True) (\<lambda>_ _. False) t" for options t
    unfolding ssh_server_run_transport_setup_def Let_def
    by (intro wp_thenP wp_ensureP wp_bindP wp_valueP wp_modP handshake) simp_all
  have "wp False (thenP (onP (ssh_server_run_transport_setup shell_host options)) m) (\<lambda>_ t. fst t = empty_terminal_channel)
      (\<lambda>_ _. False) (empty_terminal_channel, t)" for options m t
    by (rule wp_thenP, rule wp_onP, rule wpP_mono [OF start]) simp_all
  then show ?thesis
    unfolding ssh_server_run_terminal_session_def Let_def
    by (rule wp_session [where W = "\<lambda>_. True"])
      (auto simp: wp_def idle_deinit empty_terminal_channel_def diagP_def onP_def thenP_def bindP_def)
qed

theorem only_verified_users_are_served_witness:
  "case ssh_server_run_terminal_session shell_host None fresh_session (update_server_diag_from_transport fresh_session, [Some (lit ''al'')]) of
     Some (_, (_, users)) \<Rightarrow> set users \<subseteq> {Some (lit ''al'')} | None \<Rightarrow> False"
proof -
  have "confines shell_host (effective_session_options None) (\<lambda>users. set users \<subseteq> {Some (lit ''al'')})"
    by (auto simp: confines_def transport_keeps_def term_keeps_def call_keeps_def policy_keeps_def effective_session_options_def
        ssh_server_session_options_defaults_def dest: shell_host_users)
  moreover obtain r d w where "ssh_server_run_terminal_session shell_host None fresh_session
      (update_server_diag_from_transport fresh_session, [Some (lit ''al'')]) = Some (r, (d, w))"
    using wpP_returns [OF shell_host_returns] by (metis option.collapse prod.collapse)
  ultimately show ?thesis
    using only_verified_users_are_served [of "ssh_server_run_terminal_session shell_host None fresh_session" shell_host None fresh_session
        "\<lambda>users. set users \<subseteq> {Some (lit ''al'')}" "[Some (lit ''al'')]"]
    by (auto simp: server_sessions_def)
qed

end
