(* ===== verification/Ssh_Session_Live.thy ===== *)
theory Ssh_Session_Live
  imports Ssh_Session_Props
begin

text \<open>
  Sessions of \<^verbatim>\<open>src/core/ssh_server.c\<close> return. The loops over authentication requests and over the messages of a channel go on
  after a timeout and have no bound of their own: they end because every turn reads from the connection, and a connection
  delivers finitely much. The measure \<open>\<mu>\<close> on the world is what the connection can still deliver, timeouts included.
\<close>

section \<open>Procedures that use up input\<close>

text \<open>\<open>G n\<close> is an invariant of states with at most \<open>n\<close> left. A procedure descends when it returns with less left, also
  when it ends with \<^verbatim>\<open>SSH_ERR_NOT_FOUND\<close>, the status after which the loops go on; and it settles when it never ends so.\<close>

definition descends :: "(nat \<Rightarrow> 's \<Rightarrow> bool) \<Rightarrow> ('s, 'a) proc \<Rightarrow> bool" where
  "descends G m \<longleftrightarrow> (\<forall>n s. G n s \<longrightarrow>
     wp False m (\<lambda>e t. \<exists>k\<le>n. G k t \<and> (e = SSH_ERR_NOT_FOUND \<longrightarrow> k < n)) (\<lambda>_ t. \<exists>k<n. G k t) s)"

definition settles :: "('s, 'a) proc \<Rightarrow> bool" where
  "settles m \<longleftrightarrow> (\<forall>s. wp True m (\<lambda>e _. e \<noteq> SSH_ERR_NOT_FOUND) (\<lambda>_ _. True) s)"

lemma descendsI:
  "(\<And>n s. G n s \<Longrightarrow> wp False m (\<lambda>e t. \<exists>k\<le>n. G k t \<and> (e = SSH_ERR_NOT_FOUND \<longrightarrow> k < n)) (\<lambda>_ t. \<exists>k<n. G k t) s) \<Longrightarrow> descends G m"
  by (simp add: descends_def)

lemma descendsD:
  "descends G m \<Longrightarrow> G n s \<Longrightarrow> wp False m (\<lambda>e t. \<exists>k\<le>n. G k t \<and> (e = SSH_ERR_NOT_FOUND \<longrightarrow> k < n)) (\<lambda>_ t. \<exists>k<n. G k t) s"
  by (simp add: descends_def)

lemma descends_failP: "e \<noteq> SSH_ERR_NOT_FOUND \<Longrightarrow> descends G (failP e)"
  by (intro descendsI wp_failP) auto

lemma descends_if: "(c \<Longrightarrow> descends G m) \<Longrightarrow> (\<not> c \<Longrightarrow> descends G n) \<Longrightarrow> descends G (if c then m else n)"
  by simp

lemma descends_askP: "(\<And>s. descends G (k s)) \<Longrightarrow> descends G (askP k)"
  by (rule descendsI, rule wp_askP, rule descendsD)

lemma descends_tsP: "(\<And>ts. descends G (k ts)) \<Longrightarrow> descends G (tsP k)"
  unfolding tsP_def by (rule descends_askP)

lemma descends_chP: "(\<And>c. descends G (k c)) \<Longrightarrow> descends G (chP k)"
  unfolding chP_def by (rule descends_askP)

lemma descends_check: "e \<noteq> SSH_ERR_NOT_FOUND \<Longrightarrow> (c \<Longrightarrow> descends G m) \<Longrightarrow> descends G (thenP (ensureP c e) m)"
  by (cases c) (simp_all add: descends_failP)

text \<open>Nothing after the reading adds to what is left, and nothing before it ends with \<^verbatim>\<open>SSH_ERR_NOT_FOUND\<close>.\<close>

lemma descends_bindP:
  assumes "descends G m" "\<And>x k. keeps False (G k) (f x) (\<lambda>_. True)"
  shows "descends G (bindP m f)"
proof (rule descendsI)
  fix n s assume s: "G n s"
  have rest: "wp False (f x) (\<lambda>e t. \<exists>k\<le>n. G k t \<and> (e = SSH_ERR_NOT_FOUND \<longrightarrow> k < n)) (\<lambda>_ t. \<exists>k<n. G k t) t" if "\<exists>k<n. G k t" for x t
  proof -
    from that obtain k where "k < n" "G k t" by blast
    then show ?thesis
      by (intro wp_keeps [OF assms(2) [of k x]]) (auto intro!: exI [of _ k])
  qed
  show "wp False (bindP m f) (\<lambda>e t. \<exists>k\<le>n. G k t \<and> (e = SSH_ERR_NOT_FOUND \<longrightarrow> k < n)) (\<lambda>_ t. \<exists>k<n. G k t) s"
    by (rule wp_bindP, rule wpP_mono [OF descendsD [OF assms(1) s]]) (auto intro: rest)
qed

lemma descends_after:
  assumes "\<And>k. keeps False (G k) m (\<lambda>_. True)" "settles m" "\<And>x. descends G (f x)"
  shows "descends G (bindP m f)"
proof (rule descendsI)
  fix n s assume s: "G n s"
  have "wp False m (\<lambda>e t. G n t \<and> e \<noteq> SSH_ERR_NOT_FOUND) (\<lambda>_. G n) s"
    using wpP_conj [OF keepsD [OF assms(1) s] assms(2) [unfolded settles_def, rule_format]] by (rule wpP_mono) auto
  then show "wp False (bindP m f) (\<lambda>e t. \<exists>k\<le>n. G k t \<and> (e = SSH_ERR_NOT_FOUND \<longrightarrow> k < n)) (\<lambda>_ t. \<exists>k<n. G k t) s"
    by (intro wp_bindP, elim wpP_mono) (blast, rule descendsD [OF assms(3)])
qed

lemma descends_thenP:
  "(\<And>k. keeps False (G k) m (\<lambda>_. True)) \<Longrightarrow> settles m \<Longrightarrow> descends G m' \<Longrightarrow> descends G (thenP m m')"
  unfolding thenP_def by (rule descends_after)

lemma descends_tryP:
  assumes "descends G m" "\<And>x k. keeps False (G k) (f x) (\<lambda>_. True)" "\<And>k. keeps False (G k) (h SSH_ERR_NOT_FOUND) (\<lambda>_. True)"
    and "\<And>e. e \<noteq> SSH_ERR_NOT_FOUND \<Longrightarrow> descends G (h e)"
  shows "descends G (tryP m h f)"
proof (rule descendsI)
  fix n s assume s: "G n s"
  let ?E = "\<lambda>e t. \<exists>k\<le>n. G k t \<and> (e = SSH_ERR_NOT_FOUND \<longrightarrow> k < n)" and ?Q = "\<lambda>_ t. \<exists>k<n. G k t"
  have kept: "wp False p ?E ?Q t" if "\<And>k. keeps False (G k) p (\<lambda>_. True)" "\<exists>k<n. G k t" for p t
  proof -
    from that(2) obtain k where "k < n" "G k t" by blast
    then show ?thesis
      by (intro wp_keeps [OF that(1) [of k]]) (auto intro!: exI [of _ k])
  qed
  have handler: "wp False (h e) ?E ?Q t" if "?E e t" for e t
  proof (cases "e = SSH_ERR_NOT_FOUND")
    case True
    with that have "\<exists>k<n. G k t" by blast
    with True assms(3) show ?thesis by (auto intro: kept)
  next
    case False
    from that obtain k where "k \<le> n" "G k t" by blast
    then show ?thesis
      by (intro wpP_mono [OF descendsD [OF assms(4) [OF False]]]) (blast intro: le_trans less_le_trans)+
  qed
  show "wp False (tryP m h f) ?E ?Q s"
    by (rule wp_tryP, rule wpP_mono [OF descendsD [OF assms(1) s]]) (auto intro: handler kept assms(2))
qed

lemma descends_forP:
  assumes "0 < n" "\<And>x. descends G (body x)" "\<And>k x. keeps False (G k) (body x) (\<lambda>_. True)" "\<And>k x. keeps False (G k) (after x) (\<lambda>_. True)"
  shows "descends G (forP n after body x)"
proof -
  obtain k where n: "n = Suc k" using assms(1) by (cases n) auto
  have "keeps False (G i) (forP k after body y) (\<lambda>_. True)" for i y
    by (rule keeps_forP [where J = "\<lambda>_. True"], rule keeps_mono [OF assms(3)]) (simp_all add: assms(4) split: sum.splits)
  then show ?thesis
    unfolding n forP.simps
    by (intro descends_bindP [OF assms(2)]) (auto split: sum.split intro: keeps_retP)
qed

lemma descends_onP: "(\<And>c. descends (\<lambda>n s. G n (c, s)) m) \<Longrightarrow> descends G (onP m)"
  by (rule descendsI, rule wp_onP, rule wpP_mono [OF descendsD]) auto

text \<open>The loops that go on after a turn that descends.\<close>

lemma loopP_returns:
  fixes G :: "nat \<Rightarrow> 's \<Rightarrow> bool"
  assumes turn: "\<And>n x s. G n s \<Longrightarrow> wp False (body x) (\<lambda>_ t. \<exists>k\<le>n. G k t)
      (\<lambda>r t. case r of Inl _ \<Rightarrow> \<exists>k<n. G k t | Inr a \<Rightarrow> \<exists>k\<le>n. G k t) s"
    and start: "G n s"
  shows "wp False (loopP body x) (\<lambda>_ t. \<exists>k\<le>n. G k t) (\<lambda>_ t. \<exists>k\<le>n. G k t) s"
  using start
proof (induction n arbitrary: x s rule: less_induct)
  case (less n)
  have next_turn: "wp False (loopP body y) (\<lambda>_ t. \<exists>k\<le>n. G k t) (\<lambda>_ t. \<exists>k\<le>n. G k t) t" if "\<exists>k<n. G k t" for y t
  proof -
    from that obtain k where k: "k < n" "G k t" by blast
    show ?thesis
      by (rule wpP_mono [OF less.IH [OF k]]) (meson k le_trans less_imp_le)+
  qed
  have "wp False (bindP (body x) (\<lambda>r. case r of Inl y \<Rightarrow> loopP body y | Inr a \<Rightarrow> retP a))
      (\<lambda>_ t. \<exists>k\<le>n. G k t) (\<lambda>_ t. \<exists>k\<le>n. G k t) s"
    by (rule wp_bindP, rule wpP_mono [OF turn [OF less.prems]]) (auto split: sum.splits intro: wp_retP next_turn)
  then show ?case
    by (simp add: wp_def loopP_unfold [symmetric])
qed

lemma channel_loop_returns:
  assumes "descends G process" "G n s"
  shows "wp False (loopP (channel_turn packets process) x) (\<lambda>_ t. \<exists>k\<le>n. G k t) (\<lambda>_ t. \<exists>k\<le>n. G k t) s"
proof (rule loopP_returns [where G = G, OF _ assms(2)])
  fix n x s assume s: "G n s"
  show "wp False (channel_turn packets process x) (\<lambda>_ t. \<exists>k\<le>n. G k t)
      (\<lambda>r t. case r of Inl _ \<Rightarrow> \<exists>k<n. G k t | Inr a \<Rightarrow> \<exists>k\<le>n. G k t) s"
    unfolding channel_turn_def
    by (rule wpP_if, rule wp_tryP, rule wpP_mono [OF descendsD [OF assms(1) s]]; (intro wpP_if wp_retP)?)
      (use s in \<open>auto intro: exI [of _ n]\<close>)
qed


section \<open>Connections that end\<close>

text \<open>A read that delivers bytes or times out uses some of what is left; at the end of the connection a read reports so. No
  other callback adds to it.\<close>

definition input_ends :: "('w, 'z) ssh_host_scheme \<Rightarrow> ('w \<Rightarrow> nat) \<Rightarrow> bool" where
  "input_ends server \<mu> \<longleftrightarrow> (\<forall>net f n t w r w'. host_net server = Some net \<longrightarrow> net_read net = Some f \<longrightarrow> f n t w = (r, w') \<longrightarrow>
     \<mu> w' < \<mu> w \<or> \<mu> w' \<le> \<mu> w \<and> r \<noteq> Inl EMSSH_NET_IO_TIMEOUT \<and> (\<forall>bs. r = Inr bs \<longrightarrow> bs = []))"

definition callbacks_keep :: "('w, 'z) ssh_session_host_scheme \<Rightarrow> 'w ssh_server_session_options \<Rightarrow> ('w \<Rightarrow> bool) \<Rightarrow> bool" where
  "callbacks_keep server effective W \<longleftrightarrow> transport_keeps server W \<and>
     (\<forall>fs. host_fs server = Some fs \<longrightarrow> fs_keeps W fs) \<and>
     (\<forall>term user. host_term server = Some term \<longrightarrow> term_keeps W user term) \<and>
     policy_keeps W (opt_sftp_policy effective) \<and>
     (\<forall>f request. opt_non_sftp_channel_request_policy effective = Some f \<longrightarrow> call_keeps W (f request)) \<and>
     (\<forall>log line w. host_log server = Some log \<longrightarrow> W w \<longrightarrow> W (log line w))"

definition finite_input :: "('w, 'z) ssh_session_host_scheme \<Rightarrow> 'w ssh_server_session_options \<Rightarrow> ('w \<Rightarrow> nat) \<Rightarrow> bool" where
  "finite_input server effective \<mu> \<longleftrightarrow> input_ends server \<mu> \<and> (\<forall>n. callbacks_keep server effective (\<lambda>w. \<mu> w \<le> n))"

lemma input_ends_timeouts: "input_ends server \<mu> \<Longrightarrow> timeouts_end server \<mu>"
  unfolding input_ends_def timeouts_end_def by blast

lemma finite_input_transport: "finite_input server effective \<mu> \<Longrightarrow> transport_keeps server (\<lambda>w. \<mu> w \<le> n)"
  by (simp add: finite_input_def callbacks_keep_def)

lemma ending_contract:
  "session_contract (\<not> finite_input server effective \<mu>) server (\<lambda>s. finite_input server effective \<mu> \<longrightarrow> \<mu> (snd s) \<le> n)"
proof unfold_locales
  let ?N = "\<not> finite_input server effective \<mu>" and ?I = "\<lambda>s. finite_input server effective \<mu> \<longrightarrow> \<mu> (snd s) \<le> n"
  have T: "transport_keeps server (\<lambda>w. finite_input server effective \<mu> \<longrightarrow> \<mu> w \<le> n)"
    by (rule transport_keeps_imp) (rule finite_input_transport)
  show "keeps ?N (\<lambda>s. ?I s \<and> fst s = ts) (net_read_exact server len timeout_ms) (\<lambda>_. True)" for ts len timeout_ms
    by (rule keeps_mono, rule keeps_net_read [where \<mu> = \<mu>])
      (use T in \<open>auto simp: transport_keeps_def call_keeps_def finite_input_def dest: input_ends_timeouts\<close>)
  show "keeps ?N ?I (net_write_all server buf timeout_ms) (\<lambda>_. True)" for buf timeout_ms
    by (rule keeps_net_write) (use T in \<open>auto simp: transport_keeps_def call_keeps_def\<close>)
  show "host_rng server = Some g \<Longrightarrow> ?I (ts, w) \<Longrightarrow> ?I (ts, snd (g w))" for g ts w
    using T by (auto simp: transport_keeps_def call_keeps_def)
  show "kex_generate_keypair (host_kex server) = Some f \<Longrightarrow> ?I (ts, w) \<Longrightarrow> ?I (ts, snd (f a w))" for f a ts w
    using T by (auto simp: transport_keeps_def call_keeps_def)
  show "hostkey_sign (host_kex server) = Some f \<Longrightarrow> ?I (ts, w) \<Longrightarrow> ?I (ts, snd (f a h w))" for f a h ts w
    using T by (auto simp: transport_keeps_def call_keeps_def)
qed simp_all

interpretation ending: session_services "\<not> finite_input server effective \<mu>" server
  "\<lambda>s. finite_input server effective \<mu> \<longrightarrow> \<mu> (snd s) \<le> n" effective
proof (intro session_services.intro session_services_axioms.intro ending_contract, unfold snd_conv)
  note keep = keeps_under [where H = "finite_input server effective \<mu>" and G = True, simplified]
  show "fs_keeps (\<lambda>w. finite_input server effective \<mu> \<longrightarrow> \<mu> w \<le> n) fs" if "host_fs server = Some fs" for fs
    using that by (intro keep) (simp add: finite_input_def callbacks_keep_def)
  show "policy_keeps (\<lambda>w. finite_input server effective \<mu> \<longrightarrow> \<mu> w \<le> n) (opt_sftp_policy effective)"
    by (intro keep) (simp add: finite_input_def callbacks_keep_def)
  show "call_keeps (\<lambda>w. finite_input server effective \<mu> \<longrightarrow> \<mu> w \<le> n) (f request)"
    if "opt_non_sftp_channel_request_policy effective = Some f" for f request
    using that by (intro keep) (simp add: finite_input_def callbacks_keep_def)
  show "term_keeps (\<lambda>w. finite_input server effective \<mu> \<longrightarrow> \<mu> w \<le> n) (spawn_user ts) api" if "host_term server = Some api" for api ts
    using that by (intro keep) (simp add: finite_input_def callbacks_keep_def)
  show "finite_input server effective \<mu> \<longrightarrow> \<mu> (log line w) \<le> n"
    if "host_log server = Some log" "finite_input server effective \<mu> \<longrightarrow> \<mu> w \<le> n" for log line w
    using that by (simp add: finite_input_def callbacks_keep_def)
qed

interpretation ending_world: world_contract "\<not> finite_input server effective \<mu>" server
  "\<lambda>w. finite_input server effective \<mu> \<longrightarrow> \<mu> w \<le> n" for effective
  unfolding world_contract_def by (rule ending_contract)

section \<open>Receiving uses up input\<close>

abbreviation input_left :: "('w \<Rightarrow> nat) \<Rightarrow> nat \<Rightarrow> 'w tstate \<Rightarrow> bool" where
  "input_left \<mu> n s \<equiv> \<mu> (snd s) \<le> n"

lemma net_read_step_input:
  assumes "input_ends server \<mu>" "host_net server = Some net" "net_read net = Some f" "length done < len"
    and "net_read_step f len t done w = (r, w')"
  shows "\<mu> w' < \<mu> w \<or> \<mu> w' \<le> \<mu> w \<and> (\<exists>e. r = Inl e \<and> e \<noteq> SSH_ERR_NOT_FOUND)"
proof -
  obtain q v where q: "f (len - length done) t w = (q, v)" by fastforce
  then have "\<mu> v < \<mu> w \<or> \<mu> v \<le> \<mu> w \<and> q \<noteq> Inl EMSSH_NET_IO_TIMEOUT \<and> (\<forall>bs. q = Inr bs \<longrightarrow> bs = [])"
    using assms(1-3) by (simp add: input_ends_def)
  then show ?thesis
    using assms(5) q by (auto simp: net_read_step_def split: sum.splits if_splits)
qed

lemma read_descends:
  assumes F: "finite_input server effective \<mu>" and len: "0 < len"
  shows "descends (input_left \<mu>) (net_read_exact server len timeout_ms)"
proof (rule descendsI, unfold net_read_exact_def, intro wpP_option)
  fix n and s :: "'a tstate" and net f assume s: "\<mu> (snd s) \<le> n" and net: "host_net server = Some net" "net_read net = Some f"
  let ?E = "\<lambda>e t. \<exists>k\<le>n. \<mu> (snd t) \<le> k \<and> (e = SSH_ERR_NOT_FOUND \<longrightarrow> k < n)" and ?Q = "\<lambda>_ t. \<exists>k<n. \<mu> (snd t) \<le> k"
  let ?I = "\<lambda>(done :: u8 list) t. \<mu> (snd t) \<le> n \<and> (done \<noteq> [] \<longrightarrow> \<mu> (snd t) < n)"
  let ?body = "\<lambda>done. if length done < len
           then bindP (callP (net_read_step f len timeout_ms done)) (\<lambda>done. retP (Inl done)) else retP (Inr done)"
  show "wp False (loopP ?body []) ?E ?Q s"
  proof (rule wp_loopP_total [where I = ?I and \<mu> = "\<lambda>_ t. \<mu> (snd t)"])
    fix "done" :: "u8 list" and t :: "'a tstate" assume t: "?I done t"
    have step: "\<mu> w' < \<mu> (snd t) \<or> \<mu> w' \<le> \<mu> (snd t) \<and> (\<exists>e. r = Inl e \<and> e \<noteq> SSH_ERR_NOT_FOUND)"
      if "net_read_step f len timeout_ms done (snd t) = (r, w')" "length done < len" for r w'
      using F net_read_step_input [OF _ net that(2,1)] by (simp add: finite_input_def)
    show "wp False (?body done) ?E (\<lambda>r u. case r of Inl y \<Rightarrow> ?I y u \<and> \<mu> (snd u) < \<mu> (snd t) | Inr a \<Rightarrow> ?Q a u) t"
      by (intro wpP_if wp_bindP wp_callP wp_retP) (use t len step in \<open>fastforce+\<close>)
  qed (use s in simp)
qed (auto intro!: wp_failP)


lemma ending_keeps:
  "finite_input server effective \<mu> \<Longrightarrow>
   keeps (\<not> finite_input server effective \<mu>) (\<lambda>s. finite_input server effective \<mu> \<longrightarrow> input_left \<mu> n s) m (\<lambda>_. True) \<Longrightarrow>
   keeps False (input_left \<mu> n) m (\<lambda>_. True)"
  by simp

lemma protected_descends:
  assumes F: "finite_input server effective \<mu>"
  shows "descends (input_left \<mu>) (ssh_transport_receive_protected_payload server cap timeout_ms)"
  unfolding ssh_transport_receive_protected_payload_def Let_def
proof (intro descends_tsP descends_check descends_bindP [OF read_descends [OF F]] ending_keeps [OF F]
    ending.kept_basic ending.bind_read ending_world.any_mod TrueI)
  show "0 < prot_block_size (ts_inbound ts)"
    if "\<not> (prot_block_size (ts_inbound ts) < SSH_PACKET_MIN_BLOCK_SIZE \<or> prot_block_size (ts_inbound ts) > EMSSH_MAX_CIPHER_IV)" for ts
    using that by (auto simp: packet_limits)
qed simp_all

lemma payload_descends:
  assumes F: "finite_input server effective \<mu>"
  shows "descends (input_left \<mu>) (receive_protected_payload_skip_ignorable server cap timeout_ms)"
  unfolding receive_protected_payload_skip_ignorable_def Let_def
  by (intro descends_forP descends_bindP [OF protected_descends [OF F]] ending_keeps [OF F]
      keeps_bindP [OF ending.receive_protected] ending.kept_basic ending.peer_rekey ending_world.any_mod TrueI) simp_all

lemma request_descends:
  assumes F: "finite_input server effective \<mu>"
  shows "descends (input_left \<mu>) (ssh_transport_receive_userauth_request server timeout_ms)"
  unfolding ssh_transport_receive_userauth_request_def
  by (intro descends_bindP [OF payload_descends [OF F]] ending_keeps [OF F] ending.kept_basic TrueI)

lemma message_descends:
  assumes F: "finite_input server effective \<mu>"
  shows "descends (input_left \<mu>) (ssh_transport_receive_channel_message server cap timeout_ms)"
proof -
  have "descends (input_left \<mu>) (forP 16 (\<lambda>_. failP SSH_ERR_UNSUPPORTED) (\<lambda>_.
       bindP (receive_protected_payload_skip_ignorable server EMSSH_MAX_CHANNEL_MESSAGE_PAYLOAD timeout_ms)
         (handle_message_payload server timeout_ms)) ())"
    by (intro descends_forP descends_bindP [OF payload_descends [OF F]] ending_keeps [OF F]
        keeps_bindP [OF ending.receive_payload] ending.kept_basic ending.handle_message TrueI) simp_all
  then show ?thesis
    unfolding ssh_transport_receive_channel_message_def
    by (intro descends_bindP ending_keeps [OF F] ending.kept_basic TrueI)
qed

section \<open>Authentication returns\<close>

lemma userauth_returns:
  assumes F: "finite_input server effective \<mu>"
  shows "keeps False (input_left \<mu> n) (ssh_server_run_userauth server options) (\<lambda>_. True)"
proof -
  have "descends (input_left \<mu>) (userauth_try server timeout_ms tries)" for timeout_ms tries
    unfolding userauth_try_def
    by (intro descends_if descends_bindP [OF request_descends [OF F]] descends_failP ending_keeps [OF F] ending.kept_basic
        ending_world.any_mod ending.services TrueI) simp_all
  then have "wp False (userauth_try server timeout_ms tries) (\<lambda>_ t. \<exists>k\<le>n. input_left \<mu> k t)
      (\<lambda>r t. case r of Inl _ \<Rightarrow> \<exists>k<n. input_left \<mu> k t | Inr a \<Rightarrow> \<exists>k\<le>n. input_left \<mu> k t) s" if "input_left \<mu> n s" for timeout_ms tries n s
    by (rule wpP_mono [OF descendsD]) (use that in \<open>auto split: sum.splits\<close>)
  from loopP_returns [where G = "input_left \<mu>", OF this]
  have "keeps False (input_left \<mu> n) (loopP (userauth_try server timeout_ms) 0) (\<lambda>_. True)" for timeout_ms
    by (intro keepsI) (fastforce elim: wpP_mono)
  then have "keeps (\<not> finite_input server effective \<mu>) (\<lambda>s. finite_input server effective \<mu> \<longrightarrow> input_left \<mu> n s)
      (ssh_server_run_userauth server options) (\<lambda>_. True)"
    by (intro ending_world.userauth_start) (simp add: F)
  with F show ?thesis by simp
qed


section \<open>Sessions return\<close>

lemma descends_and: "descends G m \<Longrightarrow> descends (\<lambda>n s. G n s \<and> b) m"
  by (cases b) (simp_all add: descends_def)

lemma keeps_total: "\<not> N \<Longrightarrow> keeps N I m P \<Longrightarrow> keeps False I m P"
  by simp

lemma settles_intros:
  "settles (retP x)" "e \<noteq> SSH_ERR_NOT_FOUND \<Longrightarrow> settles (failP e)" "settles (setP f)" "settles m' \<Longrightarrow> settles (onP m')"
  by (auto simp: settles_def intro!: wpP_intros wp_onP)

lemma settles_log: "settles (sftp_trace_log_line server enabled line)"
  by (auto simp: sftp_trace_log_line_def intro!: settles_intros split: option.splits)

lemma wp_serve_returns:
  assumes "descends G process" "\<And>k t. G k t \<Longrightarrow> wp False deinit (\<lambda>_ _. True) (\<lambda>_ _. True) t" "G n (snd s)"
  shows "wp False (serve_channel packets process deinit) (\<lambda>_ _. True) (\<lambda>_ _. True) s"
  unfolding serve_channel_def
  by (intro wp_bindP wp_onP wpP_mono [OF channel_loop_returns [OF assms(1,3)]] wpP_prod wp_thenP wp_diagP wpP_if wp_retP wp_statusP)
    (auto intro!: wpP_mono [OF assms(2)] wpP_intros wp_statusP)

lemma wp_login_returns:
  assumes F: "finite_input server effective \<mu>" and w: "\<mu> w \<le> n"
    and fails: "\<And>e t. input_left \<mu> n t \<Longrightarrow> E e (c, t)"
    and work: "\<And>t. input_left \<mu> n t \<Longrightarrow> wp False m E Q (c, t)"
  shows "wp False (thenP (onP (ssh_server_run_transport_setup server options)) (thenP (onP (ssh_server_run_userauth server options')) m))
    E Q (c, ts, w)"
proof -
  have started: "keeps False (input_left \<mu> n) (ssh_server_run_transport_setup server options) (\<lambda>_. True)"
    by (rule ending_keeps [OF F ending_world.transport_setup])
  have rest: "wp False (thenP (onP (ssh_server_run_userauth server options')) m) E Q (c, t)" if "input_left \<mu> n t" for t
    by (rule wp_thenP, rule wp_onP, unfold fst_conv snd_conv, rule wpP_mono [OF keepsD [OF userauth_returns [OF F] that]])
      (auto intro: fails work)
  show ?thesis
    by (rule wp_thenP, rule wp_onP, unfold fst_conv snd_conv, rule wpP_mono [OF keepsD [OF started]])
      (use w in \<open>auto intro: fails rest\<close>)
qed

lemma process_sftp_descends:
  assumes F: "finite_input server effective \<mu>" and eff: "effective_session_options options = effective"
  shows "descends (\<lambda>n. sftp_serving (\<lambda>s. finite_input server effective \<mu> \<longrightarrow> input_left \<mu> n s) server effective True (\<lambda>_. True))
    (ssh_server_process_sftp_channel_data server options)" (is "descends ?G _")
proof -
  note total = keeps_total [where N = "\<not> finite_input server effective \<mu>"]
  have "descends (\<lambda>n s. ?G n (c, s)) (ssh_transport_receive_channel_message server cap timeout_ms)" for c cap timeout_ms
    using descends_and [OF message_descends [OF F]] by (simp add: sftp_serving_def F)
  note receive = descends_onP [where G = ?G, OF this]
  have quiet: "descends ?G (thenP (onP (sftp_trace_log_line server b line)) (failP e))" if "e \<noteq> SSH_ERR_NOT_FOUND" for b line e
    by (intro descends_thenP settles_intros settles_log descends_failP total ending.on_sftp ending.log_line)
      (use F that in simp_all)
  have message: "keeps False (?G k) (thenP (onP (sftp_trace_log_line server b line)) (process_sftp_message server effective m bs)) (\<lambda>_. True)"
    for k b line m bs
    by (rule total, simp add: F, intro keeps_intros ending.on_sftp ending.log_line ending.sftp_message)
  have rest: "keeps False (?G k) (whenP go (thenP (maybe_flush_pending_sftp_response server t) (serve_sftp_packets server effective))) (\<lambda>_. True)"
    for k go t
    by (rule total, simp add: F, intro keeps_intros ending.flush ending.serve_packets TrueI)
  show ?thesis
    unfolding ssh_server_process_sftp_channel_data_def Let_def eff
    by (intro descends_chP descends_check descends_bindP [OF descends_tryP [OF receive]] rest)
      (auto intro!: quiet message keeps_intros split: prod.splits)
qed


text \<open>Sending never ends with \<^verbatim>\<open>SSH_ERR_NOT_FOUND\<close>, so that status means a timeout of the connection also to the loop over the
  messages of a terminal channel, which sends output before it receives.\<close>

lemma settles_bindP: "settles m \<Longrightarrow> (\<And>x. settles (f x)) \<Longrightarrow> settles (bindP m f)"
  unfolding settles_def by (intro allI wp_bindP) (blast intro: wpP_mono)

lemma settles_thenP: "settles m \<Longrightarrow> settles m' \<Longrightarrow> settles (thenP m m')"
  unfolding thenP_def by (rule settles_bindP)

lemma settles_more:
  "(\<And>s. settles (k s)) \<Longrightarrow> settles (askP k)" "(\<And>ts. settles (k' ts)) \<Longrightarrow> settles (tsP k')" "(\<And>c. settles (k'' c)) \<Longrightarrow> settles (chP k'')"
  "settles (modP f)" "settles (chmodP f')" "settles (to_state st)" "e \<noteq> SSH_ERR_NOT_FOUND \<Longrightarrow> settles (ensureP b e)"
  "(\<And>rng. settles (q rng)) \<Longrightarrow> settles (rngP server q)" "settles p \<Longrightarrow> settles (whenP b p)" "r \<noteq> Inl SSH_ERR_NOT_FOUND \<Longrightarrow> settles (valueP r)"
  by (auto simp: settles_def intro!: wpP_intros wp_rngP)

lemma settles_if: "settles m \<Longrightarrow> settles m' \<Longrightarrow> settles (if b then m else m')"
  by simp

lemma settles_loopP: "(\<And>x. settles (body x)) \<Longrightarrow> settles (loopP body x)"
  unfolding settles_def
  by (intro allI wp_loopP [where I = "\<lambda>_ _. True"]) (auto elim!: wpP_mono split: sum.splits)

lemma settles_callP: "(\<And>w. fst (m w) \<noteq> Inl SSH_ERR_NOT_FOUND) \<Longrightarrow> settles (callP m)"
  unfolding settles_def by (intro allI wp_callP) (metis fst_conv, simp)

lemma settles_tryP: "(\<And>e. settles (h e)) \<Longrightarrow> (\<And>x. settles (f x)) \<Longrightarrow> settles (tryP m h f)"
  unfolding settles_def by (intro allI wp_tryP) (auto intro: wpP_mono [OF wp_any])

lemma write_loop_settles: "fst (net_write_loop send timeout_ms buf w) \<noteq> Inl SSH_ERR_NOT_FOUND"
  by (induction send timeout_ms buf w rule: net_write_loop.induct)
    (subst net_write_loop.simps, auto split: prod.splits if_splits)

lemma settles_write: "settles (net_write_all server buf timeout_ms)"
  unfolding net_write_all_def by (auto intro!: settles_intros settles_callP write_loop_settles split: option.splits)

definition steady :: "(ssh_buffer, unit) act \<Rightarrow> bool" where
  "steady put \<longleftrightarrow> (\<forall>b. fst (put b) \<noteq> Inl SSH_ERR_NOT_FOUND)"

lemma steady_thenA: "steady p \<Longrightarrow> steady q \<Longrightarrow> steady (thenA p q)"
  unfolding steady_def thenA_def bindA_def by (auto split: prod.splits sum.splits) (metis fst_conv)+

lemma steady_put:
  "steady (ssh_buffer_put_u8 v)" "steady (ssh_buffer_put_bool c)" "steady (ssh_buffer_put_u32 i)" "steady (ssh_buffer_put_bytes bs)"
  "steady (failA SSH_ERR_INVALID_ARGUMENT)"
  by (simp_all add: steady_def ssh_buffer_put_u8_def ssh_buffer_put_bool_def ssh_buffer_put_u32_def ssh_buffer_put_bytes_def failA_def)

lemma steady_put_string: "steady (ssh_buffer_put_string bs)" "steady (ssh_buffer_put_cstring (Some bs))"
  unfolding ssh_buffer_put_string_def ssh_buffer_put_cstring_def by (auto intro!: steady_thenA steady_put)

lemmas steady_intros = steady_thenA steady_put steady_put_string

lemma encode_plain_status: "fst (ssh_packet_encode_plain out cap payload n rng) \<noteq> Inl SSH_ERR_NOT_FOUND"
proof -
  have "thenA (ssh_buffer_put_u32 i) (thenA (ssh_buffer_put_u8 v) (ssh_buffer_put_bytes bs)) b \<noteq> (Inl SSH_ERR_NOT_FOUND, b')" for i v bs b b'
    using steady_thenA [OF steady_put(3) [of i] steady_thenA [OF steady_put(1) [of v] steady_put(4) [of bs]]]
    by (metis fst_conv steady_def)
  then show ?thesis
    by (auto simp: ssh_packet_encode_plain_def Let_def split: prod.splits sum.splits option.splits)
qed

lemma encode_status: "ssh_packet_encode_protected out cap payload rng p \<noteq> (Inl SSH_ERR_NOT_FOUND, packet, p')"
  using encode_plain_status [of out cap payload "prot_block_size p" rng]
  by (auto simp: ssh_packet_encode_protected_def Let_def split: prod.splits sum.splits if_splits)

lemma settles_send: "settles (ssh_transport_send_protected_payload server payload timeout_ms)"
  unfolding ssh_transport_send_protected_payload_def
  by (intro settles_more settles_thenP)
    (auto intro!: settles_more settles_thenP settles_bindP settles_write simp: encode_status split: prod.splits)

lemma settles_encode: "steady put \<Longrightarrow> settles (valueP (encode_payload cap put))"
  unfolding steady_def by (rule settles_more) (auto simp: encode_payload_def split: prod.splits sum.splits, metis fst_conv)

lemma settles_senders:
  "settles (ssh_transport_send_channel_exit_status server rc n timeout_ms)"
  "settles (ssh_transport_send_channel_eof server rc timeout_ms)"
  "settles (ssh_transport_send_channel_close server rc timeout_ms)"
  unfolding ssh_transport_send_channel_exit_status_def ssh_transport_send_channel_eof_def ssh_transport_send_channel_close_def
    send_channel_simple_def send_message_def ssh_channel_request_exit_status_encode_def ssh_channel_eof_encode_def
    ssh_channel_close_encode_def ssh_channel_simple_encode_def
  by (intro settles_if settles_bindP settles_thenP settles_encode settles_send settles_more settles_intros steady_intros; simp)+

lemma settles_data_loop: "settles (send_channel_data_loop server rc timeout_ms bs)"
proof (induction bs rule: length_induct)
  case (1 bs)
  then show ?case
    by (subst send_channel_data_loop.simps)
      (auto simp: Let_def packet_limits ssh_channel_data_encode_def
        intro!: settles_bindP settles_thenP settles_encode settles_send settles_intros steady_intros)
qed

lemma settles_data: "settles (ssh_transport_send_channel_data server rc bs timeout_ms)"
  unfolding ssh_transport_send_channel_data_def
  by (auto intro!: settles_thenP settles_data_loop settles_more settles_intros)

section \<open>The terminal channel\<close>

text \<open>Asking whether the process has ended does not end with \<^verbatim>\<open>SSH_ERR_NOT_FOUND\<close> either: a terminal that answers so would be
  asked again at once and for ever.\<close>

definition wait_exit_settles :: "('w, 'z) ssh_session_host_scheme \<Rightarrow> bool" where
  "wait_exit_settles server \<longleftrightarrow> (\<forall>term f h w. host_term server = Some term \<longrightarrow> term_wait_exit term = Some f \<longrightarrow>
     fst (f h w) \<noteq> Inl SSH_ERR_NOT_FOUND)"

lemma settles_pump: "settles (maybe_pump_terminal_output server effective)"
  unfolding maybe_pump_terminal_output_def Let_def
  by (auto intro!: settles_more settles_loopP settles_tryP settles_thenP settles_intros settles_data split: option.splits)

lemma settles_exit:
  assumes "wait_exit_settles server"
  shows "settles (maybe_send_terminal_exit_and_close server effective)"
  unfolding maybe_send_terminal_exit_and_close_def Let_def
  using assms
  by (auto intro!: settles_more settles_bindP settles_thenP settles_intros settles_senders settles_callP
      simp: wait_exit_settles_def bind_eq_Some_conv split: option.splits)

lemma pump_descends:
  assumes F: "finite_input server effective \<mu>" "wait_exit_settles server"
    and k: "descends (\<lambda>n s. (finite_input server effective \<mu> \<longrightarrow> input_left \<mu> n (snd s)) \<and> True) k"
  shows "descends (\<lambda>n s. (finite_input server effective \<mu> \<longrightarrow> input_left \<mu> n (snd s)) \<and> True) (pump_and_close server effective k)"
proof -
  note total = keeps_total [where N = "\<not> finite_input server effective \<mu>"]
  show ?thesis
    unfolding pump_and_close_def
    by (intro descends_thenP descends_after settles_pump settles_exit descends_if descends_failP k total ending.pump ending.exit_and_close)
      (use F in simp_all)
qed

lemma process_terminal_descends:
  assumes F: "finite_input server effective \<mu>" "wait_exit_settles server" and eff: "effective_session_options options = effective"
  shows "descends (\<lambda>n s. (finite_input server effective \<mu> \<longrightarrow> input_left \<mu> n (snd s)) \<and> True)
    (ssh_server_process_terminal_channel_data server options)" (is "descends ?G _")
proof -
  note total = keeps_total [where N = "\<not> finite_input server effective \<mu>"]
  have "descends (\<lambda>n s. ?G n (c, s)) (ssh_transport_receive_channel_message server cap timeout_ms)" for c cap timeout_ms
    using message_descends [OF F(1)] F(1) by simp
  note receive = descends_onP [where G = ?G, OF this]
  have kept: "keeps False (?G n) (process_terminal_message server effective m bs) (\<lambda>_. True)"
    "keeps False (?G n) (pump_and_close server effective (failP SSH_ERR_NOT_FOUND)) (\<lambda>_. True)" for n m bs
    by (rule total, simp add: F, intro ending.term_message ending.pump_close keeps_failP)+
  show ?thesis
    unfolding ssh_server_process_terminal_channel_data_def Let_def eff
    by (intro descends_chP descends_check pump_descends [OF F] descends_tryP [OF receive])
      (simp_all add: kept [simplified] descends_failP split: prod.splits)
qed


section \<open>Whole sessions\<close>

lemma sftp_session_returns:
  assumes F: "finite_input server (effective_session_options options) \<mu>"
  shows "wp False (ssh_server_run_sftp_session server options u) (\<lambda>_ _. True) (\<lambda>_ _. True) s"
proof -
  let ?eff = "effective_session_options options" and ?n = "\<mu> (snd s)"
  let ?I = "\<lambda>n s. finite_input server ?eff \<mu> \<longrightarrow> input_left \<mu> n s"
  let ?served = "\<lambda>n. sftp_serving (?I n) server ?eff"
  have accept: "wp False (ssh_server_accept_sftp_channel server (Some ?eff)) (\<lambda>_. ?served ?n False (\<lambda>_. True)) (\<lambda>_. ?served ?n True (\<lambda>_. True))
      (empty_sftp_channel, t)" if "input_left \<mu> ?n t" for t
    by (rule wpP_mono [OF ending.sftp_accept]) (use that F in \<open>auto simp: sftp_serving_def empty_sftp_channel_def\<close>)
  have login: "wp False (thenP (onP (ssh_server_run_transport_setup server (Some ?eff)))
      (thenP (onP (ssh_server_run_userauth server (Some ?eff))) (ssh_server_accept_sftp_channel server (Some ?eff))))
      (\<lambda>_. ?served ?n False (\<lambda>_. True)) (\<lambda>_. ?served ?n True (\<lambda>_. True)) (empty_sftp_channel, u, snd s)"
    by (rule wp_login_returns [OF F _ _ accept]) (simp_all add: sftp_serving_def empty_sftp_channel_def)
  have deinit: "wp False ssh_server_sftp_channel_deinit (\<lambda>_ _. True) (\<lambda>_ _. True) t" if "?served n False (\<lambda>_. True) t" for n t
    by (rule wpP_mono [OF keepsD [OF ending.sftp_deinit [where n = n and server = server and effective = ?eff and \<mu> = \<mu>]]])
      (use that F in simp_all)
  have serve: "wp False (serve_channel packets (ssh_server_process_sftp_channel_data server (Some ?eff)) ssh_server_sftp_channel_deinit)
      (\<lambda>_ _. True) (\<lambda>_ _. True) t" if "?served ?n True (\<lambda>_. True) (snd t)" for packets t
    by (rule wp_serve_returns [OF process_sftp_descends [OF F] deinit that]) (auto simp: sftp_serving_def)
  show ?thesis
    unfolding ssh_server_run_sftp_session_def Let_def
    by (rule wp_session [where W = "\<lambda>_. True", OF login]; (rule serve)?; (intro wp_thenP wp_diagP wp_onP wp_failP wpP_mono [OF deinit])?)
      auto
qed

lemma terminal_session_returns:
  assumes F: "finite_input server (effective_session_options options) \<mu>" "wait_exit_settles server"
  shows "wp False (ssh_server_run_terminal_session server options u) (\<lambda>_ _. True) (\<lambda>_ _. True) s"
proof -
  let ?eff = "effective_session_options options" and ?n = "\<mu> (snd s)"
  let ?G = "\<lambda>n s. (finite_input server ?eff \<mu> \<longrightarrow> input_left \<mu> n (snd s)) \<and> True"
  have accept: "wp False (ssh_server_accept_terminal_channel server (Some ?eff)) (\<lambda>_. ?G ?n) (\<lambda>_. ?G ?n) (empty_terminal_channel, t)"
    if "input_left \<mu> ?n t" for t
    by (rule wpP_mono [OF keepsD [OF ending.terminal_accept(1)]]) (use that F in auto)
  have login: "wp False (thenP (onP (ssh_server_run_transport_setup server (Some ?eff)))
      (thenP (onP (ssh_server_run_userauth server (Some ?eff))) (ssh_server_accept_terminal_channel server (Some ?eff))))
      (\<lambda>_. ?G ?n) (\<lambda>_. ?G ?n) (empty_terminal_channel, u, snd s)"
    by (rule wp_login_returns [OF F(1) _ _ accept]) simp_all
  have deinit: "wp False (ssh_server_terminal_channel_deinit server) (\<lambda>_ _. True) (\<lambda>_ _. True) t" if "?G n t" for n t
    by (rule wpP_mono [OF keepsD [OF ending.terminal_deinit that]]) (use F in auto)
  have serve: "wp False (serve_channel packets (ssh_server_process_terminal_channel_data server (Some ?eff)) (ssh_server_terminal_channel_deinit server))
      (\<lambda>_ _. True) (\<lambda>_ _. True) t" if "?G ?n (snd t)" for packets t
    by (rule wp_serve_returns [OF process_terminal_descends [OF F] deinit that]) simp_all
  show ?thesis
    unfolding ssh_server_run_terminal_session_def Let_def
    by (rule wp_session [where W = "\<lambda>_. True", OF login]; (rule serve)?; (intro wp_thenP wp_diagP wp_onP wp_failP wpP_mono [OF deinit])?)
      auto
qed

lemma descends_on_sftpP: "descends G m \<Longrightarrow> descends (\<lambda>n s. G n (fst (fst s), snd s)) (on_sftpP m)"
  by (rule descendsI, rule wp_on_sftpP, rule wpP_mono [OF descendsD]) auto

lemma descends_on_termP: "descends G m \<Longrightarrow> descends (\<lambda>n s. G n (snd (fst s), snd s)) (on_termP m)"
  by (rule descendsI, rule wp_on_termP, rule wpP_mono [OF descendsD]) auto

lemma auto_session_returns:
  assumes F: "finite_input server (effective_session_options options) \<mu>" "wait_exit_settles server"
  shows "wp False (ssh_server_run_auto_session server options u) (\<lambda>_ _. True) (\<lambda>_ _. True) s"
proof -
  let ?eff = "effective_session_options options" and ?n = "\<mu> (snd s)"
  let ?I = "\<lambda>n s. finite_input server ?eff \<mu> \<longrightarrow> input_left \<mu> n s"
  let ?served = "\<lambda>n. sftp_serving (?I n) server ?eff True (\<lambda>_. True)"
  let ?G = "\<lambda>kind t. ?I ?n (snd t) \<and> (kind = SSH_SERVER_CHANNEL_KIND_SFTP \<longrightarrow> ?served ?n (fst (fst t), snd t))"
  let ?c = "(empty_sftp_channel, empty_terminal_channel)"
  have chosen: "wp False (choose_channel server ?eff chan) (\<lambda>_ _. True) ?G t" if "?I ?n (snd t) \<and> fst t = ?c" for chan t
    by (rule wpP_mono [OF ending.choose [where \<mu> = \<mu> and n = ?n]]) (use that F in \<open>auto simp: sftp_matches_def empty_sftp_channel_def\<close>)
  have accept: "wp False (bindP (onP (accept_session_channel server ?eff)) (choose_channel server ?eff)) (\<lambda>_ _. True) ?G (?c, t)"
    if "input_left \<mu> ?n t" for t
    by (rule wp_bindP, rule wp_keeps [OF keeps_total [OF _ ending.on [where C = "\<lambda>c. c = ?c" and \<mu> = \<mu> and n = ?n, OF ending.accept_channel]]],
        use F in blast, use that in simp, blast, rule chosen, blast)
  have login: "wp False (thenP (onP (ssh_server_run_transport_setup server (Some ?eff)))
      (thenP (onP (ssh_server_run_userauth server (Some ?eff)))
      (bindP (onP (accept_session_channel server ?eff)) (choose_channel server ?eff)))) (\<lambda>_ _. True) ?G (?c, u, snd s)"
    by (rule wp_login_returns [OF F(1) _ _ accept]) simp_all
  have sftp: "wp False (serve_channel packets (on_sftpP (ssh_server_process_sftp_channel_data server (Some ?eff))) (on_sftpP ssh_server_sftp_channel_deinit))
      (\<lambda>_ _. True) (\<lambda>_ _. True) t" if "?served ?n (fst (fst (snd t)), snd (snd t))" for packets t
    by (rule wp_serve_returns [OF descends_on_sftpP [OF process_sftp_descends [OF F(1)]]])
      (use that F in \<open>auto intro!: wp_on_sftpP wp_keeps [OF keeps_total [OF _ ending.sftp_deinit [where effective = ?eff and \<mu> = \<mu>]]] simp: sftp_serving_def\<close>)
  have terminal: "wp False (serve_channel packets (on_termP (ssh_server_process_terminal_channel_data server (Some ?eff)))
      (on_termP (ssh_server_terminal_channel_deinit server))) (\<lambda>_ _. True) (\<lambda>_ _. True) t" if "?I ?n (snd (snd t))" for packets t
    by (rule wp_serve_returns [OF descends_on_termP [OF process_terminal_descends [OF F]]])
      (use that F in \<open>auto intro!: wp_on_termP wp_keeps [OF keeps_total [OF _ ending.terminal_deinit [where effective = ?eff and \<mu> = \<mu>]]]\<close>)
  show ?thesis
    unfolding ssh_server_run_auto_session_def Let_def
    by (rule wp_session [where W = "\<lambda>_. True", OF login]; (intro wpP_if sftp terminal wp_thenP wp_diagP wp_failP)?) auto
qed


text \<open>C3. Every session returns when its connection ends. Suppose that each read that delivers bytes or times out lowers the bound
  \<open>\<mu>\<close> on what the connection can still deliver, that no other callback raises it, and that a terminal asked for the end of its
  process never answers \<^verbatim>\<open>SSH_ERR_NOT_FOUND\<close>. Then no loop of set-up, authentication, channel acceptance or message processing
  runs for ever, whatever the peer sends.\<close>

theorem every_session_returns:
  assumes "session \<in> server_sessions server options u" "finite_input server (effective_session_options options) \<mu>"
    and "wait_exit_settles server"
  shows "\<exists>r d' w'. session (d, w) = Some (r, (d', w'))"
proof -
  have "wp False session (\<lambda>_ _. True) (\<lambda>_ _. True) (d, w)"
    using assms sftp_session_returns [of server options \<mu> u "(d, w)"] terminal_session_returns [of server options \<mu> u "(d, w)"]
      auto_session_returns [of server options \<mu> u "(d, w)"]
    by (auto simp: server_sessions_def)
  then show ?thesis
    using wpP_returns by (metis option.collapse prod.collapse)
qed

text \<open>A host whose connection delivers the bytes of a list and then ends, and whose output is accepted.\<close>

definition input_host :: "u8 list ssh_session_host" where
  "input_host = ssh_server.extend sample_server
     \<lparr>host_initialized = True,
      host_net = Some \<lparr>net_read = Some (\<lambda>n t w. if w = [] then (Inl 0, []) else (Inr (take n w), drop n w)),
        net_write = Some (\<lambda>bs t w. (int (length bs), w))\<rparr>,
      host_rng = None,
      host_kex = \<lparr>kex_generate_keypair = None, kex_compute_shared_secret = None, hostkey_public = None, hash_exchange = None,
        hostkey_sign = None, derive_key = None, kexinit_defaults = None\<rparr>,
      host_backend_algorithms = None, host_fs = None, host_term = None, host_log = None\<rparr>"

theorem every_session_returns_witness:
  "\<exists>r d w. ssh_server_run_auto_session input_host None fresh_session
     (update_server_diag_from_transport fresh_session, lit ''SSH-2.0-client'' @ [13, 10]) = Some (r, (d, w))"
proof (rule every_session_returns [where \<mu> = length and u = fresh_session])
  show "finite_input input_host (effective_session_options None) length"
    by (auto simp: finite_input_def input_ends_def callbacks_keep_def transport_keeps_def call_keeps_def policy_keeps_def
        input_host_def ssh_server.defs effective_session_options_def ssh_server_session_options_defaults_def EMSSH_NET_IO_TIMEOUT_def
        split: if_splits)
  show "wait_exit_settles input_host"
    by (simp add: wait_exit_settles_def input_host_def ssh_server.defs)
qed (simp add: server_sessions_def)

end
