(* ===== verification/Ssh_Session_Channel.thy ===== *)
theory Ssh_Session_Channel
  imports Ssh_Session_Live
begin

text \<open>
  The SFTP channel of \<^verbatim>\<open>src/core/ssh_server.c\<close> in detail: how responses are cut to the window and the packet size of the peer,
  how the bytes of the channel are cut into requests, and where the code falls short: a response that waits for the window
  is not sent when the window opens.
\<close>

section \<open>Flow control\<close>

text \<open>Pieces of at most \<open>m\<close> bytes; 0 stands for no limit.\<close>

function window_chunks :: "nat \<Rightarrow> u8 list \<Rightarrow> u8 list list" where
  "window_chunks m bs = (if bs = [] then [] else
     let k = (if m \<noteq> 0 \<and> length bs > m then m else length bs) in take k bs # window_chunks m (drop k bs))"
  by pat_completeness auto
termination by (relation "measure (\<lambda>(m, bs). length bs)") auto

declare window_chunks.simps [simp del]

lemma window_chunks_Nil [simp]: "window_chunks m [] = []"
  by (simp add: window_chunks.simps)

lemma window_chunks_correct:
  "concat (window_chunks m bs) = bs" "\<forall>c \<in> set (window_chunks m bs). c \<noteq> [] \<and> (m \<noteq> 0 \<longrightarrow> length c \<le> m)"
proof (induction m bs rule: window_chunks.induct)
  case (1 m bs)
  case 1
  show ?case
    using "1.IH"(1) by (subst window_chunks.simps) (simp add: Let_def)
  case 2
  show ?case
    using "1.IH"(2) by (subst window_chunks.simps) (auto simp: Let_def)
qed

lemma window_chunks_Cons:
  "bs \<noteq> [] \<Longrightarrow> k = (if m \<noteq> 0 \<and> length bs > m then m else length bs) \<Longrightarrow>
   window_chunks m bs = take k bs # window_chunks m (drop k bs)"
  by (subst window_chunks.simps) simp

fun send_all :: "('w, 'z) ssh_host_scheme \<Rightarrow> u32 \<Rightarrow> u32 \<Rightarrow> u8 list list \<Rightarrow> ('w tstate, unit) proc" where
  "send_all server rc timeout_ms [] = retP ()"
| "send_all server rc timeout_ms (c # cs) =
     thenP (ssh_transport_send_channel_data server rc c timeout_ms) (send_all server rc timeout_ms cs)"

abbreviation sendable :: "'w ssh_server_sftp_channel \<Rightarrow> u8 list" where
  "sendable c \<equiv> take (unat (sch_peer_window_size c)) (sch_tx_pending c)"

definition after_flush :: "'w ssh_server_sftp_channel \<Rightarrow> 'w ssh_server_sftp_channel" where
  "after_flush c = c\<lparr>sch_peer_window_size := sch_peer_window_size c - of_nat (length (sendable c)),
     sch_tx_pending := drop (length (sendable c)) (sch_tx_pending c)\<rparr>"

lemma flush_len_eq:
  "flush_len c = (if sch_peer_max_packet_size c \<noteq> 0 \<and> length (sendable c) > unat (sch_peer_max_packet_size c)
     then unat (sch_peer_max_packet_size c) else length (sendable c))"
  by (auto simp: flush_len_def Let_def min_def)

text \<open>One turn of the flushing loop sends one piece.\<close>

lemma flush_step:
  fixes c :: "'w ssh_server_sftp_channel"
  assumes "sendable c \<noteq> []"
  defines "c' \<equiv> c\<lparr>sch_peer_window_size := sch_peer_window_size c - of_nat (flush_len c), sch_tx_pending := drop (flush_len c) (sch_tx_pending c)\<rparr>"
  shows "window_chunks (unat (sch_peer_max_packet_size c)) (sendable c) =
      take (flush_len c) (sch_tx_pending c) # window_chunks (unat (sch_peer_max_packet_size c)) (sendable c')"
    and "sendable c' = drop (flush_len c) (sendable c)" and "after_flush c' = after_flush c"
proof -
  let ?w = "unat (sch_peer_window_size c)" and ?k = "flush_len c"
  have k: "?k \<le> ?w" "?k \<le> length (sendable c)" "?k \<le> length (sch_tx_pending c)"
    using flush_len_bounds [of c] by (simp_all add: flush_len_eq)
  have w: "unat (sch_peer_window_size c') = ?w - ?k"
    unfolding c'_def using window_decreases [OF k(1)] by simp
  then show rest: "sendable c' = drop ?k (sendable c)"
    by (simp add: c'_def drop_take)
  have "take ?k (sendable c) = take ?k (sch_tx_pending c)"
    using k by (simp add: min_def)
  then show "window_chunks (unat (sch_peer_max_packet_size c)) (sendable c) =
      take ?k (sch_tx_pending c) # window_chunks (unat (sch_peer_max_packet_size c)) (sendable c')"
    unfolding rest using window_chunks_Cons [OF assms(1), of ?k "unat (sch_peer_max_packet_size c)"]
    by (simp add: flush_len_eq unat_eq_0)
  have "length (sendable c') = length (sendable c) - ?k"
    by (simp add: rest)
  with k show "after_flush c' = after_flush c"
    by (simp add: after_flush_def c'_def add.commute flip: of_nat_add)
qed


lemma flush_loop_sends:
  assumes "send_all server (sch_client_channel c) timeout_ms (window_chunks (unat (sch_peer_max_packet_size c)) (sendable c)) s = Some (Inr (), s')"
  shows "maybe_flush_pending_sftp_response server timeout_ms (c, s) =
    Some (if sch_tx_pending (after_flush c) = [] then Inr () else Inl SSH_ERR_NOT_FOUND, (after_flush c, s'))"
  using assms
proof (induction "length (sch_tx_pending c)" arbitrary: c s rule: less_induct)
  case less
  show ?case
  proof (cases "sendable c = []")
    case True
    with less.prems show ?thesis
      by (auto simp: maybe_flush_pending_sftp_response_def loopP_unfold chP_def after_flush_def unat_eq_0 thenP_def bindP_def)
  next
    case False
    let ?c = "c\<lparr>sch_peer_window_size := sch_peer_window_size c - of_nat (flush_len c), sch_tx_pending := drop (flush_len c) (sch_tx_pending c)\<rparr>"
    note step = flush_step [OF False]
    have pos: "0 < flush_len c" "sch_tx_pending c \<noteq> []" "sch_peer_window_size c \<noteq> 0"
      using False flush_len_pos [of c] by (auto simp: unat_gt_0)
    obtain s1 where s1: "ssh_transport_send_channel_data server (sch_client_channel c) (take (flush_len c) (sch_tx_pending c)) timeout_ms s = Some (Inr (), s1)"
      "send_all server (sch_client_channel c) timeout_ms (window_chunks (unat (sch_peer_max_packet_size c)) (sendable ?c)) s1 = Some (Inr (), s')"
      using less.prems by (auto simp: step(1) thenP_eq_Some)
    have "maybe_flush_pending_sftp_response server timeout_ms (?c, s1) =
      Some (if sch_tx_pending (after_flush c) = [] then Inr () else Inl SSH_ERR_NOT_FOUND, (after_flush c, s'))"
      using less.hyps [of ?c s1] pos s1(2) by (simp add: step(3))
    with pos s1(1) show ?thesis
      by (subst (asm) maybe_flush_pending_sftp_response_def, subst maybe_flush_pending_sftp_response_def)
        (simp add: thenP_def bindP_def loopP_unfold [of _ _ "(c, s)"] chP_def chmodP_def onP_def Let_def)
  qed
qed


lemma response_chunk_step:
  assumes k: "k = (if sch_peer_max_packet_size c \<noteq> 0 \<and> length bs > unat (sch_peer_max_packet_size c)
      then unat (sch_peer_max_packet_size c) else length bs)" and "bs \<noteq> []" "0 < k"
    and "ssh_transport_send_channel_data server (sch_client_channel c) (take k bs) timeout_ms s = Some (Inr (), s1)"
  shows "send_response_chunks server timeout_ms bs (c, s) = send_response_chunks server timeout_ms (drop k bs) (c, s1)"
  using assms unfolding send_response_chunks_def
  by (cases "sch_peer_max_packet_size c \<noteq> 0 \<and> length bs > unat (sch_peer_max_packet_size c)"; subst loopP_unfold)
    (auto simp: bindP_def thenP_def chP_def onP_def Let_def)

lemma response_chunks_sends:
  "send_all server (sch_client_channel c) timeout_ms (window_chunks (unat (sch_peer_max_packet_size c)) bs) s = Some (Inr (), s') \<Longrightarrow>
   send_response_chunks server timeout_ms bs (c, s) = Some (Inr (), (c, s'))"
proof (induction "length bs" arbitrary: bs s rule: less_induct)
  case less
  show ?case
  proof (cases "bs = []")
    case True
    with less.prems show ?thesis
      by (simp add: send_response_chunks_def loopP_unfold)
  next
    case False
    let ?m = "unat (sch_peer_max_packet_size c)"
    define k where k: "k = (if sch_peer_max_packet_size c \<noteq> 0 \<and> length bs > ?m then ?m else length bs)"
    have "0 < k"
      using False by (simp add: k unat_gt_0)
    have "window_chunks ?m bs = take k bs # window_chunks ?m (drop k bs)"
      using False by (rule window_chunks_Cons) (simp add: k unat_eq_0)
    with less.prems obtain s1 where
      s1: "ssh_transport_send_channel_data server (sch_client_channel c) (take k bs) timeout_ms s = Some (Inr (), s1)"
        "send_all server (sch_client_channel c) timeout_ms (window_chunks ?m (drop k bs)) s1 = Some (Inr (), s')"
      by (auto simp: thenP_eq_Some)
    then have "send_response_chunks server timeout_ms (drop k bs) (c, s1) = Some (Inr (), (c, s'))"
      using less.hyps [of "drop k bs" s1] False \<open>0 < k\<close> by simp
    then show ?thesis
      by (simp only: response_chunk_step [OF k False \<open>0 < k\<close> s1(1)])
  qed
qed

text \<open>C14. Flow control of responses. The pending response goes out up to the window of the peer, in pieces of at most its packet
  size, in order and without gap; the window shrinks by what was sent, and what is left stays pending, which the function
  reports.\<close>

theorem responses_respect_window:
  assumes "send_all server (sch_client_channel c) timeout_ms (window_chunks (unat (sch_peer_max_packet_size c)) (sendable c)) s = Some (Inr (), s')"
  shows "maybe_flush_pending_sftp_response server timeout_ms (c, s) =
      Some (if length (sch_tx_pending c) \<le> unat (sch_peer_window_size c) then Inr () else Inl SSH_ERR_NOT_FOUND,
        (c\<lparr>sch_peer_window_size := sch_peer_window_size c - of_nat (length (sendable c)),
           sch_tx_pending := drop (unat (sch_peer_window_size c)) (sch_tx_pending c)\<rparr>, s')) \<and>
    concat (window_chunks (unat (sch_peer_max_packet_size c)) (sendable c)) = sendable c \<and>
    list_all (\<lambda>chunk. chunk \<noteq> [] \<and> length chunk \<le> unat (sch_peer_window_size c) \<and>
        (sch_peer_max_packet_size c = 0 \<or> length chunk \<le> unat (sch_peer_max_packet_size c)))
      (window_chunks (unat (sch_peer_max_packet_size c)) (sendable c))"
proof (intro conjI)
  let ?chunks = "window_chunks (unat (sch_peer_max_packet_size c)) (sendable c)"
  have "drop (length (sendable c)) (sch_tx_pending c) = drop (unat (sch_peer_window_size c)) (sch_tx_pending c)"
    by (simp add: min_def)
  then show "maybe_flush_pending_sftp_response server timeout_ms (c, s) =
      Some (if length (sch_tx_pending c) \<le> unat (sch_peer_window_size c) then Inr () else Inl SSH_ERR_NOT_FOUND,
        (c\<lparr>sch_peer_window_size := sch_peer_window_size c - of_nat (length (sendable c)),
           sch_tx_pending := drop (unat (sch_peer_window_size c)) (sch_tx_pending c)\<rparr>, s'))"
    using flush_loop_sends [OF assms] by (simp add: after_flush_def)
  show all: "concat ?chunks = sendable c"
    by (rule window_chunks_correct)
  have "length chunk \<le> unat (sch_peer_window_size c)" if "chunk \<in> set ?chunks" for chunk
  proof -
    have "length chunk \<le> length (concat ?chunks)"
      using that by (auto simp: length_concat intro: member_le_sum_list)
    with all show ?thesis by simp
  qed
  then show "list_all (\<lambda>chunk. chunk \<noteq> [] \<and> length chunk \<le> unat (sch_peer_window_size c) \<and>
        (sch_peer_max_packet_size c = 0 \<or> length chunk \<le> unat (sch_peer_max_packet_size c))) ?chunks"
    using window_chunks_correct(2) [of "unat (sch_peer_max_packet_size c)" "sendable c"] by (auto simp: list_all_iff unat_eq_0)
qed


text \<open>A host with the pipe as its network, a channel on it, and data sent on the channel.\<close>

definition pipe_session_host :: "pipe ssh_session_host" where
  "pipe_session_host = ssh_host.extend pipe_host \<lparr>host_fs = None, host_term = None, host_log = None\<rparr>"

lemma pipe_session_host_fields [simp]:
  "host_net pipe_session_host = Some pipe_net" "host_rng pipe_session_host = Some (\<lambda>w. (\<lambda>n. Inr (replicate n 0), w))"
  by (simp_all add: pipe_session_host_def pipe_host_def ssh_host.defs ssh_server.defs)

lemma sample_send:
  assumes "length bs \<le> 100"
  obtains t where "ssh_transport_send_channel_data pipe_session_host rc bs 0 (keyed_session, ([], [])) = Some (Inr (), t)"
proof -
  have chunks: "data_chunks bs = [bs]"
    using assms by (subst data_chunks.simps) (simp add: packet_limits)
  have len: "length (channel_data_payload rc bs) \<le> EMSSH_MAX_PAYLOAD_SIZE"
    using assms by (simp add: channel_data_payload_def string_bytes_def packet_limits)
  obtain ts1 wire where "ssh_transport_send_protected_payload pipe_session_host (channel_data_payload rc bs) 0 (keyed_session, ([], [])) =
      Some (Inr (), (ts1, ([], wire)))"
    by (rule link_transfer [of pipe_session_host "\<lambda>n. Inr (replicate n 0)" pipe_session_host keyed_session keyed_session
          "channel_data_payload rc bs" EMSSH_MAX_PAYLOAD_SIZE 0 "([], [])"])
      (auto simp: sample_link_ok fill_works_def len)
  then show thesis
    by (intro that) (simp add: ssh_transport_send_channel_data_def send_channel_data_loop_chunks chunks thenP_def bindP_def
      to_state_def modP_def packet_limits)
qed

definition waiting_channel :: "pipe ssh_server_sftp_channel" where
  "waiting_channel = empty_sftp_channel\<lparr>sch_initialized := True, sch_client_channel := 3, sch_server_channel := 2,
     sch_peer_window_size := 1, sch_tx_pending := [7, 8]\<rparr>"

theorem responses_respect_window_witness:
  "\<exists>s'. maybe_flush_pending_sftp_response pipe_session_host 0 (waiting_channel, (keyed_session, ([], []))) =
      Some (Inl SSH_ERR_NOT_FOUND, (waiting_channel\<lparr>sch_peer_window_size := 0, sch_tx_pending := [8]\<rparr>, s'))"
proof -
  obtain t where t: "ssh_transport_send_channel_data pipe_session_host 3 [7] 0 (keyed_session, ([], [])) = Some (Inr (), t)"
    by (rule sample_send [of "[7]" 3]) simp_all
  have "window_chunks 0 [7] = [[7]]"
    by (simp add: window_chunks.simps)
  with t have "send_all pipe_session_host 3 0 (window_chunks 0 [7]) (keyed_session, ([], [])) = Some (Inr (), t)"
    by (simp add: thenP_def bindP_def)
  then show ?thesis
    using responses_respect_window [of pipe_session_host waiting_channel 0 "(keyed_session, ([], []))" t]
    by (intro exI [of _ t]) (simp add: waiting_channel_def empty_sftp_channel_def)
qed

text \<open>The direct reply is an optimisation of the pending one: when the window admits the whole response, sending it at once and
  storing it as pending before a flush give the same state.\<close>

theorem direct_reply_equals_pending:
  assumes "length response \<le> unat (sch_peer_window_size c)" "sch_tx_pending c = []"
    and "send_all server (sch_client_channel c) timeout_ms (window_chunks (unat (sch_peer_max_packet_size c)) response) s = Some (Inr (), s')"
  shows "thenP (send_response_chunks server timeout_ms response)
      (chmodP (\<lambda>channel. channel\<lparr>sch_peer_window_size := sch_peer_window_size channel - of_nat (length response)\<rparr>)) (c, s) =
    thenP (chmodP (\<lambda>channel. channel\<lparr>sch_tx_pending := response\<rparr>)) (maybe_flush_pending_sftp_response server timeout_ms) (c, s)"
proof -
  have "maybe_flush_pending_sftp_response server timeout_ms (c\<lparr>sch_tx_pending := response\<rparr>, s) =
      Some (Inr (), (after_flush (c\<lparr>sch_tx_pending := response\<rparr>), s'))"
    using flush_loop_sends [of server "c\<lparr>sch_tx_pending := response\<rparr>" timeout_ms s s'] assms by (simp add: after_flush_def)
  moreover have "after_flush (c\<lparr>sch_tx_pending := response\<rparr>) = c\<lparr>sch_peer_window_size := sch_peer_window_size c - of_nat (length response)\<rparr>"
    using assms(1,2) by (simp add: after_flush_def min_def)
  ultimately show ?thesis
    using response_chunks_sends [OF assms(3)] by (simp add: thenP_def bindP_def chmodP_def)
qed

theorem direct_reply_equals_pending_witness:
  "\<exists>t. thenP (send_response_chunks pipe_session_host 0 [7])
      (chmodP (\<lambda>channel. channel\<lparr>sch_peer_window_size := sch_peer_window_size channel - of_nat (length [7 :: u8])\<rparr>))
        (waiting_channel\<lparr>sch_tx_pending := []\<rparr>, (keyed_session, ([], []))) = Some (Inr (), t) \<and>
    thenP (chmodP (\<lambda>channel. channel\<lparr>sch_tx_pending := [7]\<rparr>)) (maybe_flush_pending_sftp_response pipe_session_host 0)
        (waiting_channel\<lparr>sch_tx_pending := []\<rparr>, (keyed_session, ([], []))) = Some (Inr (), t)"
proof -
  let ?c = "waiting_channel\<lparr>sch_tx_pending := []\<rparr>"
  have c: "sch_peer_window_size ?c = 1" "sch_peer_max_packet_size ?c = 0" "sch_client_channel ?c = 3"
    by (simp_all add: waiting_channel_def empty_sftp_channel_def)
  obtain t where t: "ssh_transport_send_channel_data pipe_session_host 3 [7] 0 (keyed_session, ([], [])) = Some (Inr (), t)"
    by (rule sample_send [of "[7]" 3]) simp_all
  have "window_chunks 0 [7] = [[7]]"
    by (simp add: window_chunks.simps)
  with t c have all: "send_all pipe_session_host (sch_client_channel ?c) 0 (window_chunks (unat (sch_peer_max_packet_size ?c)) [7])
      (keyed_session, ([], [])) = Some (Inr (), t)"
    by (simp add: thenP_def bindP_def)
  have "length [7 :: u8] \<le> unat (sch_peer_window_size ?c)" "sch_tx_pending ?c = []"
    using c by simp_all
  from direct_reply_equals_pending [OF this all] response_chunks_sends [OF all] show ?thesis
    by (intro exI [of _ "(?c\<lparr>sch_peer_window_size := sch_peer_window_size ?c - 1\<rparr>, t)"])
      (simp add: thenP_def bindP_def chmodP_def)
qed

section \<open>Requests in the channel data\<close>

text \<open>The requests in the buffered bytes, the bytes that are left, and whether their length field is acceptable.\<close>

function split_frames :: "u8 list \<Rightarrow> u8 list list \<times> u8 list \<times> bool" where
  "split_frames rx =
    (if length rx < 4 then ([], rx, True)
     else let n = unat (read_u32_be_local rx) in
     if n = 0 \<or> n > EMSSH_SFTP_MAX_PACKET_SIZE - 4 then ([], rx, False)
     else if length rx < n + 4 then ([], rx, True)
     else case split_frames (drop (n + 4) rx) of (packets, rest) \<Rightarrow> (take (n + 4) rx # packets, rest))"
  by pat_completeness auto
termination by (relation "measure length") auto

declare split_frames.simps [simp del]

lemma split_frames_step:
  assumes "4 \<le> length rx" "unat (read_u32_be_local rx) = n" "n \<noteq> 0" "n \<le> EMSSH_SFTP_MAX_PACKET_SIZE - 4" "n + 4 \<le> length rx"
  shows "split_frames rx = (case split_frames (drop (n + 4) rx) of (packets, rest) \<Rightarrow> (take (n + 4) rx # packets, rest))"
  using assms by (subst split_frames.simps) simp

lemma split_frames_stop:
  assumes "length rx < 4 \<or> unat (read_u32_be_local rx) = 0 \<or> unat (read_u32_be_local rx) > EMSSH_SFTP_MAX_PACKET_SIZE - 4 \<or>
      length rx < unat (read_u32_be_local rx) + 4"
  shows "split_frames rx = ([], rx, length rx < 4 \<or>
      unat (read_u32_be_local rx) \<noteq> 0 \<and> unat (read_u32_be_local rx) \<le> EMSSH_SFTP_MAX_PACKET_SIZE - 4)"
  using assms by (subst split_frames.simps) (auto simp: Let_def)

lemma read_u32_take: "4 \<le> n \<Longrightarrow> read_u32_be_local (take n rx) = read_u32_be_local rx"
  by (simp add: read_u32_be_local_def)

lemma split_frames_induct [case_names stop step]:
  assumes "\<And>rx. length rx < 4 \<or> unat (read_u32_be_local rx) = 0 \<or> unat (read_u32_be_local rx) > EMSSH_SFTP_MAX_PACKET_SIZE - 4 \<or>
      length rx < unat (read_u32_be_local rx) + 4 \<Longrightarrow> P rx"
    and "\<And>rx n. 4 \<le> length rx \<Longrightarrow> unat (read_u32_be_local rx) = n \<Longrightarrow> n \<noteq> 0 \<Longrightarrow> n \<le> EMSSH_SFTP_MAX_PACKET_SIZE - 4 \<Longrightarrow>
      n + 4 \<le> length rx \<Longrightarrow> P (drop (n + 4) rx) \<Longrightarrow> P rx"
  shows "P rx"
proof (induction rx rule: split_frames.induct)
  case (1 rx)
  show ?case
  proof (cases "length rx < 4 \<or> unat (read_u32_be_local rx) = 0 \<or> unat (read_u32_be_local rx) > EMSSH_SFTP_MAX_PACKET_SIZE - 4 \<or>
      length rx < unat (read_u32_be_local rx) + 4")
    case False
    then show ?thesis
      by (intro assms(2) [of rx "unat (read_u32_be_local rx)"] 1) auto
  qed (rule assms(1))
qed

lemma split_frames_correct:
  "split_frames rx = (packets, rest, ok) \<Longrightarrow> rx = concat packets @ rest \<and>
     (\<forall>p \<in> set packets. 4 < length p \<and> length p \<le> EMSSH_SFTP_MAX_PACKET_SIZE \<and> unat (read_u32_be_local p) + 4 = length p)"
proof (induction rx arbitrary: packets rule: split_frames_induct)
  case (step rx n)
  obtain ps where "split_frames (drop (n + 4) rx) = (ps, rest, ok)" "packets = take (n + 4) rx # ps"
    using step split_frames_step [of rx n] by (auto split: prod.splits)
  with step show ?case
    by (auto simp: EMSSH_SFTP_MAX_PACKET_SIZE_def read_u32_take min_def) (metis append_assoc append_take_drop_id)
qed (simp add: split_frames_stop)

text \<open>The cut does not depend on how the bytes arrive: later data continues it.\<close>

lemma split_frames_append:
  "split_frames rx = (packets, rest, True) \<Longrightarrow>
   split_frames (rx @ later) = (case split_frames (rest @ later) of (packets', rest') \<Rightarrow> (packets @ packets', rest'))"
proof (induction rx arbitrary: packets rule: split_frames_induct)
  case (step rx n)
  obtain ps where ps: "split_frames (drop (n + 4) rx) = (ps, rest, True)" "packets = take (n + 4) rx # ps"
    using step split_frames_step [of rx n] by (auto split: prod.splits)
  have "split_frames (rx @ later) = (case split_frames (drop (n + 4) (rx @ later)) of (packets, rest) \<Rightarrow> (take (n + 4) (rx @ later) # packets, rest))"
    by (rule split_frames_step) (use step read_u32_take [of 4 "rx @ later"] read_u32_take [of 4 rx] in auto)
  with ps step show ?case by (auto split: prod.splits)
qed (auto simp: split_frames_stop split: prod.splits)

text \<open>Answering one request, given by its bytes, with \<open>remaining\<close> as what the buffer holds once the request is taken out of it; and answering
  requests one after the other, with \<open>rest\<close> behind the last.\<close>

definition answer_request :: "('w, 'z) ssh_session_host_scheme \<Rightarrow> 'w ssh_server_session_options \<Rightarrow> u8 list \<Rightarrow> u8 list
    \<Rightarrow> ('w sftp_chan, unit + unit) proc" where
  "answer_request server effective request remaining =
    (let request_id = (if length request \<ge> 9 \<and> request ! 4 \<noteq> SSH_FXP_INIT \<and> request ! 4 \<noteq> SSH_FXP_VERSION
           then Some (read_u32_be_local (drop 5 request)) else None);
         trace_line = (\<lambda>line. onP (sftp_trace_log_line server (opt_sftp_trace_enabled effective) line)) in
     thenP (trace_line (request_line (request ! 4) (read_u32_be_local request) (length request) request_id))
     (thenP (onP (sftp_trace_log_request_paths server (opt_sftp_trace_enabled effective) (request ! 4) request))
     (tryP (sftpP (sftp_server_handle_packet request EMSSH_MAX_PACKET_SIZE))
       (\<lambda>e. thenP (trace_line (handle_error_line e (request ! 4) request_id)) (failP e))
       (\<lambda>response.
        thenP (trace_line (response_line response))
        (thenP (chmodP (\<lambda>channel. channel\<lparr>sch_rx := remaining\<rparr>))
        (send_sftp_response server (opt_timeout_ms effective) response))))))"

fun serve_each :: "('w, 'z) ssh_session_host_scheme \<Rightarrow> 'w ssh_server_session_options \<Rightarrow> u8 list list \<Rightarrow> u8 list \<Rightarrow> ('w sftp_chan, unit) proc" where
  "serve_each server effective [] rest = retP ()"
| "serve_each server effective (p # ps) rest =
     bindP (answer_request server effective p (concat ps @ rest)) (\<lambda>_. serve_each server effective ps rest)"

lemma tryP_cong:
  "(\<And>x t. m s = Some (Inr x, t) \<Longrightarrow> k x t = k' x t) \<Longrightarrow> (\<And>e t. m s = Some (Inl e, t) \<Longrightarrow> h e t = h' e t) \<Longrightarrow>
   tryP m h k s = tryP m h' k' s"
  by (auto simp: tryP_def split: option.splits prod.splits sum.splits)

lemma thenP_cong: "(\<And>x t. m s = Some (Inr x, t) \<Longrightarrow> k t = k' t) \<Longrightarrow> thenP m k s = thenP m k' s"
  by (auto simp: thenP_def bindP_def split: option.splits prod.splits sum.splits)

lemma on_keeps_channel: "onP m s = Some (r, t) \<Longrightarrow> fst t = fst s"
  by (auto simp: onP_def split: option.splits prod.splits)

lemma sftp_keeps_rx: "sftpP m s = Some (r, t) \<Longrightarrow> sch_rx (fst t) = sch_rx (fst s)"
  by (auto simp: sftpP_def split: prod.splits)

lemma serve_is_answer:
  assumes "unat len \<noteq> 0" "unat len + 4 \<le> length (sch_rx c)" "read_u32_be_local (sch_rx c) = len"
  shows "serve_sftp_packet server effective len (c, s) =
    answer_request server effective (take (unat len + 4) (sch_rx c)) (drop (unat len + 4) (sch_rx c)) (c, s)"
proof -
  let ?request = "take (unat len + 4) (sch_rx c)" and ?rest = "drop (unat len + 4) (sch_rx c)"
  have request: "?request ! 4 = sch_rx c ! 4" "length ?request = unat len + 4" "read_u32_be_local ?request = len"
    using assms by (simp_all add: read_u32_take)
  have id: "(5 \<le> len) = (9 \<le> unat len + 4)"
    by (simp add: word_le_nat_alt)
  have later: "read_u32_be_local (drop 5 ?request) = read_u32_be_local (drop 5 (sch_rx c))" if "9 \<le> unat len + 4"
    using that read_u32_take [of "unat len - 1" "drop 5 (sch_rx c)"] by (simp add: drop_take)
  have answered: "thenP (onP m) (thenP (chmodP (\<lambda>channel. channel\<lparr>sch_rx := drop (unat len + 4) (sch_rx channel)\<rparr>)) k) t =
      thenP (onP m) (thenP (chmodP (\<lambda>channel. channel\<lparr>sch_rx := ?rest\<rparr>)) k) t"
    if "sch_rx (fst t) = sch_rx c" for m t and k :: "('a sftp_chan, unit + unit) proc"
    by (rule thenP_cong) (use that on_keeps_channel in \<open>fastforce simp: thenP_def bindP_def chmodP_def\<close>)
  have request_id: "(if 9 \<le> unat len + 4 \<and> P then Some (read_u32_be_local (drop 5 ?request)) else None) =
      (if 9 \<le> unat len + 4 \<and> P then Some (read_u32_be_local (drop 5 (sch_rx c))) else None)" for P
    using later by simp
  show ?thesis
    unfolding serve_sftp_packet_def answer_request_def Let_def chP_def askP_def fst_conv request id request_id
    by (rule thenP_cong, rule thenP_cong, rule tryP_cong, rule answered) (auto dest!: on_keeps_channel sftp_keeps_rx)
qed

lemma wp_on_any: "(\<And>t x. Q x (fst s, t)) \<Longrightarrow> wp True (onP m) (\<lambda>_ _. True) Q s"
  by (rule wp_onP, rule wpP_mono [OF wp_any]) simp_all

lemma flush_stops:
  assumes "unat (sch_peer_window_size (fst s)) < length (sch_tx_pending (fst s))"
  shows "wp True (maybe_flush_pending_sftp_response server timeout_ms) (\<lambda>_ _. True) (\<lambda>_ _. False) s"
proof -
  have step: "unat (sch_peer_window_size c - of_nat (flush_len c)) < length (sch_tx_pending c) - flush_len c"
    if "unat (sch_peer_window_size c) < length (sch_tx_pending c)" for c :: "'a ssh_server_sftp_channel"
    using that flush_len_bounds(2) [of c] by (simp add: window_decreases)
  show ?thesis
    unfolding maybe_flush_pending_sftp_response_def Let_def
    by (rule wp_thenP, rule wp_loopP [where I = "\<lambda>_ t. unat (sch_peer_window_size (fst t)) < length (sch_tx_pending (fst t))"])
      (use assms in \<open>auto intro!: wp_chP wpP_if wp_retP wp_on_any wp_thenP wp_chmodP wp_ensureP step\<close>)
qed

lemma chunks_keep_channel:
  "wp True (send_response_chunks server timeout_ms rest) (\<lambda>_ _. True) (\<lambda>_ t. fst t = fst s) s"
  unfolding send_response_chunks_def Let_def
  by (rule wp_loopP [where I = "\<lambda>_ t. fst t = fst s"]) (auto intro!: wpP_if wp_retP wp_chP wp_thenP wp_ensureP wp_on_any)

lemma wp_sftpP:
  "(\<And>e c ts w. sch_rx c = sch_rx (fst s) \<Longrightarrow> E e (c, ts, w)) \<Longrightarrow> (\<And>x c ts w. sch_rx c = sch_rx (fst s) \<Longrightarrow> Q x (c, ts, w)) \<Longrightarrow>
   wp N (sftpP m) E Q s"
  by (simp add: wp_def sftpP_def split: prod.splits sum.splits)

text \<open>A request that is served without error is removed and has been answered completely.\<close>

lemma serve_packet_done:
  "wp True (serve_sftp_packet server effective len) (\<lambda>_ _. True)
     (\<lambda>r t. r = Inl () \<and> sch_rx (fst t) = drop (unat len + 4) (sch_rx (fst s))) s"
  unfolding serve_sftp_packet_def send_sftp_response_def Let_def
  by (intro wp_chP wp_thenP wp_on_any wp_tryP wp_sftpP wp_failP wp_chmodP wpP_if wp_ensureP
      wpP_mono [OF flush_stops] wpP_mono [OF chunks_keep_channel] wp_retP) auto


lemma serve_packets_unfold:
  "serve_sftp_packets server effective s =
    (let rx = sch_rx (fst s); n = read_u32_be_local rx in
     if length rx < 4 then retP () s
     else if n = 0 \<or> unat n > EMSSH_SFTP_MAX_PACKET_SIZE - 4
     then thenP (onP (sftp_trace_log_line server (opt_sftp_trace_enabled effective) (malformed_length_line n (length rx))))
       (failP SSH_ERR_MALFORMED_PACKET) s
     else if length rx < unat n + 4 then retP () s
     else bindP (serve_sftp_packet server effective n) (\<lambda>_. serve_sftp_packets server effective) s)"
proof -
  have cont: "bindP (serve_sftp_packet server effective n) (\<lambda>r. case r of Inl y \<Rightarrow> k y | Inr a \<Rightarrow> retP a) s =
      bindP (serve_sftp_packet server effective n) (\<lambda>_. k ()) s" for n and k :: "unit \<Rightarrow> ('a sftp_chan, unit) proc"
    using serve_packet_done [of server effective n s] by (auto simp: wp_def bindP_def split: option.splits prod.splits sum.splits)
  have shape: "bindP (chP q) f s = bindP (q (fst s)) f s" "bindP (if b then m else m') f s = (if b then bindP m f s else bindP m' f s)"
    "bindP (thenP p (failP e)) f s = thenP p (failP e) s"
    for q m m' p e b and f :: "unit + unit \<Rightarrow> ('a sftp_chan, unit) proc"
    by (simp_all add: bindP_def thenP_def chP_def split: option.splits prod.splits sum.splits)
  show ?thesis
    unfolding serve_sftp_packets_def by (subst loopP_unfold) (simp add: shape cont Let_def not_le)
qed


lemma serve_packets_each:
  assumes "split_frames (sch_rx c) = (packets, rest, ok)"
  shows "serve_sftp_packets server effective (c, s) = thenP (serve_each server effective packets rest)
     (if ok then retP () else thenP (onP (sftp_trace_log_line server (opt_sftp_trace_enabled effective)
        (malformed_length_line (read_u32_be_local rest) (length rest)))) (failP SSH_ERR_MALFORMED_PACKET)) (c, s)"
  using assms
proof (induction "sch_rx c" arbitrary: c s packets rule: split_frames_induct)
  case stop
  then show ?case
    by (subst serve_packets_unfold) (auto simp: split_frames_stop Let_def unat_eq_0)
next
  case (step n)
  let ?rx = "sch_rx c" and ?n = "read_u32_be_local (sch_rx c)"
  let ?k = "if ok then retP () else thenP (onP (sftp_trace_log_line server (opt_sftp_trace_enabled effective)
        (malformed_length_line (read_u32_be_local rest) (length rest)))) (failP SSH_ERR_MALFORMED_PACKET)"
  obtain ps where ps: "split_frames (drop (n + 4) ?rx) = (ps, rest, ok)" "packets = take (n + 4) ?rx # ps"
    using step split_frames_step [of ?rx n] by (auto split: prod.splits)
  have remaining: "drop (n + 4) ?rx = concat ps @ rest"
    using split_frames_correct [OF ps(1)] by simp
  have rest: "serve_sftp_packets server effective t = thenP (serve_each server effective ps rest) ?k t"
    if "serve_sftp_packet server effective ?n (c, s) = Some (Inr r, t)" for r t
    using step(6) [of "fst t" ps "snd t"] wpP_Inr [OF serve_packet_done that] ps(1) step(2) by simp
  have "serve_sftp_packets server effective (c, s) = bindP (serve_sftp_packet server effective ?n) (\<lambda>_. serve_sftp_packets server effective) (c, s)"
    using step(1-5) by (subst serve_packets_unfold) (auto simp: Let_def unat_eq_0)
  moreover have "serve_sftp_packet server effective ?n (c, s) = answer_request server effective (take (n + 4) ?rx) (concat ps @ rest) (c, s)"
    using serve_is_answer [of ?n c server effective s] step(2,3,5) remaining by simp
  ultimately have "serve_sftp_packets server effective (c, s) = thenP (serve_each server effective packets rest) ?k (c, s)"
    using rest ps(2) by (auto simp: bindP_def thenP_def split: option.splits prod.splits sum.splits)
  then show ?case .
qed

lemma answer_done:
  "wp True (answer_request server effective request remaining) (\<lambda>_ _. True) (\<lambda>r t. sch_rx (fst t) = remaining) s"
  unfolding answer_request_def send_sftp_response_def Let_def
  by (intro wp_chP wp_thenP wp_on_any wp_tryP wp_sftpP wp_failP wp_chmodP wpP_if wp_ensureP
      wpP_mono [OF flush_stops] wpP_mono [OF chunks_keep_channel] wp_retP) auto

lemma serve_each_rest:
  "sch_rx (fst s) = concat packets @ rest \<Longrightarrow>
   wp True (serve_each server effective packets rest) (\<lambda>_ _. True) (\<lambda>_ t. sch_rx (fst t) = rest) s"
proof (induction packets arbitrary: s)
  case (Cons p ps)
  show ?case
    unfolding serve_each.simps by (rule wp_bindP, rule wpP_mono [OF answer_done]) (auto intro: Cons.IH)
qed (auto intro: wp_retP)

lemma split_frames_malformed:
  "split_frames rx = (packets, rest, False) \<Longrightarrow> split_frames (rx @ later) = (packets, rest @ later, False)"
proof (induction rx arbitrary: packets rule: split_frames_induct)
  case (step rx n)
  obtain ps where ps: "split_frames (drop (n + 4) rx) = (ps, rest, False)" "packets = take (n + 4) rx # ps"
    using step split_frames_step [of rx n] by (auto split: prod.splits)
  have "split_frames (rx @ later) = (case split_frames (drop (n + 4) (rx @ later)) of (packets, rest) \<Rightarrow> (take (n + 4) (rx @ later) # packets, rest))"
    by (rule split_frames_step) (use step read_u32_take [of 4 "rx @ later"] read_u32_take [of 4 rx] in auto)
  with ps step show ?case by (auto split: prod.splits)
next
  case (stop rx)
  then have "4 \<le> length rx" "unat (read_u32_be_local rx) = 0 \<or> unat (read_u32_be_local rx) > EMSSH_SFTP_MAX_PACKET_SIZE - 4"
    "packets = []" "rest = rx"
    by (auto simp: split_frames_stop)
  moreover from this have "read_u32_be_local (rx @ later) = read_u32_be_local rx"
    using read_u32_take [of 4 "rx @ later"] read_u32_take [of 4 rx] by simp
  ultimately show ?case
    using split_frames_stop [of "rx @ later"] by auto
qed

text \<open>C13. The bytes of the channel are cut into requests at their length fields: serving the buffer is answering, one after the other
  and each exactly once, the complete requests at its head, then refusing a bad length if one follows. The server is given for each
  request exactly its bytes, length field included. When the function returns without error the buffer holds what is behind the
  last complete request, and no bad length. Each request is between 5 bytes and the limit long and has the length it announces, and the cut does
  not depend on how the data was divided into channel messages: later data continues it.\<close>

theorem requests_are_framed:
  "case split_frames (sch_rx c) of (packets, rest, ok) \<Rightarrow>
     serve_sftp_packets server effective (c, s) = thenP (serve_each server effective packets rest)
       (if ok then retP () else thenP (onP (sftp_trace_log_line server (opt_sftp_trace_enabled effective)
          (malformed_length_line (read_u32_be_local rest) (length rest)))) (failP SSH_ERR_MALFORMED_PACKET)) (c, s) \<and>
     (case serve_sftp_packets server effective (c, s) of Some (Inr _, t) \<Rightarrow> ok \<and> sch_rx (fst t) = rest | _ \<Rightarrow> True) \<and>
     sch_rx c = concat packets @ rest \<and>
     list_all (\<lambda>p. 5 \<le> length p \<and> length p \<le> EMSSH_SFTP_MAX_PACKET_SIZE \<and> unat (read_u32_be_local p) + 4 = length p) packets \<and>
     split_frames (sch_rx c @ later) =
       (if ok then case split_frames (rest @ later) of (packets', rest') \<Rightarrow> (packets @ packets', rest') else (packets, rest @ later, False))"
proof -
  obtain packets rest ok where split: "split_frames (sch_rx c) = (packets, rest, ok)" by (metis prod.exhaust)
  note cut = split_frames_correct [OF split] and each = serve_packets_each [OF split, of server effective s]
  have kept: "case serve_sftp_packets server effective (c, s) of Some (Inr _, t) \<Rightarrow> ok \<and> sch_rx (fst t) = rest | _ \<Rightarrow> True"
    using serve_each_rest [of "(c, s)" packets rest server effective] cut
    by (cases ok) (auto simp: each wp_def thenP_def bindP_def split: option.splits prod.splits sum.splits)
  have more: "split_frames (sch_rx c @ later) =
      (if ok then case split_frames (rest @ later) of (packets', rest') \<Rightarrow> (packets @ packets', rest') else (packets, rest @ later, False))"
    using split split_frames_append [of "sch_rx c" packets rest later] split_frames_malformed [of "sch_rx c" packets rest later] by (cases ok) simp_all
  show ?thesis
    unfolding split prod.case by (intro conjI each kept more) (use cut in \<open>auto simp: list_all_iff Suc_le_eq\<close>)
qed


section \<open>Responses that wait for the window\<close>

text \<open>C37. A response can be stranded. When part of a response waits for the window of the peer and no request is buffered, the
  window adjustment the peer answers with is recorded, but nothing is sent: the function returns success with the response still
  pending. It stays there until the peer sends a further request, which a peer that waits for the response does not.\<close>

theorem window_adjust_strands_response:
  assumes "sch_initialized c" "sch_rx c = []" "\<not> opt_sftp_trace_enabled (effective_session_options options)"
    and "ssh_transport_receive_channel_message server EMSSH_MAX_PACKET_SIZE (opt_timeout_ms (effective_session_options options)) s =
      Some (Inr (message, bs), s')"
    and "cm_recipient_channel message = sch_server_channel c" "cm_message_id message = SSH_MSG_CHANNEL_WINDOW_ADJUST"
  shows "ssh_server_process_sftp_channel_data server options (c, s) =
    Some (Inr (), (c\<lparr>sch_peer_window_size := add_u32_saturating (sch_peer_window_size c) (cm_window_bytes message)\<rparr>, s'))"
  using assms
  by (simp add: ssh_server_process_sftp_channel_data_def process_sftp_message_def sftp_trace_log_line_def chP_def chmodP_def
      thenP_def bindP_def tryP_def onP_def Let_def)

theorem window_adjust_strands_response_witness:
  "\<exists>wire s'. ssh_server_process_sftp_channel_data pipe_session_host None (waiting_channel, (keyed_session, (wire, []))) =
     Some (Inr (), (waiting_channel\<lparr>sch_peer_window_size := 1001\<rparr>, s')) \<and> snd (snd s') = [] \<and>
     sch_tx_pending (waiting_channel\<lparr>sch_peer_window_size := 1001\<rparr>) = [7, 8]"
proof -
  let ?e = "Window_adjust 2 1000" and ?t = "opt_timeout_ms (effective_session_options (None :: pipe ssh_server_session_options option))"
  have "event_valid ?e" "length (event_bytes ?e) \<le> EMSSH_MAX_PAYLOAD_SIZE" "length (event_data ?e) \<le> EMSSH_MAX_PACKET_SIZE"
    "link_ok (ts_outbound keyed_session)" "ts_inbound keyed_session = ts_outbound keyed_session" "fill_works (Some (\<lambda>n. Inr (replicate n 0)))"
    by (simp_all add: sample_link_ok fill_works_def event_bytes_def packet_limits)
  note event_transfer [OF pipe_session_host_fields this(6) pipe_session_host_fields(1) this(4,5,1-3), of ?t "([], [])"]
  then obtain wire ts where "ssh_transport_receive_channel_message pipe_session_host EMSSH_MAX_PACKET_SIZE ?t (keyed_session, (wire, [])) =
      Some (Inr (event_message ?e, event_data ?e), (ts, ([], [])))"
    by (metis append_Nil2)
  from window_adjust_strands_response [OF _ _ _ this, of waiting_channel] show ?thesis
    by (intro exI [of _ wire] exI [of _ "(ts, ([], []))"])
      (simp add: waiting_channel_def empty_sftp_channel_def effective_session_options_def ssh_server_session_options_defaults_def
        event_message_def add_u32_saturating_def)
qed

end
