(* ===== verification/Text_Lines.thy ===== *)
theory Text_Lines
  imports Sftp_Server Emssh_Proc
begin

text \<open>
  Text files read line by line. \<^verbatim>\<open>read_and_parse_file_via_fs\<close> of \<^verbatim>\<open>src/platform/sshd_config_file.c\<close> and
  \<^verbatim>\<open>read_hash_from_file\<close> of \<^verbatim>\<open>src/platform/posix_passwd_auth.c\<close> have the same loop: chunks of 512 bytes from the
  file system, a line buffer of fixed size, a function called for each line that may end the search, and the handle closed on
  every way out. \<open>read_text_file\<close> is that loop, with the size, the function for a line and what follows the last line as
  arguments.

  The reading of a file does not depend on how the file system cuts it into chunks: it is \<open>run_text\<close> on the whole contents,
  and, when no line is too long, \<open>run_lines\<close> on its lines.
\<close>

section \<open>The loop\<close>

definition newline :: u8 where "newline = 10"

text \<open>The loop over a chunk; \<open>line\<close> is the used part of the line buffer. The function for a line continues with \<open>None\<close>.\<close>

fun scan_chunk :: "nat \<Rightarrow> (u8 list \<Rightarrow> ('s, 'a option) act) \<Rightarrow> u8 list \<Rightarrow> u8 list \<Rightarrow> ('s, u8 list + 'a) act" where
  "scan_chunk capacity f line [] = retA (Inl line)"
| "scan_chunk capacity f line (c # chunk) =
     (if c = newline then
        bindA (f line) (\<lambda>r. case r of None \<Rightarrow> scan_chunk capacity f [] chunk | Some a \<Rightarrow> retA (Inr a))
      else if length line + 1 \<ge> capacity then failA SSH_ERR_BUFFER_TOO_SMALL
      else scan_chunk capacity f (line @ [c]) chunk)"

definition last_line :: "(u8 list \<Rightarrow> ('s, 'a option) act) \<Rightarrow> ('s, 'a) act \<Rightarrow> u8 list \<Rightarrow> ('s, 'a) act" where
  "last_line f after line =
     (if line \<noteq> [] then bindA (f line) (\<lambda>r. case r of None \<Rightarrow> after | Some a \<Rightarrow> retA a) else after)"

text \<open>The state is that of the function for a line and the world of the file system.\<close>

definition localP :: "('s, 'a) act \<Rightarrow> ('s \<times> 'w, 'a) proc" where
  "localP m s = (case m (fst s) of (r, t) \<Rightarrow> Some (r, (t, snd s)))"

definition worldP :: "('w, 'a) act \<Rightarrow> ('s \<times> 'w, 'a) proc" where
  "worldP m = onP (actP m)"

text \<open>Every way out of the loop closes the handle and ignores the status of that.\<close>

definition leave_file :: "('w, unit) act \<Rightarrow> ('s, 'a) act \<Rightarrow> ('a \<Rightarrow> 'b + 'c) \<Rightarrow> ('s \<times> 'w, 'b + 'c) proc" where
  "leave_file close m k =
     tryP (localP m) (\<lambda>e. dropP (worldP close) (failP e))
       (\<lambda>r. case k r of Inl x \<Rightarrow> retP (Inl x) | Inr a \<Rightarrow> dropP (worldP close) (retP (Inr a)))"

definition read_step :: "nat \<Rightarrow> (u8 list \<Rightarrow> ('s, 'a option) act) \<Rightarrow> ('s, 'a) act \<Rightarrow> ('w, u8 list) act \<Rightarrow> ('w, unit) act \<Rightarrow>
    u8 list \<Rightarrow> ('s \<times> 'w, u8 list + 'a) proc" where
  "read_step capacity f after read close line =
     tryP (worldP read) (\<lambda>e. dropP (worldP close) (failP e)) (\<lambda>chunk.
       if chunk = [] then leave_file close (last_line f after line) Inr
       else leave_file close (scan_chunk capacity f line chunk) id)"

definition read_text_file :: "nat \<Rightarrow> (u8 list \<Rightarrow> ('s, 'a option) act) \<Rightarrow> ('s, 'a) act \<Rightarrow> 'w ssh_fs_api option \<Rightarrow> cstr \<Rightarrow> ('s \<times> 'w, 'a) proc" where
  "read_text_file capacity f after fs path =
     (case (fs, path) of
       (Some fs, Some path) \<Rightarrow>
         (case (fs_open fs, fs_read fs, fs_close fs) of
           (Some opening, Some reading, Some closing) \<Rightarrow>
             bindP (worldP (opening path SSH_FXF_READ)) (\<lambda>handle.
             loopP (read_step capacity f after (reading handle 512) (closing handle)) [])
         | _ \<Rightarrow> failP SSH_ERR_INVALID_ARGUMENT)
     | _ \<Rightarrow> failP SSH_ERR_INVALID_ARGUMENT)"

section \<open>The contents as a whole\<close>

definition run_text :: "nat \<Rightarrow> (u8 list \<Rightarrow> ('s, 'a option) act) \<Rightarrow> ('s, 'a) act \<Rightarrow> u8 list \<Rightarrow> u8 list \<Rightarrow> ('s, 'a) act" where
  "run_text capacity f after line content =
     bindA (scan_chunk capacity f line content) (\<lambda>r. case r of Inl line \<Rightarrow> last_line f after line | Inr a \<Rightarrow> retA a)"

fun run_lines :: "(u8 list \<Rightarrow> ('s, 'a option) act) \<Rightarrow> ('s, 'a) act \<Rightarrow> u8 list list \<Rightarrow> ('s, 'a) act" where
  "run_lines f after [] = after"
| "run_lines f after (line # lines) = bindA (f line) (\<lambda>r. case r of None \<Rightarrow> run_lines f after lines | Some a \<Rightarrow> retA a)"

text \<open>The lines of a text; the last one needs no newline when it is not empty.\<close>

fun lines_from :: "u8 list \<Rightarrow> u8 list \<Rightarrow> u8 list list" where
  "lines_from line [] = (if line = [] then [] else [line])"
| "lines_from line (c # cs) = (if c = newline then line # lines_from [] cs else lines_from (line @ [c]) cs)"

abbreviation text_lines :: "u8 list \<Rightarrow> u8 list list" where
  "text_lines \<equiv> lines_from []"

lemma scan_append:
  "scan_chunk capacity f line (a @ b) s =
     bindA (scan_chunk capacity f line a) (\<lambda>r. case r of Inl l \<Rightarrow> scan_chunk capacity f l b | Inr x \<Rightarrow> retA (Inr x)) s"
  by (induction capacity f line a arbitrary: s rule: scan_chunk.induct)
    (auto simp: bindA_def split: prod.splits sum.splits option.splits)

lemma run_text_append:
  "run_text capacity f after line (a @ b) =
     bindA (scan_chunk capacity f line a) (\<lambda>r. case r of Inl l \<Rightarrow> run_text capacity f after l b | Inr x \<Rightarrow> retA x)"
  by (rule ext) (auto simp: run_text_def scan_append bindA_def split: prod.splits sum.splits)

lemma run_text_Nil [simp]: "run_text capacity f after line [] = last_line f after line"
  by (rule ext) (simp add: run_text_def)

theorem run_text_lines:
  "list_all (\<lambda>l. length l < capacity) (lines_from line content) \<Longrightarrow> length line < capacity \<Longrightarrow>
   run_text capacity f after line content = run_lines f after (lines_from line content)"
proof (induction content arbitrary: line)
  case Nil
  then show ?case
    by (rule_tac ext) (simp add: last_line_def bindA_def split: prod.splits sum.splits option.splits)
next
  case (Cons c content)
  show ?case
  proof (cases "c = newline")
    case True
    have *: "run_text capacity f after line (c # content) s = bindA (f line) (\<lambda>r. case r of
        None \<Rightarrow> run_text capacity f after [] content | Some a \<Rightarrow> retA a) s" for s
      using True by (simp add: run_text_def bindA_def split: prod.splits sum.splits option.splits)
    have "run_text capacity f after [] content = run_lines f after (text_lines content)"
      using Cons True by (intro Cons.IH) auto
    with True show ?thesis
      by (intro ext) (simp add: * [unfolded True] cong: option.case_cong)
  next
    case False
    have "lines_from (line @ [c]) content \<noteq> []" "length (hd (lines_from (line @ [c]) content)) \<ge> length line + 1"
    proof -
      have "lines_from l cs \<noteq> [] \<and> length (hd (lines_from l cs)) \<ge> length l" if "l \<noteq> []" for l cs
        using that by (induction l cs rule: lines_from.induct) force+
      from this [of "line @ [c]" content] show "lines_from (line @ [c]) content \<noteq> []" "length (hd (lines_from (line @ [c]) content)) \<ge> length line + 1"
        by auto
    qed
    with Cons.prems False have "length (line @ [c]) < capacity"
      by (cases "lines_from (line @ [c]) content") auto
    with Cons False show ?thesis
      by (simp add: run_text_def)
  qed
qed

section \<open>Reading in pieces\<close>

text \<open>The file system delivers the contents in pieces and then reports the end of the file.\<close>

fun delivers :: "('w, u8 list) act \<Rightarrow> u8 list list \<Rightarrow> 'w \<Rightarrow> bool" where
  "delivers read [] w \<longleftrightarrow> (\<exists>w'. read w = (Inr [], w'))"
| "delivers read (piece # pieces) w \<longleftrightarrow> piece \<noteq> [] \<and> (\<exists>w'. read w = (Inr piece, w') \<and> delivers read pieces w')"

lemma text_proc_apply [simp]:
  "worldP m (s, w) = Some (fst (m w), (s, snd (m w)))"
  "localP a (s, w) = Some (fst (a s), (snd (a s), w))"
  by (simp_all add: worldP_def onP_def localP_def split: prod.splits)

lemma dropP_worldP [simp]: "dropP (worldP m) k (s, w) = k (s, snd (m w))"
  by (cases "fst (m w)") (simp_all add: dropP_def)

lemma wp_worldP: "(\<And>e v. E e (s, v)) \<Longrightarrow> (\<And>x v. Q x (s, v)) \<Longrightarrow> wp N (worldP m) E Q (s, w)"
  by (simp add: wp_def split: sum.splits)

lemma read_step_simps:
  "read w = (Inr [], w') \<Longrightarrow> last_line f after line s = (r, t) \<Longrightarrow>
     read_step capacity f after read close line (s, w) = Some (map_sum id Inr r, (t, snd (close w')))"
  "read w = (Inr chunk, w') \<Longrightarrow> chunk \<noteq> [] \<Longrightarrow> scan_chunk capacity f line chunk s = (Inr (Inl l), t) \<Longrightarrow>
     read_step capacity f after read close line (s, w) = Some (Inr (Inl l), (t, w'))"
  "read w = (Inr chunk, w') \<Longrightarrow> chunk \<noteq> [] \<Longrightarrow> scan_chunk capacity f line chunk s = (Inr (Inr a), t) \<Longrightarrow>
     read_step capacity f after read close line (s, w) = Some (Inr (Inr a), (t, snd (close w')))"
  "read w = (Inr chunk, w') \<Longrightarrow> chunk \<noteq> [] \<Longrightarrow> scan_chunk capacity f line chunk s = (Inl e, t) \<Longrightarrow>
     read_step capacity f after read close line (s, w) = Some (Inl e, (t, snd (close w')))"
  by (cases r; simp add: read_step_def leave_file_def tryP_def) (simp_all add: read_step_def leave_file_def tryP_def)

text \<open>The worlds that reading leads to.\<close>

abbreviation reads_to :: "('w, u8 list) act \<Rightarrow> 'w \<Rightarrow> 'w \<Rightarrow> bool" where
  "reads_to read \<equiv> rtranclp (\<lambda>v v'. v' = snd (read v))"

lemma read_loop_text:
  assumes "delivers read pieces w"
  shows "\<exists>w'. reads_to read w w' \<and> loopP (read_step capacity f after read close) line (s, w) =
     Some (fst (run_text capacity f after line (concat pieces) s), (snd (run_text capacity f after line (concat pieces) s), snd (close w')))"
  using assms
proof (induction pieces arbitrary: line s w)
  case Nil
  then obtain w' where w': "read w = (Inr [], w')"
    by auto
  then have to: "reads_to read w w'"
    by (simp add: r_into_rtranclp)
  obtain r t where rt: "last_line f after line s = (r, t)"
    by fastforce
  show ?case
    unfolding loopP_unfold [of _ line] bindP_def read_step_simps(1) [where read = read and w = w, OF w' rt]
    using rt to by (cases r) auto
next
  case (Cons piece pieces)
  then obtain w' where w': "read w = (Inr piece, w')" "piece \<noteq> []" and rest: "delivers read pieces w'"
    by auto
  then have to: "reads_to read w w'"
    by (simp add: r_into_rtranclp)
  obtain r t where rt: "scan_chunk capacity f line piece s = (r, t)"
    by fastforce
  consider (line) l where "r = Inr (Inl l)" | (result) a where "r = Inr (Inr a)" | (error) e where "r = Inl e"
    by (cases r; cases "projr r") auto
  then show ?case
  proof cases
    case line
    then show ?thesis
      unfolding loopP_unfold [of _ line] bindP_def read_step_simps(2) [where read = read and w = w, OF w' rt [unfolded line]]
      using Cons.IH [OF rest, of l t] rt rtranclp_trans [OF to] by (auto simp: run_text_append)
  next
    case result
    then show ?thesis
      unfolding loopP_unfold [of _ line] bindP_def read_step_simps(3) [where read = read and w = w, OF w' rt [unfolded result]]
      using rt to by (auto simp: run_text_append)
  next
    case error
    then show ?thesis
      unfolding loopP_unfold [of _ line] bindP_def read_step_simps(4) [where read = read and w = w, OF w' rt [unfolded error]]
      using rt to by (auto simp: run_text_append)
  qed
qed

theorem read_text_file_text:
  assumes "fs_open fs = Some opening" "fs_read fs = Some reading" "fs_close fs = Some closing"
    and "opening path SSH_FXF_READ w = (Inr handle, w1)" "delivers (reading handle 512) pieces w1"
  shows "\<exists>w'. reads_to (reading handle 512) w1 w' \<and> read_text_file capacity f after (Some fs) (Some path) (s, w) =
     Some (fst (run_text capacity f after [] (concat pieces) s),
       (snd (run_text capacity f after [] (concat pieces) s), snd (closing handle w')))"
  using read_loop_text [OF assms(5), of capacity f after "closing handle" "[]" s] assms(1-4)
  by (simp add: read_text_file_def)

section \<open>The contract of a function for a line\<close>

text \<open>What the function for a line keeps of its state and promises of its result holds of the whole reading, whatever the file
  system does, and also when the reading fails.\<close>

locale line_handler =
  fixes f :: "u8 list \<Rightarrow> ('s, 'a option) act" and after :: "('s, 'a) act" and I :: "'s \<Rightarrow> bool" and Q :: "'a \<Rightarrow> 's \<Rightarrow> bool"
  assumes keeps_line: "I s \<Longrightarrow> f line s = (r, t) \<Longrightarrow> I t \<and> (\<forall>a. r = Inr (Some a) \<longrightarrow> Q a t)"
    and keeps_after: "I s \<Longrightarrow> after s = (q, t) \<Longrightarrow> I t \<and> (\<forall>a. q = Inr a \<longrightarrow> Q a t)"
begin

lemma scan_keeps: "I s \<Longrightarrow> scan_chunk capacity f line chunk s = (r, t) \<Longrightarrow> I t \<and> (\<forall>a. r = Inr (Inr a) \<longrightarrow> Q a t)"
proof (induction chunk arbitrary: line s)
  case (Cons c chunk)
  obtain q u where u: "f line s = (q, u)"
    by fastforce
  with Cons.prems(1) have "I u" "\<And>a. q = Inr (Some a) \<Longrightarrow> Q a u"
    using keeps_line by blast+
  with Cons u show ?case
    by (auto simp: bindA_def split: if_splits sum.splits option.splits)
qed auto

lemma last_line_keeps: "I s \<Longrightarrow> last_line f after line s = (r, t) \<Longrightarrow> I t \<and> (\<forall>a. r = Inr a \<longrightarrow> Q a t)"
proof -
  assume I: "I s" and eq: "last_line f after line s = (r, t)"
  obtain q u where u: "f line s = (q, u)"
    by fastforce
  with I have "I u" "\<And>a. q = Inr (Some a) \<Longrightarrow> Q a u"
    using keeps_line by blast+
  with I eq u keeps_after show ?thesis
    by (auto simp: last_line_def bindA_def split: if_splits sum.splits option.splits)
qed

abbreviation holds :: "'b + 'a \<Rightarrow> 's \<times> 'w \<Rightarrow> bool" where
  "holds c st \<equiv> (case c of Inl _ \<Rightarrow> I (fst st) | Inr a \<Rightarrow> I (fst st) \<and> Q a (fst st))"

lemma leave_keeps:
  assumes "\<And>r t. m s = (r, t) \<Longrightarrow> I t \<and> (\<forall>x a. r = Inr x \<longrightarrow> k x = Inr a \<longrightarrow> Q a t)"
  shows "wp True (leave_file close m k) (\<lambda>_ st. I (fst st)) holds (s, w)"
proof -
  obtain r t where rt: "m s = (r, t)" by fastforce
  with assms [OF rt] show ?thesis
    by (cases r) (auto simp: wp_def leave_file_def tryP_def split: sum.splits)
qed

lemma step_keeps:
  assumes "I (fst st)"
  shows "wp True (read_step capacity f after read close line) (\<lambda>_ st. I (fst st)) holds st"
proof -
  obtain s w where st: "st = (s, w)" by fastforce
  have last: "wp True (leave_file close (last_line f after line) Inr) (\<lambda>_ st. I (fst st)) holds (s, v)" for v
    by (rule leave_keeps) (use assms last_line_keeps in \<open>simp add: st\<close>)
  have scan: "wp True (leave_file close (scan_chunk capacity f line chunk) id) (\<lambda>_ st. I (fst st)) holds (s, v)" for v chunk
    by (rule leave_keeps, drule scan_keeps [rotated]) (use assms in \<open>simp_all add: st\<close>)
  have fail: "wp True (dropP (worldP close) (failP e)) (\<lambda>_ st. I (fst st)) holds (s, v)" for e v
    using assms by (simp add: wp_def st)
  show ?thesis
    unfolding read_step_def st by (rule wp_tryP, rule wp_worldP) (simp_all add: last scan fail)
qed

theorem read_keeps:
  fixes w :: 'w
  assumes "I s" "read_text_file capacity f after fs path (s, w) = Some (r, (t, w'))"
  shows "I t \<and> (\<forall>a. r = Inr a \<longrightarrow> Q a t)"
proof -
  have loop: "wp True (loopP (read_step capacity f after read close) []) (\<lambda>_ st. I (fst st)) (\<lambda>a st. I (fst st) \<and> Q a (fst st)) st"
    if "I (fst st)" for st :: "'s \<times> 'w" and read close
    by (rule wp_loopP [where I = "\<lambda>_ st. I (fst st)"], rule step_keeps, assumption) (rule that)
  have "wp True (read_text_file capacity f after fs path) (\<lambda>_ st. I (fst st)) (\<lambda>a st. I (fst st) \<and> Q a (fst st)) (s, w)"
  proof (cases "\<exists>api p opening reading closing. fs = Some api \<and> path = Some p \<and> fs_open api = Some opening \<and>
      fs_read api = Some reading \<and> fs_close api = Some closing")
    case True
    then show ?thesis
      by (auto simp: read_text_file_def assms(1) intro!: wp_bindP wp_worldP loop)
  next
    case False
    then show ?thesis
      by (auto simp: read_text_file_def wp_def assms(1) split: option.splits)
  qed
  with assms(2) show ?thesis
    by (cases r) (auto simp: wp_def)
qed

end

end
