(* ===== verification/Sshd_Config.thy ===== *)
theory Sshd_Config
  imports Text_Lines Ssh_Session_Server
begin

text \<open>
  The configuration file: \<^verbatim>\<open>src/platform/sshd_config_file.c\<close>. Directives, \<^verbatim>\<open>Match\<close> blocks with their criteria, and the
  transfer of what was read to the configuration of the server and the options of its sessions.

  A character array is the bytes before its NUL. The members for the algorithm lists, which the parser never sets, are left out.
  A context that is NULL is \<open>None\<close>.
\<close>

section \<open>Data\<close>

type_synonym u16 = "16 word"

definition EMSSH_SSHD_CONFIG_VALUE_MAX :: nat where "EMSSH_SSHD_CONFIG_VALUE_MAX = 512"

record ssh_sshd_config_file =
  scf_has_port :: bool
  scf_port :: u16
  scf_has_listen_address :: bool
  scf_listen_address :: "u8 list"
  scf_has_max_auth_tries :: bool
  scf_max_auth_tries :: nat
  scf_has_password_authentication :: bool
  scf_password_authentication :: bool
  scf_has_pubkey_authentication :: bool
  scf_pubkey_authentication :: bool
  scf_has_permit_root_login :: bool
  scf_permit_root_login :: int
  scf_has_allow_users :: bool
  scf_allow_users :: "u8 list"
  scf_has_subsystem :: bool
  scf_subsystem_name :: "u8 list"
  scf_has_authorized_keys_file :: bool
  scf_authorized_keys_file :: "u8 list"
  scf_has_chroot_directory :: bool
  scf_chroot_directory :: "u8 list"
  scf_has_host_key :: bool
  scf_host_key_file :: "u8 list"

record ssh_sshd_match_context =
  smc_user :: cstr
  smc_group :: cstr
  smc_host :: cstr
  smc_address :: cstr
  smc_local_address :: cstr
  smc_local_port :: u16
  smc_rdomain :: cstr

section \<open>Characters and strings\<close>

definition is_space_char :: "u8 \<Rightarrow> bool" where
  "is_space_char ch \<longleftrightarrow> ch = 32 \<or> ch = 9 \<or> ch = 13 \<or> ch = 10"

definition trim_left :: "u8 list \<Rightarrow> u8 list" where
  "trim_left text = dropWhile is_space_char text"

definition trim_right_inplace :: "u8 list \<Rightarrow> u8 list" where
  "trim_right_inplace text = rev (dropWhile is_space_char (rev text))"

definition lower_char :: "u8 \<Rightarrow> u8" where
  "lower_char c = (if 65 \<le> c \<and> c \<le> 90 then c - 65 + 97 else c)"

fun str_ieq :: "u8 list \<Rightarrow> u8 list \<Rightarrow> bool" where
  "str_ieq (a # as) (b # bs) = (if lower_char a \<noteq> lower_char b then False else str_ieq as bs)"
| "str_ieq as bs \<longleftrightarrow> as = [] \<and> bs = []"

definition first_token_is_all :: "u8 list \<Rightarrow> bool" where
  "first_token_is_all value =
    (let p = dropWhile is_space_char value;
         start = takeWhile (\<lambda>c. \<not> is_space_char c) p
     in if p = [] then False
        else length start = 3 \<and> (start ! 0 = 97 \<or> start ! 0 = 65) \<and> (start ! 1 = 108 \<or> start ! 1 = 76) \<and>
          (start ! 2 = 108 \<or> start ! 2 = 76))"

text \<open>The wildcard loop is, name by name, that of \<^verbatim>\<open>username_pattern_matches\<close>.\<close>

definition pattern_matches_wildcards :: "u8 list \<Rightarrow> u8 list \<Rightarrow> bool" where
  "pattern_matches_wildcards pattern value = (pattern_loop pattern value 0 0 None 0 = Some True)"

section \<open>Match criteria\<close>

definition is_list_separator :: "u8 \<Rightarrow> bool" where
  "is_list_separator c \<longleftrightarrow> c = comma \<or> is_space_char c"

definition bang :: u8 where "bang = 33"

text \<open>One entry of a pattern list, from \<^verbatim>\<open>p\<close> on: whether it is negated, its token and the characters after it; \<open>None\<close> at the
  end of the list.\<close>

definition next_pattern :: "u8 list \<Rightarrow> (bool \<times> u8 list \<times> u8 list) option" where
  "next_pattern p =
    (let p = dropWhile is_list_separator p
     in if p = [] then None
        else let negated = (hd p = bang); p = (if negated then tl p else p)
        in Some (negated, takeWhile (\<lambda>c. \<not> is_list_separator c) p, dropWhile (\<lambda>c. \<not> is_list_separator c) p))"

lemma next_pattern_shorter: "next_pattern p = Some (negated, token, rest) \<Longrightarrow> length rest < length p"
proof -
  assume *: "next_pattern p = Some (negated, token, rest)"
  define q where "q = dropWhile is_list_separator p"
  have q: "q \<noteq> []" "\<not> is_list_separator (hd q)" "length q \<le> length p"
    using * hd_dropWhile [of is_list_separator p] by (auto simp: next_pattern_def q_def Let_def length_dropWhile_le split: if_splits)
  have "rest = dropWhile (\<lambda>c. \<not> is_list_separator c) (if hd q = bang then tl q else q)"
    using * by (auto simp: next_pattern_def q_def Let_def split: if_splits)
  with q show ?thesis
    using length_dropWhile_hd [of q "\<lambda>c. \<not> is_list_separator c"] length_dropWhile_le [of "\<lambda>c. \<not> is_list_separator c" "tl q"]
    by (cases q) (auto split: if_splits)
qed

function list_pattern_loop :: "u8 list \<Rightarrow> u8 list \<Rightarrow> bool \<Rightarrow> bool \<Rightarrow> bool" where
  "list_pattern_loop p value saw_positive matched_positive =
    (case next_pattern p of
       None \<Rightarrow> if \<not> saw_positive then True else matched_positive
     | Some (negated, token, p) \<Rightarrow>
         if length token = 0 then list_pattern_loop p value saw_positive matched_positive
         else if pattern_matches_wildcards token value \<and> negated then False
         else list_pattern_loop p value (\<not> negated \<or> saw_positive)
           (pattern_matches_wildcards token value \<or> matched_positive))"
  by pat_completeness auto
termination
  by (relation "measure (length \<circ> fst)") (auto dest: next_pattern_shorter)

declare list_pattern_loop.simps [simp del]

definition list_pattern_matches :: "cstr \<Rightarrow> cstr \<Rightarrow> bool" where
  "list_pattern_matches pattern_list value =
    (case (pattern_list, value) of
       (Some pattern_list, Some value) \<Rightarrow> if value = [] then False else list_pattern_loop pattern_list value False False
     | _ \<Rightarrow> False)"

text \<open>The digits of a number that must not exceed \<^verbatim>\<open>max_value\<close>. The variables are \<^verbatim>\<open>unsigned long\<close>; no value exceeds
  \<^verbatim>\<open>max_value\<close>, so none wraps.\<close>

fun uint_loop :: "nat \<Rightarrow> nat \<Rightarrow> u8 list \<Rightarrow> ssh_err + nat" where
  "uint_loop max_value parsed [] = Inr parsed"
| "uint_loop max_value parsed (c # cs) =
    (if c < 48 \<or> c > 57 then Inl SSH_ERR_INVALID_ARGUMENT
     else let digit = unat (c - 48)
     in if parsed > (max_value - digit) div 10 then Inl SSH_ERR_INVALID_ARGUMENT
     else uint_loop max_value (parsed * 10 + digit) cs)"

definition parse_uint_in_range :: "u8 list \<Rightarrow> nat \<Rightarrow> ssh_err + nat" where
  "parse_uint_in_range value max_value =
    (if value = [] then Inl SSH_ERR_INVALID_ARGUMENT
     else bindS (uint_loop max_value 0 value) (\<lambda>parsed. if parsed = 0 then Inl SSH_ERR_INVALID_ARGUMENT else Inr parsed))"

definition parse_local_port_token :: "u8 list \<Rightarrow> ssh_err + u16" where
  "parse_local_port_token token =
    (if token = [] then Inl SSH_ERR_INVALID_ARGUMENT
     else bindS (uint_loop 65535 0 token) (\<lambda>parsed. if parsed = 0 then Inl SSH_ERR_INVALID_ARGUMENT else Inr (of_nat parsed)))"

function local_port_loop :: "u8 list \<Rightarrow> u16 \<Rightarrow> bool \<Rightarrow> bool \<Rightarrow> bool" where
  "local_port_loop p local_port saw_positive matched_positive =
    (case next_pattern p of
       None \<Rightarrow> if \<not> saw_positive then True else matched_positive
     | Some (negated, token, p) \<Rightarrow>
         if length token = 0 \<or> length token \<ge> 16 then False
         else (case parse_local_port_token token of
           Inl _ \<Rightarrow> False
         | Inr parsed_port \<Rightarrow>
             if parsed_port = local_port \<and> negated then False
             else local_port_loop p local_port (\<not> negated \<or> saw_positive) (parsed_port = local_port \<or> matched_positive)))"
  by pat_completeness auto
termination
  by (relation "measure (length \<circ> fst)") (auto dest: next_pattern_shorter)

declare local_port_loop.simps [simp del]

definition match_local_port_list :: "u8 list \<Rightarrow> u16 \<Rightarrow> bool" where
  "match_local_port_list pattern_list local_port =
    (if pattern_list = [] \<or> local_port = 0 then False else local_port_loop pattern_list local_port False False)"

definition evaluate_match_criterion :: "u8 list \<Rightarrow> u8 list \<Rightarrow> ssh_sshd_match_context option \<Rightarrow> ssh_err + bool" where
  "evaluate_match_criterion keyword pattern_list ctx =
    (let by_list = (\<lambda>field. Inr (case ctx of Some c \<Rightarrow> list_pattern_matches (Some pattern_list) (field c) | None \<Rightarrow> False))
     in if str_ieq keyword (lit ''User'') then by_list smc_user
     else if str_ieq keyword (lit ''Group'') then by_list smc_group
     else if str_ieq keyword (lit ''Host'') then by_list smc_host
     else if str_ieq keyword (lit ''Address'') then by_list smc_address
     else if str_ieq keyword (lit ''LocalAddress'') then by_list smc_local_address
     else if str_ieq keyword (lit ''LocalPort'') then
       Inr (case ctx of Some c \<Rightarrow> match_local_port_list pattern_list (smc_local_port c) | None \<Rightarrow> False)
     else if str_ieq keyword (lit ''RDomain'') then by_list smc_rdomain
     else Inl SSH_ERR_UNSUPPORTED)"

text \<open>One criterion of a \<^verbatim>\<open>Match\<close> line, from \<^verbatim>\<open>p\<close> on: whether its keyword is negated, the keyword, its argument and the
  characters after it; \<open>None\<close> at the end of the line.\<close>

definition next_criterion :: "u8 list \<Rightarrow> ssh_err + (bool \<times> u8 list \<times> u8 list \<times> u8 list) option" where
  "next_criterion p =
    (let p = dropWhile is_space_char p
     in if p = [] then Inr None
     else let negate_keyword = (hd p = bang);
              p = (if negate_keyword then tl p else p);
              keyword = takeWhile (\<lambda>c. \<not> is_space_char c) p;
              p = dropWhile (\<lambda>c. \<not> is_space_char c) p
     in if keyword = [] then Inl SSH_ERR_INVALID_ARGUMENT
     else if p = [] then Inl SSH_ERR_INVALID_ARGUMENT
     else let p = dropWhile is_space_char (tl p)
     in if p = [] then Inl SSH_ERR_INVALID_ARGUMENT
     else let arg = takeWhile (\<lambda>c. \<not> is_space_char c) p;
              p = dropWhile (\<lambda>c. \<not> is_space_char c) p
     in Inr (Some (negate_keyword, keyword, arg, if p \<noteq> [] then tl p else p)))"

lemma next_criterion_shorter: "next_criterion p = Inr (Some (negate, keyword, arg, rest)) \<Longrightarrow> length rest < length p"
proof -
  assume *: "next_criterion p = Inr (Some (negate, keyword, arg, rest))"
  define p1 where "p1 = dropWhile is_space_char p"
  define p2 where "p2 = (if hd p1 = bang then tl p1 else p1)"
  define p3 where "p3 = dropWhile (\<lambda>c. \<not> is_space_char c) p2"
  define p4 where "p4 = dropWhile is_space_char (tl p3)"
  define p5 where "p5 = dropWhile (\<lambda>c. \<not> is_space_char c) p4"
  have "p3 \<noteq> []" "rest = (if p5 \<noteq> [] then tl p5 else p5)"
    using * by (simp_all add: next_criterion_def p1_def p2_def p3_def p4_def p5_def Let_def del: dropWhile_eq_Nil_conv split: if_splits)
  moreover have "length p2 \<le> length p1"
    by (simp add: p2_def)
  moreover have "length p1 \<le> length p" "length p3 \<le> length p2" "length p4 \<le> length (tl p3)" "length p5 \<le> length p4"
    unfolding p1_def p3_def p4_def p5_def by (rule length_dropWhile_le)+
  ultimately show ?thesis
    by (cases p3) (auto split: if_splits)
qed

function match_loop :: "u8 list \<Rightarrow> ssh_sshd_match_context option \<Rightarrow> bool \<Rightarrow> ssh_err + bool" where
  "match_loop p ctx matched =
    (case next_criterion p of
       Inl e \<Rightarrow> Inl e
     | Inr None \<Rightarrow> Inr matched
     | Inr (Some (negate_keyword, keyword, arg, p)) \<Rightarrow>
         (case evaluate_match_criterion keyword arg ctx of
           Inl e \<Rightarrow> Inl e
         | Inr criterion_match \<Rightarrow>
             match_loop p ctx (matched \<and> (if negate_keyword then \<not> criterion_match else criterion_match))))"
  by pat_completeness auto
termination
  by (relation "measure (length \<circ> fst)") (auto dest: next_criterion_shorter)

declare match_loop.simps [simp del]

definition evaluate_match_expression :: "u8 list \<Rightarrow> ssh_sshd_match_context option \<Rightarrow> ssh_err + bool" where
  "evaluate_match_expression value ctx =
    (if length value = 0 \<or> length value \<ge> EMSSH_SSHD_CONFIG_VALUE_MAX then Inl SSH_ERR_INVALID_ARGUMENT
     else if \<not> first_token_is_all value then match_loop (trim_left value) ctx True
     else let q = dropWhile is_space_char (dropWhile (\<lambda>c. \<not> is_space_char c) (trim_left value))
     in if q \<noteq> [] then Inl SSH_ERR_INVALID_ARGUMENT else Inr True)"

section \<open>Values\<close>

definition parse_bool_value :: "u8 list \<Rightarrow> ssh_err + bool" where
  "parse_bool_value value =
    (if str_ieq value (lit ''yes'') \<or> str_ieq value (lit ''true'') \<or> str_ieq value (lit ''on'') \<or> str_ieq value (lit ''1'') then Inr True
     else if str_ieq value (lit ''no'') \<or> str_ieq value (lit ''false'') \<or> str_ieq value (lit ''off'') \<or> str_ieq value (lit ''0'') then Inr False
     else Inl SSH_ERR_INVALID_ARGUMENT)"

definition parse_permit_root_login_value :: "u8 list \<Rightarrow> ssh_err + int" where
  "parse_permit_root_login_value value =
    (if str_ieq value (lit ''yes'') then Inr EMSSH_PERMIT_ROOT_LOGIN_YES
     else if str_ieq value (lit ''no'') then Inr EMSSH_PERMIT_ROOT_LOGIN_NO
     else if str_ieq value (lit ''prohibit-password'') \<or> str_ieq value (lit ''without-password'') \<or>
       str_ieq value (lit ''forced-commands-only'') then Inr EMSSH_PERMIT_ROOT_LOGIN_PROHIBIT_PASSWORD
     else Inl SSH_ERR_INVALID_ARGUMENT)"

definition colon :: u8 where "colon = 58"
definition left_bracket :: u8 where "left_bracket = 91"
definition right_bracket :: u8 where "right_bracket = 93"

text \<open>The out parameter \<^verbatim>\<open>port_out\<close> is passed in and out, \<open>None\<close> for NULL: it may be set also when the call fails.\<close>

definition parse_listen_address :: "u8 list \<Rightarrow> nat \<Rightarrow> u16 option \<Rightarrow> (ssh_err + u8 list) \<times> u16 option" where
  "parse_listen_address value host_out_capacity port_out =
    (let copy_host = (\<lambda>host port. (if length host = 0 \<or> length host \<ge> host_out_capacity then Inl SSH_ERR_INVALID_ARGUMENT else Inr host, port))
     in if value = [] \<or> host_out_capacity = 0 then (Inl SSH_ERR_INVALID_ARGUMENT, port_out)
     else if hd value = left_bracket then
       let host = takeWhile (\<lambda>c. c \<noteq> right_bracket) (tl value); close = dropWhile (\<lambda>c. c \<noteq> right_bracket) (tl value)
       in if close = [] \<or> host = [] then (Inl SSH_ERR_INVALID_ARGUMENT, port_out)
       else if port_out \<noteq> None \<and> length close > 2 \<and> close ! 1 = colon then
         (case parse_uint_in_range (drop 2 close) 65535 of
           Inl e \<Rightarrow> (Inl e, port_out)
         | Inr parsed \<Rightarrow> copy_host host (Some (of_nat parsed)))
       else copy_host host port_out
     else if port_out \<noteq> None \<and> colon \<in> set value then
       let after_colon = rev (takeWhile (\<lambda>c. c \<noteq> colon) (rev value));
           before_colon = rev (tl (dropWhile (\<lambda>c. c \<noteq> colon) (rev value)))
       in if colon \<notin> set after_colon \<and> after_colon \<noteq> [] then
         (case parse_uint_in_range after_colon 65535 of
           Inl _ \<Rightarrow> copy_host value port_out
         | Inr parsed \<Rightarrow> copy_host before_colon (Some (of_nat parsed)))
       else copy_host value port_out
     else copy_host value port_out)"

definition parse_subsystem_value :: "u8 list \<Rightarrow> nat \<Rightarrow> ssh_err + u8 list" where
  "parse_subsystem_value value name_out_capacity =
    (let p = dropWhile is_space_char value; name = takeWhile (\<lambda>c. \<not> is_space_char c) p
     in if p = [] \<or> length name = 0 \<or> length name \<ge> name_out_capacity then Inl SSH_ERR_INVALID_ARGUMENT else Inr name)"

definition set_string_value :: "nat \<Rightarrow> u8 list \<Rightarrow> ssh_err + u8 list" where
  "set_string_value dst_capacity src =
    (if length src = 0 \<or> length src \<ge> dst_capacity then Inl SSH_ERR_INVALID_ARGUMENT else Inr src)"

section \<open>Directives\<close>

text \<open>A value that parses is stored with its flag; one that does not leaves the configuration as it is.\<close>

definition store :: "ssh_err + 'v \<Rightarrow> ('v \<Rightarrow> 's \<Rightarrow> 's) \<Rightarrow> ('s, unit) act" where
  "store r put s = (case r of Inl e \<Rightarrow> (Inl e, s) | Inr v \<Rightarrow> (Inr (), put v s))"

definition parse_one_directive :: "u8 list \<Rightarrow> u8 list \<Rightarrow> (ssh_sshd_config_file, unit) act" where
  "parse_one_directive key value =
    (if str_ieq key (lit ''Port'') then
       store (parse_uint_in_range value 65535) (\<lambda>n config. config\<lparr>scf_has_port := True, scf_port := of_nat n\<rparr>)
     else if str_ieq key (lit ''ListenAddress'') then (\<lambda>config.
       (case parse_listen_address value EMSSH_SSHD_CONFIG_VALUE_MAX (if scf_has_port config then None else Some (scf_port config)) of
         (r, port) \<Rightarrow>
           let config = (case port of Some n \<Rightarrow> config\<lparr>scf_port := n\<rparr> | None \<Rightarrow> config)
           in store r (\<lambda>host config.
             let config = config\<lparr>scf_listen_address := host, scf_has_listen_address := True\<rparr>
             in if \<not> scf_has_port config \<and> scf_port config \<noteq> 0 then config\<lparr>scf_has_port := True\<rparr> else config) config))
     else if str_ieq key (lit ''MaxAuthTries'') then
       store (parse_uint_in_range value 255) (\<lambda>n config. config\<lparr>scf_has_max_auth_tries := True, scf_max_auth_tries := n\<rparr>)
     else if str_ieq key (lit ''PasswordAuthentication'') then
       store (parse_bool_value value) (\<lambda>b config. config\<lparr>scf_has_password_authentication := True, scf_password_authentication := b\<rparr>)
     else if str_ieq key (lit ''PubkeyAuthentication'') then
       store (parse_bool_value value) (\<lambda>b config. config\<lparr>scf_has_pubkey_authentication := True, scf_pubkey_authentication := b\<rparr>)
     else if str_ieq key (lit ''PermitRootLogin'') then
       store (parse_permit_root_login_value value) (\<lambda>m config. config\<lparr>scf_permit_root_login := m, scf_has_permit_root_login := True\<rparr>)
     else if str_ieq key (lit ''AllowUsers'') then
       store (set_string_value EMSSH_SSHD_CONFIG_VALUE_MAX value) (\<lambda>v config. config\<lparr>scf_allow_users := v, scf_has_allow_users := True\<rparr>)
     else if str_ieq key (lit ''Subsystem'') then
       store (parse_subsystem_value value EMSSH_SSHD_CONFIG_VALUE_MAX) (\<lambda>v config. config\<lparr>scf_subsystem_name := v, scf_has_subsystem := True\<rparr>)
     else if str_ieq key (lit ''AuthorizedKeysFile'') then
       store (set_string_value EMSSH_SSHD_CONFIG_VALUE_MAX value)
         (\<lambda>v config. config\<lparr>scf_authorized_keys_file := v, scf_has_authorized_keys_file := True\<rparr>)
     else if str_ieq key (lit ''ChrootDirectory'') then
       store (set_string_value EMSSH_SSHD_CONFIG_VALUE_MAX value)
         (\<lambda>v config. config\<lparr>scf_chroot_directory := v, scf_has_chroot_directory := True\<rparr>)
     else if str_ieq key (lit ''HostKey'') then
       store (set_string_value EMSSH_SSHD_CONFIG_VALUE_MAX value) (\<lambda>v config. config\<lparr>scf_host_key_file := v, scf_has_host_key := True\<rparr>)
     else retA ())"

text \<open>The key and the value of a line: \<open>None\<close> when there is nothing to do, an error when the value is empty.\<close>

definition unquote :: "u8 list \<Rightarrow> u8 list" where
  "unquote value =
    (if hd value = 34 \<and> length value \<ge> 2 \<and> last value = 34 \<or> hd value = 39 \<and> length value \<ge> 2 \<and> last value = 39
     then tl (butlast value) else value)"

definition split_line :: "u8 list \<Rightarrow> ssh_err + (u8 list \<times> u8 list) option" where
  "split_line line =
    (let line = takeWhile (\<lambda>c. c \<noteq> 35) (cstring_of line);
         key = trim_left (trim_right_inplace line);
         p = dropWhile (\<lambda>c. \<not> is_space_char c \<and> c \<noteq> 61) key;
         key = takeWhile (\<lambda>c. \<not> is_space_char c \<and> c \<noteq> 61) key
     in if p = [] then Inr None
     else let value = trim_left (trim_right_inplace (dropWhile (\<lambda>c. is_space_char c \<or> c = 61) (tl p)))
     in if value = [] then Inl SSH_ERR_INVALID_ARGUMENT else Inr (Some (key, unquote value)))"

definition parse_line_inplace :: "ssh_sshd_match_context option \<Rightarrow> u8 list \<Rightarrow> (ssh_sshd_config_file \<times> bool, unit) act" where
  "parse_line_inplace match_context line = (\<lambda>(config, match_block_active).
    (case split_line line of
       Inl e \<Rightarrow> (Inl e, (config, match_block_active))
     | Inr None \<Rightarrow> (Inr (), (config, match_block_active))
     | Inr (Some (key, value)) \<Rightarrow>
         if str_ieq key (lit ''Match'') then
           (case evaluate_match_expression value match_context of
             Inl e \<Rightarrow> (Inl e, (config, match_block_active))
           | Inr is_match \<Rightarrow> (Inr (), (config, is_match)))
         else if \<not> match_block_active then (Inr (), (config, match_block_active))
         else (case parse_one_directive key value config of (r, config) \<Rightarrow> (r, (config, match_block_active)))))"

section \<open>Files\<close>

definition config_line :: "ssh_sshd_match_context option \<Rightarrow> u8 list \<Rightarrow> (ssh_sshd_config_file \<times> bool, unit option) act" where
  "config_line match_context line = thenA (parse_line_inplace match_context line) (retA None)"

text \<open>The variable \<^verbatim>\<open>match_block_active\<close> lives as long as the call.\<close>

definition read_and_parse_file_via_fs ::
    "'w ssh_fs_api option \<Rightarrow> cstr \<Rightarrow> ssh_sshd_match_context option \<Rightarrow> (ssh_sshd_config_file \<times> 'w, unit) proc" where
  "read_and_parse_file_via_fs fs path match_context s =
    (case read_text_file 1024 (config_line match_context) (retA ()) fs path ((fst s, True), snd s) of
       None \<Rightarrow> None
     | Some (r, ((config, _), w)) \<Rightarrow> Some (r, (config, w)))"

definition ssh_sshd_config_file_defaults :: ssh_sshd_config_file where
  "ssh_sshd_config_file_defaults = \<lparr>scf_has_port = False, scf_port = 0, scf_has_listen_address = False, scf_listen_address = [],
     scf_has_max_auth_tries = False, scf_max_auth_tries = 0, scf_has_password_authentication = False,
     scf_password_authentication = False, scf_has_pubkey_authentication = False, scf_pubkey_authentication = False,
     scf_has_permit_root_login = False, scf_permit_root_login = 0, scf_has_allow_users = False, scf_allow_users = [],
     scf_has_subsystem = False, scf_subsystem_name = [], scf_has_authorized_keys_file = False, scf_authorized_keys_file = [],
     scf_has_chroot_directory = False, scf_chroot_directory = [], scf_has_host_key = False, scf_host_key_file = []\<rparr>"

definition ssh_sshd_config_file_load_with_match_context ::
    "'w ssh_fs_api option \<Rightarrow> cstr \<Rightarrow> ssh_sshd_match_context option \<Rightarrow> (ssh_sshd_config_file \<times> 'w, unit) proc" where
  "ssh_sshd_config_file_load_with_match_context fs path match_context =
     thenP (setP (\<lambda>(config, w). (ssh_sshd_config_file_defaults, w))) (read_and_parse_file_via_fs fs path match_context)"

definition ssh_sshd_config_file_load :: "'w ssh_fs_api option \<Rightarrow> cstr \<Rightarrow> (ssh_sshd_config_file \<times> 'w, unit) proc" where
  "ssh_sshd_config_file_load fs path = ssh_sshd_config_file_load_with_match_context fs path None"

text \<open>What the file sets replaces what the caller has; each out parameter may be NULL.\<close>

definition apply_server_config :: "ssh_sshd_config_file \<Rightarrow> ssh_server_config \<Rightarrow> ssh_server_config" where
  "apply_server_config config server_config =
    (let server_config = (if scf_has_listen_address config
           then server_config\<lparr>cfg_listen_address := Some (scf_listen_address config)\<rparr> else server_config);
         server_config = (if scf_has_max_auth_tries config
           then server_config\<lparr>cfg_max_auth_tries := scf_max_auth_tries config\<rparr> else server_config);
         server_config = (if scf_has_password_authentication config \<and> \<not> scf_password_authentication config
           then server_config\<lparr>cfg_password_auth := None\<rparr> else server_config);
         server_config = (if scf_has_pubkey_authentication config \<and> \<not> scf_pubkey_authentication config
           then server_config\<lparr>cfg_publickey_auth := None\<rparr> else server_config);
         server_config = (if scf_has_permit_root_login config
           then server_config\<lparr>cfg_permit_root_login := scf_permit_root_login config\<rparr> else server_config);
         server_config = (if scf_has_allow_users config
           then server_config\<lparr>cfg_allow_users := Some (scf_allow_users config)\<rparr> else server_config)
     in if scf_has_authorized_keys_file config
        then server_config\<lparr>cfg_authorized_keys_file := Some (scf_authorized_keys_file config)\<rparr> else server_config)"

definition apply_session_options :: "ssh_sshd_config_file \<Rightarrow> 'w ssh_server_session_options \<Rightarrow> 'w ssh_server_session_options" where
  "apply_session_options config session_options =
    (if scf_has_subsystem config then session_options\<lparr>opt_sftp_subsystem_name := Some (scf_subsystem_name config)\<rparr> else session_options)"

definition ssh_sshd_config_file_apply ::
    "ssh_sshd_config_file \<Rightarrow> ssh_server_config option \<Rightarrow> 'w ssh_server_session_options option \<Rightarrow> u16 option \<Rightarrow> cstr option \<Rightarrow> cstr option \<Rightarrow>
     ssh_server_config option \<times> 'w ssh_server_session_options option \<times> u16 option \<times> cstr option \<times> cstr option" where
  "ssh_sshd_config_file_apply config server_config session_options port chroot_directory host_key_file =
    (map_option (apply_server_config config) server_config,
     map_option (apply_session_options config) session_options,
     map_option (\<lambda>p. if scf_has_port config then scf_port config else p) port,
     map_option (\<lambda>p. if scf_has_chroot_directory config then Some (scf_chroot_directory config) else p) chroot_directory,
     map_option (\<lambda>p. if scf_has_host_key config then Some (scf_host_key_file config) else p) host_key_file)"

section \<open>Pattern lists\<close>

text \<open>The entries of a pattern list: the tokens between commas and white space, a leading exclamation mark negates one.\<close>

definition list_patterns :: "u8 list \<Rightarrow> (bool \<times> u8 list) list" where
  "list_patterns l = filter (\<lambda>e. snd e \<noteq> [])
     (map (\<lambda>t. if t \<noteq> [] \<and> hd t = bang then (True, tl t) else (False, t)) (split_by is_list_separator l))"

lemma list_patterns_skip: "list_patterns (dropWhile is_list_separator p) = list_patterns p"
  by (induction p) (auto simp: list_patterns_def)

lemma bang_no_separator [simp]: "\<not> is_list_separator bang"
  by (simp add: is_list_separator_def is_space_char_def bang_def comma_def)

lemma next_pattern_None: "next_pattern p = None \<Longrightarrow> list_patterns p = []"
proof -
  assume "next_pattern p = None"
  then have "dropWhile is_list_separator p = []"
    by (simp add: next_pattern_def Let_def del: dropWhile_eq_Nil_conv split: if_splits)
  then have "list_patterns (dropWhile is_list_separator p) = []"
    by (simp add: list_patterns_def del: dropWhile_eq_Nil_conv)
  then show ?thesis
    by (simp only: list_patterns_skip)
qed

lemma next_pattern_Some:
  assumes "next_pattern p = Some (negated, token, rest)"
  shows "list_patterns p = (if token = [] then [] else [(negated, token)]) @ list_patterns rest"
proof -
  define q where "q = dropWhile is_list_separator p"
  have q: "q \<noteq> []" "\<not> is_list_separator (hd q)"
    using assms hd_dropWhile [of is_list_separator p] by (auto simp: next_pattern_def q_def Let_def split: if_splits)
  have parts: "negated = (hd q = bang)" "token = takeWhile (\<lambda>c. \<not> is_list_separator c) (if hd q = bang then tl q else q)"
    "rest = dropWhile (\<lambda>c. \<not> is_list_separator c) q"
    using assms q by (auto simp: next_pattern_def q_def [symmetric] Let_def neq_Nil_conv split: if_splits)
  have tok: "takeWhile (\<lambda>c. \<not> is_list_separator c) q = (if negated then bang # token else token)"
    using q by (cases q) (auto simp: parts)
  have "list_patterns q = filter (\<lambda>e. snd e \<noteq> []) [(negated, token)] @ list_patterns rest"
  proof -
    have "is_list_separator (hd rest)" if "rest \<noteq> []"
      using hd_dropWhile [of "\<lambda>c. \<not> is_list_separator c" q] that by (auto simp: parts)
    moreover have "token \<noteq> [] \<Longrightarrow> \<not> negated \<Longrightarrow> hd token \<noteq> bang"
      using q by (cases q) (auto simp: parts)
    ultimately show ?thesis
      unfolding list_patterns_def by (subst split_by_unfold, unfold tok parts(3) [symmetric], cases rest) auto
  qed
  then show ?thesis
    using list_patterns_skip [of p] by (auto simp: q_def [symmetric] split: if_splits)
qed

lemma list_pattern_loop_iff:
  "list_pattern_loop p v saw matched \<longleftrightarrow>
     (\<forall>t. (True, t) \<in> set (list_patterns p) \<longrightarrow> \<not> pattern_matches_wildcards t v) \<and>
     (saw \<or> (\<exists>t. (False, t) \<in> set (list_patterns p)) \<longrightarrow>
        matched \<or> (\<exists>t. (False, t) \<in> set (list_patterns p) \<and> pattern_matches_wildcards t v))"
proof (induction p v saw matched rule: list_pattern_loop.induct)
  case (1 p v saw matched)
  show ?case
  proof (cases "next_pattern p")
    case None
    then show ?thesis
      by (subst list_pattern_loop.simps) (simp add: next_pattern_None)
  next
    case (Some e)
    obtain negated token rest where e: "e = (negated, token, rest)"
      by (cases e) auto
    note eq = next_pattern_Some [OF Some [unfolded e]]
    show ?thesis
    proof (cases "token = []")
      case True
      then show ?thesis
        using 1(1) [OF Some e [symmetric] refl] Some e eq by (subst list_pattern_loop.simps) simp
    next
      case False
      then have "(True, t) \<in> set (list_patterns p) \<longleftrightarrow> negated \<and> t = token \<or> (True, t) \<in> set (list_patterns rest)"
        "(False, t) \<in> set (list_patterns p) \<longleftrightarrow> \<not> negated \<and> t = token \<or> (False, t) \<in> set (list_patterns rest)" for t
        using eq by auto
      then show ?thesis
        using 1(2) [OF Some e [symmetric] refl] Some e False by (subst list_pattern_loop.simps) auto
    qed
  qed
qed

text \<open>C23. For a value that contains no star: a pattern list matches the value exactly when the value is not empty, no negated pattern matches it
  and, if there is a pattern that is not negated, one of those does; the order does not matter. A list without any positive pattern matches
  what it does not exclude. (A star in the value is compared with a star of the pattern as a literal first, and the equivalence fails.)\<close>

theorem pattern_list_meaning:
  assumes "star \<notin> set v"
  shows "list_pattern_matches (Some l) (Some v) \<longleftrightarrow> v \<noteq> [] \<and>
     (\<forall>t. (True, t) \<in> set (list_patterns l) \<longrightarrow> \<not> glob t v) \<and>
     ((\<exists>t. (False, t) \<in> set (list_patterns l)) \<longrightarrow> (\<exists>t. (False, t) \<in> set (list_patterns l) \<and> glob t v))"
proof -
  have "pattern_matches_wildcards t v \<longleftrightarrow> glob t v" for t
    using pattern_matches_iff [OF assms] by (simp add: pattern_matches_wildcards_def username_pattern_matches_def)
  then show ?thesis
    by (simp add: list_pattern_matches_def list_pattern_loop_iff)
qed

theorem pattern_list_meaning_witness:
  "list_pattern_matches (Some (lit ''a*,!ab'')) (Some (lit ''ac'')) \<longleftrightarrow> lit ''ac'' \<noteq> [] \<and>
     (\<forall>t. (True, t) \<in> set (list_patterns (lit ''a*,!ab'')) \<longrightarrow> \<not> glob t (lit ''ac'')) \<and>
     ((\<exists>t. (False, t) \<in> set (list_patterns (lit ''a*,!ab''))) \<longrightarrow>
        (\<exists>t. (False, t) \<in> set (list_patterns (lit ''a*,!ab'')) \<and> glob t (lit ''ac'')))"
  by (rule pattern_list_meaning) (simp add: star_def)

section \<open>Numbers\<close>

definition is_digit :: "u8 \<Rightarrow> bool" where
  "is_digit c \<longleftrightarrow> 48 \<le> c \<and> c \<le> 57"

definition decimal_value :: "u8 list \<Rightarrow> nat" where
  "decimal_value = foldl (\<lambda>n c. n * 10 + unat (c - 48)) 0"

lemma digit_le: "is_digit c \<Longrightarrow> unat (c - 48) \<le> 9"
  unfolding is_digit_def by unat_arith

lemma foldl_decimal_mono: "(m :: nat) \<le> foldl (\<lambda>n c. n * 10 + unat (c - 48)) m (cs :: u8 list)"
proof (induction cs arbitrary: m)
  case (Cons c cs)
  have "m \<le> m * 10 + unat (c - 48)"
    by simp
  with Cons [of "m * 10 + unat (c - 48)"] show ?case
    unfolding foldl.simps by (rule order_trans [rotated])
qed simp

lemma uint_loop_exact:
  assumes "9 \<le> max_value"
  shows "parsed \<le> max_value \<Longrightarrow> uint_loop max_value parsed cs = Inr n \<longleftrightarrow>
     list_all is_digit cs \<and> n = foldl (\<lambda>n c. n * 10 + unat (c - 48)) parsed cs \<and> n \<le> max_value"
proof (induction cs arbitrary: parsed)
  case (Cons c cs)
  show ?case
  proof (cases "is_digit c")
    case True
    let ?d = "unat (c - 48)"
    have range: "\<not> (c < 48 \<or> c > 57)"
      using True by (simp add: is_digit_def not_less)
    have d: "?d \<le> max_value"
      using digit_le [OF True] assms by simp
    have "parsed > (max_value - ?d) div 10 \<longleftrightarrow> \<not> parsed * 10 + ?d \<le> max_value"
      using d by (simp add: not_le div_less_iff_less_mult) linarith
    moreover have "parsed * 10 + ?d \<le> foldl (\<lambda>n c. n * 10 + unat (c - 48)) (parsed * 10 + ?d) cs"
      by (rule foldl_decimal_mono)
    ultimately show ?thesis
      using Cons.IH [of "parsed * 10 + ?d"] True range by (auto simp: Let_def)
  next
    case False
    then show ?thesis
      by (auto simp: is_digit_def not_le)
  qed
qed auto

lemma parse_uint_exact:
  "9 \<le> max_value \<Longrightarrow> parse_uint_in_range value max_value = Inr n \<longleftrightarrow>
     value \<noteq> [] \<and> list_all is_digit value \<and> n = decimal_value value \<and> 0 < n \<and> n \<le> max_value"
  using uint_loop_exact [of max_value 0 "value" n]
  by (cases "uint_loop max_value 0 value") (auto simp: parse_uint_in_range_def decimal_value_def bindS_eq_Inr)

section \<open>Settings\<close>

lemma str_ieq_iff: "str_ieq a b \<longleftrightarrow> map lower_char a = map lower_char b"
  by (induction a b rule: str_ieq.induct) auto

lemma lower_keys:
  "map lower_char (lit ''Port'') = lit ''port''"
  "map lower_char (lit ''ListenAddress'') = lit ''listenaddress''"
  "map lower_char (lit ''MaxAuthTries'') = lit ''maxauthtries''"
  "map lower_char (lit ''PasswordAuthentication'') = lit ''passwordauthentication''"
  "map lower_char (lit ''PubkeyAuthentication'') = lit ''pubkeyauthentication''"
  "map lower_char (lit ''PermitRootLogin'') = lit ''permitrootlogin''"
  "map lower_char (lit ''AllowUsers'') = lit ''allowusers''"
  "map lower_char (lit ''Subsystem'') = lit ''subsystem''"
  "map lower_char (lit ''AuthorizedKeysFile'') = lit ''authorizedkeysfile''"
  "map lower_char (lit ''ChrootDirectory'') = lit ''chrootdirectory''"
  "map lower_char (lit ''HostKey'') = lit ''hostkey''"
  by code_simp+

lemmas directive_simps = parse_one_directive_def store_def str_ieq_iff lower_keys Let_def

text \<open>A setting of the file: a key, the parser of its value, the flag and the member that hold it. A directive with the key stores
  the parsed value; no other directive touches it.\<close>

locale setting =
  fixes key :: "u8 list" and parse :: "u8 list \<Rightarrow> ssh_err + 'v"
    and has :: "ssh_sshd_config_file \<Rightarrow> bool" and get :: "ssh_sshd_config_file \<Rightarrow> 'v"
  assumes sets: "str_ieq k key \<Longrightarrow> parse_one_directive k v c = (Inr (), c') \<Longrightarrow> has c' \<and> parse v = Inr (get c')"
    and frame: "\<not> str_ieq k key \<Longrightarrow> parse_one_directive k v c = (r, c') \<Longrightarrow> has c' = has c \<and> get c' = get c"

text \<open>The directives of a text that are in force: those outside the \<^verbatim>\<open>Match\<close> blocks that do not match. The value in force for a
  key is that of the last directive with it, in any case of letters.\<close>

fun effective_directives :: "ssh_sshd_match_context option \<Rightarrow> bool \<Rightarrow> u8 list list \<Rightarrow> (u8 list \<times> u8 list) list" where
  "effective_directives ctx active [] = []"
| "effective_directives ctx active (line # lines) =
    (case split_line line of
       Inr (Some (key, value)) \<Rightarrow>
         if str_ieq key (lit ''Match'') then
           (case evaluate_match_expression value ctx of
             Inl _ \<Rightarrow> []
           | Inr is_match \<Rightarrow> effective_directives ctx is_match lines)
         else (if active then [(key, value)] else []) @ effective_directives ctx active lines
     | _ \<Rightarrow> effective_directives ctx active lines)"

fun in_force :: "u8 list \<Rightarrow> (u8 list \<times> u8 list) list \<Rightarrow> u8 list option" where
  "in_force key [] = None"
| "in_force key ((k, v) # ds) = (case in_force key ds of Some w \<Rightarrow> Some w | None \<Rightarrow> if str_ieq k key then Some v else None)"

lemma config_line_Inr: "config_line ctx line s = (Inr r, t) \<longleftrightarrow> r = None \<and> parse_line_inplace ctx line s = (Inr (), t)"
  by (cases t) (auto simp: config_line_def thenA_eq_Inr)

context setting
begin

lemma in_force_is_set:
  "run_lines (config_line ctx) (retA ()) lines (c, active) = (Inr (), (c', active')) \<Longrightarrow>
   (case in_force key (effective_directives ctx active lines) of
      None \<Rightarrow> has c' = has c \<and> get c' = get c
    | Some v \<Rightarrow> has c' \<and> parse v = Inr (get c'))"
proof (induction lines arbitrary: c active)
  case (Cons line lines)
  from Cons.prems obtain d act where d: "parse_line_inplace ctx line (c, active) = (Inr (), (d, act))"
    and rest: "run_lines (config_line ctx) (retA ()) lines (d, act) = (Inr (), (c', active'))"
    by (auto simp: bindA_eq_Inr config_line_Inr simp del: retA_apply)
  note IH = Cons.IH [OF rest]
  show ?case
  proof (cases "\<exists>k v. split_line line = Inr (Some (k, v)) \<and> \<not> str_ieq k (lit ''Match'') \<and> active")
    case True
    then obtain k v where kv: "split_line line = Inr (Some (k, v))" "\<not> str_ieq k (lit ''Match'')" "active" by blast
    with d have "parse_one_directive k v c = (Inr (), d)" "act = active"
      by (auto simp: parse_line_inplace_def split: prod.splits)
    with IH kv sets [of k v c d] frame [of k v c _ d] show ?thesis
      by (auto split: option.splits)
  next
    case False
    with d have "d = c" "effective_directives ctx active (line # lines) = effective_directives ctx act lines"
      by (auto simp: parse_line_inplace_def split: sum.splits option.splits if_splits)
    with IH show ?thesis
      by (simp only:)
  qed
qed simp

end

interpretation password_setting: setting "lit ''PasswordAuthentication''" parse_bool_value
  scf_has_password_authentication scf_password_authentication
  by unfold_locales (auto simp: directive_simps split: if_splits sum.splits prod.splits option.splits)

interpretation pubkey_setting: setting "lit ''PubkeyAuthentication''" parse_bool_value
  scf_has_pubkey_authentication scf_pubkey_authentication
  by unfold_locales (auto simp: directive_simps split: if_splits sum.splits prod.splits option.splits)

interpretation root_setting: setting "lit ''PermitRootLogin''" parse_permit_root_login_value
  scf_has_permit_root_login scf_permit_root_login
  by unfold_locales (auto simp: directive_simps split: if_splits sum.splits prod.splits option.splits)

interpretation users_setting: setting "lit ''AllowUsers''" "set_string_value EMSSH_SSHD_CONFIG_VALUE_MAX"
  scf_has_allow_users scf_allow_users
  by unfold_locales (auto simp: directive_simps split: if_splits sum.splits prod.splits option.splits)

section \<open>What a file can set\<close>

text \<open>The values that are set are in range; the texts fit their arrays and contain no NUL.\<close>

definition text_ok :: "u8 list \<Rightarrow> bool" where
  "text_ok t \<longleftrightarrow> t \<noteq> [] \<and> length t < EMSSH_SSHD_CONFIG_VALUE_MAX \<and> 0 \<notin> set t"

definition config_ok :: "ssh_sshd_config_file \<Rightarrow> bool" where
  "config_ok c \<longleftrightarrow>
     (scf_has_port c \<longrightarrow> scf_port c \<noteq> 0) \<and>
     (scf_has_max_auth_tries c \<longrightarrow> 1 \<le> scf_max_auth_tries c \<and> scf_max_auth_tries c \<le> 255) \<and>
     (scf_has_permit_root_login c \<longrightarrow> EMSSH_PERMIT_ROOT_LOGIN_NO \<le> scf_permit_root_login c \<and>
        scf_permit_root_login c \<le> EMSSH_PERMIT_ROOT_LOGIN_PROHIBIT_PASSWORD) \<and>
     (scf_has_listen_address c \<longrightarrow> text_ok (scf_listen_address c)) \<and>
     (scf_has_allow_users c \<longrightarrow> text_ok (scf_allow_users c)) \<and>
     (scf_has_subsystem c \<longrightarrow> text_ok (scf_subsystem_name c)) \<and>
     (scf_has_authorized_keys_file c \<longrightarrow> text_ok (scf_authorized_keys_file c)) \<and>
     (scf_has_chroot_directory c \<longrightarrow> text_ok (scf_chroot_directory c)) \<and>
     (scf_has_host_key c \<longrightarrow> text_ok (scf_host_key_file c))"

lemma parse_uint_range: "9 \<le> m \<Longrightarrow> parse_uint_in_range v m = Inr n \<Longrightarrow> 0 < n \<and> n \<le> m"
  by (simp add: parse_uint_exact)

lemma port_not_zero: "parse_uint_in_range v 65535 = Inr n \<Longrightarrow> (of_nat n :: u16) \<noteq> 0"
proof -
  assume "parse_uint_in_range v 65535 = Inr n"
  then have "0 < n" "n \<le> 65535"
    using parse_uint_range [of 65535 v n] by simp_all
  then show "(of_nat n :: u16) \<noteq> 0"
    by (auto simp: word_of_nat_eq_0_iff dest!: dvd_imp_le)
qed

lemma set_string_ok: "0 \<notin> set v \<Longrightarrow> set_string_value EMSSH_SSHD_CONFIG_VALUE_MAX v = Inr t \<Longrightarrow> text_ok t"
  by (auto simp: set_string_value_def text_ok_def split: if_splits)

lemma subsystem_ok: "0 \<notin> set v \<Longrightarrow> parse_subsystem_value v EMSSH_SSHD_CONFIG_VALUE_MAX = Inr t \<Longrightarrow> text_ok t"
  by (auto simp: parse_subsystem_value_def text_ok_def Let_def split: if_splits dest!: set_takeWhileD set_dropWhileD)

lemma in_set_tl: "x \<in> set (tl xs) \<Longrightarrow> x \<in> set xs"
  by (cases xs) auto

lemma listen_address_ok:
  assumes "0 \<notin> set v" "parse_listen_address v EMSSH_SSHD_CONFIG_VALUE_MAX port = (r, port')"
  shows "(\<forall>host. r = Inr host \<longrightarrow> text_ok host) \<and> (port' = port \<or> (\<exists>n. port' = Some n \<and> n \<noteq> 0))"
proof -
  have "x \<in> set (takeWhile P (tl v)) \<Longrightarrow> x \<in> set v" "x \<in> set (rev (tl (dropWhile P (rev v)))) \<Longrightarrow> x \<in> set v" for x P
    by (auto dest!: set_takeWhileD in_set_tl set_dropWhileD)
  with assms show ?thesis
    unfolding parse_listen_address_def Let_def text_ok_def
    by (auto split: if_splits sum.splits simp del: set_rev length_tl dest: port_not_zero)
qed

definition keeps_ok :: "(ssh_sshd_config_file, unit) act \<Rightarrow> bool" where
  "keeps_ok m \<longleftrightarrow> (\<forall>c. config_ok c \<longrightarrow> config_ok (snd (m c)))"

lemma keeps_ok_if: "keeps_ok m \<Longrightarrow> keeps_ok n \<Longrightarrow> keeps_ok (if b then m else n)"
  by simp

lemma keeps_ok_store: "(\<And>v c. r = Inr v \<Longrightarrow> config_ok c \<Longrightarrow> config_ok (put v c)) \<Longrightarrow> keeps_ok (store r put)"
  by (auto simp: keeps_ok_def store_def split: sum.splits)

lemma keeps_ok_ret: "keeps_ok (retA ())"
  by (simp add: keeps_ok_def)

lemma root_value_range:
  "parse_permit_root_login_value v = Inr m \<Longrightarrow>
   EMSSH_PERMIT_ROOT_LOGIN_NO \<le> m \<and> m \<le> EMSSH_PERMIT_ROOT_LOGIN_PROHIBIT_PASSWORD"
  by (auto simp: parse_permit_root_login_value_def root_login_modes split: if_splits)

lemma config_ok_port: "config_ok c \<Longrightarrow> \<not> scf_has_port c \<or> n \<noteq> 0 \<Longrightarrow> config_ok (c\<lparr>scf_port := n\<rparr>)"
  by (auto simp: config_ok_def)

lemma directive_keeps_ok:
  assumes "0 \<notin> set v"
  shows "keeps_ok (parse_one_directive k v)"
proof -
  have facts: "\<And>n. parse_uint_in_range v 65535 = Inr n \<Longrightarrow> (of_nat n :: u16) \<noteq> 0"
    "\<And>n. parse_uint_in_range v 255 = Inr n \<Longrightarrow> Suc 0 \<le> n \<and> n \<le> 255"
    using port_not_zero [of v] parse_uint_range [of 255 v] by (simp_all add: Suc_le_eq)
  show ?thesis
    unfolding parse_one_directive_def
  proof (intro keeps_ok_if keeps_ok_store keeps_ok_ret, goal_cases)
    case 2
    show ?case
      unfolding keeps_ok_def
    proof (intro allI impI)
      fix c assume ok: "config_ok c"
      let ?port = "if scf_has_port c then None else Some (scf_port c)"
      obtain r port where rp: "parse_listen_address v EMSSH_SSHD_CONFIG_VALUE_MAX ?port = (r, port)"
        by fastforce
      let ?c = "case port of None \<Rightarrow> c | Some n \<Rightarrow> c\<lparr>scf_port := n\<rparr>"
      have "config_ok ?c"
        using listen_address_ok [OF assms rp] ok by (auto split: option.splits if_splits intro: config_ok_port)
      moreover have "text_ok host" if "r = Inr host" for host
        using listen_address_ok [OF assms rp] that by blast
      moreover have "config_ok c \<Longrightarrow> text_ok host \<Longrightarrow> config_ok (c\<lparr>scf_listen_address := host, scf_has_listen_address := True\<rparr>)"
        "config_ok c \<Longrightarrow> scf_port c \<noteq> 0 \<Longrightarrow> config_ok (c\<lparr>scf_has_port := True\<rparr>)" for c host
        by (simp_all add: config_ok_def)
      ultimately show "config_ok (snd (case parse_listen_address v EMSSH_SSHD_CONFIG_VALUE_MAX ?port of
          (r, port) \<Rightarrow> let config = case port of None \<Rightarrow> c | Some n \<Rightarrow> c\<lparr>scf_port := n\<rparr>
            in store r (\<lambda>host config. let config = config\<lparr>scf_listen_address := host, scf_has_listen_address := True\<rparr>
              in if \<not> scf_has_port config \<and> scf_port config \<noteq> 0 then config\<lparr>scf_has_port := True\<rparr> else config) config))"
        unfolding rp prod.case Let_def store_def by (cases r) auto
    qed
  qed (simp_all add: config_ok_def facts root_value_range set_string_ok [OF assms] subsystem_ok [OF assms])
qed

lemma split_line_value: "split_line line = Inr (Some (k, v)) \<Longrightarrow> 0 \<notin> set v"
  by (auto simp: split_line_def unquote_def trim_left_def trim_right_inplace_def cstring_of_def Let_def simp del: dropWhile_eq_Nil_conv
      split: if_splits dest!: in_set_tl in_set_butlastD set_dropWhileD set_takeWhileD)

interpretation config_reader: line_handler "config_line ctx" "retA ()" "\<lambda>s. config_ok (fst s)" "\<lambda>_ _. True" for ctx
proof unfold_locales
  fix s t line r
  assume ok: "config_ok (fst s)" and "config_line ctx line s = (r, t)"
  moreover have "config_ok c'" if "split_line line = Inr (Some (k, v))" "parse_one_directive k v (fst s) = (q, c')" for k v q c'
    using directive_keeps_ok [OF split_line_value [OF that(1)], of k] that(2) ok by (auto simp: keeps_ok_def)
  ultimately show "config_ok (fst t) \<and> (\<forall>a. r = Inr (Some a) \<longrightarrow> True)"
    by (cases s) (auto simp: config_line_def thenA_def bindA_def parse_line_inplace_def
      split: prod.splits sum.splits option.splits if_splits)
qed simp

text \<open>C22. Whatever the file holds and however the file system behaves, after the call every member that is marked as set is in its range, also
  when the call fails.\<close>

theorem loaded_config_is_in_range:
  assumes "ssh_sshd_config_file_load_with_match_context fs path ctx (c0, w) = Some (r, (c, w'))"
  shows "config_ok c"
proof -
  have "config_ok ssh_sshd_config_file_defaults"
    by (simp add: config_ok_def ssh_sshd_config_file_defaults_def)
  with assms config_reader.read_keeps [of "(ssh_sshd_config_file_defaults, True)"] show ?thesis
    by (fastforce simp: ssh_sshd_config_file_load_with_match_context_def read_and_parse_file_via_fs_def
        simp del: retA_apply split: option.splits prod.splits)
qed

section \<open>The text of a file and the login policy\<close>

lemma load_lines:
  assumes "fs_open fs = Some opening" "fs_read fs = Some reading" "fs_close fs = Some closing"
    and "opening path SSH_FXF_READ w = (Inr handle, w1)" "delivers (reading handle 512) pieces w1"
    and "list_all (\<lambda>l. length l < 1024) (text_lines (concat pieces))"
  shows "\<exists>w'. ssh_sshd_config_file_load_with_match_context (Some fs) (Some path) ctx (c0, w) =
     (case run_lines (config_line ctx) (retA ()) (text_lines (concat pieces)) (ssh_sshd_config_file_defaults, True) of
        (r, (c, _)) \<Rightarrow> Some (r, (c, snd (closing handle w'))))"
proof -
  have "run_text 1024 (config_line ctx) (retA ()) [] (concat pieces) =
      run_lines (config_line ctx) (retA ()) (text_lines (concat pieces))"
    using assms(6) by (intro run_text_lines) auto
  with read_text_file_text [OF assms(1-5), of 1024 "config_line ctx" "retA ()" "(ssh_sshd_config_file_defaults, True)"] show ?thesis
    by (auto simp: ssh_sshd_config_file_load_with_match_context_def read_and_parse_file_via_fs_def
        simp del: retA_apply split: prod.splits)
qed

text \<open>C19. Loading a file that can be opened, whose reads deliver its text in any pieces without an error, and whose lines are all
  shorter than 1024 bytes: the load returns what the lines say one by one, starting from the defaults and whatever the configuration was before, and
  closes the file. (A longer line is refused with \<^verbatim>\<open>SSH_ERR_BUFFER_TOO_SMALL\<close> when it is reached.)\<close>

theorem load_follows_the_lines:
  assumes "fs_open fs = Some opening" "fs_read fs = Some reading" "fs_close fs = Some closing"
    and "opening path SSH_FXF_READ w = (Inr handle, w1)" "delivers (reading handle 512) pieces w1"
    and "list_all (\<lambda>l. length l < 1024) (text_lines (concat pieces))"
  shows "\<exists>w'. ssh_sshd_config_file_load_with_match_context (Some fs) (Some path) ctx (c0, w) =
     (case run_lines (config_line ctx) (retA ()) (text_lines (concat pieces)) (ssh_sshd_config_file_defaults, True) of
        (r, (c, _)) \<Rightarrow> Some (r, (c, snd (closing handle w'))))"
  using load_lines [OF assms] .

lemma apply_server_config_fields:
  "cfg_password_auth (apply_server_config c sc) =
     (if scf_has_password_authentication c \<and> \<not> scf_password_authentication c then None else cfg_password_auth sc)"
  "cfg_publickey_auth (apply_server_config c sc) =
     (if scf_has_pubkey_authentication c \<and> \<not> scf_pubkey_authentication c then None else cfg_publickey_auth sc)"
  "cfg_permit_root_login (apply_server_config c sc) =
     (if scf_has_permit_root_login c then scf_permit_root_login c else cfg_permit_root_login sc)"
  "cfg_allow_users (apply_server_config c sc) = (if scf_has_allow_users c then Some (scf_allow_users c) else cfg_allow_users sc)"
  by (simp_all add: apply_server_config_def Let_def)

text \<open>C7. The configuration file is enforced. When the lines of the file are read without error and applied to the configuration of a server,
  a login succeeds only as the values in force allow: not as root when \<^verbatim>\<open>PermitRootLogin\<close> is no, not with a password when
  \<^verbatim>\<open>PasswordAuthentication\<close> is off, not with a key when \<^verbatim>\<open>PubkeyAuthentication\<close> is off, and only for a name that matches a
  pattern of \<^verbatim>\<open>AllowUsers\<close>.\<close>

theorem configured_policy_is_enforced:
  assumes "run_lines (config_line ctx) (retA ()) lines (ssh_sshd_config_file_defaults, True) = (Inr (), (c, active))"
    and "ssh_sshd_config_file_apply c (Some base) options port chroot key_file = (Some applied, rest)"
    and "ssh_userauth_evaluate_request backend (server\<lparr>srv_config := applied\<rparr>) request session_id = Inr SSH_USERAUTH_DECISION_SUCCESS"
    and "force = (\<lambda>key. in_force (lit key) (effective_directives ctx True lines))"
  shows "(\<forall>v. force ''PermitRootLogin'' = Some v \<and> str_ieq v (lit ''no'') \<longrightarrow> ua_username request \<noteq> Some (lit ''root'')) \<and>
    (\<forall>v. force ''PasswordAuthentication'' = Some v \<and> parse_bool_value v = Inr False \<longrightarrow>
       ua_method_name request \<noteq> Some SSH_AUTH_METHOD_PASSWORD) \<and>
    (\<forall>v. force ''PubkeyAuthentication'' = Some v \<and> parse_bool_value v = Inr False \<longrightarrow>
       ua_method_name request \<noteq> Some SSH_AUTH_METHOD_PUBLICKEY) \<and>
    (\<forall>v. force ''AllowUsers'' = Some v \<longrightarrow>
       (\<exists>name pattern. ua_username request = Some name \<and> pattern \<in> set (allow_patterns v) \<and> glob pattern name))"
proof -
  let ?server = "server\<lparr>srv_config := applied\<rparr>"
  have applied: "applied = apply_server_config c base"
    using assms(2) by (simp add: ssh_sshd_config_file_apply_def)
  have cred: "password_verified ?server request \<or> signature_verified ?server request session_id"
    and allowed: "request_allowed_by_server_policy ?server request"
    using evaluate_success [OF assms(3)] by blast+
  note settings = password_setting.in_force_is_set [OF assms(1)] pubkey_setting.in_force_is_set [OF assms(1)]
    root_setting.in_force_is_set [OF assms(1)] users_setting.in_force_is_set [OF assms(1)]
  show ?thesis
  proof (intro conjI allI impI)
    fix v assume "force ''PermitRootLogin'' = Some v \<and> str_ieq v (lit ''no'')"
    with settings(3) have "cfg_permit_root_login applied = EMSSH_PERMIT_ROOT_LOGIN_NO"
      by (auto simp: assms(4) applied apply_server_config_fields parse_permit_root_login_value_def str_ieq_iff split: if_splits)
    with allowed show "ua_username request \<noteq> Some (lit ''root'')"
      by (auto simp: policy_iff)
  next
    fix v assume "force ''PasswordAuthentication'' = Some v \<and> parse_bool_value v = Inr False"
    with settings(1) have "cfg_password_auth applied = None"
      by (simp add: assms(4) applied apply_server_config_fields del: lit_simps)
    with cred show "ua_method_name request \<noteq> Some SSH_AUTH_METHOD_PASSWORD"
      by (auto simp: password_verified_def signature_verified_def SSH_AUTH_METHOD_PASSWORD_def SSH_AUTH_METHOD_PUBLICKEY_def)
  next
    fix v assume "force ''PubkeyAuthentication'' = Some v \<and> parse_bool_value v = Inr False"
    with settings(2) have "cfg_publickey_auth applied = None"
      by (simp add: assms(4) applied apply_server_config_fields del: lit_simps)
    with cred show "ua_method_name request \<noteq> Some SSH_AUTH_METHOD_PUBLICKEY"
      by (auto simp: password_verified_def signature_verified_def SSH_AUTH_METHOD_PASSWORD_def SSH_AUTH_METHOD_PUBLICKEY_def)
  next
    fix v assume "force ''AllowUsers'' = Some v"
    with settings(4) have "cfg_allow_users applied = Some v" "v \<noteq> []"
      by (auto simp: assms(4) applied apply_server_config_fields set_string_value_def simp del: lit_simps split: if_splits)
    with allowed show "\<exists>name pattern. ua_username request = Some name \<and> pattern \<in> set (allow_patterns v) \<and> glob pattern name"
      by (cases "ua_username request")
        (auto simp: policy_iff username_allowed_by_allow_users_def allow_users_loop_iff dest: pattern_matches_sound split: if_splits)
  qed
qed


section \<open>A sample file\<close>

text \<open>A file system with one file, delivered in given pieces.\<close>

definition text_open :: "u8 list \<Rightarrow> u32 \<Rightarrow> (u8 list list, nat) act" where
  "text_open path flags w = (Inr 1, w)"

definition text_read :: "nat \<Rightarrow> nat \<Rightarrow> (u8 list list, u8 list) act" where
  "text_read handle n w = (case w of [] \<Rightarrow> (Inr [], []) | piece # pieces \<Rightarrow> (Inr piece, pieces))"

definition text_fs :: "u8 list list ssh_fs_api" where
  "text_fs = \<lparr>fs_open = Some text_open, fs_close = Some (\<lambda>handle w. (Inr (), w)),
     fs_read = Some text_read,
     fs_write = None, fs_read_at = None, fs_write_at = None, fs_stat = None, fs_lstat = None, fs_setstat = None, fs_fsetstat = None,
     fs_opendir = None, fs_readdir = None, fs_closedir = None, fs_mkdir = None, fs_rmdir = None, fs_remove = None, fs_rename = None,
     fs_posix_rename = None, fs_fsync = None, fs_hardlink = None, fs_statvfs = None, fs_fstatvfs = None\<rparr>"

lemma text_fs_ops:
  "fs_open text_fs = Some text_open" "fs_read text_fs = Some text_read" "fs_close text_fs = Some (\<lambda>handle w. (Inr (), w))"
  by (simp_all add: text_fs_def)

lemma text_fs_open: "text_open path SSH_FXF_READ w = (Inr 1, w)"
  by (simp add: text_open_def)

lemma text_fs_delivers: "[] \<notin> set pieces \<Longrightarrow> delivers (text_read handle n) pieces pieces"
  by (induction pieces) (auto simp: text_read_def)

definition sample_text :: "u8 list list" where
  "sample_text = [lit ''PermitRoo'', lit ''tLogin no # comment'', [10], lit ''AllowUsers=a*'', [10, 10], lit ''Match User bob'', [10],
     lit ''PasswordAuthentication no'', [10]]"

definition sample_config :: ssh_sshd_config_file where
  "sample_config = ssh_sshd_config_file_defaults\<lparr>scf_has_permit_root_login := True, scf_permit_root_login := EMSSH_PERMIT_ROOT_LOGIN_NO,
     scf_has_allow_users := True, scf_allow_users := lit ''a*''\<rparr>"

lemma sample_run:
  "run_lines (config_line None) (retA ()) (text_lines (concat sample_text)) (ssh_sshd_config_file_defaults, True) =
     (Inr (), (sample_config, False))"
  by code_simp

lemma sample_pieces: "[] \<notin> set sample_text"
  by (simp add: sample_text_def)

lemma sample_short: "list_all (\<lambda>l. length l < 1024) (text_lines (concat sample_text))"
  by code_simp

lemma text_fs_load:
  assumes "[] \<notin> set pieces" "list_all (\<lambda>l. length l < 1024) (text_lines (concat pieces))"
    "run_lines (config_line ctx) (retA ()) (text_lines (concat pieces)) (ssh_sshd_config_file_defaults, True) = (r, (c, active))"
  shows "\<exists>w'. ssh_sshd_config_file_load_with_match_context (Some text_fs) (Some path) ctx (c0, pieces) = Some (r, (c, w'))"
  using load_lines [OF text_fs_ops text_fs_open text_fs_delivers [OF assms(1)] assms(2), of path ctx c0]
  unfolding assms(3) by simp

theorem load_follows_the_lines_witness:
  "\<exists>w'. ssh_sshd_config_file_load_with_match_context (Some text_fs) (Some []) None (sample_config, sample_text) =
     Some (Inr (), (sample_config, w'))"
  using load_follows_the_lines [OF text_fs_ops text_fs_open text_fs_delivers [OF sample_pieces] sample_short,
      of "[]" None sample_config]
  unfolding sample_run by simp

theorem loaded_config_is_in_range_witness: "config_ok sample_config"
proof -
  obtain w' where "ssh_sshd_config_file_load_with_match_context (Some text_fs) (Some []) None (ssh_sshd_config_file_defaults, sample_text) =
      Some (Inr (), (sample_config, w'))"
    using text_fs_load [OF sample_pieces sample_short sample_run] by blast
  then show ?thesis
    by (rule loaded_config_is_in_range)
qed

lemma sample_policy:
  "ssh_userauth_evaluate_request None (sample_server\<lparr>srv_config := apply_server_config sample_config (srv_config sample_server)\<rparr>)
     (sample_request (lit ''al'')) None = Inr SSH_USERAUTH_DECISION_SUCCESS"
  using sample_allowed sample_not_root
  by (simp add: ssh_userauth_evaluate_request_def ssh_userauth_authenticate_password_def sample_request_def sample_config_def
      ssh_sshd_config_file_defaults_def apply_server_config_fields sample_server_def empty_userauth_request_def policy_iff del: lit_simps)

lemma sample_in_force: "in_force (lit ''AllowUsers'') (effective_directives None True (text_lines (concat sample_text))) = Some (lit ''a*'')"
  by code_simp

theorem configured_policy_is_enforced_witness:
  "\<exists>name pattern. ua_username (sample_request (lit ''al'')) = Some name \<and> pattern \<in> set (allow_patterns (lit ''a*'')) \<and> glob pattern name"
proof -
  have "ssh_sshd_config_file_apply sample_config (Some (srv_config sample_server)) (None :: unit ssh_server_session_options option) None None None =
      (Some (apply_server_config sample_config (srv_config sample_server)), (None, None, None, None))"
    by (simp add: ssh_sshd_config_file_apply_def)
  from configured_policy_is_enforced [OF sample_run this sample_policy refl, THEN conjunct2, THEN conjunct2, THEN conjunct2]
  show ?thesis
    using sample_in_force by (simp only: option.inject)
qed

lemma last_colon:
  "colon \<notin> set digits \<Longrightarrow> takeWhile (\<lambda>c. c \<noteq> colon) (rev digits @ colon # rest) = rev digits"
  "colon \<notin> set digits \<Longrightarrow> dropWhile (\<lambda>c. c \<noteq> colon) (rev digits @ colon # rest) = colon # rest"
  by (subst takeWhile_append2 dropWhile_append2; auto)+

text \<open>C39. An IPv6 address without brackets is taken apart. While no port is set, the value of \<^verbatim>\<open>ListenAddress\<close> is cut at its last colon whenever a
  port number follows it, whatever stands before, so \<^verbatim>\<open>fe80::1\<close> becomes the host \<^verbatim>\<open>fe80:\<close> and the port 1. Once a port is set the
  same value is the host. The check that no colon follows the last colon, which seems meant to exclude such addresses, holds for every value.\<close>

theorem listen_address_splits_ipv6:
  assumes "host \<noteq> []" "hd host \<noteq> left_bracket" "length host < EMSSH_SSHD_CONFIG_VALUE_MAX"
    and "digits \<noteq> []" "list_all is_digit digits" "0 < decimal_value digits" "decimal_value digits \<le> 65535"
  shows "(\<not> scf_has_port c \<longrightarrow> parse_one_directive (lit ''ListenAddress'') (host @ [colon] @ digits) c =
       (Inr (), c\<lparr>scf_has_listen_address := True, scf_listen_address := host, scf_has_port := True, scf_port := of_nat (decimal_value digits)\<rparr>)) \<and>
     (scf_has_port c \<and> length (host @ [colon] @ digits) < EMSSH_SSHD_CONFIG_VALUE_MAX \<longrightarrow>
       parse_one_directive (lit ''ListenAddress'') (host @ [colon] @ digits) c =
       (Inr (), c\<lparr>scf_has_listen_address := True, scf_listen_address := host @ [colon] @ digits\<rparr>)) \<and>
     colon \<notin> set (rev (takeWhile (\<lambda>c. c \<noteq> colon) (rev any)))"
proof (intro conjI impI)
  have digits: "colon \<notin> set digits"
    using assms(5) by (auto simp: list_all_iff is_digit_def colon_def)
  have port: "parse_uint_in_range digits 65535 = Inr (decimal_value digits)"
    using assms(4-7) by (simp add: parse_uint_exact)
  have nonzero: "(of_nat (decimal_value digits) :: u16) \<noteq> 0"
    using assms(6,7) by (simp add: word_of_nat_eq_0_iff nat_dvd_not_less)
  show "parse_one_directive (lit ''ListenAddress'') (host @ [colon] @ digits) c =
      (Inr (), c\<lparr>scf_has_listen_address := True, scf_listen_address := host, scf_has_port := True, scf_port := of_nat (decimal_value digits)\<rparr>)"
    if "\<not> scf_has_port c"
  proof -
    have "parse_listen_address (host @ [colon] @ digits) EMSSH_SSHD_CONFIG_VALUE_MAX (Some (scf_port c)) =
        (Inr host, Some (of_nat (decimal_value digits)))"
      using assms(1-4) digits port
      by (simp add: parse_listen_address_def last_colon Let_def EMSSH_SSHD_CONFIG_VALUE_MAX_def)
    then show ?thesis
      using that nonzero by (simp add: directive_simps)
  qed
  show "parse_one_directive (lit ''ListenAddress'') (host @ [colon] @ digits) c =
      (Inr (), c\<lparr>scf_has_listen_address := True, scf_listen_address := host @ [colon] @ digits\<rparr>)"
    if "scf_has_port c \<and> length (host @ [colon] @ digits) < EMSSH_SSHD_CONFIG_VALUE_MAX"
    using that assms(1,2) by (simp add: parse_listen_address_def directive_simps EMSSH_SSHD_CONFIG_VALUE_MAX_def)
  show "colon \<notin> set (rev (takeWhile (\<lambda>c. c \<noteq> colon) (rev any)))"
    by (auto dest: set_takeWhileD)
qed

theorem listen_address_splits_ipv6_witness:
  "parse_one_directive (lit ''ListenAddress'') (lit ''fe80::1'') ssh_sshd_config_file_defaults =
     (Inr (), ssh_sshd_config_file_defaults\<lparr>scf_has_listen_address := True, scf_listen_address := lit ''fe80:'',
        scf_has_port := True, scf_port := 1\<rparr>)"
  using listen_address_splits_ipv6 [of "lit ''fe80:''" "lit ''1''" ssh_sshd_config_file_defaults]
  by (simp add: decimal_value_def is_digit_def colon_def left_bracket_def EMSSH_SSHD_CONFIG_VALUE_MAX_def ssh_sshd_config_file_defaults_def)

end
