(* ===== verification/Posix_Passwd.thy ===== *)
theory Posix_Passwd
  imports Text_Lines Ssh_Session_Server
begin

text \<open>
  Password verification against the password files: \<^verbatim>\<open>src/platform/posix_passwd_auth.c\<close>, the callback an application puts in
  \<^verbatim>\<open>password_auth\<close>. \<^verbatim>\<open>crypt(3)\<close> is the argument \<open>crypt\<close>: the hash of a password under a setting, both C strings, \<open>None\<close> for
  NULL. The wiping of the buffers after use is not modelled: they are local and not read again.

  The callback returns what the C function returns as a status: a \<open>bool\<close>.
\<close>

section \<open>Data\<close>

definition EMSSH_POSIX_PASSWD_PATH :: "u8 list" where "EMSSH_POSIX_PASSWD_PATH = lit ''/etc/passwd''"
definition EMSSH_POSIX_SHADOW_PATH :: "u8 list" where "EMSSH_POSIX_SHADOW_PATH = lit ''/etc/shadow''"
definition EMSSH_POSIX_PASSWD_AUTH_LINE_MAX :: nat where "EMSSH_POSIX_PASSWD_AUTH_LINE_MAX = 2048"
definition EMSSH_POSIX_PASSWD_AUTH_HASH_MAX :: nat where "EMSSH_POSIX_PASSWD_AUTH_HASH_MAX = 512"
definition EMSSH_POSIX_PASSWD_AUTH_USERNAME_MAX :: nat where "EMSSH_POSIX_PASSWD_AUTH_USERNAME_MAX = 256"
definition EMSSH_POSIX_PASSWD_AUTH_PASSWORD_MAX :: nat where "EMSSH_POSIX_PASSWD_AUTH_PASSWORD_MAX = 256"

record 'w ssh_posix_passwd_auth =
  ppa_fs :: "'w ssh_fs_api option"
  ppa_passwd_path :: cstr
  ppa_shadow_path :: cstr
  ppa_initialized :: bool

section \<open>Lines and hashes\<close>

text \<open>The copy of a field of the request. What reads it as a C string sees the bytes before the first NUL.\<close>

definition copy_request_field :: "view \<Rightarrow> nat \<Rightarrow> ssh_err + u8 list" where
  "copy_request_field data out_capacity =
    (if out_capacity = 0 then Inl SSH_ERR_INVALID_ARGUMENT
     else if view_len data + 1 > out_capacity then Inl SSH_ERR_BUFFER_TOO_SMALL
     else Inr (view_data data))"

definition field_end :: u8 where "field_end = 58"

text \<open>\<^verbatim>\<open>line\<close> is a C string: \<open>user:hash:...\<close>. A line without a second colon has no hash, nor has one with an empty hash.\<close>

definition line_extract_hash_for_user :: "u8 list \<Rightarrow> u8 list \<Rightarrow> u8 list option" where
  "line_extract_hash_for_user line username =
    (let user = takeWhile (\<lambda>c. c \<noteq> field_end) line; user_end = dropWhile (\<lambda>c. c \<noteq> field_end) line
     in if user_end = [] then None
     else if length user \<noteq> length username \<or> user \<noteq> username then None
     else let hash = takeWhile (\<lambda>c. c \<noteq> field_end) (tl user_end); hash_end = dropWhile (\<lambda>c. c \<noteq> field_end) (tl user_end)
     in if hash_end = [] \<or> hash = [] then None else Some hash)"

definition hash_field_requires_shadow :: "u8 list \<Rightarrow> bool" where
  "hash_field_requires_shadow hash =
    (if length hash = 0 then False
     else if length hash = 1 \<and> (hash ! 0 = 120 \<or> hash ! 0 = 42 \<or> hash ! 0 = 33) then True
     else if length hash = 2 \<and> hash ! 0 = 33 \<and> hash ! 1 = 33 then True
     else False)"

definition hash_field_is_usable :: "u8 list \<Rightarrow> bool" where
  "hash_field_is_usable hash =
    (if length hash = 0 then False
     else if length hash = 1 \<and> (hash ! 0 = 120 \<or> hash ! 0 = 42 \<or> hash ! 0 = 33) then False
     else if length hash = 2 \<and> hash ! 0 = 33 \<and> hash ! 1 = 33 then False
     else True)"

definition verify_password_against_hash :: "(u8 list \<Rightarrow> u8 list \<Rightarrow> cstr) \<Rightarrow> u8 list \<Rightarrow> u8 list \<Rightarrow> bool" where
  "verify_password_against_hash crypt password hash =
    (if length hash = 0 \<or> length hash \<ge> EMSSH_POSIX_PASSWD_AUTH_HASH_MAX then False
     else case crypt password hash of
       None \<Rightarrow> False
     | Some result \<Rightarrow> length result = length hash \<and> result = hash)"

definition parse_line_copy_hash_if_match :: "u8 list \<Rightarrow> u8 list \<Rightarrow> nat \<Rightarrow> ssh_err + u8 list option" where
  "parse_line_copy_hash_if_match line username hash_capacity =
    (case line_extract_hash_for_user (cstring_of line) username of
       None \<Rightarrow> Inr None
     | Some hash \<Rightarrow> if length hash + 1 > hash_capacity then Inl SSH_ERR_BUFFER_TOO_SMALL else Inr (Some hash))"

section \<open>Files\<close>

text \<open>A carriage return at the end of a line is dropped.\<close>

definition passwd_line :: "u8 list \<Rightarrow> nat \<Rightarrow> u8 list \<Rightarrow> (unit, u8 list option) act" where
  "passwd_line username hash_capacity line s =
    (let line = (if line \<noteq> [] \<and> last line = 13 then butlast line else line)
     in (parse_line_copy_hash_if_match line username hash_capacity, s))"

definition read_hash_from_file :: "'w ssh_fs_api option \<Rightarrow> cstr \<Rightarrow> u8 list \<Rightarrow> nat \<Rightarrow> (unit \<times> 'w, u8 list) proc" where
  "read_hash_from_file fs path username hash_capacity =
     read_text_file EMSSH_POSIX_PASSWD_AUTH_LINE_MAX (passwd_line username hash_capacity) (failA SSH_ERR_NOT_FOUND) fs path"

definition passwd_auth_verify ::
    "(u8 list \<Rightarrow> u8 list \<Rightarrow> cstr) \<Rightarrow> 'w ssh_fs_api option \<Rightarrow> cstr \<Rightarrow> cstr \<Rightarrow> u8 list \<Rightarrow> u8 list \<Rightarrow> (unit \<times> 'w, bool) proc" where
  "passwd_auth_verify crypt fs passwd_path shadow_path username password =
    (if fs = None \<or> passwd_path = None then retP False
     else tryP (read_hash_from_file fs passwd_path username EMSSH_POSIX_PASSWD_AUTH_HASH_MAX) (\<lambda>_. retP False) (\<lambda>hash.
       let finish = (\<lambda>hash. if \<not> hash_field_is_usable hash then retP False else retP (verify_password_against_hash crypt password hash))
       in if hash_field_requires_shadow hash \<and> shadow_path \<noteq> None \<and> shadow_path \<noteq> Some []
          then tryP (read_hash_from_file fs shadow_path username EMSSH_POSIX_PASSWD_AUTH_HASH_MAX) (\<lambda>_. retP False) finish
          else finish hash))"

definition ssh_posix_passwd_auth_init :: "'w ssh_fs_api option \<Rightarrow> cstr \<Rightarrow> cstr \<Rightarrow> ssh_err + 'w ssh_posix_passwd_auth" where
  "ssh_posix_passwd_auth_init fs passwd_path shadow_path =
    (case fs of
       None \<Rightarrow> Inl SSH_ERR_INVALID_ARGUMENT
     | Some api \<Rightarrow>
         if fs_open api = None \<or> fs_read api = None \<or> fs_close api = None then Inl SSH_ERR_INVALID_ARGUMENT
         else Inr \<lparr>ppa_fs = fs,
           ppa_passwd_path = (if passwd_path \<noteq> None \<and> passwd_path \<noteq> Some [] then passwd_path else Some EMSSH_POSIX_PASSWD_PATH),
           ppa_shadow_path = (if shadow_path \<noteq> None \<and> shadow_path \<noteq> Some [] then shadow_path else Some EMSSH_POSIX_SHADOW_PATH),
           ppa_initialized = True\<rparr>)"

definition ssh_posix_passwd_auth_deinit :: "'w ssh_posix_passwd_auth \<Rightarrow> 'w ssh_posix_passwd_auth" where
  "ssh_posix_passwd_auth_deinit auth = \<lparr>ppa_fs = None, ppa_passwd_path = None, ppa_shadow_path = None, ppa_initialized = False\<rparr>"

definition ssh_posix_passwd_auth_cb ::
    "(u8 list \<Rightarrow> u8 list \<Rightarrow> cstr) \<Rightarrow> 'w ssh_posix_passwd_auth \<Rightarrow> ssh_password_auth_request \<Rightarrow> (unit \<times> 'w, bool) proc" where
  "ssh_posix_passwd_auth_cb crypt auth request =
    (if \<not> ppa_initialized auth then retP False
     else case copy_request_field (pwr_username request) EMSSH_POSIX_PASSWD_AUTH_USERNAME_MAX of
       Inl _ \<Rightarrow> retP False
     | Inr username \<Rightarrow>
         (case copy_request_field (pwr_password request) EMSSH_POSIX_PASSWD_AUTH_PASSWORD_MAX of
           Inl _ \<Rightarrow> retP False
         | Inr password \<Rightarrow>
             passwd_auth_verify crypt (ppa_fs auth) (ppa_passwd_path auth) (ppa_shadow_path auth) (cstring_of username) (cstring_of password)))"

section \<open>The hash of a user\<close>

text \<open>What a password file says of a user: the hash of the first line with the name of the user and a hash.\<close>

fun stored_hash :: "u8 list \<Rightarrow> u8 list list \<Rightarrow> u8 list option" where
  "stored_hash user [] = None"
| "stored_hash user (line # lines) =
    (case line_extract_hash_for_user (cstring_of (if line \<noteq> [] \<and> last line = 13 then butlast line else line)) user of
       None \<Rightarrow> stored_hash user lines
     | Some hash \<Rightarrow> Some hash)"

text \<open>A line has the user and the hash exactly when it starts with them, each followed by a colon.\<close>

lemma split_field: "dropWhile (\<lambda>c. c \<noteq> x) xs \<noteq> [] \<Longrightarrow> xs = takeWhile (\<lambda>c. c \<noteq> x) xs @ x # tl (dropWhile (\<lambda>c. c \<noteq> x) xs)"
  by (induction xs) auto

lemma field_split [simp]:
  "x \<notin> set u \<Longrightarrow> takeWhile (\<lambda>c. c \<noteq> x) (u @ x # r) = u"
  "x \<notin> set u \<Longrightarrow> dropWhile (\<lambda>c. c \<noteq> x) (u @ x # r) = x # r"
  by (induction u) auto

lemma extract_hash_iff:
  "line_extract_hash_for_user line user = Some hash \<longleftrightarrow>
     hash \<noteq> [] \<and> field_end \<notin> set user \<and> field_end \<notin> set hash \<and> (\<exists>rest. line = user @ [field_end] @ hash @ [field_end] @ rest)"
  (is "?l \<longleftrightarrow> ?r")
proof
  assume ?l
  then have *: "takeWhile (\<lambda>c. c \<noteq> field_end) line = user" "dropWhile (\<lambda>c. c \<noteq> field_end) line \<noteq> []"
    "takeWhile (\<lambda>c. c \<noteq> field_end) (tl (dropWhile (\<lambda>c. c \<noteq> field_end) line)) = hash"
    "dropWhile (\<lambda>c. c \<noteq> field_end) (tl (dropWhile (\<lambda>c. c \<noteq> field_end) line)) \<noteq> []" "hash \<noteq> []"
    by (simp_all add: line_extract_hash_for_user_def Let_def del: dropWhile_eq_Nil_conv split: if_splits)
  define rest where "rest = tl (dropWhile (\<lambda>c. c \<noteq> field_end) (tl (dropWhile (\<lambda>c. c \<noteq> field_end) line)))"
  have "line = user @ field_end # tl (dropWhile (\<lambda>c. c \<noteq> field_end) line)"
    using split_field [OF *(2)] unfolding *(1) .
  moreover have "tl (dropWhile (\<lambda>c. c \<noteq> field_end) line) = hash @ field_end # rest"
    using split_field [OF *(4)] unfolding *(3) rest_def .
  ultimately have "line = user @ [field_end] @ hash @ [field_end] @ rest"
    by simp
  moreover have "field_end \<notin> set user" "field_end \<notin> set hash"
    unfolding *(1,3) [symmetric] by (auto dest: set_takeWhileD)
  ultimately show ?r
    using *(5) by blast
next
  assume ?r
  then show ?l
    by (auto simp: line_extract_hash_for_user_def Let_def simp del: dropWhile_eq_Nil_conv)
qed

lemma passwd_lines:
  "run_lines (passwd_line user capacity) (failA SSH_ERR_NOT_FOUND) lines () =
    (case stored_hash user lines of
       None \<Rightarrow> Inl SSH_ERR_NOT_FOUND
     | Some hash \<Rightarrow> if length hash + 1 > capacity then Inl SSH_ERR_BUFFER_TOO_SMALL else Inr hash, ())"
proof (induction lines)
  case (Cons line lines)
  then show ?case
    by (simp add: bindA_def passwd_line_def parse_line_copy_hash_if_match_def Let_def split: option.splits)
qed simp

text \<open>Whatever the file system does, a hash that is found fits the buffer it is copied to.\<close>

interpretation hash_reader: line_handler "passwd_line user capacity" "failA SSH_ERR_NOT_FOUND" "\<lambda>_. True"
  "\<lambda>hash _. hash \<noteq> [] \<and> length hash < capacity" for user capacity
  by unfold_locales (auto simp: passwd_line_def parse_line_copy_hash_if_match_def Let_def extract_hash_iff split: option.splits if_splits)

lemma hash_fits:
  "read_hash_from_file fs path user capacity ((), w) = Some (Inr hash, s) \<Longrightarrow> hash \<noteq> [] \<and> length hash < capacity"
  by (cases s) (auto simp: read_hash_from_file_def dest: hash_reader.read_keeps [OF TrueI])

section \<open>The verdict\<close>

text \<open>The contract of the file system that the callback relies on: in every world with \<open>W\<close>, opening the file at \<open>path\<close> for reading gives a
  handle on which reads of 512 bytes deliver \<open>content\<close>, and once this handle is closed, after any number of these reads, \<open>W\<close> holds again.
  Nothing is asked of other files, of other open flags or of the worlds in between.\<close>

definition contains :: "'w ssh_fs_api \<Rightarrow> ('w \<Rightarrow> bool) \<Rightarrow> u8 list \<Rightarrow> u8 list \<Rightarrow> bool" where
  "contains fs W path content \<longleftrightarrow>
     (\<exists>open_cb read_cb close_cb. fs_open fs = Some open_cb \<and> fs_read fs = Some read_cb \<and> fs_close fs = Some close_cb \<and>
       (\<forall>w. W w \<longrightarrow> (\<exists>h w1 pieces. open_cb path SSH_FXF_READ w = (Inr h, w1) \<and> delivers (read_cb h 512) pieces w1 \<and>
         concat pieces = content \<and> (\<forall>w2. reads_to (read_cb h 512) w1 w2 \<longrightarrow> W (snd (close_cb h w2))))))"

lemma read_hash_result:
  assumes "contains fs W path content" "W w"
    and "list_all (\<lambda>l. length l < EMSSH_POSIX_PASSWD_AUTH_LINE_MAX) (text_lines content)"
  shows "\<exists>w'. W w' \<and> read_hash_from_file (Some fs) (Some path) user capacity ((), w) =
    Some (case stored_hash user (text_lines content) of
       None \<Rightarrow> Inl SSH_ERR_NOT_FOUND
     | Some hash \<Rightarrow> if length hash + 1 > capacity then Inl SSH_ERR_BUFFER_TOO_SMALL else Inr hash, ((), w'))"
proof -
  obtain open_cb read_cb close_cb h w1 pieces where ops: "fs_open fs = Some open_cb" "fs_read fs = Some read_cb" "fs_close fs = Some close_cb"
    and h: "open_cb path SSH_FXF_READ w = (Inr h, w1)" and pieces: "delivers (read_cb h 512) pieces w1"
    and content: "concat pieces = content" and closed: "\<And>w2. reads_to (read_cb h 512) w1 w2 \<Longrightarrow> W (snd (close_cb h w2))"
    using assms(1,2) unfolding contains_def by metis
  have whole: "run_text EMSSH_POSIX_PASSWD_AUTH_LINE_MAX (passwd_line user capacity) (failA SSH_ERR_NOT_FOUND) [] content =
      run_lines (passwd_line user capacity) (failA SSH_ERR_NOT_FOUND) (text_lines content)"
    using assms(3) by (intro run_text_lines) (simp_all add: EMSSH_POSIX_PASSWD_AUTH_LINE_MAX_def)
  from read_text_file_text [OF ops h pieces, of EMSSH_POSIX_PASSWD_AUTH_LINE_MAX "passwd_line user capacity" "failA SSH_ERR_NOT_FOUND" "()"]
  obtain w' where w': "reads_to (read_cb h 512) w1 w'"
    and eq: "read_hash_from_file (Some fs) (Some path) user capacity ((), w) =
      Some (fst (run_lines (passwd_line user capacity) (failA SSH_ERR_NOT_FOUND) (text_lines content) ()),
        (snd (run_lines (passwd_line user capacity) (failA SSH_ERR_NOT_FOUND) (text_lines content) ()), snd (close_cb h w')))"
    unfolding content whole read_hash_from_file_def by blast
  then show ?thesis
    using eq closed unfolding passwd_lines by (intro exI [of _ "snd (close_cb h w')"]) simp
qed

text \<open>The hashes that stand for a locked account or for an entry in the other file.\<close>

definition placeholder :: "u8 list \<Rightarrow> bool" where
  "placeholder hash \<longleftrightarrow> hash \<in> {lit ''x'', lit ''*'', lit ''!'', lit ''!!''}"

lemma placeholder_iff:
  "hash \<noteq> [] \<Longrightarrow> hash_field_requires_shadow hash = placeholder hash" "hash \<noteq> [] \<Longrightarrow> hash_field_is_usable hash = (\<not> placeholder hash)"
  by (auto simp: hash_field_requires_shadow_def hash_field_is_usable_def placeholder_def length_Suc_conv numeral_2_eq_2)

lemma stored_hash_not_Nil: "stored_hash user lines = Some hash \<Longrightarrow> hash \<noteq> []"
  by (induction lines) (auto simp: extract_hash_iff split: option.splits)

text \<open>The verdict on a password: the account has an entry in the first file, the entry, or the one in the second file if the first is a
  placeholder, is a hash, and the password hashes to it.\<close>

definition verdict :: "(u8 list \<Rightarrow> u8 list \<Rightarrow> cstr) \<Rightarrow> u8 list \<Rightarrow> u8 list \<Rightarrow> u8 list \<Rightarrow> u8 list \<Rightarrow> bool" where
  "verdict crypt passwd shadow user password \<longleftrightarrow>
    (\<exists>entry. stored_hash user (text_lines passwd) = Some entry \<and> length entry < EMSSH_POSIX_PASSWD_AUTH_HASH_MAX \<and>
      (\<exists>hash. (if placeholder entry then stored_hash user (text_lines shadow) = Some hash else hash = entry) \<and>
        length hash < EMSSH_POSIX_PASSWD_AUTH_HASH_MAX \<and> \<not> placeholder hash \<and> crypt password hash = Some hash))"

lemma verify_result:
  assumes "contains fs W p passwd" "contains fs W q shadow" "W w" "q \<noteq> []"
    and "list_all (\<lambda>l. length l < EMSSH_POSIX_PASSWD_AUTH_LINE_MAX) (text_lines passwd)"
    and "list_all (\<lambda>l. length l < EMSSH_POSIX_PASSWD_AUTH_LINE_MAX) (text_lines shadow)"
  shows "\<exists>w'. W w' \<and> passwd_auth_verify crypt (Some fs) (Some p) (Some q) user password ((), w) =
    Some (Inr (verdict crypt passwd shadow user password), ((), w'))"
proof -
  let ?cap = EMSSH_POSIX_PASSWD_AUTH_HASH_MAX
  obtain w1 where w1: "W w1" "read_hash_from_file (Some fs) (Some p) user ?cap ((), w) =
    Some (case stored_hash user (text_lines passwd) of None \<Rightarrow> Inl SSH_ERR_NOT_FOUND
       | Some hash \<Rightarrow> if length hash + 1 > ?cap then Inl SSH_ERR_BUFFER_TOO_SMALL else Inr hash, ((), w1))"
    using read_hash_result [OF assms(1,3,5)] by blast
  obtain w2 where w2: "W w2" "read_hash_from_file (Some fs) (Some q) user ?cap ((), w1) =
    Some (case stored_hash user (text_lines shadow) of None \<Rightarrow> Inl SSH_ERR_NOT_FOUND
       | Some hash \<Rightarrow> if length hash + 1 > ?cap then Inl SSH_ERR_BUFFER_TOO_SMALL else Inr hash, ((), w2))"
    using read_hash_result [OF assms(2) w1(1) assms(6)] by blast
  have finish: "(if \<not> hash_field_is_usable hash then retP False else retP (verify_password_against_hash crypt password hash)) s =
      Some (Inr (\<not> placeholder hash \<and> crypt password hash = Some hash), s)"
    if "hash \<noteq> []" "length hash < ?cap" for hash and s :: "unit \<times> 'a"
    using that by (auto simp: placeholder_iff verify_password_against_hash_def split: option.splits)
  consider (absent) "stored_hash user (text_lines passwd) = None"
    | (long) entry where "stored_hash user (text_lines passwd) = Some entry" "\<not> length entry < ?cap"
    | (present) entry where "stored_hash user (text_lines passwd) = Some entry" "length entry < ?cap" "entry \<noteq> []"
    using stored_hash_not_Nil [of user "text_lines passwd"] by (cases "stored_hash user (text_lines passwd)") blast+
  then show ?thesis
  proof cases
    case present
    show ?thesis
    proof (cases "placeholder entry")
      case False
      then show ?thesis
        using w1 present finish [of entry "((), w1)"] by (auto simp: passwd_auth_verify_def tryP_def placeholder_iff verdict_def)
    next
      case True
      with w1 w2 present show ?thesis
        using stored_hash_not_Nil [of user "text_lines shadow"] finish [of _ "((), w2)"] assms(4)
        by (cases "stored_hash user (text_lines shadow)")
          (auto simp: passwd_auth_verify_def tryP_def placeholder_iff verdict_def)
    qed
  qed (use w1 in \<open>auto simp: passwd_auth_verify_def tryP_def verdict_def\<close>)
qed

text \<open>C18. The password callback decides by the files alone. On a file system that holds the two files, in the sense of \<open>contains\<close>, whose lines are
  shorter than the line buffer, it returns, leaves the files as they were, and
  accepts exactly when the entry of the user in force is a hash the password hashes to. An account that is absent or whose entry is a
  placeholder in both files cannot log in with any password.\<close>

theorem password_callback_decides_by_files:
  assumes "ssh_posix_passwd_auth_init (Some fs) passwd_path shadow_path = Inr auth"
    and "W w" "contains fs W (the (ppa_passwd_path auth)) passwd" "contains fs W (the (ppa_shadow_path auth)) shadow"
    and "list_all (\<lambda>l. length l < EMSSH_POSIX_PASSWD_AUTH_LINE_MAX) (text_lines passwd)"
    and "list_all (\<lambda>l. length l < EMSSH_POSIX_PASSWD_AUTH_LINE_MAX) (text_lines shadow)"
  shows "\<exists>w'. W w' \<and> ssh_posix_passwd_auth_cb crypt auth request ((), w) =
    Some (Inr (view_len (pwr_username request) < EMSSH_POSIX_PASSWD_AUTH_USERNAME_MAX \<and>
      view_len (pwr_password request) < EMSSH_POSIX_PASSWD_AUTH_PASSWORD_MAX \<and>
      verdict crypt passwd shadow (cstring_of (view_data (pwr_username request))) (cstring_of (view_data (pwr_password request)))), ((), w'))"
proof -
  obtain p q where auth: "ppa_fs auth = Some fs" "ppa_passwd_path auth = Some p" "ppa_shadow_path auth = Some q" "ppa_initialized auth" "q \<noteq> []"
    using assms(1) by (auto simp: ssh_posix_passwd_auth_init_def EMSSH_POSIX_SHADOW_PATH_def split: if_splits)
  have files: "contains fs W p passwd" "contains fs W q shadow"
    using assms(3,4) auth(2,3) by simp_all
  from verify_result [OF files assms(2) auth(5) assms(5,6)] auth assms(2) show ?thesis
    by (auto simp: ssh_posix_passwd_auth_cb_def copy_request_field_def EMSSH_POSIX_PASSWD_AUTH_USERNAME_MAX_def
        EMSSH_POSIX_PASSWD_AUTH_PASSWORD_MAX_def)
qed

text \<open>A file system with files of given contents; its world is the rest of the open file.\<close>

definition file_open :: "(u8 list \<times> u8 list) list \<Rightarrow> u8 list \<Rightarrow> u32 \<Rightarrow> (u8 list, nat) act" where
  "file_open files path flags w = (case map_of files path of None \<Rightarrow> (Inl SSH_ERR_NOT_FOUND, w) | Some content \<Rightarrow> (Inr 1, content))"

definition file_read :: "nat \<Rightarrow> nat \<Rightarrow> (u8 list, u8 list) act" where
  "file_read handle n w = (Inr (take n w), drop n w)"

definition file_fs :: "(u8 list \<times> u8 list) list \<Rightarrow> u8 list ssh_fs_api" where
  "file_fs files = \<lparr>fs_open = Some (file_open files), fs_close = Some (\<lambda>handle w. (Inr (), w)), fs_read = Some file_read,
     fs_write = None, fs_read_at = None, fs_write_at = None, fs_stat = None, fs_lstat = None, fs_setstat = None, fs_fsetstat = None,
     fs_opendir = None, fs_readdir = None, fs_closedir = None, fs_mkdir = None, fs_rmdir = None, fs_remove = None, fs_rename = None,
     fs_posix_rename = None, fs_fsync = None, fs_hardlink = None, fs_statvfs = None, fs_fstatvfs = None\<rparr>"

lemma file_read_delivers: "0 < n \<Longrightarrow> \<exists>pieces. delivers (file_read h n) pieces w \<and> concat pieces = w"
proof (induction w rule: length_induct)
  case (1 w)
  show ?case
  proof (cases "w = []")
    case True
    then show ?thesis
      by (intro exI [of _ "[]"]) (simp add: file_read_def)
  next
    case False
    with 1 obtain pieces where "delivers (file_read h n) pieces (drop n w)" "concat pieces = drop n w"
      by (metis length_drop diff_less length_greater_0_conv)
    with False 1(2) show ?thesis
      by (intro exI [of _ "take n w # pieces"]) (simp add: file_read_def [of h n w])
  qed
qed

lemma file_fs_contains: "map_of files path = Some content \<Longrightarrow> contains (file_fs files) (\<lambda>_. True) path content"
  using file_read_delivers [of 512 1] by (fastforce simp: contains_def file_fs_def file_open_def)

definition sample_files :: "(u8 list \<times> u8 list) list" where
  "sample_files = [(EMSSH_POSIX_PASSWD_PATH, lit ''bin:*:1:'' @ [10] @ lit ''root:x:0:'' @ [13, 10]),
     (EMSSH_POSIX_SHADOW_PATH, lit ''root:kk:19000:'')]"

definition sample_auth :: "u8 list ssh_posix_passwd_auth" where
  "sample_auth = \<lparr>ppa_fs = Some (file_fs sample_files), ppa_passwd_path = Some EMSSH_POSIX_PASSWD_PATH,
     ppa_shadow_path = Some EMSSH_POSIX_SHADOW_PATH, ppa_initialized = True\<rparr>"

text \<open>A function in place of \<^verbatim>\<open>crypt\<close>: the password pw hashes to kk.\<close>

definition sample_crypt :: "u8 list \<Rightarrow> u8 list \<Rightarrow> cstr" where
  "sample_crypt password setting = (if password = lit ''pw'' then Some (lit ''kk'') else None)"

lemma sample_auth_init: "ssh_posix_passwd_auth_init (Some (file_fs sample_files)) None None = Inr sample_auth"
  by (simp add: ssh_posix_passwd_auth_init_def sample_auth_def file_fs_def)

lemma sample_verdict:
  "verdict sample_crypt (lit ''bin:*:1:'' @ [10] @ lit ''root:x:0:'' @ [13, 10]) (lit ''root:kk:19000:'') (lit ''root'') (lit ''pw'')"
proof -
  have "stored_hash (lit ''root'') (text_lines (lit ''bin:*:1:'' @ [10] @ lit ''root:x:0:'' @ [13, 10])) = Some (lit ''x'')"
    "stored_hash (lit ''root'') (text_lines (lit ''root:kk:19000:'')) = Some (lit ''kk'')"
    "\<not> placeholder (lit ''kk'')" "placeholder (lit ''x'')"
    by code_simp+
  then show ?thesis
    by (simp add: verdict_def sample_crypt_def EMSSH_POSIX_PASSWD_AUTH_HASH_MAX_def)
qed

lemma sample_lines:
  "list_all (\<lambda>l. length l < EMSSH_POSIX_PASSWD_AUTH_LINE_MAX) (text_lines (lit ''bin:*:1:'' @ [10] @ lit ''root:x:0:'' @ [13, 10]))"
  "list_all (\<lambda>l. length l < EMSSH_POSIX_PASSWD_AUTH_LINE_MAX) (text_lines (lit ''root:kk:19000:''))"
  by (simp_all add: newline_def EMSSH_POSIX_PASSWD_AUTH_LINE_MAX_def)

lemma sample_contents:
  "contains (file_fs sample_files) (\<lambda>_. True) (the (ppa_passwd_path sample_auth)) (lit ''bin:*:1:'' @ [10] @ lit ''root:x:0:'' @ [13, 10])"
  "contains (file_fs sample_files) (\<lambda>_. True) (the (ppa_shadow_path sample_auth)) (lit ''root:kk:19000:'')"
  by (rule file_fs_contains,
      simp add: sample_files_def sample_auth_def EMSSH_POSIX_PASSWD_PATH_def EMSSH_POSIX_SHADOW_PATH_def)+

lemma sample_accepts:
  "\<exists>w'. ssh_posix_passwd_auth_cb sample_crypt sample_auth
     \<lparr>pwr_username = Some (lit ''root''), pwr_service_name = service, pwr_password = Some (lit ''pw'')\<rparr> ((), []) = Some (Inr True, ((), w'))"
  using verify_result [OF sample_contents TrueI _ sample_lines, of sample_crypt "lit ''root''" "lit ''pw''" "[]"] sample_verdict
  by (simp add: ssh_posix_passwd_auth_cb_def sample_auth_def copy_request_field_def cstring_of_def EMSSH_POSIX_SHADOW_PATH_def
      EMSSH_POSIX_PASSWD_AUTH_USERNAME_MAX_def EMSSH_POSIX_PASSWD_AUTH_PASSWORD_MAX_def)

theorem password_callback_decides_by_files_witness:
  "\<exists>w'. ssh_posix_passwd_auth_cb sample_crypt sample_auth
     \<lparr>pwr_username = Some (lit ''root''), pwr_service_name = None, pwr_password = Some (lit ''pw'')\<rparr> ((), []) = Some (Inr True, ((), w'))"
  using password_callback_decides_by_files [OF sample_auth_init TrueI sample_contents sample_lines,
      of sample_crypt "\<lparr>pwr_username = Some (lit ''root''), pwr_service_name = None, pwr_password = Some (lit ''pw'')\<rparr>" "[]"] sample_verdict
  by (simp add: cstring_of_def EMSSH_POSIX_PASSWD_AUTH_USERNAME_MAX_def EMSSH_POSIX_PASSWD_AUTH_PASSWORD_MAX_def)

section \<open>A user name with a NUL\<close>

text \<open>The callback as the predicate of the server's configuration: its answer in a world. The evaluation of a request calls it at most once and
  uses nothing but the answer, so what reading the files does to the world is left out there.\<close>

definition passwd_check :: "(u8 list \<Rightarrow> u8 list \<Rightarrow> cstr) \<Rightarrow> 'w ssh_posix_passwd_auth \<Rightarrow> 'w \<Rightarrow> ssh_password_auth_request \<Rightarrow> bool" where
  "passwd_check crypt auth w request =
    (case ssh_posix_passwd_auth_cb crypt auth request ((), w) of Some (Inr b, _) \<Rightarrow> b | _ \<Rightarrow> False)"

text \<open>C36. The login policy compares the whole user name, but the password files, and later the terminal, are given a C string. With
  \<^verbatim>\<open>PermitRootLogin no\<close> the user root is refused whatever the password; but the name root followed by a NUL is not the name root for the
  policy, and is root for the callback and for the terminal that is started. Whoever knows the password of root logs in.\<close>

theorem nul_name_passes_root_policy:
  assumes "cfg_permit_root_login (srv_config server) = EMSSH_PERMIT_ROOT_LOGIN_NO" "cfg_allow_users (srv_config server) = None"
    and "cfg_password_auth (srv_config server) = Some (passwd_check crypt auth w)"
    and "ua_method_name request = Some SSH_AUTH_METHOD_PASSWORD" "ua_service_name request = Some SSH_SERVICE_CONNECTION"
    and "\<not> ua_password_change_request request"
    and "passwd_check crypt auth w \<lparr>pwr_username = Some (lit ''root''), pwr_service_name = ua_service_name request,
      pwr_password = ua_password request\<rparr>"
  shows "ssh_userauth_evaluate_request backend server (request\<lparr>ua_username := Some (lit ''root'')\<rparr>) session_id =
      Inr SSH_USERAUTH_DECISION_FAILURE \<and>
    ssh_userauth_evaluate_request backend server (request\<lparr>ua_username := Some (lit ''root'' @ [0])\<rparr>) session_id =
      Inr SSH_USERAUTH_DECISION_SUCCESS \<and>
    cstring_of (lit ''root'' @ [0]) = lit ''root''"
proof -
  have "ssh_posix_passwd_auth_cb crypt auth \<lparr>pwr_username = Some (lit ''root'' @ [0]), pwr_service_name = service, pwr_password = password\<rparr> =
      ssh_posix_passwd_auth_cb crypt auth \<lparr>pwr_username = Some (lit ''root''), pwr_service_name = service, pwr_password = password\<rparr>"
    for service password
    by (cases "ppa_initialized auth")
      (simp_all add: ssh_posix_passwd_auth_cb_def copy_request_field_def cstring_of_def EMSSH_POSIX_PASSWD_AUTH_USERNAME_MAX_def)
  then have "passwd_check crypt auth w \<lparr>pwr_username = Some (lit ''root'' @ [0]), pwr_service_name = ua_service_name request,
      pwr_password = ua_password request\<rparr>"
    using assms(7) by (simp only: passwd_check_def)
  then show ?thesis
    using assms by (simp add: ssh_userauth_evaluate_request_def ssh_userauth_authenticate_password_def policy_iff
        username_allowed_by_allow_users_def cstring_of_def)
qed

theorem nul_name_passes_root_policy_witness:
  "ssh_userauth_evaluate_request None (sample_server\<lparr>srv_config := (srv_config sample_server)\<lparr>
      cfg_permit_root_login := EMSSH_PERMIT_ROOT_LOGIN_NO, cfg_allow_users := None,
      cfg_password_auth := Some (passwd_check sample_crypt sample_auth [])\<rparr>\<rparr>) (sample_request (lit ''root'' @ [0])) None =
     Inr SSH_USERAUTH_DECISION_SUCCESS"
proof -
  let ?server = "sample_server\<lparr>srv_config := (srv_config sample_server)\<lparr>cfg_permit_root_login := EMSSH_PERMIT_ROOT_LOGIN_NO,
    cfg_allow_users := None, cfg_password_auth := Some (passwd_check sample_crypt sample_auth [])\<rparr>\<rparr>"
  obtain w' where "ssh_posix_passwd_auth_cb sample_crypt sample_auth \<lparr>pwr_username = Some (lit ''root''),
      pwr_service_name = Some SSH_SERVICE_CONNECTION, pwr_password = Some (lit ''pw'')\<rparr> ((), []) = Some (Inr True, ((), w'))"
    using sample_accepts by blast
  then have "passwd_check sample_crypt sample_auth [] \<lparr>pwr_username = Some (lit ''root''), pwr_service_name = Some SSH_SERVICE_CONNECTION,
      pwr_password = Some (lit ''pw'')\<rparr>"
    by (simp only: passwd_check_def option.case prod.case sum.case)
  then have "ssh_userauth_evaluate_request None ?server ((sample_request [])\<lparr>ua_username := Some (lit ''root'' @ [0])\<rparr>) None =
      Inr SSH_USERAUTH_DECISION_SUCCESS"
    by (intro nul_name_passes_root_policy [THEN conjunct2, THEN conjunct1]) (simp_all add: sample_request_def empty_userauth_request_def)
  then show ?thesis
    by (simp add: sample_request_def empty_userauth_request_def)
qed

end
