(* ===== verification/Spec2Isabelle.thy ===== *)
theory Spec2Isabelle
  imports Sftp_Protocol Ssh_Session_Channel Sshd_Config Posix_Passwd
begin

text \<open>
  EMSSHD is an SSH and SFTP server in C for small systems. This development models the server, from the bytes on the connection to the calls
  of the file system and the terminal, and proves what makes it correct. Paths below are relative to \<^verbatim>\<open>src/\<close> of the repository's
  source tree.

  \<^bold>\<open>The program.\<close> A connection is served by one of the three session functions of \<^verbatim>\<open>src/core/ssh_server.c\<close>. They set up the
  transport (\<^verbatim>\<open>src/core/ssh_transport.c\<close>): identification lines, algorithm negotiation and key exchange
  (\<^verbatim>\<open>src/core/ssh_kex.c\<close>), then protected packets (\<^verbatim>\<open>src/core/ssh_packet.c\<close>) over wire primitives
  (\<^verbatim>\<open>src/core/ssh_buffer.c\<close>). They authenticate the user (\<^verbatim>\<open>src/core/ssh_service.c\<close>, \<^verbatim>\<open>src/core/ssh_userauth.c\<close>), accept a
  channel (\<^verbatim>\<open>src/core/ssh_connection.c\<close>), and serve SFTP requests (\<^verbatim>\<open>src/sftp/sftp.c\<close>, \<^verbatim>\<open>src/sftp/sftp_server.c\<close>) or a terminal on it.
  The login policy comes from a configuration file (\<^verbatim>\<open>src/platform/sshd_config_file.c\<close>), passwords are checked against the password files
  (\<^verbatim>\<open>src/platform/posix_passwd_auth.c\<close>).

  \<^bold>\<open>How C becomes HOL.\<close> A function with a status is an action on the object it works on (\<open>Emssh_Prelude\<close>), a function above the network a
  procedure that may also not return (\<open>Emssh_Proc\<close>). Structures are records, machine integers are words, error codes are the type \<open>ssh_err\<close>. A
  definition has the name of the C function it translates; parts of long functions (a loop, the body of a turn, a branch) are definitions of their
  own. Callbacks and external libraries are parameters: fields of a record over a world \<open>'w\<close>, with what the code relies on as hypotheses.

  \<^bold>\<open>The theories.\<close>
  \<^item> \<open>Emssh_Prelude\<close>, \<open>Emssh_Proc\<close>: actions, procedures, one weakest-precondition calculus for partial and total correctness, loop rules.
  \<^item> \<open>Ssh_Buffer\<close>, \<open>Ssh_Name_List\<close>: wire primitives and name-lists; the locales \<open>wire_format\<close>, \<open>message_decoder\<close> and \<open>wire_message\<close> give every
    message decoder above its exactness and its round trip.
  \<^item> \<open>Ssh_Kex\<close>: key exchange messages and the negotiation; the chosen algorithms are the first common ones.
  \<^item> \<open>Ssh_Packet\<close>: packet framing, encryption and MAC; an accepted packet is authentic, a rejected one changes nothing, a stream of packets
    arrives as it was sent.
  \<^item> \<open>Ssh_Service\<close>, \<open>Ssh_Userauth\<close>: authentication messages, login policy, password and key authentication; no success without credentials.
  \<^item> \<open>Ssh_Connection\<close>: channel messages and requests, with exact decoders.
  \<^item> \<open>Sftp_Codec\<close>, \<open>Sftp_Path\<close>, \<open>Sftp_Server\<close>, \<open>Sftp_Handles\<close>, \<open>Sftp_Protocol\<close>, \<open>Sftp_World\<close>: the SFTP server; path normalisation is resolution
    of segments, every call of the file system has the approval of the policy for the operation of its request and is made on a live handle, every reply
    answers its request.
  \<^item> \<open>Ssh_Transport\<close>, \<open>Ssh_Transport_Laws\<close>, \<open>Ssh_Transport_Props\<close>: the transport; the locale \<open>session_contract\<close> lifts an invariant of the elementary
    steps to every procedure. Session identity, sizes of the session's arrays, derived keys, authentic payloads, a reliable link between two sessions, termination.
  \<^item> \<open>Ssh_Session_Server\<close>, \<open>Ssh_Session_Laws\<close>, \<open>Ssh_Session_Props\<close>, \<open>Ssh_Session_Live\<close>, \<open>Ssh_Session_Channel\<close>: whole sessions; the locale
    \<open>session_services\<close> extends the contract by the services after authentication. Only verified users are served, every session returns,
    responses respect the window, the bytes of a channel are cut into requests.
  \<^item> \<open>Text_Lines\<close>, \<open>Sshd_Config\<close>, \<open>Posix_Passwd\<close>: files read by lines, the configuration file, the password files; the locale \<open>line_handler\<close> is
    the contract of a function for a line, the locale \<open>setting\<close> that of a directive.
  \<^item> This theory: from the text of a configuration file to the users that are served.

  \<^bold>\<open>Loops and bounds.\<close> Loops over data are recursive functions with a termination proof, or bounded \<^verbatim>\<open>for\<close> loops (\<open>forP\<close>). Loops over the
  connection and over a file are \<open>loopP\<close>, a partial function whose value \<open>None\<close> is a call that does not return; there is no fuel. That they return is
  proved: for the transport on a connection whose timeouts end (\<open>timeouts_end\<close>), for a session on a connection that delivers finitely much
  (\<open>finite_input\<close>) and a terminal whose exit status settles (\<open>wait_exit_settles\<close>), for a file on a file system that reports its end (\<open>delivers\<close>). The
  wildcard loop is a partial function that is proved total. Buffer sizes are those of the headers.

  \<^bold>\<open>Hypotheses.\<close> What is asked of a callback is asked only of the calls the code makes. Of a cipher, with the negotiated key and on
  areas of the sizes of packets: that it works in place (\<open>cipher_in_place\<close>, for all keys of a server \<open>crypto_in_place\<close>), that decryption undoes encryption
  (\<open>cipher_sound\<close>) or the converse (\<open>cipher_restores\<close>), and that the first block can be decrypted alone (\<open>cipher_streams\<close>); of a MAC, that it is computed
  and has its length (\<open>mac_sound\<close>). Never that a cryptographic primitive is strong: theorems on authenticity say that the MAC or the signature was
  computed over exactly these bytes and compared. \<open>host_fits\<close> says that no callback reports more bytes than the array it is given has room for, \<open>contains\<close>
  that a file can be opened and read, \<open>closable\<close> that a file system has the two close functions. \<open>transport_keeps\<close>, \<open>fs_keeps\<close> and \<open>term_keeps\<close> say
  which callbacks keep a predicate on the world. The two authentication callbacks of the configuration are predicates on requests: the evaluation of a
  request uses nothing but their answer, and their effect on the world (the password files are read) is left out there; the callback of
  \<^verbatim>\<open>posix_passwd_auth.c\<close> itself is modelled with the world.

  \<^bold>\<open>Shortcomings of the code\<close> that are proved as theorems: a pattern that ends in a star does not match a longer name that starts with
  the pattern, handle identifiers collide after
  the counter wraps, a name with a NUL passes the policy for root, a window adjustment leaves a response pending, a timeout inside a packet loses
  the packet, an IPv6 address without brackets is split.

  \<^bold>\<open>Not modelled.\<close>
  \<^item> The cryptographic back ends in \<^verbatim>\<open>src/crypto/\<close> and the random generators: bindings to third-party libraries behind the interface the model
    takes as a parameter. The parser for OpenSSH key files only feeds such a library.
  \<^item> The adapters in \<^verbatim>\<open>src/platform/\<close> for files, sockets, threads, clocks and pseudo terminals: calls of the operating system or of a file system
    library; \<^verbatim>\<open>portable_fs.c\<close> forwards each call. They implement the interfaces that are parameters here.
  \<^item> The applications and examples: command lines, process start-up and the wiring of the parts.
  \<^item> Trace output on stderr and the wiping of buffers before they go out of scope, which no modelled function reads.
\<close>

section \<open>From the configuration file to the users that are served\<close>

text \<open>A user that a line of \<^verbatim>\<open>AllowUsers\<close> admits: the C string of a name that matches one of its patterns.\<close>

definition admitted :: "u8 list \<Rightarrow> cstr \<Rightarrow> bool" where
  "admitted patterns user \<longleftrightarrow> (\<exists>name pattern. pattern \<in> set (allow_patterns patterns) \<and> glob pattern name \<and>
     user = (if name = [] then None else Some (cstring_of name)))"

text \<open>A world that the transport keeps, and that the callbacks after authentication keep when they work for a user with \<open>P\<close>.\<close>

definition confines_to :: "(cstr \<Rightarrow> bool) \<Rightarrow> ('w, 'z) ssh_session_host_scheme \<Rightarrow> 'w ssh_server_session_options \<Rightarrow> ('w \<Rightarrow> bool) \<Rightarrow> bool" where
  "confines_to P server effective W \<longleftrightarrow> transport_keeps server W \<and>
     (\<forall>user. P user \<longrightarrow>
       (\<forall>fs. host_fs server = Some fs \<longrightarrow> fs_keeps W fs) \<and>
       (\<forall>term. host_term server = Some term \<longrightarrow> term_keeps W user term) \<and>
       policy_keeps W (opt_sftp_policy effective) \<and>
       (\<forall>f request. opt_non_sftp_channel_request_policy effective = Some f \<longrightarrow> call_keeps W (f request)) \<and>
       (\<forall>log line w. host_log server = Some log \<longrightarrow> W w \<longrightarrow> W (log line w)))"

lemma confines_to_confines:
  "(\<And>user. verified_user server user \<Longrightarrow> P user) \<Longrightarrow> confines_to P server effective W \<Longrightarrow> confines server effective W"
  unfolding confines_to_def confines_def by blast

lemma verified_user_admitted:
  assumes "cfg_allow_users (srv_config server) = Some patterns" "patterns \<noteq> []" "verified_user server user"
  shows "admitted patterns user"
proof -
  obtain sid name request where
    success: "ssh_userauth_evaluate_request (host_backend_algorithms server) (ssh_server.truncate server) request (Some sid) =
      Inr SSH_USERAUTH_DECISION_SUCCESS"
    and name: "view_to_cstring (ua_username request) EMSSH_MAX_USERAUTH_PAYLOAD = Inr name"
    and user: "user = (if name = [] then None else Some (cstring_of name))"
    using assms(3) unfolding verified_user_def granted_def by blast
  have "request_allowed_by_server_policy (ssh_server.truncate server) request"
    using evaluate_success [OF success] ..
  then have "username_allowed_by_allow_users (Some patterns) (ua_username request)"
    using assms(1) by (simp add: policy_iff ssh_server.defs)
  then obtain bs pattern where "ua_username request = Some bs" "pattern \<in> set (allow_patterns patterns)" "glob pattern bs"
    using assms(2) by (cases "ua_username request")
      (auto simp: username_allowed_by_allow_users_def allow_users_loop_iff dest: pattern_matches_sound split: if_splits)
  with name user show ?thesis
    unfolding admitted_def by (auto simp: view_to_cstring_def split: if_splits)
qed

text \<open>C2. Only the users the configuration file admits are served. The lines of a file are read without error, and the configuration of the server
  is what they make of some base configuration; \<^verbatim>\<open>AllowUsers\<close> is in force with some patterns. A predicate on the world that the
  network, the random numbers and the host key keep, and that the file system, the policies, the log and the terminal keep when they work for a
  user whose name matches one of the patterns, holds after every session: no shell is started under another name.\<close>

theorem only_configured_users_are_served:
  assumes "run_lines (config_line ctx) (retA ()) lines (ssh_sshd_config_file_defaults, True) = (Inr (), (c, active))"
    and "srv_config server = apply_server_config c base"
    and "in_force (lit ''AllowUsers'') (effective_directives ctx True lines) = Some patterns"
    and "session \<in> server_sessions server options u"
    and "confines_to (admitted patterns) server (effective_session_options options) W" "W w"
    and "session (d, w) = Some (r, (d', w'))"
  shows "W w'"
proof -
  have "cfg_allow_users (srv_config server) = Some patterns" "patterns \<noteq> []"
    using users_setting.in_force_is_set [OF assms(1)] assms(2,3)
    by (auto simp: apply_server_config_fields set_string_value_def simp del: lit_simps split: if_splits)
  from confines_to_confines [OF verified_user_admitted [OF this] assms(5)]
  show ?thesis
    using sessions_confined [where W = W and w = w, OF assms(4)] assms(6,7) by blast
qed

lemma sample_line_run:
  "run_lines (config_line None) (retA ()) [lit ''AllowUsers a*''] (ssh_sshd_config_file_defaults, True) =
     (Inr (), (ssh_sshd_config_file_defaults\<lparr>scf_allow_users := lit ''a*'', scf_has_allow_users := True\<rparr>, True))"
  by code_simp

lemma sample_line_in_force: "in_force (lit ''AllowUsers'') (effective_directives None True [lit ''AllowUsers a*'']) = Some (lit ''a*'')"
  by code_simp

lemma shell_host_config:
  "srv_config shell_host = apply_server_config (ssh_sshd_config_file_defaults\<lparr>scf_allow_users := lit ''a*'', scf_has_allow_users := True\<rparr>)
     (srv_config shell_host)"
  by (simp add: apply_server_config_def ssh_sshd_config_file_defaults_def shell_host_def ssh_server.defs sample_server_def Let_def)

lemma al_admitted: "admitted (lit ''a*'') (Some (lit ''al''))"
proof -
  have "lit ''a*'' \<in> set (allow_patterns (lit ''a*''))" "username_pattern_matches (lit ''a*'') (lit ''al'')"
    "cstring_of (lit ''al'') = lit ''al''" "lit ''al'' \<noteq> []"
    by code_simp+
  then show ?thesis
    unfolding admitted_def by (metis pattern_matches_sound)
qed

theorem only_configured_users_are_served_witness:
  "case ssh_server_run_terminal_session shell_host None fresh_session (update_server_diag_from_transport fresh_session, [Some (lit ''al'')]) of
     Some (_, (_, users)) \<Rightarrow> list_all (admitted (lit ''a*'')) users | None \<Rightarrow> False"
proof -
  have confined: "confines_to (admitted (lit ''a*'')) shell_host (effective_session_options None) (list_all (admitted (lit ''a*'')))"
    by (auto simp: confines_to_def transport_keeps_def term_keeps_def call_keeps_def policy_keeps_def effective_session_options_def
        ssh_server_session_options_defaults_def simp del: lit_simps)
  obtain r d w where "ssh_server_run_terminal_session shell_host None fresh_session
      (update_server_diag_from_transport fresh_session, [Some (lit ''al'')]) = Some (r, (d, w))"
    using wpP_returns [OF shell_host_returns] by (metis option.collapse prod.collapse)
  then show ?thesis
    using only_configured_users_are_served [OF sample_line_run shell_host_config sample_line_in_force _ confined,
        of "ssh_server_run_terminal_session shell_host None fresh_session" fresh_session "[Some (lit ''al'')]"] al_admitted
    by (auto simp: server_sessions_def simp del: lit_simps)
qed

end
